(* ===== verification/Rust_Prelude.thy ===== *)
theory Rust_Prelude
  imports Main "HOL-Library.Char_ord" "HOL-Library.List_Lexorder" "HOL-Library.Product_Lexorder"
    "HOL-Library.AList" "HOL-Library.Multiset" "HOL-Library.Sublist"
    "HOL-Library.Word"
begin

text \<open>
  Shared vocabulary of the development: the parts of Rust's core language and standard library
  that the modelled crates use, and the generic lemmas the component theories rely on.

  A Rust \<^verbatim>\<open>String\<close> or \<^verbatim>\<open>&str\<close> is its UTF-8 byte sequence, an Isabelle \<^typ>\<open>string\<close> whose
  characters are bytes: equality, \<^verbatim>\<open>len\<close>, \<^verbatim>\<open>push_str\<close>, \<^verbatim>\<open>contains\<close>, \<^verbatim>\<open>starts_with\<close> and the
  byte-lexicographic \<^verbatim>\<open>Ord\<close> are those of byte lists. \<^verbatim>\<open>chars()\<close> splits the sequence before every
  byte that is not a UTF-8 continuation byte.

  A \<^verbatim>\<open>HashMap\<close> is an association list read with \<^term>\<open>map_of\<close>; its order stands for the
  unspecified iteration order, so a theorem about every association list is a theorem about
  every iteration order. A \<^verbatim>\<open>HashSet\<close> that is only queried is a set.
\<close>

section \<open>Collections of facts\<close>

named_theorems rust_str_simps \<open>evaluation of the string operations\<close>
named_theorems hmap_simps \<open>lookups in updated hash maps\<close>

section \<open>Definitions\<close>

subsection \<open>Machine integers\<close>

text \<open>
  Values that the code only stores or moves keep their width. Lengths, indices and counters of
  in-memory collections (\<^verbatim>\<open>usize\<close>) are \<^typ>\<open>nat\<close>.
\<close>

type_synonym u8 = "8 word"
type_synonym u16 = "16 word"
type_synonym u32 = "32 word"
type_synonym u64 = "64 word"

text \<open>
  Where signed arithmetic matters an \<^verbatim>\<open>i32\<close> is an integer between its bounds, and the wrap-around
  of a build without overflow checks is written out.
\<close>

definition i32_wrap :: "int \<Rightarrow> int" where
  "i32_wrap z = (z + 2147483648) mod 4294967296 - 2147483648"

subsection \<open>Hash maps\<close>

type_synonym ('k, 'v) hmap = "('k \<times> 'v) list"

abbreviation hget :: "('k, 'v) hmap \<Rightarrow> 'k \<Rightarrow> 'v option" where
  "hget m k \<equiv> map_of m k"

abbreviation hput :: "'k \<Rightarrow> 'v \<Rightarrow> ('k, 'v) hmap \<Rightarrow> ('k, 'v) hmap" where
  "hput k v m \<equiv> AList.update k v m"

abbreviation hdel :: "'k \<Rightarrow> ('k, 'v) hmap \<Rightarrow> ('k, 'v) hmap" where
  "hdel k m \<equiv> AList.delete k m"

text \<open>\<^verbatim>\<open>map.get(k).copied().unwrap_or(d)\<close>, also the value an \<^verbatim>\<open>entry(k).or_insert(d)\<close> sees.\<close>

definition hget_or :: "'v \<Rightarrow> ('k, 'v) hmap \<Rightarrow> 'k \<Rightarrow> 'v" where
  "hget_or d m k = (case hget m k of None \<Rightarrow> d | Some v \<Rightarrow> v)"

text \<open>\<^verbatim>\<open>*map.entry(k).or_insert(d)\<close> followed by an in-place change of the value.\<close>

definition hentry :: "'v \<Rightarrow> 'k \<Rightarrow> ('v \<Rightarrow> 'v) \<Rightarrow> ('k, 'v) hmap \<Rightarrow> ('k, 'v) hmap" where
  "hentry d k f m = hput k (f (hget_or d m k)) m"

text \<open>\<^verbatim>\<open>if let Some(v) = map.get_mut(k) { change v }\<close>.\<close>

definition hmodify :: "'k \<Rightarrow> ('v \<Rightarrow> 'v) \<Rightarrow> ('k, 'v) hmap \<Rightarrow> ('k, 'v) hmap" where
  "hmodify k f m = (case hget m k of None \<Rightarrow> m | Some v \<Rightarrow> hput k (f v) m)"

subsection \<open>UTF-8 strings\<close>

definition utf8_cont :: "char \<Rightarrow> bool" where
  "utf8_cont c \<longleftrightarrow> 128 \<le> (of_char c :: nat) \<and> (of_char c :: nat) < 192"

function utf8_chars :: "string \<Rightarrow> string list" where
  "utf8_chars [] = []"
| "utf8_chars (b # bs) = (b # takeWhile utf8_cont bs) # utf8_chars (dropWhile utf8_cont bs)"
  by pat_completeness auto
termination
  by (relation "measure length") (auto simp: length_dropWhile_le less_Suc_eq_le)

definition chars_count :: "string \<Rightarrow> nat" where
  "chars_count s = length (utf8_chars s)"

text \<open>\<^verbatim>\<open>s.chars().take(n).collect::<String>()\<close>.\<close>

definition take_chars :: "nat \<Rightarrow> string \<Rightarrow> string" where
  "take_chars n s = concat (take n (utf8_chars s))"

definition is_char_boundary :: "string \<Rightarrow> nat \<Rightarrow> bool" where
  "is_char_boundary s i \<longleftrightarrow> i = 0 \<or> i = length s \<or> (i < length s \<and> \<not> utf8_cont (s ! i))"

text \<open>The loop that moves a cut back to a character boundary.\<close>

fun shrink_to_boundary :: "string \<Rightarrow> nat \<Rightarrow> nat" where
  "shrink_to_boundary v 0 = 0"
| "shrink_to_boundary v (Suc e) =
     (if \<not> is_char_boundary v (Suc e) then shrink_to_boundary v e else Suc e)"

text \<open>The code points with the Unicode property \<^verbatim>\<open>White_Space\<close>, as UTF-8 sequences.\<close>

definition whitespace_chars :: "string list" where
  "whitespace_chars =
     [[CHR 0x09], [CHR 0x0A], [CHR 0x0B], [CHR 0x0C], [CHR 0x0D], [CHR 0x20],
      [CHR 0xC2, CHR 0x85], [CHR 0xC2, CHR 0xA0], [CHR 0xE1, CHR 0x9A, CHR 0x80],
      [CHR 0xE2, CHR 0x80, CHR 0x80], [CHR 0xE2, CHR 0x80, CHR 0x81], [CHR 0xE2, CHR 0x80, CHR 0x82],
      [CHR 0xE2, CHR 0x80, CHR 0x83], [CHR 0xE2, CHR 0x80, CHR 0x84], [CHR 0xE2, CHR 0x80, CHR 0x85],
      [CHR 0xE2, CHR 0x80, CHR 0x86], [CHR 0xE2, CHR 0x80, CHR 0x87], [CHR 0xE2, CHR 0x80, CHR 0x88],
      [CHR 0xE2, CHR 0x80, CHR 0x89], [CHR 0xE2, CHR 0x80, CHR 0x8A], [CHR 0xE2, CHR 0x80, CHR 0xA8],
      [CHR 0xE2, CHR 0x80, CHR 0xA9], [CHR 0xE2, CHR 0x80, CHR 0xAF], [CHR 0xE2, CHR 0x81, CHR 0x9F],
      [CHR 0xE3, CHR 0x80, CHR 0x80]]"

definition is_whitespace :: "string \<Rightarrow> bool" where
  "is_whitespace ch \<longleftrightarrow> ch \<in> set whitespace_chars"

definition trim_start :: "string \<Rightarrow> string" where
  "trim_start s = concat (dropWhile is_whitespace (utf8_chars s))"

definition trim_end :: "string \<Rightarrow> string" where
  "trim_end s = concat (rev (dropWhile is_whitespace (rev (utf8_chars s))))"

definition trim :: "string \<Rightarrow> string" where
  "trim s = trim_end (trim_start s)"

text \<open>\<^verbatim>\<open>split_whitespace\<close>: the maximal runs of characters that are not white space.\<close>

function split_runs :: "('a \<Rightarrow> bool) \<Rightarrow> 'a list \<Rightarrow> 'a list list" where
  "split_runs p [] = []"
| "split_runs p (c # cs) =
     (if p c then split_runs p cs
      else (c # takeWhile (\<lambda>x. \<not> p x) cs) # split_runs p (dropWhile (\<lambda>x. \<not> p x) cs))"
  by pat_completeness auto
termination
  by (relation "measure (length \<circ> snd)") (auto simp: length_dropWhile_le less_Suc_eq_le)

definition split_whitespace :: "string \<Rightarrow> string list" where
  "split_whitespace s = map concat (split_runs is_whitespace (utf8_chars s))"

fun str_contains :: "string \<Rightarrow> string \<Rightarrow> bool" where
  "str_contains pat [] = (pat = [])"
| "str_contains pat (c # s) = (prefix pat (c # s) \<or> str_contains pat s)"

fun join :: "'a list \<Rightarrow> 'a list list \<Rightarrow> 'a list" where
  "join sep [] = []"
| "join sep [x] = x"
| "join sep (x # y # ys) = x @ sep @ join sep (y # ys)"

text \<open>The newline and the two quotes, which string literals cannot hold.\<close>

definition nl :: string where
  "nl = [CHR 0x0A]"

definition apos :: string where
  "apos = [CHR 0x27]"

definition quot :: string where
  "quot = [CHR 0x22]"

subsection \<open>Decimal numbers\<close>

definition digit_char :: "nat \<Rightarrow> char" where
  "digit_char d = char_of (48 + d)"

fun show_nat :: "nat \<Rightarrow> string" where
  "show_nat n = (if n < 10 then [digit_char n] else show_nat (n div 10) @ [digit_char (n mod 10)])"

declare show_nat.simps [simp del]

definition show_int :: "int \<Rightarrow> string" where
  "show_int i = (if i < 0 then CHR ''-'' # show_nat (nat (- i)) else show_nat (nat i))"

definition hex_digit :: "nat \<Rightarrow> char" where
  "hex_digit d = (if d < 10 then digit_char d else char_of (87 + d))"

text \<open>\<^verbatim>\<open>{:016x}\<close>.\<close>

definition hex16 :: "u64 \<Rightarrow> string" where
  "hex16 w = map (\<lambda>i. hex_digit (unat w div 16 ^ i mod 16)) (rev [0..<16])"

text \<open>A function that lists the entries of a hash map in some order: it permutes its argument.\<close>

definition hash_order :: "('a list \<Rightarrow> 'a list) \<Rightarrow> bool" where
  "hash_order iter \<longleftrightarrow> (\<forall>xs. mset (iter xs) = mset xs)"

section \<open>Lemmas\<close>

subsection \<open>Lists\<close>

lemma hash_order_rev [simp]: "hash_order rev"
  by (simp add: hash_order_def)

lemma hash_order_set: "hash_order iter \<Longrightarrow> set (iter xs) = set xs"
  by (metis hash_order_def set_mset_mset)

lemma hash_order_distinct: "hash_order iter \<Longrightarrow> distinct (iter xs) \<longleftrightarrow> distinct xs"
  by (metis hash_order_def mset_eq_imp_distinct_iff)

lemma sort_eq_sorted_list_of_set: "distinct xs \<Longrightarrow> set xs = A \<Longrightarrow> sort xs = sorted_list_of_set A"
  by (auto simp: sorted_list_of_set_sort_remdups distinct_remdups_id)

lemma find_distinct_key: "distinct (map f xs) \<Longrightarrow> x \<in> set xs \<Longrightarrow> find (\<lambda>y. f y = f x) xs = Some x"
  by (induction xs) auto

lemma find_least:
  assumes "sorted_wrt (\<lambda>a b. (f a :: 'b :: linorder) < f b) xs" and "find P xs = Some x"
  shows "x \<in> set xs \<and> P x \<and> (\<forall>y\<in>set xs. P y \<longrightarrow> f x \<le> f y)"
  using assms
proof (induction xs)
  case (Cons a xs)
  then show ?case by (cases "P a") (auto simp: less_imp_le)
qed simp

lemma find_map: "find P (map f xs) = map_option f (find (P \<circ> f) xs)"
  by (induction xs) auto

subsection \<open>Hash maps\<close>

lemma hget_keys: "k \<in> fst ` set m \<Longrightarrow> hget m k = Some (hget_or d m k)"
  by (cases "hget m k") (auto simp: hget_or_def map_of_eq_None_iff)


lemma hget_hput [hmap_simps]: "hget (hput k v m) k' = (if k' = k then Some v else hget m k')"
  by (simp add: update_conv)

lemma hget_hdel [hmap_simps]: "hget (hdel k m) k' = (if k' = k then None else hget m k')"
  by (simp add: delete_conv)

lemma hget_hmodify [hmap_simps]:
  "hget (hmodify k f m) k' = (if k' = k then map_option f (hget m k) else hget m k')"
  by (auto simp: hmodify_def hget_hput split: option.split)

lemma hget_hentry [hmap_simps]:
  "hget (hentry d k f m) k' = (if k' = k then Some (f (hget_or d m k)) else hget m k')"
  by (simp add: hentry_def hget_hput)

lemma hget_or_hput [hmap_simps]: "hget_or d (hput k v m) k' = (if k' = k then v else hget_or d m k')"
  by (simp add: hget_or_def hget_hput)

lemma hget_or_hdel [hmap_simps]: "hget_or d (hdel k m) k' = (if k' = k then d else hget_or d m k')"
  by (simp add: hget_or_def hget_hdel)

lemma hget_or_hentry [hmap_simps]:
  "hget_or d (hentry d k f m) k' = (if k' = k then f (hget_or d m k) else hget_or d m k')"
  by (simp add: hentry_def hget_or_hput)

lemma hmap_empty_iff: "m = [] \<longleftrightarrow> (\<forall>k. hget m k = None)"
  by (cases m) (auto split: if_splits)

lemma keys_hput: "fst ` set (hput k v m) = insert k (fst ` set m)"
  by (auto simp: update_conv simp flip: dom_map_of_conv_image_fst)

lemma keys_hdel: "fst ` set (hdel k m) = fst ` set m - {k}"
  by (auto simp: delete_conv simp flip: dom_map_of_conv_image_fst split: if_splits)

lemma keys_hmodify [simp]: "fst ` set (hmodify k f m) = fst ` set m"
  by (auto simp: hmodify_def keys_hput dest: map_of_SomeD split: option.split)
    (metis fst_conv image_eqI map_of_SomeD)

lemma keys_hentry [simp]: "fst ` set (hentry d k f m) = insert k (fst ` set m)"
  by (simp add: hentry_def keys_hput)

lemma distinct_keys_hentry: "distinct (map fst m) \<Longrightarrow> distinct (map fst (hentry d k f m))"
  by (simp add: hentry_def distinct_update)

lemma distinct_keys_hmodify: "distinct (map fst m) \<Longrightarrow> distinct (map fst (hmodify k f m))"
  by (simp add: hmodify_def distinct_update split: option.split)

subsection \<open>Characters of a string\<close>

fun utf8_wf :: "string list \<Rightarrow> bool" where
  "utf8_wf [] = True"
| "utf8_wf (p # ps) = (p \<noteq> [] \<and> list_all utf8_cont (tl p) \<and>
     list_all (\<lambda>q. q \<noteq> [] \<and> \<not> utf8_cont (hd q) \<and> list_all utf8_cont (tl q)) ps)"

lemma concat_utf8_chars [simp]: "concat (utf8_chars s) = s"
  by (induction s rule: utf8_chars.induct) auto

lemma utf8_wf_utf8_chars [simp]: "utf8_wf (utf8_chars s)"
proof (induction s rule: utf8_chars.induct)
  case 1
  then show ?case by simp
next
  case (2 b bs)
  have hd: "dropWhile utf8_cont bs = [] \<or> \<not> utf8_cont (hd (dropWhile utf8_cont bs))"
    using hd_dropWhile by blast
  show ?case
  proof (cases "dropWhile utf8_cont bs")
    case Nil
    have "utf8_chars (dropWhile utf8_cont bs) = []" unfolding Nil by simp
    then show ?thesis by (auto simp: list_all_iff dest: set_takeWhileD)
  next
    case (Cons c cs)
    with hd 2 show ?thesis by (auto simp: list_all_iff dest: set_takeWhileD)
  qed
qed

lemma utf8_wf_ConsD: "utf8_wf (p # ps) \<Longrightarrow> utf8_wf ps"
  by (cases ps) auto

lemma utf8_wf_appendD1: "utf8_wf (ps @ qs) \<Longrightarrow> utf8_wf ps"
  by (cases ps) auto

lemma utf8_wf_appendD2: "utf8_wf (ps @ qs) \<Longrightarrow> utf8_wf qs"
  by (induction ps) (auto dest: utf8_wf_ConsD simp del: utf8_wf.simps(2))

lemma utf8_wf_take: "utf8_wf ps \<Longrightarrow> utf8_wf (take n ps)"
  by (metis append_take_drop_id utf8_wf_appendD1)

lemma utf8_wf_drop: "utf8_wf ps \<Longrightarrow> utf8_wf (drop n ps)"
  by (metis append_take_drop_id utf8_wf_appendD2)

lemma utf8_wf_dropWhile: "utf8_wf ps \<Longrightarrow> utf8_wf (dropWhile f ps)"
  by (metis takeWhile_dropWhile_id utf8_wf_appendD2)

lemma utf8_wf_dropWhile_rev: "utf8_wf ps \<Longrightarrow> utf8_wf (rev (dropWhile f (rev ps)))"
proof -
  assume "utf8_wf ps"
  moreover have "ps = rev (dropWhile f (rev ps)) @ rev (takeWhile f (rev ps))"
    by (simp flip: rev_append)
  ultimately show ?thesis by (metis utf8_wf_appendD1)
qed

lemma takeWhile_dropWhile_hd:
  "xs = [] \<or> \<not> P (hd xs) \<Longrightarrow> takeWhile P xs = [] \<and> dropWhile P xs = xs"
  by (cases xs) auto

text \<open>Well-formed pieces are exactly the characters of their concatenation.\<close>

lemma utf8_chars_concat: "utf8_wf ps \<Longrightarrow> utf8_chars (concat ps) = ps"
proof (induction ps)
  case Nil
  then show ?case by simp
next
  case (Cons p ps)
  from Cons.prems obtain b bs where p: "p = b # bs" and bs: "list_all utf8_cont bs"
    by (cases p) auto
  have "concat ps = [] \<or> \<not> utf8_cont (hd (concat ps))"
    using Cons.prems by (cases ps) auto
  then have "takeWhile utf8_cont (concat ps) = [] \<and> dropWhile utf8_cont (concat ps) = concat ps"
    by (rule takeWhile_dropWhile_hd)
  then have "takeWhile utf8_cont (bs @ concat ps) = bs"
    and "dropWhile utf8_cont (bs @ concat ps) = concat ps"
    using bs by (simp_all only: list_all_iff takeWhile_append2 dropWhile_append2 append_Nil2)
  moreover have "utf8_chars (concat ps) = ps"
    using Cons utf8_wf_ConsD by blast
  ultimately show ?case using p by simp
qed

lemma utf8_chars_nonempty: "p \<in> set (utf8_chars s) \<Longrightarrow> p \<noteq> []"
  using utf8_wf_utf8_chars [of s]
  by (cases "utf8_chars s") (auto simp: list_all_iff simp del: utf8_wf_utf8_chars)

lemma utf8_chars_eq_Nil [simp]: "utf8_chars s = [] \<longleftrightarrow> s = []"
  by (cases s) auto

lemma chars_count_Nil [simp]: "chars_count [] = 0"
  by (simp add: chars_count_def)

lemma utf8_chars_take_chars: "utf8_chars (take_chars n s) = take n (utf8_chars s)"
  unfolding take_chars_def by (rule utf8_chars_concat) (simp add: utf8_wf_take)

lemma chars_count_take_chars: "chars_count (take_chars n s) = min n (chars_count s)"
  by (simp add: chars_count_def utf8_chars_take_chars min.commute)

lemma prefix_take_chars: "prefix (take_chars n s) s"
  by (metis append_take_drop_id concat_append concat_utf8_chars prefixI take_chars_def)

lemma take_chars_all: "chars_count s \<le> n \<Longrightarrow> take_chars n s = s"
  by (simp add: take_chars_def chars_count_def)

text \<open>Appending text that does not start with a continuation byte joins the characters.\<close>

lemma utf8_chars_append:
  assumes "t = [] \<or> \<not> utf8_cont (hd t)"
  shows "utf8_chars (s @ t) = utf8_chars s @ utf8_chars t"
proof -
  have "utf8_wf (utf8_chars s @ utf8_chars t)"
  proof (cases "utf8_chars t")
    case Nil
    then show ?thesis by simp
  next
    case (Cons q qs)
    have wt: "utf8_wf (q # qs)" using utf8_wf_utf8_chars [of t] Cons by simp
    have "\<not> utf8_cont (hd q)"
      using assms Cons by (cases t) auto
    with wt have "list_all (\<lambda>q. q \<noteq> [] \<and> \<not> utf8_cont (hd q) \<and> list_all utf8_cont (tl q)) (q # qs)"
      by simp
    moreover have "utf8_wf (utf8_chars s)" by simp
    ultimately show ?thesis using Cons wt by (cases "utf8_chars s") auto
  qed
  from utf8_chars_concat [OF this] show ?thesis by simp
qed

lemma chars_count_append:
  "t = [] \<or> \<not> utf8_cont (hd t) \<Longrightarrow> chars_count (s @ t) = chars_count s + chars_count t"
  by (simp add: chars_count_def utf8_chars_append)

lemma chars_count_le_length: "chars_count s \<le> length s"
proof -
  have "length ps \<le> length (concat ps)" if "\<forall>p\<in>set ps. p \<noteq> []" for ps :: "string list"
    using that
  proof (induction ps)
    case (Cons p ps)
    then have "0 < length p" and "length ps \<le> length (concat ps)" by auto
    then show ?case unfolding concat.simps length_append list.size by linarith
  qed simp
  from this [of "utf8_chars s"] show ?thesis
    by (simp add: chars_count_def utf8_chars_nonempty)
qed

lemma utf8_chars_ascii: "list_all (\<lambda>c. \<not> utf8_cont c) s \<Longrightarrow> utf8_chars s = map (\<lambda>c. [c]) s"
proof (induction s)
  case (Cons c s)
  then show ?case by (cases s) auto
qed simp

lemma chars_count_ascii: "list_all (\<lambda>c. \<not> utf8_cont c) s \<Longrightarrow> chars_count s = length s"
  by (simp add: chars_count_def utf8_chars_ascii)

subsection \<open>Trimming and splitting\<close>

lemma utf8_chars_trim_start: "utf8_chars (trim_start s) = dropWhile is_whitespace (utf8_chars s)"
  unfolding trim_start_def by (rule utf8_chars_concat) (simp add: utf8_wf_dropWhile)

lemma utf8_chars_trim_end:
  "utf8_chars (trim_end s) = rev (dropWhile is_whitespace (rev (utf8_chars s)))"
  unfolding trim_end_def by (rule utf8_chars_concat) (simp add: utf8_wf_dropWhile_rev)

lemma utf8_chars_trim:
  "utf8_chars (trim s) =
     rev (dropWhile is_whitespace (rev (dropWhile is_whitespace (utf8_chars s))))"
  by (simp add: trim_def utf8_chars_trim_end utf8_chars_trim_start)

lemma utf8_chars_inject: "utf8_chars s = utf8_chars t \<longleftrightarrow> s = t"
  by (metis concat_utf8_chars)

lemma trim_empty_iff: "trim s = [] \<longleftrightarrow> list_all is_whitespace (utf8_chars s)"
proof -
  have "trim s = [] \<longleftrightarrow> utf8_chars (trim s) = []" by simp
  also have "\<dots> \<longleftrightarrow> list_all is_whitespace (utf8_chars s)"
    by (auto simp: utf8_chars_trim list_all_iff dropWhile_eq_Nil_conv
        dest: set_dropWhileD)
      (metis dropWhile_eq_Nil_conv hd_dropWhile list.set_sel(1))
  finally show ?thesis .
qed

lemma trim_Nil [simp]: "trim [] = []"
  by (simp add: trim_empty_iff)

lemma boundary_0 [simp]: "is_char_boundary v 0"
  by (simp add: is_char_boundary_def)

lemma boundary_length [simp]: "is_char_boundary v (length v)"
  by (simp add: is_char_boundary_def)

lemma shrink_to_boundary:
  "shrink_to_boundary v e \<le> e \<and> is_char_boundary v (shrink_to_boundary v e) \<and>
   (\<forall>i. shrink_to_boundary v e < i \<and> i \<le> e \<longrightarrow> \<not> is_char_boundary v i)"
proof (induction e)
  case (Suc e)
  then show ?case by (auto simp: le_Suc_eq)
qed auto

lemma str_contains_iff: "str_contains pat s \<longleftrightarrow> sublist pat s"
  by (induction s) (auto simp: sublist_Cons_right)

subsection \<open>Runs and joined words\<close>

lemma concat_split_runs: "concat (split_runs p xs) = filter (\<lambda>x. \<not> p x) xs"
proof (induction p xs rule: split_runs.induct)
  case (2 p c cs)
  have "filter (\<lambda>x. \<not> p x) cs = takeWhile (\<lambda>x. \<not> p x) cs @ filter (\<lambda>x. \<not> p x) (dropWhile (\<lambda>x. \<not> p x) cs)"
    by (metis (no_types, lifting) filter_append filter_True set_takeWhileD takeWhile_dropWhile_id)
  with 2 show ?case by auto
qed simp

lemma split_runs_nonempty: "r \<in> set (split_runs p xs) \<Longrightarrow> r \<noteq> []"
  by (induction p xs rule: split_runs.induct) (auto split: if_splits)

lemma concat_join: "concat (join sep xs) = join (concat sep) (map concat xs)"
  by (induction sep xs rule: join.induct) auto

lemma utf8_wf_iff:
  "utf8_wf ps \<longleftrightarrow> list_all (\<lambda>q. q \<noteq> [] \<and> list_all utf8_cont (tl q)) ps \<and>
     list_all (\<lambda>q. \<not> utf8_cont (hd q)) (tl ps)"
  by (cases ps) (auto simp: list_all_iff)

lemma utf8_wf_filter: "utf8_wf ps \<Longrightarrow> utf8_wf (filter f ps)"
proof (cases ps)
  case (Cons p qs)
  assume "utf8_wf ps"
  then have p: "p \<noteq> [] \<and> list_all utf8_cont (tl p)"
    and qs: "list_all (\<lambda>q. q \<noteq> [] \<and> \<not> utf8_cont (hd q) \<and> list_all utf8_cont (tl q)) (filter f qs)"
    by (auto simp: Cons list_all_iff)
  then have "utf8_wf (filter f qs)" by (cases "filter f qs") auto
  with p qs show ?thesis by (simp add: Cons)
qed simp

lemma set_join: "set (join sep xs) \<subseteq> set sep \<union> set (concat xs)"
  by (induction sep xs rule: join.induct) auto

lemma join_Cons: "join sep (x # xs) = x @ (if xs = [] then [] else sep @ join sep xs)"
  by (cases xs) auto

lemma utf8_wf_join:
  assumes "utf8_wf (concat rs)" and "\<forall>r\<in>set rs. r \<noteq> []"
  shows "utf8_wf (join ['' ''] rs)"
proof (cases rs)
  case (Cons r rs')
  then obtain c cs where r: "r = c # cs" using assms(2) by (cases r) auto
  have "set (tl (join ['' ''] rs)) \<subseteq> {'' ''} \<union> set (tl (concat rs))"
    using set_join [of "['' '']" rs'] Cons r by (auto simp: join_Cons)
  moreover have "hd (join ['' ''] rs) = hd (concat rs)" "join ['' ''] rs \<noteq> []" "concat rs \<noteq> []"
    using Cons r by (auto simp: join_Cons)
  moreover have "\<not> utf8_cont (CHR '' '')" by code_simp
  ultimately show ?thesis using assms(1)
    by (cases "join ['' ''] rs"; cases "concat rs") (auto simp: utf8_wf_iff list_all_iff)
qed simp

lemma join_ends:
  assumes "\<forall>r\<in>set rs. r \<noteq> [] \<and> (\<forall>c\<in>set r. \<not> p c)" and "rs \<noteq> []"
  shows "join sep rs \<noteq> [] \<and> \<not> p (hd (join sep rs)) \<and> \<not> p (last (join sep rs))"
  using assms by (induction sep rs rule: join.induct) auto

subsection \<open>Decimal numbers\<close>

lemma of_char_digit_char: "d < 10 \<Longrightarrow> of_char (digit_char d) = 48 + d"
  by (simp add: digit_char_def)

lemma digit_char_inject: "a < 10 \<Longrightarrow> b < 10 \<Longrightarrow> digit_char a = digit_char b \<longleftrightarrow> a = b"
  by (metis add_left_cancel of_char_digit_char)

lemma show_nat_nonempty [simp]: "show_nat n \<noteq> []"
  by (subst show_nat.simps) simp

text \<open>Reading the digits back: the inverse of \<^const>\<open>show_nat\<close>.\<close>

definition read_nat :: "string \<Rightarrow> nat" where
  "read_nat s = foldl (\<lambda>n c. 10 * n + (of_char c - 48)) 0 s"

lemma read_show_nat: "read_nat (show_nat n) = n"
proof (induction n rule: show_nat.induct)
  case (1 n)
  show ?case
  proof (cases "n < 10")
    case True
    then show ?thesis by (subst show_nat.simps) (simp add: read_nat_def of_char_digit_char)
  next
    case False
    with 1 have "read_nat (show_nat (n div 10)) = n div 10" by simp
    with False show ?thesis
      by (subst show_nat.simps) (simp add: read_nat_def of_char_digit_char)
  qed
qed

lemma show_nat_inject [simp]: "show_nat m = show_nat n \<longleftrightarrow> m = n"
  by (metis read_show_nat)

lemma show_nat_digits: "c \<in> set (show_nat n) \<Longrightarrow> 48 \<le> (of_char c :: nat) \<and> (of_char c :: nat) < 58"
proof (induction n rule: show_nat.induct)
  case (1 n)
  show ?case
  proof (cases "n < 10")
    case True
    with 1(2) show ?thesis by (subst (asm) show_nat.simps) (simp add: of_char_digit_char)
  next
    case False
    with 1(2) have "c \<in> set (show_nat (n div 10)) \<or> c = digit_char (n mod 10)"
      by (subst (asm) show_nat.simps) auto
    then show ?thesis using 1(1) [OF False] by (auto simp: of_char_digit_char)
  qed
qed

end
