(* ===== verification/Swarm_Plan.thy ===== *)
theory Swarm_Plan
  imports Rust_Prelude
begin

text \<open>
  The swarm plan of \<^verbatim>\<open>src/crates/gcode-plan/src/lib.rs\<close>: plan items with dependencies, the
  versioned plan the server shares between sessions, the status predicates, dependency-cycle
  detection (Kahn's algorithm over hash maps), the plan summary with its ready and blocked
  items, and the task-assignment helpers.

  The iteration order of a \<^verbatim>\<open>HashMap\<close> is unspecified, and cycle detection seeds its work list in
  that order: the order is the argument \<open>iter\<close>, and the theorems hold for every \<open>iter\<close> that
  permutes its list.
\<close>

section \<open>Data\<close>

record plan_item =
  pi_content :: string
  pi_status :: string
  pi_priority :: string
  pi_id :: string
  pi_subsystem :: "string option"
  pi_file_scope :: "string list"
  pi_blocked_by :: "string list"
  pi_assigned_to :: "string option"

record swarm_task_progress =
  tp_assigned_session_id :: "string option"
  tp_assignment_summary :: "string option"
  tp_assigned_at_unix_ms :: "u64 option"
  tp_started_at_unix_ms :: "u64 option"
  tp_last_heartbeat_unix_ms :: "u64 option"
  tp_last_detail :: "string option"
  tp_last_checkpoint_unix_ms :: "u64 option"
  tp_checkpoint_summary :: "string option"
  tp_completed_at_unix_ms :: "u64 option"
  tp_stale_since_unix_ms :: "u64 option"
  tp_heartbeat_count :: "u64 option"
  tp_checkpoint_count :: "u64 option"

record swarm_plan_item_spec =
  sp_id :: string
  sp_content :: string
  sp_priority :: string
  sp_subsystem :: "string option"
  sp_file_scope :: "string list"
  sp_blocked_by :: "string list"

record swarm_plan_definition =
  pd_version :: u64
  pd_participants :: "string list"
  pd_items :: "swarm_plan_item_spec list"

record swarm_execution_item_state =
  es_task_id :: string
  es_status :: string
  es_assigned_to :: "string option"
  es_progress :: "swarm_task_progress option"

type_synonym swarm_execution_state = "swarm_execution_item_state list"

record versioned_plan =
  vp_items :: "plan_item list"
  vp_version :: u64
  vp_participants :: "string set"
  vp_task_progress :: "(string, swarm_task_progress) hmap"

definition VersionedPlan_new :: versioned_plan where
  "VersionedPlan_new = \<lparr>vp_items = [], vp_version = 0, vp_participants = {}, vp_task_progress = []\<rparr>"

definition plan_definition :: "versioned_plan \<Rightarrow> swarm_plan_definition" where
  "plan_definition p =
     \<lparr>pd_version = vp_version p,
      pd_participants = sorted_list_of_set (vp_participants p),
      pd_items = map (\<lambda>it. \<lparr>sp_id = pi_id it, sp_content = pi_content it, sp_priority = pi_priority it,
        sp_subsystem = pi_subsystem it, sp_file_scope = pi_file_scope it,
        sp_blocked_by = pi_blocked_by it\<rparr>) (vp_items p)\<rparr>"

definition execution_state :: "versioned_plan \<Rightarrow> swarm_execution_state" where
  "execution_state p =
     map (\<lambda>it. \<lparr>es_task_id = pi_id it, es_status = pi_status it, es_assigned_to = pi_assigned_to it,
       es_progress = hget (vp_task_progress p) (pi_id it)\<rparr>) (vp_items p)"

record plan_graph_summary =
  ready_ids :: "string list"
  blocked_ids :: "string list"
  active_ids :: "string list"
  completed_ids :: "string list"
  terminal_ids :: "string list"
  unresolved_dependency_ids :: "string list"
  cycle_ids :: "string list"

section \<open>Statuses and task control\<close>

definition is_completed_status :: "string \<Rightarrow> bool" where
  "is_completed_status s \<longleftrightarrow> s \<in> {''completed'', ''done''}"

definition is_terminal_status :: "string \<Rightarrow> bool" where
  "is_terminal_status s \<longleftrightarrow> s \<in> {''completed'', ''done'', ''failed'', ''stopped'', ''crashed''}"

definition is_active_status :: "string \<Rightarrow> bool" where
  "is_active_status s \<longleftrightarrow> s \<in> {''running'', ''running_stale''}"

definition is_runnable_status :: "string \<Rightarrow> bool" where
  "is_runnable_status s \<longleftrightarrow> s \<in> {''queued'', ''ready'', ''pending'', ''todo''}"

datatype task_control_action = Start | Wake | Resume | Retry | Reassign | Replace | Salvage

definition TaskControlAction_parse :: "string \<Rightarrow> task_control_action option" where
  "TaskControlAction_parse action =
     (if action = ''start'' then Some Start
      else if action = ''wake'' then Some Wake
      else if action = ''resume'' then Some Resume
      else if action = ''retry'' then Some Retry
      else if action = ''reassign'' then Some Reassign
      else if action = ''replace'' then Some Replace
      else if action = ''salvage'' then Some Salvage
      else None)"

fun TaskControlAction_as_str :: "task_control_action \<Rightarrow> string" where
  "TaskControlAction_as_str Start = ''start''"
| "TaskControlAction_as_str Wake = ''wake''"
| "TaskControlAction_as_str Resume = ''resume''"
| "TaskControlAction_as_str Retry = ''retry''"
| "TaskControlAction_as_str Reassign = ''reassign''"
| "TaskControlAction_as_str Replace = ''replace''"
| "TaskControlAction_as_str Salvage = ''salvage''"

definition combine_assignment_text :: "string \<Rightarrow> string option \<Rightarrow> string" where
  "combine_assignment_text content message =
     (case message of
        Some extra \<Rightarrow> content @ nl @ nl @ ''Additional coordinator instructions:'' @ nl @ extra
      | None \<Rightarrow> content)"

fun restart_instruction_prefix :: "task_control_action \<Rightarrow> string option" where
  "restart_instruction_prefix Resume =
     Some ''Resume your assigned task from the current session context and continue the work.''"
| "restart_instruction_prefix Retry =
     Some ''Retry your assigned task. Fix any earlier issues and continue toward completion.''"
| "restart_instruction_prefix _ = None"

definition build_control_assignment_text ::
    "task_control_action \<Rightarrow> string \<Rightarrow> string option \<Rightarrow> string" where
  "build_control_assignment_text action content message =
     (let parts = (case restart_instruction_prefix action of Some p \<Rightarrow> [p] | None \<Rightarrow> []);
          parts = parts @ [content];
          parts = (case message of
                     Some extra \<Rightarrow> parts @ [''Additional coordinator instructions:'' @ nl @ extra]
                   | None \<Rightarrow> parts)
      in join (nl @ nl) parts)"

fun task_control_action_allows_status :: "task_control_action \<Rightarrow> string \<Rightarrow> bool" where
  "task_control_action_allows_status Start status = (status = ''queued'')"
| "task_control_action_allows_status Wake status = (status = ''queued'')"
| "task_control_action_allows_status Resume status =
     (status \<in> {''queued'', ''running'', ''running_stale''})"
| "task_control_action_allows_status Retry status = (status \<in> {''failed'', ''running_stale''})"
| "task_control_action_allows_status Reassign status = (status \<noteq> ''done'')"
| "task_control_action_allows_status Replace status = (status \<noteq> ''done'')"
| "task_control_action_allows_status Salvage status = (status \<noteq> ''done'')"

fun task_control_status_error :: "task_control_action \<Rightarrow> string \<Rightarrow> string \<Rightarrow> string" where
  "task_control_status_error Start status task_id =
     ''Task '' @ apos @ task_id @ apos @ '' is '' @ apos @ status @ apos @
     '' and cannot be started. Use start only for queued assignments.''"
| "task_control_status_error Wake status task_id =
     ''Task '' @ apos @ task_id @ apos @ '' is '' @ apos @ status @ apos @
     '' and cannot be woken. Use wake only for queued assignments.''"
| "task_control_status_error Resume status task_id =
     ''Task '' @ apos @ task_id @ apos @ '' is '' @ apos @ status @ apos @
     '' and cannot be resumed safely.''"
| "task_control_status_error Retry status task_id =
     ''Task '' @ apos @ task_id @ apos @ '' is '' @ apos @ status @ apos @
     '' and cannot be retried. Retry is only for failed or stale work.''"
| "task_control_status_error Reassign status task_id =
     ''Task '' @ apos @ task_id @ apos @ '' is already complete. Reassign unfinished work instead.''"
| "task_control_status_error Replace status task_id =
     ''Task '' @ apos @ task_id @ apos @ '' is already complete. Replace is only for unfinished work.''"
| "task_control_status_error Salvage status task_id =
     ''Task '' @ apos @ task_id @ apos @
     '' is already complete. Salvage is only for unfinished or failed work.''"

definition priority_rank :: "string \<Rightarrow> nat" where
  "priority_rank p =
     (if p \<in> {''high'', ''urgent'', ''p0''} then 0
      else if p \<in> {''medium'', ''normal'', ''p1''} then 1
      else if p \<in> {''low'', ''p2''} then 2
      else 1)"

section \<open>Dependencies and cycles\<close>

definition completed_item_ids :: "plan_item list \<Rightarrow> string set" where
  "completed_item_ids items = pi_id ` set (filter (\<lambda>it. is_completed_status (pi_status it)) items)"

definition item_ids :: "plan_item list \<Rightarrow> string set" where
  "item_ids items = pi_id ` set items"

definition unresolved_dependencies :: "plan_item \<Rightarrow> string set \<Rightarrow> string set \<Rightarrow> string list" where
  "unresolved_dependencies it known completed =
     filter (\<lambda>dep. dep \<in> known \<and> dep \<notin> completed) (pi_blocked_by it)"

definition missing_dependencies :: "plan_item \<Rightarrow> string set \<Rightarrow> string list" where
  "missing_dependencies it known = filter (\<lambda>dep. dep \<notin> known) (pi_blocked_by it)"

definition is_unblocked :: "plan_item \<Rightarrow> string set \<Rightarrow> string set \<Rightarrow> bool" where
  "is_unblocked it known completed \<longleftrightarrow>
     missing_dependencies it known = [] \<and> unresolved_dependencies it known completed = []"

type_synonym indegrees = "(string, nat) hmap"
type_synonym dependents = "(string, string list) hmap"

definition cycle_init :: "plan_item list \<Rightarrow> indegrees" where
  "cycle_init items = fold (\<lambda>it. hentry 0 (pi_id it) (\<lambda>d. d)) items []"

definition add_dependency :: "string \<Rightarrow> string \<Rightarrow> indegrees \<times> dependents \<Rightarrow> indegrees \<times> dependents" where
  "add_dependency item_id dep st =
     (hentry 0 item_id Suc (fst st), hentry [] dep (\<lambda>xs. xs @ [item_id]) (snd st))"

definition add_item_dependencies ::
    "string set \<Rightarrow> plan_item \<Rightarrow> indegrees \<times> dependents \<Rightarrow> indegrees \<times> dependents" where
  "add_item_dependencies known it st =
     fold (add_dependency (pi_id it)) (filter (\<lambda>dep. dep \<in> known) (pi_blocked_by it)) st"

definition cycle_graph :: "plan_item list \<Rightarrow> indegrees \<times> dependents" where
  "cycle_graph items =
     fold (add_item_dependencies (item_ids items)) items (cycle_init items, [])"

text \<open>
  One child of a visited node: its degree saturates at zero and it is pushed when it reaches zero.
  The work list is a \<^verbatim>\<open>Vec\<close> used as a stack; the list holds the last pushed element first.
\<close>

definition relax_child :: "string \<Rightarrow> indegrees \<times> string list \<Rightarrow> indegrees \<times> string list" where
  "relax_child child st =
     (case hget (fst st) child of
        None \<Rightarrow> st
      | Some degree \<Rightarrow>
          (hput child (degree - 1) (fst st),
           if degree - 1 = 0 then child # snd st else snd st))"

lemma snd_fold_relax_child:
  "set (snd (fold relax_child cs st)) \<subseteq> set (snd st) \<union> set cs"
proof (induction cs arbitrary: st)
  case (Cons c cs)
  have "set (snd (relax_child c st)) \<subseteq> insert c (set (snd st))"
    by (auto simp: relax_child_def split: option.splits if_splits)
  with Cons [of "relax_child c st"] show ?case by auto
qed simp

definition dependent_ids :: "dependents \<Rightarrow> string set" where
  "dependent_ids deps = (\<Union>(set ` snd ` set deps))"

lemma hget_or_dependents: "set (hget_or [] deps x) \<subseteq> dependent_ids deps"
proof (cases "hget deps x")
  case None
  then show ?thesis by (simp add: hget_or_def)
next
  case (Some xs)
  then have "xs \<in> snd ` set deps" by (force dest: map_of_SomeD)
  then show ?thesis using Some by (auto simp: hget_or_def dependent_ids_def)
qed

function cycle_loop ::
    "dependents \<Rightarrow> string list \<Rightarrow> string set \<Rightarrow> indegrees \<Rightarrow> string set \<times> indegrees" where
  "cycle_loop deps [] visited indegree = (visited, indegree)"
| "cycle_loop deps (x # queue) visited indegree =
     (if x \<in> visited then cycle_loop deps queue visited indegree
      else let st = fold relax_child (hget_or [] deps x) (indegree, queue)
           in cycle_loop deps (snd st) (insert x visited) (fst st))"
  by pat_completeness auto
termination
proof (relation "measures [\<lambda>(deps, queue, visited, indegree).
      card ((set queue \<union> dependent_ids deps) - visited), \<lambda>(deps, queue, visited, indegree). length queue]",
    goal_cases)
  case 1
  then show ?case by simp
next
  case (2 deps x queue visited indegree)
  then have "(set (x # queue) \<union> dependent_ids deps) - visited = (set queue \<union> dependent_ids deps) - visited"
    by auto
  then show ?case by simp
next
  case (3 deps x queue visited indegree st)
  have fin: "finite (dependent_ids deps)"
    by (auto simp: dependent_ids_def)
  have "set (snd st) \<subseteq> set queue \<union> dependent_ids deps"
    using snd_fold_relax_child [of "hget_or [] deps x" "(indegree, queue)"]
      hget_or_dependents [of deps x] 3(2) by auto
  then have "(set (snd st) \<union> dependent_ids deps) - insert x visited
      \<subset> (set (x # queue) \<union> dependent_ids deps) - visited"
    using 3(1) by auto
  then show ?case
    using fin by (auto intro!: psubset_card_mono)
qed

definition cycle_item_ids :: "(string list \<Rightarrow> string list) \<Rightarrow> plan_item list \<Rightarrow> string list" where
  "cycle_item_ids iter items =
     (let (indegree, deps) = cycle_graph items;
          queue = rev (filter (\<lambda>i. hget indegree i = Some 0) (iter (map fst indegree)));
          (visited, indegree') = cycle_loop deps queue {} indegree
      in sort (filter (\<lambda>i. hget_or 0 indegree' i > 0 \<and> i \<notin> visited) (iter (map fst indegree'))))"

section \<open>Plan summary and assignment\<close>

record summary_acc =
  acc_ready :: "string list"
  acc_blocked :: "string list"
  acc_active :: "string list"
  acc_completed :: "string set"
  acc_terminal :: "string set"
  acc_unresolved :: "string set"

definition summarize_item ::
    "string set \<Rightarrow> string set \<Rightarrow> string set \<Rightarrow> plan_item \<Rightarrow> summary_acc \<Rightarrow> summary_acc" where
  "summarize_item known completed cyc it acc =
     (let missing = missing_dependencies it known;
          unresolved_for_item = unresolved_dependencies it known completed;
          is_cyclic = pi_id it \<in> cyc;
          acc = acc\<lparr>acc_unresolved := acc_unresolved acc \<union> set missing\<rparr>;
          acc = (if is_active_status (pi_status it)
                 then acc\<lparr>acc_active := acc_active acc @ [pi_id it]\<rparr> else acc);
          acc = (if is_completed_status (pi_status it)
                 then acc\<lparr>acc_completed := insert (pi_id it) (acc_completed acc)\<rparr> else acc);
          acc = (if is_terminal_status (pi_status it)
                 then acc\<lparr>acc_terminal := insert (pi_id it) (acc_terminal acc)\<rparr> else acc);
          has_dependency_blocker = (unresolved_for_item \<noteq> [] \<or> is_cyclic)
      in if is_runnable_status (pi_status it) \<and> missing = [] \<and> \<not> has_dependency_blocker
         then acc\<lparr>acc_ready := acc_ready acc @ [pi_id it]\<rparr>
         else if \<not> is_terminal_status (pi_status it) \<and> \<not> is_active_status (pi_status it)
              \<and> (missing \<noteq> [] \<or> has_dependency_blocker \<or> pi_status it = ''blocked'')
         then acc\<lparr>acc_blocked := acc_blocked acc @ [pi_id it]\<rparr>
         else acc)"

definition summarize_plan_graph ::
    "(string list \<Rightarrow> string list) \<Rightarrow> plan_item list \<Rightarrow> plan_graph_summary" where
  "summarize_plan_graph iter items =
     (let known = item_ids items;
          completed = completed_item_ids items;
          cyc = cycle_item_ids iter items;
          acc = fold (summarize_item known completed (set cyc)) items
            \<lparr>acc_ready = [], acc_blocked = [], acc_active = [], acc_completed = {},
             acc_terminal = {}, acc_unresolved = {}\<rparr>
      in \<lparr>ready_ids = sort (acc_ready acc), blocked_ids = sort (acc_blocked acc),
          active_ids = sort (acc_active acc),
          completed_ids = sorted_list_of_set (acc_completed acc),
          terminal_ids = sorted_list_of_set (acc_terminal acc),
          unresolved_dependency_ids = sorted_list_of_set (acc_unresolved acc),
          cycle_ids = cyc\<rparr>)"

definition next_runnable_item_ids ::
    "(string list \<Rightarrow> string list) \<Rightarrow> plan_item list \<Rightarrow> nat option \<Rightarrow> string list" where
  "next_runnable_item_ids iter items limit =
     (let ready = set (ready_ids (summarize_plan_graph iter items));
          ready_items = filter (\<lambda>it. pi_id it \<in> ready) items;
          sorted_items = sort_key (\<lambda>it. (priority_rank (pi_priority it), pi_id it)) ready_items;
          ids = map pi_id sorted_items
      in case limit of Some l \<Rightarrow> take l ids | None \<Rightarrow> ids)"

definition add_load :: "plan_item \<Rightarrow> (string, nat) hmap \<Rightarrow> (string, nat) hmap" where
  "add_load it loads =
     (if is_terminal_status (pi_status it) then loads
      else case pi_assigned_to it of
             Some assignee \<Rightarrow> hentry 0 assignee Suc loads
           | None \<Rightarrow> loads)"

definition assignment_loads :: "versioned_plan \<Rightarrow> (string, nat) hmap" where
  "assignment_loads plan = fold add_load (vp_items plan) []"

definition next_unassigned_runnable_item_id ::
    "(string list \<Rightarrow> string list) \<Rightarrow> versioned_plan \<Rightarrow> string option" where
  "next_unassigned_runnable_item_id iter plan =
     find (\<lambda>candidate. case find (\<lambda>it. pi_id it = candidate) (vp_items plan) of
             Some it \<Rightarrow> pi_assigned_to it = None
           | None \<Rightarrow> False)
       (next_runnable_item_ids iter (vp_items plan) None)"

definition task_status_rank :: "string \<Rightarrow> nat" where
  "task_status_rank s =
     (if s \<in> {''running'', ''running_stale''} then 0
      else if s \<in> {''queued'', ''ready'', ''pending'', ''todo''} then 1
      else if s \<in> {''failed'', ''stopped'', ''crashed''} then 2
      else if s \<in> {''completed'', ''done''} then 3
      else 4)"

definition task_control_target_item_id ::
    "plan_item list \<Rightarrow> string \<Rightarrow> task_control_action \<Rightarrow> string + string" where
  "task_control_target_item_id items target_session action =
     (let candidates = filter (\<lambda>it. task_control_action_allows_status action (pi_status it))
            (filter (\<lambda>it. pi_assigned_to it = Some target_session) items);
          candidates = sort_key (\<lambda>it. task_status_rank (pi_status it)) candidates;
          ambiguous = Inl (''Multiple tasks assigned to '' @ apos @ target_session @ apos @ '' can be '' @
            TaskControlAction_as_str action @ '': '' @ join '', '' (map pi_id candidates) @
            ''. Provide task_id explicitly.'')
      in case candidates of
           [] \<Rightarrow> Inl (''No task assigned to '' @ apos @ target_session @ apos @ '' can be '' @
             TaskControlAction_as_str action @
             ''. Provide task_id explicitly, or assign a task first.'')
         | [it] \<Rightarrow> Inr (pi_id it)
         | first # second # _ \<Rightarrow>
             if pi_status first \<noteq> pi_status second then Inr (pi_id first) else ambiguous)"

definition explicit_task_blocked_reason ::
    "(string list \<Rightarrow> string list) \<Rightarrow> versioned_plan \<Rightarrow> string \<Rightarrow> string option" where
  "explicit_task_blocked_reason iter plan task_id =
     (let known = item_ids (vp_items plan);
          completed = completed_item_ids (vp_items plan);
          cyc = set (cycle_item_ids iter (vp_items plan))
      in case find (\<lambda>it. pi_id it = task_id) (vp_items plan) of
           None \<Rightarrow> None
         | Some it \<Rightarrow>
             (let missing = missing_dependencies it known;
                  unresolved = unresolved_dependencies it known completed
              in if missing \<noteq> [] then
                   Some (''Task '' @ apos @ pi_id it @ apos @ '' has missing dependencies: '' @ join '', '' missing)
                 else if unresolved \<noteq> [] then
                   Some (''Task '' @ apos @ pi_id it @ apos @ '' is still blocked by: '' @ join '', '' unresolved)
                 else if pi_id it \<in> cyc then
                   Some (''Task '' @ apos @ pi_id it @ apos @
                     '' is part of a dependency cycle and is not runnable'')
                 else None))"

record assignment_affinities =
  aff_loads :: "(string, nat) hmap"
  aff_dependency_carryover :: "(string, nat) hmap"
  aff_metadata_carryover :: "(string, nat) hmap"

definition add_dependency_carryover ::
    "versioned_plan \<Rightarrow> string \<Rightarrow> (string, nat) hmap \<Rightarrow> (string, nat) hmap" where
  "add_dependency_carryover plan dep_id m =
     (let m = (case find (\<lambda>it. pi_id it = dep_id) (vp_items plan) of
                 Some dep_item \<Rightarrow> (case pi_assigned_to dep_item of
                     Some owner \<Rightarrow> hentry 0 owner Suc m | None \<Rightarrow> m)
               | None \<Rightarrow> m)
      in case hget (vp_task_progress plan) dep_id of
           Some progress \<Rightarrow> (case tp_assigned_session_id progress of
               Some owner \<Rightarrow> hentry 0 owner Suc m | None \<Rightarrow> m)
         | None \<Rightarrow> m)"

definition scope_overlap :: "plan_item \<Rightarrow> plan_item \<Rightarrow> nat" where
  "scope_overlap task it = length (filter (\<lambda>path. path \<in> set (pi_file_scope it)) (pi_file_scope task))"

definition add_metadata_carryover ::
    "plan_item \<Rightarrow> plan_item \<Rightarrow> (string, nat) hmap \<Rightarrow> (string, nat) hmap" where
  "add_metadata_carryover task it m =
     (case pi_assigned_to it of
        None \<Rightarrow> m
      | Some owner \<Rightarrow>
          if pi_id it = pi_id task then m
          else
            (let m = (case (pi_subsystem task, pi_subsystem it) of
                        (Some left, Some right) \<Rightarrow> if left = right then hentry 0 owner (\<lambda>n. n + 2) m else m
                      | _ \<Rightarrow> m)
             in if pi_file_scope task \<noteq> [] \<and> pi_file_scope it \<noteq> [] then
                  (let overlap = scope_overlap task it
                   in if overlap > 0 then hentry 0 owner (\<lambda>n. n + overlap) m else m)
                else m))"

definition assignment_affinities_for_task ::
    "versioned_plan \<Rightarrow> string \<Rightarrow> string + assignment_affinities" where
  "assignment_affinities_for_task plan task_id =
     (let loads = assignment_loads plan
      in case find (\<lambda>it. pi_id it = task_id) (vp_items plan) of
           None \<Rightarrow> Inl (''Task '' @ apos @ task_id @ apos @ '' not found in swarm plan'')
         | Some task \<Rightarrow>
             Inr \<lparr>aff_loads = loads,
               aff_dependency_carryover = fold (add_dependency_carryover plan) (pi_blocked_by task) [],
               aff_metadata_carryover = fold (add_metadata_carryover task) (vp_items plan) []\<rparr>)"

definition newly_ready_item_ids ::
    "(string list \<Rightarrow> string list) \<Rightarrow> plan_item list \<Rightarrow> plan_item list \<Rightarrow> string list" where
  "newly_ready_item_ids iter before after =
     filter (\<lambda>i. i \<notin> set (ready_ids (summarize_plan_graph iter before)))
       (ready_ids (summarize_plan_graph iter after))"

section \<open>Specification\<close>

text \<open>
  The abstract view the theorems of \<^verbatim>\<open>Swarm_Cycles\<close> and \<^verbatim>\<open>Swarm_Schedule\<close> are stated in: the
  dependency relation between known ids, the ids whose dependencies can all be resolved, and when
  an item is ready or blocked.
\<close>

definition dep_edges :: "plan_item list \<Rightarrow> (string \<times> string) set" where
  "dep_edges items =
     {(y, d). \<exists>it\<in>set items. pi_id it = y \<and> d \<in> set (pi_blocked_by it) \<and> d \<in> item_ids items}"

inductive resolvable :: "plan_item list \<Rightarrow> string \<Rightarrow> bool" for items where
  resolvableI: "y \<in> item_ids items \<Longrightarrow> (\<And>d. (y, d) \<in> dep_edges items \<Longrightarrow> resolvable items d) \<Longrightarrow>
     resolvable items y"

text \<open>An item reaches a cycle when following its dependencies leads to an id that depends on itself.\<close>

definition reaches_cycle :: "plan_item list \<Rightarrow> string \<Rightarrow> bool" where
  "reaches_cycle items y \<longleftrightarrow>
     (\<exists>c. (y, c) \<in> (dep_edges items)\<^sup>* \<and> (c, c) \<in> (dep_edges items)\<^sup>+)"

definition item_ready :: "plan_item list \<Rightarrow> plan_item \<Rightarrow> bool" where
  "item_ready items it \<longleftrightarrow> is_runnable_status (pi_status it)
     \<and> set (pi_blocked_by it) \<subseteq> completed_item_ids items \<and> \<not> reaches_cycle items (pi_id it)"

definition item_blocked :: "plan_item list \<Rightarrow> plan_item \<Rightarrow> bool" where
  "item_blocked items it \<longleftrightarrow> \<not> is_terminal_status (pi_status it) \<and> \<not> is_active_status (pi_status it)
     \<and> \<not> item_ready items it
     \<and> (\<not> set (pi_blocked_by it) \<subseteq> completed_item_ids items \<or> reaches_cycle items (pi_id it)
        \<or> pi_status it = ''blocked'')"

abbreviation item_key :: "plan_item \<Rightarrow> nat \<times> string" where
  "item_key it \<equiv> (priority_rank (pi_priority it), pi_id it)"

text \<open>The plan after the item \<open>t\<close> completed.\<close>

definition complete_item :: "string \<Rightarrow> plan_item list \<Rightarrow> plan_item list" where
  "complete_item t items = map (\<lambda>it. if pi_id it = t then it\<lparr>pi_status := ''completed''\<rparr> else it) items"

text \<open>What an assigned item adds to its owner's metadata affinity for \<open>task\<close>.\<close>

definition metadata_score :: "plan_item \<Rightarrow> plan_item \<Rightarrow> nat" where
  "metadata_score task it =
     (if pi_subsystem task \<noteq> None \<and> pi_subsystem task = pi_subsystem it then 2 else 0) + scope_overlap task it"

text \<open>What the dependency \<open>dep\<close> adds to \<open>agent\<close>'s dependency affinity.\<close>

definition carryover_score :: "versioned_plan \<Rightarrow> string \<Rightarrow> string \<Rightarrow> nat" where
  "carryover_score plan agent dep =
     (if \<exists>it. find (\<lambda>it. pi_id it = dep) (vp_items plan) = Some it \<and> pi_assigned_to it = Some agent
      then 1 else 0) +
     (if \<exists>p. hget (vp_task_progress plan) dep = Some p \<and> tp_assigned_session_id p = Some agent
      then 1 else 0)"

end
