(* ===== verification/Swarm_Cycles.thy ===== *)
theory Swarm_Cycles
  imports Swarm_Plan
begin

text \<open>
  Correctness of \<^const>\<open>cycle_item_ids\<close>: the degree and dependents maps count the dependency
  occurrences, the work-list loop keeps the invariant \<open>cycle_inv\<close> (every degree is the number of
  dependency occurrences whose source is not visited yet), and when the list is empty the visited
  ids are exactly the resolvable ones, whatever order the hash maps were iterated in. Over the
  finite dependency relation, not resolvable means that a cycle can be reached.
\<close>

section \<open>Dependency counts\<close>

text \<open>How often the items with id \<open>y\<close> list the known dependency \<open>x\<close>.\<close>

definition dep_count :: "string set \<Rightarrow> plan_item list \<Rightarrow> string \<Rightarrow> string \<Rightarrow> nat" where
  "dep_count K items x y =
     (\<Sum>it\<leftarrow>items. if pi_id it = y then count_list (filter (\<lambda>d. d \<in> K) (pi_blocked_by it)) x else 0)"

definition open_deps :: "plan_item list \<Rightarrow> string set \<Rightarrow> string \<Rightarrow> nat" where
  "open_deps items visited y = (\<Sum>x\<in>item_ids items - visited. dep_count (item_ids items) items x y)"

definition cycle_inv :: "plan_item list \<Rightarrow> string list \<Rightarrow> string set \<Rightarrow> indegrees \<Rightarrow> bool" where
  "cycle_inv items queue visited indeg \<longleftrightarrow>
     fst ` set indeg = item_ids items \<and> distinct (map fst indeg) \<and>
     set queue \<subseteq> item_ids items \<and> visited \<subseteq> item_ids items \<and>
     (\<forall>y\<in>item_ids items. hget indeg y = Some (open_deps items visited y)) \<and>
     (\<forall>y\<in>item_ids items. open_deps items visited y = 0 \<longleftrightarrow> y \<in> visited \<union> set queue) \<and>
     (\<forall>y\<in>visited \<union> set queue. resolvable items y)"

lemma finite_item_ids [simp]: "finite (item_ids items)"
  by (simp add: item_ids_def)

lemma dep_count_pos: "0 < dep_count (item_ids items) items x y \<longleftrightarrow> (y, x) \<in> dep_edges items"
proof -
  have "0 < dep_count K its x y \<longleftrightarrow> (\<exists>it\<in>set its. pi_id it = y \<and> x \<in> set (pi_blocked_by it) \<and> x \<in> K)" for K its
    by (induction its) (auto simp: dep_count_def count_list_0_iff intro: gr0I)
  then show ?thesis by (simp add: dep_edges_def)
qed

section \<open>The degree and dependents maps\<close>

lemma fold_add_dependency_degree:
  "hget_or 0 (fst (fold (add_dependency i) ds st)) y =
     hget_or 0 (fst st) y + (if i = y then length ds else 0)"
  by (induction ds arbitrary: st) (auto simp: add_dependency_def hmap_simps)

lemma fold_add_dependency_dependents:
  "count_list (hget_or [] (snd (fold (add_dependency i) ds st)) x) y =
     count_list (hget_or [] (snd st) x) y + (if i = y then count_list ds x else 0)"
  by (induction ds arbitrary: st) (auto simp: add_dependency_def hmap_simps)

lemma fold_add_dependency_keys:
  "fst ` set (fst (fold (add_dependency i) ds st)) =
     fst ` set (fst st) \<union> (if ds = [] then {} else {i})"
  by (induction ds arbitrary: st) (auto simp: add_dependency_def)

lemma fold_add_dependency_distinct:
  "distinct (map fst (fst st)) \<Longrightarrow> distinct (map fst (fst (fold (add_dependency i) ds st)))"
  by (induction ds arbitrary: st) (auto simp: add_dependency_def distinct_keys_hentry)

lemma sum_dep_count:
  assumes "finite K"
  shows "(\<Sum>x\<in>K. dep_count K items x y) =
    (\<Sum>it\<leftarrow>items. if pi_id it = y then length (filter (\<lambda>d. d \<in> K) (pi_blocked_by it)) else 0)"
proof (induction items)
  case (Cons it items)
  have "(\<Sum>x\<in>K. count_list (filter (\<lambda>d. d \<in> K) (pi_blocked_by it)) x) =
      length (filter (\<lambda>d. d \<in> K) (pi_blocked_by it))"
    using assms by (intro sum_count_set) auto
  with Cons show ?case by (simp add: dep_count_def sum.distrib)
qed (simp add: dep_count_def)

lemma add_items_degree:
  "hget_or 0 (fst (fold (add_item_dependencies K) its st)) y = hget_or 0 (fst st) y +
     (\<Sum>it\<leftarrow>its. if pi_id it = y then length (filter (\<lambda>d. d \<in> K) (pi_blocked_by it)) else 0)"
  by (induction its arbitrary: st) (simp_all add: add_item_dependencies_def fold_add_dependency_degree)

lemma add_items_dependents:
  "count_list (hget_or [] (snd (fold (add_item_dependencies K) its st)) x) y =
     count_list (hget_or [] (snd st) x) y + dep_count K its x y"
  by (induction its arbitrary: st)
    (simp_all add: add_item_dependencies_def fold_add_dependency_dependents dep_count_def)

lemma add_items_keys:
  "pi_id ` set its \<subseteq> fst ` set (fst st) \<Longrightarrow>
     fst ` set (fst (fold (add_item_dependencies K) its st)) = fst ` set (fst st)"
proof (induction its arbitrary: st)
  case (Cons it its)
  have "fst ` set (fst (add_item_dependencies K it st)) = fst ` set (fst st)"
    using Cons.prems by (simp add: add_item_dependencies_def fold_add_dependency_keys insert_absorb)
  with Cons show ?case by simp
qed simp

lemma add_items_distinct:
  "distinct (map fst (fst st)) \<Longrightarrow>
     distinct (map fst (fst (fold (add_item_dependencies K) its st)))"
  by (induction its arbitrary: st) (simp_all add: add_item_dependencies_def fold_add_dependency_distinct)

lemma cycle_init_facts:
  "fst ` set (cycle_init items) = item_ids items"
  "distinct (map fst (cycle_init items))"
  "hget_or 0 (cycle_init items) y = 0"
proof -
  have "fst ` set (fold (\<lambda>it. hentry 0 (pi_id it) (\<lambda>d. d)) its m) = fst ` set m \<union> pi_id ` set its
      \<and> (distinct (map fst m) \<longrightarrow> distinct (map fst (fold (\<lambda>it. hentry 0 (pi_id it) (\<lambda>d. d)) its m)))
      \<and> hget_or 0 (fold (\<lambda>it. hentry 0 (pi_id it) (\<lambda>d. d)) its m) y = hget_or (0::nat) m y"
    for its :: "plan_item list" and m
    by (induction its arbitrary: m) (auto simp: distinct_keys_hentry hmap_simps)
  from this [of items "[]"] show "fst ` set (cycle_init items) = item_ids items"
    "distinct (map fst (cycle_init items))" "hget_or 0 (cycle_init items) y = 0"
    by (auto simp: cycle_init_def item_ids_def hget_or_def)
qed

lemma cycle_graph_keys: "fst ` set (fst (cycle_graph items)) = item_ids items"
proof -
  have "pi_id ` set items \<subseteq> fst ` set (fst (cycle_init items, []))"
    by (simp add: cycle_init_facts) (simp add: item_ids_def)
  from add_items_keys [OF this] show ?thesis
    by (simp add: cycle_graph_def cycle_init_facts)
qed

lemma cycle_graph_facts:
  "distinct (map fst (fst (cycle_graph items)))"
  "hget_or 0 (fst (cycle_graph items)) y = (\<Sum>x\<in>item_ids items. dep_count (item_ids items) items x y)"
  "count_list (hget_or [] (snd (cycle_graph items)) x) y = dep_count (item_ids items) items x y"
  unfolding cycle_graph_def
  by (simp_all add: add_items_distinct add_items_degree add_items_dependents
      cycle_init_facts sum_dep_count hget_or_def [of "[]" "[]"])

section \<open>The work-list loop\<close>

lemma fold_relax_child:
  assumes "\<forall>c\<in>set cs. \<exists>d. hget indeg c = Some d \<and> count_list cs c \<le> d"
  shows "hget (fst (fold relax_child cs (indeg, q))) y =
      map_option (\<lambda>d. d - count_list cs y) (hget indeg y)"
    and "set (snd (fold relax_child cs (indeg, q))) =
      set q \<union> {y \<in> set cs. hget indeg y = Some (count_list cs y)}"
    and "fst ` set (fst (fold relax_child cs (indeg, q))) = fst ` set indeg"
    and "distinct (map fst indeg) \<Longrightarrow> distinct (map fst (fst (fold relax_child cs (indeg, q))))"
  using assms
proof (atomize (full), induction cs arbitrary: indeg q)
  case Nil
  then show ?case by (simp add: option.map_ident)
next
  case (Cons c cs)
  then obtain d where d: "hget indeg c = Some d" "count_list (c # cs) c \<le> d" by auto
  define indeg1 where "indeg1 = hput c (d - 1) indeg"
  define q1 where "q1 = (if d - 1 = 0 then c # q else q)"
  have step: "relax_child c (indeg, q) = (indeg1, q1)"
    using d by (simp add: relax_child_def indeg1_def q1_def)
  have get1: "hget indeg1 y = (if y = c then Some (d - 1) else hget indeg y)" for y
    by (simp add: indeg1_def hget_hput)
  have "\<forall>c\<in>set cs. \<exists>d. hget indeg1 c = Some d \<and> count_list cs c \<le> d"
    using Cons.prems d by (fastforce simp: get1)
  note IH = Cons.IH [OF this, of q1]
  have keys1: "fst ` set indeg1 = fst ` set indeg"
    using d by (auto simp: indeg1_def keys_hput dest: map_of_SomeD) (metis fst_conv image_eqI map_of_SomeD)
  have "distinct (map fst indeg) \<Longrightarrow> distinct (map fst indeg1)"
    by (simp add: indeg1_def distinct_update)
  moreover have "map_option (\<lambda>d. d - count_list cs y) (hget indeg1 y) =
      map_option (\<lambda>d. d - count_list (c # cs) y) (hget indeg y)"
    using d by (simp add: get1)
  moreover have "set q1 \<union> {y \<in> set cs. hget indeg1 y = Some (count_list cs y)} =
      set q \<union> {y \<in> set (c # cs). hget indeg y = Some (count_list (c # cs) y)}"
  proof (cases "c \<in> set cs")
    case True
    then have "0 < count_list cs c" by (metis count_list_0_iff gr0I)
    with d True show ?thesis by (auto simp: q1_def get1 split: if_splits)
  next
    case False
    then have "count_list cs c = 0" by (simp add: count_list_0_iff)
    with d False show ?thesis by (auto simp: q1_def get1 split: if_splits)
  qed
  ultimately show ?case using IH by (simp add: step keys1)
qed

lemma open_deps_insert:
  "x \<in> item_ids items \<Longrightarrow> x \<notin> visited \<Longrightarrow>
     open_deps items visited y = dep_count (item_ids items) items x y + open_deps items (insert x visited) y"
proof -
  assume "x \<in> item_ids items" "x \<notin> visited"
  then have "x \<in> item_ids items - visited" by simp
  from sum.remove [OF _ this] show ?thesis by (simp add: open_deps_def Diff_insert [symmetric])
qed

lemma open_deps_zeroD:
  "open_deps items visited y = 0 \<Longrightarrow> (y, d) \<in> dep_edges items \<Longrightarrow> d \<in> visited"
proof (rule ccontr)
  assume z: "open_deps items visited y = 0" and e: "(y, d) \<in> dep_edges items" and "d \<notin> visited"
  then have "d \<in> item_ids items - visited" by (auto simp: dep_edges_def)
  with z have "dep_count (item_ids items) items d y = 0" by (simp add: open_deps_def)
  with e show False using dep_count_pos [of items d y] by simp
qed

lemma dep_edges_ids: "(y, d) \<in> dep_edges items \<Longrightarrow> y \<in> item_ids items \<and> d \<in> item_ids items"
  by (auto simp: dep_edges_def item_ids_def)

lemma cycle_inv_visit:
  assumes inv: "cycle_inv items (x # queue) visited indeg" and new: "x \<notin> visited"
    and deps: "\<And>y. count_list (hget_or [] deps x) y = dep_count (item_ids items) items x y"
  defines "st \<equiv> fold relax_child (hget_or [] deps x) (indeg, queue)"
  shows "cycle_inv items (snd st) (insert x visited) (fst st)"
proof -
  let ?cs = "hget_or [] deps x" and ?ids = "item_ids items" and ?V = "insert x visited"
  have x: "x \<in> ?ids" using inv by (simp add: cycle_inv_def)
  note split = open_deps_insert [OF x new]
  have cs: "y \<in> set ?cs \<longleftrightarrow> 0 < dep_count ?ids items x y" for y
    by (metis count_list_0_iff deps gr0I less_numeral_extra(3))
  then have cs_ids: "set ?cs \<subseteq> ?ids"
    using dep_count_pos dep_edges_ids by blast
  have get: "y \<in> ?ids \<Longrightarrow> hget indeg y = Some (open_deps items visited y)" for y
    using inv by (simp add: cycle_inv_def)
  have "\<forall>c\<in>set ?cs. \<exists>d. hget indeg c = Some d \<and> count_list ?cs c \<le> d"
    using cs_ids get by (auto simp: deps split)
  note relax = fold_relax_child [OF this, of queue, folded st_def]
  have queue': "set (snd st) = set queue \<union> {y \<in> set ?cs. open_deps items ?V y = 0}"
    using cs_ids get by (auto simp: relax(2) deps split)
  have zero: "open_deps items ?V y = 0 \<longleftrightarrow> y \<in> ?V \<union> set (snd st)" if "y \<in> ?ids" for y
  proof -
    have "open_deps items visited y = 0 \<longleftrightarrow> y \<in> visited \<union> set (x # queue)"
      using inv that by (simp add: cycle_inv_def)
    then show ?thesis using cs [of y] split [of y] by (auto simp: queue')
  qed
  have res: "\<forall>y\<in>?V \<union> set (snd st). resolvable items y"
  proof
    fix y assume y: "y \<in> ?V \<union> set (snd st)"
    have old: "\<forall>y\<in>visited \<union> set (x # queue). resolvable items y"
      using inv by (simp add: cycle_inv_def)
    show "resolvable items y"
    proof (cases "y \<in> visited \<union> set (x # queue)")
      case False
      with y have "y \<in> set ?cs" and z: "open_deps items ?V y = 0" by (auto simp: queue')
      then have "y \<in> ?ids" using cs_ids by auto
      moreover have "resolvable items d" if "(y, d) \<in> dep_edges items" for d
        using open_deps_zeroD [OF z that] old by auto
      ultimately show ?thesis by (rule resolvableI)
    qed (use old in blast)
  qed
  have "hget (fst st) y = Some (open_deps items ?V y)" if "y \<in> ?ids" for y
    by (simp add: relax(1) get [OF that] deps split)
  with zero res relax(3,4) inv cs_ids show ?thesis
    by (auto simp: cycle_inv_def queue')
qed

lemma cycle_loop_inv:
  assumes "cycle_inv items queue visited indeg"
    and "\<And>x y. count_list (hget_or [] deps x) y = dep_count (item_ids items) items x y"
    and "cycle_loop deps queue visited indeg = (visited', indeg')"
  shows "cycle_inv items [] visited' indeg'"
  using assms
proof (induction deps queue visited indeg rule: cycle_loop.induct)
  case (1 deps visited indegree)
  then show ?case by simp
next
  case (2 deps x queue visited indegree)
  show ?case
  proof (cases "x \<in> visited")
    case True
    moreover have "cycle_inv items queue visited indegree"
      using "2.prems"(1) True by (auto simp: cycle_inv_def)
    ultimately show ?thesis using "2.IH"(1) "2.prems" by simp
  next
    case False
    show ?thesis
      using "2.IH"(2) [OF False refl cycle_inv_visit [OF "2.prems"(1) False "2.prems"(2)] "2.prems"(2)]
        "2.prems"(3) False by (simp add: Let_def)
  qed
qed

lemma cycle_inv_init:
  assumes "hash_order iter"
  shows "cycle_inv items (rev (filter (\<lambda>i. hget (fst (cycle_graph items)) i = Some 0)
      (iter (map fst (fst (cycle_graph items)))))) {} (fst (cycle_graph items))"
proof -
  let ?indeg = "fst (cycle_graph items)"
  have set: "set (iter (map fst ?indeg)) = item_ids items"
    using hash_order_set [OF assms] by (simp add: cycle_graph_keys)
  have get: "y \<in> item_ids items \<Longrightarrow> hget ?indeg y = Some (open_deps items {} y)" for y
    using hget_keys [of y ?indeg 0] by (simp add: cycle_graph_keys cycle_graph_facts open_deps_def)
  have "resolvable items y" if "y \<in> item_ids items" "open_deps items {} y = 0" for y
    using that open_deps_zeroD by (blast intro: resolvableI)
  moreover have q: "set (rev (filter (\<lambda>i. hget ?indeg i = Some 0) (iter (map fst ?indeg)))) =
      {y \<in> item_ids items. open_deps items {} y = 0}"
    by (auto simp: set get)
  ultimately show ?thesis
    unfolding cycle_inv_def q using get cycle_graph_facts(1) cycle_graph_keys by blast
qed

lemma cycle_inv_final:
  assumes "cycle_inv items [] visited indeg"
  shows "visited = {y. resolvable items y}"
proof -
  have "y \<in> visited" if "resolvable items y" for y
    using that
  proof (induction rule: resolvable.induct)
    case (resolvableI y)
    have "open_deps items visited y = 0"
    proof (rule ccontr)
      assume "open_deps items visited y \<noteq> 0"
      then obtain x where "x \<in> item_ids items - visited" "dep_count (item_ids items) items x y \<noteq> 0"
        by (auto simp: open_deps_def)
      then show False using resolvableI dep_count_pos by blast
    qed
    with resolvableI assms show ?case by (auto simp: cycle_inv_def)
  qed
  with assms show ?thesis by (auto simp: cycle_inv_def)
qed

lemma cycle_item_ids_resolvable:
  assumes "hash_order iter"
  shows "cycle_item_ids iter items = sorted_list_of_set {y \<in> item_ids items. \<not> resolvable items y}"
proof -
  obtain indeg deps where g: "cycle_graph items = (indeg, deps)" by (cases "cycle_graph items")
  define queue where "queue = rev (filter (\<lambda>i. hget indeg i = Some 0) (iter (map fst indeg)))"
  obtain visited indeg' where loop: "cycle_loop deps queue {} indeg = (visited, indeg')"
    by (cases "cycle_loop deps queue {} indeg")
  have "cycle_inv items queue {} indeg"
    using cycle_inv_init [OF assms, of items] by (simp add: g queue_def)
  moreover have "\<And>x y. count_list (hget_or [] deps x) y = dep_count (item_ids items) items x y"
    using cycle_graph_facts(3) [of items] by (simp add: g)
  ultimately have inv: "cycle_inv items [] visited indeg'"
    using loop by (rule cycle_loop_inv)
  note visited = cycle_inv_final [OF inv]
  let ?res = "filter (\<lambda>i. hget_or 0 indeg' i > 0 \<and> i \<notin> visited) (iter (map fst indeg'))"
  have dist: "distinct (iter (map fst indeg'))" and keys: "set (iter (map fst indeg')) = item_ids items"
    using inv by (simp_all add: cycle_inv_def hash_order_distinct [OF assms] hash_order_set [OF assms])
  have pos: "hget_or 0 indeg' i > 0 \<longleftrightarrow> i \<notin> visited" if "i \<in> item_ids items" for i
    using inv that by (auto simp: cycle_inv_def hget_or_def)
  have "set ?res = {y \<in> item_ids items. \<not> resolvable items y}"
    using keys pos visited by auto
  then have res: "sort ?res = sorted_list_of_set {y \<in> item_ids items. \<not> resolvable items y}"
    using dist by (intro sort_eq_sorted_list_of_set) simp_all
  show ?thesis
    unfolding cycle_item_ids_def g Let_def prod.case queue_def [symmetric] loop by (rule res)
qed

section \<open>Resolvable ids and cycles\<close>

lemma resolvable_no_cycle:
  "resolvable items y \<Longrightarrow> (y, c) \<in> (dep_edges items)\<^sup>* \<Longrightarrow> (c, c) \<notin> (dep_edges items)\<^sup>+"
proof (induction arbitrary: c rule: resolvable.induct)
  case (resolvableI y)
  show ?case
  proof
    assume cyc: "(c, c) \<in> (dep_edges items)\<^sup>+"
    with resolvableI.prems have "(y, c) \<in> (dep_edges items)\<^sup>+"
      by (metis rtrancl_into_trancl1 rtrancl_trancl_trancl)
    then obtain d where "(y, d) \<in> dep_edges items" "(d, c) \<in> (dep_edges items)\<^sup>*"
      by (meson tranclD)
    with resolvableI.IH cyc show False by blast
  qed
qed

lemma finite_dep_edges: "finite (dep_edges items)"
proof (rule finite_subset)
  show "dep_edges items \<subseteq> item_ids items \<times> item_ids items" using dep_edges_ids by auto
qed simp

lemma no_cycle_resolvable:
  assumes "y \<in> item_ids items" and none: "\<And>c. (y, c) \<in> (dep_edges items)\<^sup>* \<Longrightarrow> (c, c) \<notin> (dep_edges items)\<^sup>+"
  shows "resolvable items y"
proof -
  let ?S = "{c. (y, c) \<in> (dep_edges items)\<^sup>*}"
  let ?R = "dep_edges items \<inter> ?S \<times> ?S"
  have "acyclic ?R"
    unfolding acyclic_def
  proof
    fix x
    show "(x, x) \<notin> ?R\<^sup>+"
    proof
      assume c: "(x, x) \<in> ?R\<^sup>+"
      then have "x \<in> ?S" by (meson IntD2 SigmaD1 tranclD)
      moreover have "(x, x) \<in> (dep_edges items)\<^sup>+" using c by (meson Int_lower1 trancl_mono)
      ultimately show False using none by blast
    qed
  qed
  then have wf: "wf (?R\<inverse>)"
    by (intro finite_acyclic_wf_converse) (simp_all add: finite_dep_edges)
  have "z \<in> ?S \<Longrightarrow> z \<in> item_ids items \<Longrightarrow> resolvable items z" for z
  proof (induction z rule: wf_induct_rule [OF wf])
    case (1 x)
    have "resolvable items d" if e: "(x, d) \<in> dep_edges items" for d
    proof (rule "1.IH")
      show d: "d \<in> ?S" using e "1.prems"(1) by (auto intro: rtrancl_into_rtrancl)
      show "(d, x) \<in> ?R\<inverse>" using e d "1.prems"(1) by simp
      show "d \<in> item_ids items" using dep_edges_ids [OF e] by simp
    qed
    with "1.prems"(2) show ?case by (blast intro: resolvableI)
  qed
  with assms(1) show ?thesis by simp
qed

lemma resolvable_iff: "y \<in> item_ids items \<Longrightarrow> resolvable items y \<longleftrightarrow> \<not> reaches_cycle items y"
  using resolvable_no_cycle no_cycle_resolvable by (auto simp: reaches_cycle_def)

lemma reaches_cycle_ids: "reaches_cycle items y \<Longrightarrow> y \<in> item_ids items"
  unfolding reaches_cycle_def by (metis converse_rtranclE dep_edges_ids tranclD)

lemma cycle_ids_reach:
  assumes "hash_order iter"
  shows "cycle_item_ids iter items = sorted_list_of_set {y. reaches_cycle items y}"
proof -
  have "{y \<in> item_ids items. \<not> resolvable items y} = {y. reaches_cycle items y}"
    using resolvable_iff reaches_cycle_ids by blast
  then show ?thesis by (simp add: cycle_item_ids_resolvable [OF assms])
qed

lemma finite_reaches_cycle [simp]: "finite {y. reaches_cycle items y}"
  by (rule finite_subset [OF _ finite_item_ids [of items]]) (auto dest: reaches_cycle_ids)

lemma set_cycle_ids: "hash_order iter \<Longrightarrow> set (cycle_item_ids iter items) = {y. reaches_cycle items y}"
  by (simp add: cycle_ids_reach)

end
