(* ===== verification/Swarm_Schedule.thy ===== *)
theory Swarm_Schedule
  imports Swarm_Cycles
begin

text \<open>
  The plan summary and the scheduling helpers of \<^verbatim>\<open>gcode-plan\<close> against the specification of
  \<^verbatim>\<open>Swarm_Plan\<close>: what is ready, blocked and active, that an acyclic plan never gets stuck, which
  items a completion unblocks, in which order work is handed out, and what the assignment helpers
  count.
\<close>

section \<open>The summary in closed form\<close>

lemma in_completed_item_ids:
  "y \<in> completed_item_ids items \<longleftrightarrow> (\<exists>it\<in>set items. pi_id it = y \<and> is_completed_status (pi_status it))"
  by (auto simp: completed_item_ids_def)

lemma completed_subset: "completed_item_ids items \<subseteq> item_ids items"
  by (auto simp: completed_item_ids_def item_ids_def)

lemma no_blockers_iff:
  "missing_dependencies it (item_ids items) = [] \<and>
   unresolved_dependencies it (item_ids items) (completed_item_ids items) = [] \<longleftrightarrow>
     set (pi_blocked_by it) \<subseteq> completed_item_ids items"
  using completed_subset [of items]
  by (auto simp: missing_dependencies_def unresolved_dependencies_def filter_empty_conv)

lemma fold_summarize_item:
  fixes known completed cyc
  defines "ready \<equiv> \<lambda>it. is_runnable_status (pi_status it) \<and> missing_dependencies it known = []
       \<and> unresolved_dependencies it known completed = [] \<and> pi_id it \<notin> cyc"
  defines "blocked \<equiv> \<lambda>it. \<not> ready it \<and> \<not> is_terminal_status (pi_status it) \<and> \<not> is_active_status (pi_status it)
       \<and> (missing_dependencies it known \<noteq> [] \<or> unresolved_dependencies it known completed \<noteq> []
          \<or> pi_id it \<in> cyc \<or> pi_status it = ''blocked'')"
  shows "fold (summarize_item known completed cyc) its acc =
    acc\<lparr>acc_ready := acc_ready acc @ map pi_id (filter ready its),
        acc_blocked := acc_blocked acc @ map pi_id (filter blocked its),
        acc_active := acc_active acc @ map pi_id (filter (\<lambda>it. is_active_status (pi_status it)) its),
        acc_completed := acc_completed acc \<union> completed_item_ids its,
        acc_terminal := acc_terminal acc \<union> pi_id ` set (filter (\<lambda>it. is_terminal_status (pi_status it)) its),
        acc_unresolved := acc_unresolved acc \<union> (\<Union>it\<in>set its. set (missing_dependencies it known))\<rparr>"
proof (induction its arbitrary: acc)
  case Nil
  then show ?case by (simp add: completed_item_ids_def)
next
  case (Cons it its)
  have "summarize_item known completed cyc it acc =
    acc\<lparr>acc_ready := acc_ready acc @ (if ready it then [pi_id it] else []),
        acc_blocked := acc_blocked acc @ (if blocked it then [pi_id it] else []),
        acc_active := acc_active acc @ (if is_active_status (pi_status it) then [pi_id it] else []),
        acc_completed := acc_completed acc \<union> (if is_completed_status (pi_status it) then {pi_id it} else {}),
        acc_terminal := acc_terminal acc \<union> (if is_terminal_status (pi_status it) then {pi_id it} else {}),
        acc_unresolved := acc_unresolved acc \<union> set (missing_dependencies it known)\<rparr>"
    by (simp add: summarize_item_def Let_def ready_def blocked_def)
  then show ?case
    by (simp add: Cons.IH completed_item_ids_def Un_assoc Un_insert_right)
qed

lemma summarize_plan_graph_eq:
  assumes "hash_order iter"
  shows "summarize_plan_graph iter items =
    \<lparr>ready_ids = sort (map pi_id (filter (item_ready items) items)),
     blocked_ids = sort (map pi_id (filter (item_blocked items) items)),
     active_ids = sort (map pi_id (filter (\<lambda>it. is_active_status (pi_status it)) items)),
     completed_ids = sorted_list_of_set (completed_item_ids items),
     terminal_ids = sorted_list_of_set (pi_id ` set (filter (\<lambda>it. is_terminal_status (pi_status it)) items)),
     unresolved_dependency_ids =
       sorted_list_of_set (\<Union>it\<in>set items. set (missing_dependencies it (item_ids items))),
     cycle_ids = sorted_list_of_set {y. reaches_cycle items y}\<rparr>"
proof -
  have ready: "(\<lambda>it. is_runnable_status (pi_status it) \<and> missing_dependencies it (item_ids items) = []
       \<and> unresolved_dependencies it (item_ids items) (completed_item_ids items) = []
       \<and> pi_id it \<notin> set (cycle_item_ids iter items)) = item_ready items"
    using no_blockers_iff [of _ items] by (fastforce simp: fun_eq_iff item_ready_def set_cycle_ids [OF assms])
  have blocked: "(\<lambda>it. \<not> (is_runnable_status (pi_status it) \<and> missing_dependencies it (item_ids items) = []
       \<and> unresolved_dependencies it (item_ids items) (completed_item_ids items) = []
       \<and> pi_id it \<notin> set (cycle_item_ids iter items)) \<and> \<not> is_terminal_status (pi_status it) \<and> \<not> is_active_status (pi_status it)
       \<and> (missing_dependencies it (item_ids items) \<noteq> []
          \<or> unresolved_dependencies it (item_ids items) (completed_item_ids items) \<noteq> []
          \<or> pi_id it \<in> set (cycle_item_ids iter items) \<or> pi_status it = ''blocked'')) = item_blocked items"
    using no_blockers_iff [of _ items] 
    by (fastforce simp: fun_eq_iff item_blocked_def item_ready_def set_cycle_ids [OF assms])
  show ?thesis
    unfolding summarize_plan_graph_def Let_def fold_summarize_item ready blocked
    by (simp add: cycle_ids_reach [OF assms])
qed

lemma in_ready_ids:
  "hash_order iter \<Longrightarrow> i \<in> set (ready_ids (summarize_plan_graph iter items)) \<longleftrightarrow>
     (\<exists>it\<in>set items. pi_id it = i \<and> item_ready items it)"
  by (auto simp: summarize_plan_graph_eq)

lemma status_disjoint:
  "is_runnable_status s \<Longrightarrow> \<not> is_terminal_status s \<and> \<not> is_active_status s \<and> s \<noteq> ''blocked''"
  "is_active_status s \<Longrightarrow> \<not> is_terminal_status s"
  "is_completed_status s \<Longrightarrow> is_terminal_status s"
  by (auto simp: is_runnable_status_def is_terminal_status_def is_active_status_def is_completed_status_def)

lemma distinct_ids_inj: "distinct (map pi_id items) \<Longrightarrow> a \<in> set items \<Longrightarrow> b \<in> set items \<Longrightarrow> pi_id a = pi_id b \<Longrightarrow> a = b"
  by (simp add: distinct_map inj_on_def)


section \<open>The order of runnable items\<close>

lemma ready_filter:
  assumes "hash_order iter" and "distinct (map pi_id items)"
  shows "filter (\<lambda>it. pi_id it \<in> set (ready_ids (summarize_plan_graph iter items))) items =
    filter (item_ready items) items"
  using distinct_ids_inj [OF assms(2)] by (intro filter_cong) (auto simp: in_ready_ids [OF assms(1)])

lemma next_runnable_eq:
  assumes "hash_order iter" and "distinct (map pi_id items)"
  shows "next_runnable_item_ids iter items limit =
    (let ids = map pi_id (sort_key item_key (filter (item_ready items) items))
     in case limit of Some l \<Rightarrow> take l ids | None \<Rightarrow> ids)"
  by (simp add: next_runnable_item_ids_def Let_def ready_filter [OF assms] cong: option.case_cong)

lemma runnable_order:
  assumes "distinct (map pi_id items)"
  defines "its \<equiv> sort_key item_key (filter (item_ready items) items)"
  shows "sorted_wrt (\<lambda>a b. item_key a < item_key b) its"
    and "set its = {it \<in> set items. item_ready items it}"
    and "sort (map pi_id its) = sort (map pi_id (filter (item_ready items) items))"
proof -
  have "sorted (map item_key its)" unfolding its_def by (rule sorted_sort_key)
  moreover have "inj_on item_key (set its)"
    using distinct_ids_inj [OF assms(1)] by (auto simp: inj_on_def its_def)
  moreover have "distinct its" using assms(1) by (simp add: distinct_map its_def)
  ultimately have "sorted_wrt (<) (map item_key its)"
    by (simp add: strict_sorted_iff distinct_map)
  then show "sorted_wrt (\<lambda>a b. item_key a < item_key b) its" by (simp add: sorted_wrt_map)
  show "set its = {it \<in> set items. item_ready items it}" by (simp add: its_def)
  show "sort (map pi_id its) = sort (map pi_id (filter (item_ready items) items))"
    by (rule properties_for_sort) (simp_all add: its_def mset_map)
qed

lemma find_unassigned_candidate:
  assumes "distinct (map pi_id items)" and "set its \<subseteq> set items"
  shows "find (\<lambda>c. case find (\<lambda>it. pi_id it = c) items of Some it \<Rightarrow> pi_assigned_to it = None | None \<Rightarrow> False)
      (map pi_id its) = map_option pi_id (find (\<lambda>it. pi_assigned_to it = None) its)"
  unfolding find_map using assms
  by (intro arg_cong [where f = "map_option pi_id"] find_cong) (auto simp: find_distinct_key subset_iff)

section \<open>Progress\<close>

text \<open>
  Where every item is runnable or completed, an uncompleted resolvable id leads, along its
  uncompleted dependencies, to a ready item.
\<close>

lemma uncompleted_leads_to_ready:
  assumes "resolvable items y" and "y \<notin> completed_item_ids items"
    and known: "\<And>it d. it \<in> set items \<Longrightarrow> d \<in> set (pi_blocked_by it) \<Longrightarrow> d \<in> item_ids items"
    and no_cycle: "\<And>x. \<not> reaches_cycle items x"
    and run: "\<And>it. it \<in> set items \<Longrightarrow> is_runnable_status (pi_status it) \<or> is_completed_status (pi_status it)"
  shows "\<exists>it\<in>set items. item_ready items it"
  using assms(1,2)
proof (induction rule: resolvable.induct)
  case (resolvableI y)
  then obtain it where it: "it \<in> set items" "pi_id it = y" by (auto simp: item_ids_def)
  with resolvableI.prems run have r: "is_runnable_status (pi_status it)"
    by (auto simp: in_completed_item_ids)
  show ?case
  proof (cases "set (pi_blocked_by it) \<subseteq> completed_item_ids items")
    case True
    with it r no_cycle show ?thesis by (auto simp: item_ready_def)
  next
    case False
    then obtain d where d: "d \<in> set (pi_blocked_by it)" "d \<notin> completed_item_ids items" by auto
    then have "(y, d) \<in> dep_edges items" using it known by (auto simp: dep_edges_def)
    with resolvableI.IH d(2) show ?thesis by blast
  qed
qed

lemma sorted_list_of_set_Nil: "finite A \<Longrightarrow> sorted_list_of_set A = [] \<Longrightarrow> A = {}"
  by (metis set_empty set_sorted_list_of_set)

section \<open>Completing an item\<close>

lemma complete_item_ids [simp]: "item_ids (complete_item t items) = item_ids items"
  unfolding item_ids_def complete_item_def set_map image_image by (rule image_cong) auto

lemma complete_item_edges [simp]: "dep_edges (complete_item t items) = dep_edges items"
proof -
  have "(\<exists>it\<in>set (complete_item t items). pi_id it = y \<and> d \<in> set (pi_blocked_by it) \<and> d \<in> item_ids items) \<longleftrightarrow>
      (\<exists>it\<in>set items. pi_id it = y \<and> d \<in> set (pi_blocked_by it) \<and> d \<in> item_ids items)" for y d
    unfolding complete_item_def set_map bex_simps by (rule bex_cong) auto
  then show ?thesis by (simp add: dep_edges_def)
qed

lemma complete_item_completed:
  assumes "t \<in> item_ids items"
  shows "completed_item_ids (complete_item t items) = insert t (completed_item_ids items)"
proof (rule set_eqI)
  fix y
  have "y \<in> completed_item_ids (complete_item t items) \<longleftrightarrow>
      (\<exists>it\<in>set items. pi_id it = y \<and> (y = t \<or> is_completed_status (pi_status it)))"
    unfolding in_completed_item_ids complete_item_def set_map bex_simps
    by (rule bex_cong) (auto simp: is_completed_status_def)
  also have "\<dots> \<longleftrightarrow> y \<in> insert t (completed_item_ids items)"
    using assms by (auto simp: in_completed_item_ids item_ids_def)
  finally show "y \<in> completed_item_ids (complete_item t items) \<longleftrightarrow>
      y \<in> insert t (completed_item_ids items)" .
qed

lemma add_metadata_carryover_get:
  "hget_or 0 (add_metadata_carryover task it m) agent = hget_or 0 m agent +
     (if pi_assigned_to it = Some agent \<and> pi_id it \<noteq> pi_id task then metadata_score task it else 0)"
  by (auto simp: add_metadata_carryover_def metadata_score_def hmap_simps scope_overlap_def Let_def
      split: option.splits)

lemma assignment_loads_get:
  "hget_or 0 (assignment_loads plan) agent =
     length (filter (\<lambda>it. \<not> is_terminal_status (pi_status it) \<and> pi_assigned_to it = Some agent) (vp_items plan))"
proof -
  have "hget_or 0 (fold add_load its m) agent = hget_or 0 m agent +
      length (filter (\<lambda>it. \<not> is_terminal_status (pi_status it) \<and> pi_assigned_to it = Some agent) its)" for its m
    by (induction its arbitrary: m) (auto simp: add_load_def hmap_simps split: option.splits)
  from this [of "vp_items plan" "[]"] show ?thesis
    by (simp add: assignment_loads_def hget_or_def)
qed

definition demo_item :: "string \<Rightarrow> string \<Rightarrow> string list \<Rightarrow> plan_item" where
  "demo_item i status deps = \<lparr>pi_content = i, pi_status = status, pi_priority = ''high'', pi_id = i,
     pi_subsystem = None, pi_file_scope = [], pi_blocked_by = deps, pi_assigned_to = None\<rparr>"

definition demo_items :: "plan_item list" where
  "demo_items = [demo_item ''a'' ''completed'' [], demo_item ''b'' ''queued'' [''a''], demo_item ''c'' ''queued'' [''b'']]"

definition demo_plan :: versioned_plan where
  "demo_plan = VersionedPlan_new\<lparr>vp_items := demo_items\<rparr>"

definition downstream_plan :: versioned_plan where
  "downstream_plan = VersionedPlan_new\<lparr>vp_items :=
     [demo_item ''a'' ''completed'' [''b''], demo_item ''b'' ''completed'' [''a''], demo_item ''c'' ''queued'' [''a'']]\<rparr>"

lemma downstream_reason: "explicit_task_blocked_reason rev downstream_plan ''c'' =
      Some (''Task '' @ apos @ ''c'' @ apos @ '' is part of a dependency cycle and is not runnable'')" by code_simp

lemma downstream_not_on_cycle: "(''c'', ''c'') \<notin> (dep_edges (vp_items downstream_plan))\<^sup>+"
proof
  assume "(''c'', ''c'') \<in> (dep_edges (vp_items downstream_plan))\<^sup>+"
  then obtain x where "(x, ''c'') \<in> dep_edges (vp_items downstream_plan)" by (meson tranclD2)
  then show False by (auto simp: dep_edges_def downstream_plan_def demo_item_def)
qed

lemma downstream_not_ready:
  "\<not> (''c'' \<in> set (ready_ids (summarize_plan_graph rev (vp_items downstream_plan))))"
  by code_simp

lemma add_dependency_carryover_get:
  "hget_or 0 (add_dependency_carryover plan dep m) agent =
     hget_or 0 m agent + carryover_score plan agent dep"
  by (auto simp: add_dependency_carryover_def carryover_score_def hmap_simps Let_def split: option.splits)

section \<open>Properties\<close>

text \<open>
  C1: Dependency-cycle detection is exact and does not depend on hash iteration order: for every
  order in which the hash maps may be listed, \<^verbatim>\<open>cycle_item_ids\<close> returns, sorted and without
  duplicates, exactly the ids from which following dependencies leads to an id that depends on
  itself.
\<close>

theorem cycle_item_ids_exact:
  assumes "hash_order iter"
  shows "set (cycle_item_ids iter items) =
      {y. \<exists>c. (y, c) \<in> (dep_edges items)\<^sup>* \<and> (c, c) \<in> (dep_edges items)\<^sup>+}
    \<and> sorted_wrt (<) (cycle_item_ids iter items)"
  using set_cycle_ids [OF assms, of items]
  by (simp add: reaches_cycle_def) (simp add: cycle_ids_reach [OF assms] strict_sorted_list_of_set)

text \<open>
  C9: No deadlock: in a plan without cycles and without missing dependencies, whose items are all
  runnable or completed, \<^verbatim>\<open>summarize_plan_graph\<close> reports a ready item as long as some item is not
  completed.
\<close>

theorem plan_makes_progress:
  assumes "hash_order iter"
    and "cycle_ids (summarize_plan_graph iter items) = []"
    and "unresolved_dependency_ids (summarize_plan_graph iter items) = []"
    and "\<forall>it\<in>set items. is_runnable_status (pi_status it) \<or> is_completed_status (pi_status it)"
    and "\<exists>it\<in>set items. pi_id it \<notin> completed_item_ids items"
  shows "ready_ids (summarize_plan_graph iter items) \<noteq> []"
proof -
  have no_cycle: "\<not> reaches_cycle items y" for y
    using sorted_list_of_set_Nil [OF finite_reaches_cycle, of items] assms(1,2)
    by (auto simp: summarize_plan_graph_eq)
  have "(\<Union>it\<in>set items. set (missing_dependencies it (item_ids items))) = {}"
    using assms(1,3) by (intro sorted_list_of_set_Nil) (simp_all add: summarize_plan_graph_eq)
  then have known: "it \<in> set items \<Longrightarrow> d \<in> set (pi_blocked_by it) \<Longrightarrow> d \<in> item_ids items" for it d
    by (auto simp: missing_dependencies_def)
  obtain it where it: "it \<in> set items" "pi_id it \<notin> completed_item_ids items" using assms(5) by blast
  then have "resolvable items (pi_id it)"
    using no_cycle resolvable_iff by (auto simp: item_ids_def)
  then obtain r where "r \<in> set items" "item_ready items r"
    using uncompleted_leads_to_ready it(2) known no_cycle assms(4) by blast
  then have "pi_id r \<in> set (ready_ids (summarize_plan_graph iter items))"
    using in_ready_ids [OF assms(1)] by blast
  then show ?thesis by auto
qed

text \<open>
  C31: Completing a task makes ready exactly the runnable tasks that were waiting for it alone: after
  the uncompleted item \<open>t\<close> completes, \<^verbatim>\<open>newly_ready_item_ids\<close> returns the other runnable items that
  list \<open>t\<close>, whose remaining dependencies were already completed and that reach no cycle.
\<close>

theorem completion_unblocks_exactly_dependents:
  assumes "hash_order iter" and "distinct (map pi_id items)"
    and "t \<in> item_ids items" and "t \<notin> completed_item_ids items"
  shows "set (newly_ready_item_ids iter items (complete_item t items)) =
    pi_id ` {it \<in> set items. pi_id it \<noteq> t \<and> is_runnable_status (pi_status it)
       \<and> t \<in> set (pi_blocked_by it) \<and> set (pi_blocked_by it) \<subseteq> insert t (completed_item_ids items)
       \<and> \<not> reaches_cycle items (pi_id it)}"
proof -
  have ready': "item_ready (complete_item t items) it \<longleftrightarrow> is_runnable_status (pi_status it)
      \<and> set (pi_blocked_by it) \<subseteq> insert t (completed_item_ids items) \<and> \<not> reaches_cycle items (pi_id it)" for it
    by (simp add: item_ready_def reaches_cycle_def complete_item_completed [OF assms(3)])
  have after: "i \<in> set (ready_ids (summarize_plan_graph iter (complete_item t items))) \<longleftrightarrow>
      (\<exists>it\<in>set items. pi_id it = i \<and> i \<noteq> t \<and> is_runnable_status (pi_status it)
        \<and> set (pi_blocked_by it) \<subseteq> insert t (completed_item_ids items) \<and> \<not> reaches_cycle items i)" for i
    unfolding in_ready_ids [OF assms(1)] ready'
    by (auto simp: complete_item_def is_runnable_status_def split: if_splits)
  have before: "pi_id it \<in> set (ready_ids (summarize_plan_graph iter items)) \<longleftrightarrow> item_ready items it"
    if "it \<in> set items" for it
    using that distinct_ids_inj [OF assms(2)] in_ready_ids [OF assms(1)] by blast
  have old: "item_ready items it \<longleftrightarrow> t \<notin> set (pi_blocked_by it)"
    if "is_runnable_status (pi_status it)" "\<not> reaches_cycle items (pi_id it)"
      "set (pi_blocked_by it) \<subseteq> insert t (completed_item_ids items)" for it
    using that assms(4) by (auto simp: item_ready_def)
  show ?thesis
    unfolding newly_ready_item_ids_def set_filter after
    using before old by (auto simp: image_iff)
qed

text \<open>
  Work is handed out by priority: \<^verbatim>\<open>next_runnable_item_ids\<close> lists exactly the ready items,
  strictly ordered by priority rank and then by id, and a limit keeps a prefix of that list.
\<close>

theorem next_runnable_priority_order:
  assumes "hash_order iter" and "distinct (map pi_id items)"
  shows "\<exists>its. next_runnable_item_ids iter items None = map pi_id its
    \<and> (\<forall>l. next_runnable_item_ids iter items (Some l) = map pi_id (take l its))
    \<and> sort (map pi_id its) = ready_ids (summarize_plan_graph iter items)
    \<and> set its \<subseteq> set items \<and> sorted_wrt (\<lambda>a b. item_key a < item_key b) its"
  using runnable_order [OF assms(2)]
  by (intro exI [of _ "sort_key item_key (filter (item_ready items) items)"])
    (simp add: next_runnable_eq [OF assms] Let_def take_map summarize_plan_graph_eq [OF assms(1)])

text \<open>
  \<^verbatim>\<open>next_unassigned_runnable_item_id\<close> returns the ready, unassigned item that comes first by
  priority rank and id, and returns nothing only when there is no such item.
\<close>

theorem next_unassigned_is_best_ready:
  assumes "hash_order iter" and "distinct (map pi_id (vp_items plan))"
  defines "cands \<equiv> {it \<in> set (vp_items plan). pi_assigned_to it = None
       \<and> pi_id it \<in> set (ready_ids (summarize_plan_graph iter (vp_items plan)))}"
  shows "case next_unassigned_runnable_item_id iter plan of
      None \<Rightarrow> cands = {}
    | Some i \<Rightarrow> \<exists>it\<in>cands. pi_id it = i \<and> (\<forall>other\<in>cands. item_key it \<le> item_key other)"
proof -
  let ?items = "vp_items plan" and ?P = "\<lambda>it. pi_assigned_to it = None"
  define its where "its = sort_key item_key (filter (item_ready ?items) ?items)"
  note order = runnable_order [OF assms(2), folded its_def]
  have "next_unassigned_runnable_item_id iter plan = map_option pi_id (find ?P its)"
    unfolding next_unassigned_runnable_item_id_def next_runnable_eq [OF assms(1,2)] its_def [symmetric]
    using find_unassigned_candidate [OF assms(2), of its] order(2) by (simp add: Let_def)
  moreover have "cands = {it \<in> set its. ?P it}"
    using order(2) distinct_ids_inj [OF assms(2)] by (auto simp: cands_def in_ready_ids [OF assms(1)])
  ultimately show ?thesis
    using find_least [OF order(1), of ?P] find_None_iff [of ?P its] by (cases "find ?P its") auto
qed

text \<open>
  The two ways the server asks whether a task may start agree: for a task of the plan with a
  runnable status, \<^verbatim>\<open>explicit_task_blocked_reason\<close> gives no reason exactly when
  \<^verbatim>\<open>summarize_plan_graph\<close> lists the task as ready.
\<close>

theorem blocked_reason_agrees_with_ready:
  assumes "hash_order iter" and "distinct (map pi_id (vp_items plan))"
    and "it \<in> set (vp_items plan)" and "is_runnable_status (pi_status it)"
  shows "explicit_task_blocked_reason iter plan (pi_id it) = None \<longleftrightarrow>
    pi_id it \<in> set (ready_ids (summarize_plan_graph iter (vp_items plan)))"
proof -
  have find: "find (\<lambda>x. pi_id x = pi_id it) (vp_items plan) = Some it"
    using assms(2,3) by (rule find_distinct_key)
  have "explicit_task_blocked_reason iter plan (pi_id it) = None \<longleftrightarrow>
      set (pi_blocked_by it) \<subseteq> completed_item_ids (vp_items plan) \<and> \<not> reaches_cycle (vp_items plan) (pi_id it)"
    using no_blockers_iff [of it "vp_items plan"]
    by (auto simp: explicit_task_blocked_reason_def Let_def find set_cycle_ids [OF assms(1)])
  also have "\<dots> \<longleftrightarrow> item_ready (vp_items plan) it"
    using assms(4) by (simp add: item_ready_def)
  also have "\<dots> \<longleftrightarrow> pi_id it \<in> set (ready_ids (summarize_plan_graph iter (vp_items plan)))"
    using in_ready_ids [OF assms(1)] assms(3) distinct_ids_inj [OF assms(2)] by blast
  finally show ?thesis .
qed

text \<open>
  With distinct ids the summary's classes are consistent: ready, blocked, active and terminal ids
  are pairwise disjoint, no ready item reaches a cycle, and completed ids are terminal.
\<close>

theorem summary_classes_disjoint:
  assumes "hash_order iter" and "distinct (map pi_id items)"
  defines "s \<equiv> summarize_plan_graph iter items"
  shows "set (ready_ids s) \<inter> set (blocked_ids s) = {} \<and> set (ready_ids s) \<inter> set (active_ids s) = {} \<and>
    set (ready_ids s) \<inter> set (terminal_ids s) = {} \<and> set (blocked_ids s) \<inter> set (active_ids s) = {} \<and>
    set (blocked_ids s) \<inter> set (terminal_ids s) = {} \<and> set (active_ids s) \<inter> set (terminal_ids s) = {} \<and>
    set (ready_ids s) \<inter> set (cycle_ids s) = {} \<and> set (completed_ids s) \<subseteq> set (terminal_ids s)"
  using distinct_ids_inj [OF assms(2)] status_disjoint
  unfolding s_def summarize_plan_graph_eq [OF assms(1)]
  by (auto simp: item_blocked_def item_ready_def completed_item_ids_def; blast)

text \<open>
  A task-control request without a task id resolves only to a task that is assigned to the target
  session and whose status admits the action, and to one of the lowest status rank (active before
  queued before failed before completed).
\<close>

theorem task_control_target_sound:
  assumes "task_control_target_item_id items session action = Inr i"
  shows "\<exists>it\<in>set items. pi_id it = i \<and> pi_assigned_to it = Some session
    \<and> task_control_action_allows_status action (pi_status it)
    \<and> (\<forall>other\<in>set items. pi_assigned_to other = Some session
         \<and> task_control_action_allows_status action (pi_status other)
         \<longrightarrow> task_status_rank (pi_status it) \<le> task_status_rank (pi_status other))"
proof -
  define cands where "cands = sort_key (\<lambda>it. task_status_rank (pi_status it))
      (filter (\<lambda>it. task_control_action_allows_status action (pi_status it))
        (filter (\<lambda>it. pi_assigned_to it = Some session) items))"
  have set: "it \<in> set cands \<longleftrightarrow> it \<in> set items \<and> pi_assigned_to it = Some session
      \<and> task_control_action_allows_status action (pi_status it)" for it
    by (auto simp: cands_def)
  have sorted: "sorted (map (\<lambda>it. task_status_rank (pi_status it)) cands)"
    by (simp add: cands_def)
  have "\<exists>it rest. cands = it # rest \<and> i = pi_id it"
    using assms unfolding task_control_target_item_id_def Let_def cands_def [symmetric]
    by (auto split: list.splits if_splits)
  then obtain it rest where it: "cands = it # rest" "i = pi_id it" by blast
  then have "\<forall>other\<in>set cands. task_status_rank (pi_status it) \<le> task_status_rank (pi_status other)"
    using sorted by auto
  moreover have "it \<in> set cands" by (simp add: it)
  ultimately show ?thesis unfolding it(2) using set by blast
qed

text \<open>
  \<^verbatim>\<open>assignment_affinities_for_task\<close> fails exactly for ids that are not in the plan; otherwise
  every agent's load is its number of non-terminal assigned items, its metadata affinity sums two
  points per item of the task's subsystem and one per shared file of the task's file scope, over
  the agent's other items, and its dependency affinity counts the task's dependencies that the
  agent owns in the plan and in the progress records.
\<close>

theorem affinities_count:
  "case assignment_affinities_for_task plan task_id of
     Inl _ \<Rightarrow> task_id \<notin> item_ids (vp_items plan)
   | Inr aff \<Rightarrow> \<exists>task\<in>set (vp_items plan). pi_id task = task_id \<and>
       (\<forall>agent. hget_or 0 (aff_loads aff) agent = length (filter
            (\<lambda>it. \<not> is_terminal_status (pi_status it) \<and> pi_assigned_to it = Some agent) (vp_items plan))
        \<and> hget_or 0 (aff_metadata_carryover aff) agent =
            (\<Sum>it\<leftarrow>filter (\<lambda>it. pi_assigned_to it = Some agent \<and> pi_id it \<noteq> task_id) (vp_items plan).
               metadata_score task it)
        \<and> hget_or 0 (aff_dependency_carryover aff) agent =
            (\<Sum>dep\<leftarrow>pi_blocked_by task. carryover_score plan agent dep))"
proof (cases "find (\<lambda>it. pi_id it = task_id) (vp_items plan)")
  case None
  then have "task_id \<notin> item_ids (vp_items plan)" by (auto simp: find_None_iff item_ids_def)
  then show ?thesis by (simp add: assignment_affinities_for_task_def None)
next
  case (Some task)
  then have task: "task \<in> set (vp_items plan)" "pi_id task = task_id" by (auto simp: find_Some_iff)
  have "hget_or 0 (fold (add_metadata_carryover task) its m) agent = hget_or 0 m agent +
      (\<Sum>it\<leftarrow>filter (\<lambda>it. pi_assigned_to it = Some agent \<and> pi_id it \<noteq> pi_id task) its. metadata_score task it)"
    for its m agent
    by (induction its arbitrary: m) (auto simp: add_metadata_carryover_get)
  moreover have "hget_or 0 (fold (add_dependency_carryover plan) deps m) agent =
      hget_or 0 m agent + (\<Sum>dep\<leftarrow>deps. carryover_score plan agent dep)" for deps m agent
    by (induction deps arbitrary: m) (auto simp: add_dependency_carryover_get)
  ultimately show ?thesis
    using task
    by (auto simp: assignment_affinities_for_task_def Some assignment_loads_get hget_or_def [of 0 "[]"]
        intro!: bexI [of _ task])
qed

text \<open>
  Action names round-trip: \<^verbatim>\<open>TaskControlAction::parse\<close> accepts exactly the strings
  \<^verbatim>\<open>as_str\<close> produces, and returns the action they were produced from.
\<close>

theorem TaskControlAction_round_trip:
  "TaskControlAction_parse s = Some a \<longleftrightarrow> s = TaskControlAction_as_str a"
  by (cases a) (auto simp: TaskControlAction_parse_def)

text \<open>
  A task that merely depends on a cycle is reported as part of it. In a plan where \<open>a\<close> and \<open>b\<close>
  depend on each other but are both completed, the queued \<open>c\<close> that depends on \<open>a\<close> is on no cycle,
  yet it is not ready and \<^verbatim>\<open>explicit_task_blocked_reason\<close> says that it is part of a dependency
  cycle.
\<close>

theorem downstream_of_cycle_blocked:
  "(''c'', ''c'') \<notin> (dep_edges (vp_items downstream_plan))\<^sup>+
   \<and> \<not> (''c'' \<in> set (ready_ids (summarize_plan_graph rev (vp_items downstream_plan))))
   \<and> explicit_task_blocked_reason rev downstream_plan ''c'' =
       Some (''Task '' @ apos @ ''c'' @ apos @ '' is part of a dependency cycle and is not runnable'')"
  using downstream_not_on_cycle downstream_reason downstream_not_ready by blast

section \<open>Witnesses\<close>

lemmas demo_simps = demo_items_def demo_item_def is_completed_status_def is_runnable_status_def
  item_ids_def completed_item_ids_def

theorem cycle_item_ids_exact_witness:
  "hash_order (rev :: string list \<Rightarrow> string list) \<and>
   {y. \<exists>c. (y, c) \<in> (dep_edges (vp_items downstream_plan))\<^sup>* \<and>
      (c, c) \<in> (dep_edges (vp_items downstream_plan))\<^sup>+} = {''a'', ''b'', ''c''}"
proof -
  have "cycle_item_ids rev (vp_items downstream_plan) = [''a'', ''b'', ''c'']" by code_simp
  then show ?thesis
    using cycle_item_ids_exact [OF hash_order_rev, of "vp_items downstream_plan"] by simp
qed

theorem plan_makes_progress_witness:
  "ready_ids (summarize_plan_graph rev demo_items) \<noteq> []"
proof (rule plan_makes_progress)
  show "cycle_ids (summarize_plan_graph rev demo_items) = []" by code_simp
  show "unresolved_dependency_ids (summarize_plan_graph rev demo_items) = []" by code_simp
qed (simp_all add: demo_simps)

theorem completion_unblocks_exactly_dependents_witness:
  "set (newly_ready_item_ids rev demo_items (complete_item ''b'' demo_items)) = {''c''} \<and>
   pi_id ` {it \<in> set demo_items. pi_id it \<noteq> ''b'' \<and> is_runnable_status (pi_status it)
       \<and> ''b'' \<in> set (pi_blocked_by it)
       \<and> set (pi_blocked_by it) \<subseteq> insert ''b'' (completed_item_ids demo_items)
       \<and> \<not> reaches_cycle demo_items (pi_id it)} = {''c''}"
proof -
  have "newly_ready_item_ids rev demo_items (complete_item ''b'' demo_items) = [''c'']" by code_simp
  moreover have "distinct (map pi_id demo_items)" "''b'' \<in> item_ids demo_items"
      "''b'' \<notin> completed_item_ids demo_items"
    by (simp_all add: demo_simps)
  ultimately show ?thesis
    using completion_unblocks_exactly_dependents [OF hash_order_rev, of demo_items "''b''"] by simp
qed

theorem next_runnable_priority_order_witness:
  "\<exists>its. next_runnable_item_ids rev demo_items None = map pi_id its
    \<and> (\<forall>l. next_runnable_item_ids rev demo_items (Some l) = map pi_id (take l its))
    \<and> sort (map pi_id its) = [''b'']
    \<and> set its \<subseteq> set demo_items \<and> sorted_wrt (\<lambda>a b. item_key a < item_key b) its"
proof -
  have "ready_ids (summarize_plan_graph rev demo_items) = [''b'']" by code_simp
  moreover have "distinct (map pi_id demo_items)" by (simp add: demo_simps)
  ultimately show ?thesis using next_runnable_priority_order [OF hash_order_rev, of demo_items] by simp
qed

theorem next_unassigned_is_best_ready_witness:
  "next_unassigned_runnable_item_id rev demo_plan = Some ''b'' \<and>
   (\<exists>it\<in>{it \<in> set (vp_items demo_plan). pi_assigned_to it = None
       \<and> pi_id it \<in> set (ready_ids (summarize_plan_graph rev (vp_items demo_plan)))}. pi_id it = ''b'')"
proof -
  have n: "next_unassigned_runnable_item_id rev demo_plan = Some ''b''" by code_simp
  have d: "distinct (map pi_id (vp_items demo_plan))" by (simp add: demo_plan_def demo_simps)
  from next_unassigned_is_best_ready [OF hash_order_rev d] n show ?thesis
    unfolding n option.case by blast
qed

theorem blocked_reason_agrees_with_ready_witness:
  "explicit_task_blocked_reason rev downstream_plan ''c'' \<noteq> None \<and>
   (explicit_task_blocked_reason rev downstream_plan (pi_id (demo_item ''c'' ''queued'' [''a''])) = None \<longleftrightarrow>
    pi_id (demo_item ''c'' ''queued'' [''a'']) \<in> set (ready_ids (summarize_plan_graph rev (vp_items downstream_plan))))"
proof -
  have "distinct (map pi_id (vp_items downstream_plan))"
      "demo_item ''c'' ''queued'' [''a''] \<in> set (vp_items downstream_plan)"
      "is_runnable_status (pi_status (demo_item ''c'' ''queued'' [''a'']))"
    by (simp_all add: downstream_plan_def demo_simps)
  from blocked_reason_agrees_with_ready [OF hash_order_rev this] downstream_reason show ?thesis by simp
qed

theorem summary_classes_disjoint_witness:
  "set (ready_ids (summarize_plan_graph rev demo_items)) \<inter> set (blocked_ids (summarize_plan_graph rev demo_items)) = {}"
  using summary_classes_disjoint [OF hash_order_rev, of demo_items] by (simp add: demo_simps)

theorem task_control_target_sound_witness:
  "\<exists>it\<in>set [(demo_item ''x'' ''queued'' [])\<lparr>pi_assigned_to := Some ''s''\<rparr>,
            (demo_item ''y'' ''running'' [])\<lparr>pi_assigned_to := Some ''s''\<rparr>].
     pi_id it = ''y'' \<and> pi_assigned_to it = Some ''s''"
proof -
  have "task_control_target_item_id [(demo_item ''x'' ''queued'' [])\<lparr>pi_assigned_to := Some ''s''\<rparr>,
      (demo_item ''y'' ''running'' [])\<lparr>pi_assigned_to := Some ''s''\<rparr>] ''s'' Resume = Inr ''y''"
    by code_simp
  from task_control_target_sound [OF this] show ?thesis by blast
qed

end
