(* ===== verification/Swarm_Core.thy ===== *)
theory Swarm_Core
  imports Rust_Prelude Swarm_Plan
begin

text \<open>
  Model of \<^verbatim>\<open>crates/gcode-swarm-core/src/lib.rs\<close>: roles and lifecycle statuses of swarm members,
  the two-way index of channel subscriptions, and the texts a finished agent sends back.

  A \<^verbatim>\<open>HashSet<String>\<close> that the code iterates is a list without duplicates, its order the iteration
  order. The contract of the index is the locale \<^verbatim>\<open>subscription_registry\<close>: an implementation with
  an abstraction to the set of subscriptions (session, swarm, channel). The model of
  \<^verbatim>\<open>ChannelIndex\<close> is an interpretation of it.
\<close>

section \<open>Definitions\<close>

definition MAX_SWARM_COMPLETION_REPORT_CHARS :: nat where
  "MAX_SWARM_COMPLETION_REPORT_CHARS = 4000"

definition SWARM_COMPLETION_REPORT_MARKER :: string where
  "SWARM_COMPLETION_REPORT_MARKER = ''SWARM COMPLETION REPORT REQUIRED''"

subsection \<open>Roles and statuses\<close>

datatype swarm_role = Agent | Coordinator | WorktreeManager | OtherRole string

fun SwarmRole_as_str :: "swarm_role \<Rightarrow> string" where
  "SwarmRole_as_str Agent = ''agent''"
| "SwarmRole_as_str Coordinator = ''coordinator''"
| "SwarmRole_as_str WorktreeManager = ''worktree_manager''"
| "SwarmRole_as_str (OtherRole value) = value"

definition SwarmRole_from :: "string \<Rightarrow> swarm_role" where
  "SwarmRole_from value =
     (if value = ''agent'' then Agent
      else if value = ''coordinator'' then Coordinator
      else if value = ''worktree_manager'' then WorktreeManager
      else OtherRole value)"

datatype swarm_lifecycle_status =
    Spawned | Ready | Running | RunningStale | Completed | Done | Failed | Stopped | Crashed
  | Queued | Blocked | Pending | Todo | OtherStatus string

fun SwarmLifecycleStatus_as_str :: "swarm_lifecycle_status \<Rightarrow> string" where
  "SwarmLifecycleStatus_as_str Spawned = ''spawned''"
| "SwarmLifecycleStatus_as_str Ready = ''ready''"
| "SwarmLifecycleStatus_as_str Running = ''running''"
| "SwarmLifecycleStatus_as_str RunningStale = ''running_stale''"
| "SwarmLifecycleStatus_as_str Completed = ''completed''"
| "SwarmLifecycleStatus_as_str Done = ''done''"
| "SwarmLifecycleStatus_as_str Failed = ''failed''"
| "SwarmLifecycleStatus_as_str Stopped = ''stopped''"
| "SwarmLifecycleStatus_as_str Crashed = ''crashed''"
| "SwarmLifecycleStatus_as_str Queued = ''queued''"
| "SwarmLifecycleStatus_as_str Blocked = ''blocked''"
| "SwarmLifecycleStatus_as_str Pending = ''pending''"
| "SwarmLifecycleStatus_as_str Todo = ''todo''"
| "SwarmLifecycleStatus_as_str (OtherStatus value) = value"

definition SwarmLifecycleStatus_from :: "string \<Rightarrow> swarm_lifecycle_status" where
  "SwarmLifecycleStatus_from value =
     (if value = ''spawned'' then Spawned
      else if value = ''ready'' then Ready
      else if value = ''running'' then Running
      else if value = ''running_stale'' then RunningStale
      else if value = ''completed'' then Completed
      else if value = ''done'' then Done
      else if value = ''failed'' then Failed
      else if value = ''stopped'' then Stopped
      else if value = ''crashed'' then Crashed
      else if value = ''queued'' then Queued
      else if value = ''blocked'' then Blocked
      else if value = ''pending'' then Pending
      else if value = ''todo'' then Todo
      else OtherStatus value)"

text \<open>Serialization writes \<^verbatim>\<open>as_str\<close> and deserialization reads with \<^verbatim>\<open>from\<close>.\<close>

record swarm_member_record =
  sm_session_id :: string
  sm_working_dir :: "string option"
  sm_swarm_id :: "string option"
  sm_swarm_enabled :: bool
  sm_status :: swarm_lifecycle_status
  sm_detail :: "string option"
  sm_friendly_name :: "string option"
  sm_report_back_to_session_id :: "string option"
  sm_latest_completion_report :: "string option"
  sm_role :: swarm_role
  sm_is_headless :: bool

subsection \<open>Channel subscriptions\<close>

type_synonym sub_map = "(string, (string, string list) hmap) hmap"

record channel_index =
  by_swarm_channel :: sub_map
  by_session :: sub_map

definition ChannelIndex_default :: channel_index where
  "ChannelIndex_default = \<lparr>by_swarm_channel = [], by_session = []\<rparr>"

definition subscribe :: "channel_index \<Rightarrow> string \<Rightarrow> string \<Rightarrow> string \<Rightarrow> channel_index" where
  "subscribe self session swarm channel =
     self\<lparr>by_swarm_channel :=
            hentry [] swarm (hentry [] channel (List.insert session)) (by_swarm_channel self),
          by_session :=
            hentry [] session (hentry [] swarm (List.insert channel)) (by_session self)\<rparr>"

text \<open>
  \<^verbatim>\<open>if let Some(set) = subs.get_mut(k) { set.remove(x); if set.is_empty() { subs.remove(k) } }\<close>
\<close>

definition drop_member :: "string \<Rightarrow> string \<Rightarrow> (string, string list) hmap \<Rightarrow> (string, string list) hmap" where
  "drop_member x k subs =
     (case hget subs k of
        None \<Rightarrow> subs
      | Some members \<Rightarrow>
          let members' = removeAll x members
          in if members' = [] then hdel k subs else hput k members' subs)"

text \<open>The outer entry is changed in place and removed when nothing is left in it.\<close>

definition update_outer ::
  "string \<Rightarrow> ((string, string list) hmap \<Rightarrow> (string, string list) hmap) \<Rightarrow> sub_map \<Rightarrow> sub_map" where
  "update_outer k f m =
     (case hget m k of
        None \<Rightarrow> m
      | Some subs \<Rightarrow> let subs' = f subs in if subs' = [] then hdel k m else hput k subs' m)"

definition unsubscribe :: "channel_index \<Rightarrow> string \<Rightarrow> string \<Rightarrow> string \<Rightarrow> channel_index" where
  "unsubscribe self session swarm channel =
     self\<lparr>by_swarm_channel := update_outer swarm (drop_member session channel) (by_swarm_channel self),
          by_session := update_outer session (drop_member channel swarm) (by_session self)\<rparr>"

definition remove_from_swarm :: "string \<Rightarrow> string \<Rightarrow> string list \<Rightarrow> sub_map \<Rightarrow> sub_map" where
  "remove_from_swarm session swarm channels m =
     update_outer swarm (fold (drop_member session) channels) m"

definition remove_session :: "channel_index \<Rightarrow> string \<Rightarrow> channel_index" where
  "remove_session self session =
     (case hget (by_session self) session of
        Some session_subscriptions \<Rightarrow>
          self\<lparr>by_session := hdel session (by_session self),
               by_swarm_channel :=
                 fold (\<lambda>(swarm, channels). remove_from_swarm session swarm channels)
                   session_subscriptions (by_swarm_channel self)\<rparr>
      | None \<Rightarrow>
          self\<lparr>by_swarm_channel :=
                 fold (\<lambda>swarm m.
                     remove_from_swarm session swarm (map fst (hget_or [] m swarm)) m)
                   (map fst (by_swarm_channel self)) (by_swarm_channel self)\<rparr>)"

definition members :: "channel_index \<Rightarrow> string \<Rightarrow> string \<Rightarrow> string list" where
  "members self swarm channel =
     sort (case hget (by_swarm_channel self) swarm of
             None \<Rightarrow> []
           | Some swarm_subs \<Rightarrow> (case hget swarm_subs channel of None \<Rightarrow> [] | Some ms \<Rightarrow> ms))"

definition channels_for_session :: "channel_index \<Rightarrow> string \<Rightarrow> string \<Rightarrow> string list" where
  "channels_for_session self session swarm =
     sort (case hget (by_session self) session of
             None \<Rightarrow> []
           | Some session_subs \<Rightarrow> (case hget session_subs swarm of None \<Rightarrow> [] | Some cs \<Rightarrow> cs))"

subsection \<open>Completion reports\<close>

definition report_instructions :: string where
  "report_instructions =
     nl @ ''Before finishing, call the swarm tool with action='' @ quot @ ''report'' @ quot @
     '' to submit your completion report. '' @
     ''Include a concise message, validation/tests performed, and blockers or follow-ups. '' @
     ''After the report tool succeeds, also write a brief final assistant response. '' @
     ''Do not finish with only tool output, a lifecycle status change, or no final response. '' @
     ''Do not send a separate DM for the final report unless you need interactive coordination before finishing.'' @ nl"

definition append_swarm_completion_report_instructions :: "string \<Rightarrow> string" where
  "append_swarm_completion_report_instructions message =
     (if str_contains SWARM_COMPLETION_REPORT_MARKER message then message
      else
        let out = trim_end message;
            out = (if out \<noteq> [] then out @ nl @ nl else out)
        in out @ (''<system-reminder>'' @ nl) @ SWARM_COMPLETION_REPORT_MARKER @
           report_instructions @ ''</system-reminder>'')"

definition append_section :: "string \<Rightarrow> string option \<Rightarrow> string \<Rightarrow> string" where
  "append_section heading body report =
     (case map_option trim body of
        Some value \<Rightarrow>
          if value \<noteq> [] then
            (if report \<noteq> [] then report @ nl @ nl else report) @ heading @ nl @ value
          else report
      | None \<Rightarrow> report)"

definition format_structured_completion_report ::
  "string \<Rightarrow> string option \<Rightarrow> string option \<Rightarrow> string" where
  "format_structured_completion_report message validation follow_up =
     append_section ''Follow-ups/blockers:'' follow_up
       (append_section ''Validation:'' validation (trim message))"

definition truncation_suffix :: string where
  "truncation_suffix = nl @ nl @ ''[Report truncated by gcode before delivery.]''"

definition normalize_completion_report :: "string option \<Rightarrow> string option" where
  "normalize_completion_report report =
     (case report of
        None \<Rightarrow> None
      | Some r \<Rightarrow>
          let report = trim r in
          if report = [] then None
          else if chars_count report \<le> MAX_SWARM_COMPLETION_REPORT_CHARS then Some report
          else
            let keep_chars = MAX_SWARM_COMPLETION_REPORT_CHARS - chars_count truncation_suffix
            in Some (take_chars keep_chars report @ truncation_suffix))"

definition completion_status_intro :: "string \<Rightarrow> string \<Rightarrow> string" where
  "completion_status_intro name status =
     (if status = ''ready'' then ''Agent '' @ name @ '' finished their work and is ready for more.''
      else if status = ''failed'' then ''Agent '' @ name @ '' finished with status failed.''
      else if status = ''stopped'' then ''Agent '' @ name @ '' stopped.''
      else ''Agent '' @ name @ '' completed their work.'')"

definition completion_followup :: "string \<Rightarrow> bool \<Rightarrow> string" where
  "completion_followup status has_report =
     (if status = ''ready'' then
        (if has_report then ''Use assign_task to give them more work, stop to remove them, or summary/read_context for full context.''
         else ''Use summary/read_context to inspect results, assign_task for more work, or stop to remove them.'')
      else if status = ''failed'' then
        (if has_report then ''Use summary/read_context for full context, retry with guidance, or stop to remove them.''
         else ''Use summary/read_context to inspect results, assign_task to retry with guidance, or stop to remove them.'')
      else if status = ''stopped'' then
        ''Use summary/read_context to inspect results or stop to remove them.''
      else if has_report then
        ''Use assign_task to give them new work, stop to remove them, or summary/read_context for full context.''
      else ''Use assign_task to give them new work, or stop to remove them.'')"

definition completion_notification_message :: "string \<Rightarrow> string \<Rightarrow> string option \<Rightarrow> string" where
  "completion_notification_message name status report =
     (let intro = completion_status_intro name status;
          followup = completion_followup status (report \<noteq> None)
      in case report of
           Some r \<Rightarrow> intro @ nl @ nl @ ''Report:'' @ nl @ r @ nl @ nl @ followup
         | None \<Rightarrow> intro @ nl @ nl @ ''No final textual report was produced. '' @ followup)"

definition truncate_detail :: "string \<Rightarrow> nat \<Rightarrow> string" where
  "truncate_detail text max_len =
     (let collapsed = join '' '' (split_whitespace text);
          trimmed = trim collapsed;
          max_len = max max_len 1
      in if chars_count trimmed \<le> max_len then trimmed
         else if max_len \<le> 3 then take_chars max_len trimmed
         else take_chars (max_len - 3) trimmed @ ''...'')"

definition summarize_plan_items :: "plan_item list \<Rightarrow> nat \<Rightarrow> string" where
  "summarize_plan_items items max_items =
     (if items = [] then ''no items''
      else
        let parts = map pi_content (take (max max_items 1) items);
            summary = join ''; '' parts
        in if length items > max max_items 1
           then summary @ '' (+'' @ show_nat (length items - max max_items 1) @ '' more)''
           else summary)"

subsection \<open>Specification of the channel index\<close>

text \<open>The list stored under two nested keys; a missing entry counts as empty.\<close>

definition look :: "sub_map \<Rightarrow> string \<Rightarrow> string \<Rightarrow> string list" where
  "look m a b = hget_or [] (hget_or [] m a) b"

definition inner_wf :: "(string, string list) hmap \<Rightarrow> bool" where
  "inner_wf subs \<longleftrightarrow> distinct (map fst subs) \<and> (\<forall>e\<in>set subs. snd e \<noteq> [] \<and> distinct (snd e))"

definition sub_map_wf :: "sub_map \<Rightarrow> bool" where
  "sub_map_wf m \<longleftrightarrow> distinct (map fst m) \<and> (\<forall>e\<in>set m. snd e \<noteq> [] \<and> inner_wf (snd e))"

text \<open>Both maps are well formed, hold no empty entry and store the same subscriptions.\<close>

definition channel_inv :: "channel_index \<Rightarrow> bool" where
  "channel_inv ix \<longleftrightarrow>
     sub_map_wf (by_swarm_channel ix) \<and> sub_map_wf (by_session ix) \<and>
     (\<forall>s w c. s \<in> set (look (by_swarm_channel ix) w c) \<longleftrightarrow> c \<in> set (look (by_session ix) s w))"

definition subscriptions :: "channel_index \<Rightarrow> (string \<times> string \<times> string) set" where
  "subscriptions ix = {(s, w, c). s \<in> set (look (by_swarm_channel ix) w c)}"

datatype channel_op = Subscribe string string string | Unsubscribe string string string | RemoveSession string

fun run_op :: "('i \<Rightarrow> string \<Rightarrow> string \<Rightarrow> string \<Rightarrow> 'i) \<Rightarrow> ('i \<Rightarrow> string \<Rightarrow> string \<Rightarrow> string \<Rightarrow> 'i) \<Rightarrow>
    ('i \<Rightarrow> string \<Rightarrow> 'i) \<Rightarrow> 'i \<Rightarrow> channel_op \<Rightarrow> 'i" where
  "run_op sub unsub rem i (Subscribe s w c) = sub i s w c"
| "run_op sub unsub rem i (Unsubscribe s w c) = unsub i s w c"
| "run_op sub unsub rem i (RemoveSession s) = rem i s"

fun spec_op :: "(string \<times> string \<times> string) set \<Rightarrow> channel_op \<Rightarrow> (string \<times> string \<times> string) set" where
  "spec_op S (Subscribe s w c) = insert (s, w, c) S"
| "spec_op S (Unsubscribe s w c) = S - {(s, w, c)}"
| "spec_op S (RemoveSession s) = {(s', w, c) \<in> S. s' \<noteq> s}"

section \<open>The contract of a subscription registry\<close>

locale subscription_registry =
  fixes empty :: 'i
    and sub unsub :: "'i \<Rightarrow> string \<Rightarrow> string \<Rightarrow> string \<Rightarrow> 'i"
    and rem :: "'i \<Rightarrow> string \<Rightarrow> 'i"
    and members_of channels_of :: "'i \<Rightarrow> string \<Rightarrow> string \<Rightarrow> string list"
    and inv :: "'i \<Rightarrow> bool"
    and subs :: "'i \<Rightarrow> (string \<times> string \<times> string) set"
  assumes inv_empty: "inv empty" and subs_empty: "subs empty = {}"
    and inv_sub: "inv i \<Longrightarrow> inv (sub i s w c)"
    and subs_sub: "inv i \<Longrightarrow> subs (sub i s w c) = insert (s, w, c) (subs i)"
    and inv_unsub: "inv i \<Longrightarrow> inv (unsub i s w c)"
    and subs_unsub: "inv i \<Longrightarrow> subs (unsub i s w c) = subs i - {(s, w, c)}"
    and inv_rem: "inv i \<Longrightarrow> inv (rem i s)"
    and subs_rem: "inv i \<Longrightarrow> subs (rem i s) = {(s', w, c) \<in> subs i. s' \<noteq> s}"
    and members_sorted: "inv i \<Longrightarrow> sorted_wrt (<) (members_of i w c)"
    and members_set: "inv i \<Longrightarrow> set (members_of i w c) = {s. (s, w, c) \<in> subs i}"
    and channels_sorted: "inv i \<Longrightarrow> sorted_wrt (<) (channels_of i s w)"
    and channels_set: "inv i \<Longrightarrow> set (channels_of i s w) = {c. (s, w, c) \<in> subs i}"
begin

definition run :: "channel_op list \<Rightarrow> 'i" where
  "run ops = foldl (run_op sub unsub rem) empty ops"

lemma op_refines:
  assumes "inv i"
  shows "inv (run_op sub unsub rem i p) \<and> subs (run_op sub unsub rem i p) = spec_op (subs i) p"
  using assms by (cases p) (simp_all add: inv_sub inv_unsub inv_rem subs_sub subs_unsub subs_rem)

lemma run_refines: "inv (run ops) \<and> subs (run ops) = foldl spec_op {} ops"
proof (induction ops rule: rev_induct)
  case Nil
  then show ?case by (simp add: run_def inv_empty subs_empty)
next
  case (snoc p ops)
  then show ?case using op_refines [of "run ops" p] by (simp add: run_def)
qed

lemma members_run: "set (members_of (run ops) w c) = {s. (s, w, c) \<in> foldl spec_op {} ops}"
  using run_refines [of ops] members_set by simp

lemma channels_run: "set (channels_of (run ops) s w) = {c. (s, w, c) \<in> foldl spec_op {} ops}"
  using run_refines [of ops] channels_set by simp

text \<open>Membership seen from a channel and from a session agree, and a removed session is gone.\<close>

lemma views_agree: "s \<in> set (members_of (run ops) w c) \<longleftrightarrow> c \<in> set (channels_of (run ops) s w)"
  by (simp add: members_run channels_run)

lemma removed_gone: "channels_of (run (ops @ [RemoveSession s])) s w = []"
  using channels_run [of "ops @ [RemoveSession s]" s w] by simp

lemma members_strict: "sorted_wrt (<) (members_of (run ops) w c)"
  using run_refines members_sorted by blast

end

section \<open>The channel index fulfils the contract\<close>

lemma set_hput: "set (hput k v m) \<subseteq> insert (k, v) (set m)"
  by (induction m) auto

lemma set_hdel: "set (hdel k m) \<subseteq> set m"
  by (induction m) auto

lemma hget_in: "hget m k = Some v \<Longrightarrow> (k, v) \<in> set m"
  by (rule map_of_SomeD)

lemma inner_wf_Nil [simp]: "inner_wf []"
  by (simp add: inner_wf_def)

lemma inner_wf_hput: "inner_wf s \<Longrightarrow> t \<noteq> [] \<Longrightarrow> distinct t \<Longrightarrow> inner_wf (hput k t s)"
  using set_hput [of k t s] by (fastforce simp: inner_wf_def distinct_update)

lemma inner_wf_hdel: "inner_wf s \<Longrightarrow> inner_wf (hdel k s)"
  using set_hdel [of k s] by (auto simp: inner_wf_def distinct_delete)

lemma inner_wf_get: "inner_wf s \<Longrightarrow> distinct (hget_or [] s k)"
  by (auto simp: inner_wf_def hget_or_def split: option.split dest: hget_in)

lemma sub_map_wf_hput: "sub_map_wf m \<Longrightarrow> s \<noteq> [] \<Longrightarrow> inner_wf s \<Longrightarrow> sub_map_wf (hput k s m)"
  using set_hput [of k s m] by (fastforce simp: sub_map_wf_def distinct_update)

lemma sub_map_wf_hdel: "sub_map_wf m \<Longrightarrow> sub_map_wf (hdel k m)"
  using set_hdel [of k m] by (auto simp: sub_map_wf_def distinct_delete)

lemma sub_map_wf_get: "sub_map_wf m \<Longrightarrow> inner_wf (hget_or [] m k)"
  by (auto simp: sub_map_wf_def hget_or_def split: option.split dest: hget_in)

lemma sub_map_wf_distinct: "sub_map_wf m \<Longrightarrow> distinct (look m a b)"
  by (simp add: look_def inner_wf_get sub_map_wf_get)

lemma hput_nonempty [simp]: "hput k v m \<noteq> []"
  by (cases m) auto

lemma sub_map_wf_hentry: "sub_map_wf m \<Longrightarrow> sub_map_wf (hentry [] a (hentry [] b (List.insert x)) m)"
  unfolding hentry_def
  by (intro sub_map_wf_hput inner_wf_hput) (auto simp: sub_map_wf_get inner_wf_get List.insert_def)

lemma sub_map_wf_update_outer:
  assumes "sub_map_wf m" and "\<And>s. inner_wf s \<Longrightarrow> inner_wf (f s)"
  shows "sub_map_wf (update_outer k f m)"
proof (cases "hget m k")
  case (Some s)
  with assms(1) have "inner_wf s" using sub_map_wf_get [of m k] by (simp add: hget_or_def)
  with Some assms show ?thesis
    by (simp add: update_outer_def Let_def sub_map_wf_hdel sub_map_wf_hput)
qed (simp add: update_outer_def assms)

lemma inner_wf_drop_member: "inner_wf s \<Longrightarrow> inner_wf (drop_member x k s)"
  using inner_wf_get [of s k]
  by (auto simp: drop_member_def Let_def hget_or_def inner_wf_hdel distinct_removeAll
      intro!: inner_wf_hput split: option.split)

lemma inner_wf_fold_drop: "inner_wf s \<Longrightarrow> inner_wf (fold (drop_member x) ks s)"
  by (induction ks arbitrary: s) (auto simp: inner_wf_drop_member)

lemma look_subscribe:
  "look (hentry [] a (hentry [] b f) m) a' b' = (if a' = a \<and> b' = b then f (look m a b) else look m a' b')"
  by (simp add: look_def hmap_simps)

lemma hget_or_drop_member:
  "hget_or [] (drop_member x k s) b = (if b = k then removeAll x (hget_or [] s k) else hget_or [] s b)"
  by (auto simp: drop_member_def hget_or_def hmap_simps Let_def split: option.split)

lemma hget_or_fold_drop:
  "hget_or [] (fold (drop_member x) ks s) b =
     (if b \<in> set ks then removeAll x (hget_or [] s b) else hget_or [] s b)"
  by (induction ks arbitrary: s) (auto simp: hget_or_drop_member)

lemma hget_or_update_outer:
  "f [] = [] \<Longrightarrow> hget_or [] (update_outer k f m) k' = (if k' = k then f (hget_or [] m k) else hget_or [] m k')"
  by (auto simp: update_outer_def hget_or_def hmap_simps Let_def split: option.split)

lemma drop_member_Nil [simp]: "drop_member x k [] = []"
  by (simp add: drop_member_def)

lemma fold_drop_Nil [simp]: "fold (drop_member x) ks [] = []"
  by (induction ks) auto

lemma look_unsubscribe:
  "look (update_outer a (drop_member x b) m) a' b' =
     (if a' = a \<and> b' = b then removeAll x (look m a b) else look m a' b')"
  by (simp add: look_def hget_or_update_outer hget_or_drop_member)

lemma look_remove_from_swarm:
  "look (remove_from_swarm x a bs m) a' b' =
     (if a' = a \<and> b' \<in> set bs then removeAll x (look m a' b') else look m a' b')"
  by (simp add: look_def remove_from_swarm_def hget_or_update_outer hget_or_fold_drop)

lemma look_fold_remove:
  "look (fold (\<lambda>(a, bs). remove_from_swarm x a bs) subs m) a' b' =
     (if \<exists>bs. (a', bs) \<in> set subs \<and> b' \<in> set bs then removeAll x (look m a' b') else look m a' b')"
  by (induction subs arbitrary: m) (auto simp: look_remove_from_swarm)

lemma look_not_key: "b \<notin> fst ` set (hget_or [] m a) \<Longrightarrow> look m a b = []"
  by (simp add: look_def hget_or_def [of _ "hget_or [] m a"] map_of_eq_None_iff [THEN iffD2])

lemma look_remove_keys:
  "look (remove_from_swarm x a (map fst (hget_or [] m a)) m) a' b' =
     (if a' = a then removeAll x (look m a' b') else look m a' b')"
  using look_not_key [of b' m a] by (auto simp: look_remove_from_swarm)

lemma look_fold_remove_keys:
  "look (fold (\<lambda>a m. remove_from_swarm x a (map fst (hget_or [] m a)) m) as m) a' b' =
     (if a' \<in> set as then removeAll x (look m a' b') else look m a' b')"
  by (induction as arbitrary: m) (auto simp: look_remove_keys)

lemma sub_map_wf_remove_from_swarm: "sub_map_wf m \<Longrightarrow> sub_map_wf (remove_from_swarm x a bs m)"
  by (simp add: remove_from_swarm_def sub_map_wf_update_outer inner_wf_fold_drop)

lemma sub_map_wf_fold_remove:
  "sub_map_wf m \<Longrightarrow> sub_map_wf (fold (\<lambda>(a, bs). remove_from_swarm x a bs) subs m)"
  by (induction subs arbitrary: m) (auto simp: sub_map_wf_remove_from_swarm)

lemma sub_map_wf_fold_remove_keys:
  "sub_map_wf m \<Longrightarrow>
     sub_map_wf (fold (\<lambda>a m. remove_from_swarm x a (map fst (hget_or [] m a)) m) as m)"
  by (induction as arbitrary: m) (auto simp: sub_map_wf_remove_from_swarm)

lemma look_outer_key: "look m a b \<noteq> [] \<Longrightarrow> a \<in> fst ` set m"
  by (cases "hget m a") (auto simp: look_def hget_or_def dest: map_of_SomeD intro: rev_image_eqI)

lemma look_entry:
  assumes "sub_map_wf m" and "hget m a = Some s"
  shows "(\<exists>bs. (b, bs) \<in> set s \<and> x \<in> set bs) \<longleftrightarrow> x \<in> set (look m a b)"
proof -
  have "distinct (map fst s)"
    using sub_map_wf_get [OF assms(1), of a] assms(2) by (simp add: inner_wf_def hget_or_def)
  then show ?thesis using assms(2)
    by (auto simp: look_def hget_or_def dest: map_of_SomeD split: option.splits)
qed

text \<open>Removing a session, on both branches, removes it from every list of members.\<close>

lemma remove_session_look:
  assumes "channel_inv ix"
  shows "set (look (by_swarm_channel (remove_session ix s)) w c) = set (look (by_swarm_channel ix) w c) - {s}"
proof (cases "hget (by_session ix) s")
  case None
  then show ?thesis
    using look_outer_key [of "by_swarm_channel ix" w c]
    by (cases "look (by_swarm_channel ix) w c = []")
      (auto simp: remove_session_def look_fold_remove_keys)
next
  case (Some subs)
  with assms have "(\<exists>bs. (w, bs) \<in> set subs \<and> c \<in> set bs) \<longleftrightarrow> s \<in> set (look (by_swarm_channel ix) w c)"
    by (simp add: channel_inv_def look_entry)
  with Some show ?thesis by (auto simp: remove_session_def look_fold_remove)
qed

lemma remove_session_by_session:
  assumes "channel_inv ix"
  shows "look (by_session (remove_session ix s)) s' w = (if s' = s then [] else look (by_session ix) s' w)"
  by (auto simp: remove_session_def look_def hmap_simps hget_or_def split: option.split)

lemma channel_inv_default: "channel_inv ChannelIndex_default"
  by (simp add: channel_inv_def ChannelIndex_default_def sub_map_wf_def look_def hget_or_def)

lemma channel_inv_subscribe: "channel_inv ix \<Longrightarrow> channel_inv (subscribe ix s w c)"
  by (auto simp: channel_inv_def subscribe_def sub_map_wf_hentry look_subscribe)

lemma channel_inv_unsubscribe: "channel_inv ix \<Longrightarrow> channel_inv (unsubscribe ix s w c)"
  by (auto simp: channel_inv_def unsubscribe_def sub_map_wf_update_outer inner_wf_drop_member
      look_unsubscribe)

lemma channel_inv_remove_session:
  assumes "channel_inv ix"
  shows "channel_inv (remove_session ix s)"
proof -
  have "sub_map_wf (by_swarm_channel (remove_session ix s)) \<and> sub_map_wf (by_session (remove_session ix s))"
    using assms
    by (auto simp: channel_inv_def remove_session_def sub_map_wf_fold_remove
        sub_map_wf_fold_remove_keys sub_map_wf_hdel split: option.split)
  then show ?thesis
    using assms unfolding channel_inv_def
    by (auto simp: remove_session_look remove_session_by_session assms split: if_splits)
qed

lemma channel_inv_maps:
  "channel_inv ix \<Longrightarrow> sub_map_wf (by_swarm_channel ix)"
  "channel_inv ix \<Longrightarrow> sub_map_wf (by_session ix)"
  by (simp_all add: channel_inv_def)

lemma members_look: "members ix w c = sort (look (by_swarm_channel ix) w c)"
  by (simp add: members_def look_def hget_or_def split: option.split)

lemma channels_look: "channels_for_session ix s w = sort (look (by_session ix) s w)"
  by (simp add: channels_for_session_def look_def hget_or_def split: option.split)

lemma subscriptions_subscribe: "subscriptions (subscribe ix s w c) = insert (s, w, c) (subscriptions ix)"
  by (auto simp: subscriptions_def subscribe_def look_subscribe split: if_splits)

lemma subscriptions_unsubscribe: "subscriptions (unsubscribe ix s w c) = subscriptions ix - {(s, w, c)}"
  by (auto simp: subscriptions_def unsubscribe_def look_unsubscribe split: if_splits)

lemma set_members: "set (look (by_swarm_channel ix) w c) = {s. (s, w, c) \<in> subscriptions ix}"
  by (simp add: subscriptions_def)

lemma sort_strict: "distinct xs \<Longrightarrow> sorted_wrt (<) (sort xs)"
  by (simp add: strict_sorted_iff)

interpretation ci: subscription_registry ChannelIndex_default subscribe unsubscribe remove_session
  members channels_for_session channel_inv subscriptions
proof unfold_locales
  show "channel_inv ChannelIndex_default" by (rule channel_inv_default)
  show "subscriptions ChannelIndex_default = {}"
    by (simp add: subscriptions_def ChannelIndex_default_def look_def hget_or_def)
  show "channel_inv i \<Longrightarrow> subscriptions (remove_session i s) = {(s', w, c) \<in> subscriptions i. s' \<noteq> s}"
    for i s by (auto simp: subscriptions_def remove_session_look)
  show "channel_inv i \<Longrightarrow> set (channels_for_session i s w) = {c. (s, w, c) \<in> subscriptions i}"
    for i s w by (auto simp: channels_look subscriptions_def channel_inv_def)
qed (auto simp: channel_inv_subscribe channel_inv_unsubscribe channel_inv_remove_session
    subscriptions_subscribe subscriptions_unsubscribe set_members members_look channels_look
    sort_strict sub_map_wf_distinct channel_inv_maps)

section \<open>Reports and details\<close>

lemma marker_in_instructions:
  "str_contains SWARM_COMPLETION_REPORT_MARKER (append_swarm_completion_report_instructions m)"
proof -
  have "sublist SWARM_COMPLETION_REPORT_MARKER (a @ b @ SWARM_COMPLETION_REPORT_MARKER @ c)" for a b c
    by (metis append_assoc sublist_appendI)
  then show ?thesis
    unfolding append_swarm_completion_report_instructions_def Let_def
    by (cases "str_contains SWARM_COMPLETION_REPORT_MARKER m")
      (simp_all only: if_True if_False str_contains_iff not_False_eq_True)
qed

lemma truncation_suffix_count: "chars_count truncation_suffix = 46" and
  truncation_suffix_hd: "\<not> utf8_cont (hd truncation_suffix)"
  by code_simp+

lemma ellipsis_facts: "chars_count ''...'' = 3" "\<not> utf8_cont (hd ''...'')"
  by code_simp+

lemma utf8_chars_ellipsis: "utf8_chars ''...'' = [''.'', ''.'', ''.'']"
  by code_simp

lemma dot_not_whitespace: "\<not> is_whitespace ''.''"
  by code_simp

lemma chars_count_take_append:
  assumes "\<not> utf8_cont (hd t)"
  shows "chars_count (take_chars n s @ t) = min n (chars_count s) + chars_count t"
  using chars_count_append [of t "take_chars n s"] assms by (simp add: chars_count_take_chars)

subsection \<open>Collapsed white space\<close>

definition collapsed :: "string \<Rightarrow> string" where
  "collapsed text = join '' '' (split_whitespace text)"

lemma utf8_chars_collapsed:
  "utf8_chars (collapsed t) = join ['' ''] (split_runs is_whitespace (utf8_chars t))"
proof -
  have "collapsed t = concat (join ['' ''] (split_runs is_whitespace (utf8_chars t)))"
    by (simp add: collapsed_def split_whitespace_def concat_join)
  moreover have "utf8_wf (join ['' ''] (split_runs is_whitespace (utf8_chars t)))"
    using split_runs_nonempty
    by (intro utf8_wf_join) (auto simp: concat_split_runs utf8_wf_filter)
  ultimately show ?thesis by (simp add: utf8_chars_concat)
qed

lemma trim_collapsed: "trim (collapsed t) = collapsed t"
proof -
  let ?rs = "split_runs is_whitespace (utf8_chars t)"
  have all: "\<forall>r\<in>set ?rs. r \<noteq> [] \<and> (\<forall>c\<in>set r. \<not> is_whitespace c)"
  proof
    fix r assume r: "r \<in> set ?rs"
    then have "set r \<subseteq> set (concat ?rs)" by auto
    with r show "r \<noteq> [] \<and> (\<forall>c\<in>set r. \<not> is_whitespace c)"
      by (auto simp: concat_split_runs split_runs_nonempty)
  qed
  have "utf8_chars (trim (collapsed t)) = utf8_chars (collapsed t)"
  proof (cases "?rs = []")
    case False
    let ?cs = "join ['' ''] ?rs"
    have ends: "?cs \<noteq> []" "\<not> is_whitespace (hd ?cs)" "\<not> is_whitespace (last ?cs)"
      using join_ends [OF all False] by auto
    then have "dropWhile is_whitespace ?cs = ?cs" "dropWhile is_whitespace (rev ?cs) = rev ?cs"
      by (auto simp: takeWhile_dropWhile_hd hd_rev)
    then show ?thesis by (simp add: utf8_chars_trim utf8_chars_collapsed)
  qed (simp add: utf8_chars_trim utf8_chars_collapsed)
  then show ?thesis by (simp add: utf8_chars_inject)
qed

lemma collapsed_whitespace: "c \<in> set (utf8_chars (collapsed t)) \<Longrightarrow> is_whitespace c \<Longrightarrow> c = '' ''"
  using set_join [of "['' '']" "split_runs is_whitespace (utf8_chars t)"]
  by (auto simp: utf8_chars_collapsed concat_split_runs)

lemma truncate_detail_collapsed:
  "truncate_detail t n =
     (if chars_count (collapsed t) \<le> max n 1 then collapsed t
      else if max n 1 \<le> 3 then take_chars (max n 1) (collapsed t)
      else take_chars (max n 1 - 3) (collapsed t) @ ''...'')"
  using trim_collapsed [of t] by (simp add: truncate_detail_def Let_def collapsed_def)

subsection \<open>Names\<close>

lemma status_as_str_from: "SwarmLifecycleStatus_as_str (SwarmLifecycleStatus_from v) = v"
  by (simp add: SwarmLifecycleStatus_from_def)

lemma status_round_trip:
  "SwarmLifecycleStatus_from (SwarmLifecycleStatus_as_str st) = st \<longleftrightarrow>
     (\<forall>x. st = OtherStatus x \<longrightarrow> SwarmLifecycleStatus_from x = OtherStatus x)"
  by (cases st) (simp_all add: SwarmLifecycleStatus_from_def)

lemma role_round_trip:
  "SwarmRole_from (SwarmRole_as_str r) = r \<longleftrightarrow>
     (\<forall>x. r = OtherRole x \<longrightarrow> x \<notin> {''agent'', ''coordinator'', ''worktree_manager''})"
  by (cases r) (simp_all add: SwarmRole_from_def)

section \<open>Properties\<close>

text \<open>
  C22: After any sequence of subscriptions, unsubscriptions and session removals from the empty
  index, both maps are in step without empty entries, the index holds exactly the subscriptions
  the sequence leaves, and the two queries return them sorted.
\<close>

theorem channel_index_refines_subscriptions:
  "let ix = foldl (run_op subscribe unsubscribe remove_session) ChannelIndex_default ops;
       S = foldl spec_op {} ops
   in channel_inv ix \<and> subscriptions ix = S \<and>
      members ix w c = sorted_list_of_set {s. (s, w, c) \<in> S} \<and>
      channels_for_session ix s w = sorted_list_of_set {c. (s, w, c) \<in> S}"
proof -
  let ?ix = "ci.run ops"
  have inv: "channel_inv ?ix" using ci.run_refines by blast
  have "members ?ix w c = sorted_list_of_set (set (members ?ix w c))"
    by (metis ci.members_strict sorted_list_of_set.idem_if_sorted_distinct strict_sorted_iff)
  moreover have "channels_for_session ?ix s w = sorted_list_of_set (set (channels_for_session ?ix s w))"
    by (metis ci.channels_sorted inv sorted_list_of_set.idem_if_sorted_distinct strict_sorted_iff)
  ultimately show ?thesis
    using ci.run_refines [of ops] by (simp add: Let_def ci.members_run ci.channels_run flip: ci.run_def)
qed

text \<open>
  The completion-report instructions always end up in the prompt and are added once: a second
  call leaves the text unchanged.
\<close>

theorem append_instructions_idempotent:
  "str_contains SWARM_COMPLETION_REPORT_MARKER (append_swarm_completion_report_instructions m) \<and>
   append_swarm_completion_report_instructions (append_swarm_completion_report_instructions m) =
     append_swarm_completion_report_instructions m"
  using marker_in_instructions [of m]
  by (subst (2) append_swarm_completion_report_instructions_def) simp

text \<open>
  A normalized completion report is absent exactly for a missing or blank report; it never
  exceeds 4000 characters, a report that fits is only trimmed, and a longer one is cut to exactly
  4000 characters, a prefix of the report followed by the truncation notice.
\<close>

theorem normalize_completion_report_bounded:
  "(normalize_completion_report None = None) \<and>
   (case normalize_completion_report (Some r) of
      None \<Rightarrow> list_all is_whitespace (utf8_chars r)
    | Some out \<Rightarrow>
        \<not> list_all is_whitespace (utf8_chars r) \<and> chars_count out \<le> 4000 \<and>
        (if chars_count (trim r) \<le> 4000 then out = trim r
         else chars_count out = 4000 \<and>
              (\<exists>kept. prefix kept (trim r) \<and> chars_count kept = 3954 \<and> out = kept @ truncation_suffix)))"
proof -
  have "chars_count (take_chars 3954 (trim r) @ truncation_suffix) = 4000"
    if "4000 < chars_count (trim r)"
    using that by (simp add: chars_count_take_append truncation_suffix_hd truncation_suffix_count)
  moreover have "chars_count (take_chars 3954 (trim r)) = 3954" if "4000 < chars_count (trim r)"
    using that by (simp add: chars_count_take_chars)
  ultimately show ?thesis
    by (auto simp: normalize_completion_report_def Let_def MAX_SWARM_COMPLETION_REPORT_CHARS_def
        truncation_suffix_count prefix_take_chars simp flip: trim_empty_iff)
qed

text \<open>
  A truncated detail holds at most \<^verbatim>\<open>max(max_len, 1)\<close> characters and no white space but blanks;
  text that fits after collapsing is returned whole, and a cut one keeps a prefix.
\<close>

theorem truncate_detail_bounded:
  "chars_count (truncate_detail t n) \<le> max n 1 \<and>
   (\<forall>c. c \<in> set (utf8_chars (truncate_detail t n)) \<and> is_whitespace c \<longrightarrow> c = '' '') \<and>
   (if chars_count (join '' '' (split_whitespace t)) \<le> max n 1
    then truncate_detail t n = join '' '' (split_whitespace t)
    else \<exists>kept. prefix kept (join '' '' (split_whitespace t)) \<and>
      truncate_detail t n = kept @ (if max n 1 \<le> 3 then [] else ''...''))"
proof -
  have dots: "utf8_chars (x @ ''...'') = utf8_chars x @ [''.'', ''.'', ''.'']" for x
    using utf8_chars_append [of "''...''" x] ellipsis_facts(2) by (simp add: utf8_chars_ellipsis)
  have "\<forall>c. c \<in> set (utf8_chars (truncate_detail t n)) \<and> is_whitespace c \<longrightarrow> c = '' ''"
    using collapsed_whitespace [of _ t]
    by (auto simp: truncate_detail_collapsed dots utf8_chars_take_chars dot_not_whitespace
        dest: in_set_takeD split: if_splits)
  moreover have "chars_count (truncate_detail t n) \<le> max n 1"
    using chars_count_take_append [OF ellipsis_facts(2), of "n - 3" "collapsed t"]
    by (auto simp: truncate_detail_collapsed chars_count_take_chars ellipsis_facts)
  ultimately show ?thesis unfolding collapsed_def [symmetric]
    by (auto simp: truncate_detail_collapsed prefix_take_chars)
qed

theorem truncate_detail_bounded_witness:
  "chars_count (truncate_detail ''hello   there world'' 11) \<le> 11"
  using truncate_detail_bounded [of "''hello   there world''" 11] by simp

text \<open>
  A role or status read from its written form is unchanged in writing, and every value but an
  \<^verbatim>\<open>Other\<close> that spells a known name survives writing and reading.
\<close>

theorem swarm_names_round_trip:
  "SwarmRole_as_str (SwarmRole_from v) = v \<and>
   SwarmLifecycleStatus_as_str (SwarmLifecycleStatus_from v) = v \<and>
   (SwarmRole_from (SwarmRole_as_str r) = r \<longleftrightarrow>
      (\<forall>x. r = OtherRole x \<longrightarrow> x \<notin> {''agent'', ''coordinator'', ''worktree_manager''})) \<and>
   (SwarmLifecycleStatus_from (SwarmLifecycleStatus_as_str st) = st \<longleftrightarrow>
      (\<forall>x. st = OtherStatus x \<longrightarrow> SwarmLifecycleStatus_from x = OtherStatus x))"
  using role_round_trip [of r] status_round_trip [of st] status_as_str_from [of v]
  by (simp add: SwarmRole_from_def)

theorem swarm_names_round_trip_witness:
  "SwarmRole_from (SwarmRole_as_str (OtherRole ''reviewer'')) = OtherRole ''reviewer''"
  using swarm_names_round_trip [of _ "OtherRole ''reviewer''" Done] by blast

end
