(* ===== verification/Messages.thy ===== *)
theory Messages
  imports Rust_Prelude
begin

text \<open>
  Model of \<^verbatim>\<open>crates/gcode-message-types/src/lib.rs\<close>: the messages of a conversation, their content
  blocks, timestamp injection, the placement of dynamic system context, tool-call validation and
  the stable hash of messages.

  Code of other packages enters as arguments: \<^verbatim>\<open>now\<close> is \<^verbatim>\<open>chrono::Utc::now()\<close>, \<^verbatim>\<open>fmt_ts\<close> is the
  RFC 3339 rendering of an instant, \<^verbatim>\<open>sub_ms\<close> is \<^verbatim>\<open>checked_sub_signed\<close> of milliseconds, and
  \<^verbatim>\<open>json_str\<close> is the rendering of a JSON value. An instant is an integer, nanoseconds since the
  epoch; the functions only store it and hand it to these arguments. A JSON value has the six
  variants that \<^verbatim>\<open>json_value_kind\<close> lists; a number is its text.
\<close>

unbundle bit_operations_syntax

section \<open>Definitions\<close>

subsection \<open>JSON values and tools\<close>

datatype json =
    JNull | JBool bool | JNumber string | JString string
  | JArray "json list" | JObject "(string \<times> json) list"

record tool_call =
  tc_id :: string
  tc_name :: string
  tc_input :: json
  tc_intent :: "string option"

record tool_definition =
  td_name :: string
  td_description :: string
  td_input_schema :: json

definition estimate_tokens :: "string \<Rightarrow> nat" where
  "estimate_tokens s = length s div 4"

definition tool_definition_json :: "tool_definition \<Rightarrow> json" where
  "tool_definition_json self =
     JObject [(''name'', JString (td_name self)), (''description'', JString (td_description self)),
              (''input_schema'', td_input_schema self)]"

definition prompt_chars :: "(json \<Rightarrow> string) \<Rightarrow> tool_definition \<Rightarrow> nat" where
  "prompt_chars json_str self = length (json_str (tool_definition_json self))"

definition description_token_estimate :: "tool_definition \<Rightarrow> nat" where
  "description_token_estimate self = estimate_tokens (td_description self)"

definition prompt_token_estimate :: "(json \<Rightarrow> string) \<Rightarrow> tool_definition \<Rightarrow> nat" where
  "prompt_token_estimate json_str self = estimate_tokens (json_str (tool_definition_json self))"

definition aggregate_prompt_chars :: "(json \<Rightarrow> string) \<Rightarrow> tool_definition list \<Rightarrow> nat" where
  "aggregate_prompt_chars json_str defs = sum_list (map (prompt_chars json_str) defs)"

definition aggregate_prompt_token_estimate :: "(json \<Rightarrow> string) \<Rightarrow> tool_definition list \<Rightarrow> nat" where
  "aggregate_prompt_token_estimate json_str defs = sum_list (map (prompt_token_estimate json_str) defs)"

subsection \<open>Messages\<close>

datatype msg_role = User | Assistant

type_synonym datetime = int

record cache_control =
  cc_kind :: string
  cc_ttl :: "string option"

definition CacheControl_ephemeral :: "string option \<Rightarrow> cache_control" where
  "CacheControl_ephemeral ttl = \<lparr>cc_kind = ''ephemeral'', cc_ttl = ttl\<rparr>"

datatype content_block =
    Text string "cache_control option"
  | Reasoning string
  | ToolUse string string json
  | ToolResult string string "bool option"
  | Image string string
  | OpenAICompaction string

record message =
  msg_role :: msg_role
  msg_content :: "content_block list"
  msg_timestamp :: "datetime option"
  msg_tool_duration_ms :: "u64 option"

definition Message_user :: "datetime \<Rightarrow> string \<Rightarrow> message" where
  "Message_user now text =
     \<lparr>msg_role = User, msg_content = [Text text None], msg_timestamp = Some now,
      msg_tool_duration_ms = None\<rparr>"

definition user_with_images :: "datetime \<Rightarrow> string \<Rightarrow> (string \<times> string) list \<Rightarrow> message" where
  "user_with_images now text images =
     \<lparr>msg_role = User,
      msg_content = map (\<lambda>(media_type, data). Image media_type data) images @ [Text text None],
      msg_timestamp = Some now, msg_tool_duration_ms = None\<rparr>"

definition assistant_text :: "datetime \<Rightarrow> string \<Rightarrow> message" where
  "assistant_text now text =
     \<lparr>msg_role = Assistant, msg_content = [Text text None], msg_timestamp = Some now,
      msg_tool_duration_ms = None\<rparr>"

definition tool_result_with_duration ::
  "datetime \<Rightarrow> string \<Rightarrow> string \<Rightarrow> bool \<Rightarrow> u64 option \<Rightarrow> message" where
  "tool_result_with_duration now tool_use_id content is_error duration =
     \<lparr>msg_role = User,
      msg_content = [ToolResult tool_use_id content (if is_error then Some True else None)],
      msg_timestamp = Some now, msg_tool_duration_ms = duration\<rparr>"

definition tool_result :: "datetime \<Rightarrow> string \<Rightarrow> string \<Rightarrow> bool \<Rightarrow> message" where
  "tool_result now tool_use_id content is_error =
     tool_result_with_duration now tool_use_id content is_error None"

subsection \<open>Timestamps\<close>

text \<open>Division rounded to the nearest integer, ties to even.\<close>

definition div_half_even :: "nat \<Rightarrow> nat \<Rightarrow> nat" where
  "div_half_even a b =
     (let q = a div b; r = a mod b
      in if 2 * r < b \<or> (2 * r = b \<and> even q) then q else q + 1)"

text \<open>
  \<^verbatim>\<open>format!("{:.1}", ms as f64 / 1000.0)\<close> for \<^verbatim>\<open>1000 <= ms < 10000\<close>: the quotient is rounded to a
  double with 53 significant bits, whose exact value is then rounded to tenths.
\<close>

definition seconds_one_decimal :: "nat \<Rightarrow> string" where
  "seconds_one_decimal ms =
     (let e = (if ms < 2000 then 52 else if ms < 4000 then 51 else if ms < 8000 then 50 else 49);
          mantissa = div_half_even (ms * 2 ^ e) 1000;
          tenths = div_half_even (mantissa * 10) (2 ^ e)
      in show_nat (tenths div 10) @ ''.'' @ show_nat (tenths mod 10))"

definition format_duration :: "u64 \<Rightarrow> string" where
  "format_duration duration_ms =
     (let d = unat duration_ms in
      if d \<le> 999 then show_nat d @ ''ms''
      else if d \<le> 9999 then seconds_one_decimal d @ ''s''
      else if d \<le> 59999 then show_nat (d div 1000) @ ''s''
      else
        let total_seconds = d div 1000;
            minutes = total_seconds div 60;
            seconds = total_seconds mod 60
        in if seconds = 0 then show_nat minutes @ ''m''
           else show_nat minutes @ ''m '' @ show_nat seconds @ ''s'')"

fun first_text :: "content_block list \<Rightarrow> string option" where
  "first_text [] = None"
| "first_text (Text text cc # bs) = Some (trim_start text)"
| "first_text (b # bs) = first_text bs"

definition is_internal_system_reminder :: "message \<Rightarrow> bool" where
  "is_internal_system_reminder self =
     (case first_text (msg_content self) of
        None \<Rightarrow> False
      | Some text \<Rightarrow> prefix ''<system-reminder>'' text)"

definition should_skip_timestamp_injection :: "message \<Rightarrow> bool" where
  "should_skip_timestamp_injection self = is_internal_system_reminder self"

definition tool_result_tag ::
  "(datetime \<Rightarrow> string) \<Rightarrow> (datetime \<Rightarrow> nat \<Rightarrow> datetime option) \<Rightarrow> message \<Rightarrow> datetime \<Rightarrow> string" where
  "tool_result_tag fmt_ts sub_ms self ts =
     (case msg_tool_duration_ms self of
        Some duration_ms \<Rightarrow>
          let duration_ms_i64 = (if unat duration_ms < 2 ^ 63 then unat duration_ms else 2 ^ 63 - 1);
              start_ts = (case sub_ms ts duration_ms_i64 of None \<Rightarrow> ts | Some t \<Rightarrow> t)
          in ''[tool timing: start='' @ fmt_ts start_ts @ '' finish='' @ fmt_ts ts @
             '' duration='' @ format_duration duration_ms @ '']''
      | None \<Rightarrow> ''['' @ fmt_ts ts @ '']'')"

fun tag_blocks :: "string \<Rightarrow> string \<Rightarrow> bool \<Rightarrow> content_block list \<Rightarrow> content_block list" where
  "tag_blocks text_tag result_tag tagged [] = []"
| "tag_blocks text_tag result_tag tagged (Text text cc # bs) =
     (if \<not> tagged then Text (text_tag @ '' '' @ text) cc # tag_blocks text_tag result_tag True bs
      else Text text cc # tag_blocks text_tag result_tag tagged bs)"
| "tag_blocks text_tag result_tag tagged (ToolResult i content err # bs) =
     (if \<not> tagged then ToolResult i (result_tag @ '' '' @ content) err # tag_blocks text_tag result_tag True bs
      else ToolResult i content err # tag_blocks text_tag result_tag tagged bs)"
| "tag_blocks text_tag result_tag tagged (b # bs) = b # tag_blocks text_tag result_tag tagged bs"

definition timestamped ::
  "(datetime \<Rightarrow> string) \<Rightarrow> (datetime \<Rightarrow> nat \<Rightarrow> datetime option) \<Rightarrow> message \<Rightarrow> message" where
  "timestamped fmt_ts sub_ms msg =
     (case msg_timestamp msg of
        None \<Rightarrow> msg
      | Some ts \<Rightarrow>
          if msg_role msg \<noteq> User \<or> should_skip_timestamp_injection msg then msg
          else msg\<lparr>msg_content :=
                 tag_blocks (''['' @ fmt_ts ts @ '']'') (tool_result_tag fmt_ts sub_ms msg ts) False
                   (msg_content msg)\<rparr>)"

definition with_timestamps ::
  "(datetime \<Rightarrow> string) \<Rightarrow> (datetime \<Rightarrow> nat \<Rightarrow> datetime option) \<Rightarrow> message list \<Rightarrow> message list" where
  "with_timestamps fmt_ts sub_ms messages = map (timestamped fmt_ts sub_ms) messages"

subsection \<open>Stable hashes\<close>

definition STABLE_HASH_SEED :: u64 where
  "STABLE_HASH_SEED = 0xcbf29ce484222325"

definition STABLE_HASH_PRIME :: u64 where
  "STABLE_HASH_PRIME = 0x100000001b3"

definition hash_byte :: "u64 \<Rightarrow> u8 \<Rightarrow> u64" where
  "hash_byte hash byte = (hash XOR ucast byte) * STABLE_HASH_PRIME"

definition stable_hash_bytes :: "u8 list \<Rightarrow> u64" where
  "stable_hash_bytes bytes = foldl hash_byte STABLE_HASH_SEED bytes"

definition to_le_bytes :: "u64 \<Rightarrow> u8 list" where
  "to_le_bytes w = map (\<lambda>i. ucast (drop_bit (8 * i) w)) [0..<8]"

definition extend_stable_hash :: "u64 \<Rightarrow> u64 \<Rightarrow> u64" where
  "extend_stable_hash acc next = stable_hash_bytes (to_le_bytes acc @ to_le_bytes next)"

text \<open>\<^verbatim>\<open>to_vec\<close> is the JSON encoder, \<^verbatim>\<open>debug_bytes\<close> the \<^verbatim>\<open>{:?}\<close> rendering used when it fails.\<close>

definition stable_message_hash ::
  "(message \<Rightarrow> u8 list option) \<Rightarrow> (message \<Rightarrow> u8 list) \<Rightarrow> message \<Rightarrow> u64" where
  "stable_message_hash to_vec debug_bytes message =
     (case to_vec message of
        Some bytes \<Rightarrow> stable_hash_bytes bytes
      | None \<Rightarrow> stable_hash_bytes (debug_bytes message))"

subsection \<open>Fresh user turns and dynamic context\<close>

definition is_tool_result :: "content_block \<Rightarrow> bool" where
  "is_tool_result b = (case b of ToolResult i c e \<Rightarrow> True | _ \<Rightarrow> False)"

definition is_user_text :: "string \<Rightarrow> bool" where
  "is_user_text text \<longleftrightarrow> (let trimmed = trim text in trimmed \<noteq> [] \<and> \<not> prefix ''<system-reminder>'' trimmed)"

text \<open>The block loops; \<^const>\<open>None\<close> is their early \<^verbatim>\<open>return false\<close>.\<close>

fun turn_blocks :: "bool \<Rightarrow> content_block list \<Rightarrow> bool option" where
  "turn_blocks saw [] = Some saw"
| "turn_blocks saw (Text text cc # bs) = turn_blocks (is_user_text text \<or> saw) bs"
| "turn_blocks saw (b # bs) = None"

fun fresh_blocks :: "bool \<Rightarrow> content_block list \<Rightarrow> bool option" where
  "fresh_blocks saw [] = Some saw"
| "fresh_blocks saw (Text text cc # bs) = fresh_blocks (is_user_text text \<or> saw) bs"
| "fresh_blocks saw (Image mt d # bs) = fresh_blocks saw bs"
| "fresh_blocks saw (b # bs) = None"

fun fresh_turn_rev :: "message list \<Rightarrow> bool" where
  "fresh_turn_rev [] = False"
| "fresh_turn_rev (msg # rest) =
     (if msg_role msg \<noteq> User then False
      else if list_ex is_tool_result (msg_content msg) then False
      else if msg_content msg = [] then False
      else case turn_blocks False (msg_content msg) of
             None \<Rightarrow> False
           | Some saw_user_text \<Rightarrow>
               if saw_user_text then True
               else if is_internal_system_reminder msg then fresh_turn_rev rest
               else False)"

definition ends_with_fresh_user_turn :: "message list \<Rightarrow> bool" where
  "ends_with_fresh_user_turn messages = fresh_turn_rev (rev messages)"

definition is_fresh_user_text_message :: "message \<Rightarrow> bool" where
  "is_fresh_user_text_message message =
     (if msg_role message \<noteq> User then False
      else case fresh_blocks False (msg_content message) of None \<Rightarrow> False | Some saw \<Rightarrow> saw)"

definition dynamic_system_context_message :: "datetime \<Rightarrow> string \<Rightarrow> message option" where
  "dynamic_system_context_message now system_dynamic =
     (let trimmed = trim system_dynamic in
      if trimmed = [] then None
      else Some (Message_user now
             (''<system-reminder>'' @ nl @ trimmed @ nl @ ''</system-reminder>'')))"

text \<open>\<^verbatim>\<open>iter().rposition(p)\<close>.\<close>

fun rposition :: "('a \<Rightarrow> bool) \<Rightarrow> 'a list \<Rightarrow> nat option" where
  "rposition p [] = None"
| "rposition p (x # xs) =
     (case rposition p xs of
        Some i \<Rightarrow> Some (Suc i)
      | None \<Rightarrow> if p x then Some 0 else None)"

definition messages_with_dynamic_system_context ::
  "datetime \<Rightarrow> message list \<Rightarrow> string \<Rightarrow> message list" where
  "messages_with_dynamic_system_context now messages system_dynamic =
     (case dynamic_system_context_message now system_dynamic of
        None \<Rightarrow> messages
      | Some dynamic_message \<Rightarrow>
          let insert_at = (case rposition is_fresh_user_text_message messages of
                             Some idx \<Rightarrow> idx + 1
                           | None \<Rightarrow> length messages)
          in take insert_at messages @ [dynamic_message] @ drop insert_at messages)"

subsection \<open>Tool ids and tool calls\<close>

definition is_ascii_alphanumeric :: "char \<Rightarrow> bool" where
  "is_ascii_alphanumeric c =
     (let n = (of_char c :: nat)
      in (48 \<le> n \<and> n \<le> 57) \<or> (65 \<le> n \<and> n \<le> 90) \<or> (97 \<le> n \<and> n \<le> 122))"

definition tool_id_char :: "string \<Rightarrow> bool" where
  "tool_id_char ch \<longleftrightarrow> (case ch of [c] \<Rightarrow> is_ascii_alphanumeric c | _ \<Rightarrow> False) \<or> ch = ''_'' \<or> ch = ''-''"

definition sanitize_tool_id :: "string \<Rightarrow> string" where
  "sanitize_tool_id i =
     (if i = [] then ''unknown''
      else
        let sanitized = concat (map (\<lambda>c. if tool_id_char c then c else ''_'') (utf8_chars i))
        in if sanitized = [] then ''unknown'' else sanitized)"

fun normalize_input_to_object :: "json \<Rightarrow> json" where
  "normalize_input_to_object (JObject m) = JObject m"
| "normalize_input_to_object _ = JObject []"

definition input_as_object :: "json \<Rightarrow> json" where
  "input_as_object input = normalize_input_to_object input"

fun json_value_kind :: "json \<Rightarrow> string" where
  "json_value_kind JNull = ''null''"
| "json_value_kind (JBool _) = ''boolean''"
| "json_value_kind (JNumber _) = ''number''"
| "json_value_kind (JString _) = ''string''"
| "json_value_kind (JArray _) = ''array''"
| "json_value_kind (JObject _) = ''object''"

fun is_object :: "json \<Rightarrow> bool" where
  "is_object (JObject _) = True"
| "is_object _ = False"

definition validation_error :: "tool_call \<Rightarrow> string option" where
  "validation_error self =
     (if trim (tc_name self) = [] then Some ''Invalid tool call: tool name must not be empty.''
      else if \<not> is_object (tc_input self) then
        Some (''Invalid tool call for '' @ apos @ tc_name self @ apos @
              '': arguments must be a JSON object, got '' @ json_value_kind (tc_input self) @ ''.'')
      else None)"

fun json_get :: "json \<Rightarrow> string \<Rightarrow> json option" where
  "json_get (JObject m) k = map_of m k"
| "json_get _ k = None"

fun as_str :: "json \<Rightarrow> string option" where
  "as_str (JString s) = Some s"
| "as_str _ = None"

definition intent_from_input :: "json \<Rightarrow> string option" where
  "intent_from_input input =
     (case Option.bind (json_get input ''intent'') as_str of
        None \<Rightarrow> None
      | Some s \<Rightarrow> let intent = trim s in if intent \<noteq> [] then Some intent else None)"

definition refresh_intent_from_input :: "tool_call \<Rightarrow> tool_call" where
  "refresh_intent_from_input self = self\<lparr>tc_intent := intent_from_input (tc_input self)\<rparr>"

subsection \<open>Connection phases\<close>

datatype connection_phase =
    Authenticating | Connecting | WaitingForResponse | Streaming | Retrying u32 u32

fun ConnectionPhase_fmt :: "connection_phase \<Rightarrow> string" where
  "ConnectionPhase_fmt Authenticating = ''authenticating''"
| "ConnectionPhase_fmt Connecting = ''connecting''"
| "ConnectionPhase_fmt WaitingForResponse = ''waiting for response''"
| "ConnectionPhase_fmt Streaming = ''streaming''"
| "ConnectionPhase_fmt (Retrying attempt mx) =
     ''retrying ('' @ show_nat (unat attempt) @ ''/'' @ show_nat (unat mx) @ '')''"

subsection \<open>Specifications\<close>

definition text_only :: "message \<Rightarrow> bool" where
  "text_only m \<longleftrightarrow> msg_content m \<noteq> [] \<and>
     list_all (\<lambda>b. case b of Text t cc \<Rightarrow> True | _ \<Rightarrow> False) (msg_content m)"

definition has_user_text :: "message \<Rightarrow> bool" where
  "has_user_text m \<longleftrightarrow> list_ex (\<lambda>b. case b of Text t cc \<Rightarrow> is_user_text t | _ \<Rightarrow> False) (msg_content m)"

text \<open>A message the user typed, and a message that only carries system reminders.\<close>

definition user_turn :: "message \<Rightarrow> bool" where
  "user_turn m \<longleftrightarrow> msg_role m = User \<and> text_only m \<and> has_user_text m"

definition reminder_turn :: "message \<Rightarrow> bool" where
  "reminder_turn m \<longleftrightarrow>
     msg_role m = User \<and> text_only m \<and> \<not> has_user_text m \<and> is_internal_system_reminder m"

definition taggable :: "content_block \<Rightarrow> bool" where
  "taggable b = (case b of Text t cc \<Rightarrow> True | ToolResult i c e \<Rightarrow> True | _ \<Rightarrow> False)"

text \<open>The tool call a block starts or answers.\<close>

definition block_tool_id :: "content_block \<Rightarrow> (bool \<times> string) option" where
  "block_tool_id b =
     (case b of ToolUse i n v \<Rightarrow> Some (True, i) | ToolResult i c e \<Rightarrow> Some (False, i) | _ \<Rightarrow> None)"

fun tag_block :: "string \<Rightarrow> string \<Rightarrow> content_block \<Rightarrow> content_block" where
  "tag_block text_tag result_tag (Text t cc) = Text (text_tag @ '' '' @ t) cc"
| "tag_block text_tag result_tag (ToolResult i c e) = ToolResult i (result_tag @ '' '' @ c) e"
| "tag_block text_tag result_tag b = b"

definition stamps :: "message \<Rightarrow> bool" where
  "stamps m \<longleftrightarrow> msg_timestamp m \<noteq> None \<and> msg_role m = User \<and> \<not> is_internal_system_reminder m"

section \<open>Lemmas\<close>

subsection \<open>Timestamps\<close>

lemma tag_blocks_tagged [simp]: "tag_blocks a b True bs = bs"
  by (induction a b True bs rule: tag_blocks.induct) auto

lemma taggable_simps [simp]:
  "taggable (Text t cc)" "taggable (ToolResult i c e)" "\<not> taggable (Reasoning r)"
  "\<not> taggable (ToolUse i n v)" "\<not> taggable (Image mt d)" "\<not> taggable (OpenAICompaction x)"
  by (simp_all add: taggable_def)

lemma tag_blocks_first:
  "tag_blocks a b False bs =
     (case dropWhile (\<lambda>x. \<not> taggable x) bs of
        [] \<Rightarrow> bs
      | x # post \<Rightarrow> takeWhile (\<lambda>x. \<not> taggable x) bs @ tag_block a b x # post)"
proof (induction bs)
  case (Cons x xs)
  then show ?case by (cases x) (auto split: list.split simp del: dropWhile_eq_Nil_conv)
qed simp

lemma tag_blocks_tool_ids [simp]: "map block_tool_id (tag_blocks a b g bs) = map block_tool_id bs"
  by (induction a b g bs rule: tag_blocks.induct) (auto simp: block_tool_id_def)

lemma timestamped_fields:
  "msg_role (timestamped f s m) = msg_role m \<and> msg_timestamp (timestamped f s m) = msg_timestamp m \<and>
   msg_tool_duration_ms (timestamped f s m) = msg_tool_duration_ms m \<and>
   map block_tool_id (msg_content (timestamped f s m)) = map block_tool_id (msg_content m)"
  by (simp add: timestamped_def split: option.split)

lemma timestamped_unless: "\<not> stamps m \<Longrightarrow> timestamped f s m = m"
  by (auto simp: timestamped_def stamps_def should_skip_timestamp_injection_def split: option.split)

subsection \<open>Fresh turns\<close>

lemma turn_blocks_eq:
  "turn_blocks saw bs =
     (if list_all (\<lambda>b. case b of Text t cc \<Rightarrow> True | _ \<Rightarrow> False) bs
      then Some (saw \<or> list_ex (\<lambda>b. case b of Text t cc \<Rightarrow> is_user_text t | _ \<Rightarrow> False) bs) else None)"
  by (induction saw bs rule: turn_blocks.induct) auto

lemma text_only_no_result: "text_only m \<Longrightarrow> \<not> list_ex is_tool_result (msg_content m)"
  by (auto simp: text_only_def list_all_iff list_ex_iff is_tool_result_def split: content_block.splits)

lemma fresh_turn_rev_Cons:
  "fresh_turn_rev (m # ms) \<longleftrightarrow> user_turn m \<or> (reminder_turn m \<and> fresh_turn_rev ms)"
proof (cases "msg_role m = User \<and> text_only m")
  case True
  then show ?thesis
    using text_only_no_result [of m]
    by (auto simp: user_turn_def reminder_turn_def turn_blocks_eq text_only_def has_user_text_def)
next
  case False
  then show ?thesis
    by (auto simp: user_turn_def reminder_turn_def turn_blocks_eq text_only_def)
qed

lemma fresh_turn_rev_iff:
  "fresh_turn_rev ms \<longleftrightarrow> (\<exists>rems m pre. ms = rems @ m # pre \<and> user_turn m \<and> list_all reminder_turn rems)"
proof (induction ms)
  case (Cons x ms)
  have "(\<exists>rems m pre. x # ms = rems @ m # pre \<and> user_turn m \<and> list_all reminder_turn rems) \<longleftrightarrow>
      user_turn x \<or> (reminder_turn x \<and>
        (\<exists>rems m pre. ms = rems @ m # pre \<and> user_turn m \<and> list_all reminder_turn rems))"
    (is "?L \<longleftrightarrow> ?R")
  proof
    assume ?L
    then obtain rems m pre where *: "x # ms = rems @ m # pre" "user_turn m" "list_all reminder_turn rems"
      by blast
    then show ?R by (cases rems) auto
  next
    assume ?R
    then consider "user_turn x"
      | r m p where "reminder_turn x" "ms = r @ m # p" "user_turn m" "list_all reminder_turn r" by blast
    then show ?L
    proof cases
      case 1
      then show ?thesis by (intro exI [of _ "[]"] exI [of _ x] exI [of _ ms]) simp
    next
      case (2 r m p)
      then show ?thesis by (intro exI [of _ "x # r"] exI [of _ m] exI [of _ p]) simp
    qed
  qed
  with Cons show ?case by (simp only: fresh_turn_rev_Cons)
qed simp

lemma rposition_eq:
  "rposition p xs = (if list_ex p xs then Some (length (dropWhile (\<lambda>x. \<not> p x) (rev xs)) - 1) else None)"
proof (induction xs)
  case (Cons x xs)
  show ?case
  proof (cases "list_ex p xs")
    case True
    then have ne: "dropWhile (\<lambda>x. \<not> p x) (rev xs) \<noteq> []"
      by (auto simp: list_ex_iff dropWhile_eq_Nil_conv)
    moreover have "dropWhile (\<lambda>x. \<not> p x) (rev xs @ [x]) = dropWhile (\<lambda>x. \<not> p x) (rev xs) @ [x]"
      using True by (auto simp: list_ex_iff intro: dropWhile_append1)
    ultimately show ?thesis using Cons True by simp
  next
    case False
    then have "dropWhile (\<lambda>x. \<not> p x) (rev xs @ [x]) = dropWhile (\<lambda>x. \<not> p x) [x]"
      by (subst dropWhile_append2) (auto simp: list_ex_iff)
    with False Cons show ?thesis by simp
  qed
qed simp

text \<open>The split of a list after its last element with a property.\<close>

definition after_last :: "('a \<Rightarrow> bool) \<Rightarrow> 'a list \<Rightarrow> 'a list \<times> 'a list" where
  "after_last p xs =
     (if list_ex p xs
      then (rev (dropWhile (\<lambda>x. \<not> p x) (rev xs)), rev (takeWhile (\<lambda>x. \<not> p x) (rev xs)))
      else (xs, []))"

lemma after_last_props:
  assumes "after_last p xs = (pre, post)"
  shows "xs = pre @ post" and "list_all (\<lambda>x. \<not> p x) post"
    and "list_ex p xs \<Longrightarrow> pre \<noteq> [] \<and> p (last pre)"
proof -
  show "xs = pre @ post" using assms
    by (auto simp: after_last_def simp flip: rev_append split: if_splits)
  show "list_all (\<lambda>x. \<not> p x) post" using assms
    by (auto simp: after_last_def list_all_iff dest: set_takeWhileD split: if_splits)
  assume "list_ex p xs"
  then have "dropWhile (\<lambda>x. \<not> p x) (rev xs) \<noteq> []" by (auto simp: list_ex_iff dropWhile_eq_Nil_conv)
  with \<open>list_ex p xs\<close> show "pre \<noteq> [] \<and> p (last pre)" using assms hd_dropWhile [of "\<lambda>x. \<not> p x" "rev xs"]
    by (auto simp: after_last_def last_rev)
qed

lemma insert_position:
  assumes "after_last p xs = (pre, post)"
  shows "(case rposition p xs of Some i \<Rightarrow> i + 1 | None \<Rightarrow> length xs) = length pre"
proof (cases "list_ex p xs")
  case True
  then have "dropWhile (\<lambda>x. \<not> p x) (rev xs) \<noteq> []" by (auto simp: list_ex_iff dropWhile_eq_Nil_conv)
  then have "0 < length (dropWhile (\<lambda>x. \<not> p x) (rev xs))" by blast
  with True assms show ?thesis by (auto simp: rposition_eq after_last_def)
qed (use assms in \<open>auto simp: rposition_eq after_last_def\<close>)

lemma trim_start_no_space: "\<not> is_whitespace [c] \<Longrightarrow> \<not> utf8_cont d \<Longrightarrow> trim_start (c # d # s) = c # d # s"
  by (simp add: trim_start_def)

lemma reminder_text_facts:
  "\<not> is_whitespace ''<''" "\<not> utf8_cont (CHR ''s'')"
  by code_simp+

lemma trim_end_append:
  assumes "rest = [] \<or> \<not> utf8_cont (hd rest)" and "p \<noteq> []"
    and "\<not> is_whitespace (last (utf8_chars p))"
  shows "\<exists>more. trim_end (p @ rest) = p @ more"
proof -
  have hd: "\<not> is_whitespace (hd (rev (utf8_chars p)))" and ne: "utf8_chars p \<noteq> []"
    using assms by (simp_all add: hd_rev)
  then have keep: "dropWhile is_whitespace (rev (utf8_chars p)) = rev (utf8_chars p)"
    by (simp add: takeWhile_dropWhile_hd)
  have "\<exists>x. rev (dropWhile is_whitespace (rev (utf8_chars (p @ rest)))) = utf8_chars p @ x"
    unfolding utf8_chars_append [OF assms(1)] rev_append dropWhile_append by (simp add: keep)
  then show ?thesis unfolding trim_end_def by (metis concat_append concat_utf8_chars)
qed

lemma system_reminder_last: "\<not> is_whitespace (last (utf8_chars ''<system-reminder>''))"
  and nl_not_cont: "\<not> utf8_cont (hd (nl @ x))"
  by (code_simp, simp add: nl_def utf8_cont_def)

lemma dynamic_message_is_reminder:
  assumes "dynamic_system_context_message now sys = Some d"
  shows "msg_role d = User \<and> is_internal_system_reminder d \<and> \<not> is_fresh_user_text_message d"
proof -
  obtain x where d: "d = Message_user now (''<system-reminder>'' @ nl @ x)"
    using assms by (auto simp: dynamic_system_context_message_def Let_def split: if_splits)
  have ts: "trim_start (''<system-reminder>'' @ nl @ x) = ''<system-reminder>'' @ nl @ x"
    using trim_start_no_space [OF reminder_text_facts] by simp
  obtain more where tr: "trim (''<system-reminder>'' @ nl @ x) = ''<system-reminder>'' @ more"
    using trim_end_append [OF _ _ system_reminder_last, of "nl @ x"] ts nl_not_cont [of x]
    unfolding trim_def by auto
  have "\<not> is_user_text (''<system-reminder>'' @ nl @ x)"
    unfolding is_user_text_def Let_def tr by simp
  then show ?thesis using ts
    by (simp add: d Message_user_def is_internal_system_reminder_def is_fresh_user_text_message_def)
qed

subsection \<open>Hashes\<close>

definition STABLE_HASH_PRIME_INV :: u64 where
  "STABLE_HASH_PRIME_INV = 0xce965057aff6957b"

lemma prime_inverse: "STABLE_HASH_PRIME * STABLE_HASH_PRIME_INV = 1"
  by (simp add: STABLE_HASH_PRIME_def STABLE_HASH_PRIME_INV_def)

lemma mult_prime_inject: "x * STABLE_HASH_PRIME = y * STABLE_HASH_PRIME \<longleftrightarrow> x = y"
proof
  assume "x * STABLE_HASH_PRIME = y * STABLE_HASH_PRIME"
  then have "x * STABLE_HASH_PRIME * STABLE_HASH_PRIME_INV = y * STABLE_HASH_PRIME * STABLE_HASH_PRIME_INV"
    by simp
  then show "x = y" by (simp only: mult.assoc prime_inverse mult_1_right)
qed simp

lemma xor_inject: "(x XOR z = y XOR z) = (x = y)" for x y z :: u64
proof
  assume "x XOR z = y XOR z"
  then have "(x XOR z) XOR z = (y XOR z) XOR z" by simp
  then show "x = y" by (simp add: xor.assoc)
qed simp

lemma hash_byte_inject1: "hash_byte h b = hash_byte h' b \<longleftrightarrow> h = h'"
  by (simp add: hash_byte_def mult_prime_inject xor_inject)

lemma hash_byte_inject2: "hash_byte h b = hash_byte h b' \<longleftrightarrow> b = b'"
proof -
  have id: "ucast (ucast x :: u64) = x" for x :: u8
    by (rule ucast_up_ucast_id) (simp add: is_up)
  have "b = b'" if "(ucast b :: u64) = ucast b'"
    using id [of b, unfolded that, unfolded id] by (rule sym)
  then show ?thesis
    unfolding hash_byte_def mult_prime_inject xor.commute [of h] xor_inject by blast
qed

lemma foldl_hash_inject: "foldl hash_byte h bs = foldl hash_byte h' bs \<longleftrightarrow> h = h'"
  by (induction bs arbitrary: h h') (auto simp: hash_byte_inject1)

subsection \<open>Tool ids\<close>

lemma tool_id_char_single: "tool_id_char c \<Longrightarrow> \<exists>x. c = [x]"
  by (auto simp: tool_id_char_def split: list.splits)

definition valid_tool_id :: "string \<Rightarrow> bool" where
  "valid_tool_id i \<longleftrightarrow> i \<noteq> [] \<and> list_all (\<lambda>c. tool_id_char [c]) i"

lemma valid_char_not_cont: "tool_id_char [c] \<Longrightarrow> \<not> utf8_cont c"
  by (auto simp: tool_id_char_def is_ascii_alphanumeric_def utf8_cont_def Let_def)

lemma valid_tool_id_chars: "valid_tool_id i \<Longrightarrow> utf8_chars i = map (\<lambda>c. [c]) i"
  by (rule utf8_chars_ascii) (auto simp: valid_tool_id_def list_all_iff valid_char_not_cont)

lemma sanitize_valid: "valid_tool_id i \<Longrightarrow> sanitize_tool_id i = i"
proof -
  assume v: "valid_tool_id i"
  then have "map (\<lambda>c. if tool_id_char c then c else ''_'') (map (\<lambda>c. [c]) i) = map (\<lambda>c. [c]) i"
    by (simp add: valid_tool_id_def list_all_iff)
  with v show ?thesis
    by (simp add: sanitize_tool_id_def valid_tool_id_chars Let_def valid_tool_id_def concat_map_singleton
        del: map_map)
qed

lemma sanitize_is_valid: "valid_tool_id (sanitize_tool_id i)"
proof -
  have us: "tool_id_char ''_''" by code_simp
  have unk: "valid_tool_id ''unknown''" by code_simp
  let ?g = "\<lambda>c. if tool_id_char c then c else ''_''"
  have "list_all (\<lambda>c. tool_id_char [c]) (?g x)" for x
    using us tool_id_char_single [of x] by auto
  then have "list_all (\<lambda>c. tool_id_char [c]) (concat (map ?g xs))" for xs
    by (induction xs) auto
  with unk show ?thesis by (simp add: sanitize_tool_id_def Let_def valid_tool_id_def)
qed

lemma sanitize_length: "i \<noteq> [] \<Longrightarrow> length (sanitize_tool_id i) = chars_count i"
proof -
  let ?g = "\<lambda>c. if tool_id_char c then c else ''_''"
  have "length (?g x) = 1" for x using tool_id_char_single [of x] by auto
  then have len: "length (concat (map ?g xs)) = length xs" for xs
    by (induction xs) auto
  assume "i \<noteq> []"
  then have "chars_count i \<noteq> 0" by (simp add: chars_count_def)
  then have "concat (map ?g (utf8_chars i)) \<noteq> []"
    using len [of "utf8_chars i"] by (metis chars_count_def list.size(3))
  then have "sanitize_tool_id i = concat (map ?g (utf8_chars i))"
    unfolding sanitize_tool_id_def Let_def using \<open>i \<noteq> []\<close> by (simp only: if_False)
  then show ?thesis by (simp only: len chars_count_def)
qed

section \<open>Properties\<close>

text \<open>
  The dynamic system context is inserted as one reminder message right after the latest fresh
  user prompt (at the end when there is none); every other message keeps its place, so the
  history before it does not depend on the context. Blank context changes nothing.
\<close>

theorem dynamic_context_keeps_history:
  "if trim sys = [] then messages_with_dynamic_system_context now ms sys = ms
   else
     let (pre, post) = after_last is_fresh_user_text_message ms in
     ms = pre @ post \<and> list_all (\<lambda>m. \<not> is_fresh_user_text_message m) post \<and>
     (if list_ex is_fresh_user_text_message ms
      then pre \<noteq> [] \<and> is_fresh_user_text_message (last pre) else post = []) \<and>
     (\<exists>d. messages_with_dynamic_system_context now ms sys = pre @ [d] @ post \<and>
        msg_role d = User \<and> is_internal_system_reminder d \<and> \<not> is_fresh_user_text_message d)"
proof (cases "trim sys = []")
  case True
  then show ?thesis
    by (simp add: messages_with_dynamic_system_context_def dynamic_system_context_message_def)
next
  case False
  then obtain d where d: "dynamic_system_context_message now sys = Some d"
    by (simp add: dynamic_system_context_message_def Let_def)
  obtain pre post where pp: "after_last is_fresh_user_text_message ms = (pre, post)"
    by fastforce
  note props = after_last_props [OF pp]
  have "messages_with_dynamic_system_context now ms sys = pre @ [d] @ post"
    using insert_position [OF pp]
    by (simp add: messages_with_dynamic_system_context_def d Let_def) (simp add: props(1))
  moreover have "\<not> list_ex is_fresh_user_text_message ms \<Longrightarrow> post = []"
    using pp by (auto simp: after_last_def)
  ultimately show ?thesis
    using False props pp dynamic_message_is_reminder [OF d] by simp
qed

text \<open>
  A conversation ends with a fresh user turn exactly when, apart from trailing messages that
  only carry system reminders, its last message is a text-only user message with some text that is
  neither blank nor a reminder.
\<close>

theorem fresh_user_turn_exact:
  "ends_with_fresh_user_turn ms \<longleftrightarrow>
     (\<exists>pre m rems. ms = pre @ m # rems \<and> user_turn m \<and> list_all reminder_turn rems)"
proof -
  have "ends_with_fresh_user_turn ms \<longleftrightarrow>
      (\<exists>rems m pre. rev ms = rems @ m # pre \<and> user_turn m \<and> list_all reminder_turn rems)"
    by (simp add: ends_with_fresh_user_turn_def fresh_turn_rev_iff)
  also have "\<dots> \<longleftrightarrow> (\<exists>pre m rems. ms = pre @ m # rems \<and> user_turn m \<and> list_all reminder_turn rems)"
    by (simp add: rev_swap) (metis list_all_rev rev_rev_ident)
  finally show ?thesis .
qed

text \<open>
  Timestamp injection keeps the number and order of messages, their roles, times and the tool
  calls they start or answer. Only user messages with a time that are no system reminder change,
  and there only the first text or tool-result block, which gets the tag in front.
\<close>

theorem with_timestamps_preserves_structure:
  assumes "i < length ms"
  shows "length (with_timestamps f s ms) = length ms \<and>
    (let m = ms ! i; m' = with_timestamps f s ms ! i in
       msg_role m' = msg_role m \<and> msg_timestamp m' = msg_timestamp m \<and>
       msg_tool_duration_ms m' = msg_tool_duration_ms m \<and>
       map block_tool_id (msg_content m') = map block_tool_id (msg_content m) \<and>
       (if stamps m
        then \<exists>text_tag result_tag.
          msg_content m' =
            (case dropWhile (\<lambda>x. \<not> taggable x) (msg_content m) of
               [] \<Rightarrow> msg_content m
             | x # post \<Rightarrow>
                 takeWhile (\<lambda>x. \<not> taggable x) (msg_content m) @ tag_block text_tag result_tag x # post)
        else m' = m))"
proof -
  have "stamps m \<Longrightarrow> \<exists>a b. msg_content (timestamped f s m) = tag_blocks a b False (msg_content m)" for m
    by (auto simp: stamps_def timestamped_def should_skip_timestamp_injection_def split: option.split)
  with assms show ?thesis
    by (simp add: with_timestamps_def Let_def timestamped_fields timestamped_unless
        flip: tag_blocks_first)
qed

theorem with_timestamps_preserves_structure_witness:
  "msg_content (with_timestamps (\<lambda>t. ''T'') (\<lambda>t d. None) [Message_user 0 ''hi''] ! 0) =
     [Text ''[T] hi'' None] \<and>
   msg_role (with_timestamps (\<lambda>t. ''T'') (\<lambda>t d. None) [Message_user 0 ''hi''] ! 0) = User"
proof
  show "msg_content (with_timestamps (\<lambda>t. ''T'') (\<lambda>t d. None) [Message_user 0 ''hi''] ! 0) =
     [Text ''[T] hi'' None]" by code_simp
  show "msg_role (with_timestamps (\<lambda>t. ''T'') (\<lambda>t d. None) [Message_user 0 ''hi''] ! 0) = User"
    using with_timestamps_preserves_structure
      [of 0 "[Message_user 0 ''hi'']" "\<lambda>t. ''T''" "\<lambda>t d. None"]
    by (simp add: Let_def Message_user_def)
qed

text \<open>
  C39: A sanitized tool id is never empty and matches \<^verbatim>\<open>[a-zA-Z0-9_-]+\<close>; a valid id is unchanged, so
  sanitizing twice is sanitizing once, and a non-empty id keeps its number of characters.
\<close>

theorem sanitize_tool_id_valid:
  "valid_tool_id (sanitize_tool_id i) \<and>
   (sanitize_tool_id i = i \<longleftrightarrow> valid_tool_id i) \<and>
   sanitize_tool_id (sanitize_tool_id i) = sanitize_tool_id i \<and>
   length (sanitize_tool_id i) = (if i = [] then 7 else chars_count i)"
  using sanitize_valid [of i] sanitize_is_valid [of i] sanitize_valid [OF sanitize_is_valid, of i]
    sanitize_length [of i]
  by (auto simp: sanitize_tool_id_def [of "[]"])

text \<open>
  The stable hash separates byte strings of the same length that differ in exactly one byte,
  wherever the byte is.
\<close>

theorem stable_hash_one_byte:
  "stable_hash_bytes (pre @ [b] @ post) = stable_hash_bytes (pre @ [b'] @ post) \<longleftrightarrow> b = b'"
  by (simp add: stable_hash_bytes_def foldl_hash_inject hash_byte_inject2)

end
