(* ===== verification/Compaction.thy ===== *)
theory Compaction
  imports Messages
begin

text \<open>
  Model of \<^verbatim>\<open>crates/gcode-compaction-core/src/lib.rs\<close>: where a conversation may be cut when old
  turns are summarized, the truncation of oversized tool results, the token estimates, and the
  texts of the compaction prompt and of the emergency summary.

  \<^verbatim>\<open>json_str\<close> renders a JSON value and \<^verbatim>\<open>is_alphanumeric\<close> is the Unicode predicate of that name on
  one character. Lengths are byte lengths, as in the code. \<^verbatim>\<open>mean_embedding\<close> (floating point) and
  \<^verbatim>\<open>semantic_cache_key\<close> (the standard library's hasher) are not modelled.
\<close>

section \<open>Definitions\<close>

definition DEFAULT_TOKEN_BUDGET :: nat where
  "DEFAULT_TOKEN_BUDGET = 200000"

definition EMERGENCY_TOOL_RESULT_MAX_CHARS :: nat where
  "EMERGENCY_TOOL_RESULT_MAX_CHARS = 4000"

definition CHARS_PER_TOKEN :: nat where
  "CHARS_PER_TOKEN = 4"

definition SYSTEM_OVERHEAD_TOKENS :: nat where
  "SYSTEM_OVERHEAD_TOKENS = 18000"

definition EMBED_MAX_CHARS_PER_MSG :: nat where
  "EMBED_MAX_CHARS_PER_MSG = 512"

definition SUMMARY_PROMPT :: string where
  "SUMMARY_PROMPT =
     ''Summarize our conversation so you can continue this work later.'' @ nl @ nl @
     ''Write in natural language with these sections:'' @ nl @
     ''- **Context:** What we'' @ apos @ ''re working on and why (1-2 sentences)'' @ nl @
     ''- **What we did:** Key actions taken, files changed, problems solved'' @ nl @
     ''- **Current state:** What works, what'' @ apos @ ''s broken, what'' @ apos @ ''s next'' @ nl @
     ''- **User preferences:** Specific requirements or decisions they made'' @ nl @ nl @
     ''Be concise but preserve important details. You can search the full conversation later if you need exact error messages or code snippets.''"

record summary =
  sum_text :: string
  sum_openai_encrypted_content :: "string option"
  sum_covers_up_to_turn :: nat
  sum_original_turn_count :: nat

record compaction_event =
  ce_trigger :: string
  ce_pre_tokens :: "u64 option"
  ce_post_tokens :: "u64 option"
  ce_tokens_saved :: "u64 option"
  ce_duration_ms :: "u64 option"
  ce_messages_dropped :: "nat option"
  ce_messages_compacted :: "nat option"
  ce_summary_chars :: "nat option"
  ce_active_messages :: "nat option"

datatype compaction_action = NoAction | BackgroundStarted string | HardCompacted nat

subsection \<open>Truncation at character boundaries\<close>

definition truncate_str_boundary :: "string \<Rightarrow> nat \<Rightarrow> string" where
  "truncate_str_boundary value max_bytes =
     (if length value \<le> max_bytes then value
      else take (shrink_to_boundary value (min max_bytes (length value))) value)"

function grow_to_boundary :: "string \<Rightarrow> nat \<Rightarrow> nat" where
  "grow_to_boundary v s =
     (if s < length v \<and> \<not> is_char_boundary v s then grow_to_boundary v (s + 1) else s)"
  by pat_completeness auto
termination
  by (relation "measure (\<lambda>(v, s). length v - s)") auto

declare grow_to_boundary.simps [simp del]

definition tail_str_boundary :: "string \<Rightarrow> nat \<Rightarrow> string" where
  "tail_str_boundary value max_bytes =
     (if length value \<le> max_bytes then value
      else drop (grow_to_boundary value (length value - max_bytes)) value)"

definition emergency_truncated_tool_result :: "string \<Rightarrow> nat \<Rightarrow> string" where
  "emergency_truncated_tool_result content max_chars =
     (let original_len = length content;
          keep_head = max_chars div 2;
          keep_tail = max_chars div 4;
          head = truncate_str_boundary content keep_head;
          tail = tail_str_boundary content keep_tail;
          truncated_len = original_len - (length head + length tail)
      in head @ nl @ nl @ ''... ['' @ show_nat truncated_len @
         '' chars truncated for context recovery] ...'' @ nl @ nl @ tail)"

fun truncate_block :: "nat \<Rightarrow> content_block \<Rightarrow> content_block \<times> nat" where
  "truncate_block max_chars (ToolResult i content e) =
     (if length content > max_chars
      then (ToolResult i (emergency_truncated_tool_result content max_chars) e, 1)
      else (ToolResult i content e, 0))"
| "truncate_block max_chars b = (b, 0)"

definition truncate_message :: "nat \<Rightarrow> message \<Rightarrow> message \<times> nat" where
  "truncate_message max_chars msg =
     (let rs = map (truncate_block max_chars) (msg_content msg)
      in (msg\<lparr>msg_content := map fst rs\<rparr>, sum_list (map snd rs)))"

text \<open>The changed messages and the number of truncated results.\<close>

definition emergency_truncate_tool_results :: "message list \<Rightarrow> nat \<Rightarrow> message list \<times> nat" where
  "emergency_truncate_tool_results messages max_chars =
     (let rs = map (truncate_message max_chars) messages
      in (map fst rs, sum_list (map snd rs)))"

subsection \<open>The compaction prompt\<close>

definition compacted_summary_text_block :: "string \<Rightarrow> string" where
  "compacted_summary_text_block summary =
     ''## Previous Conversation Summary'' @ nl @ nl @ summary @ nl @ nl @ ''---'' @ nl @ nl"

fun block_text :: "(json \<Rightarrow> string) \<Rightarrow> content_block \<Rightarrow> string" where
  "block_text json_str (Text text cc) = text @ nl"
| "block_text json_str (ToolUse i name input) = ''[Tool: '' @ name @ '' - '' @ json_str input @ '']'' @ nl"
| "block_text json_str (ToolResult i content e) =
     (let truncated = (if length content > 500
                       then truncate_str_boundary content 500 @ ''... (truncated)'' else content)
      in ''[Result: '' @ truncated @ '']'' @ nl)"
| "block_text json_str (Reasoning t) = []"
| "block_text json_str (Image mt d) = ''[Image]'' @ nl"
| "block_text json_str (OpenAICompaction c) = ''[OpenAI native compaction]'' @ nl"

definition message_text :: "(json \<Rightarrow> string) \<Rightarrow> message \<Rightarrow> string" where
  "message_text json_str msg =
     ''**'' @ (case msg_role msg of User \<Rightarrow> ''User'' | Assistant \<Rightarrow> ''Assistant'') @ '':**'' @ nl @
     concat (map (block_text json_str) (msg_content msg)) @ nl"

definition build_compaction_conversation_text ::
  "(json \<Rightarrow> string) \<Rightarrow> message list \<Rightarrow> summary option \<Rightarrow> string" where
  "build_compaction_conversation_text json_str messages existing_summary =
     (case existing_summary of
        Some s \<Rightarrow> ''## Previous Summary'' @ nl @ nl @ sum_text s @ nl @ nl @ ''## New Conversation'' @ nl @ nl
      | None \<Rightarrow> []) @ concat (map (message_text json_str) messages)"

definition prompt_truncation_note :: string where
  "prompt_truncation_note = nl @ nl @ ''... [earlier conversation truncated to fit context window]'' @ nl"

definition build_compaction_prompt ::
  "(json \<Rightarrow> string) \<Rightarrow> message list \<Rightarrow> summary option \<Rightarrow> nat \<Rightarrow> string" where
  "build_compaction_prompt json_str messages existing_summary max_prompt_chars =
     (let conversation_text = build_compaction_conversation_text json_str messages existing_summary;
          overhead = length SUMMARY_PROMPT + 50;
          conversation_text =
            (if length conversation_text + overhead > max_prompt_chars \<and> max_prompt_chars > overhead
             then truncate_str_boundary conversation_text (max_prompt_chars - overhead) @
                  prompt_truncation_note
             else conversation_text)
      in conversation_text @ nl @ nl @ ''---'' @ nl @ nl @ SUMMARY_PROMPT)"

subsection \<open>The compaction cutoff\<close>

text \<open>The two hash sets of tool ids; only membership is used.\<close>

record tool_ids =
  available :: "string list"
  missing :: "string list"

fun note_block :: "content_block \<Rightarrow> tool_ids \<Rightarrow> tool_ids" where
  "note_block (ToolUse i n v) st =
     st\<lparr>available := List.insert i (available st), missing := removeAll i (missing st)\<rparr>"
| "note_block (ToolResult i c e) st =
     (if i \<notin> set (available st) then st\<lparr>missing := List.insert i (missing st)\<rparr> else st)"
| "note_block b st = st"

definition note_message :: "message \<Rightarrow> tool_ids \<Rightarrow> tool_ids" where
  "note_message msg st = fold note_block (msg_content msg) st"

text \<open>The backward walk, from index \<^verbatim>\<open>n - 1\<close> down to 0.\<close>

fun walk_back :: "message list \<Rightarrow> nat \<Rightarrow> tool_ids \<Rightarrow> nat" where
  "walk_back messages 0 st = 0"
| "walk_back messages (Suc idx) st =
     (let st' = note_message (messages ! idx) st
      in if missing st' = [] then idx else walk_back messages idx st')"

definition safe_compaction_cutoff :: "message list \<Rightarrow> nat \<Rightarrow> nat" where
  "safe_compaction_cutoff messages initial_cutoff =
     (let cutoff = min initial_cutoff (length messages);
          st = fold note_message (drop cutoff messages) \<lparr>available = [], missing = []\<rparr>
      in if missing st = [] then cutoff else walk_back messages cutoff st)"

subsection \<open>Size estimates\<close>

fun block_char_count :: "(json \<Rightarrow> string) \<Rightarrow> content_block \<Rightarrow> nat" where
  "block_char_count json_str (Text text cc) = length text"
| "block_char_count json_str (Reasoning text) = length text"
| "block_char_count json_str (ToolUse i n input) = length (json_str input) + 50"
| "block_char_count json_str (ToolResult i content e) = length content + 20"
| "block_char_count json_str (Image mt data) = length data"
| "block_char_count json_str (OpenAICompaction c) = length c"

definition content_char_count :: "(json \<Rightarrow> string) \<Rightarrow> content_block list \<Rightarrow> nat" where
  "content_char_count json_str content = sum_list (map (block_char_count json_str) content)"

definition message_char_count :: "(json \<Rightarrow> string) \<Rightarrow> message \<Rightarrow> nat" where
  "message_char_count json_str msg = content_char_count json_str (msg_content msg)"

definition summary_payload_char_count :: "summary \<Rightarrow> nat" where
  "summary_payload_char_count summary =
     (case sum_openai_encrypted_content summary of
        Some value \<Rightarrow> length value
      | None \<Rightarrow> length (sum_text summary))"

definition estimate_compaction_tokens_from_chars :: "nat \<Rightarrow> nat \<Rightarrow> nat" where
  "estimate_compaction_tokens_from_chars total_chars token_budget =
     (let msg_tokens = total_chars div CHARS_PER_TOKEN;
          overhead = (if token_budget \<ge> DEFAULT_TOKEN_BUDGET div 2 then SYSTEM_OVERHEAD_TOKENS else 0)
      in msg_tokens + overhead)"

definition estimate_compaction_tokens :: "summary option \<Rightarrow> nat \<Rightarrow> nat \<Rightarrow> nat" where
  "estimate_compaction_tokens summary active_message_chars token_budget =
     (let summary_chars = (case summary of Some s \<Rightarrow> summary_payload_char_count s | None \<Rightarrow> 0)
      in estimate_compaction_tokens_from_chars (summary_chars + active_message_chars) token_budget)"

subsection \<open>Semantic excerpts\<close>

definition push_semantic_excerpt :: "string \<Rightarrow> string \<Rightarrow> nat \<Rightarrow> string" where
  "push_semantic_excerpt target source max_chars =
     (if source = [] then target
      else (if target \<noteq> [] then target @ '' '' else target) @ take_chars max_chars source)"

fun push_goal_block :: "content_block \<Rightarrow> string \<Rightarrow> string" where
  "push_goal_block (Text t cc) text = push_semantic_excerpt text t 200"
| "push_goal_block (ToolResult i content e) text = push_semantic_excerpt text content 100"
| "push_goal_block b text = text"

definition semantic_goal_text :: "message list \<Rightarrow> string" where
  "semantic_goal_text messages = fold (\<lambda>msg. fold push_goal_block (msg_content msg)) messages []"

fun push_message_block :: "content_block \<Rightarrow> string \<Rightarrow> string" where
  "push_message_block (Text t cc) text = push_semantic_excerpt text t EMBED_MAX_CHARS_PER_MSG"
| "push_message_block b text = text"

definition semantic_message_text :: "message \<Rightarrow> string" where
  "semantic_message_text msg = fold push_message_block (msg_content msg) []"

subsection \<open>The emergency summary\<close>

definition looks_like_file_reference :: "string \<Rightarrow> bool" where
  "looks_like_file_reference word \<longleftrightarrow>
     (str_contains ''/'' word \<or> str_contains ''.'' word) \<and>
     length word > 3 \<and> length word < 120 \<and> \<not> prefix ''http'' word \<and>
     (str_contains ''.rs'' word \<or> str_contains ''.ts'' word \<or> str_contains ''.py'' word \<or>
      str_contains ''.toml'' word \<or> str_contains ''.json'' word \<or>
      prefix ''src/'' word \<or> prefix ''./'' word)"

definition trim_matches :: "(string \<Rightarrow> bool) \<Rightarrow> string \<Rightarrow> string" where
  "trim_matches p s = concat (rev (dropWhile p (rev (dropWhile p (utf8_chars s)))))"

definition clean_file_reference :: "(string \<Rightarrow> bool) \<Rightarrow> string \<Rightarrow> string" where
  "clean_file_reference is_alphanumeric word =
     trim_matches (\<lambda>c. \<not> is_alphanumeric c \<and> c \<noteq> ''/'' \<and> c \<noteq> ''.'' \<and> c \<noteq> ''_'' \<and> c \<noteq> ''-'') word"

definition extract_file_mentions :: "(string \<Rightarrow> bool) \<Rightarrow> string \<Rightarrow> string list \<Rightarrow> string list" where
  "extract_file_mentions is_alphanumeric text file_mentions =
     file_mentions @
     filter (\<lambda>cleaned. cleaned \<noteq> [])
       (map (clean_file_reference is_alphanumeric)
         (filter looks_like_file_reference (split_whitespace text)))"

type_synonym hints = "string list \<times> string list"

fun collect_block_hints :: "(string \<Rightarrow> bool) \<Rightarrow> content_block \<Rightarrow> hints \<Rightarrow> hints" where
  "collect_block_hints an (ToolUse i name v) (tools, files) = (List.insert name tools, files)"
| "collect_block_hints an (Text text cc) (tools, files) = (tools, extract_file_mentions an text files)"
| "collect_block_hints an b h = h"

definition collect_emergency_summary_hints :: "(string \<Rightarrow> bool) \<Rightarrow> message \<Rightarrow> hints \<Rightarrow> hints" where
  "collect_emergency_summary_hints an msg h = fold (collect_block_hints an) (msg_content msg) h"

definition build_emergency_summary_text ::
  "(string \<Rightarrow> bool) \<Rightarrow> string option \<Rightarrow> nat \<Rightarrow> u64 \<Rightarrow> nat \<Rightarrow> message list \<Rightarrow> string" where
  "build_emergency_summary_text an existing_summary dropped_count pre_tokens token_budget dropped_messages =
     (let existing_part = (case existing_summary of
            Some existing \<Rightarrow> if existing \<noteq> [] then [existing] else []
          | None \<Rightarrow> []);
          note_part =
            [''**[Emergency compaction]**: '' @ show_nat dropped_count @
             '' messages were dropped to recover from context overflow. '' @
             ''The conversation had ~'' @ show_nat (unat pre_tokens div 1000) @
             ''k tokens which exceeded the '' @ show_nat (token_budget div 1000) @ ''k limit.''];
          (tool_names, file_mentions) =
            fold (collect_emergency_summary_hints an) dropped_messages ([], []);
          tools_part = (if tool_names \<noteq> [] then [''Tools used: '' @ join '', '' (sort tool_names)] else []);
          files = remdups_adj (sort file_mentions);
          files_part = (if files \<noteq> [] then [''Files referenced: '' @ join '', '' (take 30 files)] else [])
      in join (nl @ nl) (existing_part @ note_part @ tools_part @ files_part))"

subsection \<open>Specifications\<close>

definition block_uses :: "content_block \<Rightarrow> string set" where
  "block_uses b = (case b of ToolUse i n v \<Rightarrow> {i} | _ \<Rightarrow> {})"

definition block_results :: "content_block \<Rightarrow> string set" where
  "block_results b = (case b of ToolResult i c e \<Rightarrow> {i} | _ \<Rightarrow> {})"

definition use_ids :: "message list \<Rightarrow> string set" where
  "use_ids ms = (\<Union>m\<in>set ms. \<Union>b\<in>set (msg_content m). block_uses b)"

definition result_ids :: "message list \<Rightarrow> string set" where
  "result_ids ms = (\<Union>m\<in>set ms. \<Union>b\<in>set (msg_content m). block_results b)"

text \<open>Every tool result of the messages has its tool call among them.\<close>

definition results_closed :: "message list \<Rightarrow> bool" where
  "results_closed ms \<longleftrightarrow> result_ids ms \<subseteq> use_ids ms"

definition oversized :: "nat \<Rightarrow> content_block \<Rightarrow> bool" where
  "oversized mx b = (case b of ToolResult i c e \<Rightarrow> length c > mx | _ \<Rightarrow> False)"

text \<open>A tool result of 300 bytes, for examples.\<close>

definition long_output :: string where
  "long_output = replicate 300 (CHR ''x'')"

section \<open>Lemmas\<close>

subsection \<open>The cutoff\<close>

definition tracks :: "tool_ids \<Rightarrow> string set \<Rightarrow> string set \<Rightarrow> bool" where
  "tracks st R A \<longleftrightarrow> set (available st) = A \<and> set (missing st) = R - A"

lemma tracks_note_block:
  "tracks st R A \<Longrightarrow> tracks (note_block b st) (R \<union> block_results b) (A \<union> block_uses b)"
  by (cases b) (auto simp: tracks_def block_results_def block_uses_def)

lemma tracks_fold_blocks:
  "tracks st R A \<Longrightarrow>
     tracks (fold note_block bs st) (R \<union> (\<Union>b\<in>set bs. block_results b)) (A \<union> (\<Union>b\<in>set bs. block_uses b))"
proof (induction bs arbitrary: st R A)
  case (Cons b bs)
  from Cons.IH [OF tracks_note_block [OF Cons.prems, of b]] show ?case by (simp add: Un_assoc)
qed simp

lemma use_ids_simps [simp]:
  "use_ids [] = {}" "use_ids (ms @ ms') = use_ids ms \<union> use_ids ms'"
  "use_ids (m # ms) = (\<Union>b\<in>set (msg_content m). block_uses b) \<union> use_ids ms"
  by (auto simp: use_ids_def)

lemma result_ids_simps [simp]:
  "result_ids [] = {}" "result_ids (ms @ ms') = result_ids ms \<union> result_ids ms'"
  "result_ids (m # ms) = (\<Union>b\<in>set (msg_content m). block_results b) \<union> result_ids ms"
  by (auto simp: result_ids_def)

lemma tracks_note_message:
  "tracks st R A \<Longrightarrow> tracks (note_message m st) (R \<union> result_ids [m]) (A \<union> use_ids [m])"
  by (simp add: note_message_def tracks_fold_blocks)

lemma tracks_fold_messages:
  "tracks st R A \<Longrightarrow> tracks (fold note_message ms st) (R \<union> result_ids ms) (A \<union> use_ids ms)"
proof (induction ms arbitrary: st R A)
  case (Cons m ms)
  from Cons.IH [OF tracks_note_message [OF Cons.prems, of m]] show ?case by (simp add: Un_assoc)
qed simp

lemma tracks_closed: "tracks st (result_ids ms) (use_ids ms) \<Longrightarrow> missing st = [] \<longleftrightarrow> results_closed ms"
  by (auto simp: tracks_def results_closed_def simp flip: set_empty)

lemma drop_idx: "idx < length ms \<Longrightarrow> drop idx ms = ms ! idx # drop (Suc idx) ms"
  by (rule Cons_nth_drop_Suc [symmetric])

lemma walk_back_greatest:
  assumes "n \<le> length ms" and "tracks st (result_ids (drop n ms)) (use_ids (drop n ms))"
  shows "walk_back ms n st = Max (insert 0 {c. c < n \<and> results_closed (drop c ms)})"
  using assms
proof (induction n arbitrary: st)
  case (Suc idx)
  let ?st = "note_message (ms ! idx) st"
  have tr: "tracks ?st (result_ids (drop idx ms)) (use_ids (drop idx ms))"
    using tracks_note_message [OF Suc.prems(2), of "ms ! idx"] Suc.prems(1)
    by (simp add: drop_idx Un_commute)
  show ?case
  proof (cases "results_closed (drop idx ms)")
    case True
    then have "Max (insert 0 {c. c < Suc idx \<and> results_closed (drop c ms)}) = idx"
      by (intro Max_eqI) auto
    with True tr show ?thesis by (simp add: tracks_closed Let_def)
  next
    case False
    then have "{c. c < Suc idx \<and> results_closed (drop c ms)} = {c. c < idx \<and> results_closed (drop c ms)}"
      by (auto simp: less_Suc_eq)
    with False tr Suc show ?thesis by (simp add: tracks_closed Let_def)
  qed
qed simp

lemma safe_cutoff_greatest:
  "safe_compaction_cutoff ms k =
     Max (insert 0 {c. c \<le> min k (length ms) \<and> results_closed (drop c ms)})"
proof -
  let ?n = "min k (length ms)"
  let ?st = "fold note_message (drop ?n ms) \<lparr>available = [], missing = []\<rparr>"
  have "tracks \<lparr>available = [], missing = []\<rparr> {} {}" by (simp add: tracks_def)
  from tracks_fold_messages [OF this, of "drop ?n ms"]
  have tr: "tracks ?st (result_ids (drop ?n ms)) (use_ids (drop ?n ms))" by simp
  show ?thesis
  proof (cases "results_closed (drop ?n ms)")
    case True
    then have "Max (insert 0 {c. c \<le> ?n \<and> results_closed (drop c ms)}) = ?n"
      by (intro Max_eqI) auto
    with True tracks_closed [OF tr] show ?thesis by (simp add: safe_compaction_cutoff_def Let_def)
  next
    case False
    then have "{c. c \<le> ?n \<and> results_closed (drop c ms)} = {c. c < ?n \<and> results_closed (drop c ms)}"
      by (auto simp: le_less)
    with False tracks_closed [OF tr] walk_back_greatest [OF _ tr] show ?thesis
      by (simp add: safe_compaction_cutoff_def Let_def)
  qed
qed

lemma safe_cutoff_bound: "safe_compaction_cutoff ms k \<le> min k (length ms)"
  by (simp add: safe_cutoff_greatest)

lemma safe_cutoff_closed:
  assumes "0 < safe_compaction_cutoff ms k"
  shows "results_closed (drop (safe_compaction_cutoff ms k) ms)"
proof -
  let ?S = "insert 0 {c. c \<le> min k (length ms) \<and> results_closed (drop c ms)}"
  have "Max ?S \<in> ?S" by (rule Max_in) auto
  with assms show ?thesis by (simp add: safe_cutoff_greatest)
qed

lemma safe_cutoff_no_tools:
  assumes "result_ids ms = {}"
  shows "safe_compaction_cutoff ms k = min k (length ms)"
proof -
  have "result_ids (drop c ms) \<subseteq> result_ids ms" for c by (auto simp: result_ids_def dest: in_set_dropD)
  then have "results_closed (drop c ms)" for c using assms by (simp add: results_closed_def)
  then show ?thesis unfolding safe_cutoff_greatest by (intro Max_eqI) auto
qed

subsection \<open>Boundaries\<close>

lemma grow_to_boundary:
  assumes "s \<le> length v"
  shows "s \<le> grow_to_boundary v s \<and> grow_to_boundary v s \<le> length v \<and>
    is_char_boundary v (grow_to_boundary v s) \<and>
    (\<forall>i. s \<le> i \<and> i < grow_to_boundary v s \<longrightarrow> \<not> is_char_boundary v i)"
  using assms
proof (induction v s rule: grow_to_boundary.induct)
  case (1 v s)
  show ?case
  proof (cases "s < length v \<and> \<not> is_char_boundary v s")
    case True
    with 1 have "s + 1 \<le> grow_to_boundary v (s + 1) \<and> grow_to_boundary v (s + 1) \<le> length v \<and>
        is_char_boundary v (grow_to_boundary v (s + 1)) \<and>
        (\<forall>i. s + 1 \<le> i \<and> i < grow_to_boundary v (s + 1) \<longrightarrow> \<not> is_char_boundary v i)" by simp
    moreover have "grow_to_boundary v s = grow_to_boundary v (s + 1)"
      using True by (subst grow_to_boundary.simps) simp
    ultimately show ?thesis using True by (metis Suc_eq_plus1 Suc_leD Suc_leI le_neq_implies_less)
  next
    case False
    then have "grow_to_boundary v s = s" by (subst grow_to_boundary.simps) (simp only: if_False)
    with False 1(2) show ?thesis by (auto simp: not_less)
  qed
qed

lemma length_truncate: "length (truncate_str_boundary v n) \<le> n"
  using shrink_to_boundary [of v "min n (length v)"]
  by (auto simp: truncate_str_boundary_def)

lemma length_tail: "length (tail_str_boundary v n) \<le> n"
  using grow_to_boundary [of "length v - n" v]
  by (auto simp: tail_str_boundary_def)

subsection \<open>Emergency truncation\<close>

lemma show_nat_length: "n < 10 ^ k \<Longrightarrow> 0 < k \<Longrightarrow> length (show_nat n) \<le> k"
proof (induction k arbitrary: n)
  case (Suc k)
  show ?case
  proof (cases "n < 10")
    case True
    then show ?thesis by (subst show_nat.simps) simp
  next
    case False
    with Suc.prems have "n div 10 < 10 ^ k" and "0 < k" by (auto intro: Nat.gr0I)
    from Suc.IH [OF this] False show ?thesis by (subst show_nat.simps) simp
  qed
qed simp

lemma truncated_result_length:
  assumes "length content < 2 ^ 64"
  shows "length (emergency_truncated_tool_result content mx) \<le> mx div 2 + mx div 4 + 71"
proof -
  let ?h = "truncate_str_boundary content (mx div 2)" and ?t = "tail_str_boundary content (mx div 4)"
  have "length content - (length ?h + length ?t) < 10 ^ 20" using assms by simp
  then have "length (show_nat (length content - (length ?h + length ?t))) \<le> 20"
    by (intro show_nat_length) simp_all
  then show ?thesis
    using length_truncate [of content "mx div 2"] length_tail [of content "mx div 4"]
    by (simp add: emergency_truncated_tool_result_def Let_def nl_def)
qed

lemma truncate_block_facts:
  "block_tool_id (fst (truncate_block mx b)) = block_tool_id b"
  "snd (truncate_block mx b) = (if oversized mx b then 1 else 0)"
  "\<not> oversized mx b \<Longrightarrow> fst (truncate_block mx b) = b"
  by (cases b; simp add: block_tool_id_def oversized_def)+

lemma truncate_block_fits:
  assumes "281 \<le> mx" and "case b of ToolResult i c e \<Rightarrow> length c < 2 ^ 64 | _ \<Rightarrow> True"
  shows "\<not> oversized mx (fst (truncate_block mx b))"
proof (cases b)
  case (ToolResult i c e)
  with assms have "length (emergency_truncated_tool_result c mx) \<le> mx div 2 + mx div 4 + 71"
    by (intro truncated_result_length) simp
  also have "\<dots> \<le> mx" using assms(1) by linarith
  finally show ?thesis using ToolResult by (auto simp: oversized_def)
qed (simp_all add: oversized_def)

lemma sum_indicator: "sum_list (map (\<lambda>b. if P b then 1 else 0) bs) = length (filter P bs)"
  by (induction bs) auto

lemma truncate_message_count: "snd (truncate_message mx m) = length (filter (oversized mx) (msg_content m))"
  by (simp add: truncate_message_def Let_def comp_def truncate_block_facts(2) sum_indicator)

lemma truncate_message_content:
  "msg_content (fst (truncate_message mx m)) = map (fst \<circ> truncate_block mx) (msg_content m)"
  by (simp add: truncate_message_def Let_def)

section \<open>Properties\<close>

text \<open>
  C2: The safe compaction cutoff is the greatest index at or below the requested one from which
  the kept messages contain the tool call of every tool result they contain, and 0 (nothing is
  compacted) when there is none.
\<close>

theorem safe_compaction_cutoff_greatest:
  "safe_compaction_cutoff ms k =
     Max (insert 0 {c. c \<le> min k (length ms) \<and> results_closed (drop c ms)})"
  by (rule safe_cutoff_greatest)

text \<open>
  Cutting text at a byte limit keeps the longest prefix (for the tail, the longest suffix)
  that fits into the limit and ends (starts) at a character boundary.
\<close>

theorem str_boundary_cuts_maximal:
  "(\<exists>e. truncate_str_boundary v n = take e v \<and> e \<le> length v \<and> e \<le> n \<and> is_char_boundary v e \<and>
      (\<forall>i. is_char_boundary v i \<and> i \<le> n \<longrightarrow> i \<le> e)) \<and>
   (\<exists>s. tail_str_boundary v n = drop s v \<and> s \<le> length v \<and> length v - s \<le> n \<and> is_char_boundary v s \<and>
      (\<forall>i. is_char_boundary v i \<and> length v - i \<le> n \<longrightarrow> s \<le> i))"
  (is "?head \<and> ?tail")
proof
  have le: "is_char_boundary v i \<Longrightarrow> i \<le> length v" for i by (auto simp: is_char_boundary_def)
  show ?head
  proof (cases "length v \<le> n")
    case True
    then show ?thesis
      by (intro exI [of _ "length v"]) (auto simp: truncate_str_boundary_def le)
  next
    case False
    then show ?thesis
      using shrink_to_boundary [of v n]
      by (intro exI [of _ "shrink_to_boundary v n"])
        (auto simp: truncate_str_boundary_def min_def not_le [symmetric])
  qed
  show ?tail
  proof (cases "length v \<le> n")
    case True
    then show ?thesis by (intro exI [of _ 0]) (simp add: tail_str_boundary_def)
  next
    case False
    let ?s = "grow_to_boundary v (length v - n)"
    have g: "length v - n \<le> ?s" "?s \<le> length v" "is_char_boundary v ?s"
      "\<forall>i. length v - n \<le> i \<and> i < ?s \<longrightarrow> \<not> is_char_boundary v i"
      using grow_to_boundary [of "length v - n" v] by auto
    have "?s \<le> i" if "is_char_boundary v i" "length v - i \<le> n" for i
    proof (rule ccontr)
      assume "\<not> ?s \<le> i"
      moreover have "length v - n \<le> i" using that(2) le [OF that(1)] by linarith
      ultimately show False using g(4) that(1) by auto
    qed
    with False g show ?thesis
      by (intro exI [of _ ?s]) (auto simp: tail_str_boundary_def)
  qed
qed

theorem str_boundary_cuts_maximal_witness:
  "\<exists>e. truncate_str_boundary [CHR 0xC3, CHR 0xA9, CHR ''a''] 1 = take e [CHR 0xC3, CHR 0xA9, CHR ''a''] \<and> e \<le> 1"
  using str_boundary_cuts_maximal [of "[CHR 0xC3, CHR 0xA9, CHR ''a'']" 1] by blast

text \<open>
  Emergency truncation with a limit of at least 281 bytes leaves no tool result above the
  limit, counts exactly the results that were, changes nothing else (the same messages with the
  same tool calls and results in the same order), and a second pass finds nothing to truncate.
\<close>

theorem emergency_truncation_fits:
  assumes "281 \<le> mx"
    and "\<forall>m\<in>set ms. \<forall>i c e. ToolResult i c e \<in> set (msg_content m) \<longrightarrow> length c < 2 ^ 64"
  shows "let (out, n) = emergency_truncate_tool_results ms mx in
     n = length (filter (oversized mx) (concat (map msg_content ms))) \<and>
     (\<forall>m\<in>set out. \<forall>b\<in>set (msg_content m). \<not> oversized mx b) \<and>
     map (map block_tool_id \<circ> msg_content) out = map (map block_tool_id \<circ> msg_content) ms \<and>
     (n = 0 \<longrightarrow> out = ms) \<and>
     snd (emergency_truncate_tool_results out mx) = 0"
proof -
  let ?out = "map (fst \<circ> truncate_message mx) ms"
  have res: "emergency_truncate_tool_results xs mx =
      (map (fst \<circ> truncate_message mx) xs, length (filter (oversized mx) (concat (map msg_content xs))))" for xs
    by (simp add: emergency_truncate_tool_results_def Let_def comp_def truncate_message_count
        filter_concat length_concat)
  have "case b of ToolResult i c e \<Rightarrow> length c < 2 ^ 64 | _ \<Rightarrow> True"
    if "m \<in> set ms" "b \<in> set (msg_content m)" for m b
  proof (cases b)
    case (ToolResult i c e)
    then show ?thesis using that assms(2) unfolding ToolResult content_block.case by blast
  qed simp_all
  then have fits: "\<forall>m\<in>set ?out. \<forall>b\<in>set (msg_content m). \<not> oversized mx b"
    using truncate_block_fits [OF assms(1)] by (simp add: truncate_message_content)
  moreover have "filter (oversized mx) (concat (map msg_content ?out)) = []"
    using fits by (auto simp: filter_empty_conv)
  moreover have "fst (truncate_message mx m) = m" if "\<forall>b\<in>set (msg_content m). \<not> oversized mx b" for m
    using that by (simp add: truncate_message_def Let_def comp_def truncate_block_facts(3) map_idI)
  moreover have "map (map block_tool_id \<circ> msg_content) ?out = map (map block_tool_id \<circ> msg_content) ms"
    by (simp add: truncate_message_content comp_def truncate_block_facts(1))
  ultimately show ?thesis
    by (auto simp: res filter_empty_conv intro!: map_idI)
qed

theorem emergency_truncation_fits_witness:
  "snd (emergency_truncate_tool_results
     (fst (emergency_truncate_tool_results [tool_result 0 ''c1'' long_output False] 281)) 281) = 0"
proof -
  have "\<forall>m\<in>set [tool_result 0 ''c1'' long_output False].
      \<forall>i c e. ToolResult i c e \<in> set (msg_content m) \<longrightarrow> length c < 2 ^ 64"
    by (simp add: tool_result_def tool_result_with_duration_def long_output_def)
  from emergency_truncation_fits [OF order.refl this] show ?thesis
    by (simp only: case_prod_beta Let_def)
qed

text \<open>
  A compaction prompt that had to be cut exceeds the requested size by at most 18 bytes, and
  a prompt that fits with the reserved overhead stays within it.
\<close>

theorem compaction_prompt_bound:
  assumes "length SUMMARY_PROMPT + 50 < mx"
  shows "length (build_compaction_prompt js ms s mx) \<le> mx + 18 \<and>
    (length (build_compaction_conversation_text js ms s) + length SUMMARY_PROMPT + 50 \<le> mx \<longrightarrow>
       length (build_compaction_prompt js ms s mx) \<le> mx)"
proof -
  let ?t = "truncate_str_boundary (build_compaction_conversation_text js ms s) (mx - (length SUMMARY_PROMPT + 50))"
  have "length ?t + length SUMMARY_PROMPT + 50 \<le> mx"
    using length_truncate [of "build_compaction_conversation_text js ms s" "mx - (length SUMMARY_PROMPT + 50)"]
      assms by linarith
  then show ?thesis
    using assms by (simp add: build_compaction_prompt_def Let_def prompt_truncation_note_def nl_def)
qed

theorem compaction_prompt_bound_witness:
  "length (build_compaction_prompt (\<lambda>j. []) [Message_user 0 (replicate 1000 (CHR ''x''))] None 700) \<le> 718"
proof -
  have "length SUMMARY_PROMPT + 50 < 700" by (simp add: SUMMARY_PROMPT_def nl_def apos_def)
  from compaction_prompt_bound [OF this] show ?thesis by simp
qed

text \<open>
  The requested size is exceeded: a conversation of one user message of 1000 bytes gives a
  prompt of 718 bytes for a limit of 700.
\<close>

theorem compaction_prompt_exceeds_limit:
  "length (build_compaction_prompt (\<lambda>j. []) [Message_user 0 (replicate 1000 (CHR ''x''))] None 700) = 718"
  by code_simp

end
