(* ===== verification/Float_Ops.thy ===== *)
theory Float_Ops
  imports Complex_Main Rust_Prelude
begin

text \<open>
  The floating-point arithmetic that the compaction thresholds use:
  IEEE 754 rounding to nearest, ties to even, of an exact rational result to \<^term>\<open>p::nat\<close> significant
  bits (24 for \<^verbatim>\<open>f32\<close>, 53 for \<^verbatim>\<open>f64\<close>). The exponent is unbounded: the values the code computes from
  token counts and window sizes stay far from overflow and from the subnormal range. A division
  by zero gives the special values of the standard.
\<close>

section \<open>Rounding\<close>

fun bits :: "nat \<Rightarrow> nat" where
  "bits n = (if n = 0 then 0 else Suc (bits (n div 2)))"

declare bits.simps [simp del]

definition half_even :: "rat \<Rightarrow> int" where
  "half_even x =
     (let f = \<lfloor>x\<rfloor>; r = x - of_int f
      in if r < 1/2 then f else if 1/2 < r then f + 1 else if even f then f else f + 1)"

definition rat_exponent :: "rat \<Rightarrow> int" where
  "rat_exponent x =
     (let (n, d) = quotient_of x; k = int (bits (nat n)) - int (bits (nat d))
      in if 2 powi k \<le> x then k else k - 1)"

definition fl :: "nat \<Rightarrow> rat \<Rightarrow> rat" where
  "fl p x =
     (if x = 0 then 0
      else let u = 2 powi (rat_exponent \<bar>x\<bar> - (int p - 1))
           in sgn x * (of_int (half_even (\<bar>x\<bar> / u)) * u))"

abbreviation fl32 :: "rat \<Rightarrow> rat" where "fl32 \<equiv> fl 24"

abbreviation fl64 :: "rat \<Rightarrow> rat" where "fl64 \<equiv> fl 53"

text \<open>A non-negative \<^verbatim>\<open>f32\<close>: finite, infinite, or not a number. Comparisons with a NaN are false.\<close>

datatype float_val = Fin rat | Inf | NaN

fun float_div :: "rat \<Rightarrow> rat \<Rightarrow> float_val" where
  "float_div a b = (if b = 0 then (if a = 0 then NaN else Inf) else Fin (fl32 (a / b)))"

fun float_ge :: "float_val \<Rightarrow> rat \<Rightarrow> bool" where
  "float_ge (Fin a) b \<longleftrightarrow> b \<le> a"
| "float_ge Inf b \<longleftrightarrow> True"
| "float_ge NaN b \<longleftrightarrow> False"

fun float_lt :: "float_val \<Rightarrow> rat \<Rightarrow> bool" where
  "float_lt (Fin a) b \<longleftrightarrow> a < b"
| "float_lt Inf b \<longleftrightarrow> False"
| "float_lt NaN b \<longleftrightarrow> False"

section \<open>Facts about rounding\<close>

lemma bits_bounds: "0 < n \<Longrightarrow> 2 ^ (bits n - 1) \<le> n \<and> n < 2 ^ bits n \<and> 0 < bits n"
proof (induction n rule: bits.induct)
  case (1 n)
  show ?case
  proof (cases "n div 2 = 0")
    case True
    with 1(2) have "n = 1" by linarith
    moreover have "bits (Suc 0) = 1" by (subst bits.simps) (simp add: bits.simps[of 0])
    ultimately show ?thesis by simp
  next
    case False
    with 1 have ih: "2 ^ (bits (n div 2) - 1) \<le> n div 2" "n div 2 < 2 ^ bits (n div 2)" "0 < bits (n div 2)"
      by simp_all
    have b: "bits n = Suc (bits (n div 2))" using 1(2) by (simp add: bits.simps[of n])
    have "(2::nat) ^ bits (n div 2) = 2 * 2 ^ (bits (n div 2) - 1)" using ih(3) by (cases "bits (n div 2)") auto
    with ih(1,2) have "2 ^ bits (n div 2) \<le> n" "n < 2 * 2 ^ bits (n div 2)" by linarith+
    then show ?thesis by (simp add: b)
  qed
qed

lemma half_even_cases: "\<exists>k::int. half_even x = k \<and> x - 1/2 \<le> of_int k \<and> of_int k \<le> x + 1/2"
  unfolding half_even_def Let_def by (rule exI, rule conjI, rule refl) (auto; linarith)

lemma half_even_bounds: "x - 1/2 \<le> of_int (half_even x)" "of_int (half_even x) \<le> x + 1/2"
  using half_even_cases[of x] by auto

lemma half_even_of_int [simp]: "half_even (of_int k) = k"
  by (simp add: half_even_def)

lemma half_even_eqI: "x - 1/2 < of_int k \<Longrightarrow> of_int k < x + 1/2 \<Longrightarrow> half_even x = k"
proof -
  assume "x - 1/2 < of_int k" "of_int k < x + 1/2"
  with half_even_bounds[of x] have "\<bar>of_int (half_even x) - of_int k :: rat\<bar> < 1" by linarith
  then have "\<bar>half_even x - k\<bar> < 1" by (simp flip: of_int_diff of_int_abs)
  then show ?thesis by simp
qed

lemma half_even_mono: "x \<le> y \<Longrightarrow> half_even x \<le> half_even y"
proof -
  assume le: "x \<le> y"
  then have fl: "\<lfloor>x\<rfloor> \<le> \<lfloor>y\<rfloor>" by (rule floor_mono)
  show ?thesis
  proof (cases "\<lfloor>x\<rfloor> = \<lfloor>y\<rfloor>")
    case True
    with le show ?thesis by (auto simp: half_even_def Let_def)
  next
    case False
    with fl have "\<lfloor>x\<rfloor> + 1 \<le> \<lfloor>y\<rfloor>" by simp
    moreover have "half_even x \<le> \<lfloor>x\<rfloor> + 1" "\<lfloor>y\<rfloor> \<le> half_even y" by (auto simp: half_even_def Let_def)
    ultimately show ?thesis by linarith
  qed
qed

lemma powi_two_add: "(2::rat) powi (a + b) = 2 powi a * 2 powi b"
  by (simp add: power_int_add)

lemma powi_two_pos [simp]: "0 < (2::rat) powi k"
  by simp

lemma powi_two_less: "(2::rat) powi a < 2 powi b \<Longrightarrow> a < b"
proof (rule ccontr)
  assume "(2::rat) powi a < 2 powi b" "\<not> a < b"
  moreover from this(2) have "(2::rat) powi b \<le> 2 powi a" by (intro power_int_increasing) auto
  ultimately show False by simp
qed

lemma rat_exponent_bounds:
  assumes "0 < x"
  shows "2 powi (rat_exponent x) \<le> x" "x < 2 powi (rat_exponent x + 1)"
proof -
  obtain n d where q: "quotient_of x = (n, d)" by fastforce
  have d: "0 < d" using q quotient_of_denom_pos by simp
  have x: "x = of_int n / of_int d" by (rule quotient_of_div[OF q])
  have n: "0 < n" using assms d by (simp add: x zero_less_divide_iff)
  let ?a = "bits (nat n)" and ?b = "bits (nat d)"
  have bn: "2 ^ (?a - 1) \<le> nat n" "nat n < 2 ^ ?a" "0 < ?a" using bits_bounds[of "nat n"] n by auto
  have bd: "2 ^ (?b - 1) \<le> nat d" "nat d < 2 ^ ?b" "0 < ?b" using bits_bounds[of "nat d"] d by auto
  have nr: "(2::rat) powi (int ?a - 1) \<le> of_int n" "of_int n < (2::rat) powi (int ?a)"
  proof -
    have "(2::rat) ^ (?a - 1) \<le> of_nat (nat n)" using bn(1) by (metis of_nat_le_iff of_nat_numeral of_nat_power)
    then show "(2::rat) powi (int ?a - 1) \<le> of_int n" using n bn(3)
      by (metis One_nat_def Suc_leI int_ops(2) of_nat_diff of_nat_nat order_less_imp_le power_int_of_nat of_int_of_nat_eq)
    have "of_nat (nat n) < (2::rat) ^ ?a" using bn(2) by (metis of_nat_less_iff of_nat_numeral of_nat_power)
    then show "of_int n < (2::rat) powi (int ?a)" using n by (simp add: power_int_def)
  qed
  have dr: "(2::rat) powi (int ?b - 1) \<le> of_int d" "of_int d < (2::rat) powi (int ?b)"
  proof -
    have "(2::rat) ^ (?b - 1) \<le> of_nat (nat d)" using bd(1) by (metis of_nat_le_iff of_nat_numeral of_nat_power)
    then show "(2::rat) powi (int ?b - 1) \<le> of_int d" using d bd(3)
      by (metis One_nat_def Suc_leI int_ops(2) of_nat_diff of_nat_nat order_less_imp_le power_int_of_nat of_int_of_nat_eq)
    have "of_nat (nat d) < (2::rat) ^ ?b" using bd(2) by (metis of_nat_less_iff of_nat_numeral of_nat_power)
    then show "of_int d < (2::rat) powi (int ?b)" using d by (simp add: power_int_def)
  qed
  define k where "k = int ?a - int ?b"
  have low: "2 powi (k - 1) \<le> x"
  proof -
    have "(2::rat) powi (k - 1) * 2 powi (int ?b) = 2 powi (int ?a - 1)"
      unfolding powi_two_add[symmetric] by (simp add: k_def)
    moreover have "2 powi (k - 1) * of_int d \<le> (2::rat) powi (k - 1) * 2 powi (int ?b)"
      using dr(2) by (intro mult_left_mono) auto
    ultimately show ?thesis using nr(1) d by (simp add: x field_simps)
  qed
  have up: "x < 2 powi (k + 1)"
  proof -
    have "(2::rat) powi (k + 1) * 2 powi (int ?b - 1) = 2 powi (int ?a)"
      unfolding powi_two_add[symmetric] by (simp add: k_def)
    moreover have "(2::rat) powi (k + 1) * 2 powi (int ?b - 1) \<le> 2 powi (k + 1) * of_int d"
      using dr(1) by (intro mult_left_mono) auto
    ultimately have "of_int n < 2 powi (k + 1) * (of_int d :: rat)" using nr(2) by linarith
    then show ?thesis using d by (simp add: x pos_divide_less_eq)
  qed
  have "rat_exponent x = (if 2 powi k \<le> x then k else k - 1)"
    by (simp add: rat_exponent_def q k_def)
  then show "2 powi (rat_exponent x) \<le> x" "x < 2 powi (rat_exponent x + 1)"
    using low up by (auto split: if_splits)
qed

lemma rat_exponent_unique:
  assumes "2 powi e \<le> x" "x < 2 powi (e + 1)"
  shows "rat_exponent x = e"
proof -
  have "0 < x" using assms(1) powi_two_pos[of e] by linarith
  note b = rat_exponent_bounds[OF this]
  have "(2::rat) powi e < 2 powi (rat_exponent x + 1)" "(2::rat) powi (rat_exponent x) < 2 powi (e + 1)"
    using assms b by linarith+
  then have "e < rat_exponent x + 1" "rat_exponent x < e + 1"
    by (simp_all only: powi_two_less)
  then show ?thesis by simp
qed

lemma fl_binade:
  assumes "2 powi e \<le> x" "x < 2 powi (e + 1)"
  shows "fl p x = of_int (half_even (x / 2 powi (e - (int p - 1)))) * 2 powi (e - (int p - 1))"
proof -
  have "0 < x" using assms(1) powi_two_pos[of e] by linarith
  then show ?thesis using rat_exponent_unique[OF assms] by (simp add: fl_def Let_def)
qed

lemma fl_in_binade:
  assumes "2 powi e \<le> x" "x < 2 powi (e + 1)" "0 < p"
  shows "2 powi e \<le> fl p x" "fl p x \<le> 2 powi (e + 1)"
proof -
  define u :: rat where "u = 2 powi (e - (int p - 1))"
  have u: "0 < u" by (simp add: u_def)
  have e0: "2 powi e = of_int (2 ^ (p - 1)) * u"
  proof -
    have "(of_int (2 ^ (p - 1)) :: rat) = 2 powi (int p - 1)" using assms(3)
      by (simp add: power_int_def nat_diff_distrib)
    then show ?thesis by (simp add: u_def flip: powi_two_add)
  qed
  have e1: "2 powi (e + 1) = of_int (2 ^ p) * u"
    using e0 assms(3) by (cases p) (simp_all add: powi_two_add)
  have "of_int (2 ^ (p - 1)) \<le> x / u" "x / u \<le> of_int (2 ^ p)"
    using assms(1,2) u by (simp_all only: e0 e1 pos_le_divide_eq pos_divide_le_eq)
  from this[THEN half_even_mono] have "2 ^ (p - 1) \<le> half_even (x / u)" "half_even (x / u) \<le> 2 ^ p"
    by (simp_all only: half_even_of_int)
  then have "of_int (2 ^ (p - 1)) * u \<le> of_int (half_even (x / u)) * u"
    "of_int (half_even (x / u)) * u \<le> of_int (2 ^ p) * u"
    using u by (simp_all only: mult_le_cancel_right_pos of_int_le_iff)
  then show "2 powi e \<le> fl p x" "fl p x \<le> 2 powi (e + 1)"
    unfolding fl_binade[OF assms(1,2)] e0 e1 u_def .
qed

lemma fl_0 [simp]: "fl p 0 = 0"
  by (simp add: fl_def)

lemma fl_mono:
  assumes "0 \<le> x" "x \<le> y" "0 < p"
  shows "fl p x \<le> fl p y"
proof (cases "x = 0")
  case True
  show ?thesis
  proof (cases "y = 0")
    case False
    with assms True have "0 < y" by simp
    note b = rat_exponent_bounds[OF this]
    have "0 < (2::rat) powi rat_exponent y" by simp
    with fl_in_binade(1)[OF b assms(3)] have "0 \<le> fl p y" by linarith
    with True show ?thesis by simp
  qed (simp add: True)
next
  case False
  with assms have pos: "0 < x" "0 < y" by auto
  note bx = rat_exponent_bounds[OF pos(1)] and by_ = rat_exponent_bounds[OF pos(2)]
  let ?e = "rat_exponent x" and ?f = "rat_exponent y"
  have "(2::rat) powi ?e < 2 powi (?f + 1)" using bx(1) by_(2) assms(2) by linarith
  then have "?e < ?f + 1" by (rule powi_two_less)
  then consider "?e = ?f" | "?e + 1 \<le> ?f" by linarith
  then show ?thesis
  proof cases
    case 1
    have "half_even (x / 2 powi (?f - (int p - 1))) \<le> half_even (y / 2 powi (?f - (int p - 1)))"
      using assms(2) by (intro half_even_mono divide_right_mono) auto
    then show ?thesis
      unfolding fl_binade[OF bx] fl_binade[OF by_] 1 by (intro mult_right_mono) auto
  next
    case 2
    then have "(2::rat) powi (?e + 1) \<le> 2 powi ?f" by (intro power_int_increasing) auto
    then show ?thesis using fl_in_binade[OF bx assms(3)] fl_in_binade[OF by_ assms(3)] by linarith
  qed
qed

lemma fl_of_nat: "n < 2 ^ p \<Longrightarrow> 0 < p \<Longrightarrow> fl p (of_nat n) = of_nat n"
proof (cases "n = 0")
  case False
  assume n: "n < 2 ^ p" and p: "0 < p"
  let ?x = "of_nat n :: rat"
  from False have pos: "0 < ?x" by simp
  note b = rat_exponent_bounds[OF pos]
  let ?e = "rat_exponent ?x"
  have "?x < 2 powi (int p)" using n by (metis of_nat_less_iff of_nat_numeral of_nat_power power_int_of_nat)
  with b(1) have "(2::rat) powi ?e < 2 powi (int p)" by linarith
  then have "?e < int p" by (rule powi_two_less)
  then obtain k where k: "int k = int p - 1 - ?e" by (metis zle_diff1_eq nonneg_int_cases diff_ge_0_iff_ge)
  have "?x / 2 powi (?e - (int p - 1)) = of_int (int n * 2 ^ k)"
  proof -
    have "(2::rat) powi (?e - (int p - 1)) = inverse (2 ^ k)"
      using k by (metis minus_diff_eq diff_diff_eq2 diff_minus_eq_add power_int_minus power_int_of_nat
          add.commute add_uminus_conv_diff)
    then show ?thesis by (simp add: divide_inverse)
  qed
  then have "half_even (?x / 2 powi (?e - (int p - 1))) = int n * 2 ^ k" by (simp only: half_even_of_int)
  then have "fl p ?x = of_int (int n * 2 ^ k) * 2 powi (?e - (int p - 1))"
    unfolding fl_binade[OF b] by simp
  also have "\<dots> = ?x" using \<open>?x / 2 powi (?e - (int p - 1)) = of_int (int n * 2 ^ k)\<close>
    by (metis powi_two_pos less_irrefl nonzero_eq_divide_eq)
  finally show ?thesis .
qed simp

end
