(* ===== verification/Compaction_Manager.thy ===== *)
theory Compaction_Manager
  imports Compaction Float_Ops
begin

text \<open>
  The compaction manager of a session (\<^verbatim>\<open>src/src/compaction.rs\<close>): which leading messages of a
  conversation are replaced by a summary, the rolling size estimate, the background task that
  writes the summary, the three triggers, the emergency compaction, and the messages sent to the
  provider. The manager holds no messages; every operation takes the caller's list.

  The background task is a record of what it was started with and, once it ran, its outcome;
  \<^verbatim>\<open>run_task\<close> is its body. The provider, the embedding model with its vector operations, the
  hasher of the cache keys and the two text predicates of \<^verbatim>\<open>Compaction\<close> are parameters, collected in
  records. \<^verbatim>\<open>None\<close> is a panic.
\<close>

section \<open>Definitions\<close>

definition COMPACTION_THRESHOLD :: rat where
  "COMPACTION_THRESHOLD = fl32 (80 / 100)"

definition CRITICAL_THRESHOLD :: rat where
  "CRITICAL_THRESHOLD = fl32 (95 / 100)"

definition MANUAL_COMPACT_MIN_THRESHOLD :: rat where
  "MANUAL_COMPACT_MIN_THRESHOLD = fl32 (10 / 100)"

definition RECENT_TURNS_TO_KEEP :: nat where
  "RECENT_TURNS_TO_KEEP = 10"

definition MIN_TURNS_TO_KEEP :: nat where
  "MIN_TURNS_TO_KEEP = 2"

definition TOKEN_HISTORY_WINDOW :: nat where
  "TOKEN_HISTORY_WINDOW = 20"

definition EMBEDDING_HISTORY_WINDOW :: nat where
  "EMBEDDING_HISTORY_WINDOW = 10"

definition SEMANTIC_EMBED_CACHE_CAPACITY :: nat where
  "SEMANTIC_EMBED_CACHE_CAPACITY = 256"

definition OPENAI_ENCRYPTED_CONTENT_PROVIDER_MAX_CHARS :: nat where
  "OPENAI_ENCRYPTED_CONTENT_PROVIDER_MAX_CHARS = 10485760"

definition OPENAI_ENCRYPTED_CONTENT_SAFE_MAX_CHARS :: nat where
  "OPENAI_ENCRYPTED_CONTENT_SAFE_MAX_CHARS = 9500000"

definition openai_encrypted_content_is_sendable :: "string \<Rightarrow> bool" where
  "openai_encrypted_content_is_sendable encrypted_content \<longleftrightarrow>
     length encrypted_content \<le> OPENAI_ENCRYPTED_CONTENT_SAFE_MAX_CHARS"

definition openai_encrypted_content_fallback_summary :: "nat \<Rightarrow> string" where
  "openai_encrypted_content_fallback_summary encrypted_content_len =
     ''OpenAI native compaction state was discarded because its encrypted payload was '' @
     show_nat encrypted_content_len @ '' chars, above Jcode'' @ apos @ ''s safe replay limit of '' @
     show_nat OPENAI_ENCRYPTED_CONTENT_SAFE_MAX_CHARS @ '' chars (provider hard limit: '' @
     show_nat OPENAI_ENCRYPTED_CONTENT_PROVIDER_MAX_CHARS @
     '' chars). Earlier compacted details may be unavailable; use the recent visible messages and session search/tools if exact prior details are needed.''"

subsection \<open>Configuration and state\<close>

datatype compaction_mode = Reactive | Proactive | Semantic

fun CompactionMode_as_str :: "compaction_mode \<Rightarrow> string" where
  "CompactionMode_as_str Reactive = ''reactive''"
| "CompactionMode_as_str Proactive = ''proactive''"
| "CompactionMode_as_str Semantic = ''semantic''"

record compaction_config =
  cc_mode :: compaction_mode
  cc_lookahead_turns :: nat
  cc_ewma_alpha :: rat
  cc_proactive_floor :: rat
  cc_min_samples :: nat
  cc_stall_window :: nat
  cc_min_turns_between_compactions :: nat
  cc_topic_shift_threshold :: rat
  cc_relevance_keep_threshold :: rat
  cc_goal_window_turns :: nat

definition CompactionConfig_default :: compaction_config where
  "CompactionConfig_default =
     \<lparr>cc_mode = Reactive, cc_lookahead_turns = 15, cc_ewma_alpha = fl32 (3 / 10),
      cc_proactive_floor = fl32 (40 / 100), cc_min_samples = 3, cc_stall_window = 5,
      cc_min_turns_between_compactions = 10, cc_topic_shift_threshold = fl32 (45 / 100),
      cc_relevance_keep_threshold = fl32 (65 / 100), cc_goal_window_turns = 5\<rparr>"

record compaction_result =
  cr_summary_text :: string
  cr_openai_encrypted_content :: "string option"
  cr_covers_up_to_turn :: nat
  cr_duration_ms :: u64
  cr_summarized_messages :: nat

text \<open>How the task ended: a result, an error of the provider, or a panic of the task.\<close>

datatype task_outcome = TaskOk compaction_result | TaskErr string | TaskPanic string

record bg_task =
  bt_messages :: "message list"
  bt_summary :: "summary option"
  bt_outcome :: "task_outcome option"

record stored_compaction =
  sc_summary_text :: string
  sc_openai_encrypted_content :: "string option"
  sc_covers_up_to_turn :: nat
  sc_original_turn_count :: nat
  sc_compacted_count :: nat

record 'e compaction_manager =
  cm_compacted_count :: nat
  cm_active_summary :: "summary option"
  cm_active_message_chars :: nat
  cm_active_message_chars_dirty :: bool
  cm_pending_task :: "bg_task option"
  cm_pending_trigger :: "string option"
  cm_pending_cutoff :: nat
  cm_total_turns :: nat
  cm_suppress :: bool
  cm_token_budget :: nat
  cm_observed_input_tokens :: "u64 option"
  cm_last_compaction :: "compaction_event option"
  cm_mode :: compaction_mode
  cm_config :: compaction_config
  cm_token_history :: "u64 list"
  cm_turns_since_last_compact :: nat
  cm_embedding_history :: "'e list"
  cm_semantic_cache :: "(u64, 'e option \<times> u64) hmap"
  cm_semantic_counter :: u64

text \<open>The parameters: text predicates, the embedding model, the hasher, and the provider.\<close>

record 'e compaction_env =
  env_json_str :: "json \<Rightarrow> string"
  env_alphanumeric :: "string \<Rightarrow> bool"
  env_embed :: "string \<Rightarrow> 'e option"
  env_mean_embedding :: "'e list \<Rightarrow> 'e"
  env_cosine :: "'e \<Rightarrow> 'e \<Rightarrow> rat"
  env_cache_key :: "string \<Rightarrow> u64"

record native_result =
  nr_summary_text :: "string option"
  nr_openai_encrypted_content :: "string option"

record provider =
  pv_native_compact :: "message list \<Rightarrow> string option \<Rightarrow> string option \<Rightarrow> native_result option"
  pv_context_window :: nat
  pv_complete_simple :: "string \<Rightarrow> string \<Rightarrow> string + string"

definition CompactionManager_new :: "compaction_config \<Rightarrow> 'e compaction_manager" where
  "CompactionManager_new cfg =
     \<lparr>cm_compacted_count = 0, cm_active_summary = None, cm_active_message_chars = 0,
      cm_active_message_chars_dirty = False, cm_pending_task = None, cm_pending_trigger = None,
      cm_pending_cutoff = 0, cm_total_turns = 0, cm_suppress = False,
      cm_token_budget = DEFAULT_TOKEN_BUDGET, cm_observed_input_tokens = None,
      cm_last_compaction = None, cm_mode = cc_mode cfg, cm_config = cfg, cm_token_history = [],
      cm_turns_since_last_compact = 0, cm_embedding_history = [], cm_semantic_cache = [],
      cm_semantic_counter = 0\<rparr>"

subsection \<open>Messages that arrive and histories that are restored\<close>

definition set_budget :: "nat \<Rightarrow> 'e compaction_manager \<Rightarrow> 'e compaction_manager" where
  "set_budget budget m = m\<lparr>cm_token_budget := budget\<rparr>"

definition notify_message_added :: "'e compaction_manager \<Rightarrow> 'e compaction_manager" where
  "notify_message_added m =
     m\<lparr>cm_total_turns := cm_total_turns m + 1, cm_suppress := False,
       cm_active_message_chars_dirty := True\<rparr>"

definition notify_message_added_blocks ::
  "'e compaction_env \<Rightarrow> content_block list \<Rightarrow> 'e compaction_manager \<Rightarrow> 'e compaction_manager" where
  "notify_message_added_blocks env content m =
     m\<lparr>cm_total_turns := cm_total_turns m + 1, cm_suppress := False,
       cm_active_message_chars := cm_active_message_chars m + content_char_count (env_json_str env) content,
       cm_active_message_chars_dirty := False\<rparr>"

definition notify_message_added_with ::
  "'e compaction_env \<Rightarrow> message \<Rightarrow> 'e compaction_manager \<Rightarrow> 'e compaction_manager" where
  "notify_message_added_with env message = notify_message_added_blocks env (msg_content message)"

definition seed_restored_messages :: "nat \<Rightarrow> 'e compaction_manager \<Rightarrow> 'e compaction_manager" where
  "seed_restored_messages n m =
     m\<lparr>cm_total_turns := n, cm_suppress := n > 0, cm_active_message_chars := 0,
       cm_active_message_chars_dirty := n > 0\<rparr>"

definition seed_restored_messages_with ::
  "'e compaction_env \<Rightarrow> message list \<Rightarrow> 'e compaction_manager \<Rightarrow> 'e compaction_manager" where
  "seed_restored_messages_with env all_messages m =
     m\<lparr>cm_total_turns := length all_messages, cm_suppress := all_messages \<noteq> [],
       cm_active_message_chars := sum_list (map (message_char_count (env_json_str env)) all_messages),
       cm_active_message_chars_dirty := False\<rparr>"

text \<open>The same from the contents of the session's stored messages.\<close>

definition seed_restored_stored_messages_with ::
  "'e compaction_env \<Rightarrow> content_block list list \<Rightarrow> 'e compaction_manager \<Rightarrow> 'e compaction_manager" where
  "seed_restored_stored_messages_with env contents m =
     m\<lparr>cm_total_turns := length contents, cm_suppress := contents \<noteq> [],
       cm_active_message_chars := sum_list (map (content_char_count (env_json_str env)) contents),
       cm_active_message_chars_dirty := False\<rparr>"

definition restore_persisted_state ::
  "stored_compaction \<Rightarrow> nat \<Rightarrow> 'e compaction_manager \<Rightarrow> 'e compaction_manager" where
  "restore_persisted_state state total_messages m =
     (let compacted = min (sc_compacted_count state) total_messages
      in m\<lparr>cm_pending_task := None, cm_pending_trigger := None, cm_pending_cutoff := 0,
           cm_observed_input_tokens := None, cm_last_compaction := None, cm_token_history := [],
           cm_turns_since_last_compact := 0, cm_embedding_history := [], cm_semantic_cache := [],
           cm_semantic_counter := 0, cm_total_turns := total_messages,
           cm_compacted_count := compacted, cm_active_message_chars := 0,
           cm_active_message_chars_dirty := total_messages > compacted,
           cm_active_summary := Some \<lparr>sum_text = sc_summary_text state,
             sum_openai_encrypted_content = sc_openai_encrypted_content state,
             sum_covers_up_to_turn = sc_covers_up_to_turn state,
             sum_original_turn_count = sc_original_turn_count state\<rparr>,
           cm_suppress := total_messages > 0\<rparr>)"

definition active_messages :: "'e compaction_manager \<Rightarrow> message list \<Rightarrow> message list" where
  "active_messages m all_messages =
     (if cm_compacted_count m \<le> length all_messages then drop (cm_compacted_count m) all_messages
      else all_messages)"

definition restore_persisted_state_with ::
  "'e compaction_env \<Rightarrow> stored_compaction \<Rightarrow> message list \<Rightarrow> 'e compaction_manager \<Rightarrow> 'e compaction_manager" where
  "restore_persisted_state_with env state all_messages m =
     (let m = restore_persisted_state state (length all_messages) m
      in m\<lparr>cm_active_message_chars :=
             sum_list (map (message_char_count (env_json_str env)) (active_messages m all_messages)),
           cm_active_message_chars_dirty := False\<rparr>)"

definition restore_persisted_stored_state_with ::
  "'e compaction_env \<Rightarrow> stored_compaction \<Rightarrow> content_block list list \<Rightarrow> 'e compaction_manager \<Rightarrow> 'e compaction_manager" where
  "restore_persisted_stored_state_with env state contents m =
     (let m = restore_persisted_state state (length contents) m;
          start = min (cm_compacted_count m) (length contents)
      in m\<lparr>cm_active_message_chars := sum_list (map (content_char_count (env_json_str env)) (drop start contents)),
           cm_active_message_chars_dirty := False\<rparr>)"

definition persisted_state :: "'e compaction_manager \<Rightarrow> stored_compaction option" where
  "persisted_state m =
     map_option (\<lambda>s. \<lparr>sc_summary_text = sum_text s,
         sc_openai_encrypted_content = sum_openai_encrypted_content s,
         sc_covers_up_to_turn = sum_covers_up_to_turn s,
         sc_original_turn_count = sum_original_turn_count s,
         sc_compacted_count = cm_compacted_count m\<rparr>) (cm_active_summary m)"

definition native_discarded_note :: string where
  "native_discarded_note = ''OpenAI native compaction state was discarded''"

text \<open>The summary with its native payload replaced by a text.\<close>

definition text_fallback :: "nat \<Rightarrow> summary \<Rightarrow> summary" where
  "text_fallback encrypted_content_len s =
     (let fallback = openai_encrypted_content_fallback_summary encrypted_content_len
      in s\<lparr>sum_openai_encrypted_content := None,
           sum_text := (if trim (sum_text s) = [] then fallback
                        else if \<not> str_contains native_discarded_note (sum_text s)
                        then sum_text s @ nl @ nl @ fallback
                        else sum_text s)\<rparr>)"

definition oversized_payload :: "summary \<Rightarrow> nat option" where
  "oversized_payload s =
     (case sum_openai_encrypted_content s of
        Some c \<Rightarrow> if openai_encrypted_content_is_sendable c then None else Some (length c)
      | None \<Rightarrow> None)"

definition discard_oversized_openai_native_compaction ::
  "'e compaction_manager \<Rightarrow> 'e compaction_manager \<times> bool" where
  "discard_oversized_openai_native_compaction m =
     (case Option.bind (cm_active_summary m) oversized_payload of
        None \<Rightarrow> (m, False)
      | Some n \<Rightarrow>
          (m\<lparr>cm_active_summary := map_option (text_fallback n) (cm_active_summary m),
             cm_observed_input_tokens := None\<rparr>, True))"

subsection \<open>The embedding cache\<close>

definition least_recent :: "(u64, 'e option \<times> u64) hmap \<Rightarrow> u64 option" where
  "least_recent cache =
     (case cache of [] \<Rightarrow> None
      | (k, _, r) # rest \<Rightarrow>
          Some (fst (fold (\<lambda>(k, _, r) best. if r < snd best then (k, r) else best) rest (k, r))))"

definition insert_semantic_embedding_cache ::
  "u64 \<Rightarrow> 'e option \<Rightarrow> 'e compaction_manager \<Rightarrow> 'e compaction_manager" where
  "insert_semantic_embedding_cache key embedding m =
     (let cache = cm_semantic_cache m;
          cache = (if length cache \<ge> SEMANTIC_EMBED_CACHE_CAPACITY
                   then (case least_recent cache of Some k \<Rightarrow> hdel k cache | None \<Rightarrow> cache)
                   else cache)
      in m\<lparr>cm_semantic_cache := hput key (embedding, cm_semantic_counter m) cache,
           cm_semantic_counter := cm_semantic_counter m + 1\<rparr>)"

definition cached_semantic_embedding ::
  "'e compaction_env \<Rightarrow> string \<Rightarrow> 'e compaction_manager \<Rightarrow> 'e option \<times> 'e compaction_manager" where
  "cached_semantic_embedding env text m =
     (let key = env_cache_key env text
      in case hget (cm_semantic_cache m) key of
           Some (cached, recency) \<Rightarrow>
             (cached, m\<lparr>cm_semantic_counter := cm_semantic_counter m + 1,
                        cm_semantic_cache := hput key (cached, cm_semantic_counter m) (cm_semantic_cache m)\<rparr>)
         | None \<Rightarrow>
             let embedding = env_embed env text
             in (embedding, insert_semantic_embedding_cache key embedding m))"

text \<open>A bounded window: the oldest entry goes when the window is exceeded.\<close>

definition push_window :: "nat \<Rightarrow> 'a \<Rightarrow> 'a list \<Rightarrow> 'a list" where
  "push_window n x xs = (let xs = xs @ [x] in if length xs > n then tl xs else xs)"

definition push_token_snapshot :: "u64 \<Rightarrow> 'e compaction_manager \<Rightarrow> 'e compaction_manager" where
  "push_token_snapshot tokens m =
     m\<lparr>cm_token_history := push_window TOKEN_HISTORY_WINDOW tokens (cm_token_history m),
       cm_turns_since_last_compact := cm_turns_since_last_compact m + 1\<rparr>"

definition push_embedding_snapshot ::
  "'e compaction_env \<Rightarrow> string \<Rightarrow> 'e compaction_manager \<Rightarrow> 'e compaction_manager" where
  "push_embedding_snapshot env text m =
     (case cached_semantic_embedding env (take_chars EMBED_MAX_CHARS_PER_MSG text) m of
        (Some emb, m) \<Rightarrow>
          m\<lparr>cm_embedding_history := push_window EMBEDDING_HISTORY_WINDOW emb (cm_embedding_history m)\<rparr>
      | (None, m) \<Rightarrow> m)"

subsection \<open>Size estimates\<close>

definition active_messages_count :: "'e compaction_manager \<Rightarrow> nat" where
  "active_messages_count m = cm_total_turns m - cm_compacted_count m"

definition active_message_chars_with ::
  "'e compaction_env \<Rightarrow> 'e compaction_manager \<Rightarrow> message list \<Rightarrow> nat" where
  "active_message_chars_with env m all_messages =
     (if cm_active_message_chars_dirty m \<or>
         active_messages_count m \<noteq> length (active_messages m all_messages)
      then sum_list (map (message_char_count (env_json_str env)) (active_messages m all_messages))
      else cm_active_message_chars m)"

definition token_estimate_with :: "'e compaction_env \<Rightarrow> 'e compaction_manager \<Rightarrow> message list \<Rightarrow> nat" where
  "token_estimate_with env m all_messages =
     estimate_compaction_tokens (cm_active_summary m) (active_message_chars_with env m all_messages)
       (cm_token_budget m)"

definition token_estimate :: "'e compaction_manager \<Rightarrow> nat" where
  "token_estimate m = estimate_compaction_tokens (cm_active_summary m) 0 (cm_token_budget m)"

definition update_observed_input_tokens :: "u64 \<Rightarrow> 'e compaction_manager \<Rightarrow> 'e compaction_manager" where
  "update_observed_input_tokens tokens m = m\<lparr>cm_observed_input_tokens := Some tokens\<rparr>"

definition observed_tokens :: "'e compaction_manager \<Rightarrow> nat" where
  "observed_tokens m = (case cm_observed_input_tokens m of Some t \<Rightarrow> unat t | None \<Rightarrow> 0)"

definition effective_token_count_with ::
  "'e compaction_env \<Rightarrow> 'e compaction_manager \<Rightarrow> message list \<Rightarrow> nat" where
  "effective_token_count_with env m all_messages =
     max (token_estimate_with env m all_messages) (observed_tokens m)"

definition effective_token_count :: "'e compaction_manager \<Rightarrow> nat" where
  "effective_token_count m = max (token_estimate m) (observed_tokens m)"

text \<open>A count as an \<^verbatim>\<open>f32\<close> over the budget as an \<^verbatim>\<open>f32\<close>.\<close>

definition usage_of :: "nat \<Rightarrow> nat \<Rightarrow> float_val" where
  "usage_of tokens budget = float_div (fl32 (of_nat tokens)) (fl32 (of_nat budget))"

definition context_usage_with :: "'e compaction_env \<Rightarrow> 'e compaction_manager \<Rightarrow> message list \<Rightarrow> float_val" where
  "context_usage_with env m all_messages =
     usage_of (effective_token_count_with env m all_messages) (cm_token_budget m)"

definition context_usage :: "'e compaction_manager \<Rightarrow> float_val" where
  "context_usage m = usage_of (effective_token_count m) (cm_token_budget m)"

subsection \<open>The triggers\<close>

definition f64_of_u64 :: "u64 \<Rightarrow> rat" where
  "f64_of_u64 t = fl64 (of_nat (unat t))"

text \<open>Guards of the proactive and semantic modes; an empty stall window makes the code index an empty vector.\<close>

definition anti_signals_block :: "'e compaction_env \<Rightarrow> 'e compaction_manager \<Rightarrow> message list \<Rightarrow> bool option" where
  "anti_signals_block env m all_messages =
     (let cfg = cm_config m; history = cm_token_history m in
      if cm_pending_task m \<noteq> None then Some True
      else if float_lt (context_usage_with env m all_messages) (cc_proactive_floor cfg) then Some True
      else if length history < cc_min_samples cfg then Some True
      else if length history \<ge> cc_stall_window cfg then
        (let recent = take (cc_stall_window cfg) (rev history) in
         if recent = [] then None
         else if hd recent \<le> last recent then Some True
         else Some (cm_turns_since_last_compact m < cc_min_turns_between_compactions cfg))
      else Some (cm_turns_since_last_compact m < cc_min_turns_between_compactions cfg))"

definition token_delta :: "u64 \<Rightarrow> u64 \<Rightarrow> rat" where
  "token_delta previous current = max (fl64 (f64_of_u64 current - f64_of_u64 previous)) 0"

fun ewma_loop :: "rat \<Rightarrow> rat \<Rightarrow> u64 \<Rightarrow> u64 list \<Rightarrow> rat" where
  "ewma_loop alpha ewma previous [] = ewma"
| "ewma_loop alpha ewma previous (s # snapshots) =
     ewma_loop alpha
       (fl64 (fl64 (alpha * token_delta previous s) + fl64 (fl64 (1 - alpha) * ewma))) s snapshots"

definition projected_tokens :: "compaction_config \<Rightarrow> u64 list \<Rightarrow> rat" where
  "projected_tokens cfg snapshots =
     (let first = snapshots ! 0; second = snapshots ! 1;
          ewma = ewma_loop (cc_ewma_alpha cfg) (token_delta first second) second (drop 2 snapshots)
      in fl64 (f64_of_u64 (last snapshots) + fl64 (ewma * fl64 (of_nat (cc_lookahead_turns cfg)))))"

definition should_compact_proactively ::
  "'e compaction_env \<Rightarrow> 'e compaction_manager \<Rightarrow> message list \<Rightarrow> bool option" where
  "should_compact_proactively env m all_messages =
     (case anti_signals_block env m all_messages of
        None \<Rightarrow> None
      | Some True \<Rightarrow> Some False
      | Some False \<Rightarrow>
          if length (cm_token_history m) < 2 then Some False
          else Some (fl64 (COMPACTION_THRESHOLD * fl64 (of_nat (cm_token_budget m)))
                       \<le> projected_tokens (cm_config m) (cm_token_history m)))"

definition should_compact_semantic ::
  "'e compaction_env \<Rightarrow> 'e compaction_manager \<Rightarrow> message list \<Rightarrow> bool option" where
  "should_compact_semantic env m all_messages =
     (case anti_signals_block env m all_messages of
        None \<Rightarrow> None
      | Some True \<Rightarrow> Some False
      | Some False \<Rightarrow>
          (let history = cm_embedding_history m; half = length history div 2;
               similarity = env_cosine env (env_mean_embedding env (take half history))
                              (env_mean_embedding env (drop half history))
           in if length history < 4 then should_compact_proactively env m all_messages
              else if similarity < cc_topic_shift_threshold (cm_config m) then Some True
              else should_compact_proactively env m all_messages))"

definition should_compact_with :: "'e compaction_env \<Rightarrow> 'e compaction_manager \<Rightarrow> message list \<Rightarrow> bool option" where
  "should_compact_with env m all_messages =
     (if cm_suppress m then Some False
      else (let enough = length (active_messages m all_messages) > RECENT_TURNS_TO_KEEP in
        case cm_mode m of
          Reactive \<Rightarrow>
            Some (cm_pending_task m = None \<and>
                  float_ge (context_usage_with env m all_messages) COMPACTION_THRESHOLD \<and> enough)
        | Proactive \<Rightarrow> if enough then should_compact_proactively env m all_messages else Some False
        | Semantic \<Rightarrow> if enough then should_compact_semantic env m all_messages else Some False))"

text \<open>One message of the relevance scan: the number of relevant messages and the earliest of them.\<close>

definition score_message ::
  "'e compaction_env \<Rightarrow> 'e \<Rightarrow> nat \<times> message \<Rightarrow> (nat \<times> nat) \<times> 'e compaction_manager
    \<Rightarrow> (nat \<times> nat) \<times> 'e compaction_manager" where
  "score_message env goal_emb = (\<lambda>(idx, msg) ((high, earliest), m).
     (let text = semantic_message_text msg in
      if text = [] then ((high, earliest), m)
      else (case cached_semantic_embedding env text m of
              (Some embedding, m) \<Rightarrow>
                if env_cosine env goal_emb embedding \<ge> cc_relevance_keep_threshold (cm_config m)
                then ((high + 1, min earliest idx), m) else ((high, earliest), m)
            | (None, m) \<Rightarrow> ((high, earliest), m))))"

definition semantic_cutoff ::
  "'e compaction_env \<Rightarrow> message list \<Rightarrow> 'e compaction_manager \<Rightarrow> nat \<times> 'e compaction_manager" where
  "semantic_cutoff env active m =
     (let standard_cutoff = length active - RECENT_TURNS_TO_KEEP;
          goal_turns = min (cc_goal_window_turns (cm_config m)) (length active);
          goal_text = semantic_goal_text (drop (length active - goal_turns) active)
      in if standard_cutoff = 0 then (0, m)
         else if goal_text = [] then (standard_cutoff, m)
         else (case cached_semantic_embedding env goal_text m of
                 (None, m) \<Rightarrow> (standard_cutoff, m)
               | (Some goal_emb, m) \<Rightarrow>
                   (case fold (score_message env goal_emb) (enumerate 0 (take standard_cutoff active))
                           ((0, standard_cutoff), m) of
                      ((high, earliest), m) \<Rightarrow>
                        if high = 0 then (standard_cutoff, m)
                        else if earliest < 2 then (standard_cutoff, m)
                        else (earliest, m))))"

subsection \<open>The background task\<close>

definition mode_trigger_label :: "'e compaction_manager \<Rightarrow> string" where
  "mode_trigger_label m = CompactionMode_as_str (cm_mode m)"

definition start_task ::
  "nat \<Rightarrow> string \<Rightarrow> message list \<Rightarrow> 'e compaction_manager \<Rightarrow> 'e compaction_manager" where
  "start_task cutoff trigger active m =
     m\<lparr>cm_pending_cutoff := cutoff, cm_pending_trigger := Some trigger,
       cm_pending_task := Some \<lparr>bt_messages = take cutoff active, bt_summary = cm_active_summary m,
                                bt_outcome = None\<rparr>\<rparr>"

definition maybe_start_compaction_with ::
  "'e compaction_env \<Rightarrow> message list \<Rightarrow> 'e compaction_manager \<Rightarrow> 'e compaction_manager option" where
  "maybe_start_compaction_with env all_messages m =
     (case should_compact_with env m all_messages of
        None \<Rightarrow> None
      | Some False \<Rightarrow> Some m
      | Some True \<Rightarrow>
          (let active = active_messages m all_messages;
               (cutoff, m) = (case cm_mode m of
                                Semantic \<Rightarrow> semantic_cutoff env active m
                              | _ \<Rightarrow> (length active - RECENT_TURNS_TO_KEEP, m))
           in if cutoff = 0 then Some m
              else (let cutoff = safe_compaction_cutoff active cutoff in
                if cutoff = 0 then Some m
                else Some (start_task cutoff (mode_trigger_label m) active m))))"

definition show_one_decimal :: "rat \<Rightarrow> string" where
  "show_one_decimal x = (let n = nat (half_even (x * 10)) in show_nat (n div 10) @ ''.'' @ show_nat (n mod 10))"

definition show_percent :: "float_val \<Rightarrow> string" where
  "show_percent u = (case u of Fin x \<Rightarrow> show_one_decimal (fl32 (x * 100)) | Inf \<Rightarrow> ''inf'' | NaN \<Rightarrow> ''NaN'')"

definition force_compact_with ::
  "'e compaction_env \<Rightarrow> message list \<Rightarrow> 'e compaction_manager \<Rightarrow> (string + unit) \<times> 'e compaction_manager" where
  "force_compact_with env all_messages m =
     (let active = active_messages m all_messages;
          usage = context_usage_with env m all_messages;
          cutoff = safe_compaction_cutoff active (length active - RECENT_TURNS_TO_KEEP) in
      if cm_pending_task m \<noteq> None then (Inl ''Compaction already in progress'', m)
      else if length active \<le> RECENT_TURNS_TO_KEEP then
        (Inl (''Not enough messages to compact (need more than '' @ show_nat RECENT_TURNS_TO_KEEP @
              '', have '' @ show_nat (length active) @ '')''), m)
      else if float_lt usage MANUAL_COMPACT_MIN_THRESHOLD then
        (Inl (''Context usage too low ('' @ show_percent usage @ ''%) - nothing to compact''), m)
      else if length active - RECENT_TURNS_TO_KEEP = 0 then
        (Inl ''No messages available to compact after keeping recent turns'', m)
      else if cutoff = 0 then
        (Inl ''Cannot compact - would split tool call/result pairs'', m)
      else (Inr (), start_task cutoff ''manual'' active m))"

text \<open>The body of the task.\<close>

definition generate_compaction_artifact ::
  "'e compaction_env \<Rightarrow> provider \<Rightarrow> u64 \<Rightarrow> message list \<Rightarrow> summary option \<Rightarrow> string + compaction_result" where
  "generate_compaction_artifact env provider elapsed messages existing_summary =
     (let existing = map_option (\<lambda>s. case oversized_payload s of Some n \<Rightarrow> text_fallback n s | None \<Rightarrow> s)
                       existing_summary;
          result = (\<lambda>text payload. \<lparr>cr_summary_text = text, cr_openai_encrypted_content = payload,
                      cr_covers_up_to_turn = length messages, cr_duration_ms = elapsed,
                      cr_summarized_messages = length messages\<rparr>);
          by_prompt =
            (case pv_complete_simple provider
                    (build_compaction_prompt (env_json_str env) messages existing
                       ((pv_context_window provider - 4000) * CHARS_PER_TOKEN))
                    ''You are a helpful assistant that summarizes conversations.'' of
               Inl e \<Rightarrow> Inl e
             | Inr summary \<Rightarrow> Inr (result summary None))
      in case pv_native_compact provider messages (map_option sum_text existing)
                (Option.bind existing sum_openai_encrypted_content) of
           None \<Rightarrow> by_prompt
         | Some native \<Rightarrow>
             (case nr_openai_encrypted_content native of
                Some c \<Rightarrow> if openai_encrypted_content_is_sendable c
                          then Inr (result (case nr_summary_text native of Some t \<Rightarrow> t | None \<Rightarrow> []) (Some c))
                          else by_prompt
              | None \<Rightarrow> Inr (result (case nr_summary_text native of Some t \<Rightarrow> t | None \<Rightarrow> []) None)))"

definition run_task :: "'e compaction_env \<Rightarrow> provider \<Rightarrow> u64 \<Rightarrow> 'e compaction_manager \<Rightarrow> 'e compaction_manager" where
  "run_task env provider duration m =
     m\<lparr>cm_pending_task := map_option (\<lambda>t.
         t\<lparr>bt_outcome := Some
            (case generate_compaction_artifact env provider duration (bt_messages t) (bt_summary t) of
               Inl e \<Rightarrow> TaskErr e
             | Inr r \<Rightarrow> TaskOk (r\<lparr>cr_duration_ms := duration,
                                  cr_summarized_messages := length (bt_messages t)\<rparr>))\<rparr>) (cm_pending_task m)\<rparr>"

subsection \<open>Applying a finished task\<close>

definition u64_saturating_sub :: "u64 \<Rightarrow> u64 \<Rightarrow> u64" where
  "u64_saturating_sub a b = (if b \<le> a then a - b else 0)"

definition drop_pending :: "'e compaction_manager \<Rightarrow> 'e compaction_manager" where
  "drop_pending m = m\<lparr>cm_pending_task := None, cm_pending_trigger := None, cm_pending_cutoff := 0\<rparr>"

text \<open>The arm of a successful task; the handle has been taken.\<close>

definition apply_result ::
  "'e compaction_env \<Rightarrow> message list \<Rightarrow> compaction_result \<Rightarrow> 'e compaction_manager \<Rightarrow> 'e compaction_manager" where
  "apply_result env all_messages r m =
     (let pre_tokens = of_nat (effective_token_count_with env m all_messages) :: u64;
          compacted_chars = sum_list (map (message_char_count (env_json_str env))
            (take (cm_pending_cutoff m) (active_messages m all_messages)));
          m = m\<lparr>cm_compacted_count := cm_compacted_count m + cm_pending_cutoff m\<rparr>;
          m = m\<lparr>cm_active_message_chars := active_message_chars_with env m all_messages - compacted_chars,
                cm_active_message_chars_dirty := False,
                cm_active_summary := Some \<lparr>sum_text = cr_summary_text r,
                  sum_openai_encrypted_content = cr_openai_encrypted_content r,
                  sum_covers_up_to_turn = cr_covers_up_to_turn r,
                  sum_original_turn_count = cm_pending_cutoff m\<rparr>\<rparr>;
          m = fst (discard_oversized_openai_native_compaction m);
          m = m\<lparr>cm_observed_input_tokens := None\<rparr>;
          post_tokens = of_nat (effective_token_count_with env m all_messages) :: u64
      in m\<lparr>cm_last_compaction := Some
             \<lparr>ce_trigger = (case cm_pending_trigger m of Some t \<Rightarrow> t | None \<Rightarrow> mode_trigger_label m),
              ce_pre_tokens = Some pre_tokens, ce_post_tokens = Some post_tokens,
              ce_tokens_saved = Some (u64_saturating_sub pre_tokens post_tokens),
              ce_duration_ms = Some (cr_duration_ms r), ce_messages_dropped = None,
              ce_messages_compacted = Some (cr_summarized_messages r),
              ce_summary_chars = map_option (\<lambda>s. length (sum_text s)) (cm_active_summary m),
              ce_active_messages = Some (active_messages_count m)\<rparr>,
           cm_pending_trigger := None, cm_turns_since_last_compact := 0, cm_pending_cutoff := 0\<rparr>)"

definition check_and_apply_compaction_with ::
  "'e compaction_env \<Rightarrow> message list \<Rightarrow> 'e compaction_manager \<Rightarrow> 'e compaction_manager" where
  "check_and_apply_compaction_with env all_messages m =
     (case Option.bind (cm_pending_task m) bt_outcome of
        None \<Rightarrow> m
      | Some (TaskOk r) \<Rightarrow> apply_result env all_messages r (m\<lparr>cm_pending_task := None\<rparr>)
      | Some (TaskErr e) \<Rightarrow> drop_pending m
      | Some (TaskPanic e) \<Rightarrow> drop_pending m)"

definition check_and_apply_compaction ::
  "'e compaction_env \<Rightarrow> 'e compaction_manager \<Rightarrow> 'e compaction_manager" where
  "check_and_apply_compaction env m =
     (check_and_apply_compaction_with env [] m)\<lparr>cm_active_message_chars_dirty := True\<rparr>"

definition take_compaction_event ::
  "'e compaction_manager \<Rightarrow> compaction_event option \<times> 'e compaction_manager" where
  "take_compaction_event m = (cm_last_compaction m, m\<lparr>cm_last_compaction := None\<rparr>)"

definition poll_compaction_event_with ::
  "'e compaction_env \<Rightarrow> message list \<Rightarrow> 'e compaction_manager \<Rightarrow> compaction_event option \<times> 'e compaction_manager" where
  "poll_compaction_event_with env all_messages m =
     take_compaction_event (check_and_apply_compaction_with env all_messages m)"

definition poll_compaction_event ::
  "'e compaction_env \<Rightarrow> 'e compaction_manager \<Rightarrow> compaction_event option \<times> 'e compaction_manager" where
  "poll_compaction_event env m = take_compaction_event (check_and_apply_compaction env m)"

definition summary_message :: "summary \<Rightarrow> message" where
  "summary_message s =
     \<lparr>msg_role = User,
      msg_content = [case sum_openai_encrypted_content s of
                       Some c \<Rightarrow> OpenAICompaction c
                     | None \<Rightarrow> Text (compacted_summary_text_block (sum_text s)) None],
      msg_timestamp = None, msg_tool_duration_ms = None\<rparr>"

definition messages_for_api_with ::
  "'e compaction_env \<Rightarrow> message list \<Rightarrow> 'e compaction_manager \<Rightarrow> message list \<times> 'e compaction_manager" where
  "messages_for_api_with env all_messages m =
     (let m = fst (discard_oversized_openai_native_compaction
                     (check_and_apply_compaction_with env all_messages m));
          active = active_messages m all_messages
      in (case cm_active_summary m of
            Some s \<Rightarrow> summary_message s # active
          | None \<Rightarrow> active, m))"

definition messages_for_api ::
  "'e compaction_env \<Rightarrow> 'e compaction_manager \<Rightarrow> message list \<times> 'e compaction_manager" where
  "messages_for_api env m =
     (let m = fst (discard_oversized_openai_native_compaction (check_and_apply_compaction env m))
      in (case cm_active_summary m of Some s \<Rightarrow> [summary_message s] | None \<Rightarrow> [], m))"

definition set_mode :: "compaction_mode \<Rightarrow> 'e compaction_manager \<Rightarrow> 'e compaction_manager" where
  "set_mode mode m = m\<lparr>cm_mode := mode, cm_config := (cm_config m)\<lparr>cc_mode := mode\<rparr>\<rparr>"

definition summary_chars :: "'e compaction_manager \<Rightarrow> nat" where
  "summary_chars m = (case cm_active_summary m of Some s \<Rightarrow> summary_payload_char_count s | None \<Rightarrow> 0)"

record compaction_stats =
  cs_total_turns :: nat
  cs_active_messages :: nat
  cs_has_summary :: bool
  cs_is_compacting :: bool
  cs_token_estimate :: nat
  cs_effective_tokens :: nat
  cs_observed_input_tokens :: "u64 option"
  cs_context_usage :: float_val

definition stats :: "'e compaction_manager \<Rightarrow> compaction_stats" where
  "stats m =
     \<lparr>cs_total_turns = cm_total_turns m, cs_active_messages = 0,
      cs_has_summary = (cm_active_summary m \<noteq> None), cs_is_compacting = (cm_pending_task m \<noteq> None),
      cs_token_estimate = token_estimate m, cs_effective_tokens = effective_token_count m,
      cs_observed_input_tokens = cm_observed_input_tokens m, cs_context_usage = context_usage m\<rparr>"

definition stats_with :: "'e compaction_env \<Rightarrow> 'e compaction_manager \<Rightarrow> message list \<Rightarrow> compaction_stats" where
  "stats_with env m all_messages =
     \<lparr>cs_total_turns = cm_total_turns m, cs_active_messages = length (active_messages m all_messages),
      cs_has_summary = (cm_active_summary m \<noteq> None), cs_is_compacting = (cm_pending_task m \<noteq> None),
      cs_token_estimate = token_estimate_with env m all_messages,
      cs_effective_tokens = effective_token_count_with env m all_messages,
      cs_observed_input_tokens = cm_observed_input_tokens m,
      cs_context_usage = context_usage_with env m all_messages\<rparr>"

subsection \<open>Emergency compaction\<close>

fun suffix_sums :: "nat list \<Rightarrow> nat list" where
  "suffix_sums [] = [0]"
| "suffix_sums (x # xs) = (let r = suffix_sums xs in (hd r + x) # r)"

function hard_cutoff :: "message list \<Rightarrow> nat list \<Rightarrow> nat \<Rightarrow> nat \<Rightarrow> nat" where
  "hard_cutoff active remaining budget turns_to_keep =
     (let cutoff = safe_compaction_cutoff active (length active - turns_to_keep) in
      if 0 < cutoff \<and> remaining ! cutoff div CHARS_PER_TOKEN \<le> budget then cutoff
      else if turns_to_keep \<le> MIN_TURNS_TO_KEEP
      then safe_compaction_cutoff active (length active - MIN_TURNS_TO_KEEP)
      else hard_cutoff active remaining budget (max (turns_to_keep div 2) MIN_TURNS_TO_KEEP))"
  by pat_completeness auto
termination
  by (relation "measure (\<lambda>(a, r, b, k). k)") (auto simp: MIN_TURNS_TO_KEEP_def)

declare hard_cutoff.simps [simp del]

definition em_dash :: string where
  "em_dash = [CHR 0xE2, CHR 0x80, CHR 0x94]"

definition hard_compact_with ::
  "'e compaction_env \<Rightarrow> message list \<Rightarrow> 'e compaction_manager \<Rightarrow> (string + nat) \<times> 'e compaction_manager" where
  "hard_compact_with env all_messages m =
     (let active = active_messages m all_messages in
      if length active \<le> MIN_TURNS_TO_KEEP then
        (Inl (''Not enough messages to compact (have '' @ show_nat (length active) @
              '', need more than '' @ show_nat MIN_TURNS_TO_KEEP @ '')''), m)
      else
        (let pre_tokens = of_nat (effective_token_count_with env m all_messages) :: u64;
             remaining = suffix_sums (map (message_char_count (env_json_str env)) active);
             cutoff = hard_cutoff active remaining (cm_token_budget m)
                        (min RECENT_TURNS_TO_KEEP (length active - 1))
         in if cutoff = 0 then
              (Inl (''Cannot compact '' @ em_dash @ '' would split tool call/result pairs''), m)
            else
              (let summary_text = build_emergency_summary_text (env_alphanumeric env)
                     (map_option sum_text (cm_active_summary m)) cutoff pre_tokens
                     (cm_token_budget m) (take cutoff active);
                   m = m\<lparr>cm_compacted_count := cm_compacted_count m + cutoff,
                         cm_active_message_chars := remaining ! cutoff,
                         cm_active_message_chars_dirty := False,
                         cm_active_summary := Some \<lparr>sum_text = summary_text,
                           sum_openai_encrypted_content = None, sum_covers_up_to_turn = cutoff,
                           sum_original_turn_count = cutoff\<rparr>,
                         cm_observed_input_tokens := None\<rparr>;
                   post_tokens = of_nat (effective_token_count m) :: u64
               in (Inr cutoff,
                   m\<lparr>cm_last_compaction := Some
                       \<lparr>ce_trigger = ''hard_compact'', ce_pre_tokens = Some pre_tokens,
                        ce_post_tokens = Some post_tokens,
                        ce_tokens_saved = Some (u64_saturating_sub pre_tokens post_tokens),
                        ce_duration_ms = Some 0, ce_messages_dropped = Some cutoff,
                        ce_messages_compacted = Some cutoff,
                        ce_summary_chars = map_option (\<lambda>s. length (sum_text s)) (cm_active_summary m),
                        ce_active_messages = Some (active_messages_count m)\<rparr>\<rparr>))))"

definition ensure_context_fits ::
  "'e compaction_env \<Rightarrow> message list \<Rightarrow> 'e compaction_manager \<Rightarrow> (compaction_action \<times> 'e compaction_manager) option" where
  "ensure_context_fits env all_messages m0 =
     (case maybe_start_compaction_with env all_messages m0 of
        None \<Rightarrow> None
      | Some m \<Rightarrow>
          (let bg_started = (cm_pending_task m0 = None \<and> cm_pending_task m \<noteq> None);
               started = (if bg_started
                          then BackgroundStarted (case cm_pending_trigger m of Some t \<Rightarrow> t | None \<Rightarrow> mode_trigger_label m)
                          else NoAction)
           in if float_ge (context_usage_with env m all_messages) CRITICAL_THRESHOLD
              then (case hard_compact_with env all_messages m of
                      (Inr dropped, m) \<Rightarrow> Some (HardCompacted dropped, m)
                    | (Inl reason, m) \<Rightarrow> Some (started, m))
              else Some (started, m)))"

definition emergency_truncate_with ::
  "message list \<Rightarrow> 'e compaction_manager \<Rightarrow> nat \<times> message list \<times> 'e compaction_manager" where
  "emergency_truncate_with all_messages m =
     (let start = min (cm_compacted_count m) (length all_messages);
          (active, truncated) = emergency_truncate_tool_results (drop start all_messages) EMERGENCY_TOOL_RESULT_MAX_CHARS
      in (truncated, take start all_messages @ active,
          if truncated > 0 then m\<lparr>cm_observed_input_tokens := None\<rparr> else m))"

definition build_transfer_compaction_state ::
  "'e compaction_env \<Rightarrow> provider \<Rightarrow> u64 \<Rightarrow> message list \<Rightarrow> stored_compaction option \<Rightarrow> string + stored_compaction option" where
  "build_transfer_compaction_state env provider elapsed messages existing_state =
     (let existing_summary = map_option (\<lambda>st. \<lparr>sum_text = sc_summary_text st,
            sum_openai_encrypted_content = sc_openai_encrypted_content st,
            sum_covers_up_to_turn = sc_covers_up_to_turn st,
            sum_original_turn_count = sc_original_turn_count st\<rparr>) existing_state;
          prior_turns = (case existing_state of
                           Some st \<Rightarrow> max (sc_original_turn_count st) (sc_covers_up_to_turn st) | None \<Rightarrow> 0)
      in if messages = [] then Inr (map_option (\<lambda>st. st\<lparr>sc_compacted_count := 0\<rparr>) existing_state)
         else (case generate_compaction_artifact env provider elapsed messages existing_summary of
                 Inl e \<Rightarrow> Inl e
               | Inr r \<Rightarrow> Inr (Some \<lparr>sc_summary_text = cr_summary_text r,
                   sc_openai_encrypted_content = cr_openai_encrypted_content r,
                   sc_covers_up_to_turn = prior_turns + length messages,
                   sc_original_turn_count = prior_turns + length messages,
                   sc_compacted_count = 0\<rparr>)))"

section \<open>Specification\<close>

text \<open>
  The conversations of a session: \<^verbatim>\<open>session_run env cfg k msgs m\<close>. New messages are appended with
  \<^verbatim>\<open>notify_message_added_with\<close>; a tool result answers a call at index \<open>k\<close> or later, where \<open>k\<close> is moved
  to the end whenever all calls have been answered. Compaction starts only then (a request is about
  to be sent), and the emergency compaction runs only while no task is pending. The task may finish,
  with any provider, at any time.
\<close>

inductive session_run ::
  "'e compaction_env \<Rightarrow> compaction_config \<Rightarrow> nat \<Rightarrow> message list \<Rightarrow> 'e compaction_manager \<Rightarrow> bool"
  for env cfg where
  fresh: "session_run env cfg 0 [] (CompactionManager_new cfg)"
| seeded: "results_closed msgs \<Longrightarrow>
    session_run env cfg 0 msgs (seed_restored_messages_with env msgs (CompactionManager_new cfg))"
| restored: "session_run env cfg k msgs m \<Longrightarrow> persisted_state m = Some st \<Longrightarrow>
    session_run env cfg k msgs (restore_persisted_state_with env st msgs (set_budget b (CompactionManager_new cfg)))"
| added: "session_run env cfg k msgs m \<Longrightarrow> result_ids [msg] \<subseteq> use_ids (drop k msgs) \<Longrightarrow>
    session_run env cfg k (msgs @ [msg]) (notify_message_added_with env msg m)"
| answered: "session_run env cfg k msgs m \<Longrightarrow> session_run env cfg (length msgs) msgs m"
| observed: "session_run env cfg k msgs m \<Longrightarrow>
    session_run env cfg k msgs (push_token_snapshot t (update_observed_input_tokens t m))"
| embedded: "session_run env cfg k msgs m \<Longrightarrow> session_run env cfg k msgs (push_embedding_snapshot env text m)"
| switched: "session_run env cfg k msgs m \<Longrightarrow> session_run env cfg k msgs (set_mode mode (set_budget b m))"
| started: "session_run env cfg (length msgs) msgs m \<Longrightarrow> maybe_start_compaction_with env msgs m = Some m' \<Longrightarrow>
    session_run env cfg (length msgs) msgs m'"
| forced: "session_run env cfg (length msgs) msgs m \<Longrightarrow>
    session_run env cfg (length msgs) msgs (snd (force_compact_with env msgs m))"
| hard: "session_run env cfg (length msgs) msgs m \<Longrightarrow> cm_pending_task m = None \<Longrightarrow>
    session_run env cfg (length msgs) msgs (snd (hard_compact_with env msgs m))"
| finished: "session_run env cfg k msgs m \<Longrightarrow> session_run env cfg k msgs (run_task env provider d m)"
| polled: "session_run env cfg k msgs m \<Longrightarrow>
    session_run env cfg k msgs (snd (poll_compaction_event_with env msgs m))"
| sent: "session_run env cfg k msgs m \<Longrightarrow>
    session_run env cfg k msgs (snd (messages_for_api_with env msgs m))"

text \<open>The part of the manager that says which messages are sent.\<close>

definition view_ok :: "'e compaction_env \<Rightarrow> nat \<Rightarrow> message list \<Rightarrow> 'e compaction_manager \<Rightarrow> bool" where
  "view_ok env k msgs m \<longleftrightarrow>
     cm_compacted_count m \<le> k \<and> k \<le> length msgs \<and> cm_total_turns m = length msgs \<and>
     (cm_compacted_count m = 0 \<or> cm_compacted_count m < length msgs \<and> cm_active_summary m \<noteq> None) \<and>
     results_closed (drop (cm_compacted_count m) msgs) \<and>
     \<not> cm_active_message_chars_dirty m \<and>
     cm_active_message_chars m =
       sum_list (map (message_char_count (env_json_str env)) (drop (cm_compacted_count m) msgs))"

definition task_ok :: "nat \<Rightarrow> message list \<Rightarrow> 'e compaction_manager \<Rightarrow> bool" where
  "task_ok k msgs m \<longleftrightarrow>
     (case cm_pending_task m of
        None \<Rightarrow> True
      | Some t \<Rightarrow>
          (let c = cm_compacted_count m + cm_pending_cutoff m in
             0 < cm_pending_cutoff m \<and> c \<le> k \<and> c < length msgs \<and> results_closed (drop c msgs) \<and>
             bt_messages t = take (cm_pending_cutoff m) (drop (cm_compacted_count m) msgs)))"

definition manager_core :: "'e compaction_manager \<Rightarrow>
    (nat \<times> nat \<times> bool) \<times> (nat \<times> bool) \<times> bg_task option \<times> nat" where
  "manager_core m =
     ((cm_compacted_count m, cm_total_turns m, cm_active_summary m = None),
      (cm_active_message_chars m, cm_active_message_chars_dirty m), cm_pending_task m, cm_pending_cutoff m)"

section \<open>Lemmas\<close>

lemma active_messages_drop:
  "cm_compacted_count m \<le> length msgs \<Longrightarrow> active_messages m msgs = drop (cm_compacted_count m) msgs"
  by (simp add: active_messages_def)

lemma view_ok_active: "view_ok env k msgs m \<Longrightarrow> active_messages m msgs = drop (cm_compacted_count m) msgs"
  by (simp add: view_ok_def active_messages_def)

lemma view_ok_cong: "manager_core m = manager_core m' \<Longrightarrow> view_ok env k msgs m = view_ok env k msgs m'"
  by (simp add: manager_core_def view_ok_def)

lemma task_ok_cong: "manager_core m = manager_core m' \<Longrightarrow> task_ok k msgs m = task_ok k msgs m'"
  by (auto simp: manager_core_def task_ok_def split: option.splits)

lemma core_insert_cache [simp]: "manager_core (insert_semantic_embedding_cache key e m) = manager_core m"
  by (simp add: insert_semantic_embedding_cache_def manager_core_def Let_def)

lemma core_cached [simp]: "manager_core (snd (cached_semantic_embedding env text m)) = manager_core m"
  by (auto simp: cached_semantic_embedding_def Let_def split: option.splits)
     (simp add: manager_core_def)

lemma core_discard [simp]: "manager_core (fst (discard_oversized_openai_native_compaction m)) = manager_core m"
  by (auto simp: discard_oversized_openai_native_compaction_def manager_core_def split: option.splits)

lemma core_score: "manager_core (snd (score_message env g x s)) = manager_core (snd s)"
proof -
  obtain idx msg h e m where eq: "x = (idx, msg)" "s = ((h, e), m)" by (metis prod.exhaust)
  obtain r m1 where c: "cached_semantic_embedding env (semantic_message_text msg) m = (r, m1)" by fastforce
  then have "manager_core m1 = manager_core m" using core_cached[of env "semantic_message_text msg" m] by simp
  with c show ?thesis by (cases r) (simp_all add: eq score_message_def Let_def)
qed

lemma core_fold_score: "manager_core (snd (fold (score_message env g) xs s)) = manager_core (snd s)"
  by (induction xs arbitrary: s) (simp_all add: core_score)

lemma core_semantic_cutoff [simp]: "manager_core (snd (semantic_cutoff env active m)) = manager_core m"
proof -
  define goal_text where "goal_text = semantic_goal_text
    (drop (length active - min (cc_goal_window_turns (cm_config m)) (length active)) active)"
  obtain r m1 where c: "cached_semantic_embedding env goal_text m = (r, m1)" by fastforce
  have m1: "manager_core m1 = manager_core m" using core_cached[of env goal_text m] c by simp
  show ?thesis
  proof (cases r)
    case None
    with c m1 show ?thesis by (simp add: semantic_cutoff_def Let_def flip: goal_text_def)
  next
    case (Some g)
    obtain h e m2 where f: "fold (score_message env g)
        (enumerate 0 (take (length active - RECENT_TURNS_TO_KEEP) active))
        ((0, length active - RECENT_TURNS_TO_KEEP), m1) = ((h, e), m2)" by (metis prod.exhaust)
    have "manager_core m2 = manager_core m" using core_fold_score[of env g _ "(_, m1)"] f m1
      by (metis snd_conv)
    with Some c m1 f show ?thesis by (simp add: semantic_cutoff_def Let_def flip: goal_text_def)
  qed
qed

lemma score_message_le: "snd (fst (score_message env g x s)) \<le> snd (fst s)"
  by (cases x; cases s) (auto simp: score_message_def Let_def split: prod.splits option.splits)

lemma fold_score_le: "snd (fst (fold (score_message env g) xs s)) \<le> snd (fst s)"
proof (induction xs arbitrary: s)
  case (Cons x xs)
  show ?case using Cons.IH[of "score_message env g x s"] score_message_le[of env g x s] by simp
qed simp

lemma semantic_cutoff_le: "fst (semantic_cutoff env active m) \<le> length active - RECENT_TURNS_TO_KEEP"
proof -
  have "snd (fst (fold (score_message env g) xs ((0, n), m'))) \<le> n" for g xs n m'
    using fold_score_le[of env g xs "((0, n), m')"] by simp
  then show ?thesis
    by (auto simp: semantic_cutoff_def Let_def split: prod.splits option.splits) (metis fst_conv snd_conv)
qed

lemma core_updates [simp]:
  "manager_core (m\<lparr>cm_observed_input_tokens := a\<rparr>) = manager_core m"
  "manager_core (m\<lparr>cm_last_compaction := b\<rparr>) = manager_core m"
  "manager_core (m\<lparr>cm_pending_trigger := c\<rparr>) = manager_core m"
  "manager_core (m\<lparr>cm_turns_since_last_compact := d\<rparr>) = manager_core m"
  "manager_core (m\<lparr>cm_token_history := e\<rparr>) = manager_core m"
  "manager_core (m\<lparr>cm_embedding_history := f\<rparr>) = manager_core m"
  "manager_core (m\<lparr>cm_token_budget := g\<rparr>) = manager_core m"
  "manager_core (m\<lparr>cm_mode := h\<rparr>) = manager_core m"
  "manager_core (m\<lparr>cm_config := i\<rparr>) = manager_core m"
  "manager_core (m\<lparr>cm_pending_cutoff := n\<rparr>) = (case manager_core m of (p, q, r, s) \<Rightarrow> (p, q, r, n))"
  by (simp_all add: manager_core_def)

lemma core_apply_result:
  "manager_core (apply_result env msgs r m) =
     ((cm_compacted_count m + cm_pending_cutoff m, cm_total_turns m, False),
      (active_message_chars_with env (m\<lparr>cm_compacted_count := cm_compacted_count m + cm_pending_cutoff m\<rparr>) msgs
         - sum_list (map (message_char_count (env_json_str env)) (take (cm_pending_cutoff m) (active_messages m msgs))), False),
      cm_pending_task m, 0)"
  unfolding apply_result_def Let_def by (simp, simp add: manager_core_def)

lemma core_start_task:
  "manager_core (start_task cutoff trigger active m) =
     ((cm_compacted_count m, cm_total_turns m, cm_active_summary m = None),
      (cm_active_message_chars m, cm_active_message_chars_dirty m),
      Some \<lparr>bt_messages = take cutoff active, bt_summary = cm_active_summary m, bt_outcome = None\<rparr>, cutoff)"
  by (simp add: start_task_def manager_core_def)

text \<open>Facts that follow from the core.\<close>

definition core_ok :: "'e compaction_env \<Rightarrow> nat \<Rightarrow> message list \<Rightarrow> 'e compaction_manager \<Rightarrow> bool" where
  "core_ok env k msgs m \<longleftrightarrow> view_ok env k msgs m \<and> task_ok k msgs m"

lemma core_ok_cong: "manager_core m = manager_core m' \<Longrightarrow> core_ok env k msgs m' \<Longrightarrow> core_ok env k msgs m"
  unfolding core_ok_def using view_ok_cong task_ok_cong by metis

lemma core_ok_start_task:
  assumes ok: "core_ok env (length msgs) msgs m"
    and cutoff: "0 < safe_compaction_cutoff (active_messages m msgs) n" "n \<le> length (active_messages m msgs) - RECENT_TURNS_TO_KEEP"
    and core: "manager_core m' = manager_core m"
  shows "core_ok env (length msgs) msgs
    (start_task (safe_compaction_cutoff (active_messages m msgs) n) trigger (active_messages m msgs) m')"
proof -
  let ?a = "active_messages m msgs" and ?c = "safe_compaction_cutoff (active_messages m msgs) n"
  have v: "view_ok env (length msgs) msgs m" using ok by (simp add: core_ok_def)
  have a: "?a = drop (cm_compacted_count m) msgs" by (rule view_ok_active[OF v])
  have "?c \<le> n" using safe_cutoff_bound[of ?a n] by simp
  with cutoff have le: "cm_compacted_count m + ?c < length msgs"
    by (simp add: a RECENT_TURNS_TO_KEEP_def)
  have closed: "results_closed (drop (cm_compacted_count m + ?c) msgs)"
    using safe_cutoff_closed[OF cutoff(1)] by (simp add: a add.commute)
  have f: "cm_compacted_count m' = cm_compacted_count m" "cm_total_turns m' = cm_total_turns m"
    "(cm_active_summary m' = None) = (cm_active_summary m = None)"
    "cm_active_message_chars m' = cm_active_message_chars m"
    "cm_active_message_chars_dirty m' = cm_active_message_chars_dirty m"
    using core by (auto simp: manager_core_def)
  show ?thesis using v le closed cutoff(1)
    by (simp add: core_ok_def view_ok_def task_ok_def start_task_def f a Let_def)
qed

lemma core_ok_maybe_start:
  assumes ok: "core_ok env (length msgs) msgs m" and step: "maybe_start_compaction_with env msgs m = Some m'"
  shows "core_ok env (length msgs) msgs m'"
proof (cases "should_compact_with env m msgs = Some True")
  case True
  define a where "a = active_messages m msgs"
  obtain n m1 where n: "(case cm_mode m of Semantic \<Rightarrow> semantic_cutoff env a m
      | _ \<Rightarrow> (length a - RECENT_TURNS_TO_KEEP, m)) = (n, m1)" by fastforce
  have le: "n \<le> length a - RECENT_TURNS_TO_KEEP"
    using n semantic_cutoff_le[of env a m] by (auto split: compaction_mode.splits)
  have "m1 = m \<or> m1 = snd (semantic_cutoff env a m)" using n by (auto split: compaction_mode.splits)
  then have core: "manager_core m1 = manager_core m" by auto
  have "m' = (if n = 0 then m1 else if safe_compaction_cutoff a n = 0 then m1
              else start_task (safe_compaction_cutoff a n) (mode_trigger_label m1) a m1)"
    using step True n[unfolded a_def] by (simp add: maybe_start_compaction_with_def Let_def a_def split: if_splits)
  then show ?thesis
    using core_ok_cong[OF core ok] core_ok_start_task[OF ok _ le[unfolded a_def] core] by (auto simp: a_def)
next
  case False
  with step ok show ?thesis
    by (auto simp: maybe_start_compaction_with_def split: option.splits bool.splits)
qed

lemma core_ok_force:
  assumes ok: "core_ok env (length msgs) msgs m"
  shows "core_ok env (length msgs) msgs (snd (force_compact_with env msgs m))"
  using ok core_ok_start_task[OF ok _ order_refl refl]
  by (simp add: force_compact_with_def Let_def)

lemma core_ok_apply:
  assumes ok: "core_ok env k msgs m"
  shows "core_ok env k msgs (check_and_apply_compaction_with env msgs m)"
proof (cases "Option.bind (cm_pending_task m) bt_outcome")
  case None
  with ok show ?thesis by (simp add: check_and_apply_compaction_with_def)
next
  case (Some out)
  then obtain t where t: "cm_pending_task m = Some t" by (cases "cm_pending_task m") auto
  have v: "view_ok env k msgs m" and tk: "task_ok k msgs m" using ok by (simp_all add: core_ok_def)
  have drop: "core_ok env k msgs (drop_pending m)"
    using v by (simp add: core_ok_def task_ok_def drop_pending_def view_ok_def)
  show ?thesis
  proof (cases out)
    case (TaskOk r)
    let ?m = "m\<lparr>cm_pending_task := None\<rparr>" and ?c = "cm_compacted_count m" and ?p = "cm_pending_cutoff m"
    let ?size = "message_char_count (env_json_str env)"
    have pend: "0 < ?p" "?c + ?p \<le> k" "?c + ?p < length msgs" "results_closed (drop (?c + ?p) msgs)"
      using tk t by (simp_all add: task_ok_def Let_def)
    have act: "active_messages ?m msgs = drop ?c msgs"
      "active_messages (?m\<lparr>cm_compacted_count := ?c + ?p\<rparr>) msgs = drop (?c + ?p) msgs"
      using pend by (simp_all add: active_messages_def)
    have chars: "active_message_chars_with env (?m\<lparr>cm_compacted_count := ?c + ?p\<rparr>) msgs =
        sum_list (map ?size (drop ?c msgs))"
      using v pend act(2) by (simp add: active_message_chars_with_def active_messages_count_def view_ok_def)
    have split: "map ?size (drop ?c msgs) = map ?size (take ?p (drop ?c msgs)) @ map ?size (drop (?c + ?p) msgs)"
      by (metis append_take_drop_id drop_drop add.commute map_append)
    have "manager_core (apply_result env msgs r ?m) =
        ((?c + ?p, length msgs, False), (sum_list (map ?size (drop (?c + ?p) msgs)), False), None, 0)"
      using v chars act(1) split by (simp add: core_apply_result view_ok_def)
    then have f: "cm_compacted_count (apply_result env msgs r ?m) = ?c + ?p"
      "cm_total_turns (apply_result env msgs r ?m) = length msgs"
      "cm_active_summary (apply_result env msgs r ?m) \<noteq> None"
      "cm_active_message_chars (apply_result env msgs r ?m) = sum_list (map ?size (drop (?c + ?p) msgs))"
      "\<not> cm_active_message_chars_dirty (apply_result env msgs r ?m)"
      "cm_pending_task (apply_result env msgs r ?m) = None"
      by (simp_all add: manager_core_def)
    have "core_ok env k msgs (apply_result env msgs r ?m)"
      using v pend by (simp add: core_ok_def view_ok_def task_ok_def f)
    with Some TaskOk show ?thesis by (simp add: check_and_apply_compaction_with_def)
  qed (use Some drop in \<open>simp_all add: check_and_apply_compaction_with_def\<close>)
qed

text \<open>The emergency compaction.\<close>

lemma suffix_sums_nth: "i \<le> length xs \<Longrightarrow> suffix_sums xs ! i = sum_list (drop i xs)"
proof (induction xs arbitrary: i)
  case (Cons x xs)
  have hd: "hd (suffix_sums xs) = sum_list xs"
    using Cons.IH[of 0] by (cases xs) (simp_all add: Let_def hd_conv_nth)
  show ?case using Cons hd by (cases i) (simp_all add: Let_def add.commute)
qed simp

lemma hard_cutoff_safe:
  "\<exists>n. hard_cutoff active remaining budget keep = safe_compaction_cutoff active n \<and>
       (n = length active - keep \<or> n \<le> length active - MIN_TURNS_TO_KEEP)"
proof (induction active remaining budget keep rule: hard_cutoff.induct)
  case (1 active remaining budget keep)
  show ?case
  proof (cases "0 < safe_compaction_cutoff active (length active - keep) \<and>
      remaining ! safe_compaction_cutoff active (length active - keep) div CHARS_PER_TOKEN \<le> budget \<or>
      keep \<le> MIN_TURNS_TO_KEEP")
    case True
    then show ?thesis by (subst (1) hard_cutoff.simps) (auto simp: Let_def)
  next
    case False
    then have "hard_cutoff active remaining budget keep =
        hard_cutoff active remaining budget (max (keep div 2) MIN_TURNS_TO_KEEP)"
      by (subst (1) hard_cutoff.simps) (auto simp: Let_def)
    moreover have "\<exists>n. hard_cutoff active remaining budget (max (keep div 2) MIN_TURNS_TO_KEEP) =
        safe_compaction_cutoff active n \<and>
        (n = length active - max (keep div 2) MIN_TURNS_TO_KEEP \<or> n \<le> length active - MIN_TURNS_TO_KEEP)"
      using False by (intro 1) auto
    ultimately show ?thesis by (metis diff_le_mono2 max.cobounded2)
  qed
qed

lemma hard_cutoff_bound:
  assumes "MIN_TURNS_TO_KEEP < length active" "0 < keep"
  shows "hard_cutoff active remaining budget keep < length active"
  using hard_cutoff_safe[of active remaining budget keep] safe_cutoff_bound[of active] assms
  by (auto simp: MIN_TURNS_TO_KEEP_def) (metis diff_less le_less_trans less_trans min_less_iff_conj
      not_less zero_less_numeral le_trans nat_less_le min.boundedE order_trans)+

lemma hard_cutoff_closed:
  "0 < hard_cutoff active remaining budget keep \<Longrightarrow>
     results_closed (drop (hard_cutoff active remaining budget keep) active)"
  using hard_cutoff_safe[of active remaining budget keep] safe_cutoff_closed by metis

text \<open>What a successful emergency compaction does.\<close>

lemma hard_compact_effect:
  assumes "hard_compact_with env msgs m = (Inr n, m')"
  shows "0 < n" "n < length (active_messages m msgs)" "results_closed (drop n (active_messages m msgs))"
    "manager_core m' = ((cm_compacted_count m + n, cm_total_turns m, False),
       (sum_list (map (message_char_count (env_json_str env)) (drop n (active_messages m msgs))), False),
       cm_pending_task m, cm_pending_cutoff m)"
proof -
  define a where "a = active_messages m msgs"
  define c where "c = hard_cutoff a (suffix_sums (map (message_char_count (env_json_str env)) a))
    (cm_token_budget m) (min RECENT_TURNS_TO_KEEP (length a - Suc 0))"
  have long: "MIN_TURNS_TO_KEEP < length a" and c: "0 < c" "n = c"
    using assms by (auto simp: hard_compact_with_def Let_def a_def c_def split: if_splits)
  have "0 < min RECENT_TURNS_TO_KEEP (length a - Suc 0)"
    using long by (simp add: RECENT_TURNS_TO_KEEP_def MIN_TURNS_TO_KEEP_def)
  then have lt: "c < length a" unfolding c_def using long by (intro hard_cutoff_bound)
  then show "0 < n" "n < length (active_messages m msgs)" "results_closed (drop n (active_messages m msgs))"
    using c hard_cutoff_closed[of a] by (simp_all add: a_def c_def)
  have "suffix_sums (map (message_char_count (env_json_str env)) a) ! c =
      sum_list (map (message_char_count (env_json_str env)) (drop c a))"
    using lt by (simp add: suffix_sums_nth drop_map)
  then show "manager_core m' = ((cm_compacted_count m + n, cm_total_turns m, False),
       (sum_list (map (message_char_count (env_json_str env)) (drop n (active_messages m msgs))), False),
       cm_pending_task m, cm_pending_cutoff m)"
    using assms long c
    by (auto simp: hard_compact_with_def Let_def simp flip: a_def c_def) (simp add: manager_core_def)
qed

lemma hard_compact_error: "hard_compact_with env msgs m = (Inl e, m') \<Longrightarrow> m' = m"
  by (auto simp: hard_compact_with_def Let_def split: if_splits)

lemma core_ok_hard:
  assumes ok: "core_ok env (length msgs) msgs m" and idle: "cm_pending_task m = None"
  shows "core_ok env (length msgs) msgs (snd (hard_compact_with env msgs m))"
proof -
  obtain r m' where h: "hard_compact_with env msgs m = (r, m')" by fastforce
  show ?thesis
  proof (cases r)
    case (Inl e)
    with h ok hard_compact_error[of env msgs m e m'] show ?thesis by simp
  next
    case (Inr n)
    have v: "view_ok env (length msgs) msgs m" using ok by (simp add: core_ok_def)
    note e = hard_compact_effect[OF h[unfolded Inr], unfolded view_ok_active[OF v]]
    have "cm_compacted_count m' = cm_compacted_count m + n" "cm_total_turns m' = length msgs"
      "cm_active_summary m' \<noteq> None" "\<not> cm_active_message_chars_dirty m'" "cm_pending_task m' = None"
      "cm_active_message_chars m' = sum_list (map (message_char_count (env_json_str env)) (drop n (drop (cm_compacted_count m) msgs)))"
      using e(4) v idle by (simp_all add: manager_core_def view_ok_def)
    moreover have "cm_compacted_count m + n < length msgs" using e(2) by simp
    ultimately show ?thesis using e(1-3) h by (simp add: core_ok_def view_ok_def task_ok_def add.commute)
  qed
qed

subsection \<open>Sessions\<close>

lemma use_ids_drop_mono: "c \<le> k \<Longrightarrow> use_ids (drop k ms) \<subseteq> use_ids (drop c ms)"
  by (auto simp: use_ids_def dest: set_drop_subset_set_drop [THEN subsetD])

lemma results_closed_snoc:
  assumes "results_closed (drop c ms)" "c \<le> k" "k \<le> length ms" "result_ids [msg] \<subseteq> use_ids (drop k ms)"
  shows "results_closed (drop c (ms @ [msg]))"
proof -
  have "result_ids (drop c ms @ [msg]) = result_ids (drop c ms) \<union> result_ids [msg]"
    "use_ids (drop c ms) \<subseteq> use_ids (drop c ms @ [msg])" by (auto simp: result_ids_def use_ids_def)
  with assms use_ids_drop_mono[OF assms(2), of ms] show ?thesis by (auto simp: results_closed_def)
qed

lemma core_ok_added:
  assumes ok: "core_ok env k msgs m" and msg: "result_ids [msg] \<subseteq> use_ids (drop k msgs)"
  shows "core_ok env k (msgs @ [msg]) (notify_message_added_with env msg m)"
proof -
  have v: "view_ok env k msgs m" and t: "task_ok k msgs m" using ok by (simp_all add: core_ok_def)
  have le: "k \<le> length msgs" using v by (simp add: view_ok_def)
  note snoc = results_closed_snoc[OF _ _ le msg]
  have "view_ok env k (msgs @ [msg]) (notify_message_added_with env msg m)"
    using v snoc[of "cm_compacted_count m"]
    by (auto simp: view_ok_def notify_message_added_with_def notify_message_added_blocks_def message_char_count_def)
  moreover have "task_ok k (msgs @ [msg]) (notify_message_added_with env msg m)"
    using t le snoc[of "cm_compacted_count m + cm_pending_cutoff m"]
    by (auto simp: task_ok_def notify_message_added_with_def notify_message_added_blocks_def Let_def split: option.splits)
  ultimately show ?thesis by (simp add: core_ok_def)
qed

lemma core_ok_restored:
  assumes "core_ok env k msgs m" "persisted_state m = Some st"
  shows "core_ok env k msgs (restore_persisted_state_with env st msgs m')"
proof -
  have v: "view_ok env k msgs m" using assms(1) by (simp add: core_ok_def)
  have "sc_compacted_count st = cm_compacted_count m" using assms(2) by (auto simp: persisted_state_def)
  moreover have "cm_compacted_count m \<le> length msgs" using v by (simp add: view_ok_def)
  ultimately show ?thesis using v
    by (auto simp: core_ok_def view_ok_def task_ok_def restore_persisted_state_with_def restore_persisted_state_def
        active_messages_def Let_def)
qed

lemma core_push_embedding [simp]: "manager_core (push_embedding_snapshot env s m) = manager_core m"
proof -
  obtain r m1 where c: "cached_semantic_embedding env (take_chars EMBED_MAX_CHARS_PER_MSG s) m = (r, m1)" by fastforce
  then have "manager_core m1 = manager_core m"
    using core_cached[of env "take_chars EMBED_MAX_CHARS_PER_MSG s" m] by simp
  with c show ?thesis by (cases r) (simp_all add: push_embedding_snapshot_def)
qed

lemma core_ok_run_task: "core_ok env k msgs m \<Longrightarrow> core_ok env k msgs (run_task env provider d m)"
  by (auto simp: core_ok_def view_ok_def task_ok_def run_task_def Let_def split: option.splits)

lemma session_core: "session_run env cfg k msgs m \<Longrightarrow> core_ok env k msgs m"
proof (induction rule: session_run.induct)
  case fresh
  show ?case
    by (simp add: core_ok_def view_ok_def task_ok_def CompactionManager_new_def results_closed_def result_ids_def)
next
  case (seeded msgs)
  then show ?case
    by (simp add: core_ok_def view_ok_def task_ok_def CompactionManager_new_def seed_restored_messages_with_def)
next
  case (answered k msgs m)
  then show ?case by (auto simp: core_ok_def view_ok_def task_ok_def Let_def split: option.splits)
next
  case (observed k msgs m t)
  show ?case by (rule core_ok_cong[OF _ observed(2)])
      (simp add: push_token_snapshot_def update_observed_input_tokens_def manager_core_def)
next
  case (embedded k msgs m s)
  show ?case by (rule core_ok_cong[OF _ embedded(2)]) simp
next
  case (switched k msgs m mode b)
  show ?case by (rule core_ok_cong[OF _ switched(2)]) (simp add: set_mode_def set_budget_def manager_core_def)
next
  case (polled k msgs m)
  show ?case by (rule core_ok_cong[OF _ core_ok_apply[OF polled(2)]])
      (simp add: poll_compaction_event_with_def take_compaction_event_def)
next
  case (sent k msgs m)
  show ?case by (rule core_ok_cong[OF _ core_ok_apply[OF sent(2)]])
      (simp add: messages_for_api_with_def Let_def)
qed (simp_all add: core_ok_restored core_ok_added core_ok_maybe_start core_ok_force core_ok_hard core_ok_run_task)

lemma results_closed_summary: "results_closed ms \<Longrightarrow> results_closed (summary_message s # ms)"
  by (auto simp: results_closed_def result_ids_def use_ids_def summary_message_def block_results_def
      split: option.splits)

section \<open>Properties\<close>

text \<open>
  C3: Along every session in which the emergency compaction does not run while a task is pending,
  the messages sent to the provider are the summary, if there is one, followed by a suffix of the
  conversation; messages are left out only in favour of a summary, the last message is always sent,
  and every tool result that is sent is sent with its tool call.
\<close>

theorem sent_messages_well_formed:
  assumes "session_run env cfg k msgs m" and "messages_for_api_with env msgs m = (out, m')"
  shows "\<exists>c. out = (case cm_active_summary m' of Some s \<Rightarrow> [summary_message s] | None \<Rightarrow> []) @ drop c msgs \<and>
             (c = 0 \<or> c < length msgs \<and> cm_active_summary m' \<noteq> None) \<and> results_closed out"
proof -
  have "m' = snd (messages_for_api_with env msgs m)" using assms(2) by simp
  with session_core[OF session_run.sent[OF assms(1)]] have v: "view_ok env k msgs m'" by (simp add: core_ok_def)
  have out: "out = (case cm_active_summary m' of Some s \<Rightarrow> [summary_message s] | None \<Rightarrow> []) @ drop (cm_compacted_count m') msgs"
    using assms(2) view_ok_active[OF v] by (auto simp: messages_for_api_with_def Let_def split: option.splits)
  moreover have "results_closed out"
    using v results_closed_summary by (simp add: out view_ok_def split: option.splits)
  ultimately show ?thesis using v by (auto simp: view_ok_def)
qed

text \<open>
  Along such a session the rolling size estimate of the active messages is exact, and it is read
  without scanning the messages.
\<close>

theorem rolling_estimate_exact:
  assumes "session_run env cfg k msgs m"
  shows "active_message_chars_with env m msgs = cm_active_message_chars m \<and>
         cm_active_message_chars m = sum_list (map (message_char_count (env_json_str env)) (active_messages m msgs))"
proof -
  have v: "view_ok env k msgs m" using session_core[OF assms] by (simp add: core_ok_def)
  then show ?thesis using view_ok_active[OF v]
    by (simp add: active_message_chars_with_def active_messages_count_def view_ok_def)
qed

text \<open>
  Along such a session, when a finished task is applied the messages that are no longer sent are
  exactly those the task was given to summarize.
\<close>

theorem task_summarizes_what_is_dropped:
  assumes "session_run env cfg k msgs m"
    and "cm_pending_task m = Some t" and "bt_outcome t = Some (TaskOk r)"
  shows "bt_messages t @ active_messages (check_and_apply_compaction_with env msgs m) msgs = active_messages m msgs"
proof -
  have v: "view_ok env k msgs m" and t: "task_ok k msgs m"
    using session_core[OF assms(1)] by (simp_all add: core_ok_def)
  let ?m = "check_and_apply_compaction_with env msgs m"
  have ok: "view_ok env k msgs ?m"
    using session_core[OF session_run.polled[OF assms(1)]] 
    by (simp add: core_ok_def poll_compaction_event_with_def take_compaction_event_def view_ok_cong[OF core_updates(2)])
  have "manager_core ?m = manager_core (apply_result env msgs r (m\<lparr>cm_pending_task := None\<rparr>))"
    using assms(2,3) by (simp add: check_and_apply_compaction_with_def)
  then have "cm_compacted_count ?m = cm_compacted_count m + cm_pending_cutoff m"
    by (simp add: core_apply_result) (simp add: manager_core_def)
  then show ?thesis using t assms(2) view_ok_active[OF v] view_ok_active[OF ok]
    by (simp add: task_ok_def Let_def) (metis append_take_drop_id drop_drop add.commute)
qed

text \<open>The stored messages of a session restore the state that its messages restore.\<close>

lemma stored_restore_agrees:
  "seed_restored_stored_messages_with env (map msg_content msgs) m = seed_restored_messages_with env msgs m"
  "restore_persisted_stored_state_with env st (map msg_content msgs) m = restore_persisted_state_with env st msgs m"
  by (simp_all add: seed_restored_stored_messages_with_def seed_restored_messages_with_def comp_def
      restore_persisted_stored_state_with_def restore_persisted_state_with_def restore_persisted_state_def
      active_messages_def drop_map Let_def message_char_count_def[abs_def])

section \<open>The thresholds\<close>

lemma thresholds:
  "COMPACTION_THRESHOLD = 13421773 / 16777216" "CRITICAL_THRESHOLD = 15938355 / 16777216"
proof -
  have u: "(2::rat) powi (- 1 - (int 24 - 1)) = 1 / 16777216" by (simp add: power_int_def power_divide)
  have b: "2 powi (- 1) \<le> (80 / 100 :: rat)" "(80 / 100 :: rat) < 2 powi (- 1 + 1)"
    "2 powi (- 1) \<le> (95 / 100 :: rat)" "(95 / 100 :: rat) < 2 powi (- 1 + 1)"
    by (simp_all add: power_int_def)
  show "COMPACTION_THRESHOLD = 13421773 / 16777216"
    unfolding COMPACTION_THRESHOLD_def fl_binade[OF b(1,2), of 24] u
    by (subst half_even_eqI[of _ 13421773]) simp_all
  show "CRITICAL_THRESHOLD = 15938355 / 16777216"
    unfolding CRITICAL_THRESHOLD_def fl_binade[OF b(3,4), of 24] u
    by (subst half_even_eqI[of _ 15938355]) simp_all
qed

lemma float_ge_mono: "float_ge u a \<Longrightarrow> b \<le> a \<Longrightarrow> float_ge u b"
  by (cases u) auto

lemma fl_small_nat: "n < 16777216 \<Longrightarrow> fl32 (of_nat n) = of_nat n"
  by (rule fl_of_nat) auto

lemma fl_large_nat: "16777216 \<le> n \<Longrightarrow> 16777216 \<le> fl32 (of_nat n)"
proof -
  assume n: "16777216 \<le> n"
  have "2 powi 24 \<le> (16777216 :: rat)" "(16777216 :: rat) < 2 powi (24 + 1)" by (simp_all add: power_int_def)
  from fl_in_binade(1)[OF this, of 24] have "16777216 \<le> fl32 16777216" by (simp add: power_int_def)
  also have "\<dots> \<le> fl32 (of_nat n)" using n by (intro fl_mono) (auto simp: of_nat_le_iff[of 16777216 n, symmetric])
  finally show ?thesis .
qed

lemma quotient_reaches_threshold:
  assumes "0 < b" "b \<le> 4194304" "t < 16777216"
  shows "COMPACTION_THRESHOLD \<le> fl32 (of_nat t / of_nat b) \<longleftrightarrow> 4 * b \<le> 5 * t"
proof
  assume "4 * b \<le> 5 * t"
  then have "of_nat (4 * b) \<le> (of_nat (5 * t) :: rat)" by (simp only: of_nat_le_iff)
  then have "4 * of_nat b \<le> 5 * (of_nat t :: rat)" by simp
  then have "80 / 100 \<le> (of_nat t / of_nat b :: rat)" using assms(1) by (simp add: field_simps)
  then show "COMPACTION_THRESHOLD \<le> fl32 (of_nat t / of_nat b)"
    unfolding COMPACTION_THRESHOLD_def by (intro fl_mono) auto
next
  assume th: "COMPACTION_THRESHOLD \<le> fl32 (of_nat t / of_nat b)"
  show "4 * b \<le> 5 * t"
  proof (rule ccontr)
    assume "\<not> 4 * b \<le> 5 * t"
    then have "5 * t + 1 \<le> 4 * b" by simp
    then have "of_nat (5 * t + 1) \<le> (of_nat (4 * b) :: rat)" by (simp only: of_nat_le_iff)
    then have q: "5 * (of_nat t :: rat) + 1 \<le> 4 * of_nat b" by simp
    let ?q = "of_nat t / of_nat b :: rat"
    have b: "0 < (of_nat b :: rat)" "(of_nat b :: rat) \<le> 4194304"
      using assms(1,2) by (simp_all add: of_nat_le_iff[of b 4194304, symmetric])
    have tb: "of_nat t * 16777216 \<le> 13421772 * (of_nat b :: rat)" using q b(2) by linarith
    from tb have q': "?q * 16777216 \<le> 13421772" using b(1) by (simp add: pos_divide_le_eq)
    show False
    proof (cases "?q < 1 / 2")
      case True
      have "fl32 ?q \<le> fl32 (1 / 2)" using True by (intro fl_mono) auto
      also have "fl32 (1 / 2) = 1 / 2"
      proof -
        have "2 powi (- 1) \<le> (1 / 2 :: rat)" "(1 / 2 :: rat) < 2 powi (- 1 + 1)" by (simp_all add: power_int_def)
        from fl_binade[OF this, of 24] have "fl32 (1 / 2) = of_int (half_even ((1 / 2) / (1 / 16777216))) * (1 / 16777216)"
          by (simp add: power_int_def power_divide)
        then show ?thesis by (simp add: half_even_eqI[of _ 8388608])
      qed
      finally show False using th by (simp add: thresholds)
    next
      case False
      have "(of_nat t :: rat) < of_nat b" using tb b(1) by linarith
      then have "?q < 1" using b(1) by (simp add: pos_divide_less_eq)
      have bin: "2 powi (- 1) \<le> ?q" "?q < 2 powi (- 1 + 1)"
        using False \<open>?q < 1\<close> by (simp_all add: power_int_def)
      have u: "(2::rat) powi (- 1 - (int 24 - 1)) = 1 / 16777216" by (simp add: power_int_def power_divide)
      have "half_even (?q / (1 / 16777216)) \<le> half_even (of_int 13421772)"
        using q' by (intro half_even_mono) simp
      then have h: "half_even (?q / (1 / 16777216)) \<le> 13421772" by (simp only: half_even_of_int)
      have "fl32 ?q = of_int (half_even (?q / (1 / 16777216))) * (1 / 16777216)"
        using fl_binade[OF bin, of 24] unfolding u .
      also have "\<dots> \<le> of_int 13421772 * (1 / 16777216)"
        by (rule mult_right_mono[OF of_int_le_iff[THEN iffD2, OF h]]) simp
      finally show False using th by (simp add: thresholds)
    qed
  qed
qed

lemma usage_reaches_threshold:
  assumes "0 < b" "b \<le> 4194304"
  shows "float_ge (usage_of t b) COMPACTION_THRESHOLD \<longleftrightarrow> 4 * b \<le> 5 * t"
proof (cases "t < 16777216")
  case True
  have "usage_of t b = Fin (fl32 (of_nat t / of_nat b))"
    using assms True by (simp add: usage_of_def fl_small_nat)
  with quotient_reaches_threshold[OF assms True] show ?thesis by simp
next
  case False
  then have large: "16777216 \<le> fl32 (of_nat t)" by (intro fl_large_nat) simp
  have b: "fl32 (of_nat b) = of_nat b" "(of_nat b :: rat) \<le> 4194304" "0 < (of_nat b :: rat)"
    using assms by (simp_all add: fl_small_nat of_nat_le_iff[of b 4194304, symmetric])
  have "80 / 100 \<le> fl32 (of_nat t) / of_nat b" using large b by (simp add: field_simps)
  then have "COMPACTION_THRESHOLD \<le> fl32 (fl32 (of_nat t) / of_nat b)"
    unfolding COMPACTION_THRESHOLD_def by (intro fl_mono) auto
  then show ?thesis using assms False b by (simp add: usage_of_def)
qed

text \<open>
  In the reactive mode compaction starts exactly when no task is pending, a message arrived since
  the history was restored, more than ten messages are active, and the tokens have reached four fifths
  of the budget: for budgets up to 4194304 tokens the roundings of the \<^verbatim>\<open>f32\<close> division do not matter.
\<close>

theorem reactive_trigger_exact:
  assumes "cm_mode m = Reactive" and "0 < cm_token_budget m" and "cm_token_budget m \<le> 4194304"
  shows "should_compact_with env m msgs =
    Some (\<not> cm_suppress m \<and> cm_pending_task m = None \<and> 10 < length (active_messages m msgs) \<and>
          4 * cm_token_budget m \<le> 5 * effective_token_count_with env m msgs)"
  using assms usage_reaches_threshold[OF assms(2,3)]
  by (auto simp: should_compact_with_def context_usage_with_def RECENT_TURNS_TO_KEEP_def)

text \<open>
  A trigger panics exactly when the configured stall window is 0 and the proactive guards before
  it pass.
\<close>

theorem trigger_panics_iff:
  "should_compact_with env m msgs = None \<longleftrightarrow>
     cc_stall_window (cm_config m) = 0 \<and> \<not> cm_suppress m \<and> cm_mode m \<noteq> Reactive \<and>
     RECENT_TURNS_TO_KEEP < length (active_messages m msgs) \<and> cm_pending_task m = None \<and>
     \<not> float_lt (context_usage_with env m msgs) (cc_proactive_floor (cm_config m)) \<and>
     cc_min_samples (cm_config m) \<le> length (cm_token_history m)"
proof -
  have block: "anti_signals_block env m msgs = None \<longleftrightarrow>
     cc_stall_window (cm_config m) = 0 \<and> cm_pending_task m = None \<and>
     \<not> float_lt (context_usage_with env m msgs) (cc_proactive_floor (cm_config m)) \<and>
     cc_min_samples (cm_config m) \<le> length (cm_token_history m)"
    by (auto simp: anti_signals_block_def Let_def split: if_splits)
  have pro: "should_compact_proactively env m msgs = None \<longleftrightarrow> anti_signals_block env m msgs = None"
    by (auto simp: should_compact_proactively_def split: option.splits bool.splits)
  have sem: "should_compact_semantic env m msgs = None \<longleftrightarrow> anti_signals_block env m msgs = None"
    using pro by (auto simp: should_compact_semantic_def Let_def split: option.splits bool.splits)
  show ?thesis
    by (cases "cm_mode m") (auto simp: should_compact_with_def Let_def pro sem block)
qed

section \<open>Overlapping compactions\<close>

lemma summary_apply_result:
  "cr_openai_encrypted_content r = None \<Longrightarrow>
     cm_active_summary (apply_result env msgs r m) =
       Some \<lparr>sum_text = cr_summary_text r, sum_openai_encrypted_content = None,
             sum_covers_up_to_turn = cr_covers_up_to_turn r, sum_original_turn_count = cm_pending_cutoff m\<rparr>"
  by (simp add: apply_result_def discard_oversized_openai_native_compaction_def oversized_payload_def Let_def)

text \<open>A task that is pending while the emergency compaction drops \<open>n\<close> messages is applied on top of it.\<close>

lemma overlap_effect:
  assumes task: "cm_pending_task m = Some \<lparr>bt_messages = ms, bt_summary = s, bt_outcome = None\<rparr>"
    and hard: "hard_compact_with env msgs m = (Inr n, m1)"
    and result: "generate_compaction_artifact env p d ms s = Inr r" "cr_openai_encrypted_content r = None"
    and range: "cm_compacted_count m + n + cm_pending_cutoff m \<le> length msgs"
  shows "fst (messages_for_api_with env msgs (run_task env p d m1)) =
    summary_message \<lparr>sum_text = cr_summary_text r, sum_openai_encrypted_content = None,
      sum_covers_up_to_turn = cr_covers_up_to_turn r, sum_original_turn_count = cm_pending_cutoff m\<rparr>
    # drop (cm_compacted_count m + n + cm_pending_cutoff m) msgs"
proof -
  define r' where "r' = r\<lparr>cr_duration_ms := d, cr_summarized_messages := length ms\<rparr>"
  define m2 where "m2 = (run_task env p d m1)\<lparr>cm_pending_task := None\<rparr>"
  define m3 where "m3 = apply_result env msgs r' m2"
  have f: "cm_compacted_count m1 = cm_compacted_count m + n" "cm_pending_cutoff m1 = cm_pending_cutoff m"
    "cm_pending_task m1 = cm_pending_task m"
    using hard_compact_effect(4)[OF hard] by (simp_all add: manager_core_def)
  have f2: "cm_compacted_count m2 = cm_compacted_count m + n" "cm_pending_cutoff m2 = cm_pending_cutoff m"
    by (simp_all add: m2_def run_task_def f)
  have applied: "check_and_apply_compaction_with env msgs (run_task env p d m1) = m3"
    by (simp add: check_and_apply_compaction_with_def run_task_def f task result m3_def m2_def r'_def)
  have "manager_core m3 = manager_core (apply_result env msgs r' m2)" by (simp add: m3_def)
  then have c: "cm_compacted_count m3 = cm_compacted_count m + n + cm_pending_cutoff m"
    by (simp add: core_apply_result f2) (simp add: manager_core_def)
  have s: "cm_active_summary m3 = Some \<lparr>sum_text = cr_summary_text r, sum_openai_encrypted_content = None,
      sum_covers_up_to_turn = cr_covers_up_to_turn r, sum_original_turn_count = cm_pending_cutoff m\<rparr>"
    using result(2) by (simp add: m3_def summary_apply_result r'_def f2)
  then have "fst (discard_oversized_openai_native_compaction m3) = m3"
    by (simp add: discard_oversized_openai_native_compaction_def oversized_payload_def)
  then show ?thesis using range
    by (simp add: messages_for_api_with_def Let_def applied s active_messages_def c)
qed

text \<open>The reactive mode starts a task for all but the last ten messages.\<close>

lemma maybe_start_plain:
  assumes "cm_mode m = Reactive" "\<not> cm_suppress m" "cm_pending_task m = None" "cm_compacted_count m = 0"
    and "result_ids msgs = {}" "10 < length msgs"
    and full: "float_ge (context_usage_with env m msgs) CRITICAL_THRESHOLD"
  shows "maybe_start_compaction_with env msgs m =
    Some (start_task (length msgs - 10) (mode_trigger_label m) msgs m)"
proof -
  have act: "active_messages m msgs = msgs" using assms(4) by (simp add: active_messages_def)
  have "float_ge (context_usage_with env m msgs) COMPACTION_THRESHOLD"
    by (rule float_ge_mono[OF full]) (simp add: thresholds)
  then have "should_compact_with env m msgs = Some True"
    using assms(1-3,6) by (simp add: should_compact_with_def act RECENT_TURNS_TO_KEEP_def)
  then show ?thesis using assms(1,6)
    by (simp add: maybe_start_compaction_with_def act safe_cutoff_no_tools[OF assms(5)] RECENT_TURNS_TO_KEEP_def)
qed

text \<open>
  C24: At the critical threshold \<^verbatim>\<open>ensure_context_fits\<close> starts the background task and then compacts
  the same messages at once; when the task ends it is applied on top. With 11 to 20 messages, none
  of them a tool result, that each of the two compactions reduces to the last ten, the summary that is
  sent covers the first \<open>n\<close> messages, and the next \<open>n\<close> messages are sent neither in it nor as such.
\<close>

theorem overlapping_compactions_lose_messages:
  assumes "cm_mode m = Reactive" "\<not> cm_suppress m" "cm_pending_task m = None" "cm_compacted_count m = 0"
    and "result_ids msgs = {}" "10 < length msgs" "length msgs \<le> 20"
    and full: "float_ge (context_usage_with env m msgs) CRITICAL_THRESHOLD"
    and fits: "sum_list (map (message_char_count (env_json_str env)) (drop (length msgs - 10) msgs)) div CHARS_PER_TOKEN
                 \<le> cm_token_budget m"
    and result: "generate_compaction_artifact env p d (take (length msgs - 10) msgs) (cm_active_summary m) = Inr r"
      "cr_openai_encrypted_content r = None"
  shows "\<exists>m1. ensure_context_fits env msgs m = Some (HardCompacted (length msgs - 10), m1) \<and>
      fst (messages_for_api_with env msgs (run_task env p d m1)) =
        summary_message \<lparr>sum_text = cr_summary_text r, sum_openai_encrypted_content = None,
          sum_covers_up_to_turn = cr_covers_up_to_turn r, sum_original_turn_count = length msgs - 10\<rparr>
        # drop (2 * (length msgs - 10)) msgs"
proof -
  define n where "n = length msgs - 10"
  have act: "active_messages m msgs = msgs" using assms(4) by (simp add: active_messages_def)
  have n: "0 < n" "n \<le> length msgs" "2 * n \<le> length msgs" using assms(6,7) by (simp_all add: n_def)
  note safe = safe_cutoff_no_tools[OF assms(5)]
  let ?m = "start_task n (mode_trigger_label m) msgs m"
  have start: "maybe_start_compaction_with env msgs m = Some ?m"
    using maybe_start_plain[OF assms(1-6) full] by (simp add: n_def)
  have usage: "context_usage_with env ?m msgs = context_usage_with env m msgs"
    by (simp add: context_usage_with_def effective_token_count_with_def token_estimate_with_def observed_tokens_def
        active_message_chars_with_def active_messages_count_def active_messages_def start_task_def)
  have act': "active_messages ?m msgs = msgs" using assms(4) by (simp add: active_messages_def start_task_def)
  have keep: "min RECENT_TURNS_TO_KEEP (length msgs - 1) = 10"
    using assms(6) by (simp add: RECENT_TURNS_TO_KEEP_def)
  have "suffix_sums (map (message_char_count (env_json_str env)) msgs) ! n div CHARS_PER_TOKEN \<le> cm_token_budget m"
    using fits n by (simp add: suffix_sums_nth drop_map n_def)
  then have cut: "hard_cutoff msgs (suffix_sums (map (message_char_count (env_json_str env)) msgs)) (cm_token_budget m) 10 = n"
    using n by (subst hard_cutoff.simps) (simp add: safe Let_def n_def)
  have budget: "cm_token_budget ?m = cm_token_budget m" by (simp add: start_task_def)
  obtain m1 where hard: "hard_compact_with env msgs ?m = (Inr n, m1)"
    using assms(6) n keep cut
    by (simp add: hard_compact_with_def Let_def act' budget MIN_TURNS_TO_KEEP_def)
  have "ensure_context_fits env msgs m = Some (HardCompacted n, m1)"
    using full by (simp add: ensure_context_fits_def start usage hard Let_def)
  moreover have "cm_pending_task ?m = Some \<lparr>bt_messages = take n msgs, bt_summary = cm_active_summary m, bt_outcome = None\<rparr>"
    by (simp add: start_task_def)
  note overlap_effect[OF this hard, of p d r]
  ultimately show ?thesis using result n assms(4)
    by (auto simp: start_task_def n_def[symmetric] mult_2)
qed

section \<open>The emergency compaction and the cache\<close>

lemma hard_cutoff_choice:
  "hard_cutoff active remaining budget keep = c \<Longrightarrow>
     0 < c \<and> remaining ! c div CHARS_PER_TOKEN \<le> budget \<or>
     c = safe_compaction_cutoff active (length active - MIN_TURNS_TO_KEEP)"
proof (induction active remaining budget keep rule: hard_cutoff.induct)
  case (1 active remaining budget keep)
  from 1(2) show ?case
    by (subst (asm) hard_cutoff.simps) (use 1(1) in \<open>auto simp: Let_def split: if_splits\<close>)
qed

text \<open>
  The emergency compaction drops a prefix of the active messages and keeps at least one; what
  remains has the tool call of each of its tool results and fits into the budget, unless not even
  the last two turns (with the calls they need) fit. The size estimate is exact afterwards, an earlier
  summary is carried over, and an error leaves the manager as it was.
\<close>

theorem hard_compact_contract:
  "case hard_compact_with env msgs m of
     (Inr n, m') \<Rightarrow>
       (let active = active_messages m msgs; kept = drop n active in
         0 < n \<and> n < length active \<and> results_closed kept \<and>
         cm_compacted_count m' = cm_compacted_count m + n \<and>
         cm_active_message_chars m' = sum_list (map (message_char_count (env_json_str env)) kept) \<and>
         \<not> cm_active_message_chars_dirty m' \<and> cm_active_summary m' \<noteq> None \<and>
         (sum_list (map (message_char_count (env_json_str env)) kept) div CHARS_PER_TOKEN \<le> cm_token_budget m \<or>
          n = safe_compaction_cutoff active (length active - MIN_TURNS_TO_KEEP)))
   | (Inl e, m') \<Rightarrow> m' = m"
proof -
  obtain r m' where h: "hard_compact_with env msgs m = (r, m')" by fastforce
  show ?thesis
  proof (cases r)
    case (Inl e)
    with h hard_compact_error[of env msgs m e m'] show ?thesis by simp
  next
    case (Inr n)
    note h' = h[unfolded Inr]
    let ?a = "active_messages m msgs"
    let ?sums = "suffix_sums (map (message_char_count (env_json_str env)) ?a)"
    have f: "cm_compacted_count m' = cm_compacted_count m + n" "\<not> cm_active_message_chars_dirty m'"
      "cm_active_message_chars m' = sum_list (map (message_char_count (env_json_str env)) (drop n ?a))"
      "cm_active_summary m' \<noteq> None"
      using hard_compact_effect(4)[OF h'] by (simp_all add: manager_core_def)
    have "n = hard_cutoff ?a ?sums (cm_token_budget m) (min RECENT_TURNS_TO_KEEP (length ?a - 1))"
      using h' by (auto simp: hard_compact_with_def Let_def split: if_splits)
    from hard_cutoff_choice[OF this[symmetric]]
    have "?sums ! n div CHARS_PER_TOKEN \<le> cm_token_budget m \<or>
        n = safe_compaction_cutoff ?a (length ?a - MIN_TURNS_TO_KEEP)" by blast
    moreover have "?sums ! n = sum_list (map (message_char_count (env_json_str env)) (drop n ?a))"
      using hard_compact_effect(2)[OF h'] by (simp add: suffix_sums_nth drop_map)
    ultimately show ?thesis using hard_compact_effect(1-3)[OF h'] f by (simp add: h Inr Let_def)
  qed
qed

text \<open>A sequence of texts embedded through the cache.\<close>

fun embed_texts ::
  "'e compaction_env \<Rightarrow> string list \<Rightarrow> 'e compaction_manager \<Rightarrow> 'e option list \<times> 'e compaction_manager" where
  "embed_texts env [] m = ([], m)"
| "embed_texts env (s # ss) m =
     (let (e, m) = cached_semantic_embedding env s m; (es, m) = embed_texts env ss m in (e # es, m))"

definition cache_ok :: "'e compaction_env \<Rightarrow> string set \<Rightarrow> (u64, 'e option \<times> u64) hmap \<Rightarrow> bool" where
  "cache_ok env T cache \<longleftrightarrow>
     distinct (map fst cache) \<and> length cache \<le> SEMANTIC_EMBED_CACHE_CAPACITY \<and>
     (\<forall>(k, e, r) \<in> set cache. \<exists>s\<in>T. k = env_cache_key env s \<and> e = env_embed env s)"

lemma length_hput: "length (hput k v al) = (if k \<in> fst ` set al then length al else Suc (length al))"
  by (induction al) auto

lemma set_hput_subset: "set (hput k v al) \<subseteq> insert (k, v) (set al)"
  by (induction al) auto

lemma set_hdel_subset: "set (hdel k al) \<subseteq> set al"
  by (induction al) auto

lemma fold_recent_in:
  "fst (fold (\<lambda>(k, _, r) best. if r < snd best then (k, r) else best) rest best) \<in>
     insert (fst best) (fst ` set rest)"
proof (induction rest arbitrary: best)
  case (Cons x rest)
  obtain k e r where x: "x = (k, e, r)" by (metis prod.exhaust)
  show ?case using Cons.IH[of "if r < snd best then (k, r) else best"] by (auto simp: x split: if_splits)
qed simp

lemma least_recent_in:
  assumes "cache \<noteq> []"
  shows "\<exists>k. least_recent cache = Some k \<and> k \<in> fst ` set cache"
proof -
  obtain k e r rest where c: "cache = (k, e, r) # rest" using assms by (metis list.exhaust prod.exhaust)
  show ?thesis using fold_recent_in[of rest "(k, r)"] by (simp add: c least_recent_def)
qed

lemma length_hdel_lt: "k \<in> fst ` set al \<Longrightarrow> length (hdel k al) < length al"
  by (induction al) (auto simp: le_imp_less_Suc length_delete_le)

lemma cache_ok_hput:
  assumes "cache_ok env T c" "s \<in> T"
    and "length c < SEMANTIC_EMBED_CACHE_CAPACITY \<or> env_cache_key env s \<in> fst ` set c"
  shows "cache_ok env T (hput (env_cache_key env s) (env_embed env s, r) c)"
proof -
  define P where "P = (\<lambda>(k, e, r :: u64). \<exists>s\<in>T. k = env_cache_key env s \<and> e = env_embed env s)"
  have "\<forall>x \<in> insert (env_cache_key env s, env_embed env s, r) (set c). P x"
    using assms(1,2) by (auto simp: cache_ok_def P_def)
  with set_hput_subset[of "env_cache_key env s" "(env_embed env s, r)" c]
  have "\<forall>x \<in> set (hput (env_cache_key env s) (env_embed env s, r) c). P x" by blast
  moreover have "length (hput (env_cache_key env s) (env_embed env s, r) c) \<le> SEMANTIC_EMBED_CACHE_CAPACITY"
    using assms by (auto simp: cache_ok_def length_hput)
  ultimately show ?thesis using assms(1) by (simp add: cache_ok_def distinct_update flip: P_def)
qed

lemma cache_ok_insert:
  assumes ok: "cache_ok env T (cm_semantic_cache m)" and s: "s \<in> T"
  shows "cache_ok env T (cm_semantic_cache (insert_semantic_embedding_cache (env_cache_key env s) (env_embed env s) m))"
proof -
  let ?c = "cm_semantic_cache m"
  define c where "c = (if length ?c \<ge> SEMANTIC_EMBED_CACHE_CAPACITY
    then (case least_recent ?c of Some k \<Rightarrow> hdel k ?c | None \<Rightarrow> ?c) else ?c)"
  have "set c \<subseteq> set ?c" "distinct (map fst c)"
    using ok set_hdel_subset[of _ ?c] by (auto simp: c_def cache_ok_def distinct_delete split: option.splits)
  moreover have "length c < SEMANTIC_EMBED_CACHE_CAPACITY"
  proof (cases "length ?c \<ge> SEMANTIC_EMBED_CACHE_CAPACITY")
    case True
    then have "?c \<noteq> []" by (auto simp: SEMANTIC_EMBED_CACHE_CAPACITY_def)
    from least_recent_in[OF this] obtain k where "least_recent ?c = Some k" "k \<in> fst ` set ?c" by blast
    with True length_hdel_lt[of k ?c] ok show ?thesis by (simp add: c_def cache_ok_def)
  qed (simp add: c_def)
  ultimately have c: "cache_ok env T c" and room: "length c < SEMANTIC_EMBED_CACHE_CAPACITY"
    using ok by (auto simp: cache_ok_def dest!: subsetD)
  have "cm_semantic_cache (insert_semantic_embedding_cache (env_cache_key env s) (env_embed env s) m) =
      hput (env_cache_key env s) (env_embed env s, cm_semantic_counter m) c"
    by (simp add: insert_semantic_embedding_cache_def Let_def c_def)
  then show ?thesis using cache_ok_hput[OF c s] room by simp
qed

lemma cached_embedding_ok:
  assumes ok: "cache_ok env T (cm_semantic_cache m)" and s: "s \<in> T" and inj: "inj_on (env_cache_key env) T"
  shows "fst (cached_semantic_embedding env s m) = env_embed env s \<and>
         cache_ok env T (cm_semantic_cache (snd (cached_semantic_embedding env s m)))"
proof (cases "hget (cm_semantic_cache m) (env_cache_key env s)")
  case None
  then show ?thesis using cache_ok_insert[OF ok s] by (simp add: cached_semantic_embedding_def Let_def)
next
  case (Some er)
  obtain e r where er: "er = (e, r)" by fastforce
  from Some have "(env_cache_key env s, e, r) \<in> set (cm_semantic_cache m)" by (simp add: er map_of_SomeD)
  then obtain s' where "s' \<in> T" "env_cache_key env s = env_cache_key env s'" "e = env_embed env s'"
    using ok by (auto simp: cache_ok_def)
  with inj s have e: "e = env_embed env s" by (metis inj_onD)
  have "env_cache_key env s \<in> fst ` set (cm_semantic_cache m)" using Some by (metis domI dom_map_of_conv_image_fst)
  then show ?thesis using Some ok s cache_ok_hput[OF ok, of s] by (simp add: cached_semantic_embedding_def er e)
qed

lemma embed_texts_ok:
  "cache_ok env T (cm_semantic_cache m) \<Longrightarrow> set ss \<subseteq> T \<Longrightarrow> inj_on (env_cache_key env) T \<Longrightarrow>
     fst (embed_texts env ss m) = map (env_embed env) ss \<and>
     cache_ok env T (cm_semantic_cache (snd (embed_texts env ss m)))"
proof (induction ss arbitrary: m)
  case (Cons s ss)
  obtain e m1 where c: "cached_semantic_embedding env s m = (e, m1)" by fastforce
  obtain es m2 where r: "embed_texts env ss m1 = (es, m2)" by fastforce
  from Cons.prems c cached_embedding_ok[of env T m s] have "e = env_embed env s" "cache_ok env T (cm_semantic_cache m1)"
    by simp_all
  with Cons.IH[of m1] Cons.prems c r show ?case by simp
qed simp

text \<open>
  The embedding cache is transparent and bounded: texts whose hashes do not collide get the
  embeddings the model gives, in any order and with any repetitions, and the cache never holds more
  than 256 entries.
\<close>

theorem embedding_cache_transparent:
  assumes "inj_on (env_cache_key env) (set texts)"
  shows "fst (embed_texts env texts (CompactionManager_new cfg)) = map (env_embed env) texts \<and>
         length (cm_semantic_cache (snd (embed_texts env texts (CompactionManager_new cfg)))) \<le> 256"
proof -
  have "cache_ok env (set texts) (cm_semantic_cache (CompactionManager_new cfg))"
    by (simp add: cache_ok_def CompactionManager_new_def)
  from embed_texts_ok[OF this order_refl assms] show ?thesis
    by (simp add: cache_ok_def SEMANTIC_EMBED_CACHE_CAPACITY_def)
qed

subsection \<open>Estimates that lose messages\<close>

text \<open>A history restored by its length alone is forgotten by the estimate when the next message arrives.\<close>

lemma counted_restore_forgets_history:
  "active_message_chars_with env
     (notify_message_added_with env msg (seed_restored_messages (length msgs) (CompactionManager_new cfg)))
     (msgs @ [msg]) = message_char_count (env_json_str env) msg"
  by (simp add: active_message_chars_with_def notify_message_added_with_def notify_message_added_blocks_def
      seed_restored_messages_def CompactionManager_new_def active_messages_count_def active_messages_def
      message_char_count_def)

text \<open>When the estimate is not trusted, applying a task subtracts the summarized messages from what remains.\<close>

lemma untrusted_estimate_subtracts_twice:
  assumes "cm_active_message_chars_dirty m" "cm_compacted_count m + cm_pending_cutoff m \<le> length msgs"
  shows "cm_active_message_chars (apply_result env msgs r m) =
    sum_list (map (message_char_count (env_json_str env)) (drop (cm_compacted_count m + cm_pending_cutoff m) msgs)) -
    sum_list (map (message_char_count (env_json_str env))
      (take (cm_pending_cutoff m) (drop (cm_compacted_count m) msgs)))"
proof -
  have "fst (snd (manager_core (apply_result env msgs r m))) =
      (sum_list (map (message_char_count (env_json_str env)) (drop (cm_compacted_count m + cm_pending_cutoff m) msgs)) -
       sum_list (map (message_char_count (env_json_str env)) (take (cm_pending_cutoff m) (drop (cm_compacted_count m) msgs))),
       False)"
    using assms by (simp add: core_apply_result active_message_chars_with_def active_messages_def)
  then show ?thesis by (simp add: manager_core_def)
qed

section \<open>Examples\<close>

definition demo_env :: "unit compaction_env" where
  "demo_env = \<lparr>env_json_str = \<lambda>j. [], env_alphanumeric = \<lambda>c. False, env_embed = \<lambda>s. if s = [] then None else Some (),
     env_mean_embedding = \<lambda>es. (), env_cosine = \<lambda>a b. 1, env_cache_key = \<lambda>s. of_nat (length s)\<rparr>"

definition demo_provider :: provider where
  "demo_provider = \<lparr>pv_native_compact = \<lambda>ms t c. None, pv_context_window = 200000, pv_complete_simple = \<lambda>p s. Inr ''S''\<rparr>"

definition text_message :: "char \<Rightarrow> message" where
  "text_message c = \<lparr>msg_role = User, msg_content = [Text [c] None], msg_timestamp = None, msg_tool_duration_ms = None\<rparr>"

definition demo_history :: "message list" where
  "demo_history = map text_message ''abcdefghijklmno''"

text \<open>Fourteen restored messages, a new one, and a request that reported 200000 tokens.\<close>

definition demo_manager :: "unit compaction_manager" where
  "demo_manager = push_token_snapshot 200000 (update_observed_input_tokens 200000
     (notify_message_added_with demo_env (text_message (CHR ''o''))
       (seed_restored_messages_with demo_env (map text_message ''abcdefghijklmn'') (CompactionManager_new CompactionConfig_default))))"

lemma demo_no_tools: "result_ids (map text_message s) = {}"
  by (auto simp: result_ids_def text_message_def block_results_def)

lemma demo_history_facts: "length demo_history = 15" "result_ids demo_history = {}"
  unfolding demo_history_def demo_no_tools by simp_all

lemma demo_session: "session_run demo_env CompactionConfig_default (length demo_history) demo_history demo_manager"
proof -
  have "results_closed (map text_message ''abcdefghijklmn'')" unfolding results_closed_def demo_no_tools by simp
  from session_run.observed[OF session_run.added[OF session_run.seeded[OF this], of "text_message (CHR ''o'')"]]
  have "session_run demo_env CompactionConfig_default 0 demo_history demo_manager"
    using demo_no_tools[of "''o''"] by (simp add: demo_manager_def demo_history_def)
  then show ?thesis by (rule session_run.answered)
qed

lemma demo_fields:
  "cm_mode demo_manager = Reactive" "\<not> cm_suppress demo_manager" "cm_pending_task demo_manager = None"
  "cm_compacted_count demo_manager = 0" "cm_token_budget demo_manager = 200000" "cm_active_summary demo_manager = None"
  "effective_token_count_with demo_env demo_manager demo_history = 200000"
  by (simp_all add: demo_manager_def push_token_snapshot_def update_observed_input_tokens_def
      notify_message_added_with_def notify_message_added_blocks_def seed_restored_messages_with_def
      CompactionManager_new_def CompactionConfig_default_def DEFAULT_TOKEN_BUDGET_def
      effective_token_count_with_def observed_tokens_def token_estimate_with_def estimate_compaction_tokens_def
      estimate_compaction_tokens_from_chars_def active_message_chars_with_def active_messages_count_def
      active_messages_def demo_history_def text_message_def message_char_count_def content_char_count_def
      CHARS_PER_TOKEN_def SYSTEM_OVERHEAD_TOKENS_def)

lemma demo_usage: "context_usage_with demo_env demo_manager demo_history = Fin 1"
  using fl_small_nat[of 200000] fl_small_nat[of 1] by (simp add: context_usage_with_def demo_fields usage_of_def)

lemma demo_artifact:
  "generate_compaction_artifact demo_env demo_provider d ms s =
     Inr \<lparr>cr_summary_text = ''S'', cr_openai_encrypted_content = None, cr_covers_up_to_turn = length ms,
          cr_duration_ms = d, cr_summarized_messages = length ms\<rparr>"
  by (simp add: generate_compaction_artifact_def demo_provider_def Let_def)

lemma demo_started:
  "maybe_start_compaction_with demo_env demo_history demo_manager =
     Some (start_task 5 ''reactive'' demo_history demo_manager)"
  using maybe_start_plain[OF demo_fields(1-4) demo_history_facts(2), of demo_env]
  by (simp add: demo_usage thresholds mode_trigger_label_def demo_fields demo_history_facts)

definition demo_finished :: "unit compaction_manager" where
  "demo_finished = run_task demo_env demo_provider 7 (start_task 5 ''reactive'' demo_history demo_manager)"

lemma demo_finished_session:
  "session_run demo_env CompactionConfig_default (length demo_history) demo_history demo_finished"
  unfolding demo_finished_def by (rule session_run.finished[OF session_run.started[OF demo_session demo_started]])

theorem sent_messages_well_formed_witness:
  "\<exists>out m' c. messages_for_api_with demo_env demo_history demo_finished = (out, m') \<and>
     out = (case cm_active_summary m' of Some s \<Rightarrow> [summary_message s] | None \<Rightarrow> []) @ drop c demo_history \<and>
     results_closed out"
proof -
  obtain out m' where e: "messages_for_api_with demo_env demo_history demo_finished = (out, m')" by fastforce
  from sent_messages_well_formed[OF demo_finished_session e] e show ?thesis by blast
qed

theorem rolling_estimate_exact_witness:
  "active_message_chars_with demo_env demo_manager demo_history = cm_active_message_chars demo_manager"
  using rolling_estimate_exact[OF demo_session] by simp

theorem task_summarizes_what_is_dropped_witness:
  "map text_message ''abcde'' @ active_messages (check_and_apply_compaction_with demo_env demo_history demo_finished) demo_history =
     active_messages demo_finished demo_history"
proof -
  have "cm_pending_task demo_finished = Some \<lparr>bt_messages = take 5 demo_history, bt_summary = None,
      bt_outcome = Some (TaskOk \<lparr>cr_summary_text = ''S'', cr_openai_encrypted_content = None,
        cr_covers_up_to_turn = 5, cr_duration_ms = 7, cr_summarized_messages = 5\<rparr>)\<rparr>"
    by (simp add: demo_finished_def run_task_def start_task_def demo_artifact demo_fields demo_history_def)
  from task_summarizes_what_is_dropped[OF demo_finished_session this] show ?thesis
    by (simp add: demo_history_def)
qed

theorem reactive_trigger_exact_witness:
  "should_compact_with demo_env demo_manager demo_history = Some True"
  using reactive_trigger_exact[of demo_manager demo_env demo_history]
  by (simp add: demo_fields active_messages_def) (simp add: demo_history_def)

theorem overlapping_compactions_lose_messages_witness:
  "\<exists>m1 s. ensure_context_fits demo_env demo_history demo_manager = Some (HardCompacted 5, m1) \<and>
     fst (messages_for_api_with demo_env demo_history (run_task demo_env demo_provider 7 m1)) =
       summary_message s # map text_message ''klmno''"
proof -
  have "sum_list (map (message_char_count (env_json_str demo_env)) (drop 5 demo_history)) div CHARS_PER_TOKEN
      \<le> cm_token_budget demo_manager"
    by (simp add: demo_history_def demo_fields text_message_def message_char_count_def content_char_count_def CHARS_PER_TOKEN_def)
  then show ?thesis
    using overlapping_compactions_lose_messages[OF demo_fields(1-4) demo_history_facts(2), of demo_env demo_provider 7]
    by (auto simp: demo_history_facts demo_usage thresholds demo_artifact) (auto simp: demo_history_def)
qed

theorem embedding_cache_transparent_witness:
  "fst (embed_texts demo_env [''a'', ''bb'', [], ''a''] (CompactionManager_new CompactionConfig_default)) =
     [Some (), Some (), None, Some ()]"
proof -
  have "inj_on (env_cache_key demo_env) (set [''a'', ''bb'', [], ''a''])" by (simp add: demo_env_def inj_on_def)
  from embedding_cache_transparent[OF this, of CompactionConfig_default] show ?thesis by (simp add: demo_env_def)
qed

end
