(* ===== verification/Mobile_Sim.thy ===== *)
theory Mobile_Sim
  imports Rust_Prelude
begin

text \<open>
  Model of the state machine of \<^verbatim>\<open>crates/gcode-mobile-core/src/lib.rs\<close>: the simulated application
  state, the reducer, the fake backend that answers effects, the store with its logs, and replay
  traces.

  Sequence numbers and times are 64-bit words that wrap. The stack of pending actions of
  \<^verbatim>\<open>dispatch\<close> is a list whose head is the end of the vector. The loop that drains it terminates:
  only a tap produces an effect, and the actions that answer an effect are no taps.
\<close>

section \<open>Definitions\<close>

subsection \<open>State\<close>

datatype screen = Onboarding | Pairing | Chat

datatype connection_state = Disconnected | Connecting | Connected

datatype message_role = User | Assistant | System

record chat_message =
  cm_id :: string
  cm_role :: message_role
  cm_text :: string

record server_summary =
  sv_host :: string
  sv_port :: string
  sv_server_name :: string
  sv_server_version :: string

record pairing_form =
  pf_host :: string
  pf_port :: string
  pf_pair_code :: string
  pf_device_name :: string

definition PairingForm_default :: pairing_form where
  "PairingForm_default =
     \<lparr>pf_host = [], pf_port = ''7643'', pf_pair_code = [], pf_device_name = ''gcode simulator''\<rparr>"

record simulator_state =
  st_screen :: screen
  st_connection_state :: connection_state
  st_pairing :: pairing_form
  st_saved_servers :: "server_summary list"
  st_selected_server :: "server_summary option"
  st_status_message :: "string option"
  st_error_message :: "string option"
  st_messages :: "chat_message list"
  st_draft_message :: string
  st_active_session_id :: "string option"
  st_sessions :: "string list"
  st_available_models :: "string list"
  st_model_name :: "string option"
  st_is_processing :: bool

datatype scenario_name =
    SOnboarding | PairingReady | ConnectedChat | PairingInvalidCode | ServerUnreachable
  | ConnectedEmptyChat | ChatStreaming | ToolApprovalRequired | ToolFailed | NetworkReconnect
  | OfflineQueuedMessage | LongRunningTask

definition ScenarioName_ALL :: "scenario_name list" where
  "ScenarioName_ALL =
     [SOnboarding, PairingReady, ConnectedChat, PairingInvalidCode, ServerUnreachable,
      ConnectedEmptyChat, ChatStreaming, ToolApprovalRequired, ToolFailed, NetworkReconnect,
      OfflineQueuedMessage, LongRunningTask]"

definition ScenarioName_parse :: "string \<Rightarrow> scenario_name option" where
  "ScenarioName_parse value =
     (if value = ''onboarding'' then Some SOnboarding
      else if value = ''pairing_ready'' then Some PairingReady
      else if value = ''connected_chat'' then Some ConnectedChat
      else if value = ''pairing_invalid_code'' then Some PairingInvalidCode
      else if value = ''server_unreachable'' then Some ServerUnreachable
      else if value = ''connected_empty_chat'' then Some ConnectedEmptyChat
      else if value = ''chat_streaming'' then Some ChatStreaming
      else if value = ''tool_approval_required'' then Some ToolApprovalRequired
      else if value = ''tool_failed'' then Some ToolFailed
      else if value = ''network_reconnect'' then Some NetworkReconnect
      else if value = ''offline_queued_message'' then Some OfflineQueuedMessage
      else if value = ''long_running_task'' then Some LongRunningTask
      else None)"

fun ScenarioName_as_str :: "scenario_name \<Rightarrow> string" where
  "ScenarioName_as_str SOnboarding = ''onboarding''"
| "ScenarioName_as_str PairingReady = ''pairing_ready''"
| "ScenarioName_as_str ConnectedChat = ''connected_chat''"
| "ScenarioName_as_str PairingInvalidCode = ''pairing_invalid_code''"
| "ScenarioName_as_str ServerUnreachable = ''server_unreachable''"
| "ScenarioName_as_str ConnectedEmptyChat = ''connected_empty_chat''"
| "ScenarioName_as_str ChatStreaming = ''chat_streaming''"
| "ScenarioName_as_str ToolApprovalRequired = ''tool_approval_required''"
| "ScenarioName_as_str ToolFailed = ''tool_failed''"
| "ScenarioName_as_str NetworkReconnect = ''network_reconnect''"
| "ScenarioName_as_str OfflineQueuedMessage = ''offline_queued_message''"
| "ScenarioName_as_str LongRunningTask = ''long_running_task''"

text \<open>The version the crate is compiled with.\<close>

definition CARGO_PKG_VERSION :: string where
  "CARGO_PKG_VERSION = ''0.1.0''"

definition onboarding_state :: simulator_state where
  "onboarding_state =
     \<lparr>st_screen = Onboarding, st_connection_state = Disconnected, st_pairing = PairingForm_default,
      st_saved_servers = [], st_selected_server = None,
      st_status_message = Some ''Ready to pair with a gcode server.'', st_error_message = None,
      st_messages = [], st_draft_message = [], st_active_session_id = None, st_sessions = [],
      st_available_models = [], st_model_name = None, st_is_processing = False\<rparr>"

definition devbox_form :: "string \<Rightarrow> string \<Rightarrow> pairing_form" where
  "devbox_form host code =
     \<lparr>pf_host = host, pf_port = ''7643'', pf_pair_code = code, pf_device_name = ''gcode simulator''\<rparr>"

definition connected_chat_state :: simulator_state where
  "connected_chat_state =
     (let server = \<lparr>sv_host = ''devbox.tailnet.ts.net'', sv_port = ''7643'', sv_server_name = ''gcode'',
                    sv_server_version = CARGO_PKG_VERSION\<rparr>
      in \<lparr>st_screen = Chat, st_connection_state = Connected,
          st_pairing = \<lparr>pf_host = sv_host server, pf_port = sv_port server, pf_pair_code = [],
                        pf_device_name = ''gcode simulator''\<rparr>,
          st_saved_servers = [server], st_selected_server = Some server,
          st_status_message = Some ''Connected to simulated gcode server.'', st_error_message = None,
          st_messages =
            [\<lparr>cm_id = ''msg-user-1'', cm_role = User,
              cm_text = ''Can you summarize the simulator architecture?''\<rparr>,
             \<lparr>cm_id = ''msg-assistant-1'', cm_role = Assistant,
              cm_text = ''The simulator is headless-first, automation-first, and shares state semantics with the future iOS app.''\<rparr>],
          st_draft_message = [], st_active_session_id = Some ''session_sim_1'',
          st_sessions = [''session_sim_1'', ''session_sim_2''],
          st_available_models = [''gpt-5'', ''claude-sonnet-4''], st_model_name = Some ''gpt-5'',
          st_is_processing = False\<rparr>)"

definition push_message :: "string \<Rightarrow> message_role \<Rightarrow> string \<Rightarrow> simulator_state \<Rightarrow> simulator_state" where
  "push_message i r text state =
     state\<lparr>st_messages := st_messages state @ [\<lparr>cm_id = i, cm_role = r, cm_text = text\<rparr>]\<rparr>"

fun for_scenario :: "scenario_name \<Rightarrow> simulator_state" where
  "for_scenario SOnboarding = onboarding_state"
| "for_scenario PairingReady =
     onboarding_state\<lparr>st_pairing := devbox_form ''devbox.tailnet.ts.net'' ''123456'',
       st_status_message := Some ''Fields prefilled for simulated pairing.''\<rparr>"
| "for_scenario ConnectedChat = connected_chat_state"
| "for_scenario PairingInvalidCode =
     onboarding_state\<lparr>st_pairing := devbox_form ''devbox.tailnet.ts.net'' ''000000'',
       st_status_message := None,
       st_error_message := Some ''Invalid or expired pairing code.''\<rparr>"
| "for_scenario ServerUnreachable =
     onboarding_state\<lparr>st_pairing := devbox_form ''offline.tailnet.ts.net'' ''123456'',
       st_status_message := None,
       st_error_message := Some ''Server unreachable. Confirm host/port and gateway status.''\<rparr>"
| "for_scenario ConnectedEmptyChat =
     connected_chat_state\<lparr>st_messages := [],
       st_status_message := Some ''Connected to simulated empty chat.''\<rparr>"
| "for_scenario ChatStreaming =
     (push_message ''msg-assistant-streaming'' Assistant ''Running the Linux-native simulator''
       (push_message ''msg-user-streaming'' User ''Run the mobile simulator smoke test.''
         connected_chat_state))
     \<lparr>st_status_message := Some ''Assistant response is streaming.'', st_is_processing := True\<rparr>"
| "for_scenario ToolApprovalRequired =
     (push_message ''msg-tool-approval'' System
       ''Tool approval required: bash: cargo test -p gcode-mobile-core.'' connected_chat_state)
     \<lparr>st_status_message := Some ''Waiting for simulated tool approval.'', st_is_processing := True\<rparr>"
| "for_scenario ToolFailed =
     (push_message ''msg-tool-failed'' System ''Simulated tool failed: exit status 1.''
       connected_chat_state)
     \<lparr>st_error_message := Some ''Last simulated tool failed.''\<rparr>"
| "for_scenario NetworkReconnect =
     connected_chat_state\<lparr>st_connection_state := Connecting,
       st_status_message := Some ''Reconnecting to simulated gcode server...''\<rparr>"
| "for_scenario OfflineQueuedMessage =
     connected_chat_state\<lparr>st_connection_state := Disconnected,
       st_draft_message := ''Queued while offline'',
       st_status_message := Some ''Message queued until simulated reconnect.''\<rparr>"
| "for_scenario LongRunningTask =
     (push_message ''msg-long-running'' Assistant ''Long-running simulated task is still in progress.''
       connected_chat_state)
     \<lparr>st_status_message := Some ''Long-running simulated task in progress.'', st_is_processing := True\<rparr>"

definition SimulatorState_default :: simulator_state where
  "SimulatorState_default = for_scenario SOnboarding"

subsection \<open>Actions and effects\<close>

datatype simulator_action =
    Reset
  | LoadScenario scenario_name
  | SetHost string
  | SetPort string
  | SetPairCode string
  | SetDeviceName string
  | SetDraft string
  | TapNode string
  | PairingSucceeded string string
  | PairingFailed string
  | ConnectedAs string
  | ConnectionFailed string
  | AppendAssistantText string
  | FinishTurn

datatype simulator_effect =
    PairAndConnect string string string string
  | SendMessage string

text \<open>The branches of a tap on the two buttons with effects.\<close>

definition submit_pairing :: "simulator_state \<Rightarrow> simulator_state \<times> simulator_effect list" where
  "submit_pairing state =
     (let p = st_pairing state in
      if trim (pf_host p) = [] then (state\<lparr>st_error_message := Some ''Host cannot be empty.''\<rparr>, [])
      else if trim (pf_pair_code p) = [] then
        (state\<lparr>st_error_message := Some ''Enter a simulated pairing code first.''\<rparr>, [])
      else if trim (pf_device_name p) = [] then
        (state\<lparr>st_error_message := Some ''Device name cannot be empty.''\<rparr>, [])
      else
        (state\<lparr>st_screen := Pairing, st_connection_state := Connecting,
               st_status_message := Some (''Pairing to '' @ pf_host p @ '':'' @ pf_port p @ ''...''),
               st_error_message := None\<rparr>,
         [PairAndConnect (pf_host p) (pf_port p) (pf_pair_code p) (pf_device_name p)]))"

definition send_draft :: "simulator_state \<Rightarrow> simulator_state \<times> simulator_effect list" where
  "send_draft state =
     (if st_connection_state state \<noteq> Connected then
        (state\<lparr>st_error_message := Some ''Not connected.''\<rparr>, [])
      else if trim (st_draft_message state) = [] then
        (state\<lparr>st_error_message := Some ''Draft is empty.''\<rparr>, [])
      else
        let text = trim (st_draft_message state) in
        ((push_message (''msg-user-'' @ show_nat (length (st_messages state) + 1)) User text state)
           \<lparr>st_draft_message := [], st_status_message := Some ''Sending simulated message...'',
            st_error_message := None, st_is_processing := True\<rparr>,
         [SendMessage text]))"

definition save_server :: "string \<Rightarrow> string \<Rightarrow> simulator_state \<Rightarrow> simulator_state" where
  "save_server name version state =
     (let server = \<lparr>sv_host = pf_host (st_pairing state), sv_port = pf_port (st_pairing state),
                    sv_server_name = name, sv_server_version = version\<rparr>
      in state\<lparr>st_saved_servers :=
                 filter (\<lambda>e. sv_host e \<noteq> sv_host server \<or> sv_port e \<noteq> sv_port server)
                   (st_saved_servers state) @ [server],
               st_selected_server := Some server,
               st_status_message := Some ''Simulated pairing succeeded.'',
               st_error_message := None\<rparr>)"

definition fail_connection :: "string \<Rightarrow> simulator_state \<Rightarrow> simulator_state" where
  "fail_connection message state =
     state\<lparr>st_screen := Onboarding, st_connection_state := Disconnected, st_status_message := None,
           st_error_message := Some message, st_is_processing := False\<rparr>"

definition connect_session :: "string \<Rightarrow> simulator_state \<Rightarrow> simulator_state" where
  "connect_session session state =
     (let state =
        state\<lparr>st_screen := Chat, st_connection_state := Connected,
              st_active_session_id := Some session, st_sessions := [session],
              st_available_models := [''gpt-5'', ''claude-sonnet-4''], st_model_name := Some ''gpt-5'',
              st_status_message := Some ''Connected to simulated gcode server.'',
              st_error_message := None\<rparr>
      in if st_messages state = [] then
           push_message ''msg-system-connected'' System ''Simulator connected. Send a message to begin.'' state
         else state)"

fun reduce :: "simulator_state \<Rightarrow> simulator_action \<Rightarrow> simulator_state \<times> simulator_effect list" where
  "reduce state Reset = (SimulatorState_default, [])"
| "reduce state (LoadScenario scenario) = (for_scenario scenario, [])"
| "reduce state (SetHost value) =
     (state\<lparr>st_pairing := (st_pairing state)\<lparr>pf_host := value\<rparr>, st_error_message := None\<rparr>, [])"
| "reduce state (SetPort value) =
     (state\<lparr>st_pairing := (st_pairing state)\<lparr>pf_port := value\<rparr>, st_error_message := None\<rparr>, [])"
| "reduce state (SetPairCode value) =
     (state\<lparr>st_pairing := (st_pairing state)\<lparr>pf_pair_code := value\<rparr>, st_error_message := None\<rparr>, [])"
| "reduce state (SetDeviceName value) =
     (state\<lparr>st_pairing := (st_pairing state)\<lparr>pf_device_name := value\<rparr>, st_error_message := None\<rparr>, [])"
| "reduce state (SetDraft value) =
     (state\<lparr>st_draft_message := value, st_error_message := None\<rparr>, [])"
| "reduce state (TapNode node_id) =
     (if node_id = ''pair.submit'' then submit_pairing state
      else if node_id = ''chat.send'' then send_draft state
      else if node_id = ''chat.interrupt'' then
        (state\<lparr>st_is_processing := False, st_status_message := Some ''Interrupted simulated turn.''\<rparr>, [])
      else (state\<lparr>st_error_message := Some (''Unknown node id: '' @ node_id)\<rparr>, []))"
| "reduce state (PairingSucceeded name version) = (save_server name version state, [])"
| "reduce state (PairingFailed message) = (fail_connection message state, [])"
| "reduce state (ConnectionFailed message) = (fail_connection message state, [])"
| "reduce state (ConnectedAs session) = (connect_session session state, [])"
| "reduce state (AppendAssistantText text) =
     (push_message (''msg-assistant-'' @ show_nat (length (st_messages state) + 1)) Assistant text state, [])"
| "reduce state FinishTurn =
     (state\<lparr>st_is_processing := False, st_status_message := Some ''Simulated turn finished.''\<rparr>, [])"

subsection \<open>The fake backend\<close>

definition pair_and_connect :: "string \<Rightarrow> string \<Rightarrow> simulator_action list" where
  "pair_and_connect host pair_code =
     (if str_contains ''offline'' host \<or> str_contains ''unreachable'' host then
        [ConnectionFailed ''Server unreachable. Confirm host/port and gateway status.'']
      else if pair_code \<noteq> ''123456'' then [PairingFailed ''Invalid or expired pairing code.'']
      else [PairingSucceeded ''gcode'' CARGO_PKG_VERSION, ConnectedAs ''session_sim_1''])"

definition send_message :: "string \<Rightarrow> simulator_action list" where
  "send_message text = [AppendAssistantText (''Simulated response to: '' @ text), FinishTurn]"

fun handle_effect :: "simulator_effect \<Rightarrow> simulator_action list" where
  "handle_effect (PairAndConnect host port pair_code device_name) = pair_and_connect host pair_code"
| "handle_effect (SendMessage text) = send_message text"

subsection \<open>The store\<close>

record transition_record =
  tr_seq :: u64
  tr_timestamp_ms :: u64
  tr_action :: simulator_action
  tr_before :: simulator_state
  tr_after :: simulator_state
  tr_effects :: "simulator_effect list"

record effect_record =
  er_seq :: u64
  er_timestamp_ms :: u64
  er_effect :: simulator_effect

record dispatch_report =
  dr_transitions :: "transition_record list"
  dr_effect_records :: "effect_record list"
  dr_final_state :: simulator_state

record simulator_store =
  so_initial_state :: simulator_state
  so_state :: simulator_state
  so_action_log :: "simulator_action list"
  so_transition_log :: "transition_record list"
  so_effect_log :: "effect_record list"
  so_next_seq :: u64
  so_now_ms :: u64

definition SimulatorStore_new :: "simulator_state \<Rightarrow> simulator_store" where
  "SimulatorStore_new initial =
     \<lparr>so_initial_state = initial, so_state = initial, so_action_log = [], so_transition_log = [],
      so_effect_log = [], so_next_seq = 1, so_now_ms = 0\<rparr>"

definition SimulatorStore_default :: simulator_store where
  "SimulatorStore_default = SimulatorStore_new SimulatorState_default"

text \<open>What the loop of \<^verbatim>\<open>dispatch\<close> carries: the store, the pending stack and the two report lists.\<close>

type_synonym dispatch_state =
  "simulator_store \<times> simulator_action list \<times> transition_record list \<times> effect_record list"

definition record_effect :: "u64 \<Rightarrow> simulator_effect \<Rightarrow> dispatch_state \<Rightarrow> dispatch_state" where
  "record_effect seq effect ds =
     (case ds of (store, pending, transitions, effect_records) \<Rightarrow>
        let store = store\<lparr>so_now_ms := so_now_ms store + 1\<rparr>;
            rec = \<lparr>er_seq = seq, er_timestamp_ms = so_now_ms store, er_effect = effect\<rparr>;
            store = store\<lparr>so_effect_log := so_effect_log store @ [rec]\<rparr>
        in (store, fold (#) (rev (handle_effect effect)) pending, transitions, effect_records @ [rec]))"

definition dispatch_step :: "simulator_action \<Rightarrow> dispatch_state \<Rightarrow> dispatch_state" where
  "dispatch_step action ds =
     (case ds of (store, pending, transitions, effect_records) \<Rightarrow>
        let before = so_state store;
            (after, effects) = reduce before action;
            seq = so_next_seq store;
            store = store\<lparr>so_state := after, so_next_seq := seq + 1, so_now_ms := so_now_ms store + 1\<rparr>;
            transition = \<lparr>tr_seq = seq, tr_timestamp_ms = so_now_ms store, tr_action = action,
                          tr_before = before, tr_after = after, tr_effects = effects\<rparr>;
            store = store\<lparr>so_transition_log := so_transition_log store @ [transition]\<rparr>
        in fold (record_effect seq) effects (store, pending, transitions @ [transition], effect_records))"

text \<open>Weights that decrease: a tap may add two other actions.\<close>

fun action_weight :: "simulator_action \<Rightarrow> nat" where
  "action_weight (TapNode n) = 3"
| "action_weight a = 1"

definition pending_weight :: "simulator_action list \<Rightarrow> nat" where
  "pending_weight as = sum_list (map action_weight as)"

lemma reduce_effects: "snd (reduce s a) = [] \<or> (\<exists>n e. a = TapNode n \<and> snd (reduce s a) = [e])"
  by (cases a) (auto simp: submit_pairing_def send_draft_def Let_def)

lemma handle_effect_weight: "pending_weight (handle_effect e) < 3"
  by (cases e) (auto simp: pair_and_connect_def send_message_def pending_weight_def)

lemma fold_Cons_rev: "fold (#) (rev xs) ys = xs @ ys"
  by (simp add: fold_Cons_rev)

lemma dispatch_step_pending:
  "\<exists>store tl el. dispatch_step a (st, p, t, e) =
     (store, concat (map handle_effect (snd (reduce (so_state st) a))) @ p, tl, el)"
proof -
  obtain s' es where r: "reduce (so_state st) a = (s', es)" by fastforce
  have "es = [] \<or> (\<exists>x. es = [x])" using reduce_effects [of "so_state st" a] r by auto
  then show ?thesis by (auto simp: dispatch_step_def record_effect_def r Let_def fold_Cons_rev)
qed

lemma dispatch_step_weight:
  assumes "dispatch_step a (st, p, t, e) = (st', p', t', e')"
  shows "pending_weight p' < pending_weight (a # p)"
proof -
  have p': "p' = concat (map handle_effect (snd (reduce (so_state st) a))) @ p"
    using dispatch_step_pending [of a st p t e] assms by auto
  consider "snd (reduce (so_state st) a) = []" | n x where "a = TapNode n" "snd (reduce (so_state st) a) = [x]"
    using reduce_effects by blast
  then show ?thesis
  proof cases
    case 1
    then show ?thesis by (cases a) (auto simp: p' pending_weight_def)
  next
    case 2
    then show ?thesis using handle_effect_weight [of x] by (simp add: p' pending_weight_def)
  qed
qed

function dispatch_loop :: "dispatch_state \<Rightarrow> dispatch_state" where
  "dispatch_loop (store, [], transitions, effect_records) = (store, [], transitions, effect_records)"
| "dispatch_loop (store, action # pending, transitions, effect_records) =
     dispatch_loop (dispatch_step action (store, pending, transitions, effect_records))"
  by pat_completeness auto
termination
  by (relation "measure (\<lambda>(s, p, t, e). pending_weight p)")
    (auto intro: dispatch_step_weight split: prod.split)

definition dispatch :: "simulator_store \<Rightarrow> simulator_action \<Rightarrow> simulator_store \<times> dispatch_report" where
  "dispatch store action =
     (let store = store\<lparr>so_action_log := so_action_log store @ [action]\<rparr>;
          (store, pending, transitions, effect_records) = dispatch_loop (store, [action], [], [])
      in (store, \<lparr>dr_transitions = transitions, dr_effect_records = effect_records,
                  dr_final_state = so_state store\<rparr>))"

subsection \<open>Replay traces\<close>

definition REPLAY_TRACE_SCHEMA_VERSION :: u32 where
  "REPLAY_TRACE_SCHEMA_VERSION = 1"

record replay_trace =
  rt_schema_version :: u32
  rt_name :: string
  rt_initial_state :: simulator_state
  rt_actions :: "simulator_action list"
  rt_transitions :: "transition_record list"
  rt_effects :: "effect_record list"
  rt_final_state :: simulator_state

definition trace_of_store :: "simulator_store \<Rightarrow> string \<Rightarrow> replay_trace" where
  "trace_of_store self name =
     \<lparr>rt_schema_version = REPLAY_TRACE_SCHEMA_VERSION, rt_name = name,
      rt_initial_state = so_initial_state self, rt_actions = so_action_log self,
      rt_transitions = so_transition_log self, rt_effects = so_effect_log self,
      rt_final_state = so_state self\<rparr>"

definition ReplayTrace_record :: "string \<Rightarrow> simulator_state \<Rightarrow> simulator_action list \<Rightarrow> replay_trace" where
  "ReplayTrace_record name initial actions =
     (let store = foldl (\<lambda>store action. fst (dispatch store action)) (SimulatorStore_new initial) actions
      in \<lparr>rt_schema_version = REPLAY_TRACE_SCHEMA_VERSION, rt_name = name, rt_initial_state = initial,
          rt_actions = actions, rt_transitions = so_transition_log store,
          rt_effects = so_effect_log store, rt_final_state = so_state store\<rparr>)"

definition replay :: "replay_trace \<Rightarrow> replay_trace" where
  "replay self = ReplayTrace_record (rt_name self) (rt_initial_state self) (rt_actions self)"

datatype replay_error = UnsupportedVersion u32 | TraceMismatch replay_trace replay_trace

definition assert_replays :: "replay_trace \<Rightarrow> replay_error + unit" where
  "assert_replays self =
     (if rt_schema_version self \<noteq> REPLAY_TRACE_SCHEMA_VERSION
      then Inl (UnsupportedVersion (rt_schema_version self))
      else
        let replayed = replay self
        in if replayed \<noteq> self then Inl (TraceMismatch self replayed) else Inr ())"

subsection \<open>Specifications\<close>

text \<open>Every transition is one step of the reducer and starts where the previous one ended.\<close>

fun chained :: "simulator_state \<Rightarrow> transition_record list \<Rightarrow> simulator_state \<Rightarrow> bool" where
  "chained s [] s' = (s = s')"
| "chained s (t # ts) s' =
     (tr_before t = s \<and> reduce s (tr_action t) = (tr_after t, tr_effects t) \<and> chained (tr_after t) ts s')"

definition effects_of_log :: "transition_record list \<Rightarrow> (u64 \<times> simulator_effect) list" where
  "effects_of_log ts = concat (map (\<lambda>t. map (Pair (tr_seq t)) (tr_effects t)) ts)"

definition store_inv :: "simulator_store \<Rightarrow> bool" where
  "store_inv s \<longleftrightarrow>
     chained (so_initial_state s) (so_transition_log s) (so_state s) \<and>
     map tr_seq (so_transition_log s) = map (\<lambda>i. of_nat (Suc i)) [0..<length (so_transition_log s)] \<and>
     so_next_seq s = of_nat (Suc (length (so_transition_log s))) \<and>
     so_now_ms s = of_nat (length (so_transition_log s) + length (so_effect_log s)) \<and>
     map (\<lambda>r. (er_seq r, er_effect r)) (so_effect_log s) = effects_of_log (so_transition_log s)"

definition fresh_message_ids :: "chat_message list \<Rightarrow> bool" where
  "fresh_message_ids ms \<longleftrightarrow>
     (\<forall>n > length ms. ''msg-user-'' @ show_nat n \<notin> cm_id ` set ms \<and>
        ''msg-assistant-'' @ show_nat n \<notin> cm_id ` set ms)"

text \<open>Consistency of the application state.\<close>

definition sim_inv :: "simulator_state \<Rightarrow> bool" where
  "sim_inv s \<longleftrightarrow>
     (st_connection_state s = Connected \<longrightarrow> st_screen s = Chat \<and> st_active_session_id s \<noteq> None) \<and>
     (st_screen s = Pairing \<longrightarrow> st_connection_state s = Connecting) \<and>
     set_option (st_selected_server s) \<subseteq> set (st_saved_servers s) \<and>
     distinct (map (\<lambda>v. (sv_host v, sv_port v)) (st_saved_servers s)) \<and>
     distinct (map cm_id (st_messages s)) \<and> fresh_message_ids (st_messages s)"

section \<open>Machines whose effects settle\<close>

text \<open>
  The contract between a reducer and the handler of its effects under which one dispatched action
  settles: the actions that answer an effect have no effects of their own.
\<close>

locale effect_machine =
  fixes red :: "'s \<Rightarrow> 'a \<Rightarrow> 's \<times> 'e list"
    and handle :: "'e \<Rightarrow> 'a list"
  assumes followups_quiet: "e \<in> set (snd (red s a)) \<Longrightarrow> b \<in> set (handle e) \<Longrightarrow> snd (red s' b) = []"
begin

definition follow :: "'s \<Rightarrow> 'a \<Rightarrow> 'a list" where
  "follow s a = concat (map handle (snd (red s a)))"

definition settle :: "'s \<Rightarrow> 'a \<Rightarrow> 's" where
  "settle s a = foldl (\<lambda>s b. fst (red s b)) (fst (red s a)) (follow s a)"

lemma follow_quiet: "b \<in> set (follow s a) \<Longrightarrow> snd (red s' b) = []"
  using followups_quiet by (auto simp: follow_def)

lemma settle_invariant:
  assumes step: "\<And>s b. I s \<Longrightarrow> I (fst (red s b))" and "I s"
  shows "I (settle s a)"
proof -
  have "I (foldl (\<lambda>s b. fst (red s b)) s' bs)" if "I s'" for s' bs
    using that by (induction bs arbitrary: s') (auto simp: step)
  then show ?thesis unfolding settle_def using step assms(2) by blast
qed

lemma settle_quiet: "snd (red s a) = [] \<Longrightarrow> settle s a = fst (red s a)"
  by (simp add: settle_def follow_def)

end

lemma handle_effect_no_tap: "b \<in> set (handle_effect e) \<Longrightarrow> b \<noteq> TapNode n"
  by (cases e) (auto simp: pair_and_connect_def send_message_def split: if_splits)

interpretation sim: effect_machine reduce handle_effect
  by unfold_locales (metis handle_effect_no_tap reduce_effects)

section \<open>Dispatching\<close>

lemma dispatch_step_eq:
  assumes "reduce (so_state st) a = (s', effs)"
  shows "\<exists>st' t new. dispatch_step a (st, p, ts, es) =
      (st', concat (map handle_effect effs) @ p, ts @ [t], es @ new) \<and>
    t = \<lparr>tr_seq = so_next_seq st, tr_timestamp_ms = so_now_ms st + 1, tr_action = a,
         tr_before = so_state st, tr_after = s', tr_effects = effs\<rparr> \<and>
    so_state st' = s' \<and> so_transition_log st' = so_transition_log st @ [t] \<and>
    so_effect_log st' = so_effect_log st @ new \<and> length new = length effs \<and>
    so_action_log st' = so_action_log st \<and> so_initial_state st' = so_initial_state st \<and>
    map (\<lambda>r. (er_seq r, er_effect r)) new = map (Pair (so_next_seq st)) effs \<and>
    so_next_seq st' = so_next_seq st + 1 \<and> so_now_ms st' = so_now_ms st + 1 + of_nat (length effs)"
proof -
  consider "effs = []" | e where "effs = [e]" using reduce_effects [of "so_state st" a] assms by auto
  then show ?thesis
    by cases (simp_all add: dispatch_step_def record_effect_def Let_def assms fold_Cons_rev)
qed

lemma dispatch_loop_quiet:
  assumes "\<And>a s. a \<in> set qs \<Longrightarrow> snd (reduce s a) = []"
  shows "\<exists>st' new. dispatch_loop (st, qs, ts, es) = (st', [], ts @ new, es) \<and>
    so_state st' = foldl (\<lambda>s b. fst (reduce s b)) (so_state st) qs \<and> length new = length qs \<and>
    so_transition_log st' = so_transition_log st @ new"
  using assms
proof (induction qs arbitrary: st ts)
  case (Cons q qs)
  have "reduce (so_state st) q = (fst (reduce (so_state st) q), [])"
    using Cons.prems by (metis list.set_intros(1) prod.collapse)
  from dispatch_step_eq [OF this, of qs ts es]
  obtain st1 t where step: "dispatch_step q (st, qs, ts, es) = (st1, qs, ts @ [t], es)"
    and s1: "so_state st1 = fst (reduce (so_state st) q)"
      "so_transition_log st1 = so_transition_log st @ [t]"
    by auto
  obtain st' new where "dispatch_loop (st1, qs, ts @ [t], es) = (st', [], (ts @ [t]) @ new, es) \<and>
    so_state st' = foldl (\<lambda>s b. fst (reduce s b)) (so_state st1) qs \<and> length new = length qs \<and>
    so_transition_log st' = so_transition_log st1 @ new"
    using Cons.IH [of st1 "ts @ [t]"] Cons.prems by auto
  with step s1 show ?case
    by (intro exI [of _ st'] exI [of _ "t # new"]) simp
qed auto

text \<open>One dispatch applies the action and then the actions that answer its effects, in order.\<close>

lemma dispatch_settles:
  assumes "dispatch st a = (st', rep)"
  shows "so_state st' = sim.settle (so_state st) a \<and> dr_final_state rep = so_state st' \<and>
    so_transition_log st' = so_transition_log st @ dr_transitions rep \<and>
    length (dr_transitions rep) = Suc (length (sim.follow (so_state st) a))"
proof -
  let ?st = "st\<lparr>so_action_log := so_action_log st @ [a]\<rparr>"
  obtain s1 effs where red: "reduce (so_state st) a = (s1, effs)" by fastforce
  then have "reduce (so_state ?st) a = (s1, effs)" by simp
  from dispatch_step_eq [OF this, of "[]" "[]" "[]"] red
  obtain st1 t new where step: "dispatch_step a (?st, [], [], []) = (st1, sim.follow (so_state st) a, [t], new)"
    and s1: "so_state st1 = s1" "so_transition_log st1 = so_transition_log st @ [t]"
    by (auto simp: sim.follow_def)
  obtain st2 more where "dispatch_loop (st1, sim.follow (so_state st) a, [t], new) = (st2, [], [t] @ more, new)"
    and "so_state st2 = foldl (\<lambda>s b. fst (reduce s b)) s1 (sim.follow (so_state st) a)"
    and "length more = length (sim.follow (so_state st) a)"
    and "so_transition_log st2 = so_transition_log st1 @ more"
    using dispatch_loop_quiet [of "sim.follow (so_state st) a" st1 "[t]" new] sim.follow_quiet s1 by metis
  with assms step s1 red show ?thesis
    by (auto simp: dispatch_def Let_def sim.settle_def)
qed

lemma dispatch_state: "so_state (fst (dispatch st a)) = sim.settle (so_state st) a"
  using dispatch_settles [of st a, OF prod.collapse [symmetric]] by blast

subsection \<open>The logs\<close>

lemma chained_snoc:
  "chained s (ts @ [t]) s' \<longleftrightarrow>
     (\<exists>m. chained s ts m \<and> tr_before t = m \<and> reduce m (tr_action t) = (tr_after t, tr_effects t) \<and> tr_after t = s')"
  by (induction ts arbitrary: s) auto

lemma store_inv_new: "store_inv (SimulatorStore_new s)"
  by (simp add: store_inv_def SimulatorStore_new_def effects_of_log_def)

lemma store_inv_step:
  assumes "store_inv st" and "dispatch_step a (st, p, ts, es) = (st', p', ts', es')"
  shows "store_inv st' \<and> so_action_log st' = so_action_log st \<and> so_initial_state st' = so_initial_state st"
proof -
  obtain s1 effs where red: "reduce (so_state st) a = (s1, effs)" by fastforce
  from dispatch_step_eq [OF this, of p ts es] assms(2) show ?thesis
    using assms(1) red
    by (auto simp: store_inv_def chained_snoc effects_of_log_def algebra_simps)
qed

lemma store_inv_loop:
  "dispatch_loop ds = ds' \<Longrightarrow> store_inv (fst ds) \<Longrightarrow>
     store_inv (fst ds') \<and> so_action_log (fst ds') = so_action_log (fst ds) \<and>
     so_initial_state (fst ds') = so_initial_state (fst ds)"
proof (induction ds arbitrary: ds' rule: dispatch_loop.induct)
  case (2 store action pending transitions effect_records)
  obtain st p ts es where step:
    "dispatch_step action (store, pending, transitions, effect_records) = (st, p, ts, es)"
    by (metis prod_cases4)
  from store_inv_step [OF _ this] 2 step show ?case by simp
qed auto

lemma store_inv_dispatch:
  assumes "store_inv st"
  shows "store_inv (fst (dispatch st a)) \<and>
    so_action_log (fst (dispatch st a)) = so_action_log st @ [a] \<and>
    so_initial_state (fst (dispatch st a)) = so_initial_state st"
proof -
  let ?st = "st\<lparr>so_action_log := so_action_log st @ [a]\<rparr>"
  have "store_inv ?st" using assms by (simp add: store_inv_def)
  then show ?thesis
    using store_inv_loop [of "(?st, [a], [], [])", OF refl]
    by (auto simp: dispatch_def Let_def split: prod.split)
qed

definition run_actions :: "simulator_state \<Rightarrow> simulator_action list \<Rightarrow> simulator_store" where
  "run_actions s as = foldl (\<lambda>store action. fst (dispatch store action)) (SimulatorStore_new s) as"

lemma run_actions_snoc: "run_actions s (as @ [a]) = fst (dispatch (run_actions s as) a)"
  by (simp add: run_actions_def)

lemma run_actions_inv:
  "store_inv (run_actions s as) \<and> so_action_log (run_actions s as) = as \<and>
   so_initial_state (run_actions s as) = s"
proof (induction as rule: rev_induct)
  case Nil
  then show ?case using store_inv_new [of s] by (simp add: run_actions_def SimulatorStore_new_def)
next
  case (snoc a as)
  then show ?case using store_inv_dispatch [of "run_actions s as" a] by (simp add: run_actions_snoc)
qed

lemma run_actions_state: "so_state (run_actions s as) = foldl sim.settle s as"
proof (induction as rule: rev_induct)
  case Nil
  then show ?case by (simp add: run_actions_def SimulatorStore_new_def)
next
  case (snoc a as)
  then show ?case by (simp add: run_actions_snoc dispatch_state)
qed

subsection \<open>Consistency of the application state\<close>

lemma show_nat_not_letter:
  assumes "\<not> (48 \<le> (of_char c :: nat) \<and> (of_char c :: nat) < 58)"
  shows "show_nat n \<noteq> c # cs"
proof
  assume "show_nat n = c # cs"
  then have "c \<in> set (show_nat n)" by simp
  from show_nat_digits [OF this] assms show False by blast
qed

lemma streaming_not_number: "''streaming'' \<noteq> show_nat n"
  using show_nat_not_letter [of "CHR ''s''" n "''treaming''"] by (auto simp: eq_commute)

lemma show_nat_one: "show_nat n = ''1'' \<longleftrightarrow> n = 1"
proof -
  have "show_nat 1 = ''1''" by code_simp
  then show ?thesis by (metis show_nat_inject)
qed

lemma fresh_push:
  assumes "fresh_message_ids ms"
    and "\<And>n. Suc (length ms) < n \<Longrightarrow> i \<noteq> ''msg-user-'' @ show_nat n \<and> i \<noteq> ''msg-assistant-'' @ show_nat n"
  shows "fresh_message_ids (ms @ [\<lparr>cm_id = i, cm_role = r, cm_text = t\<rparr>])"
  using assms by (auto simp: fresh_message_ids_def)

lemma sim_inv_push:
  assumes "sim_inv s" and "i \<notin> cm_id ` set (st_messages s)"
    and "\<And>n. Suc (length (st_messages s)) < n \<Longrightarrow>
      i \<noteq> ''msg-user-'' @ show_nat n \<and> i \<noteq> ''msg-assistant-'' @ show_nat n"
  shows "sim_inv (push_message i r t s)"
  using assms fresh_push [of "st_messages s" i] by (auto simp: sim_inv_def push_message_def)

lemma sim_inv_push_user:
  "sim_inv s \<Longrightarrow> sim_inv (push_message (''msg-user-'' @ show_nat (Suc (length (st_messages s)))) r t s)"
  by (rule sim_inv_push) (auto simp: sim_inv_def fresh_message_ids_def)

lemma sim_inv_push_assistant:
  "sim_inv s \<Longrightarrow> sim_inv (push_message (''msg-assistant-'' @ show_nat (Suc (length (st_messages s)))) r t s)"
  by (rule sim_inv_push) (auto simp: sim_inv_def fresh_message_ids_def)

lemma sim_inv_onboarding: "sim_inv onboarding_state"
  by (simp add: sim_inv_def onboarding_state_def fresh_message_ids_def)

lemma sim_inv_connected: "sim_inv connected_chat_state"
  by (auto simp: sim_inv_def connected_chat_state_def fresh_message_ids_def Let_def show_nat_one)

lemma sim_inv_scenario: "sim_inv (for_scenario sc)"
proof (cases sc)
  case ChatStreaming
  have "sim_inv (push_message ''msg-assistant-streaming'' Assistant t
      (push_message ''msg-user-streaming'' User u connected_chat_state))" for t u
    by (intro sim_inv_push sim_inv_connected)
      (simp_all add: push_message_def connected_chat_state_def Let_def streaming_not_number)
  then show ?thesis using ChatStreaming by (simp add: sim_inv_def)
next
  case ToolApprovalRequired
  have "sim_inv (push_message ''msg-tool-approval'' System t connected_chat_state)" for t
    by (intro sim_inv_push sim_inv_connected) (simp_all add: connected_chat_state_def Let_def)
  then show ?thesis using ToolApprovalRequired by (simp add: sim_inv_def)
next
  case ToolFailed
  have "sim_inv (push_message ''msg-tool-failed'' System t connected_chat_state)" for t
    by (intro sim_inv_push sim_inv_connected) (simp_all add: connected_chat_state_def Let_def)
  then show ?thesis using ToolFailed by (simp add: sim_inv_def)
next
  case LongRunningTask
  have "sim_inv (push_message ''msg-long-running'' Assistant t connected_chat_state)" for t
    by (intro sim_inv_push sim_inv_connected) (simp_all add: connected_chat_state_def Let_def)
  then show ?thesis using LongRunningTask by (simp add: sim_inv_def)
qed (use sim_inv_onboarding sim_inv_connected in \<open>simp_all add: sim_inv_def fresh_message_ids_def connected_chat_state_def onboarding_state_def Let_def\<close>)

lemma sim_inv_connect:
  assumes "sim_inv s"
  shows "sim_inv (connect_session session s)"
proof (cases "st_messages s = []")
  case True
  then show ?thesis using assms
    by (simp add: connect_session_def Let_def push_message_def sim_inv_def fresh_message_ids_def)
next
  case False
  then show ?thesis using assms by (simp add: connect_session_def Let_def sim_inv_def)
qed

lemma sim_inv_save_server: "sim_inv s \<Longrightarrow> sim_inv (save_server n v s)"
  by (auto simp: save_server_def Let_def sim_inv_def distinct_map_filter)

lemma sim_inv_submit: "sim_inv s \<Longrightarrow> sim_inv (fst (submit_pairing s))"
  by (simp add: submit_pairing_def Let_def sim_inv_def)

lemma sim_inv_send: "sim_inv s \<Longrightarrow> sim_inv (fst (send_draft s))"
  using sim_inv_push_user [of s User "trim (st_draft_message s)"]
  by (auto simp: send_draft_def Let_def sim_inv_def)

lemma sim_inv_reduce: "sim_inv s \<Longrightarrow> sim_inv (fst (reduce s a))"
proof (cases a)
  case Reset
  then show ?thesis using sim_inv_scenario [of SOnboarding] by (simp add: SimulatorState_default_def)
next
  case (TapNode n)
  assume "sim_inv s"
  then show ?thesis using TapNode sim_inv_submit [of s] sim_inv_send [of s] by (simp add: sim_inv_def)
next
  case (AppendAssistantText t)
  assume "sim_inv s"
  then show ?thesis using AppendAssistantText sim_inv_push_assistant [of s Assistant t] by simp
qed (simp_all add: sim_inv_scenario sim_inv_save_server sim_inv_connect,
    simp_all add: sim_inv_def fail_connection_def)

lemma settle_not_pairing:
  assumes "st_screen s \<noteq> Pairing"
  shows "st_screen (sim.settle s a) \<noteq> Pairing"
proof (cases "snd (reduce s a) = []")
  case True
  have "st_screen (fst (reduce s a)) \<noteq> Pairing"
    using assms True
  proof (cases a)
    case (LoadScenario sc)
    then show ?thesis by (cases sc) (auto simp: onboarding_state_def connected_chat_state_def push_message_def Let_def)
  qed (auto simp: SimulatorState_default_def onboarding_state_def submit_pairing_def send_draft_def
      save_server_def fail_connection_def connect_session_def push_message_def Let_def split: if_splits)
  with True show ?thesis by (simp add: sim.settle_quiet)
next
  case False
  then obtain n where a: "a = TapNode n" using reduce_effects [of s a] by blast
  with False assms show ?thesis
    by (auto simp: sim.settle_def sim.follow_def submit_pairing_def send_draft_def Let_def
        pair_and_connect_def send_message_def fail_connection_def save_server_def
        connect_session_def push_message_def split: if_splits)
qed

section \<open>Properties\<close>

text \<open>
  The log of a store that was driven by any sequence of actions is a faithful, gapless history:
  every transition is one reducer step, starts where the previous one ended, the last one ends in
  the current state, sequence numbers count up from 1, and the effect log lists the effects of the
  transitions in order under their sequence numbers.
\<close>

theorem store_log_is_history:
  "let st = foldl (\<lambda>store action. fst (dispatch store action)) (SimulatorStore_new s) as in
     so_action_log st = as \<and>
     chained s (so_transition_log st) (so_state st) \<and>
     map tr_seq (so_transition_log st) = map (\<lambda>i. of_nat (Suc i)) [0..<length (so_transition_log st)] \<and>
     map (\<lambda>r. (er_seq r, er_effect r)) (so_effect_log st) = effects_of_log (so_transition_log st)"
proof -
  have "chained s (so_transition_log (run_actions s as)) (so_state (run_actions s as))"
    using run_actions_inv [of s as] unfolding store_inv_def by metis
  then show ?thesis
    using run_actions_inv [of s as] unfolding run_actions_def [symmetric] Let_def store_inv_def by blast
qed

text \<open>
  C33: One dispatch always terminates in a settled state: the reducer is applied to the action and
  then, in order, to the backend's answers to its effects, and to nothing else; the report holds
  exactly these transitions.
\<close>

theorem dispatch_refines_settling:
  "let s = so_state st; follow = concat (map handle_effect (snd (reduce s a)));
       (st', rep) = dispatch st a
   in so_state st' = foldl (\<lambda>s b. fst (reduce s b)) s (a # follow) \<and>
      dr_final_state rep = so_state st' \<and>
      so_transition_log st' = so_transition_log st @ dr_transitions rep \<and>
      length (dr_transitions rep) = Suc (length follow)"
  using dispatch_settles [of st a, OF prod.collapse [symmetric]]
  by (simp only: Let_def case_prod_beta sim.settle_def sim.follow_def foldl_Cons simp_thms)

text \<open>
  C25: Replay is deterministic: the trace a store hands out after any sequence of dispatched actions
  is the recorded trace of these actions, replaying it gives the same trace, and its replay
  assertion succeeds.
\<close>

theorem store_trace_replays:
  "let st = foldl (\<lambda>store action. fst (dispatch store action)) (SimulatorStore_new s) as;
       trace = trace_of_store st name
   in trace = ReplayTrace_record name s as \<and> replay trace = trace \<and> assert_replays trace = Inr ()"
proof -
  have "trace_of_store (run_actions s as) name = ReplayTrace_record name s as"
    using run_actions_inv [of s as]
    by (simp add: trace_of_store_def ReplayTrace_record_def Let_def run_actions_def)
  moreover have "replay (ReplayTrace_record name s as) = ReplayTrace_record name s as"
    by (simp add: replay_def ReplayTrace_record_def Let_def)
  moreover have "rt_schema_version (ReplayTrace_record name s as) = REPLAY_TRACE_SCHEMA_VERSION"
    by (simp add: ReplayTrace_record_def Let_def)
  ultimately show ?thesis
    unfolding run_actions_def [symmetric] Let_def by (simp add: assert_replays_def)
qed

text \<open>
  C27: From every built-in scenario, any sequence of actions keeps the application consistent: a
  connected application shows the chat and has a session, the pairing screen is connecting, the
  selected server is saved, saved servers are unique per host and port, and message ids are
  unique. Between dispatches no pairing is left in flight.
\<close>

theorem simulator_stays_consistent:
  "let st = foldl (\<lambda>store action. fst (dispatch store action)) (SimulatorStore_new (for_scenario sc)) as
   in sim_inv (so_state st) \<and> st_screen (so_state st) \<noteq> Pairing"
proof -
  have "sim_inv (foldl sim.settle (for_scenario sc) as)"
    by (induction as rule: rev_induct)
      (simp_all add: sim_inv_scenario sim.settle_invariant [of sim_inv] sim_inv_reduce)
  moreover have "st_screen (for_scenario sc) \<noteq> Pairing"
    by (cases sc) (auto simp: onboarding_state_def connected_chat_state_def push_message_def Let_def)
  then have "st_screen (foldl sim.settle (for_scenario sc) as) \<noteq> Pairing"
    by (induction as rule: rev_induct) (simp_all add: settle_not_pairing)
  ultimately show ?thesis
    unfolding run_actions_def [symmetric] Let_def by (simp add: run_actions_state)
qed

text \<open>
  Sending a non-blank draft while connected appends the trimmed draft as a user message and the
  simulated answer, clears the draft and ends the turn; otherwise the tap on send only reports an
  error and leaves the conversation and the draft alone.
\<close>

theorem send_tap_outcome:
  "let s = so_state st; s' = so_state (fst (dispatch st (TapNode ''chat.send''))); text = trim (st_draft_message s)
   in if st_connection_state s = Connected \<and> text \<noteq> [] then
        map cm_role (st_messages s') = map cm_role (st_messages s) @ [User, Assistant] \<and>
        map cm_text (st_messages s') =
          map cm_text (st_messages s) @ [text, ''Simulated response to: '' @ text] \<and>
        st_draft_message s' = [] \<and> \<not> st_is_processing s' \<and> st_error_message s' = None
      else
        st_messages s' = st_messages s \<and> st_draft_message s' = st_draft_message s \<and>
        st_error_message s' \<noteq> None"
proof -
  show ?thesis
    by (auto simp: dispatch_state Let_def sim.settle_def sim.follow_def send_draft_def send_message_def push_message_def)
qed

text \<open>
  Scenario names round trip: parsing accepts exactly the names that are printed, and the list of
  all scenarios holds every scenario once.
\<close>

theorem scenario_names_round_trip:
  "(ScenarioName_parse v = Some sc \<longleftrightarrow> v = ScenarioName_as_str sc) \<and>
   set ScenarioName_ALL = UNIV \<and> distinct ScenarioName_ALL"
proof -
  have "sc \<in> set ScenarioName_ALL" for sc by (cases sc) (simp_all add: ScenarioName_ALL_def)
  then have all: "set ScenarioName_ALL = UNIV" by blast
  have "distinct ScenarioName_ALL" by (simp add: ScenarioName_ALL_def)
  moreover have "ScenarioName_parse (ScenarioName_as_str sc) = Some sc"
    by (cases sc) (simp_all add: ScenarioName_parse_def)
  moreover have "ScenarioName_parse v = Some sc \<Longrightarrow> v = ScenarioName_as_str sc"
    by (simp add: ScenarioName_parse_def split: if_splits)
  ultimately show ?thesis using all by blast
qed

end
