(* ===== verification/Mobile_UI.thy ===== *)
theory Mobile_UI
  imports Mobile_Sim Messages
begin

text \<open>
  Model of the user interface of the mobile simulator: \<^verbatim>\<open>build_ui_tree\<close> and the layout functions of
  \<^verbatim>\<open>crates/gcode-mobile-core/src/lib.rs\<close>, and \<^verbatim>\<open>crates/gcode-mobile-core/src/visual.rs\<close> (scenes, SVG
  and text rendering, screenshots, hit testing).

  An \<^verbatim>\<open>i32\<close> coordinate is an \<^typ>\<open>int\<close>; every addition of the code is \<^verbatim>\<open>i32_add\<close>, which wraps at 32
  bits as a build without overflow checks does.
\<close>

section \<open>Definitions\<close>

subsection \<open>Rectangles\<close>

definition i32_add :: "int \<Rightarrow> int \<Rightarrow> int" where
  "i32_add a b = i32_wrap (a + b)"

definition i32_sub :: "int \<Rightarrow> int \<Rightarrow> int" where
  "i32_sub a b = i32_wrap (a - b)"

text \<open>Division truncates towards zero.\<close>

definition i32_half :: "int \<Rightarrow> int" where
  "i32_half a = (if a < 0 then - ((- a) div 2) else a div 2)"

definition DEFAULT_VIEWPORT_WIDTH :: int where
  "DEFAULT_VIEWPORT_WIDTH = 390"

definition DEFAULT_VIEWPORT_HEIGHT :: int where
  "DEFAULT_VIEWPORT_HEIGHT = 844"

record ui_rect =
  rx :: int
  ry :: int
  rwidth :: int
  rheight :: int

definition rect :: "int \<Rightarrow> int \<Rightarrow> int \<Rightarrow> int \<Rightarrow> ui_rect" where
  "rect x y w h = \<lparr>rx = x, ry = y, rwidth = w, rheight = h\<rparr>"

definition contains_point :: "ui_rect \<Rightarrow> int \<Rightarrow> int \<Rightarrow> bool" where
  "contains_point self x y \<longleftrightarrow>
     x \<ge> rx self \<and> y \<ge> ry self \<and> x < i32_add (rx self) (rwidth self) \<and> y < i32_add (ry self) (rheight self)"

definition center :: "ui_rect \<Rightarrow> int \<times> int" where
  "center self = (i32_add (rx self) (i32_half (rwidth self)), i32_add (ry self) (i32_half (rheight self)))"

subsection \<open>Nodes\<close>

datatype ui_node_role = RScreen | TextInput | Button | Banner | MessageList | RMessage | Composer

datatype ui_node_action = Tap | SetText | TypeText | Scroll

datatype ui_node = UiNode
  (un_id: string) (un_role: ui_node_role) (un_label: string) (un_value: "string option")
  (un_visible: bool) (un_enabled: bool) (un_focused: bool)
  (un_accessibility_label: "string option") (un_accessibility_value: "string option")
  (un_supported_actions: "ui_node_action list") (un_bounds: "ui_rect option")
  (un_children: "ui_node list")

record ui_tree =
  ut_screen :: screen
  ut_root :: ui_node

fun set_bounds :: "ui_rect option \<Rightarrow> ui_node \<Rightarrow> ui_node" where
  "set_bounds b (UiNode i r l v vis en f al av ac _ ch) = UiNode i r l v vis en f al av ac b ch"

fun set_children :: "ui_node list \<Rightarrow> ui_node \<Rightarrow> ui_node" where
  "set_children ch (UiNode i r l v vis en f al av ac b _) = UiNode i r l v vis en f al av ac b ch"

text \<open>A node literal of \<^verbatim>\<open>build_ui_tree\<close>: visible, unfocused, without metadata, bounds or actions.\<close>

definition plain_node ::
  "string \<Rightarrow> ui_node_role \<Rightarrow> string \<Rightarrow> string option \<Rightarrow> bool \<Rightarrow> ui_node list \<Rightarrow> ui_node" where
  "plain_node i r l v en ch = UiNode i r l v True en False None None [] None ch"

subsection \<open>Agent metadata\<close>

definition node_actions :: "ui_node_role \<Rightarrow> bool \<Rightarrow> ui_node_action list" where
  "node_actions r en =
     (if (r = TextInput \<or> r = Composer) \<and> en then [SetText, TypeText]
      else if r = Button \<and> en then [Tap]
      else if r = MessageList \<and> en then [Scroll]
      else [])"

fun annotate_node_for_agents :: "ui_node \<Rightarrow> ui_node" where
  "annotate_node_for_agents (UiNode i r l v vis en f al av ac b ch) =
     UiNode i r l v vis en f
       (if al = None then Some l else al)
       (if av = None then v else av)
       (node_actions r en) b (map annotate_node_for_agents ch)"

definition with_agent_metadata :: "ui_tree \<Rightarrow> ui_tree" where
  "with_agent_metadata tree = tree\<lparr>ut_root := annotate_node_for_agents (ut_root tree)\<rparr>"

subsection \<open>Layout\<close>

text \<open>\<^verbatim>\<open>if let Some(node) = children.iter_mut().find(|node| node.id == id) { change node }\<close>\<close>

fun update_first :: "string \<Rightarrow> (ui_node \<Rightarrow> ui_node) \<Rightarrow> ui_node list \<Rightarrow> ui_node list" where
  "update_first i f [] = []"
| "update_first i f (n # ns) = (if un_id n = i then f n # ns else n # update_first i f ns)"

fun layout_pairing_fields :: "string list \<Rightarrow> int \<Rightarrow> ui_node list \<Rightarrow> ui_node list" where
  "layout_pairing_fields [] y children = children"
| "layout_pairing_fields (i # is) y children =
     (if \<exists>n\<in>set children. un_id n = i
      then layout_pairing_fields is (i32_add y 64)
             (update_first i (set_bounds (Some (rect 16 y (i32_sub DEFAULT_VIEWPORT_WIDTH 32) 52))) children)
      else layout_pairing_fields is y children)"

definition layout_pairing_screen :: "ui_node list \<Rightarrow> int \<Rightarrow> ui_node list" where
  "layout_pairing_screen children y =
     layout_pairing_fields [''pair.host'', ''pair.port'', ''pair.code'', ''pair.device_name'', ''pair.submit'']
       y children"

fun layout_messages :: "int \<Rightarrow> ui_node list \<Rightarrow> ui_node list" where
  "layout_messages message_y [] = []"
| "layout_messages message_y (m # ms) =
     set_bounds (Some (rect 24 message_y (i32_sub DEFAULT_VIEWPORT_WIDTH 48) 56)) m #
     layout_messages (i32_add message_y 64) ms"

definition layout_message_list :: "int \<Rightarrow> ui_node \<Rightarrow> ui_node" where
  "layout_message_list y messages =
     set_children (layout_messages (i32_add y 8) (un_children messages))
       (set_bounds (Some (rect 16 y (i32_sub DEFAULT_VIEWPORT_WIDTH 32) (i32_sub 610 y))) messages)"

definition layout_chat_screen :: "ui_node list \<Rightarrow> int \<Rightarrow> ui_node list" where
  "layout_chat_screen children y =
     update_first ''chat.interrupt'' (set_bounds (Some (rect 16 766 120 44)))
       (update_first ''chat.send'' (set_bounds (Some (rect (i32_sub DEFAULT_VIEWPORT_WIDTH 110) 766 94 44)))
         (update_first ''chat.draft''
           (set_bounds (Some (rect 16 690 (i32_sub DEFAULT_VIEWPORT_WIDTH 32) 52)))
           (update_first ''chat.messages'' (layout_message_list y) children)))"

fun layout_banners :: "int \<Rightarrow> ui_node list \<Rightarrow> ui_node list \<times> int" where
  "layout_banners y [] = ([], y)"
| "layout_banners y (c # cs) =
     (if un_id c = ''banner.status'' \<or> un_id c = ''banner.error'' then
        let c = set_bounds (Some (rect 16 y (i32_sub DEFAULT_VIEWPORT_WIDTH 32) 44)) c;
            (cs, y) = layout_banners (i32_add y 56) cs
        in (c # cs, y)
      else
        let (cs, y) = layout_banners y cs in (c # cs, y))"

definition with_default_layout :: "ui_tree \<Rightarrow> ui_tree" where
  "with_default_layout tree =
     (let root = set_bounds (Some (rect 0 0 DEFAULT_VIEWPORT_WIDTH DEFAULT_VIEWPORT_HEIGHT)) (ut_root tree);
          (children, y) = layout_banners 16 (un_children root);
          children = (case ut_screen tree of
              Onboarding \<Rightarrow> layout_pairing_screen children y
            | Pairing \<Rightarrow> layout_pairing_screen children y
            | Chat \<Rightarrow> layout_chat_screen children y)
      in tree\<lparr>ut_root := set_children children root\<rparr>)"

subsection \<open>The tree of a state\<close>

fun screen_debug :: "screen \<Rightarrow> string" where
  "screen_debug Onboarding = ''Onboarding''"
| "screen_debug Pairing = ''Pairing''"
| "screen_debug Chat = ''Chat''"

fun message_role_debug :: "message_role \<Rightarrow> string" where
  "message_role_debug message_role.User = ''User''"
| "message_role_debug message_role.Assistant = ''Assistant''"
| "message_role_debug System = ''System''"

definition banner_nodes :: "simulator_state \<Rightarrow> ui_node list" where
  "banner_nodes state =
     (case st_status_message state of
        Some status \<Rightarrow> [plain_node ''banner.status'' Banner ''Status'' (Some status) True []]
      | None \<Rightarrow> []) @
     (case st_error_message state of
        Some e \<Rightarrow> [plain_node ''banner.error'' Banner ''Error'' (Some e) True []]
      | None \<Rightarrow> [])"

definition pairing_nodes :: "simulator_state \<Rightarrow> ui_node list" where
  "pairing_nodes state =
     (let en = st_connection_state state \<noteq> connection_state.Connecting; p = st_pairing state in
      [plain_node ''pair.host'' TextInput ''Host'' (Some (pf_host p)) en [],
       plain_node ''pair.port'' TextInput ''Port'' (Some (pf_port p)) en [],
       plain_node ''pair.code'' TextInput ''Pair Code'' (Some (pf_pair_code p)) en [],
       plain_node ''pair.device_name'' TextInput ''Device Name'' (Some (pf_device_name p)) en [],
       plain_node ''pair.submit'' Button ''Pair & Connect'' None en []])"

definition message_nodes :: "chat_message list \<Rightarrow> ui_node list" where
  "message_nodes messages =
     map (\<lambda>(idx, message).
         plain_node (''message.'' @ show_nat idx) RMessage (message_role_debug (cm_role message) @ '' message'')
           (Some (cm_text message)) True [])
       (enumerate 0 messages)"

definition chat_nodes :: "simulator_state \<Rightarrow> ui_node list" where
  "chat_nodes state =
     [plain_node ''chat.messages'' MessageList ''Messages'' None True (message_nodes (st_messages state)),
      plain_node ''chat.draft'' Composer ''Draft'' (Some (st_draft_message state)) True [],
      plain_node ''chat.send'' Button ''Send'' None (st_connection_state state = Connected) [],
      plain_node ''chat.interrupt'' Button ''Interrupt'' None (st_is_processing state) []]"

definition build_ui_tree :: "simulator_state \<Rightarrow> ui_tree" where
  "build_ui_tree state =
     (let children = banner_nodes state @
            (case st_screen state of
               Onboarding \<Rightarrow> pairing_nodes state
             | Pairing \<Rightarrow> pairing_nodes state
             | Chat \<Rightarrow> chat_nodes state)
      in with_default_layout (with_agent_metadata
           \<lparr>ut_screen = st_screen state,
            ut_root = plain_node ''root'' RScreen (screen_debug (st_screen state)) None True children\<rparr>))"

subsection \<open>Hit testing\<close>

definition node_hit :: "ui_node \<Rightarrow> int \<Rightarrow> int \<Rightarrow> bool" where
  "node_hit node x y \<longleftrightarrow> un_visible node \<and>
     (case un_bounds node of None \<Rightarrow> False | Some b \<Rightarrow> contains_point b x y)"

text \<open>\<^verbatim>\<open>iter().rev().find_map(f)\<close>\<close>

fun rfind_map :: "('a \<Rightarrow> 'b option) \<Rightarrow> 'a list \<Rightarrow> 'b option" where
  "rfind_map f [] = None"
| "rfind_map f (a # as) = (case rfind_map f as of Some b \<Rightarrow> Some b | None \<Rightarrow> f a)"

lemma rfind_map_cong [fundef_cong]:
  "xs = ys \<Longrightarrow> (\<And>x. x \<in> set ys \<Longrightarrow> f x = g x) \<Longrightarrow> rfind_map f xs = rfind_map g ys"
  by (induction xs arbitrary: ys) (auto split: option.split)

lemma size_child [termination_simp]: "c \<in> set (un_children n) \<Longrightarrow> size c < size n"
  by (cases n) (auto dest: size_list_estimation' [where f = size, OF _ order.refl])

function hit_test_node :: "ui_node \<Rightarrow> int \<Rightarrow> int \<Rightarrow> ui_node option" where
  "hit_test_node node x y =
     (if \<not> node_hit node x y then None
      else case rfind_map (\<lambda>child. hit_test_node child x y) (un_children node) of
             Some n \<Rightarrow> Some n
           | None \<Rightarrow> Some node)"
  by pat_completeness auto
termination
  by (relation "measure (\<lambda>(n, x, y). size n)") (auto simp: size_child)

function hit_test_actionable_node :: "ui_node \<Rightarrow> int \<Rightarrow> int \<Rightarrow> ui_node_action \<Rightarrow> ui_node option" where
  "hit_test_actionable_node node x y action =
     (if \<not> node_hit node x y then None
      else case rfind_map (\<lambda>child. hit_test_actionable_node child x y action) (un_children node) of
             Some n \<Rightarrow> Some n
           | None \<Rightarrow>
               if un_enabled node \<and> action \<in> set (un_supported_actions node) then Some node else None)"
  by pat_completeness auto
termination
  by (relation "measure (\<lambda>(n, x, y, a). size n)") (auto simp: size_child)

declare hit_test_node.simps [simp del] hit_test_actionable_node.simps [simp del]

definition hit_test :: "ui_tree \<Rightarrow> int \<Rightarrow> int \<Rightarrow> ui_node option" where
  "hit_test tree x y = hit_test_node (ut_root tree) x y"

definition hit_test_actionable :: "ui_tree \<Rightarrow> int \<Rightarrow> int \<Rightarrow> ui_node_action \<Rightarrow> ui_node option" where
  "hit_test_actionable tree x y action = hit_test_actionable_node (ut_root tree) x y action"

subsection \<open>Visual scenes\<close>

record visual_rect =
  vr_id :: string
  vr_semantic_node_id :: "string option"
  vr_bounds :: ui_rect
  vr_corner_radius :: int
  vr_fill :: string
  vr_stroke :: "string option"
  vr_stroke_width :: int

record visual_text =
  vt_id :: string
  vt_semantic_node_id :: "string option"
  vt_text :: string
  vt_x :: int
  vt_y :: int
  vt_max_width :: int
  vt_font_family :: string
  vt_font_size :: int
  vt_font_weight :: int
  vt_line_height :: int
  vt_fill :: string

datatype visual_primitive = VRect visual_rect | VText visual_text

record visual_layer =
  vl_id :: string
  vl_z_index :: int
  vl_primitives :: "visual_primitive list"

record visual_scene_rec =
  vs_schema_version :: u32
  vs_viewport :: ui_rect
  vs_coordinate_space :: string
  vs_theme :: string
  vs_layers :: "visual_layer list"

definition VISUAL_SCENE_SCHEMA_VERSION :: u32 where
  "VISUAL_SCENE_SCHEMA_VERSION = 1"

definition ellipsis :: string where
  "ellipsis = [CHR 0xE2, CHR 0x80, CHR 0xA6]"

definition truncate_for_svg :: "string \<Rightarrow> nat \<Rightarrow> string" where
  "truncate_for_svg input max_chars =
     (if chars_count input \<le> max_chars then input else take_chars (max_chars - 1) input @ ellipsis)"

definition truncate_for_text :: "string \<Rightarrow> nat \<Rightarrow> string" where
  "truncate_for_text input max_chars =
     (if chars_count input \<le> max_chars then input else take_chars (max_chars - 1) input @ ellipsis)"

record visual_node_style =
  ns_fill :: string
  ns_stroke :: "string option"
  ns_stroke_width :: int
  ns_corner_radius :: int

record visual_text_style =
  ts_fill :: string
  ts_font_size :: int
  ts_font_weight :: int
  ts_line_height :: int
  ts_inset_x :: int
  ts_baseline_y :: int

definition visual_style_for_node :: "ui_node \<Rightarrow> visual_node_style" where
  "visual_style_for_node node =
     (let (fill, stroke, stroke_width, corner_radius) =
        (case un_role node of
           RScreen \<Rightarrow> (''#00000000'', None, 0, 0)
         | TextInput \<Rightarrow> (''#111827'', Some ''#334155'', 1, 16)
         | Composer \<Rightarrow> (''#111827'', Some ''#334155'', 1, 16)
         | Button \<Rightarrow> if un_enabled node then (''#2563eb'', Some ''#60a5fa'', 1, 16)
                     else (''#334155'', Some ''#475569'', 1, 16)
         | Banner \<Rightarrow> if un_id node = ''banner.error'' then (''#3f1d2b'', Some ''#fb7185'', 1, 14)
                     else (''#082f49'', Some ''#38bdf8'', 1, 14)
         | MessageList \<Rightarrow> (''#0f172a'', Some ''#1e293b'', 1, 18)
         | RMessage \<Rightarrow> if prefix ''User'' (un_label node) then (''#1d4ed8'', Some ''#60a5fa'', 1, 18)
                       else if prefix ''System'' (un_label node) then (''#3f1d2b'', Some ''#fb7185'', 1, 18)
                       else (''#111827'', Some ''#334155'', 1, 18))
      in \<lparr>ns_fill = fill, ns_stroke = stroke, ns_stroke_width = stroke_width,
          ns_corner_radius = corner_radius\<rparr>)"

definition visual_text_style_for_node :: "ui_node \<Rightarrow> visual_text_style" where
  "visual_text_style_for_node node =
     (let button_text = (un_role node = Button \<and> un_enabled node);
          fill = (case un_role node of
              Button \<Rightarrow> if button_text then ''#ffffff'' else ''#cbd5e1''
            | RMessage \<Rightarrow> if prefix ''User'' (un_label node) then ''#eff6ff'' else ''#e5e7eb''
            | Banner \<Rightarrow> if un_id node = ''banner.error'' then ''#ffe4e6'' else ''#e0f2fe''
            | _ \<Rightarrow> ''#e5e7eb'');
          (font_size, font_weight, line_height, baseline_y) =
            (case un_role node of
               Button \<Rightarrow> (15, 800, 20, 28)
             | Banner \<Rightarrow> (13, 700, 18, 28)
             | RMessage \<Rightarrow> (14, 500, 20, 32)
             | TextInput \<Rightarrow> (15, 500, 20, 32)
             | Composer \<Rightarrow> (15, 500, 20, 32)
             | MessageList \<Rightarrow> (14, 600, 20, 28)
             | RScreen \<Rightarrow> (14, 600, 20, 28))
      in \<lparr>ts_fill = fill, ts_font_size = font_size, ts_font_weight = font_weight,
          ts_line_height = line_height, ts_inset_x = 14, ts_baseline_y = baseline_y\<rparr>)"

definition INTER :: string where
  "INTER = ''Inter, ui-sans-serif, system-ui''"

definition node_primitives :: "ui_node \<Rightarrow> nat \<Rightarrow> visual_primitive list" where
  "node_primitives node depth =
     (case un_bounds node of
        None \<Rightarrow> []
      | Some bounds \<Rightarrow>
          if un_role node = RScreen then []
          else
            let style = visual_style_for_node node;
                text = (case un_value node of
                    Some value \<Rightarrow> if value \<noteq> [] then value else un_label node
                  | None \<Rightarrow> un_label node);
                text_style = visual_text_style_for_node node
            in [VRect \<lparr>vr_id = un_id node @ ''.rect'', vr_semantic_node_id = Some (un_id node),
                       vr_bounds = bounds, vr_corner_radius = ns_corner_radius style,
                       vr_fill = ns_fill style, vr_stroke = ns_stroke style,
                       vr_stroke_width = ns_stroke_width style\<rparr>,
                VText \<lparr>vt_id = un_id node @ ''.label'', vt_semantic_node_id = Some (un_id node),
                       vt_text = truncate_for_svg text (54 - depth * 4),
                       vt_x = i32_add (rx bounds) (ts_inset_x text_style),
                       vt_y = i32_add (ry bounds) (ts_baseline_y text_style),
                       vt_max_width = i32_sub (rwidth bounds) (i32_wrap (ts_inset_x text_style * 2)),
                       vt_font_family = INTER, vt_font_size = ts_font_size text_style,
                       vt_font_weight = ts_font_weight text_style,
                       vt_line_height = ts_line_height text_style, vt_fill = ts_fill text_style\<rparr>])"

function push_visual_node :: "visual_primitive list \<Rightarrow> ui_node \<Rightarrow> nat \<Rightarrow> visual_primitive list" where
  "push_visual_node primitives node depth =
     (if \<not> un_visible node then primitives
      else fold (\<lambda>child ps. push_visual_node ps child (depth + 1)) (un_children node)
             (primitives @ node_primitives node depth))"
  by pat_completeness auto
termination
  by (relation "measure (\<lambda>(ps, n, d). size n)") (auto simp: size_child)

declare push_visual_node.simps [simp del]

definition visual_scene :: "ui_tree \<Rightarrow> visual_scene_rec" where
  "visual_scene tree =
     (let viewport = rect 0 0 DEFAULT_VIEWPORT_WIDTH DEFAULT_VIEWPORT_HEIGHT;
          background = \<lparr>vl_id = ''background'', vl_z_index = 0,
            vl_primitives = [VRect \<lparr>vr_id = ''background.canvas'', vr_semantic_node_id = None,
              vr_bounds = viewport, vr_corner_radius = 0, vr_fill = ''#0b1020'', vr_stroke = None,
              vr_stroke_width = 0\<rparr>]\<rparr>;
          chrome = \<lparr>vl_id = ''chrome'', vl_z_index = 10,
            vl_primitives =
              [VText \<lparr>vt_id = ''chrome.status.time'', vt_semantic_node_id = None, vt_text = ''9:41'',
                 vt_x = 28, vt_y = 26, vt_max_width = 80, vt_font_family = INTER, vt_font_size = 13,
                 vt_font_weight = 700, vt_line_height = 16, vt_fill = ''#e5e7eb''\<rparr>,
               VText \<lparr>vt_id = ''chrome.title'', vt_semantic_node_id = Some (un_id (ut_root tree)),
                 vt_text = (case ut_screen tree of Chat \<Rightarrow> ''gcode'' | _ \<Rightarrow> ''Pair gcode''),
                 vt_x = 154, vt_y = 58, vt_max_width = 140, vt_font_family = INTER, vt_font_size = 17,
                 vt_font_weight = 800, vt_line_height = 22, vt_fill = ''#f8fafc''\<rparr>]\<rparr>;
          content = \<lparr>vl_id = ''content'', vl_z_index = 20,
            vl_primitives = push_visual_node [] (ut_root tree) 0\<rparr>
      in \<lparr>vs_schema_version = VISUAL_SCENE_SCHEMA_VERSION, vs_viewport = viewport,
          vs_coordinate_space = ''logical_points_top_left'', vs_theme = ''gcode-mobile-rust-scene-v1'',
          vs_layers = [background, chrome, content]\<rparr>)"

subsection \<open>Rendering\<close>

text \<open>\<^verbatim>\<open>str::replace\<close> of a one-byte character.\<close>

definition replace_char :: "char \<Rightarrow> string \<Rightarrow> string \<Rightarrow> string" where
  "replace_char c by s = concat (map (\<lambda>x. if x = c then by else [x]) s)"

definition xml_escape :: "string \<Rightarrow> string" where
  "xml_escape input =
     replace_char (CHR 0x27) ''&apos;''
       (replace_char (CHR 0x22) ''&quot;''
         (replace_char (CHR ''>'') ''&gt;''
           (replace_char (CHR ''<'') ''&lt;'' (replace_char (CHR ''&'') ''&amp;'' input))))"

definition attr :: "string \<Rightarrow> string \<Rightarrow> string" where
  "attr name value = '' '' @ name @ ''='' @ quot @ value @ quot"

definition data_node_attr :: "string option \<Rightarrow> string" where
  "data_node_attr node_id =
     (case node_id of None \<Rightarrow> [] | Some i \<Rightarrow> attr ''data-node'' (xml_escape i))"

fun render_svg_primitive :: "visual_primitive \<Rightarrow> string" where
  "render_svg_primitive (VRect r) =
     ''<rect'' @ attr ''data-primitive'' (xml_escape (vr_id r)) @ data_node_attr (vr_semantic_node_id r) @
     attr ''x'' (show_int (rx (vr_bounds r))) @ attr ''y'' (show_int (ry (vr_bounds r))) @
     attr ''width'' (show_int (rwidth (vr_bounds r))) @ attr ''height'' (show_int (rheight (vr_bounds r))) @
     attr ''rx'' (show_int (vr_corner_radius r)) @ attr ''fill'' (xml_escape (vr_fill r)) @
     (case vr_stroke r of
        None \<Rightarrow> []
      | Some stroke \<Rightarrow> attr ''stroke'' (xml_escape stroke) @ attr ''stroke-width'' (show_int (vr_stroke_width r))) @
     ''/>''"
| "render_svg_primitive (VText t) =
     ''<text'' @ attr ''data-primitive'' (xml_escape (vt_id t)) @ data_node_attr (vt_semantic_node_id t) @
     attr ''x'' (show_int (vt_x t)) @ attr ''y'' (show_int (vt_y t)) @ attr ''fill'' (xml_escape (vt_fill t)) @
     attr ''font-family'' (xml_escape (vt_font_family t)) @ attr ''font-size'' (show_int (vt_font_size t)) @
     attr ''font-weight'' (show_int (vt_font_weight t)) @ ''>'' @ xml_escape (vt_text t) @ ''</text>''"

definition render_layer :: "visual_layer \<Rightarrow> string" where
  "render_layer layer =
     ''<g'' @ attr ''data-layer'' (xml_escape (vl_id layer)) @ attr ''data-z-index'' (show_int (vl_z_index layer)) @ ''>'' @
     concat (map render_svg_primitive (vl_primitives layer)) @ ''</g>''"

definition render_scene_svg :: "visual_scene_rec \<Rightarrow> string" where
  "render_scene_svg scene =
     (let w = show_int (rwidth (vs_viewport scene)); h = show_int (rheight (vs_viewport scene)) in
      ''<svg'' @ attr ''xmlns'' ''http://www.w3.org/2000/svg'' @ attr ''width'' w @ attr ''height'' h @
      attr ''viewBox'' (''0 0 '' @ w @ '' '' @ h) @ ''>'' @
      concat (map render_layer (sort_key vl_z_index (vs_layers scene))) @ ''</svg>'' @ nl)"

definition byte_of_char :: "char \<Rightarrow> u8" where
  "byte_of_char c = of_nat (of_char c)"

definition stable_hash_hex :: "string \<Rightarrow> string" where
  "stable_hash_hex bytes =
     ''fnv1a64:'' @
     hex16 (foldl (\<lambda>hash byte. (hash XOR ucast (byte_of_char byte)) * 0x100000001b3) 0xcbf29ce484222325 bytes)"

record screenshot_snapshot_rec =
  sn_format :: string
  sn_width :: int
  sn_height :: int
  sn_theme :: string
  sn_hash :: string
  sn_svg :: string
  sn_scene :: "visual_scene_rec option"
  sn_layout :: ui_tree

record screenshot_diff =
  sd_matches :: bool
  sd_expected_hash :: string
  sd_actual_hash :: string
  sd_expected_len :: nat
  sd_actual_len :: nat
  sd_first_difference :: "nat option"

definition screenshot_snapshot :: "ui_tree \<Rightarrow> screenshot_snapshot_rec" where
  "screenshot_snapshot tree =
     (let scene = visual_scene tree;
          svg = render_scene_svg scene;
          hash = stable_hash_hex svg
      in \<lparr>sn_format = ''svg'', sn_width = DEFAULT_VIEWPORT_WIDTH, sn_height = DEFAULT_VIEWPORT_HEIGHT,
          sn_theme = vs_theme scene, sn_hash = hash, sn_svg = svg, sn_scene = Some scene,
          sn_layout = tree\<rparr>)"

text \<open>\<^verbatim>\<open>zip(...).position(|(a, b)| a != b)\<close>\<close>

fun zip_position :: "'a list \<Rightarrow> 'a list \<Rightarrow> nat option" where
  "zip_position (a # as) (b # bs) =
     (if a \<noteq> b then Some 0 else map_option Suc (zip_position as bs))"
| "zip_position _ _ = None"

definition diff_screenshots :: "screenshot_snapshot_rec \<Rightarrow> screenshot_snapshot_rec \<Rightarrow> screenshot_diff" where
  "diff_screenshots expected actual =
     (let first_difference =
        (case zip_position (sn_svg expected) (sn_svg actual) of
           Some i \<Rightarrow> Some i
         | None \<Rightarrow>
             if length (sn_svg expected) = length (sn_svg actual) then None
             else Some (min (length (sn_svg expected)) (length (sn_svg actual))))
      in \<lparr>sd_matches = (sn_hash expected = sn_hash actual \<and> first_difference = None),
          sd_expected_hash = sn_hash expected, sd_actual_hash = sn_hash actual,
          sd_expected_len = length (sn_svg expected), sd_actual_len = length (sn_svg actual),
          sd_first_difference = first_difference\<rparr>)"

fun node_role_debug :: "ui_node_role \<Rightarrow> string" where
  "node_role_debug RScreen = ''Screen''"
| "node_role_debug TextInput = ''TextInput''"
| "node_role_debug Button = ''Button''"
| "node_role_debug Banner = ''Banner''"
| "node_role_debug MessageList = ''MessageList''"
| "node_role_debug RMessage = ''Message''"
| "node_role_debug Composer = ''Composer''"

text \<open>\<^verbatim>\<open>format!("{:?}", action).to_lowercase()\<close>\<close>

fun action_lower :: "ui_node_action \<Rightarrow> string" where
  "action_lower Tap = ''tap''"
| "action_lower SetText = ''settext''"
| "action_lower TypeText = ''typetext''"
| "action_lower Scroll = ''scroll''"

definition node_line :: "ui_node \<Rightarrow> nat \<Rightarrow> string" where
  "node_line node depth =
     (let indent = concat (replicate depth ''  '');
          bounds = (case un_bounds node of
              Some b \<Rightarrow> ''@'' @ show_int (rx b) @ '','' @ show_int (ry b) @ '' '' @ show_int (rwidth b) @ ''x'' @ show_int (rheight b)
            | None \<Rightarrow> ''@unlaid'');
          value = (case un_value node of
              Some v \<Rightarrow> if v \<noteq> [] then '' = '' @ truncate_for_text v 72 else []
            | None \<Rightarrow> []);
          actions = (if un_supported_actions node = [] then ''-''
                     else join '','' (map action_lower (un_supported_actions node)))
      in indent @ ''- '' @ un_id node @ '' ['' @ node_role_debug (un_role node) @ ''] '' @ bounds @
         '' enabled='' @ (if un_enabled node then ''true'' else ''false'') @ '' actions='' @ actions @
         '' label='' @ truncate_for_text (un_label node) 48 @ value @ nl)"

function render_text_node :: "string \<Rightarrow> ui_node \<Rightarrow> nat \<Rightarrow> string" where
  "render_text_node output node depth =
     (if \<not> un_visible node then output
      else fold (\<lambda>child out. render_text_node out child (depth + 1)) (un_children node)
             (output @ node_line node depth))"
  by pat_completeness auto
termination
  by (relation "measure (\<lambda>(out, n, d). size n)") (auto simp: size_child)

declare render_text_node.simps [simp del]

definition render_text :: "ui_tree \<Rightarrow> string" where
  "render_text tree =
     render_text_node
       (''gcode mobile simulator'' @ nl @ ''screen: '' @ screen_debug (ut_screen tree) @ nl @
        ''viewport: '' @ show_int DEFAULT_VIEWPORT_WIDTH @ ''x'' @ show_int DEFAULT_VIEWPORT_HEIGHT @ nl)
       (ut_root tree) 0"

subsection \<open>Specifications\<close>

text \<open>Nodes below a node through visible nodes whose bounds contain the point.\<close>

inductive reach_at :: "int \<Rightarrow> int \<Rightarrow> ui_node \<Rightarrow> ui_node \<Rightarrow> bool" for x y where
  here: "node_hit n x y \<Longrightarrow> reach_at x y n n"
| below: "node_hit n x y \<Longrightarrow> c \<in> set (un_children n) \<Longrightarrow> reach_at x y c m \<Longrightarrow> reach_at x y n m"

inductive_cases reach_atE: "reach_at x y n m"

text \<open>Reading escaped text back.\<close>

function xml_unescape :: "string \<Rightarrow> string" where
  "xml_unescape [] = []"
| "xml_unescape (c # cs) =
     (if prefix ''&amp;'' (c # cs) then CHR ''&'' # xml_unescape (drop 4 cs)
      else if prefix ''&lt;'' (c # cs) then CHR ''<'' # xml_unescape (drop 3 cs)
      else if prefix ''&gt;'' (c # cs) then CHR ''>'' # xml_unescape (drop 3 cs)
      else if prefix ''&quot;'' (c # cs) then CHR 0x22 # xml_unescape (drop 5 cs)
      else if prefix ''&apos;'' (c # cs) then CHR 0x27 # xml_unescape (drop 5 cs)
      else c # xml_unescape cs)"
  by pat_completeness auto
termination
  by (relation "measure length") auto

section \<open>Lemmas\<close>

subsection \<open>Hit testing\<close>

lemma rfind_map_None: "rfind_map f xs = None \<longleftrightarrow> (\<forall>x\<in>set xs. f x = None)"
  by (induction xs) (auto split: option.split)

lemma rfind_map_Some: "rfind_map f xs = Some b \<Longrightarrow> \<exists>x\<in>set xs. f x = Some b"
  by (induction xs) (auto split: option.splits)

lemma hit_test_node_None: "hit_test_node n x y = None \<longleftrightarrow> \<not> node_hit n x y"
  by (subst hit_test_node.simps) (auto split: option.split)

lemma hit_test_node_Some:
  "hit_test_node n x y = Some m \<Longrightarrow> reach_at x y n m \<and> (\<forall>c\<in>set (un_children m). \<not> node_hit c x y)"
proof (induction n x y rule: hit_test_node.induct)
  case (1 n x y)
  from 1(2) have hit: "node_hit n x y" by (metis hit_test_node_None option.distinct(1))
  show ?case
  proof (cases "rfind_map (\<lambda>child. hit_test_node child x y) (un_children n)")
    case None
    with 1(2) hit have "m = n" by (subst (asm) hit_test_node.simps) simp
    with None hit show ?thesis by (auto simp: rfind_map_None hit_test_node_None intro: here)
  next
    case (Some k)
    with 1(2) hit have "m = k" by (subst (asm) hit_test_node.simps) simp
    with Some obtain c where c: "c \<in> set (un_children n)" "hit_test_node c x y = Some m"
      using rfind_map_Some by fastforce
    with 1(1) [OF _ c] hit show ?thesis by (auto intro: below)
  qed
qed

lemma hit_test_actionable_Some:
  "hit_test_actionable_node n x y a = Some m \<Longrightarrow>
     reach_at x y n m \<and> un_enabled m \<and> a \<in> set (un_supported_actions m)"
proof (induction n x y a rule: hit_test_actionable_node.induct)
  case (1 n x y a)
  from 1(2) have hit: "node_hit n x y" by (subst (asm) hit_test_actionable_node.simps) (auto split: if_splits)
  show ?case
  proof (cases "rfind_map (\<lambda>child. hit_test_actionable_node child x y a) (un_children n)")
    case None
    with 1(2) hit have "m = n \<and> un_enabled n \<and> a \<in> set (un_supported_actions n)"
      by (subst (asm) hit_test_actionable_node.simps) (simp split: if_splits)
    with hit show ?thesis by (auto intro: here)
  next
    case (Some k)
    with 1(2) hit have "m = k" by (subst (asm) hit_test_actionable_node.simps) simp
    with Some obtain c where c: "c \<in> set (un_children n)" "hit_test_actionable_node c x y a = Some m"
      using rfind_map_Some by fastforce
    with 1(1) [OF _ c] hit show ?thesis by (auto intro: below)
  qed
qed

lemma hit_test_actionable_None:
  assumes "reach_at x y n m" and "un_enabled m" and "a \<in> set (un_supported_actions m)"
  shows "hit_test_actionable_node n x y a \<noteq> None"
  using assms
proof (induction rule: reach_at.induct)
  case (here n)
  then show ?case by (subst hit_test_actionable_node.simps) (auto split: option.split)
next
  case (below n c m)
  then have "rfind_map (\<lambda>child. hit_test_actionable_node child x y a) (un_children n) \<noteq> None"
    by (auto simp: rfind_map_None)
  with below show ?case by (subst hit_test_actionable_node.simps) auto
qed

lemma hit_leaf:
  "un_children n = [] \<Longrightarrow>
     hit_test_actionable_node n x y a =
       (if node_hit n x y \<and> un_enabled n \<and> a \<in> set (un_supported_actions n) then Some n else None)"
  by (subst hit_test_actionable_node.simps) simp

lemma hit_outside: "\<not> node_hit n x y \<Longrightarrow> hit_test_actionable_node n x y a = None"
  by (subst hit_test_actionable_node.simps) simp

subsection \<open>Layout\<close>

lemma i32_wrap_id: "- 2147483648 \<le> z \<Longrightarrow> z \<le> 2147483647 \<Longrightarrow> i32_wrap z = z"
  by (simp add: i32_wrap_def)

lemmas layout_simps =
  plain_node_def node_actions_def rect_def i32_add_def i32_sub_def i32_wrap_id center_def i32_half_def
  DEFAULT_VIEWPORT_WIDTH_def DEFAULT_VIEWPORT_HEIGHT_def

text \<open>The banners of a state after layout, and the height at which the screen's own nodes start.\<close>

definition laid_banners :: "simulator_state \<Rightarrow> ui_node list \<times> int" where
  "laid_banners s = layout_banners 16 (map annotate_node_for_agents (banner_nodes s))"

definition is_banner :: "ui_node \<Rightarrow> bool" where
  "is_banner n \<longleftrightarrow> un_role n = Banner \<and> un_children n = [] \<and> un_supported_actions n = [] \<and>
     (un_id n = ''banner.status'' \<or> un_id n = ''banner.error'')"

lemma laid_banners_facts:
  "list_all is_banner (fst (laid_banners s)) \<and> snd (laid_banners s) \<in> {16, 72, 128}"
  by (simp add: laid_banners_def banner_nodes_def layout_simps is_banner_def Let_def split: option.split)

lemma layout_banners_append:
  "layout_banners y (as @ bs) =
     (let (as', y') = layout_banners y as; (bs', y'') = layout_banners y' bs in (as' @ bs', y''))"
  by (induction as arbitrary: y) (auto simp: Let_def split: prod.split)

lemma layout_banners_other:
  "list_all (\<lambda>n. un_id n \<noteq> ''banner.status'' \<and> un_id n \<noteq> ''banner.error'') ns \<Longrightarrow> layout_banners y ns = (ns, y)"
  by (induction ns arbitrary: y) auto

lemma update_first_append:
  "list_all (\<lambda>n. un_id n \<noteq> i) as \<Longrightarrow> update_first i f (as @ bs) = as @ update_first i f bs"
  by (induction as) auto

lemma banner_not_id:
  "list_all is_banner bs \<Longrightarrow> i \<noteq> ''banner.status'' \<Longrightarrow> i \<noteq> ''banner.error'' \<Longrightarrow> list_all (\<lambda>n. un_id n \<noteq> i) bs"
  by (auto simp: list_all_iff is_banner_def)

lemma rfind_map_append:
  "rfind_map f (xs @ ys) = (case rfind_map f ys of Some b \<Rightarrow> Some b | None \<Rightarrow> rfind_map f xs)"
  by (induction xs) (auto split: option.split)

lemma banners_no_tap:
  "list_all is_banner bs \<Longrightarrow> rfind_map (\<lambda>c. hit_test_actionable_node c x y Tap) bs = None"
  by (auto simp: rfind_map_None list_all_iff is_banner_def hit_leaf)

text \<open>The laid-out and annotated nodes of the two screens.\<close>

definition leaf_at :: "string \<Rightarrow> ui_node_role \<Rightarrow> string \<Rightarrow> string option \<Rightarrow> bool \<Rightarrow> ui_rect \<Rightarrow> ui_node" where
  "leaf_at i r l v en b = UiNode i r l v True en False (Some l) v (node_actions r en) (Some b) []"

lemma contains_rect:
  "\<bar>x\<bar> \<le> 1000 \<Longrightarrow> \<bar>y\<bar> \<le> 1000 \<Longrightarrow> \<bar>w\<bar> \<le> 1000 \<Longrightarrow> \<bar>h\<bar> \<le> 1000 \<Longrightarrow>
     contains_point (rect x y w h) px py \<longleftrightarrow> x \<le> px \<and> y \<le> py \<and> px < x + w \<and> py < y + h"
  by (auto simp: contains_point_def rect_def i32_add_def i32_wrap_id)

lemma center_rect:
  "\<bar>x\<bar> \<le> 1000 \<Longrightarrow> \<bar>y\<bar> \<le> 1000 \<Longrightarrow> 0 \<le> w \<Longrightarrow> w \<le> 1000 \<Longrightarrow> 0 \<le> h \<Longrightarrow> h \<le> 1000 \<Longrightarrow>
     center (rect x y w h) = (x + w div 2, y + h div 2)"
  by (simp add: center_def rect_def i32_add_def i32_half_def i32_wrap_id)

lemma leaf_tap:
  "hit_test_actionable_node (leaf_at i r l v en b) x y Tap =
     (if contains_point b x y \<and> en \<and> r = Button then Some (leaf_at i r l v en b) else None)"
  "un_bounds (leaf_at i r l v en b) = Some b"
  by (auto simp: hit_leaf leaf_at_def node_hit_def node_actions_def)

lemma root_hit:
  "hit_test_actionable_node
     (UiNode i RScreen l v True True False al av [] (Some (rect 0 0 390 844)) cs) x y Tap =
   (if 0 \<le> x \<and> 0 \<le> y \<and> x < 390 \<and> y < 844
    then rfind_map (\<lambda>c. hit_test_actionable_node c x y Tap) cs else None)"
  by (subst hit_test_actionable_node.simps) (auto simp: node_hit_def contains_rect split: option.split)

lemma chat_root:
  assumes "st_screen s = Chat"
  shows "\<exists>ms. ut_root (build_ui_tree s) =
    UiNode ''root'' RScreen ''Chat'' None True True False (Some ''Chat'') None [] (Some (rect 0 0 390 844))
      (fst (laid_banners s) @
       [UiNode ''chat.messages'' MessageList ''Messages'' None True True False (Some ''Messages'') None [Scroll]
          (Some (rect 16 (snd (laid_banners s)) 358 (610 - snd (laid_banners s)))) ms,
        leaf_at ''chat.draft'' Composer ''Draft'' (Some (st_draft_message s)) True (rect 16 690 358 52),
        leaf_at ''chat.send'' Button ''Send'' None (st_connection_state s = Connected) (rect 280 766 94 44),
        leaf_at ''chat.interrupt'' Button ''Interrupt'' None (st_is_processing s) (rect 16 766 120 44)])"
proof -
  obtain bs y where b: "laid_banners s = (bs, y)" by fastforce
  have ban: "list_all is_banner bs" and y: "y \<in> {16, 72, 128}" using laid_banners_facts [of s] b by auto
  let ?cs = "map annotate_node_for_agents (chat_nodes s)"
  have lay: "layout_banners 16 (map annotate_node_for_agents (banner_nodes s) @ ?cs) = (bs @ ?cs, y)"
    using b by (simp add: layout_banners_append laid_banners_def layout_banners_other chat_nodes_def plain_node_def)
  have "i32_sub 610 y = 610 - y" using y by (auto simp: i32_sub_def i32_wrap_id)
  then have "\<exists>ms. layout_chat_screen (bs @ ?cs) y = bs @
      [UiNode ''chat.messages'' MessageList ''Messages'' None True True False (Some ''Messages'') None [Scroll]
          (Some (rect 16 y 358 (610 - y))) ms,
        leaf_at ''chat.draft'' Composer ''Draft'' (Some (st_draft_message s)) True (rect 16 690 358 52),
        leaf_at ''chat.send'' Button ''Send'' None (st_connection_state s = Connected) (rect 280 766 94 44),
        leaf_at ''chat.interrupt'' Button ''Interrupt'' None (st_is_processing s) (rect 16 766 120 44)]"
    using ban
    by (simp add: layout_chat_screen_def update_first_append banner_not_id chat_nodes_def plain_node_def
        layout_message_list_def leaf_at_def node_actions_def i32_sub_def [of 390] i32_wrap_id DEFAULT_VIEWPORT_WIDTH_def)
  with lay b assms show ?thesis
    by (simp add: build_ui_tree_def with_default_layout_def with_agent_metadata_def plain_node_def Let_def
        node_actions_def DEFAULT_VIEWPORT_WIDTH_def DEFAULT_VIEWPORT_HEIGHT_def)
qed

lemma pairing_root:
  assumes "st_screen s \<noteq> Chat"
  shows "\<exists>l fields. ut_root (build_ui_tree s) =
      UiNode ''root'' RScreen l None True True False (Some l) None [] (Some (rect 0 0 390 844))
        (fst (laid_banners s) @ fields @
         [leaf_at ''pair.submit'' Button ''Pair & Connect'' None (st_connection_state s \<noteq> connection_state.Connecting)
            (rect 16 (snd (laid_banners s) + 256) 358 52)]) \<and>
    list_all (\<lambda>n. un_role n = TextInput) fields"
proof -
  obtain bs y where b: "laid_banners s = (bs, y)" by fastforce
  have ban: "list_all is_banner bs" and y: "y \<in> {16, 72, 128}" using laid_banners_facts [of s] b by auto
  let ?cs = "map annotate_node_for_agents (pairing_nodes s)"
  let ?en = "st_connection_state s \<noteq> connection_state.Connecting"
  have lay: "layout_banners 16 (map annotate_node_for_agents (banner_nodes s) @ ?cs) = (bs @ ?cs, y)"
    using b by (simp add: layout_banners_append laid_banners_def layout_banners_other pairing_nodes_def
        plain_node_def Let_def)
  have add: "i32_add y 64 = y + 64" "i32_add (y + 64) 64 = y + 128" "i32_add (y + 128) 64 = y + 192"
    "i32_add (y + 192) 64 = y + 256"
    using y by (auto simp: i32_add_def i32_wrap_id)
  have "\<exists>fields. layout_pairing_screen (bs @ ?cs) y = bs @ fields @
         [leaf_at ''pair.submit'' Button ''Pair & Connect'' None (st_connection_state s \<noteq> connection_state.Connecting)
            (rect 16 (y + 256) 358 52)] \<and> list_all (\<lambda>n. un_role n = TextInput) fields"
    using ban
    by (intro exI [of _
          "[leaf_at ''pair.host'' TextInput ''Host'' (Some (pf_host (st_pairing s))) ?en (rect 16 y 358 52),
            leaf_at ''pair.port'' TextInput ''Port'' (Some (pf_port (st_pairing s))) ?en (rect 16 (y + 64) 358 52),
            leaf_at ''pair.code'' TextInput ''Pair Code'' (Some (pf_pair_code (st_pairing s))) ?en (rect 16 (y + 128) 358 52),
            leaf_at ''pair.device_name'' TextInput ''Device Name'' (Some (pf_device_name (st_pairing s))) ?en
              (rect 16 (y + 192) 358 52)]"])
      (simp add: layout_pairing_screen_def update_first_append banner_not_id pairing_nodes_def plain_node_def
        leaf_at_def node_actions_def add i32_sub_def [of 390] i32_wrap_id DEFAULT_VIEWPORT_WIDTH_def Let_def)
  moreover have "st_screen s = Onboarding \<or> st_screen s = Pairing" using assms by (cases "st_screen s") auto
  ultimately show ?thesis using lay b
    by (auto simp: build_ui_tree_def with_default_layout_def with_agent_metadata_def plain_node_def Let_def
        node_actions_def DEFAULT_VIEWPORT_WIDTH_def DEFAULT_VIEWPORT_HEIGHT_def)
qed

subsection \<open>Escaping\<close>

definition xml_escape_char :: "char \<Rightarrow> string" where
  "xml_escape_char c =
     (if c = CHR ''&'' then ''&amp;'' else if c = CHR ''<'' then ''&lt;'' else if c = CHR ''>'' then ''&gt;''
      else if c = CHR 0x22 then ''&quot;'' else if c = CHR 0x27 then ''&apos;'' else [c])"

lemma replace_char_concat: "replace_char c by (xs @ ys) = replace_char c by xs @ replace_char c by ys"
  by (simp add: replace_char_def)

lemma xml_escape_Nil [simp]: "xml_escape [] = []"
  by (simp add: xml_escape_def replace_char_def)

lemma xml_escape_append: "xml_escape (xs @ ys) = xml_escape xs @ xml_escape ys"
  by (simp add: xml_escape_def replace_char_concat)

lemma xml_escape_single: "xml_escape [c] = xml_escape_char c"
  by (simp add: xml_escape_def replace_char_def xml_escape_char_def)

lemma xml_escape_Cons: "xml_escape (c # cs) = xml_escape_char c @ xml_escape cs"
  using xml_escape_append [of "[c]" cs] by (simp add: xml_escape_single)

lemma xml_unescape_char: "xml_unescape (xml_escape_char c @ rest) = c # xml_unescape rest"
  by (simp add: xml_escape_char_def)

subsection \<open>Screenshots\<close>

lemma zip_position_Some:
  "zip_position xs ys = Some i \<Longrightarrow>
     i < length xs \<and> i < length ys \<and> take i xs = take i ys \<and> xs ! i \<noteq> ys ! i"
  by (induction xs ys arbitrary: i rule: zip_position.induct) (auto split: if_splits)

lemma zip_position_None:
  "zip_position xs ys = None \<Longrightarrow> take (min (length xs) (length ys)) xs = take (min (length xs) (length ys)) ys"
  by (induction xs ys rule: zip_position.induct) (auto split: if_splits)

lemma zip_position_self [simp]: "zip_position xs xs = None"
  by (induction xs) auto

lemma ellipsis_facts': "chars_count ellipsis = 1" "\<not> utf8_cont (hd ellipsis)"
  by code_simp+

section \<open>Properties\<close>

text \<open>
  Hit testing returns nothing exactly when the root is not hit; otherwise it returns a node
  reached through visible nodes that contain the point, none of whose children is hit. The search
  for an actionable node returns only enabled nodes on such a path that support the action, and
  finds one whenever there is one.
\<close>

theorem hit_test_exact:
  "(case hit_test tree x y of
      None \<Rightarrow> \<not> node_hit (ut_root tree) x y
    | Some n \<Rightarrow> reach_at x y (ut_root tree) n \<and> list_all (\<lambda>c. \<not> node_hit c x y) (un_children n)) \<and>
   (case hit_test_actionable tree x y a of
      None \<Rightarrow> \<not> (\<exists>n. reach_at x y (ut_root tree) n \<and> un_enabled n \<and> a \<in> set (un_supported_actions n))
    | Some n \<Rightarrow> reach_at x y (ut_root tree) n \<and> un_enabled n \<and> a \<in> set (un_supported_actions n))"
  using hit_test_node_None [of "ut_root tree" x y] hit_test_node_Some [of "ut_root tree" x y]
    hit_test_actionable_Some [of "ut_root tree" x y a] hit_test_actionable_None [of x y "ut_root tree" _ a]
  by (auto simp: hit_test_def hit_test_actionable_def list_all_iff split: option.split)

text \<open>
  In the tree of every application state each enabled button can be tapped: a tap at the centre
  of its bounds hits that button and no other node.
\<close>

theorem buttons_are_tappable:
  assumes "n \<in> set (un_children (ut_root (build_ui_tree s)))" and "un_role n = Button" and "un_enabled n"
  shows "\<exists>b. un_bounds n = Some b \<and>
    hit_test_actionable (build_ui_tree s) (fst (center b)) (snd (center b)) Tap = Some n"
proof (cases "st_screen s = Chat")
  case True
  obtain bs y where b: "laid_banners s = (bs, y)" by fastforce
  have ban: "list_all is_banner bs" and y: "y \<in> {16, 72, 128}" using laid_banners_facts [of s] b by auto
  from chat_root [OF True] b obtain ms where root: "ut_root (build_ui_tree s) =
    UiNode ''root'' RScreen ''Chat'' None True True False (Some ''Chat'') None [] (Some (rect 0 0 390 844))
      (bs @
       [UiNode ''chat.messages'' MessageList ''Messages'' None True True False (Some ''Messages'') None [Scroll]
          (Some (rect 16 y 358 (610 - y))) ms,
        leaf_at ''chat.draft'' Composer ''Draft'' (Some (st_draft_message s)) True (rect 16 690 358 52),
        leaf_at ''chat.send'' Button ''Send'' None (st_connection_state s = Connected) (rect 280 766 94 44),
        leaf_at ''chat.interrupt'' Button ''Interrupt'' None (st_is_processing s) (rect 16 766 120 44)])"
    by auto
  have "n \<notin> set bs" using ban assms(2) by (auto simp: list_all_iff is_banner_def)
  then consider
      (send) "n = leaf_at ''chat.send'' Button ''Send'' None (st_connection_state s = Connected) (rect 280 766 94 44)"
    | (interrupt) "n = leaf_at ''chat.interrupt'' Button ''Interrupt'' None (st_is_processing s) (rect 16 766 120 44)"
    using assms(1,2) unfolding root ui_node.sel set_append Un_iff list.set insert_iff empty_iff
    by (elim disjE) (simp_all add: leaf_at_def)
  then show ?thesis
  proof cases
    case send
    then have "st_connection_state s = Connected" using assms(3) by (simp add: leaf_at_def)
    with send show ?thesis
      by (simp add: hit_test_actionable_def root root_hit rfind_map_append leaf_tap contains_rect center_rect)
  next
    case interrupt
    then have "st_is_processing s" using assms(3) by (simp add: leaf_at_def)
    with interrupt show ?thesis
      by (simp add: hit_test_actionable_def root root_hit rfind_map_append leaf_tap contains_rect center_rect)
  qed
next
  case False
  obtain bs y where b: "laid_banners s = (bs, y)" by fastforce
  have ban: "list_all is_banner bs" and y: "y \<in> {16, 72, 128}" using laid_banners_facts [of s] b by auto
  from pairing_root [OF False] b obtain l fields where root: "ut_root (build_ui_tree s) =
      UiNode ''root'' RScreen l None True True False (Some l) None [] (Some (rect 0 0 390 844))
        (bs @ fields @
         [leaf_at ''pair.submit'' Button ''Pair & Connect'' None (st_connection_state s \<noteq> connection_state.Connecting)
            (rect 16 (y + 256) 358 52)])"
    and f: "list_all (\<lambda>n. un_role n = TextInput) fields"
    by auto
  have "n \<notin> set bs" "n \<notin> set fields" using ban f assms(2) by (auto simp: list_all_iff is_banner_def)
  then have n: "n = leaf_at ''pair.submit'' Button ''Pair & Connect'' None
      (st_connection_state s \<noteq> connection_state.Connecting) (rect 16 (y + 256) 358 52)"
    using assms(1) unfolding root ui_node.sel by simp
  then have "st_connection_state s \<noteq> connection_state.Connecting" using assms(3) by (simp add: leaf_at_def)
  with n y show ?thesis
    by (elim insertE)
      (simp_all add: hit_test_actionable_def root root_hit rfind_map_append leaf_tap contains_rect center_rect)
qed

theorem buttons_are_tappable_witness:
  "\<exists>b. hit_test_actionable (build_ui_tree onboarding_state) (fst (center b)) (snd (center b)) Tap =
     Some (un_children (ut_root (build_ui_tree onboarding_state)) ! 5)"
proof -
  let ?cs = "un_children (ut_root (build_ui_tree onboarding_state))"
  have "length ?cs = 6" and "un_role (?cs ! 5) = Button" and "un_enabled (?cs ! 5)" by code_simp+
  then have "?cs ! 5 \<in> set ?cs" and "un_role (?cs ! 5) = Button" and "un_enabled (?cs ! 5)" by auto
  from buttons_are_tappable [OF this] show ?thesis by blast
qed

text \<open>
  Escaped text holds no angle bracket and no quote, so it cannot end an attribute or a text
  element, and reading the five entities back restores it.
\<close>

theorem xml_escape_round_trip:
  "xml_unescape (xml_escape s) = s \<and>
   set (xml_escape s) \<inter> {CHR ''<'', CHR ''>'', CHR 0x22, CHR 0x27} = {}"
proof
  show "xml_unescape (xml_escape s) = s"
    by (induction s) (simp_all add: xml_escape_Cons xml_unescape_char)
  have "set (xml_escape_char c) \<inter> {CHR ''<'', CHR ''>'', CHR 0x22, CHR 0x27} = {}" for c
    by (simp add: xml_escape_char_def)
  then show "set (xml_escape s) \<inter> {CHR ''<'', CHR ''>'', CHR 0x22, CHR 0x27} = {}"
    by (induction s) (auto simp: xml_escape_Cons)
qed

text \<open>
  Two screenshots match exactly when they render to the same SVG text; otherwise the reported
  difference is the first position at which the texts differ or one of them ends.
\<close>

theorem screenshot_diff_exact:
  "let a = sn_svg (screenshot_snapshot t); b = sn_svg (screenshot_snapshot u);
       d = diff_screenshots (screenshot_snapshot t) (screenshot_snapshot u)
   in (sd_matches d \<longleftrightarrow> a = b) \<and>
      (case sd_first_difference d of
         None \<Rightarrow> a = b
       | Some i \<Rightarrow> a \<noteq> b \<and> take i a = take i b \<and>
           (if i < length a \<and> i < length b then a ! i \<noteq> b ! i
            else i = min (length a) (length b)))"
proof -
  define a where "a = sn_svg (screenshot_snapshot t)"
  define b where "b = sn_svg (screenshot_snapshot u)"
  have hash: "sn_hash (screenshot_snapshot v) = stable_hash_hex (sn_svg (screenshot_snapshot v))" for v
    by (simp add: screenshot_snapshot_def Let_def)
  show ?thesis
  proof (cases "zip_position a b")
    case None
    from zip_position_None [OF this] show ?thesis
      using None by (auto simp: diff_screenshots_def Let_def hash min_def simp flip: a_def b_def split: if_splits)
  next
    case (Some i)
    from zip_position_Some [OF this] show ?thesis
      using Some by (auto simp: diff_screenshots_def Let_def hash simp flip: a_def b_def)
  qed
qed

end
