(* ===== verification/Memory_Rank.thy ===== *)
theory Memory_Rank
  imports Rust_Prelude
begin

text \<open>
  Model of the bounded selection of \<^verbatim>\<open>crates/gcode-memory-types\<close>: \<^verbatim>\<open>top_k_by_ord\<close> and
  \<^verbatim>\<open>top_k_by_score\<close> of \<^verbatim>\<open>src/lib.rs\<close> (module \<^verbatim>\<open>ranking\<close>) and \<^verbatim>\<open>top_k_scored\<close> of \<^verbatim>\<open>src/graph.rs\<close>.

  A \<^verbatim>\<open>BinaryHeap<Reverse<_>>\<close> is the list of its elements in ascending order: \<^verbatim>\<open>peek\<close> is the head,
  \<^verbatim>\<open>pop\<close> the tail, \<^verbatim>\<open>push\<close> a sorted insertion. An \<^verbatim>\<open>f32\<close> is its bit pattern; \<^verbatim>\<open>total_cmp\<close> is the
  linear order on it and \<^verbatim>\<open>>\<close> the IEEE comparison. The locale \<^verbatim>\<open>selection_order\<close> states what the
  selection needs of the two comparisons.
\<close>

section \<open>Definitions\<close>

subsection \<open>Single-precision numbers\<close>

datatype f32 = F32 (to_bits: u32)

definition f32_sign :: "f32 \<Rightarrow> bool" where
  "f32_sign x \<longleftrightarrow> 2147483648 \<le> uint (to_bits x)"

definition f32_magnitude :: "f32 \<Rightarrow> int" where
  "f32_magnitude x = uint (to_bits x) mod 2147483648"

definition f32_is_nan :: "f32 \<Rightarrow> bool" where
  "f32_is_nan x \<longleftrightarrow> f32_magnitude x > 0x7f800000"

text \<open>The integer \<^verbatim>\<open>total_cmp\<close> compares, and a number with the order of the numeric value.\<close>

definition f32_total_key :: "f32 \<Rightarrow> int" where
  "f32_total_key x = (if f32_sign x then - f32_magnitude x - 1 else f32_magnitude x)"

definition f32_value_key :: "f32 \<Rightarrow> int" where
  "f32_value_key x = (if f32_sign x then - f32_magnitude x else f32_magnitude x)"

definition f32_gt :: "f32 \<Rightarrow> f32 \<Rightarrow> bool" where
  "f32_gt a b \<longleftrightarrow> \<not> f32_is_nan a \<and> \<not> f32_is_nan b \<and> f32_value_key a > f32_value_key b"

definition f32_eq :: "f32 \<Rightarrow> f32 \<Rightarrow> bool" where
  "f32_eq a b \<longleftrightarrow> \<not> f32_is_nan a \<and> \<not> f32_is_nan b \<and> f32_value_key a = f32_value_key b"

lemma f32_bits_split: "uint (to_bits x) = f32_magnitude x + (if f32_sign x then 2147483648 else 0)"
proof -
  have *: "u = u mod 2147483648 + (if 2147483648 \<le> u then 2147483648 else 0)"
    if "0 \<le> u" "u < 4294967296" for u :: int
  proof (cases "2147483648 \<le> u")
    case True
    have "u mod 2147483648 = (u - 2147483648) mod 2147483648" by simp
    also have "\<dots> = u - 2147483648" using True that by (intro mod_pos_pos_trivial) simp_all
    finally show ?thesis using True by simp
  qed (use that in simp)
  show ?thesis unfolding f32_sign_def f32_magnitude_def
    by (rule *) (use uint_lt2p [of "to_bits x"] in simp_all)
qed

lemma f32_total_key_inject: "f32_total_key x = f32_total_key y \<longleftrightarrow> x = y"
proof
  assume eq: "f32_total_key x = f32_total_key y"
  have "0 \<le> f32_magnitude x" "0 \<le> f32_magnitude y" by (simp_all add: f32_magnitude_def)
  with eq have "f32_sign x = f32_sign y" "f32_magnitude x = f32_magnitude y"
    by (auto simp: f32_total_key_def split: if_splits)
  then have "uint (to_bits x) = uint (to_bits y)" by (simp add: f32_bits_split)
  then show "x = y" by (metis f32.expand word_uint_eq_iff)
qed simp

instantiation f32 :: linorder
begin

definition less_eq_f32 :: "f32 \<Rightarrow> f32 \<Rightarrow> bool" where
  "less_eq_f32 a b \<longleftrightarrow> f32_total_key a \<le> f32_total_key b"

definition less_f32 :: "f32 \<Rightarrow> f32 \<Rightarrow> bool" where
  "less_f32 a b \<longleftrightarrow> f32_total_key a < f32_total_key b"

instance
  by standard (auto simp: less_eq_f32_def less_f32_def f32_total_key_inject)

end

subsection \<open>Selection\<close>

text \<open>Key, ordinal, value: the order of the heap compares keys, then ordinals.\<close>

type_synonym ('k, 'v) ranked = "('k \<times> nat) \<times> 'v"

fun heap_push :: "('k::linorder, 'v) ranked \<Rightarrow> ('k, 'v) ranked list \<Rightarrow> ('k, 'v) ranked list" where
  "heap_push c [] = [c]"
| "heap_push c (h # hs) = (if fst c \<le> fst h then c # h # hs else h # heap_push c hs)"

definition offer ::
  "('k::linorder \<Rightarrow> 'k \<Rightarrow> bool) \<Rightarrow> nat \<Rightarrow> nat \<times> 'v \<times> 'k \<Rightarrow> ('k, 'v) ranked list \<Rightarrow> ('k, 'v) ranked list" where
  "offer gt limit = (\<lambda>(ordinal, value, key) heap.
     let candidate = ((key, ordinal), value) in
     if length heap < limit then heap_push candidate heap
     else case heap of
            [] \<Rightarrow> heap
          | smallest # rest \<Rightarrow> if gt key (fst (fst smallest)) then heap_push candidate rest else heap)"

text \<open>The final sort: key descending, then ordinal ascending.\<close>

fun insert_result :: "('k::linorder, 'v) ranked \<Rightarrow> ('k, 'v) ranked list \<Rightarrow> ('k, 'v) ranked list" where
  "insert_result r [] = [r]"
| "insert_result r (s # ss) =
     (if fst (fst s) < fst (fst r) \<or> (fst (fst s) = fst (fst r) \<and> snd (fst r) \<le> snd (fst s))
      then r # s # ss else s # insert_result r ss)"

definition sort_results :: "('k::linorder, 'v) ranked list \<Rightarrow> ('k, 'v) ranked list" where
  "sort_results rs = foldr insert_result rs []"

definition top_k :: "('k::linorder \<Rightarrow> 'k \<Rightarrow> bool) \<Rightarrow> ('v \<times> 'k) list \<Rightarrow> nat \<Rightarrow> ('v \<times> 'k) list" where
  "top_k gt items limit =
     (if limit = 0 then []
      else
        let heap = fold (offer gt limit) (enumerate 0 items) [];
            results = sort_results heap
        in map (\<lambda>r. (snd r, fst (fst r))) results)"

definition top_k_by_ord :: "('v \<times> 'k::linorder) list \<Rightarrow> nat \<Rightarrow> ('v \<times> 'k) list" where
  "top_k_by_ord items limit = top_k (\<lambda>a b. a > b) items limit"

definition top_k_by_score :: "('v \<times> f32) list \<Rightarrow> nat \<Rightarrow> ('v \<times> f32) list" where
  "top_k_by_score items limit = top_k f32_gt items limit"

definition top_k_scored :: "('v \<times> f32) list \<Rightarrow> nat \<Rightarrow> ('v \<times> f32) list" where
  "top_k_scored items limit = top_k f32_gt items limit"

section \<open>The contract of the two comparisons\<close>

text \<open>
  The replacement test \<^verbatim>\<open>gt\<close> compares values that grow with the heap order, at least on the keys
  that occur.
\<close>

locale selection_order =
  fixes gt :: "'k::linorder \<Rightarrow> 'k \<Rightarrow> bool"
    and val :: "'k \<Rightarrow> 'w::linorder"
    and ok :: "'k \<Rightarrow> bool"
  assumes val_mono: "a \<le> b \<Longrightarrow> val a \<le> val b"
    and gt_iff: "ok a \<Longrightarrow> ok b \<Longrightarrow> gt a b \<longleftrightarrow> val b < val a"
begin

definition vals :: "('k, 'v) ranked list \<Rightarrow> 'w list" where
  "vals hs = map (\<lambda>h. val (fst (fst h))) hs"

text \<open>What the heap holds after some keys: the largest values, at most \<^verbatim>\<open>limit\<close>.\<close>

definition holds_top :: "nat \<Rightarrow> 'k list \<Rightarrow> ('k, 'v) ranked list \<Rightarrow> bool" where
  "holds_top limit ks hs \<longleftrightarrow>
     sorted (map fst hs) \<and> length hs \<le> limit \<and> (\<forall>h\<in>set hs. ok (fst (fst h))) \<and>
     (\<exists>rest. mset (map val ks) = mset rest + mset (vals hs) \<and>
        (rest \<noteq> [] \<longrightarrow> length hs = limit) \<and> (\<forall>r\<in>set rest. \<forall>w\<in>set (vals hs). r \<le> w))"

end

lemma mset_heap_push: "mset (heap_push c hs) = add_mset c (mset hs)"
  by (induction hs) auto

lemma set_heap_push: "set (heap_push c hs) = insert c (set hs)"
  by (induction hs) auto

lemma length_heap_push: "length (heap_push c hs) = Suc (length hs)"
  by (induction hs) auto

lemma sorted_heap_push: "sorted (map fst hs) \<Longrightarrow> sorted (map fst (heap_push c hs))"
proof (induction hs)
  case (Cons h hs)
  then show ?case by (auto simp: set_heap_push not_le less_imp_le dest: order.trans)
qed simp

context selection_order
begin

lemma holds_topI:
  assumes "sorted (map fst hs)" and "length hs \<le> limit" and "\<forall>h\<in>set hs. ok (fst (fst h))"
    and "mset (map val ks) = mset rest + mset (vals hs)" and "rest \<noteq> [] \<longrightarrow> length hs = limit"
    and "\<forall>r\<in>set rest. \<forall>w\<in>set (vals hs). r \<le> w"
  shows "holds_top limit ks hs"
  unfolding holds_top_def using assms by blast

lemma vals_sorted: "sorted (map fst hs) \<Longrightarrow> sorted (vals hs)"
  by (induction hs) (auto simp: vals_def intro!: val_mono simp: less_eq_prod_def less_imp_le)

lemma offer_holds_top:
  assumes "holds_top limit ks hs" and "ok k" and "0 < limit"
  shows "holds_top limit (ks @ [k]) (offer gt limit (i, v, k) hs)"
proof -
  from assms(1) obtain rest where hs: "sorted (map fst hs)" "length hs \<le> limit" "\<forall>h\<in>set hs. ok (fst (fst h))"
    and rest: "mset (map val ks) = mset rest + mset (vals hs)" "rest \<noteq> [] \<longrightarrow> length hs = limit"
      "\<forall>r\<in>set rest. \<forall>w\<in>set (vals hs). r \<le> w"
    by (auto simp: holds_top_def)
  show ?thesis
  proof (cases "length hs < limit")
    case True
    then have "rest = []" using rest(2) by auto
    with True hs rest(1) assms(2) show ?thesis
      by (auto simp: holds_top_def offer_def Let_def sorted_heap_push length_heap_push set_heap_push
          vals_def mset_heap_push)
  next
    case False
    then obtain h hs' where h: "hs = h # hs'" using assms(3) by (cases hs) auto
    then have gt: "gt k (fst (fst h)) \<longleftrightarrow> val (fst (fst h)) < val k" using gt_iff assms(2) hs(3) by simp
    have srt: "sorted (vals hs)" by (rule vals_sorted [OF hs(1)])
    show ?thesis
    proof (cases "gt k (fst (fst h))")
      case False': True
      have "\<forall>r\<in>set (val (fst (fst h)) # rest). \<forall>w\<in>set (vals (heap_push ((k, i), v) hs')). r \<le> w"
        using srt rest(3) gt False' h by (auto simp: vals_def set_heap_push intro: order.trans less_imp_le)
      moreover have "mset (map val (ks @ [k])) =
          mset (val (fst (fst h)) # rest) + mset (vals (heap_push ((k, i), v) hs'))"
        using rest(1) h by (simp add: vals_def mset_heap_push)
      moreover have "offer gt limit (i, v, k) hs = heap_push ((k, i), v) hs'"
        using False h False' by (simp add: offer_def Let_def)
      ultimately show ?thesis
        using hs h False assms(2)
        by (intro holds_topI [where rest = "val (fst (fst h)) # rest"])
          (simp_all add: sorted_heap_push length_heap_push set_heap_push)
    next
      case True: False
      then have "offer gt limit (i, v, k) hs = hs" using False h by (simp add: offer_def Let_def)
      moreover have "\<forall>r\<in>set (val k # rest). \<forall>w\<in>set (vals hs). r \<le> w"
        using srt rest(3) gt True h by (auto simp: vals_def not_less intro: order.trans)
      moreover have "mset (map val (ks @ [k])) = mset (val k # rest) + mset (vals hs)"
        using rest(1) by simp
      ultimately show ?thesis using hs False
        by (intro holds_topI [where rest = "val k # rest"]) simp_all
    qed
  qed
qed

lemma fold_offer_holds_top:
  assumes "0 < limit" and "\<forall>(v, k)\<in>set items. ok k"
  shows "holds_top limit (map snd items) (fold (offer gt limit) (enumerate n items) [])"
  using assms(2)
proof (induction items rule: rev_induct)
  case Nil
  then show ?case by (simp add: holds_top_def vals_def)
next
  case (snoc x items)
  obtain v k where x: "x = (v, k)" by fastforce
  have "fold (offer gt limit) (enumerate n (items @ [x])) [] =
      offer gt limit (n + length items, v, k) (fold (offer gt limit) (enumerate n items) [])"
    by (simp add: x enumerate_append_eq)
  with snoc x show ?case
    using offer_holds_top [OF _ _ assms(1), of "map snd items" _ k] by auto
qed

end

lemma mset_insert_result: "mset (insert_result r ss) = add_mset r (mset ss)"
  by (induction ss) auto

lemma set_insert_result: "set (insert_result r ss) = insert r (set ss)"
  by (induction ss) auto

lemma mset_sort_results: "mset (sort_results rs) = mset rs"
  by (induction rs) (auto simp: sort_results_def mset_insert_result)

text \<open>The order of the results: higher keys first, equal keys by ordinal.\<close>

definition result_le :: "('k::linorder, 'v) ranked \<Rightarrow> ('k, 'v) ranked \<Rightarrow> bool" where
  "result_le r s \<longleftrightarrow>
     fst (fst s) < fst (fst r) \<or> (fst (fst s) = fst (fst r) \<and> snd (fst r) \<le> snd (fst s))"

lemma insert_result_Cons:
  "insert_result r (s # ss) = (if result_le r s then r # s # ss else s # insert_result r ss)"
  by (simp add: result_le_def)

lemma sorted_insert_result: "sorted_wrt result_le ss \<Longrightarrow> sorted_wrt result_le (insert_result r ss)"
proof (induction ss)
  case (Cons s ss)
  have "result_le s r" if "\<not> result_le r s" using that by (auto simp: result_le_def)
  moreover have "result_le r t" if "result_le r s" "result_le s t" for t
    using that by (auto simp: result_le_def)
  ultimately show ?case using Cons
    by (auto simp: set_insert_result insert_result_Cons simp del: insert_result.simps(2))
qed simp

lemma sorted_sort_results: "sorted_wrt result_le (sort_results rs)"
  by (induction rs) (auto simp: sort_results_def sorted_insert_result)

lemma take_sorted_rev:
  fixes ks :: "'w::linorder list"
  assumes "mset ks = mset rest + mset hs" and "rest \<noteq> [] \<longrightarrow> length hs = limit" and "length hs \<le> limit"
    and "\<forall>r\<in>set rest. \<forall>w\<in>set hs. r \<le> w"
  shows "take limit (rev (sort ks)) = rev (sort hs)"
proof -
  have "sort ks = sort rest @ sort hs"
    using assms(1,4) by (intro properties_for_sort) (auto simp: sorted_append)
  with assms(2,3) show ?thesis by (cases "rest = []") auto
qed

text \<open>Every heap entry is an item under its ordinal, and ordinals occur once.\<close>

definition from_items :: "('v \<times> 'k) list \<Rightarrow> ('k, 'v) ranked list \<Rightarrow> bool" where
  "from_items items hs \<longleftrightarrow>
     distinct (map (snd \<circ> fst) hs) \<and>
     (\<forall>h\<in>set hs. snd (fst h) < length items \<and> items ! snd (fst h) = (snd h, fst (fst h)))"

lemma from_items_mset: "mset hs = mset hs' \<Longrightarrow> from_items items hs = from_items items hs'"
  unfolding from_items_def by (metis distinct_map mset_eq_imp_distinct_iff mset_eq_setD mset_map)

lemma from_items_offer:
  assumes "from_items items hs"
  shows "from_items (items @ [(v, k)]) (offer gt limit (length items, v, k) hs)"
proof -
  let ?c = "((k, length items), v)"
  have keep: "from_items (items @ [(v, k)]) hs'" if "from_items items hs'" for hs'
    using that by (auto simp: from_items_def nth_append)
  have "from_items (items @ [(v, k)]) (?c # hs')" if "from_items items hs'" for hs'
    using that keep [OF that] by (force simp: from_items_def)
  then have push: "from_items (items @ [(v, k)]) (heap_push ?c hs')" if "from_items items hs'" for hs'
    using that from_items_mset [of "heap_push ?c hs'" "?c # hs'"] by (simp add: mset_heap_push)
  have tail: "from_items items hs'" if "hs = h # hs'" for h hs'
    using assms that by (simp add: from_items_def)
  show ?thesis
    using push keep tail assms by (auto simp: offer_def Let_def split: list.split)
qed

lemma from_items_fold: "from_items items (fold (offer gt limit) (enumerate 0 items) [])"
proof (induction items rule: rev_induct)
  case Nil
  then show ?case by (simp add: from_items_def)
next
  case (snoc x items)
  obtain v k where x: "x = (v, k)" by fastforce
  have "fold (offer gt limit) (enumerate 0 (items @ [x])) [] =
      offer gt limit (length items, v, k) (fold (offer gt limit) (enumerate 0 items) [])"
    by (simp add: x enumerate_append_eq)
  with from_items_offer [OF snoc, of v k gt limit] show ?case by (simp add: x)
qed

text \<open>The results are items at strictly positioned indices: higher keys first, ties in input order.\<close>

lemma top_k_indices:
  assumes "0 < limit"
  shows "\<exists>idx. distinct idx \<and> (\<forall>i\<in>set idx. i < length items) \<and> top_k gt items limit = map (\<lambda>i. items ! i) idx \<and>
    sorted_wrt (\<lambda>i j. snd (items ! j) < snd (items ! i) \<or> (snd (items ! j) = snd (items ! i) \<and> i \<le> j)) idx"
proof -
  let ?rs = "sort_results (fold (offer gt limit) (enumerate 0 items) [])"
  let ?idx = "map (snd \<circ> fst) ?rs"
  have fi: "from_items items ?rs"
    using from_items_fold from_items_mset [OF mset_sort_results] by blast
  then have at: "h \<in> set ?rs \<Longrightarrow> items ! snd (fst h) = (snd h, fst (fst h))" for h
    by (simp add: from_items_def)
  have "sorted_wrt (\<lambda>i j. snd (items ! j) < snd (items ! i) \<or> (snd (items ! j) = snd (items ! i) \<and> i \<le> j)) ?idx"
    unfolding sorted_wrt_map
    using sorted_sort_results by (rule sorted_wrt_mono_rel [rotated]) (simp add: at result_le_def)
  moreover have "top_k gt items limit = map (\<lambda>i. items ! i) ?idx"
    using assms by (simp add: top_k_def Let_def at)
  ultimately show ?thesis using fi unfolding from_items_def by (intro exI [of _ ?idx]) auto
qed

context selection_order
begin

lemma top_k_values:
  assumes "\<forall>(v, k)\<in>set items. ok k"
  shows "map (val \<circ> snd) (top_k gt items limit) = take limit (rev (sort (map (val \<circ> snd) items)))"
proof (cases "limit = 0")
  case False
  let ?hs = "fold (offer gt limit) (enumerate 0 items) []"
  from fold_offer_holds_top [OF _ assms, of limit 0] False obtain rest
    where "mset (map val (map snd items)) = mset rest + mset (vals ?hs)" "rest \<noteq> [] \<longrightarrow> length (vals ?hs) = limit"
      "length (vals ?hs) \<le> limit" "\<forall>r\<in>set rest. \<forall>w\<in>set (vals ?hs). r \<le> w"
    by (auto simp: holds_top_def vals_def)
  from take_sorted_rev [OF this]
  have top: "take limit (rev (sort (map (val \<circ> snd) items))) = rev (sort (vals ?hs))" by simp
  let ?rs = "sort_results ?hs"
  have "sorted_wrt (\<lambda>r s. val (fst (fst s)) \<le> val (fst (fst r))) ?rs"
    using sorted_sort_results
    by (rule sorted_wrt_mono_rel [rotated]) (auto simp: result_le_def intro: val_mono less_imp_le)
  then have "sorted (rev (vals ?rs))" by (simp add: vals_def sorted_wrt_rev sorted_wrt_map)
  moreover have "mset (rev (vals ?rs)) = mset (vals ?hs)" by (simp add: vals_def mset_sort_results)
  ultimately have "rev (vals ?rs) = sort (vals ?hs)" by (metis properties_for_sort)
  then have "vals ?rs = rev (sort (vals ?hs))" by (metis rev_rev_ident)
  moreover have "map (val \<circ> snd) (top_k gt items limit) = vals ?rs"
    using False by (simp add: top_k_def Let_def vals_def comp_def)
  ultimately show ?thesis using top by simp
qed (simp add: top_k_def)

end

interpretation ord_rank: selection_order "\<lambda>a b. a > b" "\<lambda>a. a" "\<lambda>a. True"
  by unfold_locales simp_all

interpretation score_rank: selection_order f32_gt f32_value_key "\<lambda>a. \<not> f32_is_nan a"
proof unfold_locales
  show "f32_value_key a \<le> f32_value_key b" if "a \<le> b" for a b
    using that by (auto simp: less_eq_f32_def f32_total_key_def f32_value_key_def f32_magnitude_def split: if_splits)
qed (simp add: f32_gt_def)

section \<open>Properties\<close>

text \<open>
  Bounded selection by an ordered key returns items of the input at distinct positions whose
  keys are exactly the \<^verbatim>\<open>limit\<close> largest keys in descending order, equal keys in input order.
  Selection by score does the same for the numeric values of scores that are no NaN.
\<close>

theorem top_k_selects_largest:
  assumes "\<forall>(v, s)\<in>set scored. \<not> f32_is_nan s" and "0 < limit"
  shows "map snd (top_k_by_ord items limit) = take limit (rev (sort (map snd items))) \<and>
    map (f32_value_key \<circ> snd) (top_k_by_score scored limit) =
      take limit (rev (sort (map (f32_value_key \<circ> snd) scored))) \<and>
    top_k_scored scored limit = top_k_by_score scored limit \<and>
    (\<exists>idx. distinct idx \<and> (\<forall>i\<in>set idx. i < length items) \<and>
       top_k_by_ord items limit = map (\<lambda>i. items ! i) idx \<and>
       sorted_wrt (\<lambda>i j. snd (items ! j) < snd (items ! i) \<or> (snd (items ! j) = snd (items ! i) \<and> i \<le> j)) idx) \<and>
    (\<exists>idx. distinct idx \<and> (\<forall>i\<in>set idx. i < length scored) \<and>
       top_k_by_score scored limit = map (\<lambda>i. scored ! i) idx)"
  using ord_rank.top_k_values [of items limit] score_rank.top_k_values [OF assms(1), of limit]
    top_k_indices [OF assms(2), of items "\<lambda>a b. a > b"] top_k_indices [OF assms(2), of scored f32_gt]
  by (simp add: top_k_by_ord_def top_k_by_score_def top_k_scored_def comp_def) blast

theorem top_k_selects_largest_witness:
  "map snd (top_k_by_ord [(''a'', 1::nat), (''b'', 3), (''c'', 2)] 2) = [3, 2] \<and>
   top_k_scored [(''x'', F32 0x3f800000)] 2 = top_k_by_score [(''x'', F32 0x3f800000)] 2"
proof -
  have "\<not> f32_is_nan (F32 0x3f800000)" by (simp add: f32_is_nan_def f32_magnitude_def)
  then show ?thesis
    using top_k_selects_largest [of "[(''x'', F32 0x3f800000)]" 2 "[(''a'', 1::nat), (''b'', 3), (''c'', 2)]"]
    by simp
qed

text \<open>
  The tie rule is not the same on both sides of the limit: an item that fills the heap early is
  evicted before a later one with the same key.
\<close>

lemma top_k_tie_evicts_earlier:
  "top_k_by_ord [(''a'', 1::nat), (''b'', 1), (''c'', 2)] 2 = [(''c'', 2), (''b'', 1)]"
  by (simp add: top_k_by_ord_def top_k_def sort_results_def offer_def Let_def)

end
