(* ===== verification/Memory_Entry.thy ===== *)
theory Memory_Entry
  imports Memory_Rank Messages
begin

text \<open>
  Model of the memory entries of \<^verbatim>\<open>crates/gcode-memory-types/src/lib.rs\<close>: the pipeline status, the
  entry with its search text, categories, the flat store, and the texts made from entries.

  \<^verbatim>\<open>lower\<close> is \<^verbatim>\<open>str::to_lowercase\<close> (the Unicode tables are not modelled), \<^verbatim>\<open>now\<close> is \<^verbatim>\<open>Utc::now()\<close>,
  \<^verbatim>\<open>new_id\<close> the generated identifier and \<^verbatim>\<open>rfc3339\<close> the rendering of an instant. Counters are 32-bit
  words that wrap. Floating-point scoring (\<^verbatim>\<open>memory_score\<close>, \<^verbatim>\<open>effective_confidence\<close>, the confidence
  updates) is not modelled.
\<close>

section \<open>Definitions\<close>

subsection \<open>Pipeline status\<close>

datatype step_status = Pending | Running | Done | Error | Skipped

record step_result =
  sr_summary :: string
  sr_latency_ms :: u64

record pipeline_state =
  ps_search :: step_status
  ps_search_result :: "step_result option"
  ps_verify :: step_status
  ps_verify_result :: "step_result option"
  ps_verify_progress :: "(nat \<times> nat) option"
  ps_inject :: step_status
  ps_inject_result :: "step_result option"
  ps_maintain :: step_status
  ps_maintain_result :: "step_result option"
  ps_started_at :: datetime

definition PipelineState_new :: "datetime \<Rightarrow> pipeline_state" where
  "PipelineState_new now =
     \<lparr>ps_search = Pending, ps_search_result = None, ps_verify = Pending, ps_verify_result = None,
      ps_verify_progress = None, ps_inject = Pending, ps_inject_result = None,
      ps_maintain = Pending, ps_maintain_result = None, ps_started_at = now\<rparr>"

definition finished_step :: "step_status \<Rightarrow> bool" where
  "finished_step s \<longleftrightarrow> s = Done \<or> s = Error \<or> s = Skipped"

definition is_complete :: "pipeline_state \<Rightarrow> bool" where
  "is_complete p \<longleftrightarrow> finished_step (ps_search p) \<and> finished_step (ps_verify p) \<and>
     finished_step (ps_inject p) \<and> finished_step (ps_maintain p)"

definition has_running_step :: "pipeline_state \<Rightarrow> bool" where
  "has_running_step p \<longleftrightarrow> ps_search p = Running \<or> ps_verify p = Running \<or>
     ps_inject p = Running \<or> ps_maintain p = Running"

datatype memory_state =
    Idle | Embedding | SidecarChecking nat | FoundRelevant nat | Extracting string
  | Maintaining string | ToolAction string string

definition MemoryActivity_is_processing :: "memory_state \<Rightarrow> pipeline_state option \<Rightarrow> bool" where
  "MemoryActivity_is_processing state pipeline \<longleftrightarrow>
     state \<noteq> Idle \<or> (case pipeline of Some p \<Rightarrow> has_running_step p | None \<Rightarrow> False)"

subsection \<open>Search text\<close>

definition search_separator :: "string \<Rightarrow> bool" where
  "search_separator ch \<longleftrightarrow> is_whitespace ch \<or>
     ch \<in> set [''-'', ''_'', ''/'', [CHR 0x5C], ''.'', '':'']"

fun normalize_loop :: "string list \<Rightarrow> string \<Rightarrow> bool \<Rightarrow> string" where
  "normalize_loop [] normalized last_was_space = normalized"
| "normalize_loop (ch # cs) normalized last_was_space =
     (let mapped = (if search_separator ch then '' '' else ch) in
      if mapped = '' '' then
        (if \<not> last_was_space then normalize_loop cs (normalized @ '' '') True
         else normalize_loop cs normalized last_was_space)
      else normalize_loop cs (normalized @ mapped) False)"

definition normalize_search_text :: "(string \<Rightarrow> string) \<Rightarrow> string \<Rightarrow> string" where
  "normalize_search_text lower txt =
     trim_end (normalize_loop (utf8_chars (lower (trim txt))) [] True)"

definition normalize_memory_search_text :: "(string \<Rightarrow> string) \<Rightarrow> string \<Rightarrow> string list \<Rightarrow> string" where
  "normalize_memory_search_text lower content tags =
     (let normalized_content = normalize_search_text lower content;
          normalized_tags = filter (\<lambda>t. t \<noteq> []) (map (normalize_search_text lower) tags)
      in if normalized_tags = [] then normalized_content
         else if normalized_content = [] then join '' '' normalized_tags
         else normalized_content @ '' '' @ join '' '' normalized_tags)"

subsection \<open>Entries\<close>

datatype trust_level = High | Medium | Low

record reinforcement =
  rf_session_id :: string
  rf_message_index :: nat
  rf_timestamp :: datetime

datatype memory_category = Fact | Preference | Entity | Correction | Custom string

record memory_entry =
  me_id :: string
  me_category :: memory_category
  me_content :: string
  me_tags :: "string list"
  me_search_text :: string
  me_created_at :: datetime
  me_updated_at :: datetime
  me_access_count :: u32
  me_source :: "string option"
  me_trust :: trust_level
  me_strength :: u32
  me_active :: bool
  me_superseded_by :: "string option"
  me_reinforcements :: "reinforcement list"
  me_embedding :: "f32 list option"
  me_confidence :: f32

definition MemoryEntry_new ::
  "(string \<Rightarrow> string) \<Rightarrow> datetime \<Rightarrow> string \<Rightarrow> memory_category \<Rightarrow> string \<Rightarrow> memory_entry" where
  "MemoryEntry_new lower now new_id category content =
     \<lparr>me_id = new_id, me_category = category, me_content = content, me_tags = [],
      me_search_text = normalize_memory_search_text lower content [], me_created_at = now,
      me_updated_at = now, me_access_count = 0, me_source = None, me_trust = Medium,
      me_strength = 1, me_active = True, me_superseded_by = None, me_reinforcements = [],
      me_embedding = None, me_confidence = F32 0x3f800000\<rparr>"

definition refresh_search_text :: "(string \<Rightarrow> string) \<Rightarrow> memory_entry \<Rightarrow> memory_entry" where
  "refresh_search_text lower self =
     self\<lparr>me_search_text := normalize_memory_search_text lower (me_content self) (me_tags self)\<rparr>"

definition searchable_text :: "(string \<Rightarrow> string) \<Rightarrow> memory_entry \<Rightarrow> string" where
  "searchable_text lower self =
     (if me_search_text self = []
      then normalize_memory_search_text lower (me_content self) (me_tags self)
      else me_search_text self)"

definition with_tags :: "(string \<Rightarrow> string) \<Rightarrow> memory_entry \<Rightarrow> string list \<Rightarrow> memory_entry" where
  "with_tags lower self tags = refresh_search_text lower (self\<lparr>me_tags := tags\<rparr>)"

definition with_source :: "memory_entry \<Rightarrow> string \<Rightarrow> memory_entry" where
  "with_source self source = self\<lparr>me_source := Some source\<rparr>"

definition with_trust :: "memory_entry \<Rightarrow> trust_level \<Rightarrow> memory_entry" where
  "with_trust self trust = self\<lparr>me_trust := trust\<rparr>"

definition touch :: "datetime \<Rightarrow> memory_entry \<Rightarrow> memory_entry" where
  "touch now self = self\<lparr>me_updated_at := now, me_access_count := me_access_count self + 1\<rparr>"

definition reinforce :: "datetime \<Rightarrow> memory_entry \<Rightarrow> string \<Rightarrow> nat \<Rightarrow> memory_entry" where
  "reinforce now self session message_index =
     self\<lparr>me_strength := me_strength self + 1, me_updated_at := now,
          me_reinforcements := me_reinforcements self @
            [\<lparr>rf_session_id = session, rf_message_index = message_index, rf_timestamp = now\<rparr>]\<rparr>"

definition MemoryEntry_supersede :: "memory_entry \<Rightarrow> string \<Rightarrow> memory_entry" where
  "MemoryEntry_supersede self new_id = self\<lparr>me_active := False, me_superseded_by := Some new_id\<rparr>"

definition with_embedding :: "memory_entry \<Rightarrow> f32 list \<Rightarrow> memory_entry" where
  "with_embedding self embedding = self\<lparr>me_embedding := Some embedding\<rparr>"

definition has_embedding :: "memory_entry \<Rightarrow> bool" where
  "has_embedding self \<longleftrightarrow> me_embedding self \<noteq> None"

subsection \<open>Categories and scopes\<close>

fun MemoryCategory_fmt :: "memory_category \<Rightarrow> string" where
  "MemoryCategory_fmt Fact = ''fact''"
| "MemoryCategory_fmt Preference = ''preference''"
| "MemoryCategory_fmt Entity = ''entity''"
| "MemoryCategory_fmt Correction = ''correction''"
| "MemoryCategory_fmt (Custom s) = s"

definition MemoryCategory_from_str :: "(string \<Rightarrow> string) \<Rightarrow> string \<Rightarrow> memory_category" where
  "MemoryCategory_from_str lower s =
     (let l = lower s in
      if l = ''fact'' then Fact
      else if l = ''preference'' then Preference
      else if l = ''entity'' then Entity
      else if l = ''correction'' then Correction
      else Custom l)"

definition from_extracted :: "(string \<Rightarrow> string) \<Rightarrow> string \<Rightarrow> memory_category" where
  "from_extracted lower s =
     (let l = lower s in
      if l \<in> set [''fact'', ''facts''] then Fact
      else if l \<in> set [''preference'', ''preferences'', ''pref''] then Preference
      else if l \<in> set [''correction'', ''corrections'', ''fix'', ''bug''] then Correction
      else if l \<in> set [''entity'', ''entities''] then Entity
      else if l \<in> set [''observation'', ''lesson'', ''learning''] then Fact
      else Fact)"

datatype memory_scope = Project | Global | All

definition includes_project :: "memory_scope \<Rightarrow> bool" where
  "includes_project s \<longleftrightarrow> s = Project \<or> s = All"

definition includes_global :: "memory_scope \<Rightarrow> bool" where
  "includes_global s \<longleftrightarrow> s = Global \<or> s = All"

subsection \<open>The flat store\<close>

record memory_store =
  ms_entries :: "memory_entry list"
  ms_metadata :: "(string, string) hmap"

definition MemoryStore_new :: memory_store where
  "MemoryStore_new = \<lparr>ms_entries = [], ms_metadata = []\<rparr>"

definition store_add :: "memory_store \<Rightarrow> memory_entry \<Rightarrow> memory_store \<times> string" where
  "store_add self entry = (self\<lparr>ms_entries := ms_entries self @ [entry]\<rparr>, me_id entry)"

definition by_category :: "memory_store \<Rightarrow> memory_category \<Rightarrow> memory_entry list" where
  "by_category self category = filter (\<lambda>e. me_category e = category) (ms_entries self)"

definition memory_matches_search :: "(string \<Rightarrow> string) \<Rightarrow> memory_entry \<Rightarrow> string \<Rightarrow> bool" where
  "memory_matches_search lower memory normalized_query =
     str_contains normalized_query (searchable_text lower memory)"

definition store_search :: "(string \<Rightarrow> string) \<Rightarrow> memory_store \<Rightarrow> string \<Rightarrow> memory_entry list" where
  "store_search lower self query =
     (let query_lower = normalize_search_text lower query in
      if query_lower = [] then []
      else filter (\<lambda>e. memory_matches_search lower e query_lower) (ms_entries self))"

definition store_get :: "memory_store \<Rightarrow> string \<Rightarrow> memory_entry option" where
  "store_get self i = find (\<lambda>e. me_id e = i) (ms_entries self)"

fun remove_first :: "string \<Rightarrow> memory_entry list \<Rightarrow> memory_entry list \<times> memory_entry option" where
  "remove_first i [] = ([], None)"
| "remove_first i (e # es) =
     (if me_id e = i then (es, Some e)
      else let (es', r) = remove_first i es in (e # es', r))"

definition store_remove :: "memory_store \<Rightarrow> string \<Rightarrow> memory_store \<times> memory_entry option" where
  "store_remove self i =
     (let (es, r) = remove_first i (ms_entries self) in (self\<lparr>ms_entries := es\<rparr>, r))"

subsection \<open>Prompts\<close>

definition dedupe_key :: "(string \<Rightarrow> string) \<Rightarrow> memory_entry \<Rightarrow> string" where
  "dedupe_key lower e = lower (join '' '' (split_whitespace (me_content e)))"

fun select_loop ::
  "(string \<Rightarrow> string) \<Rightarrow> nat \<Rightarrow> memory_entry list \<Rightarrow> memory_entry list \<Rightarrow> string list \<Rightarrow> memory_entry list" where
  "select_loop lower limit [] selected seen = selected"
| "select_loop lower limit (e # es) selected seen =
     (if length selected \<ge> limit then selected
      else
        let key = dedupe_key lower e in
        if key = [] then select_loop lower limit es selected seen
        else if key \<in> set seen then select_loop lower limit es selected seen
        else select_loop lower limit es (selected @ [e]) (key # seen))"

definition selected_entries_for_prompt ::
  "(string \<Rightarrow> string) \<Rightarrow> memory_entry list \<Rightarrow> nat \<Rightarrow> memory_entry list" where
  "selected_entries_for_prompt lower entries limit =
     select_loop lower limit (filter me_active entries) [] []"

fun numbered_items :: "(datetime \<Rightarrow> string) \<Rightarrow> bool \<Rightarrow> nat \<Rightarrow> memory_entry list \<Rightarrow> string" where
  "numbered_items rfc3339 comments idx [] = []"
| "numbered_items rfc3339 comments idx (item # items) =
     show_nat (idx + 1) @ ''. '' @ trim (me_content item) @ nl @
     (if comments then ''<!-- updated_at: '' @ rfc3339 (me_updated_at item) @ '' -->'' @ nl else []) @
     numbered_items rfc3339 comments (idx + 1) items"

definition write_section ::
  "(datetime \<Rightarrow> string) \<Rightarrow> bool \<Rightarrow> string \<Rightarrow> memory_entry list \<Rightarrow> string \<Rightarrow> string" where
  "write_section rfc3339 comments title items out =
     (if out \<noteq> [] then out @ nl else out) @ ''## '' @ title @ nl @
     numbered_items rfc3339 comments 0 items"

fun section_title :: "memory_category \<Rightarrow> string" where
  "section_title Correction = ''Corrections''"
| "section_title Fact = ''Facts''"
| "section_title Preference = ''Preferences''"
| "section_title Entity = ''Entities''"
| "section_title (Custom s) = ''Custom''"

definition write_known :: "(datetime \<Rightarrow> string) \<Rightarrow> bool \<Rightarrow> memory_category \<Rightarrow>
    (memory_category, memory_entry list) hmap \<times> string \<Rightarrow> (memory_category, memory_entry list) hmap \<times> string" where
  "write_known rfc3339 comments cat = (\<lambda>(sections, out).
     case hget sections cat of
       None \<Rightarrow> (sections, out)
     | Some items \<Rightarrow> (hdel cat sections, write_section rfc3339 comments (section_title cat) items out))"

text \<open>The remaining sections go into a map sorted by name.\<close>

definition custom_sections ::
  "(memory_category, memory_entry list) hmap \<Rightarrow> (string, memory_entry list) hmap" where
  "custom_sections sections =
     fold (\<lambda>(cat, items). hput (MemoryCategory_fmt cat) items) sections []"

definition format_entries_for_prompt_with_header ::
  "(string \<Rightarrow> string) \<Rightarrow> (datetime \<Rightarrow> string) \<Rightarrow> memory_entry list \<Rightarrow> nat \<Rightarrow> bool \<Rightarrow> bool \<Rightarrow> string option" where
  "format_entries_for_prompt_with_header lower rfc3339 entries limit include_header comments =
     (let sections = fold (\<lambda>e. hentry [] (me_category e) (\<lambda>es. es @ [e]))
                       (selected_entries_for_prompt lower entries limit) []
      in if sections = [] then None
         else
           let (sections, out) =
                 fold (write_known rfc3339 comments) [Correction, Fact, Preference, Entity] (sections, []);
               out = fold (\<lambda>(name, items). write_section rfc3339 comments name items)
                       (sort_key fst (custom_sections sections)) out
           in if out = [] then None
              else if include_header then Some (''# Memory'' @ nl @ nl @ trim out)
              else Some (trim out))"

definition format_entries_for_prompt ::
  "(string \<Rightarrow> string) \<Rightarrow> (datetime \<Rightarrow> string) \<Rightarrow> memory_entry list \<Rightarrow> nat \<Rightarrow> string option" where
  "format_entries_for_prompt lower rfc3339 entries limit =
     format_entries_for_prompt_with_header lower rfc3339 entries limit False False"

definition format_relevant_prompt ::
  "(string \<Rightarrow> string) \<Rightarrow> (datetime \<Rightarrow> string) \<Rightarrow> memory_entry list \<Rightarrow> nat \<Rightarrow> string option" where
  "format_relevant_prompt lower rfc3339 entries limit =
     map_option (\<lambda>f. ''# Memory'' @ nl @ nl @ f) (format_entries_for_prompt lower rfc3339 entries limit)"

definition format_relevant_display_prompt ::
  "(string \<Rightarrow> string) \<Rightarrow> (datetime \<Rightarrow> string) \<Rightarrow> memory_entry list \<Rightarrow> nat \<Rightarrow> string option" where
  "format_relevant_display_prompt lower rfc3339 entries limit =
     format_entries_for_prompt_with_header lower rfc3339 entries limit True True"

subsection \<open>Skills\<close>

definition ascii_lower :: "char \<Rightarrow> char" where
  "ascii_lower c =
     (let n = (of_char c :: nat) in if 65 \<le> n \<and> n \<le> 90 then char_of (n + 32) else c)"

definition eq_ignore_ascii_case :: "string \<Rightarrow> string \<Rightarrow> bool" where
  "eq_ignore_ascii_case a b \<longleftrightarrow> map ascii_lower a = map ascii_lower b"

definition is_skill_memory :: "memory_entry \<Rightarrow> bool" where
  "is_skill_memory entry \<longleftrightarrow>
     prefix ''skill:'' (me_id entry) \<or> me_source entry = Some ''skill_registry'' \<or>
     (case me_category entry of Custom name \<Rightarrow> eq_ignore_ascii_case name ''Skills'' | _ \<Rightarrow> False)"

definition STOPWORDS :: "string list" where
  "STOPWORDS =
     [''about'', ''after'', ''before'', ''could'', ''from'', ''have'', ''just'', ''make'', ''ready'', ''should'',
      ''start'', ''that'', ''their'', ''there'', ''they'', ''this'', ''what'', ''when'', ''where'', ''which'',
      ''while'', ''will'', ''with'', ''work'', ''would'', ''your'']"

definition collect_skill_query_terms :: "(string \<Rightarrow> string) \<Rightarrow> string \<Rightarrow> string list" where
  "collect_skill_query_terms lower query_text =
     remdups (filter (\<lambda>t. t \<notin> set STOPWORDS)
       (filter (\<lambda>t. length t \<ge> 4) (split_whitespace (normalize_search_text lower query_text))))"

text \<open>The bonuses 0.08, 0.14 and 0.20 as the nearest single-precision numbers.\<close>

definition skill_retrieval_bonus :: "(string \<Rightarrow> string) \<Rightarrow> memory_entry \<Rightarrow> string list \<Rightarrow> f32" where
  "skill_retrieval_bonus lower entry query_terms =
     (if \<not> is_skill_memory entry \<or> query_terms = [] then F32 0
      else
        let searchable = searchable_text lower entry;
            overlap = length (filter (\<lambda>t. str_contains t searchable) query_terms)
        in if overlap \<le> 1 then F32 0
           else if overlap = 2 then F32 0x3DA3D70A
           else if overlap = 3 then F32 0x3E0F5C29
           else F32 0x3E4CCCCD)"

section \<open>Lemmas\<close>

subsection \<open>Search text\<close>

lemma space_is_separator: "search_separator '' ''"
  by code_simp

lemma normalize_loop_Cons:
  "normalize_loop (c # cs) acc sp =
     (if search_separator c then (if sp then normalize_loop cs acc True else normalize_loop cs (acc @ '' '') True)
      else normalize_loop cs (acc @ c) False)"
  using space_is_separator by (cases sp) (auto simp: Let_def)

lemma normalize_loop_acc: "normalize_loop cs acc sp = acc @ normalize_loop cs [] sp"
proof (induction cs arbitrary: acc sp)
  case (Cons c cs)
  show ?case
    unfolding normalize_loop_Cons
    using Cons.IH [of "acc @ '' ''"] Cons.IH [of "'' ''"] Cons.IH [of "acc @ c"] Cons.IH [of c] Cons.IH [of acc]
    by simp
qed simp

lemma normalize_loop_run:
  "normalize_loop cs [] False =
     concat (takeWhile (\<lambda>c. \<not> search_separator c) cs) @
     (case dropWhile (\<lambda>c. \<not> search_separator c) cs of [] \<Rightarrow> [] | d # ds \<Rightarrow> '' '' @ normalize_loop ds [] True)"
proof (induction cs)
  case (Cons c cs)
  then show ?case
    using normalize_loop_acc [of cs c False] normalize_loop_acc [of cs "'' ''" True]
    by (simp add: normalize_loop_Cons del: normalize_loop.simps(2))
qed simp

lemma normalize_loop_words:
  "\<exists>t. normalize_loop cs [] True = join '' '' (map concat (split_runs search_separator cs)) @ t \<and>
     (t = [] \<or> (t = '' '' \<and> split_runs search_separator cs \<noteq> []))"
proof (induction search_separator cs rule: split_runs.induct)
  case (2 c cs)
  let ?ds = "dropWhile (\<lambda>c. \<not> search_separator c) cs"
  show ?case
  proof (cases "search_separator c")
    case True
    then show ?thesis using 2(1) by (simp add: normalize_loop_Cons del: normalize_loop.simps(2))
  next
    case False
    have L: "normalize_loop (c # cs) [] True = c @ normalize_loop cs [] False"
      using False normalize_loop_acc [of cs c False]
      by (simp add: normalize_loop_Cons del: normalize_loop.simps(2))
    show ?thesis
    proof (cases ?ds)
      case Nil
      then show ?thesis using False L normalize_loop_run [of cs]
        by (simp del: dropWhile_eq_Nil_conv normalize_loop.simps(2))
    next
      case (Cons d ds)
      then have d: "search_separator d" using hd_dropWhile [of "\<lambda>c. \<not> search_separator c" cs] by auto
      from 2(2) [OF False] Cons d obtain t
        where "normalize_loop ds [] True = join '' '' (map concat (split_runs search_separator ds)) @ t"
          "t = [] \<or> (t = '' '' \<and> split_runs search_separator ds \<noteq> [])"
        by (auto simp: normalize_loop_Cons simp del: normalize_loop.simps(2))
      with Cons d False L normalize_loop_run [of cs] show ?thesis
        by (cases "split_runs search_separator ds")
          (auto simp: join_Cons simp del: normalize_loop.simps(2))
    qed
  qed
qed simp

lemma separator_runs:
  "r \<in> set (split_runs p cs) \<Longrightarrow> r \<noteq> [] \<and> (\<forall>c\<in>set r. \<not> p c)"
proof -
  assume r: "r \<in> set (split_runs p cs)"
  then have "set r \<subseteq> set (concat (split_runs p cs))" by auto
  with r show ?thesis by (auto simp: concat_split_runs split_runs_nonempty)
qed

lemma utf8_chars_joined_runs:
  "utf8_chars (join '' '' (map concat (split_runs p (utf8_chars s)))) = join ['' ''] (split_runs p (utf8_chars s))"
proof -
  have "utf8_wf (join ['' ''] (split_runs p (utf8_chars s)))"
    using split_runs_nonempty by (intro utf8_wf_join) (auto simp: concat_split_runs utf8_wf_filter)
  from utf8_chars_concat [OF this] show ?thesis by (simp add: concat_join)
qed

lemma trim_end_joined:
  assumes "t = [] \<or> t = '' ''" and "split_runs search_separator (utf8_chars s) = [] \<longrightarrow> t = []"
  defines "w \<equiv> join '' '' (map concat (split_runs search_separator (utf8_chars s)))"
  shows "trim_end (w @ t) = w"
proof (cases "split_runs search_separator (utf8_chars s) = []")
  case True
  then show ?thesis using assms(2) by (simp add: w_def trim_end_def)
next
  case False
  let ?cs = "join ['' ''] (split_runs search_separator (utf8_chars s))"
  have cs: "utf8_chars w = ?cs" unfolding w_def by (rule utf8_chars_joined_runs)
  have last: "?cs \<noteq> [] \<and> \<not> is_whitespace (last ?cs)"
  proof -
    have "\<forall>r\<in>set (split_runs search_separator (utf8_chars s)). r \<noteq> [] \<and> (\<forall>c\<in>set r. \<not> search_separator c)"
      using separator_runs by blast
    from join_ends [OF this False, of "['' '']"] show ?thesis by (simp add: search_separator_def)
  qed
  then have keep: "dropWhile is_whitespace (rev ?cs) = rev ?cs"
    by (simp add: takeWhile_dropWhile_hd hd_rev)
  have "is_whitespace '' ''" "\<not> utf8_cont (CHR '' '')" "utf8_chars '' '' = ['' '']" by code_simp+
  then have "utf8_chars (trim_end (w @ t)) = utf8_chars w"
    using assms(1) keep by (auto simp: utf8_chars_trim_end cs utf8_chars_append)
  then show ?thesis by (simp add: utf8_chars_inject)
qed

subsection \<open>Selection for prompts\<close>

lemma select_loop_spec:
  assumes "length sel \<le> limit" and "set seen = dedupe_key lower ` set sel" and "distinct (map (dedupe_key lower) sel)"
  shows "\<exists>new. select_loop lower limit es sel seen = sel @ new \<and> subseq new es \<and> length (sel @ new) \<le> limit \<and>
    distinct (map (dedupe_key lower) (sel @ new)) \<and> (\<forall>e\<in>set new. dedupe_key lower e \<noteq> []) \<and>
    (length (sel @ new) < limit \<longrightarrow>
       (\<forall>e\<in>set es. dedupe_key lower e \<noteq> [] \<longrightarrow> dedupe_key lower e \<in> dedupe_key lower ` set (sel @ new)))"
  using assms
proof (induction es arbitrary: sel seen)
  case (Cons e es)
  let ?k = "dedupe_key lower e"
  consider (full) "limit \<le> length sel" | (skip) "length sel < limit" "?k = [] \<or> ?k \<in> set seen"
    | (take) "length sel < limit" "?k \<noteq> []" "?k \<notin> set seen"
    by linarith
  then show ?case
  proof cases
    case full
    then show ?thesis using Cons.prems by (intro exI [of _ "[]"]) auto
  next
    case skip
    obtain new where "select_loop lower limit es sel seen = sel @ new" "subseq new es" "length (sel @ new) \<le> limit"
      "distinct (map (dedupe_key lower) (sel @ new))" "\<forall>e\<in>set new. dedupe_key lower e \<noteq> []"
      "length (sel @ new) < limit \<longrightarrow>
       (\<forall>e\<in>set es. dedupe_key lower e \<noteq> [] \<longrightarrow> dedupe_key lower e \<in> dedupe_key lower ` set (sel @ new))"
      using Cons.IH [OF Cons.prems] by blast
    then show ?thesis using skip Cons.prems(2)
      by (intro exI [of _ new]) (auto simp: Let_def image_Un intro: subseq_Cons')
  next
    case take
    obtain new where "select_loop lower limit es (sel @ [e]) (?k # seen) = (sel @ [e]) @ new" "subseq new es"
      "length ((sel @ [e]) @ new) \<le> limit" "distinct (map (dedupe_key lower) ((sel @ [e]) @ new))"
      "\<forall>e\<in>set new. dedupe_key lower e \<noteq> []"
      "length ((sel @ [e]) @ new) < limit \<longrightarrow>
       (\<forall>x\<in>set es. dedupe_key lower x \<noteq> [] \<longrightarrow> dedupe_key lower x \<in> dedupe_key lower ` set ((sel @ [e]) @ new))"
      using Cons.IH [of "sel @ [e]" "?k # seen"] Cons.prems take by auto
    then show ?thesis using take
      by (intro exI [of _ "e # new"]) (auto simp: Let_def)
  qed
qed simp

section \<open>Properties\<close>

text \<open>
  The one-pass normalization of search text computes the words of the trimmed, lower-cased
  text, separated at white space and at the characters \<^verbatim>\<open>- _ / \ . :\<close>, joined with single blanks.
\<close>

theorem normalize_search_text_words:
  "normalize_search_text lower t =
     join '' '' (map concat (split_runs search_separator (utf8_chars (lower (trim t)))))"
proof -
  obtain u where "normalize_loop (utf8_chars (lower (trim t))) [] True =
      join '' '' (map concat (split_runs search_separator (utf8_chars (lower (trim t))))) @ u"
    and u: "u = [] \<or> (u = '' '' \<and> split_runs search_separator (utf8_chars (lower (trim t))) \<noteq> [])"
    using normalize_loop_words by blast
  then show ?thesis
    unfolding normalize_search_text_def using trim_end_joined [of u "lower (trim t)"] by auto
qed

text \<open>
  The entries chosen for a prompt are active entries in their order, at most \<^verbatim>\<open>limit\<close>, with
  pairwise different non-empty contents up to case and white space; when fewer than \<^verbatim>\<open>limit\<close> are
  chosen, no further active entry has new content.
\<close>

theorem prompt_entries_deduplicated:
  "let out = selected_entries_for_prompt lower es limit; key = dedupe_key lower in
     subseq out (filter me_active es) \<and> length out \<le> limit \<and>
     distinct (map key out) \<and> [] \<notin> key ` set out \<and>
     (length out < limit \<longrightarrow>
        (\<forall>e\<in>set es. me_active e \<and> key e \<noteq> [] \<longrightarrow> key e \<in> key ` set out))"
  using select_loop_spec [of "[]" limit "[]" lower "filter me_active es"]
  by (auto simp: selected_entries_for_prompt_def Let_def)

theorem prompt_entries_deduplicated_witness:
  "length (selected_entries_for_prompt (\<lambda>s. s)
     [MemoryEntry_new (\<lambda>s. s) 0 ''a'' Fact ''one'', MemoryEntry_new (\<lambda>s. s) 0 ''b'' Fact ''  one''] 5) \<le> 5"
  using prompt_entries_deduplicated [of "\<lambda>s. s"
     "[MemoryEntry_new (\<lambda>s. s) 0 ''a'' Fact ''one'', MemoryEntry_new (\<lambda>s. s) 0 ''b'' Fact ''  one'']" 5]
  unfolding Let_def by blast

end
