(* ===== verification/Memory_Graph.thy ===== *)
theory Memory_Graph
  imports Memory_Entry
begin

text \<open>
  Model of \<^verbatim>\<open>crates/gcode-memory-types/src/graph.rs\<close>: memories, tags and typed edges with a reverse
  index. \<^verbatim>\<open>cascade_retrieve\<close> (floating-point products) is not modelled.

  The reverse index lists, for every target, the sources of its edges. The operations that add
  edges, tag, supersede and remove memories keep it exact; \<^verbatim>\<open>remove_edge\<close> and \<^verbatim>\<open>untag_memory\<close> drop
  all entries of a source, so it stays exact only when no edge of another kind joins the two nodes.
\<close>

section \<open>Definitions\<close>

definition GRAPH_VERSION :: u32 where
  "GRAPH_VERSION = 2"

datatype edge_kind = HasTag | InCluster | RelatesTo f32 | Supersedes | Contradicts | DerivedFrom

text \<open>Equality of kinds compares weights as numbers.\<close>

fun edge_kind_eq :: "edge_kind \<Rightarrow> edge_kind \<Rightarrow> bool" where
  "edge_kind_eq (RelatesTo a) (RelatesTo b) = f32_eq a b"
| "edge_kind_eq a b = (a = b)"

text \<open>The weights 0.8, 0.6, 0.9, 0.3 and 0.7 as the nearest single-precision numbers.\<close>

fun traversal_weight :: "edge_kind \<Rightarrow> f32" where
  "traversal_weight HasTag = F32 0x3F4CCCCD"
| "traversal_weight InCluster = F32 0x3F19999A"
| "traversal_weight (RelatesTo weight) = weight"
| "traversal_weight Supersedes = F32 0x3F666666"
| "traversal_weight Contradicts = F32 0x3E99999A"
| "traversal_weight DerivedFrom = F32 0x3F333333"

record edge =
  ed_target :: string
  ed_kind :: edge_kind

definition Edge_new :: "string \<Rightarrow> edge_kind \<Rightarrow> edge" where
  "Edge_new target kind = \<lparr>ed_target = target, ed_kind = kind\<rparr>"

record tag_entry =
  te_id :: string
  te_name :: string
  te_description :: "string option"
  te_count :: u32
  te_created_at :: datetime

definition tag_id_of :: "string \<Rightarrow> string" where
  "tag_id_of name = ''tag:'' @ name"

definition TagEntry_new :: "datetime \<Rightarrow> string \<Rightarrow> tag_entry" where
  "TagEntry_new now name =
     \<lparr>te_id = tag_id_of name, te_name = name, te_description = None, te_count = 0, te_created_at = now\<rparr>"

definition TagEntry_with_description :: "tag_entry \<Rightarrow> string \<Rightarrow> tag_entry" where
  "TagEntry_with_description self desc = self\<lparr>te_description := Some desc\<rparr>"

record cluster_entry =
  ce_id :: string
  ce_name :: "string option"
  ce_centroid :: "f32 list"
  ce_member_count :: u32
  ce_created_at :: datetime
  ce_updated_at :: datetime

definition ClusterEntry_new :: "datetime \<Rightarrow> string \<Rightarrow> cluster_entry" where
  "ClusterEntry_new now i =
     \<lparr>ce_id = ''cluster:'' @ i, ce_name = None, ce_centroid = [], ce_member_count = 0,
      ce_created_at = now, ce_updated_at = now\<rparr>"

record graph_metadata =
  gm_last_cluster_update :: "datetime option"
  gm_retrieval_count :: u64
  gm_link_discovery_count :: u64

record memory_graph =
  mg_graph_version :: u32
  mg_memories :: "(string, memory_entry) hmap"
  mg_tags :: "(string, tag_entry) hmap"
  mg_clusters :: "(string, cluster_entry) hmap"
  mg_edges :: "(string, edge list) hmap"
  mg_reverse_edges :: "(string, string list) hmap"
  mg_metadata :: graph_metadata

definition MemoryGraph_new :: memory_graph where
  "MemoryGraph_new =
     \<lparr>mg_graph_version = GRAPH_VERSION, mg_memories = [], mg_tags = [], mg_clusters = [],
      mg_edges = [], mg_reverse_edges = [],
      mg_metadata = \<lparr>gm_last_cluster_update = None, gm_retrieval_count = 0, gm_link_discovery_count = 0\<rparr>\<rparr>"

definition memory_count :: "memory_graph \<Rightarrow> nat" where
  "memory_count self = length (mg_memories self)"

subsection \<open>Edges\<close>

definition add_edge_internal :: "string \<Rightarrow> string \<Rightarrow> edge_kind \<Rightarrow> memory_graph \<Rightarrow> memory_graph" where
  "add_edge_internal from to kind self =
     self\<lparr>mg_edges := hentry [] from (\<lambda>es. es @ [Edge_new to kind]) (mg_edges self),
          mg_reverse_edges := hentry [] to (\<lambda>ss. ss @ [from]) (mg_reverse_edges self)\<rparr>"

definition add_edge :: "string \<Rightarrow> string \<Rightarrow> edge_kind \<Rightarrow> memory_graph \<Rightarrow> memory_graph" where
  "add_edge from to kind self =
     (if list_ex (\<lambda>e. ed_target e = to \<and> edge_kind_eq (ed_kind e) kind) (hget_or [] (mg_edges self) from)
      then self else add_edge_internal from to kind self)"

definition remove_edge :: "string \<Rightarrow> string \<Rightarrow> edge_kind \<Rightarrow> memory_graph \<Rightarrow> memory_graph" where
  "remove_edge from to kind self =
     self\<lparr>mg_edges := hmodify from
            (filter (\<lambda>e. \<not> (ed_target e = to \<and> edge_kind_eq (ed_kind e) kind))) (mg_edges self),
          mg_reverse_edges := hmodify to (filter (\<lambda>s. s \<noteq> from)) (mg_reverse_edges self)\<rparr>"

definition get_edges :: "memory_graph \<Rightarrow> string \<Rightarrow> edge list" where
  "get_edges self node_id = hget_or [] (mg_edges self) node_id"

definition get_incoming :: "memory_graph \<Rightarrow> string \<Rightarrow> string list" where
  "get_incoming self node_id = hget_or [] (mg_reverse_edges self) node_id"

definition link_memories :: "string \<Rightarrow> string \<Rightarrow> f32 \<Rightarrow> memory_graph \<Rightarrow> memory_graph" where
  "link_memories from to weight self =
     (let g = add_edge from to (RelatesTo weight) self
      in g\<lparr>mg_metadata := (mg_metadata g)
             \<lparr>gm_link_discovery_count := gm_link_discovery_count (mg_metadata g) + 1\<rparr>\<rparr>)"

definition supersede :: "string \<Rightarrow> string \<Rightarrow> memory_graph \<Rightarrow> memory_graph" where
  "supersede newer_id older_id self =
     (let g = add_edge newer_id older_id Supersedes self
      in g\<lparr>mg_memories := hmodify older_id
             (\<lambda>m. m\<lparr>me_active := False, me_superseded_by := Some newer_id\<rparr>) (mg_memories g)\<rparr>)"

definition mark_contradiction :: "string \<Rightarrow> string \<Rightarrow> memory_graph \<Rightarrow> memory_graph" where
  "mark_contradiction id_a id_b self = add_edge id_b id_a Contradicts (add_edge id_a id_b Contradicts self)"

subsection \<open>Tags\<close>

definition ensure_tag :: "datetime \<Rightarrow> string \<Rightarrow> memory_graph \<Rightarrow> memory_graph" where
  "ensure_tag now name self =
     self\<lparr>mg_tags := hentry (TagEntry_new now name) (tag_id_of name) (\<lambda>t. t) (mg_tags self)\<rparr>"

definition bump_tag :: "string \<Rightarrow> memory_graph \<Rightarrow> memory_graph" where
  "bump_tag tag_id self = self\<lparr>mg_tags := hmodify tag_id (\<lambda>t. t\<lparr>te_count := te_count t + 1\<rparr>) (mg_tags self)\<rparr>"

definition saturating_pred :: "u32 \<Rightarrow> u32" where
  "saturating_pred n = (if n = 0 then 0 else n - 1)"

definition drop_tag :: "string \<Rightarrow> memory_graph \<Rightarrow> memory_graph" where
  "drop_tag tag_id self =
     self\<lparr>mg_tags := hmodify tag_id (\<lambda>t. t\<lparr>te_count := saturating_pred (te_count t)\<rparr>) (mg_tags self)\<rparr>"

definition tag_memory :: "(string \<Rightarrow> string) \<Rightarrow> datetime \<Rightarrow> string \<Rightarrow> string \<Rightarrow> memory_graph \<Rightarrow> memory_graph" where
  "tag_memory lower now memory_id tag_name self =
     (let g = ensure_tag now tag_name self;
          tag_id = tag_id_of tag_name
      in if list_ex (\<lambda>e. ed_target e = tag_id \<and> ed_kind e = HasTag) (hget_or [] (mg_edges g) memory_id)
         then g
         else
           let g = add_edge_internal memory_id tag_id HasTag g;
               g = bump_tag tag_id g
           in g\<lparr>mg_memories := hmodify memory_id
                  (\<lambda>m. if tag_name \<notin> set (me_tags m)
                       then refresh_search_text lower (m\<lparr>me_tags := me_tags m @ [tag_name]\<rparr>) else m)
                  (mg_memories g)\<rparr>)"

definition untag_memory :: "(string \<Rightarrow> string) \<Rightarrow> string \<Rightarrow> string \<Rightarrow> memory_graph \<Rightarrow> memory_graph" where
  "untag_memory lower memory_id tag_name self =
     (let tag_id = tag_id_of tag_name;
          g = self\<lparr>mg_edges := hmodify memory_id
                     (filter (\<lambda>e. \<not> (ed_target e = tag_id \<and> ed_kind e = HasTag))) (mg_edges self),
                   mg_reverse_edges := hmodify tag_id (filter (\<lambda>s. s \<noteq> memory_id)) (mg_reverse_edges self)\<rparr>;
          g = drop_tag tag_id g
      in g\<lparr>mg_memories := hmodify memory_id
             (\<lambda>m. refresh_search_text lower (m\<lparr>me_tags := filter (\<lambda>t. t \<noteq> tag_name) (me_tags m)\<rparr>))
             (mg_memories g)\<rparr>)"

definition get_memories_by_tag :: "memory_graph \<Rightarrow> string \<Rightarrow> memory_entry list" where
  "get_memories_by_tag self tag_name =
     List.map_filter (hget (mg_memories self)) (hget_or [] (mg_reverse_edges self) (tag_id_of tag_name))"

subsection \<open>Memories\<close>

definition attach_tag :: "datetime \<Rightarrow> string \<Rightarrow> string \<Rightarrow> memory_graph \<Rightarrow> memory_graph" where
  "attach_tag now memory_id tag_name self =
     bump_tag (tag_id_of tag_name)
       (add_edge_internal memory_id (tag_id_of tag_name) HasTag (ensure_tag now tag_name self))"

definition add_memory :: "(string \<Rightarrow> string) \<Rightarrow> datetime \<Rightarrow> memory_entry \<Rightarrow> memory_graph \<Rightarrow> memory_graph \<times> string" where
  "add_memory lower now entry self =
     (let entry = refresh_search_text lower entry;
          i = me_id entry;
          g = fold (attach_tag now i) (me_tags entry) self;
          g = (case me_superseded_by entry of
                 Some newer \<Rightarrow> add_edge_internal newer i Supersedes g
               | None \<Rightarrow> g)
      in (g\<lparr>mg_memories := hput i entry (mg_memories g)\<rparr>, i))"

definition get_memory :: "memory_graph \<Rightarrow> string \<Rightarrow> memory_entry option" where
  "get_memory self i = hget (mg_memories self) i"

definition detach_edge :: "string \<Rightarrow> edge \<Rightarrow> memory_graph \<Rightarrow> memory_graph" where
  "detach_edge i edge self =
     (let g = self\<lparr>mg_reverse_edges := hmodify (ed_target edge) (filter (\<lambda>src. src \<noteq> i)) (mg_reverse_edges self)\<rparr>
      in if ed_kind edge = HasTag then drop_tag (ed_target edge) g else g)"

definition remove_memory :: "string \<Rightarrow> memory_graph \<Rightarrow> memory_graph \<times> memory_entry option" where
  "remove_memory i self =
     (let g = (case hget (mg_edges self) i of
                 Some es \<Rightarrow> fold (detach_edge i) es (self\<lparr>mg_edges := hdel i (mg_edges self)\<rparr>)
               | None \<Rightarrow> self);
          g = (case hget (mg_reverse_edges g) i of
                 Some sources \<Rightarrow>
                   g\<lparr>mg_reverse_edges := hdel i (mg_reverse_edges g),
                     mg_edges := fold (\<lambda>source. hmodify source (filter (\<lambda>e. ed_target e \<noteq> i)))
                                   sources (mg_edges g)\<rparr>
               | None \<Rightarrow> g)
      in (g\<lparr>mg_memories := hdel i (mg_memories g)\<rparr>, hget (mg_memories g) i))"

definition active_memories :: "memory_graph \<Rightarrow> memory_entry list" where
  "active_memories self = filter me_active (map snd (mg_memories self))"

definition node_count :: "memory_graph \<Rightarrow> nat" where
  "node_count self = length (mg_memories self) + length (mg_tags self) + length (mg_clusters self)"

definition edge_count :: "memory_graph \<Rightarrow> nat" where
  "edge_count self = sum_list (map (length \<circ> snd) (mg_edges self))"

subsection \<open>Migration\<close>

definition migrate_entry :: "datetime \<Rightarrow> memory_entry \<Rightarrow> memory_graph \<Rightarrow> memory_graph" where
  "migrate_entry now entry g =
     (let i = me_id entry;
          g = g\<lparr>mg_memories := hput i entry (mg_memories g)\<rparr>;
          g = fold (attach_tag now i) (me_tags entry) g
      in case me_superseded_by entry of
           Some newer_id \<Rightarrow> add_edge_internal newer_id i Supersedes g
         | None \<Rightarrow> g)"

definition from_legacy_store :: "datetime \<Rightarrow> memory_store \<Rightarrow> memory_graph" where
  "from_legacy_store now store = fold (migrate_entry now) (ms_entries store) MemoryGraph_new"

definition is_migrated :: "memory_graph \<Rightarrow> bool" where
  "is_migrated self \<longleftrightarrow> mg_graph_version self = GRAPH_VERSION"

subsection \<open>Specifications\<close>

definition edges_between :: "memory_graph \<Rightarrow> string \<Rightarrow> string \<Rightarrow> nat" where
  "edges_between g from to = length (filter (\<lambda>e. ed_target e = to) (get_edges g from))"

text \<open>The reverse index counts the edges between any two nodes.\<close>

definition reverse_exact :: "memory_graph \<Rightarrow> bool" where
  "reverse_exact g \<longleftrightarrow> (\<forall>from to. count_list (get_incoming g to) from = edges_between g from to)"

text \<open>Every source the reverse index lists has an edge.\<close>

definition reverse_sound :: "memory_graph \<Rightarrow> bool" where
  "reverse_sound g \<longleftrightarrow> (\<forall>from to. from \<in> set (get_incoming g to) \<longrightarrow> 0 < edges_between g from to)"

text \<open>The public operations that change a graph.\<close>

datatype graph_op =
    AddMemory memory_entry
  | RemoveMemory string
  | TagMemory string string
  | AddEdge string string edge_kind
  | LinkMemories string string f32
  | Supersede string string
  | MarkContradiction string string
  | RemoveEdge string string edge_kind
  | UntagMemory string string

fun run_graph_op :: "(string \<Rightarrow> string) \<Rightarrow> datetime \<Rightarrow> memory_graph \<Rightarrow> graph_op \<Rightarrow> memory_graph" where
  "run_graph_op lower now g (AddMemory e) = fst (add_memory lower now e g)"
| "run_graph_op lower now g (RemoveMemory i) = fst (remove_memory i g)"
| "run_graph_op lower now g (TagMemory m t) = tag_memory lower now m t g"
| "run_graph_op lower now g (AddEdge a b k) = add_edge a b k g"
| "run_graph_op lower now g (LinkMemories a b w) = link_memories a b w g"
| "run_graph_op lower now g (Supersede a b) = supersede a b g"
| "run_graph_op lower now g (MarkContradiction a b) = mark_contradiction a b g"
| "run_graph_op lower now g (RemoveEdge a b k) = remove_edge a b k g"
| "run_graph_op lower now g (UntagMemory m t) = untag_memory lower m t g"

text \<open>Removing an edge keeps the index exact when every edge between the two nodes goes.\<close>

fun clean_op :: "memory_graph \<Rightarrow> graph_op \<Rightarrow> bool" where
  "clean_op g (RemoveEdge a b k) \<longleftrightarrow>
     list_all (\<lambda>e. ed_target e = b \<longrightarrow> edge_kind_eq (ed_kind e) k) (get_edges g a)"
| "clean_op g (UntagMemory m t) \<longleftrightarrow>
     list_all (\<lambda>e. ed_target e = tag_id_of t \<longrightarrow> ed_kind e = HasTag) (get_edges g m)"
| "clean_op g p \<longleftrightarrow> True"

fun clean_run :: "(string \<Rightarrow> string) \<Rightarrow> datetime \<Rightarrow> memory_graph \<Rightarrow> graph_op list \<Rightarrow> bool" where
  "clean_run lower now g [] = True"
| "clean_run lower now g (p # ps) = (clean_op g p \<and> clean_run lower now (run_graph_op lower now g p) ps)"

section \<open>Lemmas\<close>

lemma hget_or_hmodify: "f [] = [] \<Longrightarrow> hget_or [] (hmodify k f m) x = (if x = k then f (hget_or [] m k) else hget_or [] m x)"
  by (auto simp: hget_or_def hmap_simps split: option.split)

named_theorems graph_simps \<open>edges and reverse edges after an operation\<close>

lemma get_add_edge_internal [graph_simps]:
  "get_edges (add_edge_internal a b k g) x = (if x = a then get_edges g a @ [Edge_new b k] else get_edges g x)"
  "get_incoming (add_edge_internal a b k g) y = (if y = b then get_incoming g b @ [a] else get_incoming g y)"
  by (simp_all add: add_edge_internal_def get_edges_def get_incoming_def hmap_simps)

lemma get_tag_ops [graph_simps]:
  "get_edges (ensure_tag now t g) = get_edges g" "get_incoming (ensure_tag now t g) = get_incoming g"
  "get_edges (bump_tag i g) = get_edges g" "get_incoming (bump_tag i g) = get_incoming g"
  "get_edges (drop_tag i g) = get_edges g" "get_incoming (drop_tag i g) = get_incoming g"
  by (simp_all add: fun_eq_iff ensure_tag_def bump_tag_def drop_tag_def get_edges_def get_incoming_def)

lemma get_field_updates [graph_simps]:
  "get_edges (g\<lparr>mg_memories := m\<rparr>) = get_edges g" "get_incoming (g\<lparr>mg_memories := m\<rparr>) = get_incoming g"
  "get_edges (g\<lparr>mg_metadata := d\<rparr>) = get_edges g" "get_incoming (g\<lparr>mg_metadata := d\<rparr>) = get_incoming g"
  "get_edges (g\<lparr>mg_reverse_edges := r\<rparr>) = get_edges g"
  "get_incoming (g\<lparr>mg_edges := es\<rparr>) = get_incoming g"
  by (simp_all add: fun_eq_iff get_edges_def get_incoming_def)

lemma get_remove_edge [graph_simps]:
  "get_edges (remove_edge a b k g) x =
     (if x = a then filter (\<lambda>e. \<not> (ed_target e = b \<and> edge_kind_eq (ed_kind e) k)) (get_edges g a) else get_edges g x)"
  "get_incoming (remove_edge a b k g) y =
     (if y = b then filter (\<lambda>s. s \<noteq> a) (get_incoming g b) else get_incoming g y)"
  by (simp_all add: remove_edge_def get_edges_def get_incoming_def hget_or_hmodify)

lemma get_untag [graph_simps]:
  "get_edges (untag_memory lower m t g) x =
     (if x = m then filter (\<lambda>e. \<not> (ed_target e = tag_id_of t \<and> ed_kind e = HasTag)) (get_edges g m) else get_edges g x)"
  "get_incoming (untag_memory lower m t g) y =
     (if y = tag_id_of t then filter (\<lambda>s. s \<noteq> m) (get_incoming g y) else get_incoming g y)"
  by (simp_all add: untag_memory_def Let_def drop_tag_def get_edges_def get_incoming_def hget_or_hmodify)

text \<open>Exactness as one step adds or removes edges.\<close>

lemma reverse_exact_cong:
  "get_edges g = get_edges g' \<Longrightarrow> get_incoming g = get_incoming g' \<Longrightarrow> reverse_exact g = reverse_exact g'"
  by (simp add: reverse_exact_def edges_between_def)

lemma reverse_sound_cong:
  "get_edges g = get_edges g' \<Longrightarrow> get_incoming g = get_incoming g' \<Longrightarrow> reverse_sound g = reverse_sound g'"
  by (simp add: reverse_sound_def edges_between_def)

lemma exact_imp_sound: "reverse_exact g \<Longrightarrow> reverse_sound g"
  unfolding reverse_exact_def reverse_sound_def by (metis count_list_0_iff gr0I)

lemma exact_add_edge_internal: "reverse_exact g \<Longrightarrow> reverse_exact (add_edge_internal a b k g)"
  by (simp add: reverse_exact_def edges_between_def graph_simps Edge_new_def)

lemma sound_add_edge_internal: "reverse_sound g \<Longrightarrow> reverse_sound (add_edge_internal a b k g)"
  by (auto simp: reverse_sound_def edges_between_def graph_simps Edge_new_def filter_empty_conv)

lemma exact_add_edge: "reverse_exact g \<Longrightarrow> reverse_exact (add_edge a b k g)"
  by (simp add: add_edge_def exact_add_edge_internal)

lemma sound_add_edge: "reverse_sound g \<Longrightarrow> reverse_sound (add_edge a b k g)"
  by (simp add: add_edge_def sound_add_edge_internal)

lemma attach_tag_same:
  "reverse_exact (attach_tag now m t g) = reverse_exact (add_edge_internal m (tag_id_of t) HasTag g)"
  "reverse_sound (attach_tag now m t g) = reverse_sound (add_edge_internal m (tag_id_of t) HasTag g)"
  by (auto intro!: reverse_exact_cong reverse_sound_cong simp: fun_eq_iff attach_tag_def graph_simps)

lemma exact_fold_attach: "reverse_exact g \<Longrightarrow> reverse_exact (fold (attach_tag now m) ts g)"
  by (induction ts arbitrary: g) (simp_all add: attach_tag_same exact_add_edge_internal)

lemma sound_fold_attach: "reverse_sound g \<Longrightarrow> reverse_sound (fold (attach_tag now m) ts g)"
  by (induction ts arbitrary: g) (simp_all add: attach_tag_same sound_add_edge_internal)

lemma field_updates_inv:
  "reverse_exact (g\<lparr>mg_memories := x\<rparr>) = reverse_exact g" "reverse_sound (g\<lparr>mg_memories := x\<rparr>) = reverse_sound g"
  "reverse_exact (g\<lparr>mg_metadata := d\<rparr>) = reverse_exact g" "reverse_sound (g\<lparr>mg_metadata := d\<rparr>) = reverse_sound g"
  "reverse_exact (ensure_tag now t g) = reverse_exact g" "reverse_sound (ensure_tag now t g) = reverse_sound g"
  "reverse_exact (bump_tag i g) = reverse_exact g" "reverse_sound (bump_tag i g) = reverse_sound g"
  by (auto intro!: reverse_exact_cong reverse_sound_cong simp: graph_simps)

lemma add_memory_inv:
  "reverse_exact g \<Longrightarrow> reverse_exact (fst (add_memory lower now e g))"
  "reverse_sound g \<Longrightarrow> reverse_sound (fst (add_memory lower now e g))"
  by (simp_all add: add_memory_def Let_def field_updates_inv exact_fold_attach sound_fold_attach
      exact_add_edge_internal sound_add_edge_internal split: option.split)

lemma migrate_entry_inv: "reverse_exact g \<Longrightarrow> reverse_exact (migrate_entry now e g)"
  by (simp add: migrate_entry_def Let_def field_updates_inv exact_fold_attach exact_add_edge_internal
      split: option.split)

lemma tag_memory_inv:
  "reverse_exact g \<Longrightarrow> reverse_exact (tag_memory lower now m t g)"
  "reverse_sound g \<Longrightarrow> reverse_sound (tag_memory lower now m t g)"
  by (simp_all add: tag_memory_def Let_def field_updates_inv exact_add_edge_internal sound_add_edge_internal)

lemma count_filter_neq: "count_list (filter (\<lambda>s. s \<noteq> a) xs) x = (if x = a then 0 else count_list xs x)"
  by (induction xs) auto

lemma exact_remove_edge:
  assumes "reverse_exact g" and "clean_op g (RemoveEdge a b k)"
  shows "reverse_exact (remove_edge a b k g)"
proof -
  have "filter (\<lambda>e. (ed_target e = b \<longrightarrow> \<not> edge_kind_eq (ed_kind e) k) \<and> ed_target e = b) (get_edges g a) = []"
    using assms(2) by (auto simp: filter_empty_conv list_all_iff)
  moreover have "filter (\<lambda>e. (ed_target e = b \<longrightarrow> \<not> edge_kind_eq (ed_kind e) k) \<and> ed_target e = t) (get_edges g a) =
      filter (\<lambda>e. ed_target e = t) (get_edges g a)" if "t \<noteq> b" for t
    using that by (auto intro: filter_cong)
  ultimately show ?thesis
    using assms(1) by (auto simp: reverse_exact_def edges_between_def graph_simps count_filter_neq)
qed

lemma sound_remove_edge:
  assumes "reverse_sound g"
  shows "reverse_sound (remove_edge a b k g)"
  unfolding reverse_sound_def
proof (intro allI impI)
  fix f t assume "f \<in> set (get_incoming (remove_edge a b k g) t)"
  then have "f \<in> set (get_incoming g t)" and ne: "\<not> (f = a \<and> t = b)" by (auto simp: graph_simps split: if_splits)
  with assms obtain e where "e \<in> set (get_edges g f)" "ed_target e = t"
    by (auto simp: reverse_sound_def edges_between_def filter_empty_conv)
  with ne show "0 < edges_between (remove_edge a b k g) f t"
    by (auto simp: edges_between_def graph_simps filter_empty_conv)
qed

lemma edge_kind_eq_HasTag: "edge_kind_eq k HasTag \<longleftrightarrow> k = HasTag"
  by (cases k) auto

text \<open>Untagging changes edges the way removing the tag edge does.\<close>

lemma untag_edges:
  "get_edges (untag_memory lower m t g) = get_edges (remove_edge m (tag_id_of t) HasTag g)"
  "get_incoming (untag_memory lower m t g) = get_incoming (remove_edge m (tag_id_of t) HasTag g)"
  by (auto simp: fun_eq_iff graph_simps edge_kind_eq_HasTag)

lemma exact_untag:
  assumes "reverse_exact g" and "clean_op g (UntagMemory m t)"
  shows "reverse_exact (untag_memory lower m t g)"
  using exact_remove_edge [of g m "tag_id_of t" HasTag] assms
  by (simp add: edge_kind_eq_HasTag reverse_exact_cong [OF untag_edges])

lemma sound_untag: "reverse_sound g \<Longrightarrow> reverse_sound (untag_memory lower m t g)"
  by (simp add: sound_remove_edge reverse_sound_cong [OF untag_edges])

subsection \<open>Removing a memory\<close>

lemma fold_detach:
  "get_edges (fold (detach_edge i) es g) = get_edges g"
  "get_incoming (fold (detach_edge i) es g) b =
     (if b \<in> ed_target ` set es then filter (\<lambda>s. s \<noteq> i) (get_incoming g b) else get_incoming g b)"
proof (induction es arbitrary: g)
  case (Cons e es)
  have step: "get_edges (detach_edge i e g) = get_edges g"
    "get_incoming (detach_edge i e g) y =
       (if y = ed_target e then filter (\<lambda>s. s \<noteq> i) (get_incoming g y) else get_incoming g y)" for g y
    by (simp_all add: detach_edge_def Let_def graph_simps) (simp_all add: get_incoming_def hget_or_hmodify)
  {
    case 1
    show ?case by (simp add: Cons.IH(1) step)
  next
    case 2
    show ?case by (auto simp: Cons.IH(2) step)
  }
qed simp_all

lemma fold_hmodify_filter:
  "hget_or [] (fold (\<lambda>s. hmodify s (filter p)) ss m) a =
     (if a \<in> set ss then filter p (hget_or [] m a) else hget_or [] m a)"
  by (induction ss arbitrary: m) (auto simp: hget_or_hmodify)

lemma remove_memory_edges:
  assumes "reverse_sound g"
  shows "get_incoming (fst (remove_memory i g)) b =
      (if b = i then [] else filter (\<lambda>s. s \<noteq> i) (get_incoming g b))"
    and "get_edges (fst (remove_memory i g)) a =
      (if a = i then []
       else if a \<in> set (get_incoming g i) then filter (\<lambda>e. ed_target e \<noteq> i) (get_edges g a) else get_edges g a)"
proof -
  let ?g1 = "case hget (mg_edges g) i of
      Some es \<Rightarrow> fold (detach_edge i) es (g\<lparr>mg_edges := hdel i (mg_edges g)\<rparr>) | None \<Rightarrow> g"
  have E1: "get_edges ?g1 x = (if x = i then [] else get_edges g x)" for x
    by (auto simp: fold_detach split: option.split) (auto simp: get_edges_def hget_or_def hmap_simps)
  have "i \<notin> set (get_incoming g y)" if "\<forall>e\<in>set (get_edges g i). ed_target e \<noteq> y" for y
    using assms that by (auto simp: reverse_sound_def edges_between_def filter_empty_conv)
  then have noop: "filter (\<lambda>s. s \<noteq> i) (get_incoming g y) = get_incoming g y"
    if "\<forall>e\<in>set (get_edges g i). ed_target e \<noteq> y" for y
    using that by (auto simp: filter_id_conv)
  have I1: "get_incoming ?g1 y = filter (\<lambda>s. s \<noteq> i) (get_incoming g y)" for y
  proof (cases "hget (mg_edges g) i")
    case None
    then have "get_edges g i = []" by (simp add: get_edges_def hget_or_def)
    then show ?thesis using None noop by simp
  next
    case (Some es)
    then have "get_edges g i = es" by (simp add: get_edges_def hget_or_def)
    then have "filter (\<lambda>s. s \<noteq> i) (get_incoming g y) = get_incoming g y" if "y \<notin> ed_target ` set es"
      using that by (intro noop) auto
    then show ?thesis using Some
      by (cases "y \<in> ed_target ` set es") (simp_all add: fold_detach graph_simps)
  qed
  define g1 where "g1 = ?g1"
  have rm: "fst (remove_memory i g) =
      (let g2 = (case hget (mg_reverse_edges g1) i of
                 Some sources \<Rightarrow>
                   g1\<lparr>mg_reverse_edges := hdel i (mg_reverse_edges g1),
                     mg_edges := fold (\<lambda>source. hmodify source (filter (\<lambda>e. ed_target e \<noteq> i)))
                                   sources (mg_edges g1)\<rparr>
               | None \<Rightarrow> g1) in g2\<lparr>mg_memories := hdel i (mg_memories g2)\<rparr>)"
    unfolding remove_memory_def Let_def g1_def fst_conv ..
  have "get_incoming (fst (remove_memory i g)) b = (if b = i then [] else get_incoming g1 b)"
    unfolding rm by (auto simp: graph_simps Let_def split: option.split)
      (auto simp: get_incoming_def hget_or_def hmap_simps)
  then show "get_incoming (fst (remove_memory i g)) b =
      (if b = i then [] else filter (\<lambda>s. s \<noteq> i) (get_incoming g b))"
    using I1 by (simp add: g1_def)
  have "get_edges (fst (remove_memory i g)) a =
      (if a \<in> set (get_incoming g1 i) then filter (\<lambda>e. ed_target e \<noteq> i) (get_edges g1 a) else get_edges g1 a)"
    unfolding rm by (auto simp: graph_simps Let_def get_incoming_def hget_or_def split: option.split)
      (auto simp: get_edges_def fold_hmodify_filter)
  then show "get_edges (fst (remove_memory i g)) a =
      (if a = i then []
       else if a \<in> set (get_incoming g i) then filter (\<lambda>e. ed_target e \<noteq> i) (get_edges g a) else get_edges g a)"
    using E1 I1 by (simp add: g1_def)
qed

lemma exact_remove_memory_edges:
  assumes "reverse_exact g"
  shows "get_edges (fst (remove_memory i g)) a =
      (if a = i then [] else filter (\<lambda>e. ed_target e \<noteq> i) (get_edges g a))"
proof (cases "a \<in> set (get_incoming g i)")
  case False
  then have "edges_between g a i = 0" using assms by (metis count_notin reverse_exact_def)
  then have "filter (\<lambda>e. ed_target e \<noteq> i) (get_edges g a) = get_edges g a"
    by (auto simp: edges_between_def filter_empty_conv filter_id_conv)
  with False show ?thesis by (simp add: remove_memory_edges [OF exact_imp_sound [OF assms]])
qed (simp add: remove_memory_edges [OF exact_imp_sound [OF assms]])

lemma exact_remove_memory:
  assumes "reverse_exact g"
  shows "reverse_exact (fst (remove_memory i g))"
proof -
  have "filter (\<lambda>e. ed_target e \<noteq> i \<and> ed_target e = t) xs = (if t = i then [] else filter (\<lambda>e. ed_target e = t) xs)"
    for t and xs :: "edge list"
    by (auto simp: filter_empty_conv intro: filter_cong)
  then show ?thesis
    using assms
    by (auto simp: reverse_exact_def edges_between_def exact_remove_memory_edges [OF assms]
        remove_memory_edges(1) [OF exact_imp_sound [OF assms]] count_filter_neq)
qed

lemma sound_remove_memory:
  assumes "reverse_sound g"
  shows "reverse_sound (fst (remove_memory i g))"
  using assms
  by (auto simp: reverse_sound_def edges_between_def remove_memory_edges [OF assms] filter_empty_conv)

lemma exact_step: "reverse_exact g \<Longrightarrow> clean_op g p \<Longrightarrow> reverse_exact (run_graph_op lower now g p)"
  by (cases p)
    (simp_all add: add_memory_inv exact_remove_memory tag_memory_inv exact_add_edge link_memories_def
      supersede_def mark_contradiction_def Let_def field_updates_inv exact_remove_edge exact_untag)

lemma sound_step: "reverse_sound g \<Longrightarrow> reverse_sound (run_graph_op lower now g p)"
  by (cases p)
    (simp_all add: add_memory_inv sound_remove_memory tag_memory_inv sound_add_edge link_memories_def
      supersede_def mark_contradiction_def Let_def field_updates_inv sound_remove_edge sound_untag)

lemma exact_new: "reverse_exact MemoryGraph_new"
  by (simp add: reverse_exact_def edges_between_def get_edges_def get_incoming_def MemoryGraph_new_def hget_or_def)

lemma exact_run: "reverse_exact g \<Longrightarrow> clean_run lower now g ps \<Longrightarrow> reverse_exact (foldl (run_graph_op lower now) g ps)"
  by (induction ps arbitrary: g) (simp_all add: exact_step)

lemma sound_run: "reverse_sound g \<Longrightarrow> reverse_sound (foldl (run_graph_op lower now) g ps)"
  by (induction ps arbitrary: g) (simp_all add: sound_step)

section \<open>Properties\<close>

text \<open>Two memories for examples.\<close>

definition note_a :: memory_entry where
  "note_a = MemoryEntry_new (\<lambda>s. s) 0 ''a'' Fact ''first note''"

definition note_b :: memory_entry where
  "note_b = MemoryEntry_new (\<lambda>s. s) 0 ''b'' Fact ''second note''"

definition weight_one :: f32 where
  "weight_one = F32 0x3f800000"

text \<open>
  C7: The reverse index of a memory graph is exact after any sequence of public operations in
  which removals of edges and tags leave no edge of another kind between the same nodes, and a
  graph migrated from a flat store has an exact index. After any sequence whatsoever, every source
  the index lists has an edge to that target.
\<close>

theorem graph_reverse_index:
  "(clean_run lower now MemoryGraph_new ps \<longrightarrow>
      reverse_exact (foldl (run_graph_op lower now) MemoryGraph_new ps)) \<and>
   reverse_sound (foldl (run_graph_op lower now) MemoryGraph_new ps) \<and>
   reverse_exact (from_legacy_store now store)"
proof -
  have "reverse_exact (fold (migrate_entry now) es g)" if "reverse_exact g" for es g
    using that by (induction es arbitrary: g) (simp_all add: migrate_entry_inv)
  then show ?thesis
    using exact_run [OF exact_new] sound_run [OF exact_imp_sound [OF exact_new]] exact_new
    by (simp add: from_legacy_store_def)
qed

theorem graph_reverse_index_witness:
  "reverse_exact (foldl (run_graph_op (\<lambda>s. s) 0) MemoryGraph_new
     [AddMemory note_a, AddMemory note_b, LinkMemories ''a'' ''b'' weight_one, RemoveEdge ''a'' ''b'' (RelatesTo weight_one)])"
proof -
  have "clean_run (\<lambda>s. s) 0 MemoryGraph_new
     [AddMemory note_a, AddMemory note_b, LinkMemories ''a'' ''b'' weight_one, RemoveEdge ''a'' ''b'' (RelatesTo weight_one)]"
    by code_simp
  then show ?thesis using graph_reverse_index by blast
qed

text \<open>
  C28: Removing a memory from a graph with an exact index removes it without trace: no edge leads
  from or to it, the index does not mention it, and all edges between other nodes stay.
\<close>

theorem remove_memory_leaves_no_trace:
  assumes "reverse_exact g"
  shows "let g' = fst (remove_memory i g) in
     snd (remove_memory i g) = get_memory g i \<and>
     get_memory g' i = None \<and> get_edges g' i = [] \<and> get_incoming g' i = [] \<and>
     edges_between g' a i = 0 \<and> i \<notin> set (get_incoming g' b) \<and>
     (a \<noteq> i \<longrightarrow> get_edges g' a = filter (\<lambda>e. ed_target e \<noteq> i) (get_edges g a)) \<and>
     reverse_exact g'"
proof -
  have same: "mg_memories (fold (detach_edge i) es h) = mg_memories h" for es h
    by (induction es arbitrary: h) (simp_all add: detach_edge_def drop_tag_def Let_def)
  have "snd (remove_memory i g) = get_memory g i" and "get_memory (fst (remove_memory i g)) i = None"
    by (simp_all add: remove_memory_def Let_def get_memory_def same hmap_simps split: option.split)
  then show ?thesis
    using exact_remove_memory [OF assms, of i] exact_remove_memory_edges [OF assms, of i]
      remove_memory_edges(1) [OF exact_imp_sound [OF assms], of i]
    by (simp add: Let_def edges_between_def filter_empty_conv)
qed

theorem remove_memory_leaves_no_trace_witness:
  "get_edges (fst (remove_memory ''a'' (from_legacy_store 0 \<lparr>ms_entries = [note_a], ms_metadata = []\<rparr>))) ''a'' = []"
proof -
  have "reverse_exact (from_legacy_store 0 \<lparr>ms_entries = [note_a], ms_metadata = []\<rparr>)"
    using migrate_entry_inv [OF exact_new, of 0 note_a] by (simp add: from_legacy_store_def)
  from remove_memory_leaves_no_trace [OF this, of "''a''"] show ?thesis by (simp add: Let_def)
qed

text \<open>
  Removing one of two edges between the same nodes loses the other one from the reverse index:
  after the target is removed, the remaining edge points to a memory that no longer exists.
\<close>

theorem remove_edge_can_dangle:
  "let g = foldl (run_graph_op (\<lambda>s. s) 0) MemoryGraph_new
       [AddMemory note_a, AddMemory note_b, LinkMemories ''a'' ''b'' weight_one, Supersede ''a'' ''b'',
        RemoveEdge ''a'' ''b'' (RelatesTo weight_one)];
       g' = fst (remove_memory ''b'' g)
   in edges_between g ''a'' ''b'' = 1 \<and> get_incoming g ''b'' = [] \<and>
      get_memory g' ''b'' = None \<and> edges_between g' ''a'' ''b'' = 1"
  by code_simp

text \<open>
  Untagging a memory that does not carry the tag still lowers the count of the tag: a tag with
  one tagged memory ends up with count 0.
\<close>

theorem untag_miscounts:
  "let g = foldl (run_graph_op (\<lambda>s. s) 0) MemoryGraph_new
       [AddMemory note_a, AddMemory note_b, TagMemory ''a'' ''rust'', UntagMemory ''b'' ''rust'']
   in map me_id (get_memories_by_tag g ''rust'') = [''a''] \<and>
      map_option te_count (hget (mg_tags g) ''tag:rust'') = Some 0"
  by code_simp

end
