(* ===== verification/Workspace_Map.thy ===== *)
theory Workspace_Map
  imports Rust_Prelude
begin

text \<open>
  The session workspace map of \<^verbatim>\<open>gcode-tui-workspace/src/workspace_map.rs\<close>: rows of session tiles
  indexed by a signed workspace number, each remembering its focused tile, and the window of rows
  that the terminal shows.

  A \<^verbatim>\<open>BTreeMap\<close> is an association list in ascending key order, which is its iteration order; the
  locale \<^verbatim>\<open>ordered_map\<close> states what the operations rely on and is interpreted for this
  representation. An \<^verbatim>\<open>i32\<close> is an integer; the increments of \<^verbatim>\<open>move_up\<close> and \<^verbatim>\<open>move_down\<close> wrap
  around as in the release profiles of the workspace. An operation on \<^verbatim>\<open>&mut self\<close> returns the new
  value, paired with its result when it has one.
\<close>

section \<open>Ordered maps\<close>

fun bput :: "'k::linorder \<Rightarrow> 'v \<Rightarrow> ('k \<times> 'v) list \<Rightarrow> ('k \<times> 'v) list" where
  "bput k v [] = [(k, v)]"
| "bput k v ((k', v') # m) =
     (if k < k' then (k, v) # (k', v') # m
      else if k = k' then (k, v) # m
      else (k', v') # bput k v m)"

text \<open>\<^verbatim>\<open>iter().find_map(f)\<close>: the first hit in iteration order.\<close>

fun iter_find_map :: "('k \<times> 'v \<Rightarrow> 'a option) \<Rightarrow> ('k \<times> 'v) list \<Rightarrow> 'a option" where
  "iter_find_map f [] = None"
| "iter_find_map f (e # es) = (case f e of None \<Rightarrow> iter_find_map f es | Some a \<Rightarrow> Some a)"

text \<open>
  What a client may rely on: entries come in strictly ascending order, lookup finds exactly the
  entries that iteration lists, and an insertion changes the value of one key only.
\<close>

locale ordered_map =
  fixes get :: "'m \<Rightarrow> 'k::linorder \<Rightarrow> 'v option"
    and put :: "'k \<Rightarrow> 'v \<Rightarrow> 'm \<Rightarrow> 'm"
    and iter :: "'m \<Rightarrow> ('k \<times> 'v) list"
    and inv :: "'m \<Rightarrow> bool"
  assumes iter_ascending: "inv m \<Longrightarrow> sorted_wrt (<) (map fst (iter m))"
    and get_iter: "inv m \<Longrightarrow> get m k = Some v \<longleftrightarrow> (k, v) \<in> set (iter m)"
    and get_put: "get (put k v m) k' = (if k' = k then Some v else get m k')"
    and inv_put: "inv m \<Longrightarrow> inv (put k v m)"
begin

lemma find_map_ascending:
  fixes es :: "('k \<times> 'a) list"
  assumes "sorted_wrt (<) (map fst es)"
  shows "iter_find_map f es = Some a \<longleftrightarrow>
    (\<exists>k v. (k, v) \<in> set es \<and> f (k, v) = Some a \<and> (\<forall>k' v'. (k', v') \<in> set es \<longrightarrow> k' < k \<longrightarrow> f (k', v') = None))"
  using assms
proof (induction es)
  case (Cons e es)
  obtain k0 v0 where e: "e = (k0, v0)" by force
  have above: "(k, v) \<in> set es \<Longrightarrow> k0 < k" for k v
    using Cons.prems by (force simp: e)
  show ?case
  proof (cases "f e")
    case None
    then show ?thesis using Cons above by (auto simp: e)
  next
    case (Some b)
    then show ?thesis using above by (auto simp: e) force+
  qed
qed simp

lemma find_map_least:
  assumes "inv m"
  shows "iter_find_map f (iter m) = Some a \<longleftrightarrow>
    (\<exists>k v. get m k = Some v \<and> f (k, v) = Some a \<and> (\<forall>k' v'. get m k' = Some v' \<longrightarrow> k' < k \<longrightarrow> f (k', v') = None))"
  using find_map_ascending[OF iter_ascending[OF assms]] get_iter[OF assms] by simp

lemma find_map_none:
  assumes "inv m"
  shows "iter_find_map f (iter m) = None \<longleftrightarrow> (\<forall>k v. get m k = Some v \<longrightarrow> f (k, v) = None)"
proof -
  have "iter_find_map f es = None \<longleftrightarrow> (\<forall>e\<in>set es. f e = None)" for es
    by (induction es) (auto split: option.splits)
  then show ?thesis using get_iter[OF assms] by auto
qed

end

definition ascending :: "('k::linorder \<times> 'v) list \<Rightarrow> bool" where
  "ascending m \<longleftrightarrow> sorted_wrt (<) (map fst m)"

lemma hget_bput: "hget (bput k v m) k' = (if k' = k then Some v else hget m k')"
  by (induction m) auto

lemma keys_bput: "fst ` set (bput k v m) = insert k (fst ` set m)"
proof (induction m)
  case (Cons e m)
  then show ?case by (cases e) (auto simp: insert_commute)
qed simp

lemma ascending_bput: "ascending m \<Longrightarrow> ascending (bput k v m)"
proof (induction m)
  case (Cons e m)
  have "fst x \<in> insert k (fst ` set m)" if "x \<in> set (bput k v m)" for x
    using that keys_bput[of k v m] by blast
  then show ?case using Cons unfolding ascending_def by (cases e) (force simp: ball_Un)
qed (simp add: ascending_def)

lemma ascending_distinct: "ascending m \<Longrightarrow> distinct (map fst m)"
  unfolding ascending_def by (simp add: strict_sorted_iff)

interpretation bt: ordered_map "hget" bput "\<lambda>m. m" ascending
proof
  show "hget m k = Some v \<longleftrightarrow> (k, v) \<in> set m" if "ascending m" for m :: "('a \<times> 'b) list" and k v
    using map_of_eq_Some_iff[OF ascending_distinct[OF that]] by simp
qed (simp_all add: hget_bput ascending_bput, simp add: ascending_def)

section \<open>The model\<close>

subsection \<open>Tiles and rows\<close>

datatype visual_state = Idle | Running | Completed | Waiting | Error | Detached

record tile =
  session_id :: string
  state :: visual_state

definition Tile_new :: "string \<Rightarrow> tile" where
  "Tile_new sid = \<lparr>session_id = sid, state = Idle\<rparr>"

definition with_state :: "string \<Rightarrow> visual_state \<Rightarrow> tile" where
  "with_state sid st = \<lparr>session_id = sid, state = st\<rparr>"

record row =
  sessions :: "tile list"
  last_focused :: "nat option"

definition row_default :: row where
  "row_default = \<lparr>sessions = [], last_focused = None\<rparr>"

definition row_is_empty :: "row \<Rightarrow> bool" where
  "row_is_empty r \<longleftrightarrow> sessions r = []"

definition focused_index :: "row \<Rightarrow> nat option" where
  "focused_index r =
     (let len = length (sessions r) in
      case last_focused r of
        Some idx \<Rightarrow> if idx < len then Some idx else if sessions r \<noteq> [] then Some 0 else None
      | None \<Rightarrow> if sessions r \<noteq> [] then Some 0 else None)"

definition focus :: "nat \<Rightarrow> row \<Rightarrow> row \<times> bool" where
  "focus index r =
     (if index < length (sessions r) then (r\<lparr>last_focused := Some index\<rparr>, True) else (r, False))"

text \<open>\<^verbatim>\<open>Vec::insert\<close> at an index of at most the length.\<close>

definition vec_insert :: "nat \<Rightarrow> 'a \<Rightarrow> 'a list \<Rightarrow> 'a list" where
  "vec_insert i x xs = take i xs @ x # drop i xs"

definition insert_right_of_focus :: "tile \<Rightarrow> row \<Rightarrow> row \<times> nat" where
  "insert_right_of_focus t r =
     (let insert_at = (case focused_index r of
                         Some idx \<Rightarrow> min (idx + 1) (length (sessions r))
                       | None \<Rightarrow> length (sessions r))
      in (r\<lparr>sessions := vec_insert insert_at t (sessions r), last_focused := Some insert_at\<rparr>, insert_at))"

definition move_focus_left :: "row \<Rightarrow> row \<times> bool" where
  "move_focus_left r =
     (case focused_index r of
        None \<Rightarrow> (r, False)
      | Some current \<Rightarrow>
          if current = 0 then (r, False) else (r\<lparr>last_focused := Some (current - 1)\<rparr>, True))"

definition move_focus_right :: "row \<Rightarrow> row \<times> bool" where
  "move_focus_right r =
     (case focused_index r of
        None \<Rightarrow> (r, False)
      | Some current \<Rightarrow>
          if current + 1 \<ge> length (sessions r) then (r, False)
          else (r\<lparr>last_focused := Some (current + 1)\<rparr>, True))"

subsection \<open>The map\<close>

type_synonym i32 = int

record workspace_map =
  rows :: "(i32 \<times> row) list"
  current_workspace :: i32

definition WorkspaceMap_new :: workspace_map where
  "WorkspaceMap_new = \<lparr>rows = [], current_workspace = 0\<rparr>"

definition get_row :: "i32 \<Rightarrow> workspace_map \<Rightarrow> row option" where
  "get_row w m = hget (rows m) w"

text \<open>\<^verbatim>\<open>rows.entry(w).or_default()\<close>: the row that is seen, and the map with the row changed.\<close>

definition row_mut :: "i32 \<Rightarrow> (row \<Rightarrow> row \<times> 'a) \<Rightarrow> workspace_map \<Rightarrow> workspace_map \<times> 'a" where
  "row_mut w f m =
     (let (r, a) = f (hget_or row_default (rows m) w) in (m\<lparr>rows := bput w r (rows m)\<rparr>, a))"

definition ensure_row :: "i32 \<Rightarrow> workspace_map \<Rightarrow> workspace_map" where
  "ensure_row w m = fst (row_mut w (\<lambda>r. (r, ())) m)"

definition set_current_workspace :: "i32 \<Rightarrow> workspace_map \<Rightarrow> workspace_map" where
  "set_current_workspace w m = ensure_row w (m\<lparr>current_workspace := w\<rparr>)"

definition current_row :: "workspace_map \<Rightarrow> row option" where
  "current_row m = get_row (current_workspace m) m"

definition current_row_mut :: "(row \<Rightarrow> row \<times> 'a) \<Rightarrow> workspace_map \<Rightarrow> workspace_map \<times> 'a" where
  "current_row_mut f m = row_mut (current_workspace m) f m"

definition map_is_empty :: "workspace_map \<Rightarrow> bool" where
  "map_is_empty m \<longleftrightarrow> list_all (\<lambda>(w, r). row_is_empty r) (rows m)"

definition add_session_to_current_workspace :: "tile \<Rightarrow> workspace_map \<Rightarrow> workspace_map \<times> (i32 \<times> nat)" where
  "add_session_to_current_workspace t m =
     (let w = current_workspace m; (m', index) = current_row_mut (insert_right_of_focus t) m
      in (m', (w, index)))"

definition focus_session_in_workspace :: "i32 \<Rightarrow> nat \<Rightarrow> workspace_map \<Rightarrow> workspace_map \<times> bool" where
  "focus_session_in_workspace w index m = row_mut w (focus index) m"

text \<open>\<^verbatim>\<open>iter().position(p)\<close>.\<close>

fun position :: "('a \<Rightarrow> bool) \<Rightarrow> 'a list \<Rightarrow> nat option" where
  "position p [] = None"
| "position p (x # xs) = (if p x then Some 0 else map_option Suc (position p xs))"

definition locate_session :: "string \<Rightarrow> workspace_map \<Rightarrow> (i32 \<times> nat) option" where
  "locate_session sid m =
     iter_find_map (\<lambda>(w, r). map_option (\<lambda>index. (w, index))
       (position (\<lambda>t. session_id t = sid) (sessions r))) (rows m)"

definition focus_session_by_id :: "string \<Rightarrow> workspace_map \<Rightarrow> workspace_map \<times> bool" where
  "focus_session_by_id sid m =
     (case locate_session sid m of
        None \<Rightarrow> (m, False)
      | Some (w, index) \<Rightarrow> row_mut w (focus index) (m\<lparr>current_workspace := w\<rparr>))"

definition focused_session_in_workspace :: "i32 \<Rightarrow> workspace_map \<Rightarrow> string option" where
  "focused_session_in_workspace w m =
     Option.bind (get_row w m) (\<lambda>r. Option.bind (focused_index r) (\<lambda>index.
       if index < length (sessions r) then Some (session_id (sessions r ! index)) else None))"

definition current_focused_session_id :: "workspace_map \<Rightarrow> string option" where
  "current_focused_session_id m =
     Option.bind (current_row m) (\<lambda>r. Option.bind (focused_index r) (\<lambda>index.
       if index < length (sessions r) then Some (session_id (sessions r ! index)) else None))"

definition set_row_sessions :: "i32 \<Rightarrow> tile list \<Rightarrow> nat option \<Rightarrow> workspace_map \<Rightarrow> workspace_map" where
  "set_row_sessions w ts foc m =
     fst (row_mut w (\<lambda>r. (r\<lparr>sessions := ts,
       last_focused := (case foc of Some idx \<Rightarrow> if idx < length ts then Some idx else None | None \<Rightarrow> None)\<rparr>, ())) m)"

definition insert_session_in_workspace :: "i32 \<Rightarrow> tile \<Rightarrow> workspace_map \<Rightarrow> workspace_map \<times> nat" where
  "insert_session_in_workspace w t m =
     row_mut w (insert_right_of_focus t) (m\<lparr>current_workspace := w\<rparr>)"

definition nearest_populated_workspace_above :: "workspace_map \<Rightarrow> i32 option" where
  "nearest_populated_workspace_above m =
     (let ws = map fst (filter (\<lambda>(w, r). w > current_workspace m \<and> \<not> row_is_empty r) (rows m))
      in if ws = [] then None else Some (Min (set ws)))"

definition nearest_populated_workspace_below :: "workspace_map \<Rightarrow> i32 option" where
  "nearest_populated_workspace_below m =
     (let ws = map fst (filter (\<lambda>(w, r). w < current_workspace m \<and> \<not> row_is_empty r) (rows m))
      in if ws = [] then None else Some (Max (set ws)))"

definition move_left :: "workspace_map \<Rightarrow> workspace_map \<times> bool" where
  "move_left m = current_row_mut move_focus_left m"

definition move_right :: "workspace_map \<Rightarrow> workspace_map \<times> bool" where
  "move_right m = current_row_mut move_focus_right m"

definition move_up :: "workspace_map \<Rightarrow> workspace_map" where
  "move_up m = (let w = i32_wrap (current_workspace m + 1) in ensure_row w (m\<lparr>current_workspace := w\<rparr>))"

definition move_down :: "workspace_map \<Rightarrow> workspace_map" where
  "move_down m = (let w = i32_wrap (current_workspace m - 1) in ensure_row w (m\<lparr>current_workspace := w\<rparr>))"

definition populated_workspaces :: "workspace_map \<Rightarrow> i32 list" where
  "populated_workspaces m = map fst (filter (\<lambda>(w, r). \<not> row_is_empty r) (rows m))"

subsection \<open>Visible rows\<close>

record visible_row =
  workspace :: i32
  is_current :: bool
  vis_focused_index :: "nat option"
  vis_sessions :: "tile list"

text \<open>The workspaces that may be shown, from the highest to the lowest.\<close>

definition shown_order :: "workspace_map \<Rightarrow> i32 list" where
  "shown_order m =
     (let ordered = rev (sort (map fst (filter (\<lambda>(w, r). w = current_workspace m \<or> \<not> row_is_empty r) (rows m))))
      in if ordered = [] then [current_workspace m] else ordered)"

text \<open>The bounds of the window; the subtractions of the first two lines saturate at zero.\<close>

definition window :: "nat \<Rightarrow> nat \<Rightarrow> nat \<Rightarrow> nat \<times> nat" where
  "window max_rows current_pos len =
     (let half = max_rows div 2;
          start = current_pos - half;
          end = min (start + max_rows) len
      in (if end - start < max_rows then end - max_rows else start, end))"

definition visible_rows :: "nat \<Rightarrow> workspace_map \<Rightarrow> visible_row list" where
  "visible_rows max_rows m =
     (if max_rows = 0 then []
      else
        let ordered = shown_order m;
            current_pos = (case position (\<lambda>w. w = current_workspace m) ordered of None \<Rightarrow> 0 | Some p \<Rightarrow> p);
            (start, end) = window max_rows current_pos (length ordered)
        in map (\<lambda>w. let r = hget_or row_default (rows m) w in
                  \<lparr>workspace = w, is_current = (w = current_workspace m),
                   vis_focused_index = focused_index r, vis_sessions = sessions r\<rparr>)
             (drop start (take end ordered)))"

section \<open>Reachable maps\<close>

text \<open>The maps that the operations build from the empty one.\<close>

definition is_i32 :: "int \<Rightarrow> bool" where
  "is_i32 x \<longleftrightarrow> - (2 ^ 31) \<le> x \<and> x < 2 ^ 31"

inductive reachable_map :: "workspace_map \<Rightarrow> bool" where
  new: "reachable_map WorkspaceMap_new"
| set_current: "reachable_map m \<Longrightarrow> is_i32 w \<Longrightarrow> reachable_map (set_current_workspace w m)"
| add: "reachable_map m \<Longrightarrow> reachable_map (fst (add_session_to_current_workspace t m))"
| focus_in: "reachable_map m \<Longrightarrow> is_i32 w \<Longrightarrow> reachable_map (fst (focus_session_in_workspace w i m))"
| focus_id: "reachable_map m \<Longrightarrow> reachable_map (fst (focus_session_by_id sid m))"
| set_row: "reachable_map m \<Longrightarrow> is_i32 w \<Longrightarrow> reachable_map (set_row_sessions w ts foc m)"
| insert_in: "reachable_map m \<Longrightarrow> is_i32 w \<Longrightarrow> reachable_map (fst (insert_session_in_workspace w t m))"
| left: "reachable_map m \<Longrightarrow> reachable_map (fst (move_left m))"
| right: "reachable_map m \<Longrightarrow> reachable_map (fst (move_right m))"
| up: "reachable_map m \<Longrightarrow> reachable_map (move_up m)"
| down: "reachable_map m \<Longrightarrow> reachable_map (move_down m)"

text \<open>Rows are in key order, keys fit the type, and a remembered focus is an index of its row.\<close>

definition row_ok :: "row \<Rightarrow> bool" where
  "row_ok r \<longleftrightarrow> (case last_focused r of None \<Rightarrow> True | Some i \<Rightarrow> i < length (sessions r))"

definition map_ok :: "workspace_map \<Rightarrow> bool" where
  "map_ok m \<longleftrightarrow> ascending (rows m) \<and> is_i32 (current_workspace m)
     \<and> (\<forall>w r. get_row w m = Some r \<longrightarrow> is_i32 w \<and> row_ok r)"

lemma is_i32_wrap [simp]: "is_i32 (i32_wrap x)"
proof -
  have "0 \<le> (x + 2147483648) mod 4294967296" "(x + 2147483648) mod 4294967296 < 4294967296" by simp_all
  then show ?thesis by (simp add: is_i32_def i32_wrap_def)
qed

lemma row_ok_default [simp]: "row_ok row_default"
  by (simp add: row_ok_def row_default_def)

lemma focused_index_bound: "focused_index r = Some i \<Longrightarrow> i < length (sessions r)"
  by (auto simp: focused_index_def Let_def split: option.splits if_splits)

lemma focused_index_None [simp]: "focused_index r = None \<longleftrightarrow> sessions r = []"
  by (auto simp: focused_index_def Let_def split: option.splits)

lemma length_vec_insert: "length (vec_insert i x xs) = Suc (length xs)"
  by (simp add: vec_insert_def)

text \<open>Every row operation leaves a remembered focus inside its row.\<close>

lemma row_ok_focus: "row_ok r \<Longrightarrow> row_ok (fst (focus i r))"
  by (auto simp: focus_def row_ok_def split: option.splits)

lemma row_ok_insert: "row_ok (fst (insert_right_of_focus t r))"
  by (auto simp: insert_right_of_focus_def row_ok_def Let_def length_vec_insert less_Suc_eq_le split: option.splits)

lemma row_ok_left: "row_ok r \<Longrightarrow> row_ok (fst (move_focus_left r))"
  using focused_index_bound[of r] by (fastforce simp: move_focus_left_def row_ok_def split: option.splits)

lemma row_ok_right: "row_ok r \<Longrightarrow> row_ok (fst (move_focus_right r))"
  by (auto simp: move_focus_right_def row_ok_def split: option.splits)

lemma row_ok_set: "row_ok (r\<lparr>sessions := ts, last_focused := (case foc of Some i \<Rightarrow> if i < length ts then Some i else None | None \<Rightarrow> None)\<rparr>)"
  by (simp add: row_ok_def split: option.splits)

text \<open>The effect of \<^term>\<open>row_mut\<close> on lookups and on the invariant.\<close>

lemma current_row_mut_simps [simp]: "current_workspace (fst (row_mut w f m)) = current_workspace m"
  by (simp add: row_mut_def split: prod.splits)

lemma get_row_mut:
  "get_row w' (fst (row_mut w f m)) = (if w' = w then Some (fst (f (hget_or row_default (rows m) w))) else get_row w' m)"
  by (simp add: row_mut_def get_row_def hget_bput split: prod.splits)

lemma snd_row_mut: "snd (row_mut w f m) = snd (f (hget_or row_default (rows m) w))"
  by (simp add: row_mut_def split: prod.splits)

lemma rows_row_mut: "rows (fst (row_mut w f m)) = bput w (fst (f (hget_or row_default (rows m) w))) (rows m)"
  by (simp add: row_mut_def split: prod.splits)

lemma map_ok_row: "map_ok m \<Longrightarrow> row_ok (hget_or row_default (rows m) w)"
  by (simp add: map_ok_def hget_or_def get_row_def split: option.splits)

lemma map_ok_row_mut:
  assumes "map_ok m" "is_i32 w" "\<And>r. row_ok r \<Longrightarrow> row_ok (fst (f r))"
  shows "map_ok (fst (row_mut w f m))"
  using assms map_ok_row[OF assms(1), of w] bt.inv_put
  by (auto simp: map_ok_def get_row_mut rows_row_mut)

lemma map_ok_current [simp]: "map_ok m \<Longrightarrow> is_i32 w \<Longrightarrow> map_ok (m\<lparr>current_workspace := w\<rparr>)"
  by (simp add: map_ok_def get_row_def)

lemma get_row_current [simp]: "get_row w (m\<lparr>current_workspace := w'\<rparr>) = get_row w m"
  by (simp add: get_row_def)

lemma map_ok_is_i32: "map_ok m \<Longrightarrow> is_i32 (current_workspace m)" "map_ok m \<Longrightarrow> get_row w m = Some r \<Longrightarrow> is_i32 w"
  by (auto simp: map_ok_def)

lemma position_Some:
  "position p xs = Some i \<longleftrightarrow> i < length xs \<and> p (xs ! i) \<and> (\<forall>j < i. \<not> p (xs ! j))"
proof (induction xs arbitrary: i)
  case (Cons x xs)
  then show ?case by (cases i) (auto simp: nth_Cons' less_Suc_eq_0_disj)
qed simp

lemma position_None: "position p xs = None \<longleftrightarrow> (\<forall>x\<in>set xs. \<not> p x)"
  by (induction xs) auto

lemma locate_session_Some:
  assumes "map_ok m"
  shows "locate_session sid m = Some (w, i) \<longleftrightarrow>
    (\<exists>r. get_row w m = Some r \<and> position (\<lambda>t. session_id t = sid) (sessions r) = Some i \<and>
      (\<forall>w' r'. get_row w' m = Some r' \<longrightarrow> w' < w \<longrightarrow> sid \<notin> session_id ` set (sessions r')))"
proof -
  have "ascending (rows m)" using assms by (simp add: map_ok_def)
  then show ?thesis unfolding locate_session_def bt.find_map_least[OF \<open>ascending (rows m)\<close>] get_row_def
    by (auto simp: position_None)
qed

lemma locate_session_None:
  assumes "map_ok m"
  shows "locate_session sid m = None \<longleftrightarrow> (\<forall>w r. get_row w m = Some r \<longrightarrow> sid \<notin> session_id ` set (sessions r))"
proof -
  have "ascending (rows m)" using assms by (simp add: map_ok_def)
  then show ?thesis unfolding locate_session_def bt.find_map_none[OF \<open>ascending (rows m)\<close>] get_row_def
    by (auto simp: position_None)
qed

lemma map_ok_ensure: "map_ok m \<Longrightarrow> is_i32 w \<Longrightarrow> map_ok (ensure_row w m)"
  unfolding ensure_row_def by (rule map_ok_row_mut) simp_all

lemma map_ok_focus_by_id:
  assumes "map_ok m"
  shows "map_ok (fst (focus_session_by_id sid m))"
proof (cases "locate_session sid m")
  case (Some wi)
  obtain w i where wi: "wi = (w, i)" by force
  have "is_i32 w" using Some assms map_ok_is_i32(2) by (auto simp: wi locate_session_Some[OF assms])
  then show ?thesis using assms Some
    by (simp add: focus_session_by_id_def wi map_ok_row_mut row_ok_focus)
qed (simp add: focus_session_by_id_def assms)

lemma reachable_map_ok: "reachable_map m \<Longrightarrow> map_ok m"
proof (induction rule: reachable_map.induct)
  case new
  show ?case by (simp add: map_ok_def WorkspaceMap_new_def ascending_def get_row_def is_i32_def)
qed (auto simp: set_current_workspace_def add_session_to_current_workspace_def current_row_mut_def
  focus_session_in_workspace_def set_row_sessions_def insert_session_in_workspace_def
  move_left_def move_right_def move_up_def move_down_def Let_def split_def map_ok_is_i32
  map_ok_focus_by_id
  intro!: map_ok_ensure map_ok_row_mut row_ok_focus row_ok_insert row_ok_left row_ok_right row_ok_set)

section \<open>Focus\<close>

lemma focused_session_eq:
  "focused_session_in_workspace w m =
     Option.bind (get_row w m) (\<lambda>r. map_option (\<lambda>i. session_id (sessions r ! i)) (focused_index r))"
  by (cases "get_row w m") (auto simp: focused_session_in_workspace_def focused_index_bound split: Option.bind_split)

lemma current_focused_session_eq:
  "current_focused_session_id m = focused_session_in_workspace (current_workspace m) m"
  by (simp add: current_focused_session_id_def focused_session_in_workspace_def current_row_def)

lemma focused_index_focus: "i < length (sessions r) \<Longrightarrow> focused_index (fst (focus i r)) = Some i"
  by (simp add: focus_def focused_index_def)

lemma sessions_focus [simp]: "sessions (fst (focus i r)) = sessions r"
  by (simp add: focus_def)

lemma hget_or_get_row: "get_row w m = Some r \<Longrightarrow> hget_or row_default (rows m) w = r"
  by (simp add: get_row_def hget_or_def)

lemma focus_session_by_id_located:
  assumes "map_ok m" "locate_session sid m = Some (w, i)" "focus_session_by_id sid m = (m', ok)"
  shows "ok" "current_workspace m' = w" "current_focused_session_id m' = Some sid"
    "map_option sessions (get_row w' m') = map_option sessions (get_row w' m)"
    "w' \<noteq> w \<Longrightarrow> get_row w' m' = get_row w' m"
proof -
  obtain r where r: "get_row w m = Some r" and pos: "i < length (sessions r)" "session_id (sessions r ! i) = sid"
    using assms(2) by (auto simp: locate_session_Some[OF assms(1)] position_Some)
  have eq: "m' = fst (row_mut w (focus i) (m\<lparr>current_workspace := w\<rparr>))"
    "ok = snd (row_mut w (focus i) (m\<lparr>current_workspace := w\<rparr>))"
    using assms(2,3) by (simp_all add: focus_session_by_id_def)
  have seen: "hget_or row_default (rows m) w = r" by (rule hget_or_get_row[OF r])
  show "ok" using pos by (simp add: eq snd_row_mut seen focus_def)
  show w: "current_workspace m' = w" by (simp add: eq)
  show "w' \<noteq> w \<Longrightarrow> get_row w' m' = get_row w' m" by (simp add: eq get_row_mut)
  show "map_option sessions (get_row w' m') = map_option sessions (get_row w' m)"
    by (simp add: eq get_row_mut seen r)
  show "current_focused_session_id m' = Some sid"
    unfolding current_focused_session_eq focused_session_eq w using pos
    by (simp add: eq get_row_mut seen focused_index_focus)
qed

text \<open>
  In every reachable map, focusing a session by its identifier succeeds exactly when some row
  holds that session. It then makes that session the focused one, selects the lowest workspace that
  holds it, leaves the tiles of all rows as they were and the remembered focus of every other row;
  when the session is in no row the map is unchanged.
\<close>

theorem focus_session_by_id_focuses:
  assumes "reachable_map m" "focus_session_by_id sid m = (m', ok)"
  shows "(ok \<longleftrightarrow> (\<exists>w r. get_row w m = Some r \<and> sid \<in> session_id ` set (sessions r))) \<and>
    (ok \<longrightarrow> current_focused_session_id m' = Some sid) \<and>
    (ok \<longrightarrow> (\<forall>w r. get_row w m = Some r \<and> sid \<in> session_id ` set (sessions r) \<longrightarrow> current_workspace m' \<le> w)) \<and>
    (\<forall>w. map_option sessions (get_row w m') = map_option sessions (get_row w m)) \<and>
    (\<forall>w. w \<noteq> current_workspace m' \<longrightarrow> get_row w m' = get_row w m) \<and> (\<not> ok \<longrightarrow> m' = m)"
proof (cases "locate_session sid m")
  case None
  then have "m' = m" "\<not> ok" using assms(2) by (auto simp: focus_session_by_id_def)
  then show ?thesis using None by (auto simp: locate_session_None[OF reachable_map_ok[OF assms(1)]])
next
  case (Some wi)
  obtain w0 i where wi: "wi = (w0, i)" by force
  have ok: "map_ok m" by (rule reachable_map_ok[OF assms(1)])
  have loc: "locate_session sid m = Some (w0, i)" using Some by (simp add: wi)
  note foc = focus_session_by_id_located[OF ok loc assms(2)]
  have "\<exists>r. get_row w0 m = Some r \<and> sid \<in> session_id ` set (sessions r)"
    using loc by (auto simp: locate_session_Some[OF ok] position_Some)
  moreover have "w0 \<le> w" if "get_row w m = Some r" "sid \<in> session_id ` set (sessions r)" for w r
    using that loc by (auto simp: locate_session_Some[OF ok] not_less[symmetric])
  ultimately show ?thesis using foc by auto
qed

definition demo_map :: workspace_map where
  "demo_map = move_down (fst (add_session_to_current_workspace (Tile_new ''owl'') (move_up
     (fst (add_session_to_current_workspace (Tile_new ''bear'')
       (fst (add_session_to_current_workspace (Tile_new ''fox'') WorkspaceMap_new)))))))"

lemma reachable_demo_map: "reachable_map demo_map"
  unfolding demo_map_def by (intro reachable_map.intros)

lemmas demo_map_eval = demo_map_def WorkspaceMap_new_def add_session_to_current_workspace_def
  current_row_mut_def row_mut_def ensure_row_def move_up_def move_down_def hget_or_def row_default_def
  insert_right_of_focus_def focused_index_def vec_insert_def i32_wrap_def Tile_new_def

theorem focus_session_by_id_focuses_witness:
  "snd (focus_session_by_id ''owl'' demo_map)
   \<and> current_focused_session_id (fst (focus_session_by_id ''owl'' demo_map)) = Some ''owl''"
proof -
  have "get_row 1 demo_map = Some \<lparr>sessions = [Tile_new ''owl''], last_focused = Some 0\<rparr>"
    by (simp add: get_row_def demo_map_eval)
  then have "\<exists>w r. get_row w demo_map = Some r \<and> ''owl'' \<in> session_id ` set (sessions r)"
    by (intro exI[of _ 1] exI) (auto simp: Tile_new_def)
  then show ?thesis
    using focus_session_by_id_focuses[OF reachable_demo_map, of "''owl''" "fst (focus_session_by_id ''owl'' demo_map)"]
    by (simp add: prod_eq_iff)
qed

section \<open>The visible window\<close>

definition shown_workspaces :: "workspace_map \<Rightarrow> i32 set" where
  "shown_workspaces m = {w. \<exists>r. get_row w m = Some r \<and> (w = current_workspace m \<or> sessions r \<noteq> [])}"

lemma shown_order_descending:
  assumes "map_ok m" "current_row m \<noteq> None"
  shows "sorted_wrt (>) (shown_order m)" "set (shown_order m) = shown_workspaces m"
proof -
  let ?ws = "map fst (filter (\<lambda>(w, r). w = current_workspace m \<or> \<not> row_is_empty r) (rows m))"
  have asc: "ascending (rows m)" using assms(1) by (simp add: map_ok_def)
  then have "sorted_wrt (<) ?ws" unfolding ascending_def
    by (simp add: sorted_wrt_map sorted_wrt_filter)
  then have sorted: "sort ?ws = ?ws" "sorted_wrt (>) (rev ?ws)"
    by (simp_all add: strict_sorted_iff sorted_sort_id sorted_wrt_rev)
  have set: "set ?ws = shown_workspaces m"
    using bt.get_iter[OF asc] by (force simp: shown_workspaces_def get_row_def row_is_empty_def)
  moreover have "current_workspace m \<in> shown_workspaces m"
    using assms(2) by (auto simp: shown_workspaces_def current_row_def)
  ultimately have "?ws \<noteq> []" by (metis empty_iff empty_set)
  then have "shown_order m = rev ?ws" by (auto simp: shown_order_def sorted(1) Let_def)
  then show "sorted_wrt (>) (shown_order m)" "set (shown_order m) = shown_workspaces m"
    using sorted(2) set by auto
qed

lemma window_bounds:
  assumes "0 < n" "p < len" "window n p len = (start, end)"
  shows "start \<le> p" "p < end" "end \<le> len" "end - start = min n len"
    "n div 2 \<le> p \<Longrightarrow> n - n div 2 \<le> len - p \<Longrightarrow> p - start = n div 2"
proof -
  define h where "h = n div 2"
  have h: "h < n" using assms(1) by (simp add: h_def)
  have e: "end = min (p - h + n) len" using assms(3) by (simp add: window_def Let_def h_def)
  have s: "start = (if end - (p - h) < n then end - n else p - h)"
    using assms(3) by (auto simp: window_def Let_def h_def)
  consider "p - h + n \<le> len" "end = p - h + n" "start = p - h" | "len < p - h + n" "end = len" "start = len - n"
    using e s assms(2) by (cases "p - h + n \<le> len") auto
  then have "start \<le> p \<and> p < end \<and> end \<le> len \<and> end - start = min n len \<and>
    (h \<le> p \<longrightarrow> n - h \<le> len - p \<longrightarrow> p - start = h)"
    using h assms(2) by cases auto
  then show "start \<le> p" "p < end" "end \<le> len" "end - start = min n len"
    "n div 2 \<le> p \<Longrightarrow> n - n div 2 \<le> len - p \<Longrightarrow> p - start = n div 2" by (simp_all add: h_def)
qed

text \<open>In a descending list the entries above an element are those before it.\<close>

lemma descending_above:
  assumes "sorted_wrt (>) (ws :: 'a::linorder list)" "p < length ws"
  shows "{w \<in> set ws. w > ws ! p} = set (take p ws)" "{w \<in> set ws. w < ws ! p} = set (drop (Suc p) ws)"
proof -
  have ws: "ws = take p ws @ ws ! p # drop (Suc p) ws" using assms(2) by (rule id_take_nth_drop)
  have "sorted_wrt (>) (take p ws @ ws ! p # drop (Suc p) ws)" using assms(1) ws by simp
  then have below: "\<forall>w\<in>set (take p ws). w > ws ! p" "\<forall>w\<in>set (drop (Suc p) ws). w < ws ! p"
    by (auto simp: sorted_wrt_append)
  have "set ws = set (take p ws) \<union> {ws ! p} \<union> set (drop (Suc p) ws)" by (subst ws) auto
  then show "{w \<in> set ws. w > ws ! p} = set (take p ws)" "{w \<in> set ws. w < ws ! p} = set (drop (Suc p) ws)"
    using below by (auto dest: order_less_asym)
qed

lemma descending_distinct: "sorted_wrt (>) (ws :: 'a::linorder list) \<Longrightarrow> distinct ws"
  by (induction ws) auto

lemma descending_slice:
  assumes "sorted_wrt (>) (ws :: 'a::linorder list)" "u \<in> set (drop i (take j ws))" "v \<in> set (drop i (take j ws))"
    "w \<in> set ws" "u \<le> w" "w \<le> v"
  shows "w \<in> set (drop i (take j ws))"
proof -
  let ?s = "drop i (take j ws)"
  have ws: "ws = take i (take j ws) @ ?s @ drop j ws" by (metis append_assoc append_take_drop_id)
  have "sorted_wrt (>) (take i (take j ws) @ ?s @ drop j ws)" using assms(1) ws by simp
  then have "x > v" if "x \<in> set (take i (take j ws))" for x
    using that assms(3) by (auto simp: sorted_wrt_append)
  moreover have "x < u" if "x \<in> set (drop j ws)" for x
    using \<open>sorted_wrt (>) (take i (take j ws) @ ?s @ drop j ws)\<close> that assms(2) by (auto simp: sorted_wrt_append)
  moreover have "w \<in> set (take i (take j ws)) \<union> set ?s \<union> set (drop j ws)"
    using assms(4) by (subst (asm) ws) auto
  ultimately show ?thesis using assms(5,6) by force
qed

lemma visible_rows_slice:
  assumes "0 < n" "map_ok m" "current_row m \<noteq> None"
  obtains p i j where "p < length (shown_order m)" "shown_order m ! p = current_workspace m"
    "i \<le> p" "p < j" "j \<le> length (shown_order m)" "j - i = min n (length (shown_order m))"
    "n div 2 \<le> p \<and> n - n div 2 \<le> length (shown_order m) - p \<longrightarrow> p - i = n div 2"
    "visible_rows n m = map (\<lambda>w. let r = hget_or row_default (rows m) w in
       \<lparr>workspace = w, is_current = (w = current_workspace m), vis_focused_index = focused_index r,
        vis_sessions = sessions r\<rparr>) (drop i (take j (shown_order m)))"
proof -
  have "current_workspace m \<in> set (shown_order m)"
    using shown_order_descending(2)[OF assms(2,3)] assms(3) by (auto simp: shown_workspaces_def current_row_def)
  then obtain p where p: "position (\<lambda>w. w = current_workspace m) (shown_order m) = Some p"
    by (cases "position (\<lambda>w. w = current_workspace m) (shown_order m)") (auto simp: position_None)
  obtain i j where ij: "window n p (length (shown_order m)) = (i, j)" by force
  have "p < length (shown_order m)" "shown_order m ! p = current_workspace m" using p by (auto simp: position_Some)
  then show thesis
    using that[of p i j] window_bounds[OF assms(1) _ ij] assms(1) by (simp add: visible_rows_def p ij)
qed

text \<open>
  For a positive number of rows and a reachable map whose current workspace has a row, the
  visible rows are a contiguous part, from high to low, of the workspaces that hold sessions and the
  current one; there are as many as fit; each shows the tiles and the focus of its row; the current
  workspace is among them, marked as current, and stands in the middle when there are enough
  workspaces above and below it.
\<close>

theorem visible_rows_window:
  assumes "reachable_map m" "0 < n" "current_row m \<noteq> None"
  shows "length (visible_rows n m) = min n (card (shown_workspaces m)) \<and>
    sorted_wrt (>) (map workspace (visible_rows n m)) \<and>
    current_workspace m \<in> workspace ` set (visible_rows n m) \<and>
    (\<forall>v\<in>set (visible_rows n m). workspace v \<in> shown_workspaces m \<and>
       (is_current v \<longleftrightarrow> workspace v = current_workspace m) \<and>
       (\<exists>r. get_row (workspace v) m = Some r \<and> vis_sessions v = sessions r \<and> vis_focused_index v = focused_index r)) \<and>
    (\<forall>u\<in>set (visible_rows n m). \<forall>v\<in>set (visible_rows n m). \<forall>w\<in>shown_workspaces m.
       workspace u \<le> w \<and> w \<le> workspace v \<longrightarrow> w \<in> workspace ` set (visible_rows n m)) \<and>
    (n div 2 \<le> card {w \<in> shown_workspaces m. w > current_workspace m} \<and>
     n - n div 2 - 1 \<le> card {w \<in> shown_workspaces m. w < current_workspace m} \<longrightarrow>
       is_current (visible_rows n m ! (n div 2)))"
proof -
  have ok: "map_ok m" by (rule reachable_map_ok[OF assms(1)])
  let ?ws = "shown_order m" and ?vs = "visible_rows n m"
  note desc = shown_order_descending[OF ok assms(3)]
  have dist: "distinct ?ws" by (rule descending_distinct[OF desc(1)])
  obtain p i j where p: "p < length ?ws" "?ws ! p = current_workspace m"
    and ij: "i \<le> p" "p < j" "j \<le> length ?ws" "j - i = min n (length ?ws)"
    and mid: "n div 2 \<le> p \<and> n - n div 2 \<le> length ?ws - p \<longrightarrow> p - i = n div 2"
    and vs: "?vs = map (\<lambda>w. let r = hget_or row_default (rows m) w in
       \<lparr>workspace = w, is_current = (w = current_workspace m), vis_focused_index = focused_index r,
        vis_sessions = sessions r\<rparr>) (drop i (take j ?ws))"
    by (rule visible_rows_slice[OF assms(2) ok assms(3)])
  have keys: "map workspace ?vs = drop i (take j ?ws)" by (simp add: vs Let_def comp_def)
  have card: "card (shown_workspaces m) = length ?ws" using dist desc(2) by (metis distinct_card)
  have "length ?vs = min n (length ?ws)" using ij by (simp add: vs)
  moreover have "sorted_wrt (>) (map workspace ?vs)"
    unfolding keys by (rule sorted_wrt_drop[OF sorted_wrt_take[OF desc(1)]])
  moreover have slot: "p - i < length (drop i (take j ?ws))" "drop i (take j ?ws) ! (p - i) = current_workspace m"
    using ij(1-3) p by (simp_all add: diff_less_mono)
  moreover from slot have at: "?vs ! (p - i) = (let r = hget_or row_default (rows m) (current_workspace m) in
       \<lparr>workspace = current_workspace m, is_current = True, vis_focused_index = focused_index r,
        vis_sessions = sessions r\<rparr>)" "p - i < length ?vs"
    using slot by (simp_all add: vs)
  then have "current_workspace m \<in> workspace ` set ?vs"
    by (metis (no_types, lifting) image_eqI nth_mem visible_row.select_convs(1))
  moreover have "\<forall>v\<in>set ?vs. workspace v \<in> shown_workspaces m \<and>
       (is_current v \<longleftrightarrow> workspace v = current_workspace m) \<and>
       (\<exists>r. get_row (workspace v) m = Some r \<and> vis_sessions v = sessions r \<and> vis_focused_index v = focused_index r)"
  proof
    fix v assume v: "v \<in> set ?vs"
    then have "workspace v \<in> set (map workspace ?vs)" by simp
    then have w: "workspace v \<in> shown_workspaces m"
      unfolding keys using desc(2) by (metis in_set_dropD in_set_takeD)
    then obtain r where "get_row (workspace v) m = Some r" by (auto simp: shown_workspaces_def)
    then show "workspace v \<in> shown_workspaces m \<and> (is_current v \<longleftrightarrow> workspace v = current_workspace m) \<and>
       (\<exists>r. get_row (workspace v) m = Some r \<and> vis_sessions v = sessions r \<and> vis_focused_index v = focused_index r)"
      using v w by (auto simp: vs Let_def hget_or_get_row)
  qed
  moreover have "\<forall>u\<in>set ?vs. \<forall>v\<in>set ?vs. \<forall>w\<in>shown_workspaces m.
       workspace u \<le> w \<and> w \<le> workspace v \<longrightarrow> w \<in> workspace ` set ?vs"
    using descending_slice[OF desc(1), of _ i j] desc(2) arg_cong[OF keys, of set] by simp blast
  moreover have "is_current (?vs ! (n div 2))"
    if "n div 2 \<le> card {w \<in> shown_workspaces m. w > current_workspace m}"
      "n - n div 2 - 1 \<le> card {w \<in> shown_workspaces m. w < current_workspace m}"
  proof -
    have "card {w \<in> shown_workspaces m. w > current_workspace m} = p"
      "card {w \<in> shown_workspaces m. w < current_workspace m} = length ?ws - Suc p"
      using descending_above[OF desc(1) p(1)] p dist desc(2) by (simp_all add: distinct_card)
    then have "p - i = n div 2" using that p(1) mid by auto
    then show ?thesis using at(1) by (simp add: Let_def)
  qed
  ultimately show ?thesis by (auto simp: card)
qed

theorem visible_rows_window_witness:
  "current_workspace demo_map \<in> workspace ` set (visible_rows 2 demo_map) \<and>
   sorted_wrt (>) (map workspace (visible_rows 2 demo_map))"
proof -
  have "current_row demo_map \<noteq> None" by (simp add: current_row_def get_row_def demo_map_eval)
  then show ?thesis using visible_rows_window[OF reachable_demo_map, of 2] by simp
qed

section \<open>Adding sessions\<close>

lemma insert_right_of_focus_eq:
  assumes "insert_right_of_focus t r = (r', i)"
  shows "i \<le> length (sessions r)" "sessions r' = take i (sessions r) @ t # drop i (sessions r)"
    "focused_index r' = Some i" "focused_index r = Some k \<Longrightarrow> i = Suc k"
proof -
  have i: "i = (case focused_index r of Some idx \<Rightarrow> min (idx + 1) (length (sessions r)) | None \<Rightarrow> length (sessions r))"
    and r': "r' = r\<lparr>sessions := vec_insert i t (sessions r), last_focused := Some i\<rparr>"
    using assms by (auto simp: insert_right_of_focus_def Let_def)
  show le: "i \<le> length (sessions r)" by (auto simp: i split: option.splits)
  show "sessions r' = take i (sessions r) @ t # drop i (sessions r)" by (simp add: r' vec_insert_def)
  show "focused_index r' = Some i" using le by (simp add: r' focused_index_def length_vec_insert less_Suc_eq_le)
  show "i = Suc k" if "focused_index r = Some k" using that focused_index_bound[OF that] by (simp add: i)
qed

lemma move_focus_left_eq:
  assumes "focused_index r = Some (Suc k)"
  shows "snd (move_focus_left r)" "sessions (fst (move_focus_left r)) = sessions r"
    "focused_index (fst (move_focus_left r)) = Some k"
  using assms focused_index_bound[OF assms] by (auto simp: move_focus_left_def focused_index_def)

text \<open>
  Adding a session to the current workspace of any map inserts its tile into the current row
  right of the focused one, keeps the other tiles in order, focuses it, and leaves all other rows
  alone; when a session was focused before, moving left afterwards succeeds and returns to it.
\<close>

theorem add_session_right_of_focus:
  assumes "add_session_to_current_workspace t m = (m', (w, i))"
  shows "w = current_workspace m \<and> current_workspace m' = w \<and>
    current_focused_session_id m' = Some (session_id t) \<and>
    (\<exists>r. get_row w m' = Some r \<and> i < length (sessions r) \<and> sessions r ! i = t \<and>
       take i (sessions r) @ drop (Suc i) (sessions r) = sessions (hget_or row_default (rows m) w)) \<and>
    (\<forall>w'. w' \<noteq> w \<longrightarrow> get_row w' m' = get_row w' m) \<and>
    (\<forall>sid. current_focused_session_id m = Some sid \<longrightarrow>
       snd (move_left m') \<and> current_focused_session_id (fst (move_left m')) = Some sid)"
proof -
  let ?r = "hget_or row_default (rows m) (current_workspace m)"
  obtain r' j where r0: "insert_right_of_focus t ?r = (r', j)" by (cases "insert_right_of_focus t ?r")
  have w: "w = current_workspace m" and m': "m' = m\<lparr>rows := bput w r' (rows m)\<rparr>" and "i = j"
    using assms by (auto simp: add_session_to_current_workspace_def current_row_mut_def row_mut_def r0)
  then have r': "insert_right_of_focus t ?r = (r', i)" using r0 by simp
  note ins = insert_right_of_focus_eq[OF r']
  have row: "get_row w' m' = (if w' = w then Some r' else get_row w' m)" for w'
    by (simp add: m' get_row_def hget_bput)
  have cur: "current_workspace m' = w" by (simp add: m' w)
  have "current_focused_session_id m' = Some (session_id t)"
    using ins(1) by (simp add: current_focused_session_eq focused_session_eq cur row ins(2,3) nth_append)
  moreover have "i < length (sessions r')" "sessions r' ! i = t"
    "take i (sessions r') @ drop (Suc i) (sessions r') = sessions ?r"
    using ins(1) by (simp_all add: ins(2) nth_append)
  moreover have "snd (move_left m')" "current_focused_session_id (fst (move_left m')) = Some sid"
    if was: "current_focused_session_id m = Some sid" for sid
  proof -
    obtain k where k: "focused_index ?r = Some k" "session_id (sessions ?r ! k) = sid"
      using was unfolding current_focused_session_eq focused_session_eq bind_eq_Some_conv
      by (auto simp: hget_or_get_row)
    note left = move_focus_left_eq[of r' k]
    have foc: "focused_index r' = Some (Suc k)" using ins(3) ins(4)[OF k(1)] by simp
    have seen: "hget_or row_default (rows m') w = r'" using row[of w] by (simp add: hget_or_get_row)
    have "sessions r' ! k = sessions ?r ! k"
      using ins(1) ins(4)[OF k(1)] by (simp add: ins(2) nth_append)
    then show "snd (move_left m')" "current_focused_session_id (fst (move_left m')) = Some sid"
      using left[OF foc] k(2)
      unfolding move_left_def current_row_mut_def current_focused_session_eq focused_session_eq
      by (simp_all add: cur snd_row_mut seen get_row_mut)
  qed
  ultimately show ?thesis using row w cur by auto
qed

theorem add_session_right_of_focus_witness:
  "snd (move_left (fst (add_session_to_current_workspace (Tile_new ''ibis'') demo_map))) \<and>
   current_focused_session_id (fst (add_session_to_current_workspace (Tile_new ''ibis'') demo_map)) = Some ''ibis''"
proof -
  have "current_focused_session_id demo_map = Some ''bear''"
    by (simp add: current_focused_session_id_def current_row_def get_row_def demo_map_eval)
  moreover have "session_id (Tile_new ''ibis'') = ''ibis''" by (simp add: Tile_new_def)
  ultimately show ?thesis
    using add_session_right_of_focus[of "Tile_new ''ibis''" demo_map "fst (add_session_to_current_workspace (Tile_new ''ibis'') demo_map)"
      "fst (snd (add_session_to_current_workspace (Tile_new ''ibis'') demo_map))"
      "snd (snd (add_session_to_current_workspace (Tile_new ''ibis'') demo_map))"]
    by simp
qed

end
