(* ===== verification/Color_Support.thy ===== *)
theory Color_Support
  imports Rust_Prelude "HOL-Library.Monad_Syntax"
begin

text \<open>
  Terminal colours of \<^verbatim>\<open>gcode-tui-workspace/src/color_support.rs\<close>: detection of the colour
  capability and the mapping of 24-bit colours to the xterm palette.

  Integers are mathematical; every arithmetic operation whose result must fit a machine type goes
  through \<^verbatim>\<open>fit\<close> or \<^verbatim>\<open>sfit\<close>. The flag \<^verbatim>\<open>checks\<close> says whether the build has overflow checks: an
  overflow is then a panic, the value \<^term>\<open>None\<close>; without them it wraps around. The environment is
  the function \<^verbatim>\<open>env\<close> and \<^verbatim>\<open>lower\<close> is \<^verbatim>\<open>str::to_lowercase\<close>, whose Unicode tables are not modelled.
\<close>

section \<open>Checked arithmetic\<close>

definition fit :: "bool \<Rightarrow> nat \<Rightarrow> int \<Rightarrow> int option" where
  "fit checks w x =
     (if 0 \<le> x \<and> x < 2 ^ w then Some x else if checks then None else Some (x mod 2 ^ w))"

definition sfit :: "bool \<Rightarrow> nat \<Rightarrow> int \<Rightarrow> int option" where
  "sfit checks w x =
     (if - (2 ^ (w - 1)) \<le> x \<and> x < 2 ^ (w - 1) then Some x
      else if checks then None else Some ((x + 2 ^ (w - 1)) mod 2 ^ w - 2 ^ (w - 1)))"

section \<open>Capability\<close>

datatype capability = TrueColor | Color256

definition detect_color_capability :: "(string \<Rightarrow> string) \<Rightarrow> (string \<Rightarrow> string option) \<Rightarrow> capability" where
  "detect_color_capability lower env =
     (if (case env ''COLORTERM'' of None \<Rightarrow> False
          | Some val \<Rightarrow> lower val \<in> {''truecolor'', ''24bit''}) then TrueColor
      else if (case env ''TERM_PROGRAM'' of None \<Rightarrow> False
          | Some term_program \<Rightarrow> lower term_program \<in>
              {''ghostty'', ''iterm.app'', ''wezterm'', ''warp'', ''alacritty'', ''hyper''}) then TrueColor
      else if env ''GHOSTTY_RESOURCES_DIR'' \<noteq> None \<or> env ''GHOSTTY_BIN_DIR'' \<noteq> None
          \<or> env ''WEZTERM_EXECUTABLE'' \<noteq> None \<or> env ''WEZTERM_PANE'' \<noteq> None then TrueColor
      else case env ''TERM'' of
          None \<Rightarrow> Color256
        | Some term \<Rightarrow>
            let t = lower term in
            if str_contains ''kitty'' t \<or> str_contains ''ghostty'' t \<or> str_contains ''alacritty'' t
            then TrueColor
            else if str_contains ''256color'' t then Color256
            else Color256)"

text \<open>The capability is detected once: later calls see the first result.\<close>

definition color_capability :: "(string \<Rightarrow> string) \<Rightarrow> (string \<Rightarrow> string option) \<Rightarrow> capability option
    \<Rightarrow> capability option \<times> capability" where
  "color_capability lower env CAPABILITY =
     (case CAPABILITY of
        Some c \<Rightarrow> (CAPABILITY, c)
      | None \<Rightarrow> let c = detect_color_capability lower env in (Some c, c))"

section \<open>The palette\<close>

definition CUBE_VALUES :: "int list" where
  "CUBE_VALUES = [0, 95, 135, 175, 215, 255]"

text \<open>The loop over \<^verbatim>\<open>CUBE_VALUES.iter().enumerate()\<close> from index \<^verbatim>\<open>i\<close> on.\<close>

fun cube_scan :: "bool \<Rightarrow> int \<Rightarrow> int \<Rightarrow> int \<Rightarrow> int \<Rightarrow> int list \<Rightarrow> int option" where
  "cube_scan checks v i best best_dist [] = Some best"
| "cube_scan checks v i best best_dist (cv # cvs) =
     do { diff \<leftarrow> sfit checks 16 (v - cv);
          let d = \<bar>diff\<bar>;
          if d < best_dist then cube_scan checks v (i + 1) (i mod 2 ^ 8) d cvs
          else cube_scan checks v (i + 1) best best_dist cvs }"

definition nearest_cube_component :: "bool \<Rightarrow> int \<Rightarrow> int option" where
  "nearest_cube_component checks v = cube_scan checks v 0 0 255 CUBE_VALUES"

definition nearest_cube_index :: "bool \<Rightarrow> int \<Rightarrow> int \<Rightarrow> int \<Rightarrow> int option" where
  "nearest_cube_index checks r g b =
     do { ri \<leftarrow> nearest_cube_component checks r;
          gi \<leftarrow> nearest_cube_component checks g;
          bi \<leftarrow> nearest_cube_component checks b;
          x \<leftarrow> fit checks 16 (ri * 36);
          y \<leftarrow> fit checks 16 (gi * 6);
          z \<leftarrow> fit checks 16 (x + y);
          fit checks 16 (z + bi) }"

text \<open>An index beyond the array panics in every build.\<close>

definition cube_index_to_rgb :: "int \<Rightarrow> (int \<times> int \<times> int) option" where
  "cube_index_to_rgb idx =
     (let bi = nat (idx mod 6); gi = nat (idx div 6 mod 6); ri = nat (idx div 36) in
      if ri < length CUBE_VALUES
      then Some (CUBE_VALUES ! ri, CUBE_VALUES ! gi, CUBE_VALUES ! bi) else None)"

definition nearest_gray_index :: "bool \<Rightarrow> int \<Rightarrow> int option" where
  "nearest_gray_index checks v =
     (if v < 4 then Some 0
      else if v > 243 then Some 23
      else do { a \<leftarrow> fit checks 16 (v - 8);
                b \<leftarrow> fit checks 16 (a + 5);
                Some (min (b div 10) 23 mod 2 ^ 8) })"

definition gray_index_to_value :: "bool \<Rightarrow> int \<Rightarrow> int option" where
  "gray_index_to_value checks idx = do { a \<leftarrow> fit checks 8 (idx * 10); fit checks 8 (8 + a) }"

text \<open>One term \<^verbatim>\<open>k * d * d\<close> of the distance.\<close>

definition weighted_square :: "bool \<Rightarrow> int \<Rightarrow> int \<Rightarrow> int option" where
  "weighted_square checks k d = do { a \<leftarrow> sfit checks 32 (k * d); sfit checks 32 (a * d) }"

definition color_distance :: "bool \<Rightarrow> int \<times> int \<times> int \<Rightarrow> int \<times> int \<times> int \<Rightarrow> int option" where
  "color_distance checks c1 c2 =
     (case (c1, c2) of ((r1, g1, b1), (r2, g2, b2)) \<Rightarrow>
       do { dr \<leftarrow> sfit checks 32 (r1 - r2);
            dg \<leftarrow> sfit checks 32 (g1 - g2);
            db \<leftarrow> sfit checks 32 (b1 - b2);
            x \<leftarrow> weighted_square checks 2 dr;
            y \<leftarrow> weighted_square checks 4 dg;
            xy \<leftarrow> sfit checks 32 (x + y);
            z \<leftarrow> weighted_square checks 3 db;
            s \<leftarrow> sfit checks 32 (xy + z);
            Some (s mod 2 ^ 32) })"

definition channel_close :: "bool \<Rightarrow> int \<Rightarrow> int \<Rightarrow> bool option" where
  "channel_close checks x y = do { d \<leftarrow> sfit checks 16 (x - y); Some (\<bar>d\<bar> < 15) }"

definition is_grayish :: "bool \<Rightarrow> int \<Rightarrow> int \<Rightarrow> int \<Rightarrow> bool option" where
  "is_grayish checks r g b =
     do { rg \<leftarrow> channel_close checks r g;
          if \<not> rg then Some False
          else do { gb \<leftarrow> channel_close checks g b;
                    if \<not> gb then Some False else channel_close checks r b } }"

definition rgb_to_xterm256 :: "bool \<Rightarrow> int \<Rightarrow> int \<Rightarrow> int \<Rightarrow> int option" where
  "rgb_to_xterm256 checks r g b =
     do { rg \<leftarrow> fit checks 16 (r + g);
          rgb \<leftarrow> fit checks 16 (rg + b);
          let gray_avg = rgb div 3;
          grayish \<leftarrow> is_grayish checks r g b;
          cube_idx \<leftarrow> nearest_cube_index checks r g b;
          cube_color \<leftarrow> cube_index_to_rgb cube_idx;
          cube_dist \<leftarrow> color_distance checks (r, g, b) cube_color;
          let cube_result = fit checks 8 (cube_idx mod 2 ^ 8 + 16);
          if grayish then
            do { gray_idx \<leftarrow> nearest_gray_index checks (gray_avg mod 2 ^ 8);
                 gray_val \<leftarrow> gray_index_to_value checks gray_idx;
                 gray_dist \<leftarrow> color_distance checks (r, g, b) (gray_val, gray_val, gray_val);
                 if gray_dist < cube_dist then fit checks 8 (232 + gray_idx) else cube_result }
          else cube_result }"

datatype color = Rgb int int int | Indexed int

definition rgb :: "bool \<Rightarrow> capability \<Rightarrow> int \<Rightarrow> int \<Rightarrow> int \<Rightarrow> color option" where
  "rgb checks cap r g b =
     (if cap = TrueColor then Some (Rgb r g b) else map_option Indexed (rgb_to_xterm256 checks r g b))"

definition indexed_to_rgb :: "bool \<Rightarrow> int \<Rightarrow> (int \<times> int \<times> int) option" where
  "indexed_to_rgb checks idx =
     (if idx \<ge> 232 then do { i \<leftarrow> fit checks 8 (idx - 232); v \<leftarrow> gray_index_to_value checks i; Some (v, v, v) }
      else if idx \<ge> 16 then do { i \<leftarrow> fit checks 8 (idx - 16); cube_index_to_rgb i }
      else if idx = 0 then Some (0, 0, 0)
      else if idx = 1 then Some (128, 0, 0)
      else if idx = 2 then Some (0, 128, 0)
      else if idx = 3 then Some (128, 128, 0)
      else if idx = 4 then Some (0, 0, 128)
      else if idx = 5 then Some (128, 0, 128)
      else if idx = 6 then Some (0, 128, 128)
      else if idx = 7 then Some (192, 192, 192)
      else if idx = 8 then Some (128, 128, 128)
      else if idx = 9 then Some (255, 0, 0)
      else if idx = 10 then Some (0, 255, 0)
      else if idx = 11 then Some (255, 255, 0)
      else if idx = 12 then Some (0, 0, 255)
      else if idx = 13 then Some (255, 0, 255)
      else if idx = 14 then Some (0, 255, 255)
      else Some (255, 255, 255))"

section \<open>Arithmetic on channels\<close>

definition is_u8 :: "int \<Rightarrow> bool" where
  "is_u8 x \<longleftrightarrow> 0 \<le> x \<and> x < 256"

lemma fit_id: "0 \<le> x \<Longrightarrow> x < 2 ^ w \<Longrightarrow> fit checks w x = Some x"
  by (simp add: fit_def)

lemma sfit_id: "- (2 ^ (w - 1)) \<le> x \<Longrightarrow> x < 2 ^ (w - 1) \<Longrightarrow> sfit checks w x = Some x"
  by (simp add: sfit_def)

lemma sfit_nonneg: "0 \<le> x \<Longrightarrow> x < 2 ^ (w - 1) \<Longrightarrow> sfit checks w x = Some x"
  by (rule sfit_id) (auto intro: order_trans[of _ 0])

text \<open>The distance without machine arithmetic.\<close>

definition dist :: "int \<times> int \<times> int \<Rightarrow> int \<times> int \<times> int \<Rightarrow> int" where
  "dist c1 c2 = (case (c1, c2) of ((r1, g1, b1), (r2, g2, b2)) \<Rightarrow>
     2 * (r1 - r2)\<^sup>2 + 4 * (g1 - g2)\<^sup>2 + 3 * (b1 - b2)\<^sup>2)"

definition color_u8 :: "int \<times> int \<times> int \<Rightarrow> bool" where
  "color_u8 c \<longleftrightarrow> (case c of (r, g, b) \<Rightarrow> is_u8 r \<and> is_u8 g \<and> is_u8 b)"

lemma square_bound: "\<bar>d\<bar> < 256 \<Longrightarrow> d * d < (65536::int)"
  using abs_mult_less[of d 256 d 256] by (simp add: abs_mult)

lemma weighted_square_eq:
  assumes "\<bar>d\<bar> < 256" "0 \<le> k" "k \<le> 4"
  shows "weighted_square checks k d = Some (k * d\<^sup>2)"
proof -
  have "0 \<le> d * d" "d * d < 65536" using square_bound[OF assms(1)] by simp_all
  then have "0 \<le> k * (d * d)" "k * (d * d) \<le> 4 * (d * d)" using assms(2,3) by (simp_all add: mult_right_mono)
  then have kd: "0 \<le> k * d * d" "k * d * d < 262144" using \<open>d * d < 65536\<close> by (simp_all add: mult.assoc)
  have "\<bar>k * d\<bar> \<le> 4 * 256" using mult_mono[of k 4 "\<bar>d\<bar>" 256] assms by (simp add: abs_mult)
  then have "sfit checks 32 (k * d) = Some (k * d)" by (intro sfit_id) auto
  moreover have "sfit checks 32 (k * d * d) = Some (k * d * d)" using kd by (intro sfit_id) auto
  ultimately show ?thesis by (simp add: weighted_square_def power2_eq_square mult.assoc)
qed

lemma color_distance_eq:
  assumes "color_u8 c1" "color_u8 c2"
  shows "color_distance checks c1 c2 = Some (dist c1 c2)"
proof -
  obtain r1 g1 b1 r2 g2 b2 where c: "c1 = (r1, g1, b1)" "c2 = (r2, g2, b2)" by (metis prod_cases3)
  have b: "\<bar>r1 - r2\<bar> < 256" "\<bar>g1 - g2\<bar> < 256" "\<bar>b1 - b2\<bar> < 256"
    using assms by (auto simp: color_u8_def is_u8_def c)
  then have s: "(r1 - r2)\<^sup>2 < 65536" "(g1 - g2)\<^sup>2 < 65536" "(b1 - b2)\<^sup>2 < 65536"
    using square_bound by (simp_all add: power2_eq_square)
  have "sfit checks 32 (r1 - r2) = Some (r1 - r2)" "sfit checks 32 (g1 - g2) = Some (g1 - g2)"
    "sfit checks 32 (b1 - b2) = Some (b1 - b2)" using b by (auto intro!: sfit_id)
  moreover have "sfit checks 32 (2 * (r1 - r2)\<^sup>2 + 4 * (g1 - g2)\<^sup>2) = Some (2 * (r1 - r2)\<^sup>2 + 4 * (g1 - g2)\<^sup>2)"
    using s by (intro sfit_nonneg) auto
  moreover have "sfit checks 32 (dist c1 c2) = Some (dist c1 c2)" "dist c1 c2 mod 2 ^ 32 = dist c1 c2"
    using s by (auto simp: dist_def c intro!: sfit_nonneg)
  ultimately show ?thesis using weighted_square_eq[OF b(1)] weighted_square_eq[OF b(2)] weighted_square_eq[OF b(3)]
    by (simp add: color_distance_def c dist_def)
qed

section \<open>Nearest palette entries\<close>

text \<open>The scan finds the first entry closer than the best so far, and the closest of them.\<close>

lemma cube_scan_least:
  assumes "is_u8 v" "\<forall>cv\<in>set cvs. is_u8 cv" "0 \<le> i" "i + int (length cvs) \<le> 256"
  shows "cube_scan checks v i best bd cvs = Some best \<and> (\<forall>cv\<in>set cvs. bd \<le> \<bar>v - cv\<bar>) \<or>
    (\<exists>j < length cvs. cube_scan checks v i best bd cvs = Some (i + int j) \<and> \<bar>v - cvs ! j\<bar> < bd \<and>
       (\<forall>cv\<in>set cvs. \<bar>v - cvs ! j\<bar> \<le> \<bar>v - cv\<bar>))"
  using assms
proof (induction cvs arbitrary: i best bd)
  case (Cons cv cvs)
  have step: "sfit checks 16 (v - cv) = Some (v - cv)"
    using Cons.prems(1,2) by (intro sfit_id) (auto simp: is_u8_def)
  have i: "i mod 256 = i" using Cons.prems(3,4) by simp
  have IH: "cube_scan checks v (i + 1) best bd cvs = Some best \<and> (\<forall>cv\<in>set cvs. bd \<le> \<bar>v - cv\<bar>) \<or>
    (\<exists>j < length cvs. cube_scan checks v (i + 1) best bd cvs = Some (i + 1 + int j) \<and> \<bar>v - cvs ! j\<bar> < bd \<and>
       (\<forall>cv\<in>set cvs. \<bar>v - cvs ! j\<bar> \<le> \<bar>v - cv\<bar>))" for best bd
    using Cons.prems by (intro Cons.IH) auto
  show ?case
  proof (cases "\<bar>v - cv\<bar> < bd")
    case True
    then have eq: "cube_scan checks v i best bd (cv # cvs) = cube_scan checks v (i + 1) i \<bar>v - cv\<bar> cvs"
      by (simp add: step i)
    from IH[of i "\<bar>v - cv\<bar>"] show ?thesis
    proof
      assume "cube_scan checks v (i + 1) i \<bar>v - cv\<bar> cvs = Some i \<and> (\<forall>cv'\<in>set cvs. \<bar>v - cv\<bar> \<le> \<bar>v - cv'\<bar>)"
      then show ?thesis using True unfolding eq by (intro disjI2 exI[of _ 0]) auto
    next
      assume "\<exists>j < length cvs. cube_scan checks v (i + 1) i \<bar>v - cv\<bar> cvs = Some (i + 1 + int j) \<and>
        \<bar>v - cvs ! j\<bar> < \<bar>v - cv\<bar> \<and> (\<forall>cv\<in>set cvs. \<bar>v - cvs ! j\<bar> \<le> \<bar>v - cv\<bar>)"
      then obtain j where j: "j < length cvs" "cube_scan checks v (i + 1) i \<bar>v - cv\<bar> cvs = Some (i + 1 + int j)"
        "\<bar>v - cvs ! j\<bar> < \<bar>v - cv\<bar>" "\<forall>cv\<in>set cvs. \<bar>v - cvs ! j\<bar> \<le> \<bar>v - cv\<bar>" by blast
      show ?thesis using True j unfolding eq by (intro disjI2 exI[of _ "Suc j"]) auto
    qed
  next
    case False
    then have eq: "cube_scan checks v i best bd (cv # cvs) = cube_scan checks v (i + 1) best bd cvs"
      by (simp add: step)
    from IH[of best bd] show ?thesis
    proof
      assume "cube_scan checks v (i + 1) best bd cvs = Some best \<and> (\<forall>cv\<in>set cvs. bd \<le> \<bar>v - cv\<bar>)"
      then show ?thesis using False unfolding eq by auto
    next
      assume "\<exists>j < length cvs. cube_scan checks v (i + 1) best bd cvs = Some (i + 1 + int j) \<and>
        \<bar>v - cvs ! j\<bar> < bd \<and> (\<forall>cv\<in>set cvs. \<bar>v - cvs ! j\<bar> \<le> \<bar>v - cv\<bar>)"
      then obtain j where j: "j < length cvs" "cube_scan checks v (i + 1) best bd cvs = Some (i + 1 + int j)"
        "\<bar>v - cvs ! j\<bar> < bd" "\<forall>cv\<in>set cvs. \<bar>v - cvs ! j\<bar> \<le> \<bar>v - cv\<bar>" by blast
      show ?thesis using False j unfolding eq by (intro disjI2 exI[of _ "Suc j"]) auto
    qed
  qed
qed simp

lemma CUBE_VALUES_u8: "cv \<in> set CUBE_VALUES \<Longrightarrow> is_u8 cv"
  by (auto simp: CUBE_VALUES_def is_u8_def)

lemma length_CUBE_VALUES [simp]: "length CUBE_VALUES = 6"
  by (simp add: CUBE_VALUES_def)

lemma cube_scan_checks:
  "is_u8 v \<Longrightarrow> \<forall>cv\<in>set cvs. is_u8 cv \<Longrightarrow> cube_scan checks v i best bd cvs = cube_scan False v i best bd cvs"
  by (induction cvs arbitrary: i best bd) (auto simp: is_u8_def sfit_id Let_def)

lemma nearest_cube_component_least:
  assumes "is_u8 v"
  obtains k where "k < 6" "\<forall>checks. nearest_cube_component checks v = Some (int k)"
    "\<forall>cv\<in>set CUBE_VALUES. \<bar>v - CUBE_VALUES ! k\<bar> \<le> \<bar>v - cv\<bar>"
proof -
  have "\<not> (\<forall>cv\<in>set CUBE_VALUES. 255 \<le> \<bar>v - cv\<bar>)" using assms by (auto simp: CUBE_VALUES_def is_u8_def)
  then obtain k where "k < 6" "nearest_cube_component False v = Some (int k)"
    "\<forall>cv\<in>set CUBE_VALUES. \<bar>v - CUBE_VALUES ! k\<bar> \<le> \<bar>v - cv\<bar>"
    using cube_scan_least[of v CUBE_VALUES 0 False 0 255] assms CUBE_VALUES_u8
    by (auto simp: nearest_cube_component_def)
  moreover have "nearest_cube_component checks v = nearest_cube_component False v" for checks
    unfolding nearest_cube_component_def using assms CUBE_VALUES_u8 by (intro cube_scan_checks) auto
  ultimately show thesis using that by metis
qed

text \<open>The palette: the colour cube and the grey ramp.\<close>

definition cube_color :: "int \<times> int \<times> int \<Rightarrow> bool" where
  "cube_color c \<longleftrightarrow> (case c of (x, y, z) \<Rightarrow> x \<in> set CUBE_VALUES \<and> y \<in> set CUBE_VALUES \<and> z \<in> set CUBE_VALUES)"

lemma cube_color_u8: "cube_color c \<Longrightarrow> color_u8 c"
  by (auto simp: cube_color_def color_u8_def CUBE_VALUES_u8 split: prod.splits)

lemma dist_mono:
  assumes "\<bar>r - x\<bar> \<le> \<bar>r - x'\<bar>" "\<bar>g - y\<bar> \<le> \<bar>g - y'\<bar>" "\<bar>b - z\<bar> \<le> \<bar>b - z'\<bar>"
  shows "dist (r, g, b) (x, y, z) \<le> dist (r, g, b) (x', y', z')"
  using assms by (auto simp: dist_def abs_le_square_iff intro!: add_mono mult_left_mono)

lemma nearest_cube_index_least:
  assumes "color_u8 (r, g, b)"
  obtains idx c where "0 \<le> idx" "idx < 216" "\<forall>checks. nearest_cube_index checks r g b = Some idx"
    "cube_index_to_rgb idx = Some c" "cube_color c"
    "\<forall>c'. cube_color c' \<longrightarrow> dist (r, g, b) c \<le> dist (r, g, b) c'"
proof -
  obtain i where i: "i < 6" "\<forall>checks. nearest_cube_component checks r = Some (int i)"
    "\<forall>cv\<in>set CUBE_VALUES. \<bar>r - CUBE_VALUES ! i\<bar> \<le> \<bar>r - cv\<bar>"
    by (rule nearest_cube_component_least[of r]) (use assms in \<open>auto simp: color_u8_def\<close>)
  obtain j where j: "j < 6" "\<forall>checks. nearest_cube_component checks g = Some (int j)"
    "\<forall>cv\<in>set CUBE_VALUES. \<bar>g - CUBE_VALUES ! j\<bar> \<le> \<bar>g - cv\<bar>"
    by (rule nearest_cube_component_least[of g]) (use assms in \<open>auto simp: color_u8_def\<close>)
  obtain k where k: "k < 6" "\<forall>checks. nearest_cube_component checks b = Some (int k)"
    "\<forall>cv\<in>set CUBE_VALUES. \<bar>b - CUBE_VALUES ! k\<bar> \<le> \<bar>b - cv\<bar>"
    by (rule nearest_cube_component_least[of b]) (use assms in \<open>auto simp: color_u8_def\<close>)
  let ?idx = "int i * 36 + int j * 6 + int k"
  have idx: "\<forall>checks. nearest_cube_index checks r g b = Some ?idx" "0 \<le> ?idx" "?idx < 216"
    using i(1) j(1) k(1) by (simp_all add: nearest_cube_index_def i(2) j(2) k(2) fit_id)
  have "?idx = int k + 6 * (int j + 6 * int i)" by simp
  then have "?idx mod 6 = int k" "?idx div 6 = int j + 6 * int i"
    using k(1) by (simp_all only: mod_mult_self2 div_mult_self2) simp_all
  moreover from this(2) have "?idx div 6 mod 6 = int j" using j(1) by simp
  moreover have "?idx div 36 = int i" using i(1) j(1) k(1) by simp
  ultimately have rgb: "cube_index_to_rgb ?idx = Some (CUBE_VALUES ! i, CUBE_VALUES ! j, CUBE_VALUES ! k)"
    using i(1) by (simp add: cube_index_to_rgb_def)
  have "dist (r, g, b) (CUBE_VALUES ! i, CUBE_VALUES ! j, CUBE_VALUES ! k) \<le> dist (r, g, b) c'"
    if "cube_color c'" for c'
    using that i(3) j(3) k(3) by (cases c') (auto simp: cube_color_def intro!: dist_mono)
  then show thesis using that[OF idx(2,3,1) rgb] i(1) j(1) k(1) by (simp add: cube_color_def)
qed

text \<open>The subtraction of the grey rounding is the only operation that can overflow.\<close>

lemma nearest_gray_index_eq:
  assumes "is_u8 v"
  shows "nearest_gray_index False v = Some (if v < 4 then 0 else min ((v - 3) div 10) 23)"
    "nearest_gray_index True v = (if 4 \<le> v \<and> v < 8 then None else nearest_gray_index False v)"
proof -
  show "nearest_gray_index False v = Some (if v < 4 then 0 else min ((v - 3) div 10) 23)"
  proof (cases "v < 8")
    case True
    then consider "v < 4" | "v = 4" | "v = 5" | "v = 6" | "v = 7" by linarith
    then show ?thesis by cases (simp_all add: nearest_gray_index_def fit_def)
  next
    case False
    then show ?thesis using assms by (auto simp: nearest_gray_index_def fit_def is_u8_def)
  qed
  show "nearest_gray_index True v = (if 4 \<le> v \<and> v < 8 then None else nearest_gray_index False v)"
    using assms by (auto simp: nearest_gray_index_def fit_def is_u8_def)
qed

lemma nearest_gray_index_least:
  assumes "is_u8 v" "0 \<le> j" "j \<le> 23"
  shows "\<bar>v - (8 + 10 * (if v < 4 then 0 else min ((v - 3) div 10) 23))\<bar> \<le> \<bar>v - (8 + 10 * j)\<bar>"
proof -
  define q where "q = (v - 3) div 10"
  have q: "10 * q \<le> v - 3" "v - 3 < 10 * q + 10" by (simp_all add: q_def)
  consider "v < 4" | "\<not> v < 4" "q \<le> 23" "j < q" | "\<not> v < 4" "q \<le> 23" "j = q" | "\<not> v < 4" "q \<le> 23" "q < j" | "\<not> v < 4" "23 < q"
    by linarith
  then show ?thesis unfolding q_def[symmetric] using q assms by cases auto
qed

definition gray_color :: "int \<Rightarrow> int \<times> int \<times> int" where
  "gray_color i = (let v = 8 + 10 * i in (v, v, v))"

lemma gray_index_to_value_eq: "0 \<le> i \<Longrightarrow> i \<le> 23 \<Longrightarrow> gray_index_to_value checks i = Some (8 + 10 * i)"
  by (simp add: gray_index_to_value_def fit_id)

lemma gray_color_u8: "0 \<le> i \<Longrightarrow> i \<le> 23 \<Longrightarrow> color_u8 (gray_color i)"
  by (simp add: gray_color_def color_u8_def is_u8_def Let_def)

lemma is_grayish_eq:
  assumes "color_u8 (r, g, b)"
  shows "is_grayish checks r g b = Some (\<bar>r - g\<bar> < 15 \<and> \<bar>g - b\<bar> < 15 \<and> \<bar>r - b\<bar> < 15)"
proof -
  have "channel_close checks x y = Some (\<bar>x - y\<bar> < 15)" if "is_u8 x" "is_u8 y" for x y
    using that by (auto simp: channel_close_def is_u8_def sfit_id)
  then show ?thesis using assms by (auto simp: is_grayish_def color_u8_def)
qed

text \<open>The colours for which the grey rounding underflows.\<close>

definition underflows :: "int \<Rightarrow> int \<Rightarrow> int \<Rightarrow> bool" where
  "underflows r g b \<longleftrightarrow> \<bar>r - g\<bar> < 15 \<and> \<bar>g - b\<bar> < 15 \<and> \<bar>r - b\<bar> < 15 \<and>
     4 \<le> (r + g + b) div 3 \<and> (r + g + b) div 3 < 8"

text \<open>The mapping with the machine arithmetic evaluated.\<close>

lemma rgb_to_xterm256_eq:
  assumes u8: "color_u8 (r, g, b)"
    and idx: "nearest_cube_index checks r g b = Some idx" "0 \<le> idx" "idx < 216"
    and c: "cube_index_to_rgb idx = Some c" "cube_color c"
  defines "gi \<equiv> (let v = (r + g + b) div 3 in if v < 4 then 0 else min ((v - 3) div 10) 23)"
  shows "rgb_to_xterm256 checks r g b =
    (if checks \<and> underflows r g b then None
     else if \<bar>r - g\<bar> < 15 \<and> \<bar>g - b\<bar> < 15 \<and> \<bar>r - b\<bar> < 15 \<and>
       dist (r, g, b) (gray_color gi) < dist (r, g, b) c then Some (232 + gi)
     else Some (idx + 16))" "0 \<le> gi" "gi \<le> 23"
proof -
  have avg: "is_u8 ((r + g + b) div 3)" "(r + g + b) div 3 mod 256 = (r + g + b) div 3"
    using u8 by (auto simp: color_u8_def is_u8_def)
  have sum: "fit checks 16 (r + g) = Some (r + g)" "fit checks 16 (r + g + b) = Some (r + g + b)"
    using u8 by (auto simp: color_u8_def is_u8_def intro!: fit_id)
  show gi: "0 \<le> gi" "gi \<le> 23" by (auto simp: gi_def Let_def)
  define low where "low \<longleftrightarrow> checks \<and> 4 \<le> (r + g + b) div 3 \<and> (r + g + b) div 3 < 8"
  have gray: "nearest_gray_index checks ((r + g + b) div 3) = (if low then None else Some gi)"
    using nearest_gray_index_eq[OF avg(1)] by (cases checks) (auto simp: gi_def Let_def low_def)
  have under: "checks \<and> underflows r g b \<longleftrightarrow> low \<and> \<bar>r - g\<bar> < 15 \<and> \<bar>g - b\<bar> < 15 \<and> \<bar>r - b\<bar> < 15"
    by (auto simp: low_def underflows_def)
  have cd: "color_distance checks (r, g, b) c = Some (dist (r, g, b) c)"
    by (rule color_distance_eq[OF u8 cube_color_u8[OF c(2)]])
  have gd: "color_distance checks (r, g, b) (8 + 10 * gi, 8 + 10 * gi, 8 + 10 * gi) = Some (dist (r, g, b) (gray_color gi))"
    using color_distance_eq[OF u8 gray_color_u8[OF gi]] by (simp add: gray_color_def Let_def)
  have res: "fit checks 8 (idx mod 256 + 16) = Some (idx + 16)" "fit checks 8 (232 + gi) = Some (232 + gi)"
    using idx gi by (auto intro!: fit_id)
  show "rgb_to_xterm256 checks r g b =
    (if checks \<and> underflows r g b then None
     else if \<bar>r - g\<bar> < 15 \<and> \<bar>g - b\<bar> < 15 \<and> \<bar>r - b\<bar> < 15 \<and>
       dist (r, g, b) (gray_color gi) < dist (r, g, b) c then Some (232 + gi)
     else Some (idx + 16))"
    unfolding under by (simp add: rgb_to_xterm256_def sum is_grayish_eq[OF u8] idx c avg(2) gray cd gd res Let_def
      gray_index_to_value_eq[OF gi])
qed

lemma indexed_to_rgb_cube: "0 \<le> i \<Longrightarrow> i < 216 \<Longrightarrow> indexed_to_rgb checks (i + 16) = cube_index_to_rgb i"
  by (simp add: indexed_to_rgb_def fit_id)

lemma indexed_to_rgb_gray: "0 \<le> i \<Longrightarrow> i \<le> 23 \<Longrightarrow> indexed_to_rgb checks (232 + i) = Some (gray_color i)"
  by (simp add: indexed_to_rgb_def fit_id gray_index_to_value_eq gray_color_def Let_def)

lemma nat_mod_6: "nat (x mod 6) < 6"
  using pos_mod_bound[of 6 x] by (simp add: nat_less_iff)

lemma cube_index_digits:
  assumes "0 \<le> i" "i < 216"
  shows "nat (i div 36) < 6" "nat (i div 6 mod 6) < 6" "nat (i mod 6) < 6"
    "cube_index_to_rgb i = Some (CUBE_VALUES ! nat (i div 36), CUBE_VALUES ! nat (i div 6 mod 6), CUBE_VALUES ! nat (i mod 6))"
proof -
  have "i div 36 \<le> 215 div 36" by (rule zdiv_mono1) (use assms(2) in auto)
  then show less: "nat (i div 36) < 6" by simp
  show "nat (i div 6 mod 6) < 6" "nat (i mod 6) < 6" by (rule nat_mod_6)+
  show "cube_index_to_rgb i = Some (CUBE_VALUES ! nat (i div 36), CUBE_VALUES ! nat (i div 6 mod 6), CUBE_VALUES ! nat (i mod 6))"
    unfolding cube_index_to_rgb_def Let_def length_CUBE_VALUES by (simp only: less if_True)
qed

lemma cube_index_color:
  assumes "0 \<le> i" "i < 216" "cube_index_to_rgb i = Some c"
  shows "cube_color c"
proof -
  have "CUBE_VALUES ! j \<in> set CUBE_VALUES" if "j < 6" for j using that by simp
  note mem = this[OF cube_index_digits(1)[OF assms(1,2)]] this[OF cube_index_digits(2)[OF assms(1,2)]]
    this[OF cube_index_digits(3)[OF assms(1,2)]]
  have "c = (CUBE_VALUES ! nat (i div 36), CUBE_VALUES ! nat (i div 6 mod 6), CUBE_VALUES ! nat (i mod 6))"
    using assms(3) unfolding cube_index_digits(4)[OF assms(1,2)] by (simp only: option.inject)
  then show ?thesis unfolding cube_color_def using mem by (simp only: prod.case simp_thms)
qed

section \<open>Properties\<close>

text \<open>
  C40: For every 24-bit colour, a build without overflow checks picks a palette index from 16 to 255
  whose colour is at least as close to the given one, in the weighted distance, as every colour of
  the 6x6x6 cube, and for a pure grey also as every colour of the grey ramp. A build with overflow
  checks picks the same index, except that it panics exactly for the near-greys whose average lies
  between 4 and 7.
\<close>

theorem xterm256_nearest:
  assumes "color_u8 (r, g, b)"
  shows "\<exists>i c. rgb_to_xterm256 False r g b = Some i \<and> 16 \<le> i \<and> i \<le> 255 \<and> indexed_to_rgb False i = Some c \<and>
    (\<forall>j c'. 16 \<le> j \<and> j \<le> 231 \<and> indexed_to_rgb False j = Some c' \<longrightarrow> dist (r, g, b) c \<le> dist (r, g, b) c') \<and>
    (r = g \<and> g = b \<longrightarrow> (\<forall>j c'. 232 \<le> j \<and> j \<le> 255 \<and> indexed_to_rgb False j = Some c' \<longrightarrow>
       dist (r, g, b) c \<le> dist (r, g, b) c')) \<and>
    rgb_to_xterm256 True r g b = (if underflows r g b then None else Some i)"
proof -
  obtain idx c where idx: "0 \<le> idx" "idx < 216" "\<forall>checks. nearest_cube_index checks r g b = Some idx"
    and c: "cube_index_to_rgb idx = Some c" "cube_color c" "\<forall>c'. cube_color c' \<longrightarrow> dist (r, g, b) c \<le> dist (r, g, b) c'"
    by (rule nearest_cube_index_least[OF assms])
  define gi where "gi = (let v = (r + g + b) div 3 in if v < 4 then 0 else min ((v - 3) div 10) 23)"
  note eq = rgb_to_xterm256_eq[OF assms spec[OF idx(3)] idx(1,2) c(1,2), folded gi_def]
  define gray where "gray \<longleftrightarrow> \<bar>r - g\<bar> < 15 \<and> \<bar>g - b\<bar> < 15 \<and> \<bar>r - b\<bar> < 15 \<and>
    dist (r, g, b) (gray_color gi) < dist (r, g, b) c"
  let ?i = "if gray then 232 + gi else idx + 16" and ?c = "if gray then gray_color gi else c"
  have "rgb_to_xterm256 False r g b = Some ?i" "rgb_to_xterm256 True r g b = (if underflows r g b then None else Some ?i)"
    by (simp_all add: eq(1) gray_def)
  moreover have "indexed_to_rgb False ?i = Some ?c"
    using indexed_to_rgb_cube[OF idx(1,2)] indexed_to_rgb_gray[OF eq(2,3)] c(1) by simp
  moreover have "dist (r, g, b) ?c \<le> dist (r, g, b) c'"
    if "16 \<le> j" "j \<le> 231" "indexed_to_rgb False j = Some c'" for j c'
  proof -
    have "cube_color c'" using that indexed_to_rgb_cube[of "j - 16" False] cube_index_color[of "j - 16" c'] by simp
    then have "dist (r, g, b) c \<le> dist (r, g, b) c'" by (rule c(3)[rule_format])
    then show ?thesis by (auto simp: gray_def)
  qed
  moreover have "dist (r, g, b) ?c \<le> dist (r, g, b) c'"
    if "r = g \<and> g = b" "232 \<le> j" "j \<le> 255" "indexed_to_rgb False j = Some c'" for j c'
  proof -
    have c': "c' = gray_color (j - 232)" using that indexed_to_rgb_gray[of "j - 232" False] by simp
    have "dist (r, g, b) (gray_color gi) \<le> dist (r, g, b) c'"
    proof -
      have "(r + g + b) div 3 = r" using that(1) by simp
      then have "\<bar>r - (8 + 10 * gi)\<bar> \<le> \<bar>r - (8 + 10 * (j - 232))\<bar>"
        unfolding gi_def Let_def
        by (simp only:) (rule nearest_gray_index_least, use that assms in \<open>auto simp: color_u8_def\<close>)
      then show ?thesis using that(1) by (simp add: c' gray_color_def Let_def dist_mono)
    qed
    then show ?thesis using that(1) by (auto simp: gray_def)
  qed
  ultimately show ?thesis using idx(1,2) eq(2,3) by (intro exI[of _ ?i] exI[of _ ?c]) auto
qed

theorem xterm256_nearest_witness:
  "\<exists>i. rgb_to_xterm256 False 5 5 5 = Some i \<and> rgb_to_xterm256 True 5 5 5 = None"
proof -
  have "color_u8 (5, 5, 5)" "underflows 5 5 5" by (simp_all add: color_u8_def is_u8_def underflows_def)
  then show ?thesis using xterm256_nearest[of 5 5 5] by auto
qed

lemma dist_self [simp]: "dist c c = 0"
  by (simp add: dist_def split: prod.splits)

lemma dist_pos: "c \<noteq> c' \<Longrightarrow> 0 < dist c c'"
  by (cases c; cases c') (auto simp: dist_def add_pos_nonneg add_nonneg_pos)

lemma CUBE_VALUES_inject: "i < 6 \<Longrightarrow> j < 6 \<Longrightarrow> CUBE_VALUES ! i = CUBE_VALUES ! j \<longleftrightarrow> i = j"
  by (intro nth_eq_iff_index_eq) (simp_all add: CUBE_VALUES_def)

lemma cube_index_inject:
  assumes "0 \<le> i" "i < 216" "0 \<le> j" "j < 216" "cube_index_to_rgb i = cube_index_to_rgb j"
  shows "i = j"
proof -
  have digits: "p * 6 + m = x \<Longrightarrow> q * 6 + n = p \<Longrightarrow> x = 36 * q + 6 * n + m" for x p q m n :: int by simp
  have split: "x = 36 * (x div 36) + 6 * (x div 6 mod 6) + x mod 6" for x :: int
    using digits[OF div_mult_mod_eq div_mult_mod_eq] zdiv_zmult2_eq[of 6 x 6] by simp
  note di = cube_index_digits[OF assms(1,2)] and dj = cube_index_digits[OF assms(3,4)]
  have "nat (i div 36) = nat (j div 36)" "nat (i div 6 mod 6) = nat (j div 6 mod 6)" "nat (i mod 6) = nat (j mod 6)"
    using assms(5) unfolding di(4) dj(4) option.inject prod.inject
    by (simp_all only: CUBE_VALUES_inject di(1-3) dj(1-3))
  moreover have "0 \<le> i div 36" "0 \<le> j div 36" using assms(1,3) by (simp_all add: pos_imp_zdiv_nonneg_iff)
  moreover have "0 \<le> x mod 6" for x :: int by simp
  ultimately have same: "i div 36 = j div 36" "i div 6 mod 6 = j div 6 mod 6" "i mod 6 = j mod 6"
    by (blast intro: eq_nat_nat_iff[THEN iffD1])+
  show ?thesis by (rule trans[OF split[of i, unfolded same] split[of j, symmetric]])
qed

lemma cube_not_low: "cube_color (r, g, b) \<Longrightarrow> \<not> underflows r g b"
proof
  assume cube: "cube_color (r, g, b)" and low: "underflows r g b"
  have "x = 0 \<or> 95 \<le> x" if "x \<in> set CUBE_VALUES" for x using that by (auto simp: CUBE_VALUES_def)
  then have "r = 0 \<or> 95 \<le> r" "g = 0 \<or> 95 \<le> g" "b = 0 \<or> 95 \<le> b" using cube by (simp_all add: cube_color_def)
  moreover have "12 \<le> r + g + b" "r + g + b < 24" using low by (auto simp: underflows_def)
  ultimately show False by linarith
qed

lemma gray_not_cube: "\<not> cube_color (gray_color k)"
proof
  assume "cube_color (gray_color k)"
  then have "8 + 10 * k \<in> set CUBE_VALUES" by (simp add: cube_color_def gray_color_def Let_def)
  then have "(8 + 10 * k) mod 10 \<in> (\<lambda>x. x mod 10) ` set CUBE_VALUES" by blast
  then show False by (simp add: CUBE_VALUES_def)
qed

text \<open>
  The palette entries from 16 to 255 survive the round trip: the colour of such an index is
  mapped back to the same index, with and without overflow checks.
\<close>

theorem xterm256_round_trip:
  assumes "16 \<le> i" "i \<le> 255"
  shows "\<exists>r g b. indexed_to_rgb checks i = Some (r, g, b) \<and> rgb_to_xterm256 checks r g b = Some i"
proof (cases "i \<le> 231")
  case True
  obtain k where k: "0 \<le> k" "k < 216" "i = k + 16" using assms True by (intro that[of "i - 16"]) auto
  obtain r g b where c: "cube_index_to_rgb k = Some (r, g, b)" using cube_index_digits(4)[OF k(1,2)] by blast
  have cube: "cube_color (r, g, b)" by (rule cube_index_color[OF k(1,2) c])
  obtain idx c' where idx: "0 \<le> idx" "idx < 216" "\<forall>checks. nearest_cube_index checks r g b = Some idx"
    and c': "cube_index_to_rgb idx = Some c'" "cube_color c'" "\<forall>c''. cube_color c'' \<longrightarrow> dist (r, g, b) c' \<le> dist (r, g, b) c''"
    by (rule nearest_cube_index_least[OF cube_color_u8[OF cube]])
  have d: "dist (r, g, b) c' \<le> 0" using c'(3)[rule_format, OF cube] by simp
  then have "c' = (r, g, b)" using dist_pos[of "(r, g, b)" c'] by force
  then have "idx = k" using cube_index_inject[OF idx(1,2) k(1,2)] c c'(1) by simp
  moreover have "\<not> dist (r, g, b) x < dist (r, g, b) c'" for x
    using d dist_pos[of "(r, g, b)" x] by (cases "x = (r, g, b)") force+
  ultimately have "rgb_to_xterm256 checks r g b = Some i"
    using rgb_to_xterm256_eq(1)[OF cube_color_u8[OF cube] spec[OF idx(3)] idx(1,2) c'(1,2)] cube_not_low[OF cube] k(3)
    by simp
  then show ?thesis using c indexed_to_rgb_cube[OF k(1,2)] k(3) by auto
next
  case False
  obtain k where k: "0 \<le> k" "k \<le> 23" "i = 232 + k" using assms False by (intro that[of "i - 232"]) auto
  let ?v = "8 + 10 * k"
  have u8: "color_u8 (?v, ?v, ?v)" using gray_color_u8[OF k(1,2)] by (simp add: gray_color_def Let_def)
  obtain idx c where idx: "0 \<le> idx" "idx < 216" "\<forall>checks. nearest_cube_index checks ?v ?v ?v = Some idx"
    and c: "cube_index_to_rgb idx = Some c" "cube_color c"
    by (rule nearest_cube_index_least[OF u8])
  have avg: "(?v + ?v + ?v) div 3 = ?v" by simp
  have gi: "(if ?v < 4 then 0 else min ((?v - 3) div 10) 23) = k" using k by simp
  have gray: "gray_color k = (?v, ?v, ?v)" by (simp add: gray_color_def Let_def)
  have "0 < dist (?v, ?v, ?v) c" using gray_not_cube[of k] c(2) dist_pos[of "gray_color k" c] by (auto simp: gray)
  moreover have "\<not> underflows ?v ?v ?v" using k(1) by (simp add: underflows_def avg)
  ultimately have "rgb_to_xterm256 checks ?v ?v ?v = Some i"
    using rgb_to_xterm256_eq(1)[OF u8 spec[OF idx(3)] idx(1,2) c, of checks, unfolded Let_def avg gi]
    by (simp add: gray k(3))
  then show ?thesis using indexed_to_rgb_gray[OF k(1,2)] by (auto simp: gray k(3))
qed

theorem xterm256_round_trip_witness:
  "\<exists>r g b. indexed_to_rgb True 100 = Some (r, g, b) \<and> rgb_to_xterm256 True r g b = Some 100"
  using xterm256_round_trip[of 100 True] by simp

end
