(* ===== verification/Text_Ops.thy ===== *)
theory Text_Ops
  imports Rust_Prelude
begin

text \<open>
  The string operations of Rust's standard library that the file tools use: splitting into lines,
  prefixes, searching and replacing, right-aligned numbers, parsing numbers, joining paths.

  \<^verbatim>\<open>str::matches\<close>, \<^verbatim>\<open>replace\<close> and \<^verbatim>\<open>replacen\<close> find non-overlapping occurrences from left to right; the
  empty pattern matches at every character boundary. All three are read off the pieces between the
  matches.
\<close>

section \<open>Definitions\<close>

subsection \<open>Lines\<close>

text \<open>\<^verbatim>\<open>s.split(c)\<close>: the pieces between the occurrences of one character.\<close>

fun split_char :: "char \<Rightarrow> string \<Rightarrow> string list" where
  "split_char d [] = [[]]"
| "split_char d (c # cs) =
     (if c = d then [] # split_char d cs
      else (c # hd (split_char d cs)) # tl (split_char d cs))"

abbreviation newline :: char where
  "newline \<equiv> CHR 0x0A"

definition strip_cr :: "string \<Rightarrow> string" where
  "strip_cr l = (if l \<noteq> [] \<and> last l = CHR 0x0D then butlast l else l)"

text \<open>
  \<^verbatim>\<open>s.lines()\<close>: a line ends with a newline, which is dropped together with a carriage return before
  it; the last line need not end with one.
\<close>

definition lines :: "string \<Rightarrow> string list" where
  "lines s =
     (let ps = split_char newline s
      in map strip_cr (butlast ps) @ (if last ps = [] then [] else [last ps]))"

definition strip_prefix :: "string \<Rightarrow> string \<Rightarrow> string option" where
  "strip_prefix p s = (if prefix p s then Some (drop (length p) s) else None)"

definition starts_with :: "string \<Rightarrow> string \<Rightarrow> bool" where
  "starts_with p s \<longleftrightarrow> prefix p s"

definition trim_end_newlines :: "string \<Rightarrow> string" where
  "trim_end_newlines s = rev (dropWhile (\<lambda>c. c = newline) (rev s))"

text \<open>\<^verbatim>\<open>{:>w}\<close> for a number.\<close>

definition pad_left :: "nat \<Rightarrow> string \<Rightarrow> string" where
  "pad_left w s = replicate (w - length s) (CHR 0x20) @ s"

subsection \<open>Searching and replacing\<close>

fun str_find :: "string \<Rightarrow> string \<Rightarrow> nat option" where
  "str_find pat [] = (if pat = [] then Some 0 else None)"
| "str_find pat (c # s) =
     (if prefix pat (c # s) then Some 0 else map_option Suc (str_find pat s))"

lemma str_find_bound: "str_find pat s = Some i \<Longrightarrow> i + length pat \<le> length s"
proof (induction s arbitrary: i)
  case (Cons c s)
  then show ?case by (auto split: if_splits dest: prefix_length_le)
qed (auto split: if_splits)

function pieces :: "string \<Rightarrow> string \<Rightarrow> string list" where
  "pieces pat s =
     (if pat = [] then [] # utf8_chars s @ [[]]
      else case str_find pat s of
             None \<Rightarrow> [s]
           | Some i \<Rightarrow> take i s # pieces pat (drop (i + length pat) s))"
  by pat_completeness auto
termination
proof (relation "measure (\<lambda>(pat, s). length s)")
  fix pat s :: string and i
  assume "pat \<noteq> []" "str_find pat s = Some i"
  then show "((pat, drop (i + length pat) s), pat, s) \<in> measure (\<lambda>(pat, s). length s)"
    using str_find_bound[of pat s i] by (cases pat) auto
qed simp

declare pieces.simps [simp del]

definition matches_count :: "string \<Rightarrow> string \<Rightarrow> nat" where
  "matches_count pat s = length (pieces pat s) - 1"

definition str_replace :: "string \<Rightarrow> string \<Rightarrow> string \<Rightarrow> string" where
  "str_replace pat new s = join new (pieces pat s)"

text \<open>\<^verbatim>\<open>s.replacen(pat, new, 1)\<close>.\<close>

definition replace_first :: "string \<Rightarrow> string \<Rightarrow> string \<Rightarrow> string" where
  "replace_first pat new s =
     (case pieces pat s of
        p # q # ps \<Rightarrow> p @ new @ join pat (q # ps)
      | ps \<Rightarrow> join pat ps)"

subsection \<open>Numbers\<close>

text \<open>
  \<^verbatim>\<open>str::parse\<close> for an unsigned integer below \<^verbatim>\<open>bound\<close>: digits after an optional plus sign. A number
  that does not fit is an error.
\<close>

definition digit_value :: "char \<Rightarrow> nat option" where
  "digit_value c = (let n = of_char c :: nat in if 48 \<le> n \<and> n < 58 then Some (n - 48) else None)"

fun parse_digits :: "nat \<Rightarrow> nat \<Rightarrow> string \<Rightarrow> nat option" where
  "parse_digits bound n [] = Some n"
| "parse_digits bound n (c # cs) =
     (case digit_value c of
        None \<Rightarrow> None
      | Some d \<Rightarrow> if 10 * n + d < bound then parse_digits bound (10 * n + d) cs else None)"

definition parse_unsigned :: "nat \<Rightarrow> string \<Rightarrow> nat option" where
  "parse_unsigned bound s =
     (let digits = (if starts_with ''+'' s then tl s else s)
      in if digits = [] then None else parse_digits bound 0 digits)"

subsection \<open>Paths\<close>

definition is_absolute :: "string \<Rightarrow> bool" where
  "is_absolute p \<longleftrightarrow> starts_with ''/'' p"

text \<open>\<^verbatim>\<open>Path::join\<close> with a relative path.\<close>

definition path_join :: "string \<Rightarrow> string \<Rightarrow> string" where
  "path_join base p = (if base = [] then p else if last base = CHR ''/'' then base @ p else base @ ''/'' @ p)"

section \<open>Lines\<close>

lemma split_char_nonempty [simp]: "split_char d s \<noteq> []"
  by (cases s) auto

lemma join_split_char [simp]: "join [d] (split_char d s) = s"
proof (induction s)
  case (Cons c s)
  obtain l ls where split: "split_char d s = l # ls" by (cases "split_char d s") simp_all
  then show ?case using Cons by (cases ls) auto
qed simp

lemma split_char_pieces: "l \<in> set (split_char d s) \<Longrightarrow> d \<notin> set l"
proof (induction s arbitrary: l)
  case (Cons c s)
  obtain k ks where split: "split_char d s = k # ks" by (cases "split_char d s") simp_all
  then show ?case using Cons by (auto split: if_splits)
qed simp

lemma split_char_free: "d \<notin> set s \<Longrightarrow> split_char d s = [s]"
  by (induction s) auto

lemma split_char_append: "d \<notin> set l \<Longrightarrow> split_char d (l @ d # s) = l # split_char d s"
  by (induction l) auto

lemma split_char_join:
  "ls \<noteq> [] \<Longrightarrow> \<forall>l\<in>set ls. d \<notin> set l \<Longrightarrow> split_char d (join [d] ls) = ls"
  by (induction "[d]" ls rule: join.induct) (auto simp: split_char_free split_char_append)

lemma length_split_char: "length (split_char d s) = Suc (count_list s d)"
proof (induction s)
  case (Cons c s)
  then show ?case by (cases "split_char d s") auto
qed simp

lemma last_split_char: "last (split_char d s) = [] \<longleftrightarrow> s = [] \<or> last s = d"
proof (induction s)
  case (Cons c s)
  obtain k ks where split: "split_char d s = k # ks" by (cases "split_char d s") simp_all
  show ?case
  proof (cases ks)
    case Nil
    then have "s = k" using join_split_char[of d s] split by simp
    moreover have "d \<notin> set k" using split_char_pieces[of k d s] split by simp
    ultimately show ?thesis using Cons split Nil by (auto simp: last_in_set)
  next
    case (Cons k' ks')
    then have "s \<noteq> []" using split by auto
    then show ?thesis using Cons.IH split Cons by auto
  qed
qed simp

text \<open>A string has one line more than newlines unless it is empty or ends with one.\<close>

lemma length_lines:
  "length (lines s) = count_list s newline + (if s = [] \<or> last s = newline then 0 else 1)"
  by (auto simp: lines_def Let_def last_split_char length_split_char)

lemma count_list_append: "count_list (xs @ ys) d = count_list xs d + count_list ys d"
  by (induction xs) auto

lemma length_lines_prefix: "length (lines s) \<le> length (lines (s @ t))"
proof (cases "s = [] \<or> last s = newline")
  case True
  then show ?thesis by (auto simp: length_lines count_list_append)
next
  case False
  show ?thesis
  proof (cases "t = [] \<or> last t = newline")
    case True
    then show ?thesis using False by (cases t rule: rev_cases) (auto simp: length_lines count_list_append)
  next
    case f: False
    then show ?thesis using False by (auto simp: length_lines count_list_append)
  qed
qed

section \<open>Searching\<close>

text \<open>The first occurrence, and none before it.\<close>

lemma str_find_Some:
  "str_find pat s = Some i \<longleftrightarrow> prefix pat (drop i s) \<and> i \<le> length s \<and> (\<forall>j < i. \<not> prefix pat (drop j s))"
proof (induction s arbitrary: i)
  case Nil
  then show ?case by (cases i) auto
next
  case (Cons c s)
  show ?case
  proof (cases i)
    case (Suc j)
    then show ?thesis using Cons by (auto simp: less_Suc_eq_0_disj)
  qed (auto simp: Cons)
qed

lemma str_find_None: "str_find pat s = None \<longleftrightarrow> \<not> sublist pat s"
proof (induction s)
  case (Cons c s)
  then show ?case by (simp add: sublist_Cons_right)
qed simp

lemma str_find_split:
  assumes "str_find pat s = Some i"
  shows "s = take i s @ pat @ drop (i + length pat) s"
proof -
  obtain t where "drop i s = pat @ t" using assms by (auto simp: str_find_Some prefix_def)
  moreover from this have "drop (i + length pat) s = t"
    by (metis add.commute append_eq_conv_conj drop_drop)
  ultimately show ?thesis by (metis append_take_drop_id)
qed

lemma pieces_nonempty [simp]: "pieces pat s \<noteq> []"
  by (subst pieces.simps) (auto split: option.splits)

lemma join_empty: "join [] xs = concat xs"
  by (induction "[] :: 'a list" xs rule: join.induct) auto

lemma join_pieces [simp]: "join pat (pieces pat s) = s"
proof (induction pat s rule: pieces.induct)
  case (1 pat s)
  show ?case
  proof (cases "pat = []")
    case True
    then show ?thesis by (subst pieces.simps) (simp add: join_empty)
  next
    case False
    show ?thesis
    proof (cases "str_find pat s")
      case None
      then show ?thesis using False by (subst pieces.simps) simp
    next
      case (Some i)
      then have "pieces pat s = take i s # pieces pat (drop (i + length pat) s)"
        using False by (subst pieces.simps) simp
      then show ?thesis using 1 False Some str_find_split[OF Some] by (simp add: join_Cons)
    qed
  qed
qed

lemma matches_zero: "matches_count pat s = 0 \<longleftrightarrow> \<not> sublist pat s"
proof (cases "pat = []")
  case True
  then show ?thesis by (simp add: matches_count_def pieces.simps[of "[]"])
next
  case False
  then show ?thesis using str_find_None[of pat s]
    by (subst matches_count_def, subst pieces.simps) (auto simp: Suc_le_eq split: option.splits)
qed

text \<open>The first piece ends where the first occurrence starts.\<close>

lemma pieces_first:
  assumes "matches_count pat s \<noteq> 0"
  obtains i p q ps where "str_find pat s = Some i" "pieces pat s = p # q # ps" "p = take i s"
    "s = p @ pat @ join pat (q # ps)"
proof -
  obtain p q ps where p: "pieces pat s = p # q # ps"
    using assms by (cases "pieces pat s" rule: list.exhaust; cases "tl (pieces pat s)") (auto simp: matches_count_def)
  have s: "s = p @ pat @ join pat (q # ps)" using join_pieces[of pat s] by (simp add: p)
  show thesis
  proof (cases "pat = []")
    case True
    then have "p = []" using p pieces.simps[of "[]" s] by simp
    then show thesis using that[OF _ p _ s, of 0] True by (cases s) simp_all
  next
    case False
    then obtain i where i: "str_find pat s = Some i" "p = take i s"
      using p pieces.simps[of pat s] by (cases "str_find pat s") auto
    then show thesis using that[OF i(1) p i(2) s] by simp
  qed
qed

lemma replace_first_eq:
  assumes "matches_count pat s \<noteq> 0"
  obtains pre post where "s = pre @ pat @ post" "replace_first pat new s = pre @ new @ post"
    "str_find pat s = Some (length pre)"
proof -
  obtain i p q ps where i: "str_find pat s = Some i" "pieces pat s = p # q # ps" "p = take i s"
    "s = p @ pat @ join pat (q # ps)" by (rule pieces_first[OF assms])
  have len: "length p = i" using i(3) str_find_bound[OF i(1)] by simp
  show thesis
  proof (rule that[of p "join pat (q # ps)"])
    show "replace_first pat new s = p @ new @ join pat (q # ps)" unfolding replace_first_def i(2) by simp
    show "str_find pat s = Some (length p)" using i(1) len by simp
  qed (rule i(4))
qed

lemma replace_all_prefix:
  assumes "matches_count pat s \<noteq> 0"
  obtains pre post where "str_replace pat new s = pre @ new @ post" "str_find pat s = Some (length pre)"
    "prefix pre s"
proof -
  obtain i p q ps where i: "str_find pat s = Some i" "pieces pat s = p # q # ps" "p = take i s"
    by (rule pieces_first[OF assms])
  have len: "length p = i" using i(3) str_find_bound[OF i(1)] by simp
  show thesis
  proof (rule that[of p "join new (q # ps)"])
    show "str_replace pat new s = p @ new @ join new (q # ps)" unfolding str_replace_def i(2) by simp
    show "str_find pat s = Some (length p)" using i(1) len by simp
    show "prefix p s" unfolding i(3) by (rule take_is_prefix)
  qed
qed

text \<open>With a single occurrence, replacing all and replacing the first agree.\<close>

lemma replace_single:
  assumes "matches_count pat s = 1"
  shows "str_replace pat new s = replace_first pat new s"
proof -
  obtain p q ps where "pieces pat s = p # q # ps" using pieces_first[of pat s] assms by (metis one_neq_zero)
  moreover from this have "ps = []" using assms by (simp add: matches_count_def)
  ultimately show ?thesis by (simp add: str_replace_def replace_first_def)
qed

section \<open>Numbers\<close>

lemma digit_value_digit_char: "d < 10 \<Longrightarrow> digit_value (digit_char d) = Some d"
  by (simp add: digit_value_def of_char_digit_char Let_def)

lemma parse_digits_append:
  "parse_digits b n (xs @ ys) = Option.bind (parse_digits b n xs) (\<lambda>m. parse_digits b m ys)"
  by (induction b n xs rule: parse_digits.induct) (auto split: option.splits)

lemma parse_digits_show: "m < b \<Longrightarrow> parse_digits b 0 (show_nat m) = Some m"
proof (induction m rule: show_nat.induct)
  case (1 m)
  show ?case
  proof (cases "m < 10")
    case True
    then show ?thesis using 1(2) by (subst show_nat.simps) (simp add: digit_value_digit_char)
  next
    case False
    then have "parse_digits b 0 (show_nat (m div 10)) = Some (m div 10)" using 1 by simp
    moreover have "10 * (m div 10) + m mod 10 = m" by simp
    ultimately show ?thesis using False 1(2)
      by (subst show_nat.simps) (simp add: parse_digits_append digit_value_digit_char)
  qed
qed

lemma show_nat_free: "\<not> (48 \<le> (of_char c :: nat) \<and> (of_char c :: nat) < 58) \<Longrightarrow> c \<notin> set (show_nat n)"
  using show_nat_digits by blast

text \<open>Reading a printed number that fits.\<close>

lemma parse_unsigned_show:
  assumes "m < b"
  shows "parse_unsigned b (show_nat m) = Some m"
proof -
  have "\<not> starts_with ''+'' (show_nat m)"
    using show_nat_free[of "CHR ''+''" m] by (cases "show_nat m") (auto simp: starts_with_def)
  then show ?thesis using parse_digits_show[OF assms] by (simp add: parse_unsigned_def)
qed

lemma plain_char: "33 \<le> (of_char c :: nat) \<Longrightarrow> (of_char c :: nat) < 128 \<Longrightarrow> \<not> utf8_cont c \<and> \<not> is_whitespace [c]"
  by (auto simp: utf8_cont_def is_whitespace_def whitespace_chars_def)

lemma plain_show_nat: "list_all (\<lambda>c. \<not> utf8_cont c \<and> \<not> is_whitespace [c]) (show_nat n)"
proof -
  have "\<not> utf8_cont c \<and> \<not> is_whitespace [c]" if "c \<in> set (show_nat n)" for c
    using show_nat_digits[OF that] by (intro plain_char) auto
  then show ?thesis by (simp add: list_all_iff)
qed

end
