(* ===== verification/Session_Types.thy ===== *)
theory Session_Types
  imports Text_Ops Messages Swarm_Plan
begin

text \<open>
  The types that a stored session is made of (\<^verbatim>\<open>gcode-session-types/src/lib.rs\<close>, \<^verbatim>\<open>src/src/session/model.rs\<close>):
  the status of a session, its messages, the snapshots of its environment, the injected memories and the
  events kept for replay, with the one-line preview of a message.
\<close>

section \<open>Stored types\<close>

datatype session_status =
    Active | Closed | Crashed "string option" | Reloaded | Compacted | RateLimited | SessionError string

fun SessionStatus_display :: "session_status \<Rightarrow> string" where
  "SessionStatus_display Active = ''active''"
| "SessionStatus_display Closed = ''closed''"
| "SessionStatus_display (Crashed m) = ''crashed''"
| "SessionStatus_display Reloaded = ''reloaded''"
| "SessionStatus_display Compacted = ''compacted''"
| "SessionStatus_display RateLimited = ''rate limited''"
| "SessionStatus_display (SessionError m) = ''error''"

fun SessionStatus_detail :: "session_status \<Rightarrow> string option" where
  "SessionStatus_detail (Crashed m) = m"
| "SessionStatus_detail (SessionError m) = Some m"
| "SessionStatus_detail s = None"

datatype improve_mode = ImproveRun | ImprovePlan | RefactorRun | RefactorPlan

datatype stored_display_role = DisplaySystem | DisplayBackgroundTask

record stored_token_usage =
  tu_input_tokens :: u64
  tu_output_tokens :: u64
  tu_cache_read_input_tokens :: "u64 option"
  tu_cache_creation_input_tokens :: "u64 option"

record stored_message =
  st_id :: string
  st_role :: msg_role
  st_content :: "content_block list"
  st_display_role :: "stored_display_role option"
  st_timestamp :: "datetime option"
  st_tool_duration_ms :: "u64 option"
  st_token_usage :: "stored_token_usage option"

definition to_message :: "stored_message \<Rightarrow> message" where
  "to_message m =
     \<lparr>msg_role = st_role m, msg_content = st_content m, msg_timestamp = st_timestamp m,
      msg_tool_duration_ms = st_tool_duration_ms m\<rparr>"

definition newlines_to_spaces :: "string \<Rightarrow> string" where
  "newlines_to_spaces s = map (\<lambda>c. if c = newline then CHR '' '' else c) s"

fun block_preview :: "content_block \<Rightarrow> string option" where
  "block_preview (Text t cc) = (if trim t \<noteq> [] then Some (newlines_to_spaces (trim t)) else None)"
| "block_preview (ToolUse i name input) = Some (''[tool: '' @ name @ '']'')"
| "block_preview (ToolResult i content e) =
     (let preview = newlines_to_spaces (trim content)
      in if preview \<noteq> [] then Some (''[result: '' @ preview @ '']'') else None)"
| "block_preview b = None"

fun preview_blocks :: "content_block list \<Rightarrow> string" where
  "preview_blocks [] = ''(empty)''"
| "preview_blocks (b # bs) = (case block_preview b of Some s \<Rightarrow> s | None \<Rightarrow> preview_blocks bs)"

definition content_preview :: "stored_message \<Rightarrow> string" where
  "content_preview m = preview_blocks (st_content m)"

record git_state =
  gs_root :: string
  gs_head :: "string option"
  gs_branch :: "string option"
  gs_dirty :: "bool option"

record env_snapshot =
  es_captured_at :: datetime
  es_reason :: string
  es_session_id :: string
  es_working_dir :: "string option"
  es_provider :: string
  es_model :: string
  es_gcode_version :: string
  es_gcode_git_hash :: "string option"
  es_gcode_git_dirty :: "bool option"
  es_os :: string
  es_arch :: string
  es_pid :: u32
  es_is_selfdev :: bool
  es_is_debug :: bool
  es_is_canary :: bool
  es_testing_build :: "string option"
  es_working_git :: "git_state option"

record stored_memory_injection =
  mi_summary :: string
  mi_content :: string
  mi_count :: u32
  mi_memory_ids :: "string list"
  mi_age_ms :: "u64 option"
  mi_before_message :: "nat option"
  mi_timestamp :: datetime

record swarm_member_status =
  ms_session_id :: string
  ms_friendly_name :: "string option"
  ms_status :: string
  ms_detail :: "string option"
  ms_role :: "string option"
  ms_is_headless :: "bool option"
  ms_live_attachments :: "nat option"
  ms_status_age_secs :: "u64 option"

datatype replay_event_kind =
    DisplayMessage string "string option" string
  | SwarmStatusEvent "swarm_member_status list"
  | SwarmPlanEvent string u64 "plan_item list" "string list" "string option"

record stored_replay_event =
  re_timestamp :: datetime
  re_kind :: replay_event_kind

text \<open>The name in a session identifier (\<^verbatim>\<open>src/crates/gcode-core/src/id.rs\<close>).\<close>

definition extract_session_name :: "string \<Rightarrow> string option" where
  "extract_session_name session_id =
     (case strip_prefix ''session_'' session_id of
        Some rest \<Rightarrow> if CHR ''_'' \<in> set rest then Some (takeWhile (\<lambda>c. c \<noteq> CHR ''_'') rest) else None
      | None \<Rightarrow> None)"

end
