(* ===== verification/Storage.thy ===== *)
theory Storage
  imports Text_Ops
begin

text \<open>
  Storage of the harness's files (\<^verbatim>\<open>crates/gcode-storage/src/lib.rs\<close>): the directories it uses, the
  write of a JSON file through a temporary file with a backup of the previous version, the read that
  falls back to the backup, the change of one variable in an environment file.

  Files are a map from paths to contents. A write is a sequence of calls of the operating system, any
  of which may fail or be the last one before the process dies, so it is a step relation. The
  JSON format is a parameter: \<^verbatim>\<open>enc\<close> prints a value and \<^verbatim>\<open>dec\<close> reads it, \<^verbatim>\<open>None\<close> for an error.
\<close>

section \<open>Definitions\<close>

subsection \<open>Directories\<close>

type_synonym env = "string \<Rightarrow> string option"

definition join_path :: "string \<Rightarrow> string \<Rightarrow> string" where
  "join_path base p = (if is_absolute p then p else path_join base p)"

text \<open>On Linux; the last resort is made in the temporary directory for the effective user.\<close>

definition runtime_dir :: "env \<Rightarrow> string \<Rightarrow> nat \<Rightarrow> string" where
  "runtime_dir var temp_dir euid =
     (case var ''GCODE_RUNTIME_DIR'' of
        Some dir \<Rightarrow> dir
      | None \<Rightarrow>
        (case var ''XDG_RUNTIME_DIR'' of
           Some dir \<Rightarrow> dir
         | None \<Rightarrow> join_path temp_dir (''gcode-'' @ show_nat euid)))"

definition gcode_dir :: "env \<Rightarrow> string option \<Rightarrow> string + string" where
  "gcode_dir var home_dir =
     (case var ''GCODE_HOME'' of
        Some path \<Rightarrow> Inr path
      | None \<Rightarrow>
        (case home_dir of
           None \<Rightarrow> Inl ''No home directory''
         | Some home \<Rightarrow> Inr (join_path home ''.gcode'')))"

definition logs_dir :: "env \<Rightarrow> string option \<Rightarrow> string + string" where
  "logs_dir var home_dir = map_sum id (\<lambda>d. join_path d ''logs'') (gcode_dir var home_dir)"

definition app_config_dir :: "env \<Rightarrow> string option \<Rightarrow> string + string" where
  "app_config_dir var config_dir =
     (case var ''GCODE_HOME'' of
        Some path \<Rightarrow> Inr (join_path (join_path path ''config'') ''gcode'')
      | None \<Rightarrow>
        (case config_dir of
           None \<Rightarrow> Inl ''No config directory found''
         | Some d \<Rightarrow> Inr (join_path d ''gcode'')))"

definition user_home_path :: "env \<Rightarrow> string option \<Rightarrow> string \<Rightarrow> string + string" where
  "user_home_path var home_dir relative =
     (if is_absolute relative then Inl (''user_home_path expects a relative path, got '' @ relative)
      else case var ''GCODE_HOME'' of
        Some path \<Rightarrow> Inr (join_path (join_path path ''external'') relative)
      | None \<Rightarrow>
        (case home_dir of
           None \<Rightarrow> Inl ''No home directory''
         | Some home \<Rightarrow> Inr (join_path home relative)))"

subsection \<open>Writing a file\<close>

type_synonym disk = "string \<Rightarrow> string option"

text \<open>
  \<^verbatim>\<open>write_bytes_inner\<close>: where the writer stands, and its calls. \<^verbatim>\<open>tmp\<close> is the temporary path, which
  carries the process number and a random number, and \<^verbatim>\<open>bak\<close> the path of the backup.
\<close>

datatype writer = Start | Writing | Written | Backed | Finished | Failed

inductive write_step :: "string \<Rightarrow> string \<Rightarrow> string \<Rightarrow> string \<Rightarrow> writer \<times> disk \<Rightarrow> writer \<times> disk \<Rightarrow> bool"
    for path tmp bak bytes where
  create: "write_step path tmp bak bytes (Start, d) (Writing, d(tmp \<mapsto> []))"
| write_some: "write_step path tmp bak bytes (Writing, d) (Writing, d(tmp \<mapsto> take n bytes))"
| flush: "write_step path tmp bak bytes (Writing, d) (Written, d(tmp \<mapsto> bytes))"
| no_backup: "d path = None \<Longrightarrow> write_step path tmp bak bytes (Written, d) (Backed, d)"
| backup: "d path = Some old \<Longrightarrow> write_step path tmp bak bytes (Written, d) (Backed, d(path := None, bak \<mapsto> old))"
| backup_failed: "d path = Some old \<Longrightarrow> write_step path tmp bak bytes (Written, d) (Backed, d)"
| commit: "write_step path tmp bak bytes (Backed, d) (Finished, d(path := d tmp, tmp := None))"
| fail: "pc \<notin> {Finished, Failed} \<Longrightarrow> write_step path tmp bak bytes (pc, d) (Failed, d(tmp := None))"

inductive_cases write_step_cases: "write_step path tmp bak bytes (pc, d) (pc', d')"

subsection \<open>Reading a file\<close>

definition read_json :: "(string \<Rightarrow> 'v option) \<Rightarrow> string \<Rightarrow> string \<Rightarrow> disk \<Rightarrow> 'v option \<times> disk" where
  "read_json dec path bak d =
     (case d path of
        None \<Rightarrow> (None, d)
      | Some data \<Rightarrow>
        (case dec data of
           Some v \<Rightarrow> (Some v, d)
         | None \<Rightarrow>
           (case d bak of
              None \<Rightarrow> (None, d)
            | Some bak_data \<Rightarrow>
              (case dec bak_data of
                 Some v \<Rightarrow> (Some v, d(path \<mapsto> bak_data))
               | None \<Rightarrow> (None, d)))))"

text \<open>How the callers load a value: a missing file counts as the default, an unreadable one too.\<close>

definition load_or_default :: "(string \<Rightarrow> 'v option) \<Rightarrow> 'v \<Rightarrow> string \<Rightarrow> string \<Rightarrow> disk \<Rightarrow> 'v" where
  "load_or_default dec default_value path bak d =
     (if d path \<noteq> None
      then (case fst (read_json dec path bak d) of Some v \<Rightarrow> v | None \<Rightarrow> default_value)
      else default_value)"

text \<open>\<^verbatim>\<open>append_json_line_fast\<close>, without its errors.\<close>

definition append_json_line_fast :: "string \<Rightarrow> string \<Rightarrow> disk \<Rightarrow> disk" where
  "append_json_line_fast path printed d =
     d(path \<mapsto> (case d path of Some s \<Rightarrow> s | None \<Rightarrow> []) @ printed @ nl)"

subsection \<open>Environment files\<close>

fun upsert_lines :: "string \<Rightarrow> string \<Rightarrow> string option \<Rightarrow> string list \<Rightarrow> string list \<times> bool" where
  "upsert_lines pfx env_key val [] = ([], False)"
| "upsert_lines pfx env_key val (line # ls) =
     (let (rest, replaced) = upsert_lines pfx env_key val ls in
      if starts_with pfx line
      then (case val of Some v \<Rightarrow> (env_key @ ''='' @ v) # rest | None \<Rightarrow> rest, True)
      else (line # rest, replaced))"

definition upsert_env_file_value :: "string \<Rightarrow> string option \<Rightarrow> string \<Rightarrow> string" where
  "upsert_env_file_value env_key val existing =
     (let (ls, replaced) = upsert_lines (env_key @ ''='') env_key val (lines existing);
          ls = (case val of
                  Some v \<Rightarrow> if \<not> replaced then ls @ [env_key @ ''='' @ v] else ls
                | None \<Rightarrow> ls);
          content = join nl ls
      in if content \<noteq> [] then content @ nl else content)"

section \<open>Writing and crashing\<close>

text \<open>
  Where the old contents are, at every point of the write: never a partial version under the path.
\<close>

definition write_inv :: "string \<Rightarrow> string \<Rightarrow> string \<Rightarrow> string \<Rightarrow> string \<Rightarrow> writer \<times> disk \<Rightarrow> bool" where
  "write_inv path tmp bak bytes old s =
     (case s of (pc, d) \<Rightarrow>
        (pc \<in> {Start, Writing, Written} \<longrightarrow> d path = Some old) \<and>
        (pc \<in> {Written, Backed} \<longrightarrow> d tmp = Some bytes) \<and>
        (pc \<noteq> Finished \<longrightarrow> d path = Some old \<or> d path = None \<and> d bak = Some old) \<and>
        (pc = Finished \<longrightarrow> d path = Some bytes))"

lemma write_step_inv:
  assumes "write_step path tmp bak bytes s s'" "write_inv path tmp bak bytes old s"
    and "tmp \<noteq> path" "tmp \<noteq> bak" "path \<noteq> bak"
  shows "write_inv path tmp bak bytes old s'"
  using assms by (induction rule: write_step.induct) (auto simp: write_inv_def)

lemma write_reach_inv:
  assumes "(write_step path tmp bak bytes)\<^sup>*\<^sup>* (Start, d) s" "d path = Some old"
    and "tmp \<noteq> path" "tmp \<noteq> bak" "path \<noteq> bak"
  shows "write_inv path tmp bak bytes old s"
  using assms(1)
proof (induction rule: rtranclp_induct)
  case base
  then show ?case using assms(2) by (simp add: write_inv_def)
next
  case (step s s')
  then show ?case using write_step_inv assms(3-5) by blast
qed

text \<open>Other files are never touched.\<close>

lemma write_frame:
  assumes "(write_step path tmp bak bytes)\<^sup>*\<^sup>* (Start, d) s" "p \<notin> {path, tmp, bak}"
  shows "snd s p = d p"
  using assms(1)
proof (induction rule: rtranclp_induct)
  case (step s s')
  from step.hyps(2) have "snd s' p = snd s p" using assms(2) by (induction rule: write_step.induct) auto
  then show ?case using step.IH by simp
qed simp

text \<open>
  C23: Interrupting \<^verbatim>\<open>write_json\<close> anywhere, by a failing call or by the death of the process, never
  leaves a partial file: the file that is read afterwards holds the old or the new value, or it is
  missing and the backup holds the old one. When the call succeeds the new value is read.
\<close>

theorem write_json_crash_safe:
  assumes "\<And>v. dec (enc v) = Some v"
    and "(write_step path tmp bak (enc new))\<^sup>*\<^sup>* (Start, d) (pc, d')" "d path = Some (enc old)"
    and "tmp \<noteq> path" "tmp \<noteq> bak" "path \<noteq> bak"
  shows "(read_json dec path bak d' \<in> {(Some old, d'), (Some new, d')}
      \<or> d' path = None \<and> d' bak = Some (enc old) \<and> pc \<in> {Backed, Failed})
    \<and> (pc = Finished \<longrightarrow> fst (read_json dec path bak d') = Some new)"
proof -
  have "write_inv path tmp bak (enc new) (enc old) (pc, d')"
    by (rule write_reach_inv[OF assms(2-6)])
  then show ?thesis using assms(1) by (cases pc) (auto simp: write_inv_def read_json_def)
qed

text \<open>
  The gap is real: a process that dies between the two renames leaves no file under the path. The
  read fails without looking at the backup, and a caller that takes a missing file for an empty one
  starts from the default.
\<close>

theorem write_json_gap:
  assumes "d path = Some old" "tmp \<noteq> path" "tmp \<noteq> bak" "path \<noteq> bak"
  shows "\<exists>d'. (write_step path tmp bak bytes)\<^sup>*\<^sup>* (Start, d) (Backed, d') \<and> d' bak = Some old \<and>
    read_json dec path bak d' = (None, d') \<and> load_or_default dec v path bak d' = v"
proof -
  let ?d = "d(tmp \<mapsto> bytes, path := None, bak \<mapsto> old)"
  have s1: "write_step path tmp bak bytes (Start, d) (Writing, d(tmp \<mapsto> []))" by (rule create)
  have s2: "write_step path tmp bak bytes (Writing, d(tmp \<mapsto> [])) (Written, d(tmp \<mapsto> bytes))"
    using flush[of path tmp bak bytes "d(tmp \<mapsto> [])"] by simp
  have s3: "write_step path tmp bak bytes (Written, d(tmp \<mapsto> bytes)) (Backed, ?d)"
    using backup[of "d(tmp \<mapsto> bytes)" path old tmp bak bytes] assms by simp
  from s3 have "(write_step path tmp bak bytes)\<^sup>*\<^sup>* (Written, d(tmp \<mapsto> bytes)) (Backed, ?d)" by (rule r_into_rtranclp)
  with s2 have "(write_step path tmp bak bytes)\<^sup>*\<^sup>* (Writing, d(tmp \<mapsto> [])) (Backed, ?d)"
    by (rule converse_rtranclp_into_rtranclp)
  with s1 have "(write_step path tmp bak bytes)\<^sup>*\<^sup>* (Start, d) (Backed, ?d)"
    by (rule converse_rtranclp_into_rtranclp)
  moreover have "?d path = None" "?d bak = Some old" using assms by simp_all
  ultimately show ?thesis by (intro exI[of _ ?d]) (simp add: read_json_def load_or_default_def)
qed

text \<open>A corrupt file is replaced by its backup.\<close>

lemma read_json_recovers:
  assumes "d path = Some data" "dec data = None" "d bak = Some b" "dec b = Some v" "path \<noteq> bak"
  shows "read_json dec path bak d = (Some v, d(path \<mapsto> b)) \<and>
    read_json dec path bak (d(path \<mapsto> b)) = (Some v, d(path \<mapsto> b))"
  using assms by (simp add: read_json_def)

section \<open>Environment files\<close>

fun fresh_lines :: "string \<Rightarrow> string option \<Rightarrow> string list" where
  "fresh_lines k None = []"
| "fresh_lines k (Some v) = [k @ ''='' @ v]"

lemma upsert_lines_eq:
  "upsert_lines p k val ls =
     (concat (map (\<lambda>l. if starts_with p l then fresh_lines k val else [l]) ls), \<exists>l\<in>set ls. starts_with p l)"
  by (induction ls; cases val) auto

definition upserted :: "string \<Rightarrow> string option \<Rightarrow> string list \<Rightarrow> string list" where
  "upserted k val ls =
     concat (map (\<lambda>l. if starts_with (k @ ''='') l then fresh_lines k val else [l]) ls) @
     (if \<exists>l\<in>set ls. starts_with (k @ ''='') l then [] else fresh_lines k val)"

lemma upsert_content:
  "upsert_env_file_value k val existing =
     (let s = join nl (upserted k val (lines existing)) in if s \<noteq> [] then s @ nl else s)"
  by (cases val) (simp_all add: upsert_env_file_value_def case_prod_unfold upsert_lines_eq Let_def upserted_def)

lemma lines_terminated:
  assumes "\<forall>l\<in>set ls. newline \<notin> set l \<and> CHR 0x0D \<notin> set l" "ls \<noteq> []"
  shows "lines (join nl ls @ nl) = ls"
proof -
  have "join nl ls @ nl = join nl (ls @ [[]])" using assms(2) by (induction nl ls rule: join.induct) auto
  moreover have "split_char newline (join nl (ls @ [[]])) = ls @ [[]]"
    unfolding nl_def using assms(1) by (intro split_char_join) auto
  moreover have "map strip_cr ls = ls"
    using assms(1) by (intro map_idI) (auto simp: strip_cr_def dest: last_in_set)
  ultimately show ?thesis by (simp add: lines_def)
qed

lemma set_join_piece: "p \<in> set ps \<Longrightarrow> set p \<subseteq> set (join sep ps)"
  by (induction sep ps rule: join.induct) auto

lemma lines_clean:
  assumes "CHR 0x0D \<notin> set s" "l \<in> set (lines s)"
  shows "newline \<notin> set l \<and> CHR 0x0D \<notin> set l"
proof -
  have pieces: "newline \<notin> set p \<and> CHR 0x0D \<notin> set p" if "p \<in> set (split_char newline s)" for p
  proof -
    have "set p \<subseteq> set s" using set_join_piece[OF that, of "[newline]"] by simp
    then show ?thesis using split_char_pieces[OF that] assms(1) by auto
  qed
  have "l \<in> strip_cr ` set (split_char newline s) \<or> l \<in> set (split_char newline s)"
    using assms(2) by (auto simp: lines_def Let_def dest: in_set_butlastD split: if_splits)
  moreover have "set (strip_cr p) \<subseteq> set p" for p by (auto simp: strip_cr_def dest: in_set_butlastD)
  ultimately show ?thesis using pieces by blast
qed

text \<open>
  Setting a variable of an environment file leaves the lines of all other variables as they are, in
  their order. When a value is given, the variable has a line afterwards and all its lines give that
  value; otherwise it has none.
\<close>

theorem upsert_env_file_value_exact:
  assumes "CHR 0x0D \<notin> set existing" "newline \<notin> set k \<and> CHR 0x0D \<notin> set k"
    and "\<forall>v. val = Some v \<longrightarrow> newline \<notin> set v \<and> CHR 0x0D \<notin> set v"
  shows "let own = starts_with (k @ ''=''); ls = lines (upsert_env_file_value k val existing)
    in filter (\<lambda>l. l \<noteq> [] \<and> \<not> own l) ls = filter (\<lambda>l. l \<noteq> [] \<and> \<not> own l) (lines existing)
      \<and> (case val of
           None \<Rightarrow> \<forall>l\<in>set ls. \<not> own l
         | Some v \<Rightarrow> (\<exists>l\<in>set ls. own l) \<and> (\<forall>l\<in>set ls. own l \<longrightarrow> l = k @ ''='' @ v))"
proof -
  define own where "own = starts_with (k @ ''='')"
  let ?ls = "upserted k val (lines existing)"
  have own_line: "own (k @ CHR ''='' # v)" for v by (simp add: own_def starts_with_def)
  have fresh_own: "l \<in> set (fresh_lines k val) \<Longrightarrow> own l" for l by (cases val) (auto simp: own_line)
  have clean: "\<forall>l\<in>set ?ls. newline \<notin> set l \<and> CHR 0x0D \<notin> set l"
    using lines_clean[OF assms(1)] assms(2,3) by (cases val) (auto simp: upserted_def)
  have result: "lines (upsert_env_file_value k val existing) = ?ls \<or>
    lines (upsert_env_file_value k val existing) = [] \<and> ?ls = [[]]"
  proof (cases "join nl ?ls = []")
    case True
    then have "?ls = [] \<or> ?ls = [[]]" by (cases ?ls rule: remdups_adj.cases) (auto simp: nl_def)
    then show ?thesis using True by (auto simp: upsert_content lines_def Let_def)
  next
    case False
    then have "?ls \<noteq> []" by auto
    then show ?thesis using lines_terminated[OF clean] False by (simp add: upsert_content)
  qed
  have "filter (\<lambda>l. l \<noteq> [] \<and> \<not> own l) ?ls = filter (\<lambda>l. l \<noteq> [] \<and> \<not> own l) (lines existing)"
  proof -
    have none: "filter (\<lambda>l. l \<noteq> [] \<and> \<not> own l) (fresh_lines k val) = []" using fresh_own by (auto simp: filter_empty_conv)
    have "filter (\<lambda>l. l \<noteq> [] \<and> \<not> own l) (concat (map (\<lambda>l. if own l then fresh_lines k val else [l]) xs)) =
        filter (\<lambda>l. l \<noteq> [] \<and> \<not> own l) xs" for xs
      by (induction xs) (auto simp: none)
    then show ?thesis by (simp add: upserted_def own_def[symmetric] none)
  qed
  moreover have "case val of None \<Rightarrow> \<forall>l\<in>set ?ls. \<not> own l
      | Some v \<Rightarrow> (\<exists>l\<in>set ?ls. own l) \<and> (\<forall>l\<in>set ?ls. own l \<longrightarrow> l = k @ ''='' @ v)"
    by (cases val) (auto simp: upserted_def own_def[symmetric] own_line)
  moreover have "\<not> own []" by (simp add: own_def starts_with_def)
  ultimately show ?thesis using result unfolding own_def[symmetric] Let_def by (auto split: option.splits)
qed


section \<open>Examples\<close>

theorem write_json_crash_safe_witness:
  "fst (read_json Some ''q'' ''b'' [''q'' \<mapsto> ''old'', ''t'' \<mapsto> ''n'']) \<in> {Some ''old'', Some ''new''}"
proof -
  let ?d = "[''q'' \<mapsto> ''old'']"
  have "write_step ''q'' ''t'' ''b'' (id ''new'') (Start, ?d) (Writing, ?d(''t'' \<mapsto> []))" by (rule create)
  moreover have "write_step ''q'' ''t'' ''b'' (id ''new'') (Writing, ?d(''t'' \<mapsto> [])) (Writing, ?d(''t'' \<mapsto> ''n''))"
    using write_some[of "''q''" "''t''" "''b''" "''new''" "?d(''t'' \<mapsto> [])" 1] by simp
  ultimately have "(write_step ''q'' ''t'' ''b'' (id ''new''))\<^sup>*\<^sup>* (Start, ?d) (Writing, ?d(''t'' \<mapsto> ''n''))"
    by (rule converse_rtranclp_into_rtranclp[OF _ r_into_rtranclp])
  from write_json_crash_safe[of Some id, OF _ this, of "''old''"] show ?thesis by auto
qed

theorem write_json_gap_witness:
  "\<exists>d'. (write_step ''q'' ''t'' ''b'' ''new'')\<^sup>*\<^sup>* (Start, [''q'' \<mapsto> ''old'']) (Backed, d') \<and> d' ''b'' = Some ''old'' \<and>
    read_json Some ''q'' ''b'' d' = (None, d') \<and> load_or_default Some ''empty'' ''q'' ''b'' d' = ''empty''"
  by (rule write_json_gap) simp_all

theorem upsert_env_file_value_exact_witness:
  "filter (\<lambda>l. l \<noteq> [] \<and> \<not> starts_with ''K='' l) (lines (upsert_env_file_value ''K'' (Some ''2'') (join nl [''A=1'', ''K=1'', ''B=1'', []]))) =
     [''A=1'', ''B=1''] \<and>
   (\<forall>l\<in>set (lines (upsert_env_file_value ''K'' (Some ''2'') (join nl [''A=1'', ''K=1'', ''B=1'', []]))). starts_with ''K='' l \<longrightarrow> l = ''K=2'')"
proof -
  have "lines (join nl [''A=1'', ''K=1'', ''B=1'', []]) = [''A=1'', ''K=1'', ''B=1'']"
    by (simp add: lines_def nl_def strip_cr_def)
  then show ?thesis
    using upsert_env_file_value_exact[of "join nl [''A=1'', ''K=1'', ''B=1'', []]" "''K''" "Some ''2''"]
    by (simp add: nl_def starts_with_def Let_def)
qed

end
