(* ===== verification/Session_Store.thy ===== *)
theory Session_Store
  imports Storage Compaction_Manager Session_Types
begin

text \<open>
  Sessions and how they are kept (\<^verbatim>\<open>src/src/session.rs\<close>, \<^verbatim>\<open>session/persistence.rs\<close>, \<^verbatim>\<open>session/journal.rs\<close>,
  \<^verbatim>\<open>session/memory_profile.rs\<close>): the conversation with its
  metadata, the snapshot file and the journal of increments that a save appends to, the cache of
  provider messages with its prefix hashes, the memory profile that is updated incrementally.

  A \<^verbatim>\<open>Session\<close> has the fields of \<^verbatim>\<open>SessionJournalMeta\<close> and more, so its record extends that one;
  \<^verbatim>\<open>journal_meta\<close> is the truncation. The JSON format is a parameter, a record of printers and readers; the
  fields that serde skips are absent from what the readers return. What the operating system lets
  succeed in a save is a record of outcomes. Clocks are arguments.
\<close>

section \<open>Definitions\<close>

subsection \<open>Metadata, journal entries and persistence state\<close>

record session_meta =
  parent_id :: "string option"
  title :: "string option"
  updated_at :: datetime
  compaction :: "stored_compaction option"
  provider_session_id :: "string option"
  provider_key :: "string option"
  model :: "string option"
  reasoning_effort :: "string option"
  subagent_model :: "string option"
  improve_mode :: "improve_mode option"
  autoreview_enabled :: "bool option"
  autojudge_enabled :: "bool option"
  is_canary :: bool
  testing_build :: "string option"
  working_dir :: "string option"
  short_name :: "string option"
  status :: session_status
  last_pid :: "u32 option"
  last_active_at :: "datetime option"
  is_debug :: bool
  saved :: bool
  save_label :: "string option"

record journal_entry =
  je_meta :: session_meta
  je_append_messages :: "stored_message list"
  je_append_env_snapshots :: "env_snapshot list"
  je_append_memory_injections :: "stored_memory_injection list"
  je_append_replay_events :: "stored_replay_event list"

datatype vector_mode = Clean | Append | Full

fun persist_vector_mode_label :: "vector_mode \<Rightarrow> string" where
  "persist_vector_mode_label Clean = ''clean''"
| "persist_vector_mode_label Append = ''append''"
| "persist_vector_mode_label Full = ''full''"

record persist_state =
  ps_snapshot_exists :: bool
  ps_messages_len :: nat
  ps_env_snapshots_len :: nat
  ps_memory_injections_len :: nat
  ps_replay_events_len :: nat
  ps_messages_mode :: vector_mode
  ps_env_snapshots_mode :: vector_mode
  ps_memory_injections_mode :: vector_mode
  ps_replay_events_mode :: vector_mode
  ps_last_meta :: "session_meta option"

definition persist_state_default :: persist_state where
  "persist_state_default =
     \<lparr>ps_snapshot_exists = False, ps_messages_len = 0, ps_env_snapshots_len = 0, ps_memory_injections_len = 0,
      ps_replay_events_len = 0, ps_messages_mode = Clean, ps_env_snapshots_mode = Clean,
      ps_memory_injections_mode = Clean, ps_replay_events_mode = Clean, ps_last_meta = None\<rparr>"

definition metadata_requires_snapshot :: "session_meta \<Rightarrow> session_meta \<Rightarrow> bool" where
  "metadata_requires_snapshot prev current \<longleftrightarrow>
     parent_id prev \<noteq> parent_id current \<or> title prev \<noteq> title current \<or>
     provider_key prev \<noteq> provider_key current \<or> reasoning_effort prev \<noteq> reasoning_effort current \<or>
     subagent_model prev \<noteq> subagent_model current \<or> improve_mode prev \<noteq> improve_mode current \<or>
     autoreview_enabled prev \<noteq> autoreview_enabled current \<or> autojudge_enabled prev \<noteq> autojudge_enabled current \<or>
     is_canary prev \<noteq> is_canary current \<or> testing_build prev \<noteq> testing_build current \<or>
     working_dir prev \<noteq> working_dir current \<or> short_name prev \<noteq> short_name current \<or>
     status prev \<noteq> status current \<or> is_debug prev \<noteq> is_debug current \<or>
     saved prev \<noteq> saved current \<or> save_label prev \<noteq> save_label current"

subsection \<open>The memory profile\<close>

definition LARGE_MEMORY_BLOB_THRESHOLD_BYTES :: nat where
  "LARGE_MEMORY_BLOB_THRESHOLD_BYTES = 16 * 1024"

record block_stats =
  bs_block_count :: nat
  bs_text_blocks :: nat
  bs_text_bytes :: nat
  bs_reasoning_blocks :: nat
  bs_reasoning_bytes :: nat
  bs_tool_use_blocks :: nat
  bs_tool_use_input_json_bytes :: nat
  bs_tool_result_blocks :: nat
  bs_tool_result_bytes :: nat
  bs_image_blocks :: nat
  bs_image_data_bytes :: nat
  bs_openai_compaction_blocks :: nat
  bs_openai_compaction_bytes :: nat
  bs_large_block_count :: nat
  bs_large_block_bytes :: nat
  bs_large_tool_result_count :: nat
  bs_large_tool_result_bytes :: nat
  bs_max_block_bytes :: nat
  bs_max_tool_result_bytes :: nat

definition block_stats_default :: block_stats where
  "block_stats_default =
     \<lparr>bs_block_count = 0, bs_text_blocks = 0, bs_text_bytes = 0, bs_reasoning_blocks = 0, bs_reasoning_bytes = 0,
      bs_tool_use_blocks = 0, bs_tool_use_input_json_bytes = 0, bs_tool_result_blocks = 0, bs_tool_result_bytes = 0,
      bs_image_blocks = 0, bs_image_data_bytes = 0, bs_openai_compaction_blocks = 0, bs_openai_compaction_bytes = 0,
      bs_large_block_count = 0, bs_large_block_bytes = 0, bs_large_tool_result_count = 0,
      bs_large_tool_result_bytes = 0, bs_max_block_bytes = 0, bs_max_tool_result_bytes = 0\<rparr>"

definition merge_from :: "block_stats \<Rightarrow> block_stats \<Rightarrow> block_stats" where
  "merge_from a b =
     \<lparr>bs_block_count = bs_block_count a + bs_block_count b,
      bs_text_blocks = bs_text_blocks a + bs_text_blocks b,
      bs_text_bytes = bs_text_bytes a + bs_text_bytes b,
      bs_reasoning_blocks = bs_reasoning_blocks a + bs_reasoning_blocks b,
      bs_reasoning_bytes = bs_reasoning_bytes a + bs_reasoning_bytes b,
      bs_tool_use_blocks = bs_tool_use_blocks a + bs_tool_use_blocks b,
      bs_tool_use_input_json_bytes = bs_tool_use_input_json_bytes a + bs_tool_use_input_json_bytes b,
      bs_tool_result_blocks = bs_tool_result_blocks a + bs_tool_result_blocks b,
      bs_tool_result_bytes = bs_tool_result_bytes a + bs_tool_result_bytes b,
      bs_image_blocks = bs_image_blocks a + bs_image_blocks b,
      bs_image_data_bytes = bs_image_data_bytes a + bs_image_data_bytes b,
      bs_openai_compaction_blocks = bs_openai_compaction_blocks a + bs_openai_compaction_blocks b,
      bs_openai_compaction_bytes = bs_openai_compaction_bytes a + bs_openai_compaction_bytes b,
      bs_large_block_count = bs_large_block_count a + bs_large_block_count b,
      bs_large_block_bytes = bs_large_block_bytes a + bs_large_block_bytes b,
      bs_large_tool_result_count = bs_large_tool_result_count a + bs_large_tool_result_count b,
      bs_large_tool_result_bytes = bs_large_tool_result_bytes a + bs_large_tool_result_bytes b,
      bs_max_block_bytes = max (bs_max_block_bytes a) (bs_max_block_bytes b),
      bs_max_tool_result_bytes = max (bs_max_tool_result_bytes a) (bs_max_tool_result_bytes b)\<rparr>"

definition record_bytes :: "nat \<Rightarrow> block_stats \<Rightarrow> block_stats" where
  "record_bytes bytes s =
     (let s = s\<lparr>bs_max_block_bytes := max (bs_max_block_bytes s) bytes\<rparr>
      in if bytes \<ge> LARGE_MEMORY_BLOB_THRESHOLD_BYTES
         then s\<lparr>bs_large_block_count := bs_large_block_count s + 1,
                bs_large_block_bytes := bs_large_block_bytes s + bytes\<rparr>
         else s)"

text \<open>\<^verbatim>\<open>json_len\<close> is the length of a printed JSON value.\<close>

fun record_kind :: "(json \<Rightarrow> nat) \<Rightarrow> content_block \<Rightarrow> block_stats \<Rightarrow> block_stats" where
  "record_kind json_len (Text t cc) s =
     record_bytes (length t) (s\<lparr>bs_text_blocks := bs_text_blocks s + 1, bs_text_bytes := bs_text_bytes s + length t\<rparr>)"
| "record_kind json_len (Reasoning t) s =
     record_bytes (length t) (s\<lparr>bs_reasoning_blocks := bs_reasoning_blocks s + 1,
                                bs_reasoning_bytes := bs_reasoning_bytes s + length t\<rparr>)"
| "record_kind json_len (ToolUse i name input) s =
     record_bytes (json_len input) (s\<lparr>bs_tool_use_blocks := bs_tool_use_blocks s + 1,
                                      bs_tool_use_input_json_bytes := bs_tool_use_input_json_bytes s + json_len input\<rparr>)"
| "record_kind json_len (ToolResult i content e) s =
     (let s = s\<lparr>bs_tool_result_blocks := bs_tool_result_blocks s + 1,
                bs_tool_result_bytes := bs_tool_result_bytes s + length content,
                bs_max_tool_result_bytes := max (bs_max_tool_result_bytes s) (length content)\<rparr>;
          s = (if length content \<ge> LARGE_MEMORY_BLOB_THRESHOLD_BYTES
               then s\<lparr>bs_large_tool_result_count := bs_large_tool_result_count s + 1,
                      bs_large_tool_result_bytes := bs_large_tool_result_bytes s + length content\<rparr>
               else s)
      in record_bytes (length content) s)"
| "record_kind json_len (Image mt data) s =
     record_bytes (length data) (s\<lparr>bs_image_blocks := bs_image_blocks s + 1,
                                   bs_image_data_bytes := bs_image_data_bytes s + length data\<rparr>)"
| "record_kind json_len (OpenAICompaction c) s =
     record_bytes (length c) (s\<lparr>bs_openai_compaction_blocks := bs_openai_compaction_blocks s + 1,
                                bs_openai_compaction_bytes := bs_openai_compaction_bytes s + length c\<rparr>)"

definition record_block :: "(json \<Rightarrow> nat) \<Rightarrow> content_block \<Rightarrow> block_stats \<Rightarrow> block_stats" where
  "record_block json_len b s = record_kind json_len b (s\<lparr>bs_block_count := bs_block_count s + 1\<rparr>)"

definition summarize_blocks :: "(json \<Rightarrow> nat) \<Rightarrow> content_block list \<Rightarrow> block_stats" where
  "summarize_blocks json_len blocks = fold (record_block json_len) blocks block_stats_default"

definition summarize_message_content :: "(json \<Rightarrow> nat) \<Rightarrow> content_block list list \<Rightarrow> block_stats" where
  "summarize_message_content json_len messages = fold (fold (record_block json_len)) messages block_stats_default"

definition payload_text_bytes :: "block_stats \<Rightarrow> nat" where
  "payload_text_bytes s =
     bs_text_bytes s + bs_reasoning_bytes s + bs_tool_result_bytes s + bs_image_data_bytes s + bs_openai_compaction_bytes s"

record profile_cache =
  pc_messages_count :: nat
  pc_messages_json_bytes :: nat
  pc_message_stats :: block_stats
  pc_env_snapshots_count :: nat
  pc_env_snapshots_json_bytes :: nat
  pc_memory_injections_count :: nat
  pc_memory_injections_json_bytes :: nat
  pc_replay_events_count :: nat
  pc_replay_events_json_bytes :: nat
  pc_provider_cache_count :: nat
  pc_provider_cache_json_bytes :: nat
  pc_provider_cache_stats :: block_stats

definition profile_cache_default :: profile_cache where
  "profile_cache_default =
     \<lparr>pc_messages_count = 0, pc_messages_json_bytes = 0, pc_message_stats = block_stats_default,
      pc_env_snapshots_count = 0, pc_env_snapshots_json_bytes = 0, pc_memory_injections_count = 0,
      pc_memory_injections_json_bytes = 0, pc_replay_events_count = 0, pc_replay_events_json_bytes = 0,
      pc_provider_cache_count = 0, pc_provider_cache_json_bytes = 0, pc_provider_cache_stats = block_stats_default\<rparr>"

subsection \<open>Sessions\<close>

record session = session_meta +
  id_of :: string
  created_at :: datetime
  messages :: "stored_message list"
  env_snapshots :: "env_snapshot list"
  memory_injections :: "stored_memory_injection list"
  replay_events :: "stored_replay_event list"
  persist_state :: persist_state
  provider_messages_cache :: "message list"
  prefix_hashes_cache :: "u64 list"
  provider_messages_cache_len :: nat
  provider_messages_cache_mode :: vector_mode
  memory_profile_cache :: profile_cache
  memory_profile_dirty :: bool

text \<open>Lengths of printed values, and the printers that the message hash uses.\<close>

record session_env =
  se_json_len :: "json \<Rightarrow> nat"
  se_stored_len :: "stored_message \<Rightarrow> nat"
  se_env_len :: "env_snapshot \<Rightarrow> nat"
  se_injection_len :: "stored_memory_injection \<Rightarrow> nat"
  se_event_len :: "stored_replay_event \<Rightarrow> nat"
  se_message_len :: "message \<Rightarrow> nat"
  se_compaction_len :: "stored_compaction \<Rightarrow> nat"
  se_to_vec :: "message \<Rightarrow> u8 list option"
  se_debug_bytes :: "message \<Rightarrow> u8 list"

definition MAX_SESSION_JOURNAL_BYTES :: nat where
  "MAX_SESSION_JOURNAL_BYTES = 512 * 1024"

definition MAX_ENV_SNAPSHOTS :: nat where
  "MAX_ENV_SNAPSHOTS = 8"

definition journal_meta :: "session \<Rightarrow> session_meta" where
  "journal_meta s = session_meta.truncate s"

definition mark_memory_profile_dirty :: "session \<Rightarrow> session" where
  "mark_memory_profile_dirty s = s\<lparr>memory_profile_dirty := True\<rparr>"

definition apply_journal_meta :: "session_meta \<Rightarrow> session \<Rightarrow> session" where
  "apply_journal_meta meta s = mark_memory_profile_dirty (session_meta.extend meta (session_meta.more s))"

definition reset_persist_state :: "bool \<Rightarrow> session \<Rightarrow> session" where
  "reset_persist_state snapshot_exists s =
     s\<lparr>persist_state :=
         \<lparr>ps_snapshot_exists = snapshot_exists, ps_messages_len = length (messages s),
          ps_env_snapshots_len = length (env_snapshots s),
          ps_memory_injections_len = length (memory_injections s),
          ps_replay_events_len = length (replay_events s), ps_messages_mode = Clean,
          ps_env_snapshots_mode = Clean, ps_memory_injections_mode = Clean, ps_replay_events_mode = Clean,
          ps_last_meta = Some (journal_meta s)\<rparr>\<rparr>"

definition reset_provider_messages_cache :: "session \<Rightarrow> session" where
  "reset_provider_messages_cache s =
     s\<lparr>provider_messages_cache := [], prefix_hashes_cache := [], provider_messages_cache_len := 0,
       provider_messages_cache_mode := Full,
       memory_profile_cache := (memory_profile_cache s)\<lparr>pc_provider_cache_count := 0,
         pc_provider_cache_json_bytes := 0, pc_provider_cache_stats := block_stats_default\<rparr>\<rparr>"

definition message_hash :: "session_env \<Rightarrow> message \<Rightarrow> u64" where
  "message_hash env m = stable_message_hash (se_to_vec env) (se_debug_bytes env) m"

definition push_provider_message_cache_entry :: "session_env \<Rightarrow> message \<Rightarrow> session \<Rightarrow> session" where
  "push_provider_message_cache_entry env message s =
     (let prefix_hash = (case rev (prefix_hashes_cache s) of
                           prev # _ \<Rightarrow> extend_stable_hash prev (message_hash env message)
                         | [] \<Rightarrow> message_hash env message);
          pc = memory_profile_cache s
      in s\<lparr>memory_profile_cache := pc\<lparr>pc_provider_cache_count := pc_provider_cache_count pc + 1,
             pc_provider_cache_json_bytes := pc_provider_cache_json_bytes pc + se_message_len env message,
             pc_provider_cache_stats :=
               merge_from (pc_provider_cache_stats pc) (summarize_blocks (se_json_len env) (msg_content message))\<rparr>,
           provider_messages_cache := provider_messages_cache s @ [message],
           prefix_hashes_cache := prefix_hashes_cache s @ [prefix_hash]\<rparr>)"

definition rebuild_memory_profile_cache :: "session_env \<Rightarrow> session \<Rightarrow> session" where
  "rebuild_memory_profile_cache env s =
     s\<lparr>memory_profile_cache :=
         \<lparr>pc_messages_count = length (messages s),
          pc_messages_json_bytes = sum_list (map (se_stored_len env) (messages s)),
          pc_message_stats = summarize_message_content (se_json_len env) (map st_content (messages s)),
          pc_env_snapshots_count = length (env_snapshots s),
          pc_env_snapshots_json_bytes = sum_list (map (se_env_len env) (env_snapshots s)),
          pc_memory_injections_count = length (memory_injections s),
          pc_memory_injections_json_bytes = sum_list (map (se_injection_len env) (memory_injections s)),
          pc_replay_events_count = length (replay_events s),
          pc_replay_events_json_bytes = sum_list (map (se_event_len env) (replay_events s)),
          pc_provider_cache_count = length (provider_messages_cache s),
          pc_provider_cache_json_bytes = sum_list (map (se_message_len env) (provider_messages_cache s)),
          pc_provider_cache_stats =
            summarize_message_content (se_json_len env) (map msg_content (provider_messages_cache s))\<rparr>,
       memory_profile_dirty := False\<rparr>"

definition ensure_memory_profile_cache :: "session_env \<Rightarrow> session \<Rightarrow> session" where
  "ensure_memory_profile_cache env s =
     (if memory_profile_dirty s then rebuild_memory_profile_cache env s else s)"

record profile_snapshot =
  pf_message_count :: nat
  pf_provider_cache_message_count :: nat
  pf_env_snapshot_count :: nat
  pf_memory_injection_count :: nat
  pf_replay_event_count :: nat
  pf_payload_text_bytes :: nat
  pf_total_json_bytes :: nat
  pf_provider_cache_json_bytes :: nat
  pf_canonical_tool_result_bytes :: nat
  pf_provider_cache_tool_result_bytes :: nat
  pf_canonical_large_blob_bytes :: nat
  pf_provider_cache_large_blob_bytes :: nat

definition memory_profile_snapshot :: "session_env \<Rightarrow> session \<Rightarrow> profile_snapshot \<times> session" where
  "memory_profile_snapshot env s =
     (let s = ensure_memory_profile_cache env s; pc = memory_profile_cache s;
          compaction_json_bytes = (case compaction s of Some c \<Rightarrow> se_compaction_len env c | None \<Rightarrow> 0)
      in (\<lparr>pf_message_count = pc_messages_count pc,
           pf_provider_cache_message_count = pc_provider_cache_count pc,
           pf_env_snapshot_count = pc_env_snapshots_count pc,
           pf_memory_injection_count = pc_memory_injections_count pc,
           pf_replay_event_count = pc_replay_events_count pc,
           pf_payload_text_bytes = payload_text_bytes (pc_message_stats pc),
           pf_total_json_bytes = pc_messages_json_bytes pc + pc_provider_cache_json_bytes pc +
             pc_env_snapshots_json_bytes pc + pc_memory_injections_json_bytes pc +
             pc_replay_events_json_bytes pc + compaction_json_bytes,
           pf_provider_cache_json_bytes = pc_provider_cache_json_bytes pc,
           pf_canonical_tool_result_bytes = bs_tool_result_bytes (pc_message_stats pc),
           pf_provider_cache_tool_result_bytes = bs_tool_result_bytes (pc_provider_cache_stats pc),
           pf_canonical_large_blob_bytes = bs_large_block_bytes (pc_message_stats pc),
           pf_provider_cache_large_blob_bytes = bs_large_block_bytes (pc_provider_cache_stats pc)\<rparr>, s))"

subsection \<open>Dirty marks\<close>

definition append_mode :: "vector_mode \<Rightarrow> vector_mode" where
  "append_mode m = (if m \<noteq> Full then Append else m)"

definition mark_messages_append_dirty :: "session \<Rightarrow> session" where
  "mark_messages_append_dirty s =
     s\<lparr>persist_state := (persist_state s)\<lparr>ps_messages_mode := append_mode (ps_messages_mode (persist_state s))\<rparr>,
       provider_messages_cache_mode := append_mode (provider_messages_cache_mode s)\<rparr>"

definition mark_messages_full_dirty :: "session \<Rightarrow> session" where
  "mark_messages_full_dirty s =
     s\<lparr>persist_state := (persist_state s)\<lparr>ps_messages_mode := Full\<rparr>, provider_messages_cache_mode := Full\<rparr>"

definition mark_env_snapshots_append_dirty :: "session \<Rightarrow> session" where
  "mark_env_snapshots_append_dirty s =
     s\<lparr>persist_state := (persist_state s)\<lparr>ps_env_snapshots_mode := append_mode (ps_env_snapshots_mode (persist_state s))\<rparr>\<rparr>"

definition mark_env_snapshots_full_dirty :: "session \<Rightarrow> session" where
  "mark_env_snapshots_full_dirty s = s\<lparr>persist_state := (persist_state s)\<lparr>ps_env_snapshots_mode := Full\<rparr>\<rparr>"

definition mark_memory_injections_append_dirty :: "session \<Rightarrow> session" where
  "mark_memory_injections_append_dirty s =
     s\<lparr>persist_state := (persist_state s)\<lparr>ps_memory_injections_mode :=
        append_mode (ps_memory_injections_mode (persist_state s))\<rparr>\<rparr>"

definition mark_replay_events_append_dirty :: "session \<Rightarrow> session" where
  "mark_replay_events_append_dirty s =
     s\<lparr>persist_state := (persist_state s)\<lparr>ps_replay_events_mode := append_mode (ps_replay_events_mode (persist_state s))\<rparr>\<rparr>"

subsection \<open>Creation and metadata\<close>

text \<open>\<^verbatim>\<open>cwd\<close> is the current directory, \<^verbatim>\<open>pid\<close> the process, \<^verbatim>\<open>test\<close> the flag \<^verbatim>\<open>GCODE_TEST_SESSION\<close>.\<close>

definition create_with_id ::
  "datetime \<Rightarrow> bool \<Rightarrow> string option \<Rightarrow> u32 \<Rightarrow> string \<Rightarrow> string option \<Rightarrow> string option \<Rightarrow> session" where
  "create_with_id now test cwd pid session_id parent ttl =
     reset_persist_state False
       \<lparr>parent_id = parent, title = ttl, updated_at = now, compaction = None, provider_session_id = None,
        provider_key = None, model = None, reasoning_effort = None, subagent_model = None, improve_mode = None,
        autoreview_enabled = None, autojudge_enabled = None, is_canary = False, testing_build = None,
        working_dir = cwd, short_name = extract_session_name session_id, status = Active, last_pid = Some pid,
        last_active_at = Some now, is_debug = test, saved = False, save_label = None,
        id_of = session_id, created_at = now, messages = [], env_snapshots = [], memory_injections = [],
        replay_events = [], persist_state = persist_state_default, provider_messages_cache = [],
        prefix_hashes_cache = [], provider_messages_cache_len = 0, provider_messages_cache_mode = Full,
        memory_profile_cache = profile_cache_default, memory_profile_dirty = False\<rparr>"

definition set_debug :: "bool \<Rightarrow> session \<Rightarrow> session" where
  "set_debug b s = s\<lparr>is_debug := b\<rparr>"

definition mark_saved :: "string option \<Rightarrow> session \<Rightarrow> session" where
  "mark_saved label s = (let s = s\<lparr>saved := True\<rparr> in if label \<noteq> None then s\<lparr>save_label := label\<rparr> else s)"

definition unmark_saved :: "session \<Rightarrow> session" where
  "unmark_saved s = s\<lparr>saved := False, save_label := None\<rparr>"

definition rename_title :: "datetime \<Rightarrow> string option \<Rightarrow> session \<Rightarrow> session" where
  "rename_title now new_title s =
     s\<lparr>title := Option.bind new_title (\<lambda>t. if trim t \<noteq> [] then Some (trim t) else None), updated_at := now\<rparr>"

definition display_name :: "session \<Rightarrow> string" where
  "display_name s =
     (case short_name s of Some n \<Rightarrow> n
      | None \<Rightarrow> (case extract_session_name (id_of s) of Some n \<Rightarrow> n | None \<Rightarrow> id_of s))"

definition set_canary :: "string \<Rightarrow> session \<Rightarrow> session" where
  "set_canary build_hash s = s\<lparr>is_canary := True, testing_build := Some build_hash\<rparr>"

definition clear_canary :: "session \<Rightarrow> session" where
  "clear_canary s = s\<lparr>is_canary := False, testing_build := None\<rparr>"

definition set_status :: "session_status \<Rightarrow> session \<Rightarrow> session" where
  "set_status st s = s\<lparr>status := st\<rparr>"

text \<open>The directory of active processes: session identifiers to process numbers.\<close>

type_synonym active_pids = "string \<Rightarrow> u32 option"

definition mark_closed :: "session \<times> active_pids \<Rightarrow> session \<times> active_pids" where
  "mark_closed = (\<lambda>(s, pids). (s\<lparr>status := Closed\<rparr>, pids(id_of s := None)))"

definition mark_crashed :: "string option \<Rightarrow> session \<times> active_pids \<Rightarrow> session \<times> active_pids" where
  "mark_crashed message = (\<lambda>(s, pids). (s\<lparr>status := Crashed message\<rparr>, pids(id_of s := None)))"

definition mark_error :: "string \<Rightarrow> session \<Rightarrow> session" where
  "mark_error message s = s\<lparr>status := SessionError message\<rparr>"

definition mark_active_with_pid :: "datetime \<Rightarrow> u32 \<Rightarrow> session \<times> active_pids \<Rightarrow> session \<times> active_pids" where
  "mark_active_with_pid now pid = (\<lambda>(s, pids).
     (s\<lparr>status := Active, last_pid := Some pid, last_active_at := Some now\<rparr>, pids(id_of s := Some pid)))"

text \<open>Instants are nanoseconds; \<^verbatim>\<open>num_seconds\<close> of a positive difference rounds down.\<close>

definition detect_crash ::
  "(u32 \<Rightarrow> bool) \<Rightarrow> datetime \<Rightarrow> session \<times> active_pids \<Rightarrow> bool \<times> session \<times> active_pids" where
  "detect_crash is_pid_running now = (\<lambda>(s, pids).
     if status s \<noteq> Active then (False, s, pids)
     else case last_pid s of
       Some pid \<Rightarrow>
         if \<not> is_pid_running pid
         then (True, mark_crashed (Some (''Process '' @ show_nat (unat pid) @
                  '' exited unexpectedly (no shutdown signal captured)'')) (s, pids))
         else (False, s, pids)
     | None \<Rightarrow>
         if (now - updated_at s) div 1000000000 > 120
         then (True, mark_crashed (Some ''Stale active session (possible abrupt termination)'') (s, pids))
         else (False, s, pids))"

subsection \<open>The conversation\<close>

definition append_stored_message :: "session_env \<Rightarrow> stored_message \<Rightarrow> session \<Rightarrow> session" where
  "append_stored_message env message s =
     (let pc = memory_profile_cache s
      in mark_messages_append_dirty
           (s\<lparr>memory_profile_cache := pc\<lparr>pc_messages_count := pc_messages_count pc + 1,
                pc_messages_json_bytes := pc_messages_json_bytes pc + se_stored_len env message,
                pc_message_stats := merge_from (pc_message_stats pc) (summarize_blocks (se_json_len env) (st_content message))\<rparr>,
              messages := messages s @ [message]\<rparr>))"

definition add_message_ext_with_display_role ::
  "session_env \<Rightarrow> string \<Rightarrow> datetime \<Rightarrow> msg_role \<Rightarrow> content_block list \<Rightarrow> u64 option \<Rightarrow> stored_token_usage option \<Rightarrow>
     stored_display_role option \<Rightarrow> session \<Rightarrow> string \<times> session" where
  "add_message_ext_with_display_role env new_id now role content duration usage display_role s =
     (new_id, append_stored_message env
        \<lparr>st_id = new_id, st_role = role, st_content = content, st_display_role = display_role,
         st_timestamp = Some now, st_tool_duration_ms = duration, st_token_usage = usage\<rparr> s)"

definition add_message ::
  "session_env \<Rightarrow> string \<Rightarrow> datetime \<Rightarrow> msg_role \<Rightarrow> content_block list \<Rightarrow> session \<Rightarrow> string \<times> session" where
  "add_message env new_id now role content = add_message_ext_with_display_role env new_id now role content None None None"

text \<open>\<^verbatim>\<open>Vec::insert\<close> panics past the end.\<close>

definition insert_message :: "nat \<Rightarrow> stored_message \<Rightarrow> session \<Rightarrow> session option" where
  "insert_message index message s =
     (if index \<le> length (messages s)
      then Some (mark_messages_full_dirty (mark_memory_profile_dirty
             (s\<lparr>messages := take index (messages s) @ message # drop index (messages s)\<rparr>)))
      else None)"

definition replace_messages :: "stored_message list \<Rightarrow> session \<Rightarrow> session" where
  "replace_messages ms s = mark_messages_full_dirty (mark_memory_profile_dirty (s\<lparr>messages := ms\<rparr>))"

definition truncate_messages :: "nat \<Rightarrow> session \<Rightarrow> session" where
  "truncate_messages n s =
     (if n < length (messages s)
      then mark_messages_full_dirty (mark_memory_profile_dirty (s\<lparr>messages := take n (messages s)\<rparr>))
      else s)"

definition is_tool_use :: "content_block \<Rightarrow> bool" where
  "is_tool_use b = (case b of ToolUse i n v \<Rightarrow> True | _ \<Rightarrow> False)"

fun retain_in_message :: "string \<Rightarrow> stored_message list \<Rightarrow> stored_message list \<times> bool" where
  "retain_in_message message_id [] = ([], False)"
| "retain_in_message message_id (m # ms) =
     (if st_id m = message_id
      then (m\<lparr>st_content := filter (\<lambda>b. \<not> is_tool_use b) (st_content m)\<rparr> # ms, True)
      else (let (ms, found) = retain_in_message message_id ms in (m # ms, found)))"

definition remove_tool_use_blocks :: "string \<Rightarrow> session \<Rightarrow> session" where
  "remove_tool_use_blocks message_id s =
     (let (ms, found) = retain_in_message message_id (messages s)
      in if found then mark_messages_full_dirty (mark_memory_profile_dirty (s\<lparr>messages := ms\<rparr>)) else s)"

definition is_visible_conversation_message :: "stored_message \<Rightarrow> bool" where
  "is_visible_conversation_message m \<longleftrightarrow>
     st_display_role m = None \<and>
     \<not> (case first_text (st_content m) of
          Some t \<Rightarrow> starts_with ''<system-reminder>'' t | None \<Rightarrow> False)"

definition visible_conversation_messages :: "session \<Rightarrow> stored_message list" where
  "visible_conversation_messages s = filter is_visible_conversation_message (messages s)"

definition visible_conversation_message_count :: "session \<Rightarrow> nat" where
  "visible_conversation_message_count s = length (filter is_visible_conversation_message (messages s))"

fun stored_len_loop :: "nat \<Rightarrow> nat \<Rightarrow> nat \<Rightarrow> stored_message list \<Rightarrow> nat option" where
  "stored_len_loop visible_index found stored_index [] = None"
| "stored_len_loop visible_index found stored_index (m # ms) =
     (if is_visible_conversation_message m
      then (if found + 1 = visible_index then Some (stored_index + 1)
            else stored_len_loop visible_index (found + 1) (stored_index + 1) ms)
      else stored_len_loop visible_index found (stored_index + 1) ms)"

definition stored_len_for_visible_conversation_message :: "nat \<Rightarrow> session \<Rightarrow> nat option" where
  "stored_len_for_visible_conversation_message visible_index s =
     (if visible_index = 0 then None else stored_len_loop visible_index 0 0 (messages s))"

definition SESSION_CONTEXT_PREFIX :: string where
  "SESSION_CONTEXT_PREFIX = ''<system-reminder>'' @ nl @ ''# Session Context''"

definition is_context_block :: "content_block \<Rightarrow> bool" where
  "is_context_block b = (case b of Text t cc \<Rightarrow> starts_with SESSION_CONTEXT_PREFIX t | _ \<Rightarrow> False)"

definition has_session_context_message :: "session \<Rightarrow> bool" where
  "has_session_context_message s = list_ex (\<lambda>m. list_ex is_context_block (st_content m)) (messages s)"

text \<open>\<^verbatim>\<open>context\<close> is the result of \<^verbatim>\<open>build_session_context\<close> for the working directory.\<close>

definition wrap_context :: "string \<Rightarrow> string" where
  "wrap_context c = ''<system-reminder>'' @ nl @ trim c @ nl @ ''</system-reminder>''"

definition ensure_initial_session_context_message ::
  "session_env \<Rightarrow> string \<Rightarrow> datetime \<Rightarrow> string option \<Rightarrow> (string option \<Rightarrow> string) \<Rightarrow> session \<Rightarrow> bool \<times> session" where
  "ensure_initial_session_context_message env new_id now cwd build_context s =
     (if messages s \<noteq> [] \<or> has_session_context_message s then (False, s)
      else (let s = (case cwd of Some d \<Rightarrow> s\<lparr>working_dir := Some d\<rparr> | None \<Rightarrow> s)
            in (True, snd (add_message_ext_with_display_role env new_id now User
                 [Text (wrap_context (build_context (working_dir s))) None] None None (Some DisplaySystem) s))))"

text \<open>The first context block: unchanged, or replaced.\<close>

fun refresh_blocks :: "string \<Rightarrow> content_block list \<Rightarrow> content_block list \<times> bool" where
  "refresh_blocks wrapped [] = ([], False)"
| "refresh_blocks wrapped (b # bs) =
     (if is_context_block b
      then (case b of Text t cc \<Rightarrow> if t = wrapped then (b # bs, False) else (Text wrapped cc # bs, True)
            | _ \<Rightarrow> (b # bs, False))
      else (let (bs, changed) = refresh_blocks wrapped bs in (b # bs, changed)))"

fun refresh_messages :: "string \<Rightarrow> stored_message list \<Rightarrow> stored_message list \<times> bool" where
  "refresh_messages wrapped [] = ([], False)"
| "refresh_messages wrapped (m # ms) =
     (if list_ex is_context_block (st_content m)
      then (let (bs, changed) = refresh_blocks wrapped (st_content m) in (m\<lparr>st_content := bs\<rparr> # ms, changed))
      else (let (ms, changed) = refresh_messages wrapped ms in (m # ms, changed)))"

definition refresh_initial_session_context_message ::
  "(string option \<Rightarrow> string) \<Rightarrow> session \<Rightarrow> bool \<times> session" where
  "refresh_initial_session_context_message build_context s =
     (if list_ex is_visible_conversation_message (messages s) then (False, s)
      else (let (ms, changed) = refresh_messages (wrap_context (build_context (working_dir s))) (messages s)
            in if changed then (True, mark_messages_full_dirty (mark_memory_profile_dirty (s\<lparr>messages := ms\<rparr>)))
               else (False, s)))"

subsection \<open>Events for replay\<close>

definition record_env_snapshot :: "session_env \<Rightarrow> env_snapshot \<Rightarrow> session \<Rightarrow> session" where
  "record_env_snapshot env snapshot s =
     (let pc = memory_profile_cache s;
          all = env_snapshots s @ [snapshot];
          s = s\<lparr>memory_profile_cache := pc\<lparr>pc_env_snapshots_count := pc_env_snapshots_count pc + 1,
                 pc_env_snapshots_json_bytes := pc_env_snapshots_json_bytes pc + se_env_len env snapshot\<rparr>,
               env_snapshots := all\<rparr>
      in if length all > MAX_ENV_SNAPSHOTS
         then mark_env_snapshots_full_dirty (mark_memory_profile_dirty
                (s\<lparr>env_snapshots := drop (length all - MAX_ENV_SNAPSHOTS) all\<rparr>))
         else mark_env_snapshots_append_dirty s)"

definition record_memory_injection ::
  "session_env \<Rightarrow> datetime \<Rightarrow> string \<Rightarrow> string \<Rightarrow> u32 \<Rightarrow> u64 \<Rightarrow> string list \<Rightarrow> session \<Rightarrow> session" where
  "record_memory_injection env now summary content n age_ms memory_ids s =
     (let injection = \<lparr>mi_summary = summary, mi_content = content, mi_count = n, mi_memory_ids = memory_ids,
            mi_age_ms = Some age_ms, mi_before_message = Some (length (messages s)), mi_timestamp = now\<rparr>;
          pc = memory_profile_cache s
      in mark_memory_injections_append_dirty
           (s\<lparr>memory_profile_cache := pc\<lparr>pc_memory_injections_count := pc_memory_injections_count pc + 1,
                pc_memory_injections_json_bytes := pc_memory_injections_json_bytes pc + se_injection_len env injection\<rparr>,
              memory_injections := memory_injections s @ [injection]\<rparr>))"

text \<open>\<^verbatim>\<open>iter\<close> is the order in which the set of identifiers is read.\<close>

definition injected_memory_ids :: "(string list \<Rightarrow> string list) \<Rightarrow> session \<Rightarrow> string list" where
  "injected_memory_ids iter s = iter (remdups (concat (map mi_memory_ids (memory_injections s))))"

definition push_replay_event :: "session_env \<Rightarrow> datetime \<Rightarrow> replay_event_kind \<Rightarrow> session \<Rightarrow> session" where
  "push_replay_event env now kind s =
     (let event = \<lparr>re_timestamp = now, re_kind = kind\<rparr>; pc = memory_profile_cache s
      in mark_replay_events_append_dirty
           (s\<lparr>memory_profile_cache := pc\<lparr>pc_replay_events_count := pc_replay_events_count pc + 1,
                pc_replay_events_json_bytes := pc_replay_events_json_bytes pc + se_event_len env event\<rparr>,
              replay_events := replay_events s @ [event]\<rparr>))"

definition record_replay_display_message ::
  "session_env \<Rightarrow> datetime \<Rightarrow> string \<Rightarrow> string option \<Rightarrow> string \<Rightarrow> session \<Rightarrow> session" where
  "record_replay_display_message env now role ttl content = push_replay_event env now (DisplayMessage role ttl content)"

definition repeats_last_event :: "replay_event_kind \<Rightarrow> session \<Rightarrow> bool" where
  "repeats_last_event kind s = (case rev (replay_events s) of e # _ \<Rightarrow> re_kind e = kind | [] \<Rightarrow> False)"

definition record_swarm_status_event ::
  "session_env \<Rightarrow> datetime \<Rightarrow> swarm_member_status list \<Rightarrow> session \<Rightarrow> session" where
  "record_swarm_status_event env now members s =
     (if repeats_last_event (SwarmStatusEvent members) s then s
      else push_replay_event env now (SwarmStatusEvent members) s)"

definition record_swarm_plan_event ::
  "session_env \<Rightarrow> datetime \<Rightarrow> string \<Rightarrow> u64 \<Rightarrow> plan_item list \<Rightarrow> string list \<Rightarrow> string option \<Rightarrow> session \<Rightarrow> session" where
  "record_swarm_plan_event env now swarm_id version items participants reason s =
     (let kind = SwarmPlanEvent swarm_id version items participants reason
      in if repeats_last_event kind s then s else push_replay_event env now kind s)"

subsection \<open>Messages for the provider\<close>

definition push_provider_messages :: "session_env \<Rightarrow> stored_message list \<Rightarrow> session \<Rightarrow> session" where
  "push_provider_messages env ms s =
     (let s = fold (\<lambda>m. push_provider_message_cache_entry env (to_message m)) ms s
      in s\<lparr>provider_messages_cache_len := length (messages s), provider_messages_cache_mode := Clean\<rparr>)"

definition provider_messages :: "session_env \<Rightarrow> session \<Rightarrow> message list \<times> session" where
  "provider_messages env s =
     (let needs_full_rebuild = (provider_messages_cache_mode s = Full \<or>
            provider_messages_cache_len s > length (messages s));
          s = (if needs_full_rebuild
               then push_provider_messages env (messages s) (s\<lparr>provider_messages_cache := [], prefix_hashes_cache := []\<rparr>)
               else if provider_messages_cache_mode s = Append \<and> provider_messages_cache_len s < length (messages s)
               then push_provider_messages env (drop (provider_messages_cache_len s) (messages s)) s
               else s)
      in (provider_messages_cache s, s))"

definition provider_message_prefix_hashes :: "session_env \<Rightarrow> session \<Rightarrow> u64 list \<times> session" where
  "provider_message_prefix_hashes env s = (let s = snd (provider_messages env s) in (prefix_hashes_cache s, s))"

definition messages_for_provider_uncached :: "session \<Rightarrow> message list" where
  "messages_for_provider_uncached s = map to_message (messages s)"

definition strip_transcript_for_remote_client :: "session_env \<Rightarrow> session \<Rightarrow> session" where
  "strip_transcript_for_remote_client env s =
     reset_persist_state True (reset_provider_messages_cache (rebuild_memory_profile_cache env
       (s\<lparr>messages := [], compaction := None, env_snapshots := [], memory_injections := [], replay_events := []\<rparr>)))"

subsection \<open>Redaction\<close>

fun redact_json_value :: "(string \<Rightarrow> string) \<Rightarrow> json \<Rightarrow> json" where
  "redact_json_value redact (JString t) = JString (redact t)"
| "redact_json_value redact (JArray vs) = JArray (map (redact_json_value redact) vs)"
| "redact_json_value redact (JObject kvs) = JObject (map (\<lambda>(k, v). (k, redact_json_value redact v)) kvs)"
| "redact_json_value redact v = v"

fun redact_block :: "(string \<Rightarrow> string) \<Rightarrow> content_block \<Rightarrow> content_block" where
  "redact_block redact (Text t cc) = Text (redact t) cc"
| "redact_block redact (Reasoning t) = Reasoning (redact t)"
| "redact_block redact (ToolResult i content e) = ToolResult i (redact content) e"
| "redact_block redact (ToolUse i name input) = ToolUse i name (redact_json_value redact input)"
| "redact_block redact b = b"

fun redact_event :: "(string \<Rightarrow> string) \<Rightarrow> replay_event_kind \<Rightarrow> replay_event_kind" where
  "redact_event redact (DisplayMessage role ttl content) = DisplayMessage role (map_option redact ttl) (redact content)"
| "redact_event redact (SwarmStatusEvent members) =
     SwarmStatusEvent (map (\<lambda>m. m\<lparr>ms_detail := map_option redact (ms_detail m)\<rparr>) members)"
| "redact_event redact (SwarmPlanEvent swarm_id version items participants reason) =
     SwarmPlanEvent swarm_id version (map (\<lambda>i. i\<lparr>pi_content := redact (pi_content i)\<rparr>) items) participants
       (map_option redact reason)"

definition redacted_for_export :: "(string \<Rightarrow> string) \<Rightarrow> session \<Rightarrow> session" where
  "redacted_for_export redact s =
     s\<lparr>compaction := map_option (\<lambda>c. c\<lparr>sc_summary_text := redact (sc_summary_text c)\<rparr>) (compaction s),
       messages := map (\<lambda>m. m\<lparr>st_content := map (redact_block redact) (st_content m)\<rparr>) (messages s),
       replay_events := map (\<lambda>e. e\<lparr>re_kind := redact_event redact (re_kind e)\<rparr>) (replay_events s)\<rparr>"

subsection \<open>Saving and loading\<close>

record session_codec =
  enc_session :: "session \<Rightarrow> string"
  dec_session :: "string \<Rightarrow> session option"
  enc_entry :: "journal_entry \<Rightarrow> string"
  dec_entry :: "string \<Rightarrow> journal_entry option"

text \<open>
  What happens to the calls of one save: the append writes everything (\<^verbatim>\<open>None\<close>) or fails after some
  bytes, the snapshot is written or not, the journal is removed or not.
\<close>

record save_io =
  append_fails :: "nat option"
  snapshot_written :: bool
  journal_removed :: bool

definition all_ok :: save_io where
  "all_ok = \<lparr>append_fails = None, snapshot_written = True, journal_removed = True\<rparr>"

definition file_len_or_zero :: "string \<Rightarrow> disk \<Rightarrow> nat" where
  "file_len_or_zero p d = (case d p of Some s \<Rightarrow> length s | None \<Rightarrow> 0)"

definition apply_journal_entry :: "journal_entry \<Rightarrow> session \<Rightarrow> session" where
  "apply_journal_entry e s =
     (let s = apply_journal_meta (je_meta e) s
      in mark_memory_profile_dirty
           (s\<lparr>messages := messages s @ je_append_messages e,
              env_snapshots := env_snapshots s @ je_append_env_snapshots e,
              memory_injections := memory_injections s @ je_append_memory_injections e,
              replay_events := replay_events s @ je_append_replay_events e\<rparr>))"

fun replay_journal :: "(string \<Rightarrow> journal_entry option) \<Rightarrow> string list \<Rightarrow> session \<Rightarrow> session" where
  "replay_journal dec [] s = s"
| "replay_journal dec (line # ls) s =
     (if trim line = [] then replay_journal dec ls s
      else case dec (trim line) of
             Some e \<Rightarrow> replay_journal dec ls (apply_journal_entry e s)
           | None \<Rightarrow> s)"

text \<open>The paths: the snapshot, its backup, and the journal beside it.\<close>

record session_paths =
  sp_snapshot :: string
  sp_backup :: string
  sp_journal :: string

definition load_from_path :: "session_codec \<Rightarrow> session_paths \<Rightarrow> disk \<Rightarrow> session option \<times> disk" where
  "load_from_path c p d =
     (case read_json (dec_session c) (sp_snapshot p) (sp_backup p) d of
        (None, d) \<Rightarrow> (None, d)
      | (Some s, d) \<Rightarrow>
          (let s = (case d (sp_journal p) of
                      Some text \<Rightarrow> replay_journal (dec_entry c) (lines text) s
                    | None \<Rightarrow> s)
           in (Some (mark_memory_profile_dirty (reset_provider_messages_cache
                 (reset_persist_state (d (sp_snapshot p) \<noteq> None) s))), d)))"

text \<open>
  The client's view at startup: the snapshot without its event vectors, no recovery from the backup,
  and from the journal only metadata, messages and replay events.
\<close>

definition session_from_remote_startup_snapshot :: "session \<Rightarrow> session" where
  "session_from_remote_startup_snapshot s =
     reset_provider_messages_cache (reset_persist_state True (mark_memory_profile_dirty
       (s\<lparr>replay_events := [], env_snapshots := [], memory_injections := []\<rparr>)))"

definition session_from_startup_stub :: "session_env \<Rightarrow> session \<Rightarrow> session" where
  "session_from_startup_stub env s =
     reset_persist_state True (rebuild_memory_profile_cache env
       (s\<lparr>messages := [], env_snapshots := [], memory_injections := [], replay_events := [],
          provider_messages_cache := [], prefix_hashes_cache := [], provider_messages_cache_len := 0,
          provider_messages_cache_mode := Full\<rparr>))"

definition apply_remote_entry :: "journal_entry \<Rightarrow> session \<Rightarrow> session" where
  "apply_remote_entry e s =
     (let s = apply_journal_meta (je_meta e) s
      in s\<lparr>messages := messages s @ je_append_messages e,
           replay_events := replay_events s @ je_append_replay_events e\<rparr>)"

fun replay_remote :: "(string \<Rightarrow> journal_entry option) \<Rightarrow> string list \<Rightarrow> session \<Rightarrow> session" where
  "replay_remote dec [] s = s"
| "replay_remote dec (line # ls) s =
     (if trim line = [] then replay_remote dec ls s
      else case dec (trim line) of
             Some e \<Rightarrow> replay_remote dec ls (apply_remote_entry e s)
           | None \<Rightarrow> s)"

definition load_for_remote_startup :: "session_codec \<Rightarrow> session_paths \<Rightarrow> disk \<Rightarrow> session option" where
  "load_for_remote_startup c p d =
     map_option (\<lambda>s.
       let s = session_from_remote_startup_snapshot s;
           s = (case d (sp_journal p) of Some text \<Rightarrow> replay_remote (dec_entry c) (lines text) s | None \<Rightarrow> s)
       in mark_memory_profile_dirty (reset_provider_messages_cache (reset_persist_state (d (sp_snapshot p) \<noteq> None) s)))
     (Option.bind (d (sp_snapshot p)) (dec_session c))"

definition load_startup_stub :: "session_env \<Rightarrow> session_codec \<Rightarrow> session_paths \<Rightarrow> disk \<Rightarrow> session option" where
  "load_startup_stub env c p d =
     map_option (session_from_startup_stub env) (Option.bind (d (sp_snapshot p)) (dec_session c))"

text \<open>A write that succeeds leaves the previous version as the backup (\<^verbatim>\<open>Storage\<close> has its steps).\<close>

definition write_json_fast :: "bool \<Rightarrow> string \<Rightarrow> string \<Rightarrow> string \<Rightarrow> disk \<Rightarrow> bool \<times> disk" where
  "write_json_fast ok path bak bytes d =
     (if ok then (True, (case d path of Some old \<Rightarrow> d(bak \<mapsto> old) | None \<Rightarrow> d)(path \<mapsto> bytes)) else (False, d))"

definition append_bytes :: "string \<Rightarrow> string \<Rightarrow> disk \<Rightarrow> disk" where
  "append_bytes path bytes d = d(path \<mapsto> (case d path of Some old \<Rightarrow> old | None \<Rightarrow> []) @ bytes)"

definition append_json_line :: "nat option \<Rightarrow> string \<Rightarrow> string \<Rightarrow> disk \<Rightarrow> bool \<times> disk" where
  "append_json_line fails path printed d =
     (case fails of
        None \<Rightarrow> (True, append_bytes path (printed @ nl) d)
      | Some n \<Rightarrow> (False, append_bytes path (take n (printed @ nl)) d))"

definition checkpoint_snapshot ::
  "session_codec \<Rightarrow> session_paths \<Rightarrow> save_io \<Rightarrow> session \<times> disk \<Rightarrow> bool \<times> session \<times> disk" where
  "checkpoint_snapshot c p io = (\<lambda>(s, d).
     (case write_json_fast (snapshot_written io) (sp_snapshot p) (sp_backup p) (enc_session c s) d of
        (False, d) \<Rightarrow> (False, s, d)
      | (True, d) \<Rightarrow>
          (let d = (if d (sp_journal p) \<noteq> None \<and> journal_removed io then d(sp_journal p := None) else d)
           in (True, reset_persist_state True s, d))))"

definition vectors_need_snapshot :: "session \<Rightarrow> bool" where
  "vectors_need_snapshot s \<longleftrightarrow>
     (let ps = persist_state s in
      \<not> ps_snapshot_exists ps \<or> ps_messages_mode ps = Full \<or> ps_env_snapshots_mode ps = Full \<or>
      ps_memory_injections_mode ps = Full \<or> ps_replay_events_mode ps = Full \<or>
      length (messages s) < ps_messages_len ps \<or> length (env_snapshots s) < ps_env_snapshots_len ps \<or>
      length (memory_injections s) < ps_memory_injections_len ps \<or>
      length (replay_events s) < ps_replay_events_len ps)"

definition increment_entry :: "session \<Rightarrow> journal_entry" where
  "increment_entry s =
     (let ps = persist_state s in
      \<lparr>je_meta = journal_meta s, je_append_messages = drop (ps_messages_len ps) (messages s),
       je_append_env_snapshots = drop (ps_env_snapshots_len ps) (env_snapshots s),
       je_append_memory_injections = drop (ps_memory_injections_len ps) (memory_injections s),
       je_append_replay_events = drop (ps_replay_events_len ps) (replay_events s)\<rparr>)"

text \<open>Whether the save succeeded, the session and the disk.\<close>

definition save :: "session_codec \<Rightarrow> session_paths \<Rightarrow> datetime \<Rightarrow> save_io \<Rightarrow> session \<times> disk \<Rightarrow> bool \<times> session \<times> disk" where
  "save c p now io = (\<lambda>(s, d).
     (let s = s\<lparr>updated_at := now\<rparr>;
          metadata_needs_snapshot = (case ps_last_meta (persist_state s) of
            Some prev \<Rightarrow> metadata_requires_snapshot prev (journal_meta s) | None \<Rightarrow> False)
      in if metadata_needs_snapshot \<or> vectors_need_snapshot s then checkpoint_snapshot c p io (s, d)
         else (case append_json_line (append_fails io) (sp_journal p) (enc_entry c (increment_entry s)) d of
                 (True, d) \<Rightarrow>
                   (let s = reset_persist_state True s
                    in if file_len_or_zero (sp_journal p) d > MAX_SESSION_JOURNAL_BYTES
                       then checkpoint_snapshot c p io (s, d) else (True, s, d))
               | (False, d) \<Rightarrow> checkpoint_snapshot c p io (s, d))))"

section \<open>What a save keeps\<close>

text \<open>A session as it is read back: the skipped fields have their defaults.\<close>

definition deserialized :: "session \<Rightarrow> session" where
  "deserialized s =
     s\<lparr>persist_state := persist_state_default, provider_messages_cache := [], prefix_hashes_cache := [],
       provider_messages_cache_len := 0, provider_messages_cache_mode := Clean,
       memory_profile_cache := profile_cache_default, memory_profile_dirty := False\<rparr>"

text \<open>The printers and readers fit for the values at hand.\<close>

definition session_prints :: "session_codec \<Rightarrow> session \<Rightarrow> bool" where
  "session_prints c s \<longleftrightarrow>
     dec_session c (enc_session c s) = Some (deserialized s) \<and>
     dec_session c (enc_session c (reset_persist_state True s)) = Some (deserialized s)"

definition entry_prints :: "session_codec \<Rightarrow> journal_entry \<Rightarrow> bool" where
  "entry_prints c e \<longleftrightarrow>
     dec_entry c (enc_entry c e) = Some e \<and> newline \<notin> set (enc_entry c e) \<and> CHR 0x0D \<notin> set (enc_entry c e) \<and>
     trim (enc_entry c e) = enc_entry c e \<and> enc_entry c e \<noteq> []"

text \<open>The changes of a session between saves; the metadata fields are public and change freely.\<close>

inductive session_change :: "session_env \<Rightarrow> session \<Rightarrow> session \<Rightarrow> bool" for env where
  meta: "session_change env s (session_meta.extend m (session_meta.more s))"
| append: "session_change env s (append_stored_message env m s)"
| inserted: "insert_message i m s = Some s' \<Longrightarrow> session_change env s s'"
| replaced: "session_change env s (replace_messages ms s)"
| truncated: "session_change env s (truncate_messages n s)"
| tools_removed: "session_change env s (remove_tool_use_blocks i s)"
| refreshed: "session_change env s (snd (refresh_initial_session_context_message f s))"
| snapshot: "session_change env s (record_env_snapshot env e s)"
| injection: "session_change env s (record_memory_injection env now a b n age ids s)"
| display_event: "session_change env s (record_replay_display_message env now role ttl content s)"
| status_event: "session_change env s (record_swarm_status_event env now members s)"
| plan_event: "session_change env s (record_swarm_plan_event env now w v items ps reason s)"
| provider: "session_change env s (snd (provider_messages env s))"
| profile: "session_change env s (snd (memory_profile_snapshot env s))"

text \<open>
  The history of one session on one disk: changes, saves and reloads. A save may fail unless it
  leaves part of a line in the journal, and whatever else fails, the removal of the journal succeeds.
\<close>

inductive session_history :: "session_env \<Rightarrow> session_codec \<Rightarrow> session_paths \<Rightarrow> session \<times> disk \<Rightarrow> bool"
  for env c p where
  created: "session_history env c p (create_with_id now test cwd pid i par ttl, d)"
| changed: "session_history env c p (s, d) \<Longrightarrow> session_change env s s' \<Longrightarrow> session_history env c p (s', d)"
| saved: "session_history env c p (s, d) \<Longrightarrow> session_prints c (s\<lparr>updated_at := now\<rparr>) \<Longrightarrow>
    entry_prints c (increment_entry (s\<lparr>updated_at := now\<rparr>)) \<Longrightarrow> journal_removed io \<Longrightarrow>
    save c p now io (s, d) = (r, s', d') \<Longrightarrow> r \<or> append_fails io \<in> {None, Some 0} \<Longrightarrow>
    session_history env c p (s', d')"
| loaded: "session_history env c p (s, d) \<Longrightarrow> ps_snapshot_exists (persist_state s) \<Longrightarrow>
    load_from_path c p d = (Some s', d') \<Longrightarrow> session_history env c p (s', d')"

definition paths_ok :: "session_paths \<Rightarrow> bool" where
  "paths_ok p \<longleftrightarrow> distinct [sp_snapshot p, sp_backup p, sp_journal p]"

definition journal_holds :: "session_codec \<Rightarrow> session_paths \<Rightarrow> disk \<Rightarrow> journal_entry list \<Rightarrow> bool" where
  "journal_holds c p d es \<longleftrightarrow>
     (\<forall>e\<in>set es. entry_prints c e) \<and>
     (case d (sp_journal p) of None \<Rightarrow> es = [] | Some t \<Rightarrow> t = concat (map (\<lambda>e. enc_entry c e @ nl) es))"

definition grows_from :: "vector_mode \<Rightarrow> nat \<Rightarrow> 'a list \<Rightarrow> 'a list \<Rightarrow> bool" where
  "grows_from mode n old new \<longleftrightarrow> mode \<noteq> Full \<longrightarrow> n = length old \<and> take n new = old"

text \<open>How a session relates to the version on disk.\<close>

definition continues :: "session \<Rightarrow> session \<Rightarrow> bool" where
  "continues b s \<longleftrightarrow>
     (let ps = persist_state s in
      id_of b = id_of s \<and> created_at b = created_at s \<and>
      grows_from (ps_messages_mode ps) (ps_messages_len ps) (messages b) (messages s) \<and>
      grows_from (ps_env_snapshots_mode ps) (ps_env_snapshots_len ps) (env_snapshots b) (env_snapshots s) \<and>
      grows_from (ps_memory_injections_mode ps) (ps_memory_injections_len ps) (memory_injections b) (memory_injections s) \<and>
      grows_from (ps_replay_events_mode ps) (ps_replay_events_len ps) (replay_events b) (replay_events s))"

definition synced :: "session_codec \<Rightarrow> session_paths \<Rightarrow> session \<Rightarrow> disk \<Rightarrow> bool" where
  "synced c p s d \<longleftrightarrow>
     (ps_snapshot_exists (persist_state s) \<longrightarrow>
       (\<exists>t b es m. d (sp_snapshot p) = Some t \<and> dec_session c t = Some b \<and> journal_holds c p d es \<and>
          continues (fold apply_journal_entry es b) s \<and> m = journal_meta (fold apply_journal_entry es b) \<and>
          ps_last_meta (persist_state s) = Some m \<and> \<not> metadata_requires_snapshot (journal_meta b) m))"

section \<open>Lemmas\<close>

lemma deserialized_eq_iff:
  "deserialized a = deserialized b \<longleftrightarrow>
     journal_meta a = journal_meta b \<and> id_of a = id_of b \<and> created_at a = created_at b \<and>
     messages a = messages b \<and> env_snapshots a = env_snapshots b \<and>
     memory_injections a = memory_injections b \<and> replay_events a = replay_events b"
  by (cases a; cases b) (simp add: deserialized_def journal_meta_def session_meta.defs)

lemma journal_meta_extend [simp]: "journal_meta (session_meta.extend m (session_meta.more s)) = m"
  by (cases m) (simp add: journal_meta_def session_meta.defs)

lemma extend_fields [simp]:
  "id_of (session_meta.extend m (session_meta.more s)) = id_of s"
  "created_at (session_meta.extend m (session_meta.more s)) = created_at s"
  "messages (session_meta.extend m (session_meta.more s)) = messages s"
  "env_snapshots (session_meta.extend m (session_meta.more s)) = env_snapshots s"
  "memory_injections (session_meta.extend m (session_meta.more s)) = memory_injections s"
  "replay_events (session_meta.extend m (session_meta.more s)) = replay_events s"
  "persist_state (session_meta.extend m (session_meta.more s)) = persist_state s"
  "provider_messages_cache (session_meta.extend m (session_meta.more s)) = provider_messages_cache s"
  "prefix_hashes_cache (session_meta.extend m (session_meta.more s)) = prefix_hashes_cache s"
  "provider_messages_cache_len (session_meta.extend m (session_meta.more s)) = provider_messages_cache_len s"
  "provider_messages_cache_mode (session_meta.extend m (session_meta.more s)) = provider_messages_cache_mode s"
  by (cases s; simp add: session_meta.defs)+

lemma apply_journal_entry_fields [simp]:
  "journal_meta (apply_journal_entry e s) = je_meta e"
  "id_of (apply_journal_entry e s) = id_of s"
  "created_at (apply_journal_entry e s) = created_at s"
  "messages (apply_journal_entry e s) = messages s @ je_append_messages e"
  "env_snapshots (apply_journal_entry e s) = env_snapshots s @ je_append_env_snapshots e"
  "memory_injections (apply_journal_entry e s) = memory_injections s @ je_append_memory_injections e"
  "replay_events (apply_journal_entry e s) = replay_events s @ je_append_replay_events e"
proof -
  have "journal_meta (s\<lparr>messages := a, env_snapshots := b, memory_injections := f, replay_events := g, memory_profile_dirty := h\<rparr>) = journal_meta s"
    "journal_meta (s\<lparr>memory_profile_dirty := h\<rparr>) = journal_meta s"
    for s a b f g h by (simp_all add: journal_meta_def session_meta.defs)
  then show "journal_meta (apply_journal_entry e s) = je_meta e"
    by (simp add: apply_journal_entry_def apply_journal_meta_def mark_memory_profile_dirty_def Let_def)
qed (simp_all add: apply_journal_entry_def apply_journal_meta_def mark_memory_profile_dirty_def Let_def)

lemma concat_terminated: "ls \<noteq> [] \<Longrightarrow> concat (map (\<lambda>l. l @ nl) ls) = join nl ls @ nl"
  by (induction nl ls rule: join.induct) auto

lemma journal_lines:
  assumes "\<forall>e\<in>set es. entry_prints c e"
  shows "lines (concat (map (\<lambda>e. enc_entry c e @ nl) es)) = map (enc_entry c) es"
proof (cases "es = []")
  case True
  then show ?thesis by (simp add: lines_def)
next
  case False
  have "concat (map (\<lambda>e. enc_entry c e @ nl) es) = join nl (map (enc_entry c) es) @ nl"
    using False concat_terminated[of "map (enc_entry c) es"] by (simp add: comp_def)
  moreover have "lines (join nl (map (enc_entry c) es) @ nl) = map (enc_entry c) es"
    using assms False by (intro lines_terminated) (auto simp: entry_prints_def)
  ultimately show ?thesis by simp
qed

lemma replay_printed:
  "\<forall>e\<in>set es. entry_prints c e \<Longrightarrow>
     replay_journal (dec_entry c) (map (enc_entry c) es) s = fold apply_journal_entry es s"
  by (induction es arbitrary: s) (simp_all add: entry_prints_def)

lemma load_synced:
  assumes "d (sp_snapshot p) = Some t" "dec_session c t = Some b" "journal_holds c p d es"
  shows "load_from_path c p d =
    (Some (mark_memory_profile_dirty (reset_provider_messages_cache
       (reset_persist_state True (fold apply_journal_entry es b)))), d)"
  using assms journal_lines[of es c] replay_printed[of es c b]
  by (auto simp: load_from_path_def read_json_def journal_holds_def Let_def split: option.splits)

text \<open>The parts of a session that a save looks at.\<close>

definition kept :: "session \<Rightarrow> session \<times> persist_state" where
  "kept s = (deserialized s, persist_state s)"

lemma kept_eq_iff: "kept a = kept b \<longleftrightarrow> deserialized a = deserialized b \<and> persist_state a = persist_state b"
  by (simp add: kept_def)

lemma kept_updates [simp]:
  "kept (s\<lparr>provider_messages_cache := a\<rparr>) = kept s"
  "kept (s\<lparr>prefix_hashes_cache := h\<rparr>) = kept s"
  "kept (s\<lparr>provider_messages_cache_len := n\<rparr>) = kept s"
  "kept (s\<lparr>provider_messages_cache_mode := m\<rparr>) = kept s"
  "kept (s\<lparr>memory_profile_cache := pc\<rparr>) = kept s"
  "kept (s\<lparr>memory_profile_dirty := b\<rparr>) = kept s"
  by (simp_all add: kept_def deserialized_def)

lemma kept_push [simp]: "kept (push_provider_message_cache_entry env m s) = kept s"
  by (simp add: push_provider_message_cache_entry_def Let_def)

lemma kept_fold_push: "kept (fold (\<lambda>m. push_provider_message_cache_entry env (f m)) ms s) = kept s"
  by (induction ms arbitrary: s) simp_all

lemma kept_push_messages [simp]: "kept (push_provider_messages env ms s) = kept s"
  by (simp add: push_provider_messages_def Let_def kept_fold_push)

lemma kept_provider [simp]: "kept (snd (provider_messages env s)) = kept s"
  by (simp add: provider_messages_def Let_def)

lemma kept_rebuild [simp]: "kept (rebuild_memory_profile_cache env s) = kept s"
  by (simp add: rebuild_memory_profile_cache_def)

lemma kept_profile [simp]: "kept (snd (memory_profile_snapshot env s)) = kept s"
  by (simp add: memory_profile_snapshot_def ensure_memory_profile_cache_def Let_def)

lemma continues_cong: "kept s = kept s' \<Longrightarrow> continues b s = continues b s'"
  by (simp add: kept_eq_iff deserialized_eq_iff continues_def)

lemma synced_cong: "kept s = kept s' \<Longrightarrow> synced c p s d = synced c p s' d"
  using continues_cong[of s s'] by (simp add: synced_def kept_eq_iff)

lemma grows_from_append:
  "grows_from mode n old new \<Longrightarrow> grows_from (append_mode mode) n old (new @ xs)"
  by (auto simp: grows_from_def append_mode_def) (metis append_take_drop_id length_take min.commute min.left_idem
      append_eq_append_conv_if order_refl take_all take_append)

lemma grows_from_Full [simp]: "grows_from Full n old new"
  by (simp add: grows_from_def)

lemma change_keeps:
  assumes "session_change env s s'"
  shows "(continues b s \<longrightarrow> continues b s') \<and> ps_snapshot_exists (persist_state s') = ps_snapshot_exists (persist_state s) \<and>
         ps_last_meta (persist_state s') = ps_last_meta (persist_state s)"
  using assms
proof (induction rule: session_change.induct)
  case (meta s m)
  then show ?case by (simp add: continues_def)
next
  case (append s m)
  then show ?case
    by (auto simp: continues_def append_stored_message_def mark_messages_append_dirty_def Let_def grows_from_append)
next
  case (inserted i m s s')
  then show ?case
    by (auto simp: continues_def insert_message_def mark_messages_full_dirty_def mark_memory_profile_dirty_def Let_def split: if_splits)
next
  case (replaced s ms)
  then show ?case
    by (simp add: continues_def replace_messages_def mark_messages_full_dirty_def mark_memory_profile_dirty_def Let_def)
next
  case (truncated s n)
  then show ?case
    by (simp add: continues_def truncate_messages_def mark_messages_full_dirty_def mark_memory_profile_dirty_def Let_def)
next
  case (tools_removed s i)
  then show ?case
    by (simp add: continues_def remove_tool_use_blocks_def mark_messages_full_dirty_def mark_memory_profile_dirty_def
        Let_def split: prod.split)
next
  case (refreshed s f)
  then show ?case
    by (simp add: continues_def refresh_initial_session_context_message_def mark_messages_full_dirty_def
        mark_memory_profile_dirty_def Let_def split: prod.split)
next
  case (snapshot s e)
  then show ?case
    by (auto simp: continues_def record_env_snapshot_def mark_env_snapshots_full_dirty_def mark_memory_profile_dirty_def
        mark_env_snapshots_append_dirty_def Let_def grows_from_append)
next
  case (injection s now a b n age ids)
  then show ?case
    by (auto simp: continues_def record_memory_injection_def mark_memory_injections_append_dirty_def Let_def grows_from_append)
next
  case (display_event s now role ttl content)
  then show ?case
    by (auto simp: continues_def record_replay_display_message_def push_replay_event_def
        mark_replay_events_append_dirty_def Let_def grows_from_append)
next
  case (status_event s now members)
  then show ?case
    by (auto simp: continues_def record_swarm_status_event_def push_replay_event_def
        mark_replay_events_append_dirty_def Let_def grows_from_append)
next
  case (plan_event s now w v items ps reason)
  then show ?case
    by (auto simp: continues_def record_swarm_plan_event_def push_replay_event_def
        mark_replay_events_append_dirty_def Let_def grows_from_append)
next
  case (provider s)
  show ?case using continues_cong[OF kept_provider, of b env s] kept_provider[of env s, unfolded kept_eq_iff] by simp
next
  case (profile s)
  show ?case using continues_cong[OF kept_profile, of b env s] kept_profile[of env s, unfolded kept_eq_iff] by simp
qed

lemma synced_change:
  assumes ch: "session_change env s s'" and sy: "synced c p s d"
  shows "synced c p s' d"
proof -
  show ?thesis using sy change_keeps[OF ch] unfolding synced_def by metis
qed


lemma deserialized_fields [simp]:
  "journal_meta (deserialized s) = journal_meta s"
  "id_of (deserialized s) = id_of s"
  "created_at (deserialized s) = created_at s"
  "messages (deserialized s) = messages s"
  "env_snapshots (deserialized s) = env_snapshots s"
  "memory_injections (deserialized s) = memory_injections s"
  "replay_events (deserialized s) = replay_events s"
  by (simp_all add: deserialized_def journal_meta_def session_meta.defs)

lemma deserialized_idem [simp]: "deserialized (deserialized s) = deserialized s"
  by (simp add: deserialized_def)

lemma deserialized_reset [simp]:
  "deserialized (reset_persist_state b s) = deserialized s"
  "deserialized (reset_provider_messages_cache s) = deserialized s"
  "deserialized (mark_memory_profile_dirty s) = deserialized s"
  by (simp_all add: deserialized_def reset_persist_state_def reset_provider_messages_cache_def mark_memory_profile_dirty_def)

lemma not_requires_refl [simp]: "\<not> metadata_requires_snapshot m m"
  by (simp add: metadata_requires_snapshot_def)

lemma not_requires_trans:
  "\<not> metadata_requires_snapshot a b \<Longrightarrow> \<not> metadata_requires_snapshot b c \<Longrightarrow> \<not> metadata_requires_snapshot a c"
  by (simp add: metadata_requires_snapshot_def)

lemma reset_persist_fields [simp]:
  "ps_snapshot_exists (persist_state (reset_persist_state b s)) = b"
  "ps_last_meta (persist_state (reset_persist_state b s)) = Some (journal_meta s)"
  by (simp_all add: reset_persist_state_def)

lemma continues_deserialized: "continues (deserialized b) s = continues b s"
  by (simp add: continues_def)

lemma continues_reset: "deserialized b = deserialized s \<Longrightarrow> continues b (reset_persist_state e s)"
  unfolding deserialized_eq_iff by (simp add: continues_def reset_persist_state_def grows_from_def)

text \<open>The state after an operation that has written all of the session.\<close>

lemma synced_written:
  assumes "d (sp_snapshot p) = Some t" "dec_session c t = Some b" "journal_holds c p d es"
    and "deserialized (fold apply_journal_entry es b) = deserialized s"
    and "\<not> metadata_requires_snapshot (journal_meta b) (journal_meta s)"
  shows "synced c p (reset_persist_state True s) d"
  using assms continues_reset[OF assms(4)] assms(4)[unfolded deserialized_eq_iff]
  by (auto simp: synced_def)

lemma checkpoint_facts:
  assumes "checkpoint_snapshot c p io (s, d) = (r, s', d')" "paths_ok p" "journal_removed io"
  shows "(r, s', d') = (False, s, d) \<and> \<not> snapshot_written io \<or>
         r \<and> s' = reset_persist_state True s \<and> d' (sp_snapshot p) = Some (enc_session c s) \<and> d' (sp_journal p) = None"
  using assms by (auto simp: checkpoint_snapshot_def write_json_fast_def paths_ok_def Let_def split: if_splits option.splits)

lemma checkpoint_synced:
  assumes "checkpoint_snapshot c p io (s, d) = (r, s', d')" "paths_ok p" "journal_removed io"
    and "dec_session c (enc_session c s) = Some (deserialized s)" "synced c p s d \<or> r"
  shows "synced c p s' d' \<and> deserialized s' = deserialized s"
  using checkpoint_facts[OF assms(1-3)] assms(4,5)
    synced_written[of d' p "enc_session c s" c "deserialized s" "[]" s]
  by (auto simp: journal_holds_def)

lemma synced_updated_at:
  "synced c p (s\<lparr>updated_at := now\<rparr>) d = synced c p s d"
  by (simp add: synced_def continues_def)

lemma grows_from_drop:
  "grows_from mode n old new \<Longrightarrow> mode \<noteq> Full \<Longrightarrow> old @ drop n new = new"
  by (auto simp: grows_from_def) (metis append_take_drop_id)

lemma continues_increment:
  assumes "continues b s" "\<not> vectors_need_snapshot s"
  shows "deserialized (apply_journal_entry (increment_entry s) b) = deserialized s"
  using assms unfolding deserialized_eq_iff
  by (auto simp: continues_def vectors_need_snapshot_def increment_entry_def Let_def intro: grows_from_drop)

lemma journal_holds_append:
  assumes "journal_holds c p d es" "entry_prints c e" "paths_ok p"
  shows "journal_holds c p (append_bytes (sp_journal p) (enc_entry c e @ nl) d) (es @ [e])"
  using assms by (auto simp: journal_holds_def append_bytes_def split: option.splits)

lemma journal_holds_touch:
  "journal_holds c p d es \<Longrightarrow> journal_holds c p (append_bytes (sp_journal p) [] d) es"
  by (auto simp: journal_holds_def append_bytes_def split: option.splits)

lemma synced_touch:
  assumes "synced c p s d" "paths_ok p" shows "synced c p s (append_bytes (sp_journal p) [] d)"
proof -
  have "append_bytes (sp_journal p) [] d (sp_snapshot p) = d (sp_snapshot p)"
    using assms(2) by (auto simp: append_bytes_def paths_ok_def)
  then show ?thesis using assms(1) journal_holds_touch unfolding synced_def by metis
qed

lemma append_synced:
  assumes sy: "synced c p s d" and ex: "\<not> vectors_need_snapshot s" and pr: "entry_prints c (increment_entry s)"
    and pa: "paths_ok p" and nm: "\<And>m. ps_last_meta (persist_state s) = Some m \<Longrightarrow> \<not> metadata_requires_snapshot m (journal_meta s)"
  shows "synced c p (reset_persist_state True s) (append_bytes (sp_journal p) (enc_entry c (increment_entry s) @ nl) d)"
    (is "synced c p _ ?d")
proof -
  have "ps_snapshot_exists (persist_state s)" using ex by (simp add: vectors_need_snapshot_def Let_def)
  then obtain t b es where h: "d (sp_snapshot p) = Some t" "dec_session c t = Some b" "journal_holds c p d es"
      "continues (fold apply_journal_entry es b) s"
      "ps_last_meta (persist_state s) = Some (journal_meta (fold apply_journal_entry es b))"
      "\<not> metadata_requires_snapshot (journal_meta b) (journal_meta (fold apply_journal_entry es b))"
    using sy unfolding synced_def by metis
  have "?d (sp_snapshot p) = Some t" using h(1) pa by (auto simp: append_bytes_def paths_ok_def)
  moreover have "deserialized (fold apply_journal_entry (es @ [increment_entry s]) b) = deserialized s"
    using continues_increment[OF h(4) ex] by simp
  ultimately show ?thesis
    using synced_written[OF _ h(2) journal_holds_append[OF h(3) pr pa], of s] not_requires_trans[OF h(6) nm[OF h(5)]] by blast
qed

definition metadata_needs_snapshot :: "session \<Rightarrow> bool" where
  "metadata_needs_snapshot s \<longleftrightarrow>
     (case ps_last_meta (persist_state s) of
        Some prev \<Rightarrow> metadata_requires_snapshot prev (journal_meta s) | None \<Rightarrow> False)"

lemma save_eq:
  "save c p now io (s, d) =
     (let s = s\<lparr>updated_at := now\<rparr>; j = sp_journal p
      in if metadata_needs_snapshot s \<or> vectors_need_snapshot s then checkpoint_snapshot c p io (s, d)
         else (case append_fails io of
                 None \<Rightarrow>
                   (let d = append_bytes j (enc_entry c (increment_entry s) @ nl) d
                    in if file_len_or_zero j d > MAX_SESSION_JOURNAL_BYTES
                       then checkpoint_snapshot c p io (reset_persist_state True s, d) else (True, reset_persist_state True s, d))
               | Some n \<Rightarrow> checkpoint_snapshot c p io (s, append_bytes j (take n (enc_entry c (increment_entry s) @ nl)) d)))"
  by (simp add: save_def metadata_needs_snapshot_def append_json_line_def Let_def split: option.split)

lemma save_synced:
  assumes sy: "synced c p s d" and pa: "paths_ok p" and jr: "journal_removed io"
    and sp: "session_prints c (s\<lparr>updated_at := now\<rparr>)" and ep: "entry_prints c (increment_entry (s\<lparr>updated_at := now\<rparr>))"
    and sv: "save c p now io (s, d) = (r, s', d')" and ok: "r \<or> append_fails io \<in> {None, Some 0}"
  shows "synced c p s' d' \<and> deserialized s' = deserialized (s\<lparr>updated_at := now\<rparr>)"
proof -
  define s1 where "s1 = s\<lparr>updated_at := now\<rparr>"
  define d1 where "d1 = append_bytes (sp_journal p) (enc_entry c (increment_entry s1) @ nl) d"
  have sy1: "synced c p s1 d" using sy by (simp add: s1_def synced_updated_at)
  have dec: "dec_session c (enc_session c s1) = Some (deserialized s1)"
    "dec_session c (enc_session c (reset_persist_state True s1)) = Some (deserialized (reset_persist_state True s1))"
    using sp by (simp_all add: session_prints_def s1_def)
  show ?thesis
  proof (cases "metadata_needs_snapshot s1 \<or> vectors_need_snapshot s1")
    case True
    then have "checkpoint_snapshot c p io (s1, d) = (r, s', d')"
      using sv by (simp add: save_eq s1_def[symmetric] Let_def)
    from checkpoint_synced[OF this pa jr dec(1)] sy1 show ?thesis by (simp add: s1_def)
  next
    case False
    have sy2: "synced c p (reset_persist_state True s1) d1"
      unfolding d1_def using False ep pa
      by (intro append_synced[OF sy1]) (auto simp: s1_def metadata_needs_snapshot_def)
    show ?thesis
    proof (cases "append_fails io")
      case None
      show ?thesis
      proof (cases "file_len_or_zero (sp_journal p) d1 > MAX_SESSION_JOURNAL_BYTES")
        case True
        then have "checkpoint_snapshot c p io (reset_persist_state True s1, d1) = (r, s', d')"
          using sv False None by (simp add: save_eq s1_def[symmetric] d1_def[symmetric] Let_def)
        from checkpoint_synced[OF this pa jr dec(2)] sy2 show ?thesis by (simp add: s1_def)
      next
        case small: False
        then have "(r, s', d') = (True, reset_persist_state True s1, d1)"
          using sv False None by (simp add: save_eq s1_def[symmetric] d1_def[symmetric] Let_def)
        then show ?thesis using sy2 by (simp add: s1_def)
      qed
    next
      case (Some n)
      define d2 where "d2 = append_bytes (sp_journal p) (take n (enc_entry c (increment_entry s1) @ nl)) d"
      have cp: "checkpoint_snapshot c p io (s1, d2) = (r, s', d')"
        using sv False Some by (simp add: save_eq s1_def[symmetric] d2_def Let_def)
      have "synced c p s1 d2 \<or> r"
        using ok Some synced_touch[OF sy1 pa] by (auto simp: d2_def)
      from checkpoint_synced[OF cp pa jr dec(1) this] show ?thesis by (simp add: s1_def)
    qed
  qed
qed

lemma history_synced:
  assumes "session_history env c p sd" "paths_ok p"
  shows "synced c p (fst sd) (snd sd)"
  using assms
proof (induction rule: session_history.induct)
  case (created now test cwd pid i par ttl d)
  show ?case by (simp add: synced_def create_with_id_def)
next
  case (changed s d s')
  then show ?case using synced_change by simp
next
  case (saved s d now io r s' d')
  then show ?case using save_synced[of c p s d io now r s' d'] by simp
next
  case (loaded s d s' d')
  then obtain t b es where h: "d (sp_snapshot p) = Some t" "dec_session c t = Some b" "journal_holds c p d es"
      "\<not> metadata_requires_snapshot (journal_meta b) (journal_meta (fold apply_journal_entry es b))"
    by (auto simp: synced_def)
  define l where "l = fold apply_journal_entry es b"
  have sy: "synced c p (reset_persist_state True l) d"
    unfolding l_def by (rule synced_written[OF h(1-3)]) (use h(4) in simp_all)
  have s': "s' = mark_memory_profile_dirty (reset_provider_messages_cache (reset_persist_state True l))" and d: "d' = d"
    using loaded.hyps(3) load_synced[OF h(1-3)] by (simp_all add: l_def)
  have k: "kept s' = kept (reset_persist_state True l)"
    unfolding s' by (simp add: kept_eq_iff reset_provider_messages_cache_def mark_memory_profile_dirty_def)
  show ?case using sy synced_cong[OF k] d by simp
qed


subsection \<open>The cache of provider messages\<close>

fun conversation_hash :: "session_env \<Rightarrow> message list \<Rightarrow> u64" where
  "conversation_hash env [] = 0"
| "conversation_hash env (m # ms) = fold (\<lambda>m h. extend_stable_hash h (message_hash env m)) ms (message_hash env m)"

definition prefix_hashes_of :: "session_env \<Rightarrow> message list \<Rightarrow> u64 list" where
  "prefix_hashes_of env ms = map (\<lambda>i. conversation_hash env (take (Suc i) ms)) [0..<length ms]"

definition provider_cache_ok :: "session_env \<Rightarrow> session \<Rightarrow> bool" where
  "provider_cache_ok env s \<longleftrightarrow>
     provider_messages_cache_mode s \<noteq> Full \<longrightarrow>
       (let n = provider_messages_cache_len s in
        n \<le> length (messages s) \<and> (provider_messages_cache_mode s = Clean \<longrightarrow> n = length (messages s)) \<and>
        provider_messages_cache s = map to_message (take n (messages s)) \<and>
        prefix_hashes_cache s = prefix_hashes_of env (provider_messages_cache s))"

lemma conversation_hash_snoc:
  "ms \<noteq> [] \<Longrightarrow> conversation_hash env (ms @ [m]) = extend_stable_hash (conversation_hash env ms) (message_hash env m)"
  by (cases ms) simp_all

lemma length_prefix_hashes [simp]: "length (prefix_hashes_of env ms) = length ms"
  by (simp add: prefix_hashes_of_def)

lemma prefix_hashes_Nil [simp]: "prefix_hashes_of env [] = []"
  by (simp add: prefix_hashes_of_def)

lemma prefix_hashes_last: "ms \<noteq> [] \<Longrightarrow> last (prefix_hashes_of env ms) = conversation_hash env ms"
  by (cases "length ms") (auto simp: prefix_hashes_of_def)

lemma prefix_hashes_snoc: "prefix_hashes_of env (ms @ [m]) = prefix_hashes_of env ms @ [conversation_hash env (ms @ [m])]"
  by (simp add: prefix_hashes_of_def)

lemma push_entry_fields [simp]:
  "messages (push_provider_message_cache_entry env m s) = messages s"
  "provider_messages_cache (push_provider_message_cache_entry env m s) = provider_messages_cache s @ [m]"
  by (simp_all add: push_provider_message_cache_entry_def Let_def)

lemma push_entry_hashes:
  assumes "prefix_hashes_cache s = prefix_hashes_of env (provider_messages_cache s)"
  shows "prefix_hashes_cache (push_provider_message_cache_entry env m s) = prefix_hashes_of env (provider_messages_cache s @ [m])"
proof (cases "provider_messages_cache s = []")
  case True
  then show ?thesis using assms by (simp add: push_provider_message_cache_entry_def Let_def prefix_hashes_of_def)
next
  case False
  then have "prefix_hashes_cache s \<noteq> []" using assms length_prefix_hashes[of env "provider_messages_cache s"] by fastforce
  then obtain h hs where "prefix_hashes_cache s = hs @ [h]" by (metis rev_exhaust)
  then show ?thesis
    using assms False prefix_hashes_last[OF False, of env] conversation_hash_snoc[OF False, of env m]
    by (simp add: push_provider_message_cache_entry_def Let_def prefix_hashes_snoc)
qed

lemma fold_push_entries:
  assumes "prefix_hashes_cache s = prefix_hashes_of env (provider_messages_cache s)"
  shows "messages (fold (\<lambda>m. push_provider_message_cache_entry env (f m)) ms s) = messages s \<and>
         provider_messages_cache (fold (\<lambda>m. push_provider_message_cache_entry env (f m)) ms s) = provider_messages_cache s @ map f ms \<and>
         prefix_hashes_cache (fold (\<lambda>m. push_provider_message_cache_entry env (f m)) ms s) =
           prefix_hashes_of env (provider_messages_cache s @ map f ms)"
  using assms by (induction ms arbitrary: s) (simp_all add: push_entry_hashes)

lemma provider_messages_cached:
  assumes "provider_cache_ok env s"
  shows "fst (provider_messages env s) = map to_message (messages s) \<and>
         prefix_hashes_cache (snd (provider_messages env s)) = prefix_hashes_of env (map to_message (messages s)) \<and>
         provider_cache_ok env (snd (provider_messages env s))"
proof -
  consider (full) "provider_messages_cache_mode s = Full" | (more) "provider_messages_cache_mode s = Append"
    | (clean) "provider_messages_cache_mode s = Clean" by (cases "provider_messages_cache_mode s")
  then show ?thesis
  proof cases
    case full
    then show ?thesis
      using fold_push_entries[of "s\<lparr>provider_messages_cache := [], prefix_hashes_cache := []\<rparr>" env to_message "messages s"]
      by (simp add: provider_messages_def push_provider_messages_def provider_cache_ok_def Let_def)
  next
    case more
    let ?n = "provider_messages_cache_len s"
    have ok: "?n \<le> length (messages s)" "provider_messages_cache s = map to_message (take ?n (messages s))"
      "prefix_hashes_cache s = prefix_hashes_of env (provider_messages_cache s)"
      using assms more by (simp_all add: provider_cache_ok_def Let_def)
    have all: "map to_message (take ?n (messages s)) @ map to_message (drop ?n (messages s)) = map to_message (messages s)"
      by (simp flip: map_append)
    show ?thesis
      using more ok fold_push_entries[OF ok(3), of to_message "drop ?n (messages s)"] assms
      by (simp add: provider_messages_def push_provider_messages_def provider_cache_ok_def Let_def all)
  next
    case clean
    then show ?thesis using assms by (simp add: provider_messages_def provider_cache_ok_def Let_def)
  qed
qed

text \<open>What the cache of provider messages depends on.\<close>

definition provider_view :: "session \<Rightarrow> stored_message list \<times> message list \<times> u64 list \<times> nat \<times> vector_mode" where
  "provider_view s = (messages s, provider_messages_cache s, prefix_hashes_cache s, provider_messages_cache_len s,
     provider_messages_cache_mode s)"

lemma provider_cache_ok_cong: "provider_view s = provider_view s' \<Longrightarrow> provider_cache_ok env s = provider_cache_ok env s'"
  by (simp add: provider_view_def provider_cache_ok_def)

lemma provider_cache_ok_Full: "provider_messages_cache_mode s = Full \<Longrightarrow> provider_cache_ok env s"
  by (simp add: provider_cache_ok_def)

lemma change_provider_cache:
  assumes "session_change env s s'" "provider_cache_ok env s"
  shows "provider_cache_ok env s'"
  using assms
proof (induction rule: session_change.induct)
  case (meta s m)
  then show ?case by (simp add: provider_cache_ok_def)
next
  case (append s m)
  then show ?case
    by (cases "provider_messages_cache_mode s")
      (auto simp: provider_cache_ok_def append_stored_message_def mark_messages_append_dirty_def append_mode_def Let_def)
next
  case (inserted i m s s')
  then show ?case
    by (intro provider_cache_ok_Full) (auto simp: insert_message_def mark_messages_full_dirty_def split: if_splits)
next
  case (replaced s ms)
  show ?case by (intro provider_cache_ok_Full) (simp add: replace_messages_def mark_messages_full_dirty_def)
next
  case (truncated s n)
  then show ?case by (auto simp: truncate_messages_def mark_messages_full_dirty_def intro: provider_cache_ok_Full)
next
  case (tools_removed s i)
  then show ?case
    by (auto simp: remove_tool_use_blocks_def mark_messages_full_dirty_def intro: provider_cache_ok_Full split: prod.split)
next
  case (refreshed s f)
  then show ?case
    by (auto simp: refresh_initial_session_context_message_def mark_messages_full_dirty_def Let_def
        intro: provider_cache_ok_Full split: prod.split)
next
  case (snapshot s e)
  have "provider_view (record_env_snapshot env e s) = provider_view s"
    by (simp add: provider_view_def record_env_snapshot_def mark_env_snapshots_full_dirty_def mark_memory_profile_dirty_def
        mark_env_snapshots_append_dirty_def Let_def)
  then show ?case using snapshot provider_cache_ok_cong by blast
next
  case (injection s now a b n age ids)
  have "provider_view (record_memory_injection env now a b n age ids s) = provider_view s"
    by (simp add: provider_view_def record_memory_injection_def mark_memory_injections_append_dirty_def Let_def)
  then show ?case using injection provider_cache_ok_cong by blast
next
  case (display_event s now role ttl content)
  have "provider_view (record_replay_display_message env now role ttl content s) = provider_view s"
    by (simp add: provider_view_def record_replay_display_message_def push_replay_event_def mark_replay_events_append_dirty_def Let_def)
  then show ?case using display_event provider_cache_ok_cong by blast
next
  case (status_event s now members)
  have "provider_view (record_swarm_status_event env now members s) = provider_view s"
    by (simp add: provider_view_def record_swarm_status_event_def push_replay_event_def mark_replay_events_append_dirty_def Let_def)
  then show ?case using status_event provider_cache_ok_cong by blast
next
  case (plan_event s now w v items ps reason)
  have "provider_view (record_swarm_plan_event env now w v items ps reason s) = provider_view s"
    by (simp add: provider_view_def record_swarm_plan_event_def push_replay_event_def mark_replay_events_append_dirty_def Let_def)
  then show ?case using plan_event provider_cache_ok_cong by blast
next
  case (provider s)
  then show ?case using provider_messages_cached by blast
next
  case (profile s)
  have "provider_view (snd (memory_profile_snapshot env s)) = provider_view s"
    by (simp add: provider_view_def memory_profile_snapshot_def ensure_memory_profile_cache_def rebuild_memory_profile_cache_def Let_def)
  then show ?case using profile provider_cache_ok_cong by blast
qed

lemma save_provider_view:
  "save c p now io (s, d) = (r, s', d') \<Longrightarrow> provider_view s' = provider_view s"
  by (auto simp: save_eq checkpoint_snapshot_def write_json_fast_def reset_persist_state_def provider_view_def Let_def
      split: if_splits option.splits)

lemma history_provider_cache:
  assumes "session_history env c p sd"
  shows "provider_cache_ok env (fst sd)"
  using assms
proof (induction rule: session_history.induct)
  case (created now test cwd pid i par ttl d)
  show ?case by (rule provider_cache_ok_Full) (simp add: create_with_id_def reset_persist_state_def)
next
  case (changed s d s')
  then show ?case using change_provider_cache by simp
next
  case (saved s d now io r s' d')
  then show ?case using save_provider_view[OF saved.hyps(5)] provider_cache_ok_cong by (metis fst_conv)
next
  case (loaded s d s' d')
  then have "provider_messages_cache_mode s' = Full"
    by (auto simp: load_from_path_def Let_def mark_memory_profile_dirty_def reset_provider_messages_cache_def split: prod.splits option.splits)
  then show ?case by (simp add: provider_cache_ok_Full)
qed


subsection \<open>The memory profile\<close>

text \<open>What a block adds to the payload, to the bytes of tool results and to the bytes of large blocks.\<close>

fun block_payload :: "content_block \<Rightarrow> nat" where
  "block_payload (Text t cc) = length t"
| "block_payload (Reasoning t) = length t"
| "block_payload (ToolUse i name input) = 0"
| "block_payload (ToolResult i content e) = length content"
| "block_payload (Image mt data) = length data"
| "block_payload (OpenAICompaction c) = length c"

fun block_result_bytes :: "content_block \<Rightarrow> nat" where
  "block_result_bytes (ToolResult i content e) = length content"
| "block_result_bytes b = 0"

definition block_large_bytes :: "(json \<Rightarrow> nat) \<Rightarrow> content_block \<Rightarrow> nat" where
  "block_large_bytes json_len b =
     (let n = (case b of ToolUse i name input \<Rightarrow> json_len input | _ \<Rightarrow> block_payload b)
      in if n \<ge> LARGE_MEMORY_BLOB_THRESHOLD_BYTES then n else 0)"

definition sizes_of :: "block_stats \<Rightarrow> nat \<times> nat \<times> nat" where
  "sizes_of st = (payload_text_bytes st, bs_tool_result_bytes st, bs_large_block_bytes st)"

fun add_sizes :: "nat \<times> nat \<times> nat \<Rightarrow> nat \<times> nat \<times> nat \<Rightarrow> nat \<times> nat \<times> nat" where
  "add_sizes (a, b, x) (c, d, y) = (a + c, b + d, x + y)"

definition block_sizes :: "(json \<Rightarrow> nat) \<Rightarrow> content_block list \<Rightarrow> nat \<times> nat \<times> nat" where
  "block_sizes json_len bs =
     (sum_list (map block_payload bs), sum_list (map block_result_bytes bs), sum_list (map (block_large_bytes json_len) bs))"

definition all_blocks :: "stored_message list \<Rightarrow> content_block list" where
  "all_blocks ms = concat (map st_content ms)"

lemma sizes_record_block: "sizes_of (record_block json_len b st) = add_sizes (sizes_of st) (block_sizes json_len [b])"
  by (cases b) (simp_all add: record_block_def record_bytes_def sizes_of_def payload_text_bytes_def block_sizes_def
      block_large_bytes_def Let_def)

lemma add_sizes_assoc: "add_sizes (add_sizes x y) z = add_sizes x (add_sizes y z)"
  by (cases x; cases y; cases z) simp

lemma block_sizes_append: "block_sizes json_len (xs @ ys) = add_sizes (block_sizes json_len xs) (block_sizes json_len ys)"
  by (simp add: block_sizes_def)

lemma sizes_fold_blocks: "sizes_of (fold (record_block json_len) bs st) = add_sizes (sizes_of st) (block_sizes json_len bs)"
proof (induction bs arbitrary: st)
  case Nil
  show ?case by (cases "sizes_of st") (simp add: block_sizes_def)
next
  case (Cons b bs)
  then show ?case using block_sizes_append[of json_len "[b]" bs] by (simp add: sizes_record_block add_sizes_assoc)
qed

lemma sizes_default [simp]: "add_sizes (sizes_of block_stats_default) z = z" "sizes_of block_stats_default = (0, 0, 0)"
  by (cases z; simp add: sizes_of_def block_stats_default_def payload_text_bytes_def)+

lemma sizes_merge: "sizes_of (merge_from a b) = add_sizes (sizes_of a) (sizes_of b)"
  by (simp add: sizes_of_def merge_from_def payload_text_bytes_def)

lemma sizes_summarize_blocks: "sizes_of (summarize_blocks json_len bs) = block_sizes json_len bs"
  by (simp add: summarize_blocks_def sizes_fold_blocks del: sizes_default(2))

lemma fold_fold_concat: "fold (fold f) xss a = fold f (concat xss) a"
  by (induction xss arbitrary: a) simp_all

lemma sizes_summarize_messages: "sizes_of (summarize_message_content json_len css) = block_sizes json_len (concat css)"
  by (simp add: summarize_message_content_def fold_fold_concat sizes_fold_blocks del: sizes_default(2))

definition profile_ok :: "session_env \<Rightarrow> session \<Rightarrow> bool" where
  "profile_ok env s \<longleftrightarrow>
     \<not> memory_profile_dirty s \<longrightarrow>
       (let pc = memory_profile_cache s in
        pc_messages_count pc = length (messages s) \<and> pc_env_snapshots_count pc = length (env_snapshots s) \<and>
        pc_memory_injections_count pc = length (memory_injections s) \<and> pc_replay_events_count pc = length (replay_events s) \<and>
        pc_messages_json_bytes pc = sum_list (map (se_stored_len env) (messages s)) \<and>
        pc_env_snapshots_json_bytes pc = sum_list (map (se_env_len env) (env_snapshots s)) \<and>
        pc_memory_injections_json_bytes pc = sum_list (map (se_injection_len env) (memory_injections s)) \<and>
        pc_replay_events_json_bytes pc = sum_list (map (se_event_len env) (replay_events s)) \<and>
        sizes_of (pc_message_stats pc) = block_sizes (se_json_len env) (all_blocks (messages s)))"

lemma profile_ok_dirty: "memory_profile_dirty s \<Longrightarrow> profile_ok env s"
  by (simp add: profile_ok_def)

lemma profile_ok_rebuild: "profile_ok env (rebuild_memory_profile_cache env s)"
  by (simp add: profile_ok_def rebuild_memory_profile_cache_def sizes_summarize_messages all_blocks_def)

lemma profile_ok_ensure: "profile_ok env s \<Longrightarrow> profile_ok env (ensure_memory_profile_cache env s)"
  by (simp add: ensure_memory_profile_cache_def profile_ok_rebuild)

text \<open>What the conversation part of the profile depends on.\<close>

definition profile_view :: "session \<Rightarrow> session \<times> profile_cache \<times> bool" where
  "profile_view s = (deserialized s,
     (memory_profile_cache s)\<lparr>pc_provider_cache_count := 0, pc_provider_cache_json_bytes := 0,
        pc_provider_cache_stats := block_stats_default\<rparr>, memory_profile_dirty s)"

lemma profile_cache_eqD:
  assumes "pc\<lparr>pc_provider_cache_count := 0, pc_provider_cache_json_bytes := 0, pc_provider_cache_stats := block_stats_default\<rparr> =
    pc'\<lparr>pc_provider_cache_count := 0, pc_provider_cache_json_bytes := 0, pc_provider_cache_stats := block_stats_default\<rparr>"
  shows "pc_messages_count pc = pc_messages_count pc'" "pc_env_snapshots_count pc = pc_env_snapshots_count pc'"
    "pc_memory_injections_count pc = pc_memory_injections_count pc'" "pc_replay_events_count pc = pc_replay_events_count pc'"
    "pc_messages_json_bytes pc = pc_messages_json_bytes pc'" "pc_env_snapshots_json_bytes pc = pc_env_snapshots_json_bytes pc'"
    "pc_memory_injections_json_bytes pc = pc_memory_injections_json_bytes pc'"
    "pc_replay_events_json_bytes pc = pc_replay_events_json_bytes pc'" "pc_message_stats pc = pc_message_stats pc'"
  using assms by (cases pc; cases pc'; simp)+

lemma profile_ok_cong: "profile_view s = profile_view s' \<Longrightarrow> profile_ok env s = profile_ok env s'"
  unfolding profile_view_def prod.inject deserialized_eq_iff
  using profile_cache_eqD[of "memory_profile_cache s" "memory_profile_cache s'"] by (simp add: profile_ok_def Let_def)

lemma profile_view_push [simp]: "profile_view (push_provider_message_cache_entry env m s) = profile_view s"
  by (simp add: profile_view_def push_provider_message_cache_entry_def deserialized_def Let_def)

lemma profile_view_fold_push [simp]:
  "profile_view (fold (\<lambda>m. push_provider_message_cache_entry env (f m)) ms s) = profile_view s"
  by (induction ms arbitrary: s) simp_all

lemma profile_view_cache_updates [simp]:
  "profile_view (s\<lparr>provider_messages_cache := a\<rparr>) = profile_view s"
  "profile_view (s\<lparr>prefix_hashes_cache := h\<rparr>) = profile_view s"
  "profile_view (s\<lparr>provider_messages_cache_len := n\<rparr>) = profile_view s"
  "profile_view (s\<lparr>provider_messages_cache_mode := m\<rparr>) = profile_view s"
  "profile_view (s\<lparr>persist_state := p\<rparr>) = profile_view s"
  by (simp_all add: profile_view_def deserialized_def)

lemma profile_view_provider: "profile_view (snd (provider_messages env s)) = profile_view s"
  by (simp add: provider_messages_def push_provider_messages_def Let_def)

lemma profile_view_save: "save c p now io (s, d) = (r, s', d') \<Longrightarrow> profile_view s' = profile_view (s\<lparr>updated_at := now\<rparr>)"
  by (auto simp: save_eq checkpoint_snapshot_def write_json_fast_def reset_persist_state_def Let_def
      split: if_splits option.splits)

lemma all_blocks_append [simp]: "all_blocks (xs @ [m]) = all_blocks xs @ st_content m"
  by (simp add: all_blocks_def)

lemma push_replay_event_profile: "profile_ok env s \<Longrightarrow> profile_ok env (push_replay_event env now kind s)"
  by (auto simp: profile_ok_def push_replay_event_def mark_replay_events_append_dirty_def Let_def)

lemma change_profile:
  assumes "session_change env s s'" "profile_ok env s"
  shows "profile_ok env s'"
  using assms
proof (induction rule: session_change.induct)
  case (meta s m)
  have "memory_profile_cache (session_meta.extend m (session_meta.more s)) = memory_profile_cache s \<and>
        memory_profile_dirty (session_meta.extend m (session_meta.more s)) = memory_profile_dirty s"
    by (cases s) (simp add: session_meta.defs)
  then show ?case using meta by (simp add: profile_ok_def)
next
  case (append s m)
  then show ?case
    by (auto simp: profile_ok_def append_stored_message_def mark_messages_append_dirty_def Let_def sizes_merge
        sizes_summarize_blocks block_sizes_append)
next
  case (inserted i m s s')
  then show ?case
    by (intro profile_ok_dirty) (auto simp: insert_message_def mark_messages_full_dirty_def mark_memory_profile_dirty_def split: if_splits)
next
  case (replaced s ms)
  show ?case by (intro profile_ok_dirty) (simp add: replace_messages_def mark_messages_full_dirty_def mark_memory_profile_dirty_def)
next
  case (truncated s n)
  then show ?case
    by (auto simp: truncate_messages_def mark_messages_full_dirty_def mark_memory_profile_dirty_def intro: profile_ok_dirty)
next
  case (tools_removed s i)
  then show ?case
    by (auto simp: remove_tool_use_blocks_def mark_messages_full_dirty_def mark_memory_profile_dirty_def
        intro: profile_ok_dirty split: prod.split)
next
  case (refreshed s f)
  then show ?case
    by (auto simp: refresh_initial_session_context_message_def mark_messages_full_dirty_def mark_memory_profile_dirty_def
        Let_def intro: profile_ok_dirty split: prod.split)
next
  case (snapshot s e)
  then show ?case
    by (auto simp: profile_ok_def record_env_snapshot_def mark_env_snapshots_full_dirty_def mark_memory_profile_dirty_def
        mark_env_snapshots_append_dirty_def Let_def)
next
  case (injection s now a b n age ids)
  then show ?case
    by (auto simp: profile_ok_def record_memory_injection_def mark_memory_injections_append_dirty_def Let_def)
next
  case (display_event s now role ttl content)
  then show ?case by (simp add: record_replay_display_message_def push_replay_event_profile)
next
  case (status_event s now members)
  then show ?case by (simp add: record_swarm_status_event_def push_replay_event_profile)
next
  case (plan_event s now w v items ps reason)
  then show ?case by (simp add: record_swarm_plan_event_def push_replay_event_profile Let_def)
next
  case (provider s)
  then show ?case using profile_ok_cong[OF profile_view_provider] by blast
next
  case (profile s)
  then show ?case by (simp add: memory_profile_snapshot_def profile_ok_ensure Let_def)
qed

lemma history_profile:
  assumes "session_history env c p sd"
  shows "profile_ok env (fst sd)"
  using assms
proof (induction rule: session_history.induct)
  case (created now test cwd pid i par ttl d)
  show ?case
    by (simp add: profile_ok_def create_with_id_def reset_persist_state_def profile_cache_default_def all_blocks_def
        block_sizes_def)
next
  case (changed s d s')
  then show ?case using change_profile by simp
next
  case (saved s d now io r s' d')
  then have "profile_ok env (s\<lparr>updated_at := now\<rparr>)" by (simp add: profile_ok_def)
  then show ?case using profile_ok_cong[OF profile_view_save[OF saved.hyps(5)]] by simp
next
  case (loaded s d s' d')
  then have "memory_profile_dirty s'"
    by (auto simp: load_from_path_def Let_def mark_memory_profile_dirty_def split: prod.splits option.splits)
  then show ?case by (simp add: profile_ok_dirty)
qed


section \<open>Theorems\<close>

lemma synced_complete:
  assumes "synced c p s d" "ps_snapshot_exists (persist_state s)"
    and "persist_state s = persist_state (reset_persist_state True s)"
  obtains t b es where "d (sp_snapshot p) = Some t" "dec_session c t = Some b" "journal_holds c p d es"
    "deserialized (fold apply_journal_entry es b) = deserialized s" "\<not> metadata_requires_snapshot (journal_meta b) (journal_meta s)"
proof -
  from assms(1,2) obtain t b es where h: "d (sp_snapshot p) = Some t" "dec_session c t = Some b" "journal_holds c p d es"
      "continues (fold apply_journal_entry es b) s"
      "ps_last_meta (persist_state s) = Some (journal_meta (fold apply_journal_entry es b))"
      "\<not> metadata_requires_snapshot (journal_meta b) (journal_meta (fold apply_journal_entry es b))"
    unfolding synced_def by metis
  have m: "journal_meta (fold apply_journal_entry es b) = journal_meta s"
    using h(5) assms(3) by (metis option.inject reset_persist_fields(2))
  have "continues (fold apply_journal_entry es b) (reset_persist_state True s)"
    using h(4) continues_cong[of "reset_persist_state True s" s] assms(3) by (simp add: kept_eq_iff)
  then have "deserialized (fold apply_journal_entry es b) = deserialized s"
    using m unfolding deserialized_eq_iff by (simp add: continues_def reset_persist_state_def grows_from_def)
  then show thesis using that h(1-3,6) m by metis
qed

lemma persist_reset_idem [simp]:
  "persist_state (reset_persist_state b (reset_persist_state a s)) = persist_state (reset_persist_state b s)"
  by (simp add: reset_persist_state_def journal_meta_def session_meta.defs)

lemma save_resets:
  "save c p now io (s, d) = (True, s', d') \<Longrightarrow> persist_state s' = persist_state (reset_persist_state True s')"
  by (auto simp: save_eq checkpoint_snapshot_def write_json_fast_def Let_def split: if_splits option.splits)

lemma saved_complete:
  assumes "session_history env c p (s, d)" "paths_ok p"
    and "session_prints c (s\<lparr>updated_at := now\<rparr>)" "entry_prints c (increment_entry (s\<lparr>updated_at := now\<rparr>))"
    and "journal_removed io" "save c p now io (s, d) = (True, s', d')"
  obtains t b es where "d' (sp_snapshot p) = Some t" "dec_session c t = Some b" "journal_holds c p d' es"
    "deserialized (fold apply_journal_entry es b) = deserialized s'" "\<not> metadata_requires_snapshot (journal_meta b) (journal_meta s')"
    "deserialized s' = deserialized (s\<lparr>updated_at := now\<rparr>)"
proof -
  have h: "synced c p s' d' \<and> deserialized s' = deserialized (s\<lparr>updated_at := now\<rparr>)"
    using save_synced[OF _ assms(2,5,3,4,6)] history_synced[OF assms(1,2)] by simp
  have r: "persist_state s' = persist_state (reset_persist_state True s')" by (rule save_resets[OF assms(6)])
  then have "ps_snapshot_exists (persist_state s')" by simp
  from synced_complete[OF conjunct1[OF h] this r] show thesis using that h by metis
qed


text \<open>
  The startup stub, which reads the snapshot and not the journal, shows the title, status, working
  directory and the other fields of a save as they were at the last successful save: a change to one of
  them forces a snapshot.
\<close>

theorem startup_stub_current:
  assumes "session_history env c p (s, d)" "paths_ok p"
    and "session_prints c (s\<lparr>updated_at := now\<rparr>)" "entry_prints c (increment_entry (s\<lparr>updated_at := now\<rparr>))"
    and "journal_removed io" "save c p now io (s, d) = (True, s', d')"
  shows "\<exists>stub. load_startup_stub env c p d' = Some stub \<and> messages stub = [] \<and> id_of stub = id_of s \<and>
           title stub = title s \<and> status stub = status s \<and> working_dir stub = working_dir s \<and>
           short_name stub = short_name s \<and> parent_id stub = parent_id s \<and> saved stub = saved s \<and>
           save_label stub = save_label s \<and> is_canary stub = is_canary s \<and> is_debug stub = is_debug s"
proof -
  obtain t b es where h: "d' (sp_snapshot p) = Some t" "dec_session c t = Some b"
      "deserialized (fold apply_journal_entry es b) = deserialized s'"
      "\<not> metadata_requires_snapshot (journal_meta b) (journal_meta s')" "deserialized s' = deserialized (s\<lparr>updated_at := now\<rparr>)"
    using saved_complete[OF assms] by metis
  have i: "id_of (fold apply_journal_entry es b) = id_of b" by (induction es arbitrary: b) simp_all
  have m: "journal_meta s' = journal_meta (s\<lparr>updated_at := now\<rparr>)" "id_of b = id_of s"
    using h(3,5) i unfolding deserialized_eq_iff by simp_all
  have fs: "title (journal_meta x) = title x" "status (journal_meta x) = status x" "working_dir (journal_meta x) = working_dir x"
    "short_name (journal_meta x) = short_name x" "parent_id (journal_meta x) = parent_id x" "saved (journal_meta x) = saved x"
    "save_label (journal_meta x) = save_label x" "is_canary (journal_meta x) = is_canary x" "is_debug (journal_meta x) = is_debug x"
    for x by (simp_all add: journal_meta_def session_meta.defs)
  show ?thesis
    using h(1,2,4) m(2)
    by (simp add: load_startup_stub_def session_from_startup_stub_def rebuild_memory_profile_cache_def reset_persist_state_def
        metadata_requires_snapshot_def m(1) fs)
qed

text \<open>
  C32: The incremental cache of provider messages is transparent: along every history the messages for the
  provider are those of the conversation, and the prefix hashes are the hashes of its prefixes.
\<close>

theorem provider_messages_exact:
  assumes "session_history env c p (s, d)"
  shows "fst (provider_messages env s) = messages_for_provider_uncached s \<and>
         fst (provider_message_prefix_hashes env s) = prefix_hashes_of env (messages_for_provider_uncached s)"
  using provider_messages_cached[OF history_provider_cache[OF assms, simplified]]
  by (simp add: messages_for_provider_uncached_def provider_message_prefix_hashes_def Let_def)

text \<open>
  The incremental memory profile agrees with a recount of the session along every history: the counts,
  the bytes of the transcript, of tool results and of large blocks.
\<close>

theorem memory_profile_exact:
  assumes "session_history env c p (s, d)" "memory_profile_snapshot env s = (pf, s')"
  shows "pf_message_count pf = length (messages s) \<and> pf_env_snapshot_count pf = length (env_snapshots s) \<and>
         pf_memory_injection_count pf = length (memory_injections s) \<and> pf_replay_event_count pf = length (replay_events s) \<and>
         (pf_payload_text_bytes pf, pf_canonical_tool_result_bytes pf, pf_canonical_large_blob_bytes pf) =
           block_sizes (se_json_len env) (all_blocks (messages s))"
proof -
  have ok: "profile_ok env (ensure_memory_profile_cache env s)"
    using history_profile[OF assms(1)] by (simp add: profile_ok_ensure)
  have same: "messages (ensure_memory_profile_cache env s) = messages s \<and>
      env_snapshots (ensure_memory_profile_cache env s) = env_snapshots s \<and>
      memory_injections (ensure_memory_profile_cache env s) = memory_injections s \<and>
      replay_events (ensure_memory_profile_cache env s) = replay_events s \<and>
      \<not> memory_profile_dirty (ensure_memory_profile_cache env s)"
    by (simp add: ensure_memory_profile_cache_def rebuild_memory_profile_cache_def)
  show ?thesis
    using assms(2) ok same by (auto simp: memory_profile_snapshot_def profile_ok_def sizes_of_def Let_def)
qed

text \<open>
  A checkpoint whose journal stays on disk, because its removal failed or the process ended before it,
  is replayed over: the save reports success, and loading appends the journal's messages a second time
  and takes the metadata back to the journal's last entry.
\<close>

theorem stale_journal_repeats_messages:
  assumes "journal_holds c p d es" "paths_ok p"
    and "dec_session c (enc_session c (s\<lparr>updated_at := now\<rparr>)) = Some (deserialized (s\<lparr>updated_at := now\<rparr>))"
    and "snapshot_written io" "\<not> journal_removed io"
    and "metadata_needs_snapshot (s\<lparr>updated_at := now\<rparr>) \<or> vectors_need_snapshot (s\<lparr>updated_at := now\<rparr>)"
    and "save c p now io (s, d) = (r, s', d')"
  shows "r \<and> (\<exists>l. load_from_path c p d' = (Some l, d') \<and> messages l = messages s @ concat (map je_append_messages es) \<and>
               (es \<noteq> [] \<longrightarrow> journal_meta l = je_meta (last es)))"
proof -
  have sv: "r" "d' (sp_snapshot p) = Some (enc_session c (s\<lparr>updated_at := now\<rparr>))" "d' (sp_journal p) = d (sp_journal p)"
    using assms(2,4-7) by (auto simp: save_eq checkpoint_snapshot_def write_json_fast_def paths_ok_def Let_def split: option.splits)
  have j: "journal_holds c p d' es" using assms(1) sv(3) by (simp add: journal_holds_def)
  have ms: "messages (fold apply_journal_entry es b) = messages b @ concat (map je_append_messages es)" for b
    by (induction es arbitrary: b) simp_all
  have mt: "es \<noteq> [] \<longrightarrow> journal_meta (fold apply_journal_entry es b) = je_meta (last es)" for b
    by (induction es rule: rev_induct) simp_all
  have jm: "journal_meta (mark_memory_profile_dirty (reset_provider_messages_cache (reset_persist_state True x))) = journal_meta x"
    "messages (mark_memory_profile_dirty (reset_provider_messages_cache (reset_persist_state True x))) = messages x" for x
    by (simp_all add: mark_memory_profile_dirty_def reset_provider_messages_cache_def reset_persist_state_def journal_meta_def
        session_meta.defs)
  show ?thesis using load_synced[OF sv(2) assms(3) j] sv(1) by (simp add: jm ms mt)
qed


lemma replay_stops:
  assumes "\<forall>e\<in>set es. entry_prints c e" "trim x \<noteq> []" "dec_entry c (trim x) = None"
  shows "replay_journal (dec_entry c) (map (enc_entry c) es @ x # ls) s = fold apply_journal_entry es s"
  using assms by (induction es arbitrary: s) (simp_all add: entry_prints_def)

text \<open>
  After a line was torn (the process ended in the middle of an append, which is not buffered into one
  write), the next append continues that line: the save succeeds and what it wrote is not read.
\<close>

lemma torn_line_hides_saves:
  assumes es: "\<forall>e\<in>set es. entry_prints c e" and pa: "paths_ok p"
    and sn: "d (sp_snapshot p) = Some t" "dec_session c t = Some b"
    and j: "d (sp_journal p) = Some (concat (map (\<lambda>e. enc_entry c e @ nl) es) @ torn)"
    and torn: "newline \<notin> set torn" "CHR 0x0D \<notin> set torn"
    and app: "\<not> metadata_needs_snapshot (s\<lparr>updated_at := now\<rparr>)" "\<not> vectors_need_snapshot (s\<lparr>updated_at := now\<rparr>)"
      "append_fails io = None"
    and glued: "x = torn @ enc_entry c (increment_entry (s\<lparr>updated_at := now\<rparr>))" "trim x \<noteq> []" "dec_entry c (trim x) = None"
    and ep: "entry_prints c (increment_entry (s\<lparr>updated_at := now\<rparr>))"
    and sz: "length (concat (map (\<lambda>e. enc_entry c e @ nl) es) @ x @ nl) \<le> MAX_SESSION_JOURNAL_BYTES"
    and sv: "save c p now io (s, d) = (r, s', d')"
  shows "r \<and> ps_messages_len (persist_state s') = length (messages s) \<and>
         (\<exists>l. load_from_path c p d' = (Some l, d') \<and> messages l = messages b @ concat (map je_append_messages es))"
proof -
  define jt where "jt = concat (map (\<lambda>e. enc_entry c e @ nl) es) @ x @ nl"
  let ?d = "d(sp_journal p \<mapsto> jt)"
  have d1: "append_bytes (sp_journal p) (enc_entry c (increment_entry (s\<lparr>updated_at := now\<rparr>)) @ nl) d = ?d"
    using j by (simp add: append_bytes_def glued(1) jt_def)
  have res: "r" "s' = reset_persist_state True (s\<lparr>updated_at := now\<rparr>)" "d' = ?d"
    using sv app sz by (auto simp: save_eq Let_def d1 file_len_or_zero_def jt_def)
  have jt_eq: "jt = join nl (map (enc_entry c) es @ [x]) @ nl"
    using concat_terminated[of "map (enc_entry c) es @ [x]"] by (simp add: jt_def comp_def)
  have ls: "lines jt = map (enc_entry c) es @ [x]"
    unfolding jt_eq using es ep torn by (intro lines_terminated) (auto simp: glued(1) entry_prints_def)
  have ms: "messages (fold apply_journal_entry es b) = messages b @ concat (map je_append_messages es)" for b
    by (induction es arbitrary: b) simp_all
  have rep: "replay_journal (dec_entry c) (lines jt) b = fold apply_journal_entry es b"
    unfolding ls by (rule replay_stops[OF es glued(2,3)])
  have ne: "sp_snapshot p \<noteq> sp_journal p" using pa by (simp add: paths_ok_def)
  have "load_from_path c p d' = (Some (mark_memory_profile_dirty (reset_provider_messages_cache
       (reset_persist_state True (fold apply_journal_entry es b)))), d')"
    using sn ne by (simp add: res(3) load_from_path_def read_json_def rep Let_def)
  then show ?thesis
    using res(1,2) by (simp add: ms mark_memory_profile_dirty_def reset_provider_messages_cache_def reset_persist_state_def)
qed

text \<open>
  A full rebuild of the cache of provider messages adds to the profile's counts without resetting them:
  when a profile was taken since the conversation was replaced, the messages of before are counted too.
\<close>

lemma push_entry_profile:
  "memory_profile_dirty (push_provider_message_cache_entry env m s) = memory_profile_dirty s"
  "pc_provider_cache_count (memory_profile_cache (push_provider_message_cache_entry env m s)) =
     pc_provider_cache_count (memory_profile_cache s) + 1"
  by (simp_all add: push_provider_message_cache_entry_def Let_def)

lemma fold_push_profile:
  "memory_profile_dirty (fold (\<lambda>m. push_provider_message_cache_entry env (f m)) ms s) = memory_profile_dirty s \<and>
   pc_provider_cache_count (memory_profile_cache (fold (\<lambda>m. push_provider_message_cache_entry env (f m)) ms s)) =
     pc_provider_cache_count (memory_profile_cache s) + length ms"
  by (induction ms arbitrary: s) (simp_all add: push_entry_profile)

lemma provider_counts_twice:
  assumes "memory_profile_dirty s" "provider_messages_cache_mode s = Full"
    and "s1 = snd (memory_profile_snapshot env s)" "s2 = snd (provider_messages env s1)"
  shows "pf_provider_cache_message_count (fst (memory_profile_snapshot env s2)) =
           length (provider_messages_cache s) + length (messages s) \<and>
         length (provider_messages_cache s2) = length (messages s)"
proof -
  have s1: "s1 = rebuild_memory_profile_cache env s"
    using assms(1,3) by (simp add: memory_profile_snapshot_def ensure_memory_profile_cache_def Let_def)
  let ?s = "s1\<lparr>provider_messages_cache := [], prefix_hashes_cache := []\<rparr>"
  have f: "provider_messages_cache_mode s1 = Full" "messages s1 = messages s" "\<not> memory_profile_dirty s1"
    "pc_provider_cache_count (memory_profile_cache s1) = length (provider_messages_cache s)"
    using assms(2) by (simp_all add: s1 rebuild_memory_profile_cache_def)
  have s2: "s2 = push_provider_messages env (messages s) ?s"
    using f(1,2) by (simp add: assms(4) provider_messages_def Let_def)
  have g: "\<not> memory_profile_dirty s2 \<and>
      pc_provider_cache_count (memory_profile_cache s2) = length (provider_messages_cache s) + length (messages s)"
    using f fold_push_profile[of env to_message "messages s" ?s] by (simp add: s2 push_provider_messages_def Let_def)
  have "length (provider_messages_cache s2) = length (messages s)"
    using fold_push_entries[of ?s env to_message "messages s"] by (simp add: s2 push_provider_messages_def Let_def)
  then show ?thesis using g by (simp add: memory_profile_snapshot_def ensure_memory_profile_cache_def Let_def)
qed

section \<open>Witnesses\<close>

definition demo_session_paths :: session_paths where
  "demo_session_paths = \<lparr>sp_snapshot = ''s'', sp_backup = ''b'', sp_journal = ''j''\<rparr>"

definition demo_session_env :: session_env where
  "demo_session_env =
     \<lparr>se_json_len = (\<lambda>_. 0), se_stored_len = (\<lambda>_. 2), se_env_len = (\<lambda>_. 2), se_injection_len = (\<lambda>_. 2),
      se_event_len = (\<lambda>_. 2), se_message_len = (\<lambda>_. 2), se_compaction_len = (\<lambda>_. 2), se_to_vec = (\<lambda>_. None),
      se_debug_bytes = (\<lambda>_. [])\<rparr>"

definition demo_stored :: stored_message where
  "demo_stored = \<lparr>st_id = ''m'', st_role = User, st_content = [Text ''hello'' None], st_display_role = None,
     st_timestamp = Some 2, st_tool_duration_ms = None, st_token_usage = None\<rparr>"

text \<open>A session created at time 0, saved at 1, with a message added and saved again at 2.\<close>

definition demo_created :: session where
  "demo_created = create_with_id 0 False None 7 ''session_fox_1'' None None"

definition demo_saved :: session where
  "demo_saved = reset_persist_state True (demo_created\<lparr>updated_at := 1\<rparr>)"

definition demo_changed :: session where
  "demo_changed = append_stored_message demo_session_env demo_stored demo_saved"

definition demo_codec :: session_codec where
  "demo_codec =
     \<lparr>enc_session = (\<lambda>s. if messages s = [] then ''0'' else ''1''),
      dec_session = (\<lambda>t. if t = ''0'' then Some (deserialized (demo_created\<lparr>updated_at := 1\<rparr>))
                         else if t = ''1'' then Some (deserialized (demo_changed\<lparr>updated_at := 2\<rparr>)) else None),
      enc_entry = (\<lambda>e. if je_append_messages e = [] then ''e'' else ''f''),
      dec_entry = (\<lambda>t. if t = ''e'' then Some (increment_entry (demo_created\<lparr>updated_at := 1\<rparr>))
                       else if t = ''f'' then Some (increment_entry (demo_changed\<lparr>updated_at := 2\<rparr>)) else None)\<rparr>"

lemma demo_session_fields:
  "messages demo_created = []" "messages demo_saved = []" "messages demo_changed = [demo_stored]"
  "ps_snapshot_exists (persist_state demo_created) = False"
  by (simp_all add: demo_created_def demo_saved_def demo_changed_def create_with_id_def reset_persist_state_def
      append_stored_message_def mark_messages_append_dirty_def Let_def)

lemma demo_prints:
  "session_prints demo_codec (demo_created\<lparr>updated_at := 1\<rparr>)" "session_prints demo_codec (demo_changed\<lparr>updated_at := 2\<rparr>)"
  by (simp_all add: session_prints_def demo_codec_def demo_session_fields reset_persist_state_def)

lemma demo_increment:
  "je_append_messages (increment_entry (demo_created\<lparr>updated_at := 1\<rparr>)) = []"
  "je_append_messages (increment_entry (demo_changed\<lparr>updated_at := 2\<rparr>)) = [demo_stored]"
  by (simp_all add: increment_entry_def Let_def demo_session_fields)
    (simp add: demo_changed_def demo_saved_def append_stored_message_def mark_messages_append_dirty_def reset_persist_state_def
      demo_session_fields Let_def)

lemma demo_entries:
  "entry_prints demo_codec (increment_entry (demo_created\<lparr>updated_at := 1\<rparr>))"
  "entry_prints demo_codec (increment_entry (demo_changed\<lparr>updated_at := 2\<rparr>))"
  by (simp_all add: entry_prints_def demo_codec_def demo_increment trim_def trim_start_def trim_end_def) (code_simp+)?

lemma demo_first_save:
  "save demo_codec demo_session_paths 1 all_ok (demo_created, (\<lambda>_. None)) = (True, demo_saved, [''s'' \<mapsto> ''0''])"
  by (simp add: save_eq vectors_need_snapshot_def demo_session_fields Let_def checkpoint_snapshot_def write_json_fast_def
      demo_session_paths_def all_ok_def demo_codec_def demo_saved_def)

lemma demo_paths [simp]: "paths_ok demo_session_paths"
  by (simp add: paths_ok_def demo_session_paths_def)

lemma demo_history: "session_history demo_session_env demo_codec demo_session_paths (demo_changed, [''s'' \<mapsto> ''0''])"
proof -
  have "session_history demo_session_env demo_codec demo_session_paths (demo_created, (\<lambda>_. None))"
    unfolding demo_created_def by (rule session_history.created)
  then have "session_history demo_session_env demo_codec demo_session_paths (demo_saved, [''s'' \<mapsto> ''0''])"
    by (rule session_history.saved[OF _ demo_prints(1) demo_entries(1) _ demo_first_save]) (simp_all add: all_ok_def)
  then show ?thesis
    unfolding demo_changed_def by (rule session_history.changed) (rule session_change.append)
qed


lemma demo_appends:
  "\<not> metadata_needs_snapshot (demo_changed\<lparr>updated_at := 2\<rparr>)" "\<not> vectors_need_snapshot (demo_changed\<lparr>updated_at := 2\<rparr>)"
  by (simp_all add: metadata_needs_snapshot_def vectors_need_snapshot_def demo_changed_def demo_saved_def demo_created_def
      create_with_id_def append_stored_message_def mark_messages_append_dirty_def reset_persist_state_def append_mode_def
      metadata_requires_snapshot_def journal_meta_def session_meta.defs Let_def)

lemma demo_second_save:
  "save demo_codec demo_session_paths 2 all_ok (demo_changed, [''s'' \<mapsto> ''0'']) =
     (True, reset_persist_state True (demo_changed\<lparr>updated_at := 2\<rparr>), [''s'' \<mapsto> ''0'', ''j'' \<mapsto> ''f'' @ nl])"
proof -
  have "enc_entry demo_codec (increment_entry (demo_changed\<lparr>updated_at := 2\<rparr>)) = ''f''"
    by (simp add: demo_codec_def demo_increment)
  then show ?thesis
    by (simp add: save_eq demo_appends all_ok_def Let_def append_bytes_def demo_session_paths_def file_len_or_zero_def
        MAX_SESSION_JOURNAL_BYTES_def nl_def)
qed


lemma startup_stub_current_witness:
  "\<exists>stub. load_startup_stub demo_session_env demo_codec demo_session_paths [''s'' \<mapsto> ''0'', ''j'' \<mapsto> ''f'' @ nl] = Some stub \<and>
     messages stub = [] \<and> status stub = Active \<and> short_name stub = Some ''fox''"
proof -
  have "status demo_changed = Active" "short_name demo_changed = Some ''fox''"
    by (simp_all add: demo_changed_def demo_saved_def demo_created_def create_with_id_def append_stored_message_def
        mark_messages_append_dirty_def reset_persist_state_def extract_session_name_def strip_prefix_def Let_def)
  then show ?thesis
    using startup_stub_current[OF demo_history demo_paths demo_prints(2) demo_entries(2) _ demo_second_save]
    by (auto simp: all_ok_def)
qed

lemma provider_messages_exact_witness:
  "fst (provider_messages demo_session_env demo_changed) = [to_message demo_stored]"
  using provider_messages_exact[OF demo_history] by (simp add: messages_for_provider_uncached_def demo_session_fields)

lemma memory_profile_exact_witness:
  "pf_message_count (fst (memory_profile_snapshot demo_session_env demo_changed)) = 1 \<and>
   pf_payload_text_bytes (fst (memory_profile_snapshot demo_session_env demo_changed)) = 5"
  using memory_profile_exact[OF demo_history, of "fst (memory_profile_snapshot demo_session_env demo_changed)"
      "snd (memory_profile_snapshot demo_session_env demo_changed)"]
  by (simp add: demo_session_fields all_blocks_def demo_stored_def block_sizes_def)

text \<open>The journal of the second save, and a new title: the third save writes a snapshot, the journal stays.\<close>

definition demo_renamed :: session where
  "demo_renamed = rename_title 3 (Some ''t'') (reset_persist_state True (demo_changed\<lparr>updated_at := 2\<rparr>))"

definition demo_codec_renamed :: session_codec where
  "demo_codec_renamed = demo_codec\<lparr>dec_session := (\<lambda>_. Some (deserialized demo_renamed))\<rparr>"

lemma stale_journal_repeats_messages_witness:
  "\<exists>s' d' l. save demo_codec_renamed demo_session_paths 3 (all_ok\<lparr>journal_removed := False\<rparr>)
       (demo_renamed, [''s'' \<mapsto> ''0'', ''j'' \<mapsto> ''f'' @ nl]) = (True, s', d') \<and>
     load_from_path demo_codec_renamed demo_session_paths d' = (Some l, d') \<and> messages l = [demo_stored, demo_stored]"
proof -
  let ?e = "increment_entry (demo_changed\<lparr>updated_at := 2\<rparr>)"
  let ?io = "all_ok\<lparr>journal_removed := False\<rparr>"
  let ?d = "[''s'' \<mapsto> ''0'', ''j'' \<mapsto> ''f'' @ nl]"
  have u: "demo_renamed\<lparr>updated_at := 3\<rparr> = demo_renamed" by (simp add: demo_renamed_def rename_title_def)
  have ms: "messages demo_renamed = [demo_stored]"
    by (simp add: demo_renamed_def rename_title_def reset_persist_state_def demo_session_fields)
  have "entry_prints demo_codec_renamed ?e"
    using demo_entries(2) by (simp add: entry_prints_def demo_codec_renamed_def)
  then have j: "journal_holds demo_codec_renamed demo_session_paths ?d [?e]"
    by (simp add: journal_holds_def demo_session_paths_def) (simp add: demo_codec_renamed_def demo_codec_def demo_increment)
  have tt: "title demo_changed = None"
    by (simp add: demo_changed_def demo_saved_def demo_created_def create_with_id_def append_stored_message_def
        mark_messages_append_dirty_def reset_persist_state_def Let_def)
  have tr: "trim ''t'' = ''t''" by code_simp
  have "title demo_renamed \<noteq> title demo_changed"
    unfolding tt by (simp add: demo_renamed_def rename_title_def tr)
  then have m: "metadata_needs_snapshot (demo_renamed\<lparr>updated_at := 3\<rparr>)"
    unfolding u
    by (simp add: metadata_needs_snapshot_def metadata_requires_snapshot_def journal_meta_def session_meta.defs tt)
      (simp add: demo_renamed_def rename_title_def reset_persist_state_def journal_meta_def session_meta.defs metadata_requires_snapshot_def tt tr)
  obtain r s' d' where sv: "save demo_codec_renamed demo_session_paths 3 ?io (demo_renamed, ?d) = (r, s', d')"
    by (metis prod_cases3)
  have "dec_session demo_codec_renamed (enc_session demo_codec_renamed (demo_renamed\<lparr>updated_at := 3\<rparr>)) =
      Some (deserialized (demo_renamed\<lparr>updated_at := 3\<rparr>))"
    by (simp add: demo_codec_renamed_def u)
  from stale_journal_repeats_messages[OF j demo_paths this _ _ _ sv] m show ?thesis
    using sv by (auto simp: all_ok_def ms demo_increment)
qed

end
