(* ===== verification/File_Tools.thy ===== *)
theory File_Tools
  imports Text_Ops
begin

text \<open>
  The tools that read and change single files: \<^verbatim>\<open>edit\<close>, \<^verbatim>\<open>multiedit\<close>, \<^verbatim>\<open>write\<close> and the text part of
  \<^verbatim>\<open>read\<close> (\<^verbatim>\<open>src/src/tool/edit.rs\<close>, \<^verbatim>\<open>multiedit.rs\<close>, \<^verbatim>\<open>write.rs\<close>, \<^verbatim>\<open>read.rs\<close>), with the context they
  run in (\<^verbatim>\<open>gcode-tool-core\<close>, \<^verbatim>\<open>gcode-tool-types\<close>, the file events of \<^verbatim>\<open>bus.rs\<close>).

  The state is the file system together with the events published on the bus. A path holds UTF-8
  text or something that cannot be read as text; paths that the operating system refuses to change
  are a predicate of the state, and its messages a function. Paths are compared as strings after
  resolution. The line diff of the \<^verbatim>\<open>similar\<close> crate, which only feeds messages, is the parameter
  \<^verbatim>\<open>text_diff\<close>. A slice out of range is the outcome \<^verbatim>\<open>Panic\<close>.
\<close>

section \<open>Definitions\<close>

subsection \<open>Outcomes and context\<close>

datatype 'a outcome = Ok 'a | Err string | Panic

record tool_output =
  to_output :: string
  to_title :: "string option"

definition ToolOutput_new :: "string \<Rightarrow> tool_output" where
  "ToolOutput_new s = \<lparr>to_output = s, to_title = None\<rparr>"

definition with_title :: "string \<Rightarrow> tool_output \<Rightarrow> tool_output" where
  "with_title t out = out\<lparr>to_title := Some t\<rparr>"

record tool_context =
  ctx_session_id :: string
  working_dir :: "string option"

definition resolve_path :: "tool_context \<Rightarrow> string \<Rightarrow> string" where
  "resolve_path ctx p =
     (if is_absolute p then p
      else case working_dir ctx of Some base \<Rightarrow> path_join base p | None \<Rightarrow> p)"

datatype file_op = Read | Write | Edit

record file_touch =
  ft_session_id :: string
  ft_path :: string
  ft_op :: file_op
  ft_summary :: "string option"
  ft_detail :: "string option"

subsection \<open>The file system\<close>

datatype node = Text string | Opaque

record world =
  files :: "string \<Rightarrow> node option"
  denied :: "string \<Rightarrow> bool"
  os_error :: "string \<Rightarrow> string"
  bus :: "file_touch list"

definition path_exists :: "world \<Rightarrow> string \<Rightarrow> bool" where
  "path_exists w p \<longleftrightarrow> files w p \<noteq> None"

definition read_to_string :: "world \<Rightarrow> string \<Rightarrow> string + string" where
  "read_to_string w p = (case files w p of Some (Text s) \<Rightarrow> Inr s | _ \<Rightarrow> Inl (os_error w p))"

definition fs_write :: "string \<Rightarrow> string \<Rightarrow> world \<Rightarrow> string + world" where
  "fs_write p s w = (if denied w p then Inl (os_error w p) else Inr (w\<lparr>files := (files w)(p \<mapsto> Text s)\<rparr>))"

definition remove_file :: "string \<Rightarrow> world \<Rightarrow> string + world" where
  "remove_file p w =
     (if denied w p \<or> \<not> path_exists w p then Inl (os_error w p) else Inr (w\<lparr>files := (files w)(p := None)\<rparr>))"

definition parent_path :: "string \<Rightarrow> string option" where
  "parent_path p =
     (if p = [] \<or> p = ''/'' then None
      else case dropWhile (\<lambda>c. c \<noteq> CHR ''/'') (rev p) of
             [] \<Rightarrow> Some []
           | _ # cs \<Rightarrow> Some (if cs = [] then ''/'' else rev cs))"

text \<open>\<^verbatim>\<open>create_dir_all\<close>: the message when the system refuses; directories carry no text.\<close>

definition create_dir_all :: "string \<Rightarrow> world \<Rightarrow> string option" where
  "create_dir_all d w = (if d \<noteq> [] \<and> denied w d then Some (os_error w d) else None)"

definition publish :: "file_touch \<Rightarrow> world \<Rightarrow> world" where
  "publish e w = w\<lparr>bus := bus w @ [e]\<rparr>"

definition truncate_str :: "string \<Rightarrow> nat \<Rightarrow> string" where
  "truncate_str s max_bytes =
     (if length s \<le> max_bytes then s else take (shrink_to_boundary s max_bytes) s)"

subsection \<open>Diffs and previews\<close>

datatype change_tag = Delete | Insert | Equal

type_synonym differ = "string \<Rightarrow> string \<Rightarrow> (change_tag \<times> string) list"

definition diff_line :: "nat \<Rightarrow> string \<Rightarrow> string \<Rightarrow> string" where
  "diff_line num sign content = show_nat num @ sign @ '' '' @ content @ nl"

text \<open>\<^verbatim>\<open>generate_diff\<close> of \<^verbatim>\<open>edit.rs\<close>: every changed line that is not blank.\<close>

fun edit_diff_loop :: "nat \<Rightarrow> nat \<Rightarrow> (change_tag \<times> string) list \<Rightarrow> string" where
  "edit_diff_loop old_line new_line [] = []"
| "edit_diff_loop old_line new_line ((tag, value) # cs) =
     (let content = trim value in
      case tag of
        Delete \<Rightarrow> (if content = [] then [] else diff_line old_line ''-'' content)
                    @ edit_diff_loop (old_line + 1) new_line cs
      | Insert \<Rightarrow> (if content = [] then [] else diff_line new_line ''+'' content)
                    @ edit_diff_loop old_line (new_line + 1) cs
      | Equal \<Rightarrow> edit_diff_loop (old_line + 1) (new_line + 1) cs)"

definition generate_diff :: "differ \<Rightarrow> string \<Rightarrow> string \<Rightarrow> nat \<Rightarrow> string" where
  "generate_diff text_diff old new start_line =
     (let out = edit_diff_loop start_line start_line (text_diff old new)
      in if out = [] then [] else trim_end out)"

text \<open>
  \<^verbatim>\<open>generate_diff_summary\<close> of \<^verbatim>\<open>write.rs\<close> and \<^verbatim>\<open>multiedit.rs\<close>: the same with at most
  \<^verbatim>\<open>max_lines\<close> lines shown; the next one is replaced by dots.
\<close>

fun summary_loop :: "nat \<Rightarrow> nat \<Rightarrow> nat \<Rightarrow> nat \<Rightarrow> (change_tag \<times> string) list \<Rightarrow> string" where
  "summary_loop max_lines shown old_line new_line [] = []"
| "summary_loop max_lines shown old_line new_line ((tag, value) # cs) =
     (let content = trim value in
      case tag of
        Equal \<Rightarrow> summary_loop max_lines shown (old_line + 1) (new_line + 1) cs
      | Delete \<Rightarrow>
          if content = [] then summary_loop max_lines shown (old_line + 1) new_line cs
          else if shown \<ge> max_lines then ''...'' @ nl
          else diff_line old_line ''-'' content @ summary_loop max_lines (shown + 1) (old_line + 1) new_line cs
      | Insert \<Rightarrow>
          if content = [] then summary_loop max_lines shown old_line (new_line + 1) cs
          else if shown \<ge> max_lines then ''...'' @ nl
          else diff_line new_line ''+'' content @ summary_loop max_lines (shown + 1) old_line (new_line + 1) cs)"

definition write_diff_summary :: "differ \<Rightarrow> string \<Rightarrow> string \<Rightarrow> string" where
  "write_diff_summary text_diff old new = trim_end (summary_loop 20 0 1 1 (text_diff old new))"

definition multiedit_diff_summary :: "differ \<Rightarrow> string \<Rightarrow> string \<Rightarrow> string" where
  "multiedit_diff_summary text_diff old new = summary_loop 30 0 1 1 (text_diff old new)"

definition FILE_TOUCH_PREVIEW_MAX_LINES :: nat where
  "FILE_TOUCH_PREVIEW_MAX_LINES = 6"

definition FILE_TOUCH_PREVIEW_MAX_BYTES :: nat where
  "FILE_TOUCH_PREVIEW_MAX_BYTES = 240"

definition ellipsis_char :: string where
  "ellipsis_char = [CHR 0xE2, CHR 0x80, CHR 0xA6]"

definition build_file_touch_preview :: "string \<Rightarrow> string option" where
  "build_file_touch_preview diff =
     (let trimmed = trim diff in
      if trimmed = [] then None
      else
        let ls = lines trimmed;
            preview = join nl (take FILE_TOUCH_PREVIEW_MAX_LINES ls);
            truncated = length ls > FILE_TOUCH_PREVIEW_MAX_LINES;
            (preview, truncated) =
              (if length preview > FILE_TOUCH_PREVIEW_MAX_BYTES
               then (trim_end (truncate_str preview FILE_TOUCH_PREVIEW_MAX_BYTES), True)
               else (preview, truncated))
        in Some (if truncated then preview @ nl @ ellipsis_char else preview))"

subsection \<open>The edit tool\<close>

record edit_input =
  ei_file_path :: string
  ei_old_string :: string
  ei_new_string :: string
  ei_replace_all :: bool

definition find_line_number :: "string \<Rightarrow> string \<Rightarrow> nat" where
  "find_line_number content substring =
     (case str_find substring content of
        Some pos \<Rightarrow> length (lines (take pos content)) + 1
      | None \<Rightarrow> 1)"

definition bar_char :: string where
  "bar_char = [CHR 0xE2, CHR 0x94, CHR 0x82]"

text \<open>The lines of a numbered excerpt from index \<^verbatim>\<open>i\<close> on; \<^term>\<open>None\<close> is a slice out of range.\<close>

definition extract_context :: "string \<Rightarrow> nat \<Rightarrow> nat \<Rightarrow> nat \<Rightarrow> (nat \<times> nat \<times> string) option" where
  "extract_context content edit_start edit_end padding =
     (let ls = lines content;
          total_lines = length ls;
          start = edit_start - (padding + 1);
          end = min (edit_end + padding) total_lines
      in if start > end then None
         else Some (start + 1, end,
           join nl (map (\<lambda>i. pad_left 4 (show_nat (i + 1)) @ bar_char @ '' '' @ ls ! i) [start..<end])))"

text \<open>\<^verbatim>\<open>windows(n).enumerate()\<close> searched for the first window that agrees up to surrounding space.\<close>

fun find_window :: "string list \<Rightarrow> string list \<Rightarrow> nat \<Rightarrow> nat option" where
  "find_window old_lines [] i = None"
| "find_window old_lines (c # cs) i =
     (if length old_lines \<le> length (c # cs) \<and> list_all2 (\<lambda>a b. trim a = trim b) (take (length old_lines) (c # cs)) old_lines
      then Some i else find_window old_lines cs (i + 1))"

definition try_flexible_match :: "string \<Rightarrow> string \<Rightarrow> string \<Rightarrow> tool_output outcome" where
  "try_flexible_match content old_string file_path =
     (let trimmed = trim old_string in
      if str_contains trimmed content \<and> trimmed \<noteq> old_string then
        Err (''old_string not found exactly, but found after trimming whitespace.'' @ nl @
             ''Try using the exact string from the file, including leading/trailing whitespace.'')
      else
        let old_lines = lines old_string; content_lines = lines content in
        if old_lines = [] then Panic
        else case find_window old_lines content_lines 0 of
          Some i \<Rightarrow>
            Err (''old_string not found exactly, but found with different indentation around line '' @
                 show_nat (i + 1) @ ''.'' @ nl @ ''Make sure to preserve the exact whitespace from the file.'')
        | None \<Rightarrow>
            Err (''old_string not found in '' @ file_path @ ''.'' @ nl @
                 ''Use the read tool to see the current file contents.''))"

definition edit_execute :: "differ \<Rightarrow> tool_context \<Rightarrow> edit_input \<Rightarrow> world \<Rightarrow> tool_output outcome \<times> world" where
  "edit_execute text_diff ctx params w =
     (if ei_old_string params = ei_new_string params
      then (Err ''old_string and new_string must be different'', w)
      else
      let path = resolve_path ctx (ei_file_path params) in
      if \<not> path_exists w path then (Err (''File not found: '' @ ei_file_path params), w)
      else case read_to_string w path of
        Inl e \<Rightarrow> (Err e, w)
      | Inr content \<Rightarrow>
        let occurrences = matches_count (ei_old_string params) content in
        if occurrences = 0 then (try_flexible_match content (ei_old_string params) (ei_file_path params), w)
        else if occurrences > 1 \<and> \<not> ei_replace_all params then
          (Err (''old_string found '' @ show_nat occurrences @ '' times in the file. Either:'' @ nl @
                ''1. Provide more context to make it unique, or'' @ nl @
                ''2. Set replace_all: true to replace all occurrences''), w)
        else
        let new_content = (if ei_replace_all params
                           then str_replace (ei_old_string params) (ei_new_string params) content
                           else replace_first (ei_old_string params) (ei_new_string params) content);
            start_line = find_line_number content (ei_old_string params)
        in case fs_write path new_content w of
          Inl e \<Rightarrow> (Err e, w)
        | Inr w1 \<Rightarrow>
          let diff = generate_diff text_diff (ei_old_string params) (ei_new_string params) start_line;
              end_line = start_line + (length (lines (ei_new_string params)) - 1);
              w2 = publish \<lparr>ft_session_id = ctx_session_id ctx, ft_path = path, ft_op = Edit,
                     ft_summary = Some (''edited lines '' @ show_nat start_line @ ''-'' @ show_nat end_line @ '' ('' @
                       show_nat occurrences @ '' occurrence'' @ (if occurrences = 1 then [] else ''s'') @ '')''),
                     ft_detail = build_file_touch_preview diff\<rparr> w1
          in case extract_context new_content start_line end_line 3 of
            None \<Rightarrow> (Panic, w2)
          | Some (a, b, text) \<Rightarrow>
              (Ok (with_title (ei_file_path params) (ToolOutput_new
                 (''Edited '' @ ei_file_path params @ '': replaced '' @ show_nat occurrences @ '' occurrence(s)'' @ nl @
                  diff @ nl @ nl @ ''Context after edit (lines '' @ show_nat a @ ''-'' @ show_nat b @ ''):'' @ nl @ text))), w2))"

subsection \<open>The multiedit tool\<close>

record edit_operation =
  eo_old_string :: string
  eo_new_string :: string
  eo_replace_all :: bool

record multi_edit_state =
  me_content :: string
  me_applied :: "string list"
  me_failed :: "string list"

text \<open>The body of the loop for the edit at index \<^verbatim>\<open>i\<close>.\<close>

definition multiedit_step :: "nat \<times> edit_operation \<Rightarrow> multi_edit_state \<Rightarrow> multi_edit_state" where
  "multiedit_step ie st =
     (let (i, edit) = ie;
          fail = (\<lambda>msg. st\<lparr>me_failed := me_failed st @ [''Edit '' @ show_nat (i + 1) @ msg]\<rparr>);
          occurrences = matches_count (eo_old_string edit) (me_content st)
      in if eo_old_string edit = eo_new_string edit then fail '': old_string equals new_string''
         else if occurrences = 0 then fail '': old_string not found''
         else if occurrences > 1 \<and> \<not> eo_replace_all edit then
           fail ('': found '' @ show_nat occurrences @ '' occurrences, use replace_all or be more specific'')
         else if eo_replace_all edit then
           st\<lparr>me_content := str_replace (eo_old_string edit) (eo_new_string edit) (me_content st),
              me_applied := me_applied st @ [''Edit '' @ show_nat (i + 1) @ '': replaced '' @ show_nat occurrences @ '' occurrences'']\<rparr>
         else
           st\<lparr>me_content := replace_first (eo_old_string edit) (eo_new_string edit) (me_content st),
              me_applied := me_applied st @ [''Edit '' @ show_nat (i + 1) @ '': replaced 1 occurrence'']\<rparr>)"

definition multiedit_run :: "edit_operation list \<Rightarrow> string \<Rightarrow> multi_edit_state" where
  "multiedit_run edits content =
     fold multiedit_step (enumerate 0 edits) \<lparr>me_content = content, me_applied = [], me_failed = []\<rparr>"

definition check_mark :: string where
  "check_mark = [CHR 0xE2, CHR 0x9C, CHR 0x93]"

definition cross_mark :: string where
  "cross_mark = [CHR 0xE2, CHR 0x9C, CHR 0x97]"

definition multiedit_report :: "differ \<Rightarrow> string \<Rightarrow> string \<Rightarrow> multi_edit_state \<Rightarrow> string" where
  "multiedit_report text_diff file_path original st =
     ''Edited '' @ file_path @ nl @ nl @
     (if me_applied st \<noteq> []
      then ''Applied:'' @ nl @ concat (map (\<lambda>msg. ''  '' @ check_mark @ '' '' @ msg @ nl) (me_applied st)) else []) @
     (if me_failed st \<noteq> []
      then nl @ ''Failed:'' @ nl @ concat (map (\<lambda>msg. ''  '' @ cross_mark @ '' '' @ msg @ nl) (me_failed st)) else []) @
     nl @ ''Total: '' @ show_nat (length (me_applied st)) @ '' applied, '' @ show_nat (length (me_failed st)) @ '' failed'' @ nl @
     (if me_applied st \<noteq> []
      then nl @ ''Diff:'' @ nl @ multiedit_diff_summary text_diff original (me_content st) else [])"

definition multiedit_execute ::
    "differ \<Rightarrow> tool_context \<Rightarrow> string \<Rightarrow> edit_operation list \<Rightarrow> world \<Rightarrow> tool_output outcome \<times> world" where
  "multiedit_execute text_diff ctx file_path edits w =
     (let path = resolve_path ctx file_path in
      if \<not> path_exists w path then (Err (''File not found: '' @ file_path), w)
      else case read_to_string w path of
        Inl e \<Rightarrow> (Err e, w)
      | Inr original_content \<Rightarrow>
        let st = multiedit_run edits original_content in
        case fs_write path (me_content st) w of
          Inl e \<Rightarrow> (Err e, w)
        | Inr w1 \<Rightarrow>
            (Ok (with_title file_path (ToolOutput_new (multiedit_report text_diff file_path original_content st))), w1))"

subsection \<open>The write tool\<close>

definition write_execute :: "differ \<Rightarrow> tool_context \<Rightarrow> string \<Rightarrow> string \<Rightarrow> world \<Rightarrow> tool_output outcome \<times> world" where
  "write_execute text_diff ctx file_path content w =
     (let path = resolve_path ctx file_path in
      case (case parent_path path of
              Some parent \<Rightarrow> if \<not> path_exists w parent then create_dir_all parent w else None
            | None \<Rightarrow> None) of
        Some e \<Rightarrow> (Err e, w)
      | None \<Rightarrow>
        let existed = path_exists w path;
            old_content = (if existed then (case read_to_string w path of Inr s \<Rightarrow> Some s | Inl _ \<Rightarrow> None) else None)
        in case fs_write path content w of
          Inl e \<Rightarrow> (Err e, w)
        | Inr w1 \<Rightarrow>
          let line_count = length (lines content);
              diff = (case old_content of
                        Some old \<Rightarrow> write_diff_summary text_diff old content
                      | None \<Rightarrow> write_diff_summary text_diff [] content);
              w2 = publish \<lparr>ft_session_id = ctx_session_id ctx, ft_path = path, ft_op = Write,
                     ft_summary = Some ((if existed then ''overwrote file ('' else ''created new file ('')
                       @ show_nat line_count @ '' lines)''),
                     ft_detail = build_file_touch_preview diff\<rparr> w1
          in (Ok (with_title file_path (ToolOutput_new
                (if existed
                 then ''Updated '' @ file_path @ '' ('' @ show_nat line_count @ '' lines)'' @
                      (if diff = [] then [] else '':'') @ nl @ diff
                 else ''Created '' @ file_path @ '' ('' @ show_nat line_count @ '' lines):'' @ nl @
                      write_diff_summary text_diff [] content))), w2))"

subsection \<open>The read tool\<close>

definition DEFAULT_LIMIT :: nat where
  "DEFAULT_LIMIT = 5000"

definition MAX_LINE_LEN :: nat where
  "MAX_LINE_LEN = 2000"

record read_input =
  ri_start_line :: "nat option"
  ri_end_line :: "nat option"
  ri_offset :: "nat option"
  ri_limit :: "nat option"

datatype read_range_style = OffsetLimit | StartEnd

record read_range =
  rr_offset :: nat
  rr_limit :: nat
  rr_style :: read_range_style

text \<open>
  The numbers are of type \<^verbatim>\<open>usize\<close> and come from the caller: additions wrap around as in a build
  without overflow checks, and the checked one yields no number when it would.
\<close>

definition usize_add :: "nat \<Rightarrow> nat \<Rightarrow> nat" where
  "usize_add a b = (a + b) mod 2 ^ 64"

definition checked_succ :: "nat \<Rightarrow> nat option" where
  "checked_succ n = (if n + 1 < 2 ^ 64 then Some (n + 1) else None)"

definition next_offset :: "read_range \<Rightarrow> nat" where
  "next_offset r = usize_add (rr_offset r) (rr_limit r)"

definition next_start_line :: "read_range \<Rightarrow> nat" where
  "next_start_line r = usize_add (next_offset r) 1"

definition has_mixed_offset :: "read_input \<Rightarrow> bool" where
  "has_mixed_offset params =
     (case (ri_start_line params, ri_end_line params, ri_offset params) of
        (Some start_line, _, Some offset) \<Rightarrow> if start_line = 0 then True else checked_succ offset \<noteq> Some start_line
      | (None, Some _, Some offset) \<Rightarrow> offset \<noteq> 0
      | _ \<Rightarrow> ri_offset params \<noteq> None)"

definition opt_or :: "'a \<Rightarrow> 'a option \<Rightarrow> 'a" where
  "opt_or d m = (case m of Some x \<Rightarrow> x | None \<Rightarrow> d)"

definition normalize_read_range :: "read_input \<Rightarrow> string + read_range" where
  "normalize_read_range params =
     (let has_start_end = ri_start_line params \<noteq> None \<or> ri_end_line params \<noteq> None in
      if has_start_end \<and> has_mixed_offset params then
        Inl (''Use either start_line/end_line (1-based) or offset (0-based), not both. '' @
             ''`limit` may be used with either style.'')
      else if has_start_end then
        let start_line = opt_or 1 (ri_start_line params) in
        if start_line = 0 then Inl ''start_line must be 1 or greater (it is 1-based).''
        else case ri_end_line params of
          Some end_line \<Rightarrow>
            if end_line = 0 then Inl ''end_line must be 1 or greater (it is 1-based).''
            else if end_line < start_line then
              Inl (''end_line ('' @ show_nat end_line @ '') must be greater than or equal to start_line ('' @
                   show_nat start_line @ '').'')
            else Inr \<lparr>rr_offset = start_line - 1, rr_limit = end_line - start_line + 1, rr_style = StartEnd\<rparr>
        | None \<Rightarrow> Inr \<lparr>rr_offset = start_line - 1, rr_limit = opt_or DEFAULT_LIMIT (ri_limit params), rr_style = StartEnd\<rparr>
      else Inr \<lparr>rr_offset = opt_or 0 (ri_offset params), rr_limit = opt_or DEFAULT_LIMIT (ri_limit params), rr_style = OffsetLimit\<rparr>)"

text \<open>One numbered line; long lines are cut.\<close>

definition read_line :: "nat \<Rightarrow> string \<Rightarrow> string" where
  "read_line line_num line =
     pad_left 5 (show_nat line_num) @ [CHR 0x09] @
     (if length line > MAX_LINE_LEN then truncate_str line MAX_LINE_LEN @ ''...'' else line) @ nl"

text \<open>
  The loop over the lines from index \<^verbatim>\<open>i\<close> on: the output and the number of cut lines.
\<close>

fun read_loop :: "nat \<Rightarrow> nat \<Rightarrow> nat \<Rightarrow> string list \<Rightarrow> string \<times> nat" where
  "read_loop offset end_exclusive i [] = ([], 0)"
| "read_loop offset end_exclusive i (line # ls) =
     (let (rest, n) = read_loop offset end_exclusive (i + 1) ls in
      if i < offset \<or> i \<ge> end_exclusive then (rest, n)
      else (read_line (i + 1) line @ rest, if length line > MAX_LINE_LEN then n + 1 else n))"

definition end_exclusive :: "read_range \<Rightarrow> nat" where
  "end_exclusive r = usize_add (rr_offset r) (rr_limit r)"

text \<open>The text part of \<^verbatim>\<open>execute\<close>, for the content of a file that is not an image, PDF or binary.\<close>

definition read_text :: "tool_context \<Rightarrow> string \<Rightarrow> read_range \<Rightarrow> string \<Rightarrow> world \<Rightarrow> tool_output \<times> world" where
  "read_text ctx path r content w =
     (let ls = lines content;
          total_lines = length ls;
          out = fst (read_loop (rr_offset r) (end_exclusive r) 0 ls);
          end = min (end_exclusive r) total_lines;
          w1 = publish \<lparr>ft_session_id = ctx_session_id ctx, ft_path = path, ft_op = Read,
                 ft_summary = Some (''read lines '' @ show_nat (usize_add (rr_offset r) 1) @ ''-'' @ show_nat end @ '' of '' @ show_nat total_lines),
                 ft_detail = None\<rparr> w;
          hint = (case rr_style r of
                    OffsetLimit \<Rightarrow> ''offset='' @ show_nat (next_offset r)
                  | StartEnd \<Rightarrow> ''start_line='' @ show_nat (next_start_line r));
          out = (if end < total_lines
                 then out @ nl @ ''... '' @ show_nat (total_lines - end) @ '' more lines (use '' @ hint @ '' to continue)'' @ nl
                 else out)
      in (ToolOutput_new (if out = [] then ''(empty file)'' else out), w1))"

section \<open>The file system as an interface\<close>

text \<open>
  What the tools rely on: after a successful write a path reads as what was written, after a
  successful removal it has no text, and no other path changes.
\<close>

locale file_store =
  fixes get :: "'w \<Rightarrow> 'p \<Rightarrow> 'c option"
    and put :: "'p \<Rightarrow> 'c \<Rightarrow> 'w \<Rightarrow> 'e + 'w"
    and del :: "'p \<Rightarrow> 'w \<Rightarrow> 'e + 'w"
  assumes get_put: "put p c w = Inr w' \<Longrightarrow> get w' q = (if q = p then Some c else get w q)"
    and get_del: "del p w = Inr w' \<Longrightarrow> get w' q = (if q = p then None else get w q)"
begin

text \<open>Writing the destination before removing the source moves a file, unless the two are the same.\<close>

lemma get_move:
  assumes "put dest c w = Inr w1" "del src w1 = Inr w2"
  shows "get w2 q = (if q = src then None else if q = dest then Some c else get w q)"
  using get_put[OF assms(1)] get_del[OF assms(2)] by simp

lemma get_overwrite:
  assumes "put p c w = Inr w1" "put p c' w1 = Inr w2"
  shows "get w2 q = (if q = p then Some c' else get w q)"
  using get_put[OF assms(1)] get_put[OF assms(2)] by simp

end

definition text_of :: "world \<Rightarrow> string \<Rightarrow> string option" where
  "text_of w p = (case files w p of Some (Text s) \<Rightarrow> Some s | _ \<Rightarrow> None)"

interpretation fsys: file_store text_of fs_write remove_file
  by unfold_locales (auto simp: text_of_def fs_write_def remove_file_def split: if_splits)

lemma text_of_publish [simp]: "text_of (publish e w) = text_of w"
  by (simp add: text_of_def publish_def fun_eq_iff)

section \<open>The edit tool\<close>

lemma lines_Nil: "lines s = [] \<longleftrightarrow> s = []"
proof -
  have "lines s = [] \<longleftrightarrow> length (lines s) = 0" by simp
  then show ?thesis unfolding length_lines by (cases s rule: rev_cases) (auto simp: count_list_append)
qed

lemma find_line_number_prefix: "str_find pat s = Some i \<Longrightarrow> find_line_number s pat = length (lines (take i s)) + 1"
  by (simp add: find_line_number_def)

text \<open>An excerpt around an edit that keeps the text before it stays inside the file.\<close>

lemma extract_context_defined:
  "s \<le> length (lines pre) + 1 \<Longrightarrow> s \<le> e \<Longrightarrow> extract_context (pre @ t) s e padding \<noteq> None"
  using length_lines_prefix[of pre t] by (auto simp: extract_context_def Let_def)

lemma try_flexible_match_err:
  assumes "matches_count old content = 0"
  obtains e where "try_flexible_match content old fp = Err e"
proof -
  have "lines old \<noteq> []" using assms by (auto simp: lines_Nil matches_zero)
  then have "\<exists>e. try_flexible_match content old fp = Err e"
    unfolding try_flexible_match_def Let_def by (simp split: option.splits)
  then show thesis using that by blast
qed

text \<open>When an edit is accepted, and what the file then holds.\<close>

definition editable :: "string \<Rightarrow> string \<Rightarrow> bool \<Rightarrow> string \<Rightarrow> bool" where
  "editable old new all content \<longleftrightarrow>
     old \<noteq> new \<and> matches_count old content \<noteq> 0 \<and> (matches_count old content = 1 \<or> all)"

definition edited :: "string \<Rightarrow> string \<Rightarrow> bool \<Rightarrow> string \<Rightarrow> string" where
  "edited old new all content = (if all then str_replace old new content else replace_first old new content)"

lemma edited_prefix:
  assumes "matches_count old content \<noteq> 0"
  obtains pre post where "edited old new all content = pre @ post" "str_find old content = Some (length pre)" "prefix pre content"
proof (cases all)
  case True
  obtain pre post where "str_replace old new content = pre @ new @ post" "str_find old content = Some (length pre)"
    "prefix pre content" by (rule replace_all_prefix[OF assms])
  then show thesis using that True by (simp add: edited_def)
next
  case False
  obtain pre post where p: "content = pre @ old @ post" "replace_first old new content = pre @ new @ post"
    "str_find old content = Some (length pre)" by (rule replace_first_eq[OF assms])
  have "prefix pre content" unfolding p(1) by simp
  moreover have "edited old new all content = pre @ new @ post" using False p(2) by (simp add: edited_def)
  ultimately show thesis using that p(3) by blast
qed

abbreviation edit_call :: "differ \<Rightarrow> tool_context \<Rightarrow> string \<Rightarrow> string \<Rightarrow> string \<Rightarrow> bool \<Rightarrow> world \<Rightarrow> tool_output outcome \<times> world" where
  "edit_call d ctx fp old new all w \<equiv>
     edit_execute d ctx \<lparr>ei_file_path = fp, ei_old_string = old, ei_new_string = new, ei_replace_all = all\<rparr> w"

lemma edit_execute_cases:
  obtains (ok) content out e where "files w (resolve_path ctx fp) = Some (Text content)"
      "\<not> denied w (resolve_path ctx fp)" "editable old new all content"
      "edit_call d ctx fp old new all w =
        (Ok out, w\<lparr>files := (files w)(resolve_path ctx fp \<mapsto> Text (edited old new all content)), bus := bus w @ [e]\<rparr>)"
      "ft_path e = resolve_path ctx fp" "ft_op e = Edit"
    | (err) msg where "edit_call d ctx fp old new all w = (Err msg, w)"
      "\<forall>content. files w (resolve_path ctx fp) = Some (Text content) \<longrightarrow>
         denied w (resolve_path ctx fp) \<or> \<not> editable old new all content"
proof -
  consider (none) "\<forall>content. files w (resolve_path ctx fp) \<noteq> Some (Text content)"
    | (no) content where "files w (resolve_path ctx fp) = Some (Text content)" "\<not> editable old new all content"
    | (denied) content where "files w (resolve_path ctx fp) = Some (Text content)" "editable old new all content" "denied w (resolve_path ctx fp)"
    | (yes) content where "files w (resolve_path ctx fp) = Some (Text content)" "editable old new all content" "\<not> denied w (resolve_path ctx fp)"
    by blast
  then show thesis
  proof cases
    case none
    then have "\<exists>msg. edit_call d ctx fp old new all w = (Err msg, w)"
      unfolding edit_execute_def by (auto simp: path_exists_def read_to_string_def Let_def split: option.splits node.splits)
    then show thesis using err none by blast
  next
    case no
    obtain e where "matches_count old content = 0 \<longrightarrow> try_flexible_match content old fp = Err e"
      using try_flexible_match_err by blast
    then have "\<exists>msg. edit_call d ctx fp old new all w = (Err msg, w)"
      using no unfolding edit_execute_def editable_def
      by (auto simp: path_exists_def read_to_string_def Let_def)
    then show thesis using err no by force
  next
    case denied
    then have "\<exists>msg. edit_call d ctx fp old new all w = (Err msg, w)"
      unfolding edit_execute_def editable_def
      by (auto simp: path_exists_def read_to_string_def fs_write_def Let_def)
    then show thesis using err denied by force
  next
    case yes
    then have m: "matches_count old content \<noteq> 0" by (simp add: editable_def)
    obtain pre post where pre: "edited old new all content = pre @ post" "str_find old content = Some (length pre)" "prefix pre content"
      by (rule edited_prefix[OF m])
    have "take (length pre) content = pre" using pre(3) by (metis append_eq_conv_conj prefix_def)
    then have line: "find_line_number content old = length (lines pre) + 1" using find_line_number_prefix[OF pre(2)] by simp
    obtain a b t where ctxt: "extract_context (edited old new all content) (find_line_number content old)
        (find_line_number content old + (length (lines new) - 1)) 3 = Some (a, b, t)"
      using extract_context_defined[of "find_line_number content old" pre
        "find_line_number content old + (length (lines new) - 1)" post 3] by (auto simp: pre(1) line)
    have occ: "\<not> (matches_count old content > 1 \<and> \<not> all)" "old \<noteq> new" using yes(2) by (auto simp: editable_def)
    show thesis
      using ok[OF yes(1,3,2)] yes(1,3) m occ ctxt
      unfolding edit_execute_def edit_input.select_convs Let_def edited_def[symmetric]
      by (simp add: path_exists_def read_to_string_def fs_write_def publish_def)
  qed
qed

text \<open>
  C4: The edit tool never panics. It succeeds exactly when the path holds text that may be changed,
  the strings differ and the old one occurs once, or at all when replacing all; the file then holds
  the text with the first occurrence, or every occurrence, replaced, every other file is as before,
  and one event is published. In every other case it reports an error and changes nothing.
\<close>

theorem edit_changes_exactly_the_match:
  "case edit_call d ctx fp old new all w of
      (Ok out, w') \<Rightarrow> \<exists>content pre post e. files w (resolve_path ctx fp) = Some (Text content) \<and>
        \<not> denied w (resolve_path ctx fp) \<and> old \<noteq> new \<and>
        content = pre @ old @ post \<and> (\<forall>j < length pre. \<not> prefix old (drop j content)) \<and>
        (all \<or> matches_count old content = 1) \<and>
        files w' = (files w)(resolve_path ctx fp \<mapsto> Text (if all then str_replace old new content else pre @ new @ post)) \<and>
        bus w' = bus w @ [e] \<and> ft_path e = resolve_path ctx fp
    | (Err msg, w') \<Rightarrow> w' = w \<and> (\<forall>content. files w (resolve_path ctx fp) = Some (Text content) \<longrightarrow>
        denied w (resolve_path ctx fp) \<or> old = new \<or> \<not> sublist old content \<or> (matches_count old content > 1 \<and> \<not> all))
    | (Panic, w') \<Rightarrow> False"
proof (cases rule: edit_execute_cases[where d = d and ctx = ctx and fp = fp and old = old and new = new and all = all and w = w])
  case (ok content out e)
  then have m: "matches_count old content \<noteq> 0" by (simp add: editable_def)
  obtain pre post where pre: "content = pre @ old @ post" "replace_first old new content = pre @ new @ post"
    "str_find old content = Some (length pre)" by (rule replace_first_eq[OF m])
  have first: "\<forall>j < length pre. \<not> prefix old (drop j content)" using pre(3) by (simp add: str_find_Some)
  have res: "edited old new all content = (if all then str_replace old new content else pre @ new @ post)"
    by (simp add: edited_def pre(2))
  have cond: "old \<noteq> new" "all \<or> matches_count old content = 1" using ok(3) by (auto simp: editable_def)
  show ?thesis unfolding ok(4) prod.case outcome.case
    by (rule exI[of _ content], rule exI[of _ pre], rule exI[of _ post], rule exI[of _ e])
      (simp only: ok(1,2,5) cond res pre(1)[symmetric] simp_thms, intro conjI, rule first, simp_all)
next
  case (err msg)
  then show ?thesis by (auto simp: editable_def matches_zero[symmetric])
qed

definition demo_world :: world where
  "demo_world = \<lparr>files = [''/f'' \<mapsto> Text ''hello world'', ''/g'' \<mapsto> Text ''aaa''], denied = (\<lambda>_. False),
     os_error = (\<lambda>_. ''io''), bus = []\<rparr>"

definition demo_ctx :: tool_context where
  "demo_ctx = \<lparr>ctx_session_id = ''s'', working_dir = Some ''/''\<rparr>"

lemma demo_path: "resolve_path demo_ctx ''f'' = ''/f''"
  by (simp add: resolve_path_def demo_ctx_def is_absolute_def starts_with_def path_join_def)

theorem edit_changes_exactly_the_match_witness:
  "\<exists>out w'. edit_call (\<lambda>_ _. []) demo_ctx ''f'' ''world'' ''moon'' True demo_world = (Ok out, w') \<and>
     files w' ''/f'' = Some (Text ''hello moon'')"
proof -
  have s: "sublist ''world'' ''hello world''" by (simp add: str_contains_iff[symmetric])
  have r: "str_replace ''world'' ''moon'' ''hello world'' = ''hello moon''"
    by (simp add: str_replace_def pieces.simps[of "''world''"])
  obtain res w' where res: "edit_call (\<lambda>_ _. []) demo_ctx ''f'' ''world'' ''moon'' True demo_world = (res, w')" by force
  have f: "files demo_world ''/f'' = Some (Text ''hello world'')" "\<not> denied demo_world ''/f''"
    by (simp_all add: demo_world_def)
  show ?thesis
    using edit_changes_exactly_the_match[where d = "\<lambda>_ _. []" and ctx = demo_ctx and fp = "''f''" and
      old = "''world''" and new = "''moon''" and all = True and w = demo_world]
    unfolding res demo_path by (cases res) (use s r f in \<open>auto simp: demo_path res\<close>)
qed

text \<open>
  The line number reported for an edit is one more than the number of line breaks before the
  match, plus another one when the match does not start at the beginning of a line.
\<close>

theorem find_line_number_value:
  assumes "str_find sub content = Some pos"
  shows "find_line_number content sub =
    1 + count_list (take pos content) newline + (if pos = 0 \<or> content ! (pos - 1) = newline then 0 else 1)"
proof (cases pos)
  case (Suc n)
  then have "n < length content" using str_find_bound[OF assms] by simp
  then have "take pos content \<noteq> []" "last (take pos content) = content ! n"
    using Suc by (auto simp: take_Suc_conv_app_nth)
  then show ?thesis using Suc by (simp add: find_line_number_prefix[OF assms] length_lines)
qed (simp add: find_line_number_prefix[OF assms] length_lines)

theorem find_line_number_value_witness:
  "find_line_number ''hello world'' ''world'' = 2 \<and> find_line_number ''hello world'' ''hello'' = 1"
  using find_line_number_value[of "''world''" "''hello world''" 6] find_line_number_value[of "''hello''" "''hello world''" 0]
  by simp

text \<open>
  A successful edit of one occurrence can be undone: when the new string occurs at exactly one
  position of the edited text, swapping the two strings succeeds and restores every file.
\<close>

theorem edit_undo:
  assumes "edit_call d ctx fp old new False w = (Ok out, w1)"
    and "files w1 (resolve_path ctx fp) = Some (Text c1)"
    and "\<exists>!i. i \<le> length c1 \<and> prefix new (drop i c1)"
    and "matches_count new c1 = 1"
  shows "\<exists>out' w2. edit_call d ctx fp new old False w1 = (Ok out', w2) \<and> files w2 = files w"
proof -
  obtain c pre post where c: "files w (resolve_path ctx fp) = Some (Text c)" "c = pre @ old @ post"
    "old \<noteq> new" "\<not> denied w1 (resolve_path ctx fp)" "c1 = pre @ new @ post"
    "files w1 = (files w)(resolve_path ctx fp \<mapsto> Text c1)"
  proof (cases rule: edit_execute_cases[where d = d and ctx = ctx and fp = fp and old = old and new = new and all = False and w = w])
    case (ok c out' e)
    then have "matches_count old c \<noteq> 0" by (simp add: editable_def)
    then obtain pre post where p: "c = pre @ old @ post" "replace_first old new c = pre @ new @ post"
      "str_find old c = Some (length pre)" by (rule replace_first_eq)
    have w1: "w1 = w\<lparr>files := (files w)(resolve_path ctx fp \<mapsto> Text (edited old new False c)), bus := bus w @ [e]\<rparr>"
      using assms(1) ok(4) by simp
    then have c1: "c1 = replace_first old new c" using assms(2) by (simp add: edited_def)
    show thesis
    proof (rule that[OF ok(1) p(1)])
      show "old \<noteq> new" using ok(3) by (simp add: editable_def)
      show "\<not> denied w1 (resolve_path ctx fp)" using ok(2) by (simp add: w1)
      show "c1 = pre @ new @ post" using c1 p(2) by (rule trans)
      show "files w1 = (files w)(resolve_path ctx fp \<mapsto> Text c1)" unfolding c1 w1 by (simp add: edited_def)
    qed
  qed (use assms(1) in simp)
  show ?thesis
  proof (cases rule: edit_execute_cases[where d = d and ctx = ctx and fp = fp and old = new and new = old and all = False and w = w1])
    case (ok c1' out' e)
    have "matches_count new c1 \<noteq> 0" using assms(4) by simp
    then obtain pre' post' where p: "c1 = pre' @ new @ post'" "replace_first new old c1 = pre' @ old @ post'"
      "str_find new c1 = Some (length pre')" by (rule replace_first_eq)
    have "length pre \<le> length c1 \<and> prefix new (drop (length pre) c1)" by (simp add: c(5))
    moreover have "length pre' \<le> length c1 \<and> prefix new (drop (length pre') c1)" by (simp add: p(1))
    ultimately have "length pre' = length pre" using assms(3) by blast
    then have "pre' = pre \<and> post' = post" using p(1) c(5) by simp
    then have "edited new old False c1 = c" using p(2) c(2) by (simp add: edited_def)
    moreover have "c1' = c1" using ok(1) assms(2) by simp
    moreover have "(files w)(resolve_path ctx fp := Some (Text c)) = files w" using c(1) by (metis fun_upd_triv)
    ultimately show ?thesis using ok(4) c(6) by simp
  next
    case (err msg)
    then show ?thesis using assms(2,4) c(3,4) by (auto simp: editable_def)
  qed
qed

theorem edit_undo_witness:
  "\<exists>out out' w1 w2. edit_call (\<lambda>_ _. []) demo_ctx ''f'' ''world'' ''moon'' False demo_world = (Ok out, w1) \<and>
     edit_call (\<lambda>_ _. []) demo_ctx ''f'' ''moon'' ''world'' False w1 = (Ok out', w2) \<and> files w2 = files demo_world"
proof -
  have m: "pieces ''world'' ''hello world'' = [''hello '', []]" "pieces ''moon'' ''hello moon'' = [''hello '', []]"
    by (simp_all add: pieces.simps[of "''world''"] pieces.simps[of "''moon''"])
  then have ed: "editable ''world'' ''moon'' False ''hello world''" "edited ''world'' ''moon'' False ''hello world'' = ''hello moon''"
    by (simp_all add: editable_def edited_def matches_count_def replace_first_def)
  have f: "files demo_world ''/f'' = Some (Text ''hello world'')" "\<not> denied demo_world ''/f''"
    by (simp_all add: demo_world_def)
  obtain out w1 where w1: "edit_call (\<lambda>_ _. []) demo_ctx ''f'' ''world'' ''moon'' False demo_world = (Ok out, w1)"
    "files w1 (resolve_path demo_ctx ''f'') = Some (Text ''hello moon'')"
    by (cases rule: edit_execute_cases[where d = "\<lambda>_ _. []" and ctx = demo_ctx and fp = "''f''" and old = "''world''"
          and new = "''moon''" and all = False and w = demo_world]) (use ed f in \<open>auto simp: demo_path\<close>)
  have "i = 6" if "i \<le> 10" "prefix ''moon'' (drop i ''hello moon'')" for i
    using that by (auto simp: le_Suc_eq numeral_eq_Suc)
  then have "\<exists>!i. i \<le> length ''hello moon'' \<and> prefix ''moon'' (drop i ''hello moon'')"
    by (intro ex1I[of _ 6]) auto
  then show ?thesis using edit_undo[OF w1] w1(1) m(2) by (auto simp: matches_count_def)
qed

text \<open>The check for a unique match overlooks a second match that overlaps the first.\<close>

theorem edit_overlapping_match_accepted:
  "\<exists>out w'. edit_call d demo_ctx ''g'' ''aa'' ''b'' False demo_world = (Ok out, w') \<and>
     files w' ''/g'' = Some (Text ''ba'') \<and> prefix ''aa'' (drop 0 ''aaa'') \<and> prefix ''aa'' (drop 1 ''aaa'')"
proof -
  have p: "resolve_path demo_ctx ''g'' = ''/g''"
    by (simp add: resolve_path_def demo_ctx_def is_absolute_def starts_with_def path_join_def)
  have m: "pieces ''aa'' ''aaa'' = [[], ''a'']" by (simp add: pieces.simps[of "''aa''"])
  then have "editable ''aa'' ''b'' False ''aaa''" "edited ''aa'' ''b'' False ''aaa'' = ''ba''"
    by (simp_all add: editable_def edited_def matches_count_def replace_first_def)
  moreover have "files demo_world ''/g'' = Some (Text ''aaa'')" "\<not> denied demo_world ''/g''"
    by (simp_all add: demo_world_def)
  ultimately show ?thesis
    by (cases rule: edit_execute_cases[where d = d and ctx = demo_ctx and fp = "''g''" and old = "''aa''" and new = "''b''" and all = False and w = demo_world])
      (auto simp: p)
qed

section \<open>The multiedit tool\<close>

definition run_edits :: "differ \<Rightarrow> tool_context \<Rightarrow> string \<Rightarrow> edit_operation list \<Rightarrow> world \<Rightarrow> world" where
  "run_edits d ctx fp edits w =
     fold (\<lambda>e w. snd (edit_call d ctx fp (eo_old_string e) (eo_new_string e) (eo_replace_all e) w)) edits w"

definition apply_edit :: "edit_operation \<Rightarrow> string \<Rightarrow> string" where
  "apply_edit e c =
     (if editable (eo_old_string e) (eo_new_string e) (eo_replace_all e) c
      then edited (eo_old_string e) (eo_new_string e) (eo_replace_all e) c else c)"

lemma multiedit_step_eq:
  "me_content (multiedit_step (i, e) st) = apply_edit e (me_content st)"
  "length (me_applied (multiedit_step (i, e) st)) + length (me_failed (multiedit_step (i, e) st)) =
     Suc (length (me_applied st) + length (me_failed st))"
  by (auto simp: multiedit_step_def apply_edit_def editable_def edited_def Let_def)

lemma multiedit_fold:
  "me_content (fold multiedit_step (enumerate n es) st) = fold apply_edit es (me_content st) \<and>
   length (me_applied (fold multiedit_step (enumerate n es) st)) + length (me_failed (fold multiedit_step (enumerate n es) st)) =
     length es + (length (me_applied st) + length (me_failed st))"
  by (induction es arbitrary: n st) (simp_all add: multiedit_step_eq)

lemma run_edits_files:
  assumes "files w (resolve_path ctx fp) = Some (Text c)" "\<not> denied w (resolve_path ctx fp)"
  shows "files (run_edits d ctx fp edits w) = (files w)(resolve_path ctx fp \<mapsto> Text (fold apply_edit edits c))"
  using assms
proof (induction edits arbitrary: w c)
  case Nil
  then show ?case by (simp add: run_edits_def) (metis fun_upd_triv)
next
  case (Cons e edits)
  let ?w = "snd (edit_call d ctx fp (eo_old_string e) (eo_new_string e) (eo_replace_all e) w)"
  have "files ?w = (files w)(resolve_path ctx fp \<mapsto> Text (apply_edit e c)) \<and> denied ?w = denied w"
  proof (cases rule: edit_execute_cases[where d = d and ctx = ctx and fp = fp and old = "eo_old_string e"
      and new = "eo_new_string e" and all = "eo_replace_all e" and w = w])
    case (ok c' out ev)
    then show ?thesis using Cons.prems by (simp add: apply_edit_def)
  next
    case (err msg)
    then have "apply_edit e c = c" using Cons.prems by (simp add: apply_edit_def)
    then show ?thesis using err Cons.prems(1) by (simp add: fun_upd_idem)
  qed
  then show ?case using Cons.IH[of ?w "apply_edit e c"] Cons.prems(2) by (simp add: run_edits_def) (simp add: fun_eq_iff)
qed

text \<open>
  C26: For a readable file that may be changed, multiedit leaves the file system exactly as the edit
  tool does when called once per edit in the same order, failed edits included, and it reports every
  edit once, as applied or as failed.
\<close>

theorem multiedit_equals_edits:
  assumes "files w (resolve_path ctx fp) = Some (Text c)" "\<not> denied w (resolve_path ctx fp)"
  shows "(\<exists>out. fst (multiedit_execute d ctx fp edits w) = Ok out) \<and>
    files (snd (multiedit_execute d ctx fp edits w)) = files (run_edits d' ctx fp edits w) \<and>
    length (me_applied (multiedit_run edits c)) + length (me_failed (multiedit_run edits c)) = length edits"
  using assms multiedit_fold[of 0 edits "\<lparr>me_content = c, me_applied = [], me_failed = []\<rparr>"] run_edits_files[OF assms]
  by (simp add: multiedit_execute_def path_exists_def read_to_string_def fs_write_def Let_def multiedit_run_def)

theorem multiedit_equals_edits_witness:
  "files (snd (multiedit_execute (\<lambda>_ _. []) demo_ctx ''f'' [\<lparr>eo_old_string = ''world'', eo_new_string = ''moon'', eo_replace_all = False\<rparr>] demo_world)) =
   files (run_edits (\<lambda>_ _. []) demo_ctx ''f'' [\<lparr>eo_old_string = ''world'', eo_new_string = ''moon'', eo_replace_all = False\<rparr>] demo_world)"
proof -
  have "files demo_world (resolve_path demo_ctx ''f'') = Some (Text ''hello world'')" "\<not> denied demo_world (resolve_path demo_ctx ''f'')"
    by (simp_all add: demo_world_def demo_path)
  from multiedit_equals_edits[OF this] show ?thesis by blast
qed

section \<open>The read tool\<close>

lemma read_loop_eq:
  "fst (read_loop offset stop i ls) =
     concat (map (\<lambda>j. read_line (j + 1) (ls ! (j - i))) (filter (\<lambda>j. offset \<le> j \<and> j < stop) [i..<i + length ls]))"
proof (induction ls arbitrary: i)
  case (Cons l ls)
  have upt: "[i..<i + length (l # ls)] = i # [Suc i..<Suc i + length ls]" by (simp add: upt_conv_Cons del: upt_Suc)
  have tail: "map (\<lambda>j. read_line (j + 1) ((l # ls) ! (j - i))) (filter (\<lambda>j. offset \<le> j \<and> j < stop) [Suc i..<Suc i + length ls]) =
      map (\<lambda>j. read_line (j + 1) (ls ! (j - Suc i))) (filter (\<lambda>j. offset \<le> j \<and> j < stop) [Suc i..<Suc i + length ls])"
    by (auto simp: nth_Cons')
  have "fst (read_loop offset stop i (l # ls)) =
      (if offset \<le> i \<and> i < stop then read_line (i + 1) l else []) @ fst (read_loop offset stop (Suc i) ls)"
    by (auto simp: split_def Let_def)
  then show ?case unfolding upt filter.simps Cons tail[symmetric] by simp
qed simp

lemma filter_upt: "filter (\<lambda>j. a \<le> j \<and> j < b) [0..<n] = [a..<min b n]"
proof (induction n)
  case (Suc n)
  then show ?case by (cases "n < b") (auto simp: min_def le_Suc_eq)
qed simp

lemma upt_join: "a \<le> m \<Longrightarrow> m \<le> n \<Longrightarrow> [a..<m] @ [m..<n] = [a..<n]"
  using upt_add_eq_append[of a m "n - m"] by simp

definition read_body :: "read_range \<Rightarrow> string \<Rightarrow> string" where
  "read_body r content = fst (read_loop (rr_offset r) (end_exclusive r) 0 (lines content))"

lemma read_body_eq:
  assumes "rr_offset r + rr_limit r < 2 ^ 64"
  shows "read_body r content = concat (map (\<lambda>i. read_line (i + 1) (lines content ! i))
    [rr_offset r..<min (rr_offset r + rr_limit r) (length (lines content))])"
  using assms by (simp add: read_body_def end_exclusive_def usize_add_def read_loop_eq filter_upt)

lemma read_body_append:
  assumes "a + l1 + l2 < 2 ^ 64"
  shows "read_body \<lparr>rr_offset = a, rr_limit = l1, rr_style = s1\<rparr> c @ read_body \<lparr>rr_offset = a + l1, rr_limit = l2, rr_style = s2\<rparr> c =
    read_body \<lparr>rr_offset = a, rr_limit = l1 + l2, rr_style = s3\<rparr> c"
proof -
  let ?n = "length (lines c)"
  have "[a..<min (a + l1) ?n] @ [a + l1..<min (a + l1 + l2) ?n] = [a..<min (a + (l1 + l2)) ?n]"
  proof (cases "a + l1 \<le> ?n")
    case True
    then show ?thesis using upt_join[of a "a + l1" "min (a + l1 + l2) ?n"] by (simp add: add.assoc)
  qed (simp add: add.assoc)
  then show ?thesis using assms by (simp add: read_body_eq flip: concat_append map_append)
qed

text \<open>
  A read of lines numbered without overflow shows exactly the lines of its range that the file
  has, and the continuation that the tool suggests, in either style, resumes at the first line not
  shown: the two outputs together are the output of one read with both limits.
\<close>

theorem read_continuation_exact:
  assumes "a + l1 + l2 + 1 < 2 ^ 64"
  shows "let r1 = \<lparr>rr_offset = a, rr_limit = l1, rr_style = s\<rparr> in
    read_body r1 c = concat (map (\<lambda>i. read_line (i + 1) (lines c ! i)) [a..<min (a + l1) (length (lines c))]) \<and>
    (\<exists>r2 r3.
      normalize_read_range \<lparr>ri_start_line = Some (next_start_line r1), ri_end_line = None, ri_offset = None, ri_limit = Some l2\<rparr> = Inr r2 \<and>
      normalize_read_range \<lparr>ri_start_line = None, ri_end_line = None, ri_offset = Some (next_offset r1), ri_limit = Some l2\<rparr> = Inr r3 \<and>
      read_body r1 c @ read_body r2 c = read_body (r1\<lparr>rr_limit := l1 + l2\<rparr>) c \<and>
      read_body r1 c @ read_body r3 c = read_body (r1\<lparr>rr_limit := l1 + l2\<rparr>) c)"
  using assms read_body_append[of a l1 l2 s c StartEnd s] read_body_append[of a l1 l2 s c OffsetLimit s]
  by (simp add: read_body_eq normalize_read_range_def has_mixed_offset_def opt_or_def next_offset_def next_start_line_def
    usize_add_def Let_def)

theorem read_continuation_exact_witness:
  "\<exists>r2. normalize_read_range \<lparr>ri_start_line = Some (next_start_line \<lparr>rr_offset = 0, rr_limit = 1, rr_style = StartEnd\<rparr>),
     ri_end_line = None, ri_offset = None, ri_limit = Some 1\<rparr> = Inr r2 \<and>
   read_body \<lparr>rr_offset = 0, rr_limit = 1, rr_style = StartEnd\<rparr> ''a'' @ read_body r2 ''a'' =
   read_body \<lparr>rr_offset = 0, rr_limit = 2, rr_style = StartEnd\<rparr> ''a''"
proof -
  have "0 + 1 + 1 + 1 < (2::nat) ^ 64" by simp
  note read = read_continuation_exact[OF this, of StartEnd "''a''", unfolded Let_def read_range.simps one_add_one]
  show ?thesis by (rule exE[OF conjunct2[OF read]], erule exE, rule exI) (elim conjE, rule conjI, assumption+)
qed

text \<open>An end line and a limit select the same lines as the offset style does.\<close>

lemma normalize_read_range_end_line:
  "0 < a \<Longrightarrow> a \<le> b \<Longrightarrow>
   normalize_read_range \<lparr>ri_start_line = Some a, ri_end_line = Some b, ri_offset = None, ri_limit = l\<rparr> =
     Inr \<lparr>rr_offset = a - 1, rr_limit = b - (a - 1), rr_style = StartEnd\<rparr>"
  by (simp add: normalize_read_range_def has_mixed_offset_def opt_or_def Let_def)

section \<open>The write tool\<close>

lemma write_execute_eq:
  "\<exists>out e. write_execute d ctx fp content w = (Ok out, w\<lparr>files := (files w)(resolve_path ctx fp \<mapsto> Text content), bus := bus w @ [e]\<rparr>)
     \<and> \<not> denied w (resolve_path ctx fp)
   \<or> (\<exists>msg. write_execute d ctx fp content w = (Err msg, w))"
  by (auto simp: write_execute_def fs_write_def publish_def Let_def split: option.splits)

text \<open>
  Writing a file never panics: it reports an error and changes nothing, or it stores exactly the
  given content at the resolved path, where reading returns it, leaves every other file as it was
  and publishes one event.
\<close>

theorem write_then_read:
  "case write_execute d ctx fp content w of
     (Ok out, w') \<Rightarrow> read_to_string w' (resolve_path ctx fp) = Inr content \<and>
       (\<forall>q. q \<noteq> resolve_path ctx fp \<longrightarrow> files w' q = files w q) \<and>
       length (bus w') = Suc (length (bus w))
   | (Err msg, w') \<Rightarrow> w' = w
   | (Panic, w') \<Rightarrow> False"
  using write_execute_eq[of d ctx fp content w] by (auto simp: read_to_string_def split: option.splits node.splits)

theorem write_then_read_witness:
  "read_to_string (snd (write_execute (\<lambda>_ _. []) demo_ctx ''f'' ''new'' demo_world)) ''/f'' = Inr ''new'' \<and>
   files (snd (write_execute (\<lambda>_ _. []) demo_ctx ''f'' ''new'' demo_world)) ''/g'' = Some (Text ''aaa'')"
proof -
  have "\<not> denied demo_world p" for p by (simp add: demo_world_def)
  then have "\<exists>out w'. write_execute (\<lambda>_ _. []) demo_ctx ''f'' ''new'' demo_world = (Ok out, w')"
    by (auto simp: write_execute_def fs_write_def create_dir_all_def Let_def split: option.splits)
  then obtain out w' where "write_execute (\<lambda>_ _. []) demo_ctx ''f'' ''new'' demo_world = (Ok out, w')" by blast
  then show ?thesis using write_then_read[where d = "\<lambda>_ _. []" and ctx = demo_ctx and fp = "''f''" and content = "''new''" and w = demo_world]
    by (auto simp: demo_path demo_world_def)
qed

end
