(* ===== verification/Session_View.thy ===== *)
theory Session_View
  imports File_Tools Session_Store
begin

text \<open>
  What is derived from stored sessions: the transcript as it is shown (\<^verbatim>\<open>src/src/session/render.rs\<close>), and
  the recovery of sessions whose process died (\<^verbatim>\<open>src/src/session/crash.rs\<close>, \<^verbatim>\<open>active_pids.rs\<close>).

  The sessions directory is the list of the sessions that can be loaded, in the order in which the
  directory is read, with the registry of active processes. Which process runs, which save succeeds,
  the clock and fresh identifiers are arguments; a save that is ignored when it fails leaves the stored
  session as it was. Instants are nanoseconds.
\<close>

section \<open>Definitions\<close>

subsection \<open>The transcript\<close>

record rendered_message =
  rm_role :: string
  rm_content :: string
  rm_tool_calls :: "string list"
  rm_tool_data :: "tool_call option"

record compacted_history_info =
  ch_total_messages :: nat
  ch_visible_messages :: nat
  ch_remaining_messages :: nat

datatype image_source = UserInputSource | ToolResultSource string | OtherSource string

record rendered_image =
  ri_media_type :: string
  ri_data :: string
  ri_label :: "string option"
  ri_source :: image_source

definition DEFAULT_VISIBLE_COMPACTED_HISTORY_MESSAGES :: nat where
  "DEFAULT_VISIBLE_COMPACTED_HISTORY_MESSAGES = 64"

definition is_internal_reminder :: "stored_message \<Rightarrow> bool" where
  "is_internal_reminder m \<longleftrightarrow>
     (case first_text (st_content m) of Some t \<Rightarrow> starts_with ''<system-reminder>'' t | None \<Rightarrow> False)"

definition image_source_for_message :: "msg_role \<Rightarrow> tool_call option \<Rightarrow> image_source" where
  "image_source_for_message role tool =
     (case tool of Some t \<Rightarrow> ToolResultSource (tc_name t)
      | None \<Rightarrow> (case role of User \<Rightarrow> UserInputSource | Assistant \<Rightarrow> OtherSource ''assistant''))"

definition nonempty_trimmed :: "string \<Rightarrow> string option" where
  "nonempty_trimmed s = (if trim s \<noteq> [] then Some (trim s) else None)"

definition fallback_image_label_for_tool :: "tool_call \<Rightarrow> string option" where
  "fallback_image_label_for_tool t =
     Option.bind (Option.bind (json_get (tc_input t) ''file_path'') as_str) nonempty_trimmed"

definition strip_suffix :: "string \<Rightarrow> string \<Rightarrow> string option" where
  "strip_suffix p s = map_option rev (strip_prefix (rev p) (rev s))"

definition parse_attached_image_label :: "string \<Rightarrow> string option" where
  "parse_attached_image_label t =
     Option.bind (Option.bind
       (strip_prefix ''[Attached image associated with the preceding tool result: '' (trim t)) (strip_suffix '']''))
       nonempty_trimmed"

definition has_rendered_images :: "session \<Rightarrow> bool" where
  "has_rendered_images s =
     list_ex (\<lambda>m. list_ex (\<lambda>b. case b of Image mt data \<Rightarrow> True | _ \<Rightarrow> False) (st_content m)) (messages s)"

text \<open>What the loop over the messages builds, and what it keeps within one message.\<close>

record transcript =
  tr_rendered :: "rendered_message list"
  tr_images :: "rendered_image list"
  tr_tool_map :: "string \<Rightarrow> tool_call option"
  tr_text :: string
  tr_tool_calls :: "string list"
  tr_current_tool :: "tool_call option"
  tr_last_image :: "nat option"

definition push_text :: "string \<Rightarrow> transcript \<Rightarrow> transcript" where
  "push_text role v =
     (if tr_text v \<noteq> []
      then v\<lparr>tr_rendered := tr_rendered v @
               [\<lparr>rm_role = role, rm_content = tr_text v, rm_tool_calls = tr_tool_calls v, rm_tool_data = None\<rparr>],
             tr_text := []\<rparr>
      else v)"

fun render_block :: "string \<Rightarrow> msg_role \<Rightarrow> content_block \<Rightarrow> transcript \<Rightarrow> transcript" where
  "render_block role mrole (Text t cc) v =
     (let v = v\<lparr>tr_text := tr_text v @ t\<rparr>
      in case (parse_attached_image_label t, tr_last_image v) of
           (Some label, Some i) \<Rightarrow>
             (if i < length (tr_images v)
              then v\<lparr>tr_images := (tr_images v)[i := (tr_images v ! i)\<lparr>ri_label := Some label\<rparr>]\<rparr> else v)
         | _ \<Rightarrow> v)"
| "render_block role mrole (ToolUse i name input) v =
     v\<lparr>tr_tool_map := (tr_tool_map v)(i \<mapsto>
          \<lparr>tc_id = i, tc_name = name, tc_input = input, tc_intent = intent_from_input input\<rparr>),
       tr_tool_calls := tr_tool_calls v @ [name]\<rparr>"
| "render_block role mrole (ToolResult i content e) v =
     (let v = push_text role v;
          tool = (case tr_tool_map v i of Some t \<Rightarrow> t
                  | None \<Rightarrow> \<lparr>tc_id = i, tc_name = ''tool'', tc_input = JNull, tc_intent = None\<rparr>)
      in v\<lparr>tr_current_tool := Some tool,
           tr_rendered := tr_rendered v @
             [\<lparr>rm_role = ''tool'', rm_content = content, rm_tool_calls = [], rm_tool_data = Some tool\<rparr>]\<rparr>)"
| "render_block role mrole (Reasoning t) v = v"
| "render_block role mrole (Image mt data) v =
     (let images = tr_images v @
            [\<lparr>ri_media_type = mt, ri_data = data,
              ri_label = Option.bind (tr_current_tool v) fallback_image_label_for_tool,
              ri_source = image_source_for_message mrole (tr_current_tool v)\<rparr>]
      in v\<lparr>tr_images := images, tr_last_image := Some (length images - 1)\<rparr>)"
| "render_block role mrole (OpenAICompaction c) v = v"

definition shown_role :: "stored_message \<Rightarrow> string" where
  "shown_role m =
     (case st_display_role m of Some DisplaySystem \<Rightarrow> ''system'' | Some DisplayBackgroundTask \<Rightarrow> ''background_task''
      | None \<Rightarrow> (case st_role m of User \<Rightarrow> ''user'' | Assistant \<Rightarrow> ''assistant''))"

definition render_message :: "stored_message \<Rightarrow> transcript \<Rightarrow> transcript" where
  "render_message m v =
     (if is_internal_reminder m then v
      else push_text (shown_role m) (fold (render_block (shown_role m) (st_role m)) (st_content m)
             (v\<lparr>tr_text := [], tr_tool_calls := [], tr_current_tool := None, tr_last_image := None\<rparr>)))"

definition compacted_notice :: "nat \<Rightarrow> nat \<Rightarrow> nat \<Rightarrow> string" where
  "compacted_notice n visible remaining =
     (if remaining = 0
      then ''Earlier conversation compacted '' @ em_dash @ '' showing all '' @ show_nat n @
        '' compacted historical messages. Redraw may be slower while this view is open.''
      else if visible = 0
      then ''Earlier conversation compacted '' @ em_dash @ '' '' @ show_nat n @
        '' historical messages hidden from the UI. Scroll to the top to load older history.''
      else ''Earlier conversation compacted '' @ em_dash @ '' '' @ show_nat remaining @
        '' older historical messages hidden. Showing '' @ show_nat visible @ '' of '' @ show_nat n @
        '' compacted messages. Scroll to the top to load more.'')"

definition compacted_count :: "session \<Rightarrow> nat" where
  "compacted_count s = (case compaction s of Some c \<Rightarrow> min (sc_compacted_count c) (length (messages s)) | None \<Rightarrow> 0)"

definition render_messages_and_images_with_compacted_history ::
  "session \<Rightarrow> nat \<Rightarrow> rendered_message list \<times> rendered_image list \<times> compacted_history_info option" where
  "render_messages_and_images_with_compacted_history s compacted_history_visible =
     (let n = compacted_count s;
          visible = min compacted_history_visible n;
          start = n - visible;
          info = (if n > 0 then Some \<lparr>ch_total_messages = n, ch_visible_messages = visible, ch_remaining_messages = start\<rparr>
                  else None);
          notice = (if n > 0
            then [\<lparr>rm_role = ''system'', rm_content = compacted_notice n visible start, rm_tool_calls = [], rm_tool_data = None\<rparr>]
            else []);
          v = fold render_message (drop start (messages s))
            \<lparr>tr_rendered = notice, tr_images = [], tr_tool_map = (\<lambda>_. None), tr_text = [], tr_tool_calls = [],
             tr_current_tool = None, tr_last_image = None\<rparr>
      in (tr_rendered v, tr_images v, info))"

definition render_messages_and_images :: "session \<Rightarrow> rendered_message list \<times> rendered_image list" where
  "render_messages_and_images s =
     (let (ms, is, info) = render_messages_and_images_with_compacted_history s DEFAULT_VISIBLE_COMPACTED_HISTORY_MESSAGES
      in (ms, is))"

definition render_messages :: "session \<Rightarrow> rendered_message list" where
  "render_messages s = fst (render_messages_and_images s)"

definition render_images :: "session \<Rightarrow> rendered_image list" where
  "render_images s = snd (render_messages_and_images s)"

record tool_call_summary =
  ts_tool_name :: string
  ts_brief_output :: string
  ts_timestamp_secs :: "u64 option"

fun summary_text_of :: "content_block \<Rightarrow> string option" where
  "summary_text_of (Text t cc) = Some t"
| "summary_text_of (OpenAICompaction c) = Some ''[OpenAI native compaction]''"
| "summary_text_of b = None"

definition text_summary :: "stored_message \<Rightarrow> string" where
  "text_summary m = join nl (List.map_filter summary_text_of (st_content m))"

definition call_summary :: "(json \<Rightarrow> string) \<Rightarrow> stored_message \<Rightarrow> string \<Rightarrow> json \<Rightarrow> tool_call_summary" where
  "call_summary show_json m name input =
     \<lparr>ts_tool_name = name,
      ts_brief_output = (if trim (text_summary m) = [] then truncate_str (show_json input) 200
                         else truncate_str (text_summary m) 200),
      ts_timestamp_secs = map_option (\<lambda>t. of_int (max 0 (t div 1000000000))) (st_timestamp m)\<rparr>"

fun calls_of_blocks ::
  "(json \<Rightarrow> string) \<Rightarrow> nat \<Rightarrow> stored_message \<Rightarrow> content_block list \<Rightarrow> tool_call_summary list \<Rightarrow> tool_call_summary list" where
  "calls_of_blocks show_json limit m [] calls = calls"
| "calls_of_blocks show_json limit m (b # bs) calls =
     (if length calls \<ge> limit then calls
      else calls_of_blocks show_json limit m bs
             (case b of ToolUse i name input \<Rightarrow> calls @ [call_summary show_json m name input] | _ \<Rightarrow> calls))"

fun calls_of_messages ::
  "(json \<Rightarrow> string) \<Rightarrow> nat \<Rightarrow> stored_message list \<Rightarrow> tool_call_summary list \<Rightarrow> tool_call_summary list" where
  "calls_of_messages show_json limit [] calls = calls"
| "calls_of_messages show_json limit (m # ms) calls =
     (if length calls \<ge> limit then calls
      else calls_of_messages show_json limit ms (calls_of_blocks show_json limit m (st_content m) calls))"

definition summarize_tool_calls :: "(json \<Rightarrow> string) \<Rightarrow> session \<Rightarrow> nat \<Rightarrow> tool_call_summary list" where
  "summarize_tool_calls show_json s limit = rev (calls_of_messages show_json limit (rev (messages s)) [])"

subsection \<open>Crashed sessions\<close>

record session_dir =
  sd_sessions :: "session list"
  sd_pids :: active_pids

text \<open>The machine: which processes run, which sessions can be saved, the time at which each is handled.\<close>

record machine =
  ma_running :: "u32 \<Rightarrow> bool"
  ma_save_ok :: "string \<Rightarrow> bool"
  ma_now :: "string \<Rightarrow> datetime"

text \<open>
  The first loop of both functions: every session is checked, and saved when it has crashed. The
  sessions in memory, those on disk, and the registry.
\<close>

fun scan_sessions :: "machine \<Rightarrow> session list \<Rightarrow> active_pids \<Rightarrow> session list \<times> session list \<times> active_pids" where
  "scan_sessions ma [] pids = ([], [], pids)"
| "scan_sessions ma (s # ss) pids =
     (let now = ma_now ma (id_of s);
          (crashed, s1, pids) = detect_crash (ma_running ma) now (s, pids);
          s1 = (if crashed then s1\<lparr>updated_at := now\<rparr> else s1);
          stored = (if crashed \<and> ma_save_ok ma (id_of s) then s1 else s);
          (mem, disk, pids) = scan_sessions ma ss pids
      in (s1 # mem, stored # disk, pids))"

definition is_recovery :: "session \<Rightarrow> bool" where
  "is_recovery s = starts_with ''session_recovery_'' (id_of s)"

definition recovered_parents :: "session list \<Rightarrow> string list" where
  "recovered_parents ss = List.map_filter parent_id (filter is_recovery ss)"

definition is_crashed :: "session \<Rightarrow> bool" where
  "is_crashed s = (case status s of Crashed m \<Rightarrow> True | _ \<Rightarrow> False)"

definition last_seen :: "session \<Rightarrow> datetime" where
  "last_seen s = (case last_active_at s of Some t \<Rightarrow> t | None \<Rightarrow> updated_at s)"

definition crash_window :: int where
  "crash_window = 60 * 1000000000"

definition most_recent_of :: "session list \<Rightarrow> datetime" where
  "most_recent_of ss = fold max (map last_seen (tl ss)) (last_seen (hd ss))"

definition in_crash_window :: "datetime \<Rightarrow> session \<Rightarrow> bool" where
  "in_crash_window most_recent s \<longleftrightarrow> 0 \<le> most_recent - last_seen s \<and> most_recent - last_seen s \<le> crash_window"

definition newest_first :: "session list \<Rightarrow> session list" where
  "newest_first = sort_key (\<lambda>s. - updated_at s)"

definition is_text :: "content_block \<Rightarrow> bool" where
  "is_text b = (case b of Text t cc \<Rightarrow> True | _ \<Rightarrow> False)"

text \<open>
  \<^verbatim>\<open>fresh\<close> gives the identifiers of the new messages, \<^verbatim>\<open>backtick\<close> quotes an identifier in the header.
\<close>

fun copy_texts ::
  "session_env \<Rightarrow> (nat \<Rightarrow> string) \<Rightarrow> datetime \<Rightarrow> nat \<Rightarrow> stored_message list \<Rightarrow> session \<Rightarrow> session" where
  "copy_texts env fresh now k [] n = n"
| "copy_texts env fresh now k (m # ms) n =
     (let kept = filter is_text (st_content m)
      in if kept = [] then copy_texts env fresh now k ms n
         else copy_texts env fresh now (Suc k) ms (snd (add_message env (fresh k) now (st_role m) kept n)))"

definition recovery_header :: "session \<Rightarrow> string" where
  "recovery_header old =
     ''Recovered from crashed session `'' @ id_of old @ ''` ('' @ display_name old @ '')''"

record launch =
  la_env :: session_env
  la_test :: bool
  la_cwd :: "string option"
  la_pid :: u32
  la_rec :: "string \<Rightarrow> string"
  la_fresh :: "string \<Rightarrow> nat \<Rightarrow> string"

definition recovery_id :: "launch \<Rightarrow> session \<Rightarrow> string" where
  "recovery_id la old = ''session_recovery_'' @ la_rec la (id_of old)"

definition recovery_session :: "launch \<Rightarrow> datetime \<Rightarrow> session \<Rightarrow> session" where
  "recovery_session la now old =
     (let n = create_with_id now (la_test la) (la_cwd la) (la_pid la) (recovery_id la old) (Some (id_of old)) (title old);
          n = n\<lparr>working_dir := working_dir old, provider_key := provider_key old, model := model old,
                improve_mode := improve_mode old, is_canary := is_canary old, is_debug := is_debug old,
                testing_build := testing_build old, saved := saved old, save_label := save_label old,
                provider_session_id := None, status := Closed\<rparr>;
          fresh = la_fresh la (id_of old);
          n = snd (add_message (la_env la) (fresh 0) now User [Text (recovery_header old) None] n)
      in copy_texts (la_env la) fresh now 1 (messages old) n)"

text \<open>The identifiers when every new session is saved, and the sessions added to the directory.\<close>

fun recover_loop ::
  "launch \<Rightarrow> machine \<Rightarrow> string list \<Rightarrow> session list \<Rightarrow> string list option \<times> session list" where
  "recover_loop la ma recovered [] = (Some [], [])"
| "recover_loop la ma recovered (old # rest) =
     (if id_of old \<in> set recovered then recover_loop la ma recovered rest
      else (let now = ma_now ma (recovery_id la old); n = (recovery_session la now old)\<lparr>updated_at := now\<rparr>
            in if ma_save_ok ma (id_of n)
               then (let (ids, new) = recover_loop la ma recovered rest
                     in (map_option (\<lambda>ids. id_of n # ids) ids, deserialized n # new))
               else (None, [])))"

definition recover_crashed_sessions :: "launch \<Rightarrow> machine \<Rightarrow> session_dir \<Rightarrow> string list option \<times> session_dir" where
  "recover_crashed_sessions la ma dir =
     (let (mem, disk, pids) = scan_sessions ma (sd_sessions dir) (sd_pids dir);
          dir = \<lparr>sd_sessions = disk, sd_pids = pids\<rparr>;
          recovered = recovered_parents mem;
          crashed = filter is_crashed mem
      in if crashed = [] then (Some [], dir)
         else (let crashed = newest_first (filter (in_crash_window (most_recent_of crashed)) crashed);
                   (ids, new) = recover_loop la ma recovered crashed
               in (ids, dir\<lparr>sd_sessions := disk @ new\<rparr>)))"

record crashed_sessions_info =
  ci_session_ids :: "string list"
  ci_display_names :: "string list"
  ci_most_recent_crash :: datetime

definition detect_crashed_sessions :: "machine \<Rightarrow> session_dir \<Rightarrow> crashed_sessions_info option \<times> session_dir" where
  "detect_crashed_sessions ma dir =
     (let (mem, disk, pids) = scan_sessions ma (sd_sessions dir) (sd_pids dir);
          dir = \<lparr>sd_sessions = disk, sd_pids = pids\<rparr>;
          recovered = recovered_parents mem;
          crashed = filter (\<lambda>s. id_of s \<notin> set recovered) (filter is_crashed mem)
      in if crashed = [] then (None, dir)
         else (let most_recent = most_recent_of crashed; crashed = filter (in_crash_window most_recent) crashed
               in if crashed = [] then (None, dir)
                  else (let crashed = newest_first crashed
                        in (Some \<lparr>ci_session_ids = map id_of crashed, ci_display_names = map display_name crashed,
                                  ci_most_recent_crash = most_recent\<rparr>, dir))))"

text \<open>
  The fast path: the registry's entries with their contents, \<^verbatim>\<open>None\<close> for one that cannot be read. The
  result: sessions that crashed in the last day, newest first; with the entries removed and the
  sessions saved.
\<close>

definition day :: int where "day = 24 * 3600 * 1000000000"

fun scan_pids ::
  "machine \<Rightarrow> (string \<Rightarrow> session option) \<Rightarrow> datetime \<Rightarrow> (string \<times> string option) list \<Rightarrow> active_pids \<Rightarrow>
     (string \<times> string \<times> datetime) list \<times> session list \<times> active_pids" where
  "scan_pids ma load cutoff [] pids = ([], [], pids)"
| "scan_pids ma load cutoff ((sid, None) # es) pids = scan_pids ma load cutoff es pids"
| "scan_pids ma load cutoff ((sid, Some t) # es) pids =
     (case parse_unsigned (2 ^ 32) (trim t) of
        None \<Rightarrow> scan_pids ma load cutoff es (pids(sid := None))
      | Some pid \<Rightarrow>
          if ma_running ma (of_nat pid) then scan_pids ma load cutoff es pids
          else (case load sid of
                  None \<Rightarrow> scan_pids ma load cutoff es (pids(sid := None))
                | Some s \<Rightarrow>
                    (let (s, pids) = mark_crashed (Some (''Process '' @ show_nat pid @
                           '' exited unexpectedly (no shutdown signal captured)'')) (s, pids);
                         s = s\<lparr>updated_at := ma_now ma sid\<rparr>;
                         (found, stored, pids) = scan_pids ma load cutoff es pids;
                         stored = (if ma_save_ok ma sid then s # stored else stored)
                     in if last_seen s \<le> cutoff then (found, stored, pids)
                        else ((sid, (case extract_session_name sid of Some n \<Rightarrow> n | None \<Rightarrow> sid), last_seen s) # found,
                              stored, pids))))"

definition find_crashed_via_pid_files ::
  "machine \<Rightarrow> (string \<Rightarrow> session option) \<Rightarrow> datetime \<Rightarrow> (string \<times> string option) list \<Rightarrow> active_pids \<Rightarrow>
     (string \<times> string) list \<times> session list \<times> active_pids" where
  "find_crashed_via_pid_files ma load now entries pids =
     (let (found, stored, pids) = scan_pids ma load (now - day) entries pids
      in (map (\<lambda>(sid, name, ts). (sid, name)) (sort_key (\<lambda>(sid, name, ts). - ts) found), stored, pids))"

text \<open>The fallback scan reads the headers of files.\<close>

record session_header =
  sh_id :: string
  sh_parent_id :: "string option"
  sh_updated_at :: datetime
  sh_short_name :: "string option"
  sh_status :: session_status
  sh_last_active_at :: "datetime option"

definition header_display_name :: "session_header \<Rightarrow> string" where
  "header_display_name h =
     (case sh_short_name h of Some n \<Rightarrow> n
      | None \<Rightarrow> (case extract_session_name (sh_id h) of Some n \<Rightarrow> n | None \<Rightarrow> sh_id h))"

record session_file =
  sf_name :: string
  sf_mtime :: "datetime option"
  sf_len :: nat
  sf_content :: "string option"

definition is_ascii_digit :: "char \<Rightarrow> bool" where
  "is_ascii_digit c \<longleftrightarrow> (48 :: nat) \<le> of_char c \<and> (of_char c :: nat) \<le> 57"

fun first_timestamp :: "string list \<Rightarrow> nat option" where
  "first_timestamp [] = None"
| "first_timestamp (part # parts) =
     (if length part \<ge> 13 \<and> starts_with ''1'' part \<and> list_all is_ascii_digit part
      then parse_unsigned (2 ^ 64) part else first_timestamp parts)"

definition extract_timestamp_from_filename :: "string \<Rightarrow> nat option" where
  "extract_timestamp_from_filename f =
     first_timestamp (split_char CHR ''_'' (case strip_suffix ''.json'' f of Some stem \<Rightarrow> stem | None \<Rightarrow> f))"

definition has_json_extension :: "string \<Rightarrow> bool" where
  "has_json_extension f \<longleftrightarrow> strip_suffix ''.json'' f \<noteq> None \<and> length f > 5"

definition quoted :: "string \<Rightarrow> string" where
  "quoted s = [CHR 0x22] @ s @ [CHR 0x22]"

fun legacy_loop ::
  "(string \<Rightarrow> session_header option) \<Rightarrow> nat \<Rightarrow> datetime \<Rightarrow> session_file list \<Rightarrow> string list \<times> session_header list" where
  "legacy_loop parse filename_cutoff_ms cutoff [] = ([], [])"
| "legacy_loop parse filename_cutoff_ms cutoff (f # fs) =
     (let (parents, candidates) = legacy_loop parse filename_cutoff_ms cutoff fs
      in if (case extract_timestamp_from_filename (sf_name f) of Some ts \<Rightarrow> ts < filename_cutoff_ms | None \<Rightarrow> False)
         then (parents, candidates)
         else if \<not> has_json_extension (sf_name f) then (parents, candidates)
         else if (case sf_mtime f of Some t \<Rightarrow> t < cutoff | None \<Rightarrow> False) then (parents, candidates)
         else if sf_len f = 0 then (parents, candidates)
         else case sf_content f of
           None \<Rightarrow> (parents, candidates)
         | Some content \<Rightarrow>
             (let has_crashed = str_contains (quoted ''Crashed'') content;
                  is_rec = str_contains (quoted ''session_recovery_'') content
              in if \<not> has_crashed \<and> \<not> is_rec then (parents, candidates)
                 else case parse content of
                   None \<Rightarrow> (parents, candidates)
                 | Some h \<Rightarrow>
                     ((case sh_parent_id h of
                         Some p \<Rightarrow> if starts_with ''session_recovery_'' (sh_id h) then p # parents else parents
                       | None \<Rightarrow> parents),
                      if has_crashed then h # candidates else candidates)))"

definition find_crashed_legacy_scan ::
  "(string \<Rightarrow> session_header option) \<Rightarrow> datetime \<Rightarrow> session_file list \<Rightarrow> (string \<times> string) list" where
  "find_crashed_legacy_scan parse now fs =
     (let (parents, candidates) =
            legacy_loop parse (nat (max 0 ((now - 2 * day) div 1000000))) (now - day) fs;
          crashed = filter (\<lambda>h. (case sh_status h of Crashed m \<Rightarrow> True | _ \<Rightarrow> False) \<and> sh_id h \<notin> set parents \<and>
            (case sh_last_active_at h of Some t \<Rightarrow> t | None \<Rightarrow> sh_updated_at h) > now - day) candidates
      in map (\<lambda>h. (sh_id h, header_display_name h)) (sort_key (\<lambda>h. - sh_updated_at h) crashed))"

subsection \<open>Finding a session\<close>

datatype find_error = LoadFailed | NoSessionsFound | NoMatch

text \<open>\<^verbatim>\<open>stems\<close> are the names of the JSON files of the directory, when there is one.\<close>

definition find_session_by_name_or_id ::
  "(string \<Rightarrow> session option) \<Rightarrow> (string \<Rightarrow> bool) \<Rightarrow> string list option \<Rightarrow> string \<Rightarrow> find_error + string" where
  "find_session_by_name_or_id load exists stems name_or_id =
     (if load name_or_id \<noteq> None then Inr name_or_id
      else if exists name_or_id then Inl LoadFailed
      else case stems of
        None \<Rightarrow> Inl NoSessionsFound
      | Some stems \<Rightarrow>
          (let found = List.map_filter (\<lambda>stem. if extract_session_name stem = Some name_or_id
                 then map_option (\<lambda>s. (stem, updated_at s)) (load stem) else None) stems
           in case sort_key (\<lambda>(stem, t). - t) found of [] \<Rightarrow> Inl NoMatch | (stem, t) # _ \<Rightarrow> Inr stem))"

text \<open>The registry as a directory of files: an entry that cannot be read ends the search.\<close>

fun find_active_session_id_by_pid :: "u32 \<Rightarrow> (string \<times> string option) list \<Rightarrow> string option" where
  "find_active_session_id_by_pid pid [] = None"
| "find_active_session_id_by_pid pid ((sid, stored) # es) =
     (case Option.bind stored (\<lambda>t. parse_unsigned (2 ^ 32) (trim t)) of
        None \<Rightarrow> None
      | Some n \<Rightarrow> if of_nat n = pid then Some sid else find_active_session_id_by_pid pid es)"


section \<open>The transcript\<close>

fun shown_text_of :: "content_block \<Rightarrow> string" where
  "shown_text_of (Text t cc) = t"
| "shown_text_of b = []"

fun shown_results_of :: "content_block \<Rightarrow> (string option \<times> string) list" where
  "shown_results_of (ToolResult i content e) = [(Some i, content)]"
| "shown_results_of b = []"

fun shown_images_of :: "content_block \<Rightarrow> (string \<times> string) list" where
  "shown_images_of (Image mt data) = [(mt, data)]"
| "shown_images_of b = []"

definition plain_texts :: "rendered_message list \<Rightarrow> string" where
  "plain_texts ms = concat (map rm_content (filter (\<lambda>r. rm_role r \<noteq> ''tool'') ms))"

definition tool_results :: "rendered_message list \<Rightarrow> (string option \<times> string) list" where
  "tool_results ms =
     map (\<lambda>r. (map_option tc_id (rm_tool_data r), rm_content r)) (filter (\<lambda>r. rm_role r = ''tool'') ms)"

definition image_data :: "rendered_image list \<Rightarrow> (string \<times> string) list" where
  "image_data is = map (\<lambda>i. (ri_media_type i, ri_data i)) is"

text \<open>What has been read so far: the texts with the one pending, the tool results, the images.\<close>

definition read_so_far :: "transcript \<Rightarrow> string \<times> (string option \<times> string) list \<times> (string \<times> string) list" where
  "read_so_far v = (plain_texts (tr_rendered v) @ tr_text v, tool_results (tr_rendered v), image_data (tr_images v))"

definition tool_map_ok :: "transcript \<Rightarrow> bool" where
  "tool_map_ok v \<longleftrightarrow> (\<forall>i t. tr_tool_map v i = Some t \<longrightarrow> tc_id t = i)"

lemma read_push_text: "role \<noteq> ''tool'' \<Longrightarrow> read_so_far (push_text role v) = read_so_far v"
  by (simp add: push_text_def read_so_far_def plain_texts_def tool_results_def)

lemma push_text_fields [simp]:
  "tr_tool_map (push_text role v) = tr_tool_map v" "tr_images (push_text role v) = tr_images v" "tr_text (push_text role v) = []"
  by (simp_all add: push_text_def)

lemma image_data_update: "i < length is \<Longrightarrow> image_data (is[i := (is ! i)\<lparr>ri_label := l\<rparr>]) = image_data is"
  using list_update_id[of "image_data is" i] by (simp add: image_data_def map_update)

lemma read_render_block:
  assumes "role \<noteq> ''tool''" "tool_map_ok v"
  shows "read_so_far (render_block role mrole b v) =
           (case read_so_far v of (t, rs, is) \<Rightarrow> (t @ shown_text_of b, rs @ shown_results_of b, is @ shown_images_of b)) \<and>
         tool_map_ok (render_block role mrole b v)"
proof (cases b)
  case (Text t cc)
  then show ?thesis
    using assms by (simp add: read_so_far_def tool_map_ok_def Let_def image_data_update split: option.split)
next
  case (ToolResult i content e)
  have "read_so_far (push_text role v) = read_so_far v" by (rule read_push_text[OF assms(1)])
  then show ?thesis
    using assms(2) ToolResult
    by (auto simp: read_so_far_def tool_map_ok_def plain_texts_def tool_results_def Let_def split: option.split)
qed (use assms in \<open>simp_all add: read_so_far_def tool_map_ok_def image_data_def Let_def\<close>)

lemma read_fold_blocks:
  assumes "role \<noteq> ''tool''" "tool_map_ok v"
  shows "read_so_far (fold (render_block role mrole) bs v) =
           (case read_so_far v of (t, rs, is) \<Rightarrow>
              (t @ concat (map shown_text_of bs), rs @ concat (map shown_results_of bs), is @ concat (map shown_images_of bs))) \<and>
         tool_map_ok (fold (render_block role mrole) bs v)"
  using assms(2)
proof (induction bs arbitrary: v)
  case Nil
  then show ?case by (simp split: prod.split)
next
  case (Cons b bs)
  have "tool_map_ok (render_block role mrole b v)"
    using read_render_block[OF assms(1) Cons.prems] by blast
  from Cons.IH[OF this] show ?case
    using read_render_block[OF assms(1) Cons.prems, of mrole b] by (simp split: prod.splits)
qed

lemma shown_role_not_tool: "shown_role m \<noteq> ''tool''"
  by (simp add: shown_role_def split: option.split stored_display_role.split msg_role.split)

lemma read_render_message:
  assumes "tool_map_ok v" "tr_text v = []"
  shows "read_so_far (render_message m v) =
           (case read_so_far v of (t, rs, is) \<Rightarrow>
              if is_internal_reminder m then (t, rs, is)
              else (t @ concat (map shown_text_of (st_content m)), rs @ concat (map shown_results_of (st_content m)),
                    is @ concat (map shown_images_of (st_content m)))) \<and>
         tool_map_ok (render_message m v) \<and> tr_text (render_message m v) = []"
proof -
  let ?v = "v\<lparr>tr_text := [], tr_tool_calls := [], tr_current_tool := None, tr_last_image := None\<rparr>"
  have "tool_map_ok ?v" "read_so_far ?v = read_so_far v"
    using assms by (simp_all add: tool_map_ok_def read_so_far_def)
  then show ?thesis
    using read_fold_blocks[OF shown_role_not_tool, of ?v m "st_role m" "st_content m"] assms
      read_push_text[OF shown_role_not_tool]
    by (simp add: render_message_def tool_map_ok_def split: prod.split)
qed

definition not_reminders :: "stored_message list \<Rightarrow> stored_message list" where
  "not_reminders ms = filter (\<lambda>m. \<not> is_internal_reminder m) ms"

lemma read_fold_messages:
  assumes "tool_map_ok v" "tr_text v = []"
  shows "read_so_far (fold render_message ms v) =
           (case read_so_far v of (t, rs, is) \<Rightarrow>
              (t @ concat (map shown_text_of (all_blocks (not_reminders ms))), rs @ concat (map shown_results_of (all_blocks (not_reminders ms))),
               is @ concat (map shown_images_of (all_blocks (not_reminders ms))))) \<and> tr_text (fold render_message ms v) = []"
  using assms
proof (induction ms arbitrary: v)
  case Nil
  then show ?case by (simp add: all_blocks_def not_reminders_def split: prod.split)
next
  case (Cons m ms)
  have r: "tool_map_ok (render_message m v)" "tr_text (render_message m v) = []"
    using read_render_message[OF Cons.prems] by blast+
  show ?case
    using Cons.IH[OF r] read_render_message[OF Cons.prems, of m]
    by (simp add: all_blocks_def not_reminders_def split: prod.splits)
qed

text \<open>
  The transcript loses nothing of the messages it shows: apart from the notice about compacted history,
  the texts shown are the texts of the messages in order, every tool result is shown once under its own
  call, every image is kept; internal reminders are left out, and of a compacted prefix the last
  messages asked for are shown, the counts of the notice adding up.
\<close>

theorem transcript_complete:
  "let (ms, is, info) = render_messages_and_images_with_compacted_history s k;
       n = compacted_count s;
       shown = all_blocks (not_reminders (drop (n - min k n) (messages s)))
   in plain_texts (if n > 0 then tl ms else ms) = concat (map shown_text_of shown) \<and>
      tool_results ms = concat (map shown_results_of shown) \<and>
      image_data is = concat (map shown_images_of shown) \<and>
      (case info of None \<Rightarrow> n = 0
       | Some i \<Rightarrow> n > 0 \<and> ch_total_messages i = n \<and> ch_visible_messages i + ch_remaining_messages i = n \<and>
                   ch_visible_messages i = min k n)"
proof -
  define n where "n = compacted_count s"
  define notice where "notice = (if n > 0
    then [\<lparr>rm_role = ''system'', rm_content = compacted_notice n (min k n) (n - min k n), rm_tool_calls = [], rm_tool_data = None\<rparr>]
    else [])"
  define v0 where "v0 = \<lparr>tr_rendered = notice, tr_images = [], tr_tool_map = (\<lambda>_. None), tr_text = [], tr_tool_calls = [],
             tr_current_tool = None, tr_last_image = None\<rparr>"
  define v where "v = fold render_message (drop (n - min k n) (messages s)) v0"
  have r: "render_messages_and_images_with_compacted_history s k =
      (tr_rendered v, tr_images v, if n > 0 then Some \<lparr>ch_total_messages = n, ch_visible_messages = min k n,
         ch_remaining_messages = n - min k n\<rparr> else None)"
    by (simp add: render_messages_and_images_with_compacted_history_def v_def v0_def notice_def n_def Let_def)
  have v0: "read_so_far v0 = (plain_texts notice, [], [])" "tool_map_ok v0" "tr_text v0 = []"
    by (simp_all add: v0_def read_so_far_def tool_results_def notice_def image_data_def tool_map_ok_def)
  have rd: "plain_texts (tr_rendered v) = plain_texts notice @ concat (map shown_text_of (all_blocks (not_reminders (drop (n - min k n) (messages s)))))"
      "tool_results (tr_rendered v) = concat (map shown_results_of (all_blocks (not_reminders (drop (n - min k n) (messages s)))))"
      "image_data (tr_images v) = concat (map shown_images_of (all_blocks (not_reminders (drop (n - min k n) (messages s)))))"
    using read_fold_messages[OF v0(2,3), of "drop (n - min k n) (messages s)"]
    unfolding v_def[symmetric] v0(1) by (auto simp: read_so_far_def)
  have "\<exists>rest. tr_rendered (fold render_message xs w) = tr_rendered w @ rest" for xs w
  proof -
    have b: "\<exists>rest. tr_rendered (render_block role mr b w) = tr_rendered w @ rest" for role mr b w
      by (cases b) (auto simp: push_text_def Let_def split: option.split)
    have bs: "\<exists>rest. tr_rendered (fold (render_block role mr) bs w) = tr_rendered w @ rest" for role mr bs w
    proof (induction bs arbitrary: w)
      case (Cons b bs)
      then show ?case using b[of role mr b w] by (metis append.assoc fold_simps(2))
    qed simp
    have m: "\<exists>rest. tr_rendered (render_message m w) = tr_rendered w @ rest" for m w
      using bs[of "shown_role m" "st_role m" "st_content m" "w\<lparr>tr_text := [], tr_tool_calls := [], tr_current_tool := None, tr_last_image := None\<rparr>"]
      by (auto simp: render_message_def push_text_def)
    show ?thesis
    proof (induction xs arbitrary: w)
      case (Cons x xs)
      then show ?case using m[of x w] by (metis append.assoc fold_simps(2))
    qed simp
  qed
  then obtain rest where rest: "tr_rendered v = notice @ rest" unfolding v_def by (metis (no_types) v0_def transcript.select_convs(1))
  have "plain_texts (if n > 0 then tl (tr_rendered v) else tr_rendered v) =
      concat (map shown_text_of (all_blocks (not_reminders (drop (n - min k n) (messages s)))))"
    using rd(1) rest by (auto simp: notice_def plain_texts_def)
  then show ?thesis using rd by (simp add: r n_def[symmetric] Let_def)
qed

section \<open>Summaries of tool calls\<close>

definition calls_in :: "(json \<Rightarrow> string) \<Rightarrow> stored_message \<Rightarrow> tool_call_summary list" where
  "calls_in show_json m =
     concat (map (\<lambda>b. case b of ToolUse i name input \<Rightarrow> [call_summary show_json m name input] | _ \<Rightarrow> []) (st_content m))"

lemma calls_of_blocks_eq:
  "length calls \<le> limit \<Longrightarrow> calls_of_blocks show_json limit m bs calls =
     take limit (calls @ concat (map (\<lambda>b. case b of ToolUse i name input \<Rightarrow> [call_summary show_json m name input] | _ \<Rightarrow> []) bs))"
proof (induction bs arbitrary: calls)
  case (Cons b bs)
  show ?case
  proof (cases "length calls = limit")
    case False
    then have "length calls < limit" using Cons.prems by simp
    then show ?thesis using Cons.IH by (cases b) (simp_all add: take_Cons')
  qed simp
qed simp

lemma calls_of_messages_eq:
  "length calls \<le> limit \<Longrightarrow> calls_of_messages show_json limit ms calls = take limit (calls @ concat (map (calls_in show_json) ms))"
proof (induction ms arbitrary: calls)
  case (Cons m ms)
  have c: "calls_of_blocks show_json limit m (st_content m) calls = take limit (calls @ calls_in show_json m)"
    using calls_of_blocks_eq[OF Cons.prems] by (simp add: calls_in_def)
  show ?case
  proof (cases "length calls = limit")
    case False
    then show ?thesis
      using Cons.IH[of "take limit (calls @ calls_in show_json m)"] Cons.prems
      by (cases "length (calls_in show_json m) \<le> limit - length calls") (simp_all add: c)
  qed simp
qed simp

lemma summarize_tool_calls_eq:
  "summarize_tool_calls show_json s limit = rev (take limit (concat (map (calls_in show_json) (rev (messages s)))))"
  by (simp add: summarize_tool_calls_def calls_of_messages_eq)

text \<open>
  When no message makes more than one call, the summary lists the last calls of the session, at most
  \<^verbatim>\<open>limit\<close>, in their order.
\<close>

theorem summarize_tool_calls_last:
  assumes "\<forall>m\<in>set (messages s). length (calls_in show_json m) \<le> 1"
  shows "summarize_tool_calls show_json s limit =
           (let calls = concat (map (calls_in show_json) (messages s)) in drop (length calls - limit) calls)"
proof -
  have "rev (calls_in show_json m) = calls_in show_json m" if "m \<in> set (messages s)" for m
    using assms that by (cases "calls_in show_json m") auto
  then have "map (calls_in show_json) (rev (messages s)) = map (\<lambda>m. rev (calls_in show_json m)) (rev (messages s))"
    by (intro map_cong) simp_all
  then have "concat (map (calls_in show_json) (rev (messages s))) = concat (map (\<lambda>m. rev (calls_in show_json m)) (rev (messages s)))"
    by (simp only:)
  also have "\<dots> = rev (concat (map (calls_in show_json) (messages s)))" by (simp add: rev_concat rev_map comp_def)
  finally have "concat (map (calls_in show_json) (rev (messages s))) = rev (concat (map (calls_in show_json) (messages s)))" .
  then show ?thesis by (simp add: summarize_tool_calls_eq rev_take Let_def)
qed

text \<open>The calls of one message come out in reverse order, and a limit keeps the first of them.\<close>

lemma summarize_tool_calls_reversed:
  assumes "messages s = [m]" "st_content m = [ToolUse i a x, ToolUse j b y]"
  shows "map ts_tool_name (summarize_tool_calls show_json s 2) = [b, a] \<and>
         map ts_tool_name (summarize_tool_calls show_json s 1) = [a]"
  using assms by (simp add: summarize_tool_calls_eq calls_in_def call_summary_def)


section \<open>Recovery\<close>

definition quiet :: "machine \<Rightarrow> session_dir \<Rightarrow> bool" where
  "quiet ma dir \<longleftrightarrow>
     (\<forall>s\<in>set (sd_sessions dir). \<forall>pids. \<not> fst (detect_crash (ma_running ma) (ma_now ma (id_of s)) (s, pids)))"

lemma detect_crash_none:
  "\<not> fst (detect_crash r now (s, pids)) \<Longrightarrow> detect_crash r now (s, pids) = (False, s, pids)"
  by (auto simp: detect_crash_def split: if_splits option.splits)

lemma detect_crash_False: "detect_crash r now (s, pids) = (False, s', pids') \<Longrightarrow> s' = s"
  by (auto simp: detect_crash_def split: if_splits option.splits)

lemma scan_quiet:
  assumes "\<forall>s\<in>set ss. \<forall>pids. \<not> fst (detect_crash (ma_running ma) (ma_now ma (id_of s)) (s, pids))"
  shows "scan_sessions ma ss pids = (ss, ss, pids)"
  using assms by (induction ss arbitrary: pids) (simp_all add: detect_crash_none)

lemma scan_saved:
  assumes "\<And>i. ma_save_ok ma i" "scan_sessions ma ss pids = (mem, disk, pids')"
  shows "disk = mem"
  using assms(2)
  by (induction ss arbitrary: pids mem disk pids') (auto simp: Let_def assms(1) dest: detect_crash_False split: prod.splits if_splits)

lemma add_message_fields:
  "id_of (snd (add_message env i now r c n)) = id_of n" "status (snd (add_message env i now r c n)) = status n"
  "parent_id (snd (add_message env i now r c n)) = parent_id n" "working_dir (snd (add_message env i now r c n)) = working_dir n"
  "title (snd (add_message env i now r c n)) = title n"
  "map (\<lambda>m. (st_role m, st_content m)) (messages (snd (add_message env i now r c n))) =
     map (\<lambda>m. (st_role m, st_content m)) (messages n) @ [(r, c)]"
  by (simp_all add: add_message_def add_message_ext_with_display_role_def append_stored_message_def
      mark_messages_append_dirty_def Let_def)

definition texts_of :: "stored_message list \<Rightarrow> (msg_role \<times> content_block list) list" where
  "texts_of ms =
     filter (\<lambda>(r, c). c \<noteq> []) (map (\<lambda>m. (st_role m, filter is_text (st_content m))) ms)"

lemma copy_texts_fields:
  "id_of (copy_texts env fresh now k ms n) = id_of n \<and> status (copy_texts env fresh now k ms n) = status n \<and>
   parent_id (copy_texts env fresh now k ms n) = parent_id n \<and> working_dir (copy_texts env fresh now k ms n) = working_dir n \<and>
   title (copy_texts env fresh now k ms n) = title n \<and>
   map (\<lambda>m. (st_role m, st_content m)) (messages (copy_texts env fresh now k ms n)) =
     map (\<lambda>m. (st_role m, st_content m)) (messages n) @ texts_of ms"
  by (induction env fresh now k ms n rule: copy_texts.induct)
    (simp_all add: Let_def add_message_fields texts_of_def del: copy_texts.simps(2) add: copy_texts.simps(2)[unfolded Let_def])

lemma recovery_session_fields:
  "id_of (recovery_session la now old) = recovery_id la old" "status (recovery_session la now old) = Closed"
  "parent_id (recovery_session la now old) = Some (id_of old)" "working_dir (recovery_session la now old) = working_dir old"
  "title (recovery_session la now old) = title old"
  "map (\<lambda>m. (st_role m, st_content m)) (messages (recovery_session la now old)) =
     (User, [Text (recovery_header old) None]) # texts_of (messages old)"
  by (simp_all add: recovery_session_def Let_def copy_texts_fields add_message_fields)
    (simp_all add: create_with_id_def reset_persist_state_def)

lemma recover_loop_ok:
  assumes "\<And>i. ma_save_ok ma i"
  shows "recover_loop la ma recovered crashed =
    (let todo = filter (\<lambda>s. id_of s \<notin> set recovered) crashed
     in (Some (map (recovery_id la) todo),
         map (\<lambda>s. let now = ma_now ma (recovery_id la s) in deserialized ((recovery_session la now s)\<lparr>updated_at := now\<rparr>)) todo))"
  using assms by (induction crashed) (simp_all add: Let_def recovery_session_fields)

text \<open>Which sessions a run of the recovery restores.\<close>

definition restorable :: "session list \<Rightarrow> session list" where
  "restorable mem =
     (let crashed = filter is_crashed mem
      in if crashed = [] then []
         else filter (\<lambda>s. id_of s \<notin> set (recovered_parents mem))
                (newest_first (filter (in_crash_window (most_recent_of crashed)) crashed)))"

lemma recover_eq:
  assumes "\<And>i. ma_save_ok ma i" "scan_sessions ma (sd_sessions dir) (sd_pids dir) = (mem, mem, pids)"
  shows "recover_crashed_sessions la ma dir =
    (Some (map (recovery_id la) (restorable mem)),
     \<lparr>sd_sessions = mem @ map (\<lambda>s. let now = ma_now ma (recovery_id la s)
                                 in deserialized ((recovery_session la now s)\<lparr>updated_at := now\<rparr>)) (restorable mem),
      sd_pids = pids\<rparr>)"
  using assms by (simp add: recover_crashed_sessions_def recover_loop_ok restorable_def Let_def)

lemma recovered_parents_append: "recovered_parents (xs @ ys) = recovered_parents xs @ recovered_parents ys"
  by (simp add: recovered_parents_def List.map_filter_def)

lemma deserialized_header [simp]:
  "id_of (deserialized s) = id_of s" "status (deserialized s) = status s" "parent_id (deserialized s) = parent_id s"
  by (simp_all add: deserialized_def)

lemma recovered_parents_new:
  "recovered_parents (map (\<lambda>s. let now = f s in deserialized ((recovery_session la now s)\<lparr>updated_at := now\<rparr>)) xs) = map id_of xs"
  by (induction xs) (simp_all add: recovered_parents_def is_recovery_def Let_def recovery_session_fields recovery_id_def
      starts_with_def List.map_filter_def)

lemma not_crashed_new:
  "filter is_crashed (map (\<lambda>s. let now = f s in deserialized ((recovery_session la now s)\<lparr>updated_at := now\<rparr>)) xs) = []"
  by (induction xs) (simp_all add: is_crashed_def Let_def recovery_session_fields)

text \<open>
  C35: Recovery is idempotent: once a run has restored the crashed sessions, with its saves succeeding,
  a later run in which no further session has crashed restores nothing and leaves the directory as it is.
\<close>

theorem recovery_idempotent:
  assumes "\<And>i. ma_save_ok ma i" "\<And>i. ma_save_ok ma' i"
    and "recover_crashed_sessions la ma dir = (ids, dir')" "quiet ma' dir'"
  shows "recover_crashed_sessions la' ma' dir' = (Some [], dir')"
proof -
  obtain mem disk pids where sc: "scan_sessions ma (sd_sessions dir) (sd_pids dir) = (mem, disk, pids)" by (metis prod_cases3)
  have "disk = mem" by (rule scan_saved[OF assms(1) sc])
  define new where "new = map (\<lambda>s. let now = ma_now ma (recovery_id la s)
      in deserialized ((recovery_session la now s)\<lparr>updated_at := now\<rparr>)) (restorable mem)"
  have dir': "dir' = \<lparr>sd_sessions = mem @ new, sd_pids = pids\<rparr>"
    using recover_eq[OF assms(1) sc[unfolded \<open>disk = mem\<close>], of la] assms(3) by (simp add: new_def)
  have cr: "filter is_crashed (mem @ new) = filter is_crashed mem" by (simp add: new_def not_crashed_new)
  have rp: "recovered_parents (mem @ new) = recovered_parents mem @ map id_of (restorable mem)"
    by (simp add: recovered_parents_append new_def recovered_parents_new)
  have "restorable (mem @ new) = []"
    unfolding restorable_def cr rp Let_def by (auto simp: filter_empty_conv restorable_def Let_def)
  then show ?thesis
    using recover_eq[OF assms(2), of dir' "mem @ new" pids la'] scan_quiet[of "mem @ new" ma' pids] assms(4)
    by (simp add: dir' quiet_def)
qed

text \<open>
  What a recovery restores: for each crashed session of the window that has no recovery yet, newest
  first, a closed session that is its child, with its title and directory, a header, and the texts of
  its messages in order under their roles.
\<close>

theorem recovered_sessions_hold_texts:
  assumes "\<And>i. ma_save_ok ma i" "quiet ma dir" "recover_crashed_sessions la ma dir = (ids, dir')"
  shows "\<exists>new. sd_sessions dir' = sd_sessions dir @ new \<and> ids = Some (map id_of new) \<and>
     map parent_id new = map (Some \<circ> id_of) (restorable (sd_sessions dir)) \<and>
     map title new = map title (restorable (sd_sessions dir)) \<and> (\<forall>n\<in>set new. status n = Closed) \<and>
     map (\<lambda>n. map (\<lambda>m. (st_role m, st_content m)) (messages n)) new =
       map (\<lambda>old. (User, [Text (recovery_header old) None]) # texts_of (messages old)) (restorable (sd_sessions dir))"
proof -
  have sc: "scan_sessions ma (sd_sessions dir) (sd_pids dir) = (sd_sessions dir, sd_sessions dir, sd_pids dir)"
    using assms(2) by (intro scan_quiet) (simp add: quiet_def)
  define new where "new = map (\<lambda>s. let now = ma_now ma (recovery_id la s)
      in deserialized ((recovery_session la now s)\<lparr>updated_at := now\<rparr>)) (restorable (sd_sessions dir))"
  have t: "title (deserialized s) = title s" for s by (simp add: deserialized_def)
  have "ids = Some (map (recovery_id la) (restorable (sd_sessions dir)))" "sd_sessions dir' = sd_sessions dir @ new"
    using recover_eq[OF assms(1) sc, of la] assms(3) by (simp_all add: new_def)
  moreover have "map id_of new = map (recovery_id la) (restorable (sd_sessions dir))"
    "map parent_id new = map (Some \<circ> id_of) (restorable (sd_sessions dir))"
    "map title new = map title (restorable (sd_sessions dir))" "\<forall>n\<in>set new. status n = Closed"
    "map (\<lambda>n. map (\<lambda>m. (st_role m, st_content m)) (messages n)) new =
       map (\<lambda>old. (User, [Text (recovery_header old) None]) # texts_of (messages old)) (restorable (sd_sessions dir))"
    by (simp_all add: new_def Let_def recovery_session_fields t comp_def)
  ultimately show ?thesis by metis
qed

lemma most_recent_max: "ss \<noteq> [] \<Longrightarrow> most_recent_of ss = Max (last_seen ` set ss)"
proof -
  assume "ss \<noteq> []"
  then obtain x xs where "ss = x # xs" by (cases ss) auto
  have "fold max ys y = Max (set (y # ys))" for y :: int and ys
    by (metis Max.set_eq_fold)
  then show ?thesis using \<open>ss = x # xs\<close> by (simp add: most_recent_of_def)
qed

text \<open>
  The offer and the recovery disagree: the offer leaves out the sessions already recovered before it
  takes the window of the last crash, the recovery takes the window first. When the last crash was
  recovered and older crashes were not, these are offered, and accepting restores nothing.
\<close>

theorem offered_but_not_recovered:
  assumes "quiet ma dir" "\<And>i. ma_save_ok ma i"
    and "b \<in> set (sd_sessions dir)" "is_crashed b" "id_of b \<in> set (recovered_parents (sd_sessions dir))"
    and "a \<in> set (sd_sessions dir)" "is_crashed a" "id_of a \<notin> set (recovered_parents (sd_sessions dir))"
    and "\<forall>s\<in>set (sd_sessions dir). is_crashed s \<longrightarrow> id_of s \<in> set (recovered_parents (sd_sessions dir)) \<or>
           last_seen b - last_seen s > crash_window"
  shows "(\<exists>info. detect_crashed_sessions ma dir = (Some info, dir) \<and> ci_session_ids info \<noteq> []) \<and>
         recover_crashed_sessions la ma dir = (Some [], dir)"
proof -
  let ?ss = "sd_sessions dir"
  define R where "R = set (recovered_parents ?ss)"
  define C where "C = filter is_crashed ?ss"
  define unrec where "unrec = filter (\<lambda>s. id_of s \<notin> R) C"
  have sc: "scan_sessions ma ?ss (sd_pids dir) = (?ss, ?ss, sd_pids dir)"
    using assms(1) by (intro scan_quiet) (simp add: quiet_def)
  have dir: "\<lparr>sd_sessions = ?ss, sd_pids = sd_pids dir\<rparr> = dir" by simp
  have a: "a \<in> set unrec" using assms(6-8) by (simp add: unrec_def C_def R_def)
  then have o: "unrec \<noteq> []" by auto
  have "Max (last_seen ` set unrec) \<in> last_seen ` set unrec" using o by (intro Max_in) auto
  then obtain x where x: "x \<in> set unrec" "last_seen x = most_recent_of unrec" by (auto simp: most_recent_max[OF o])
  have w: "filter (in_crash_window (most_recent_of unrec)) unrec \<noteq> []"
    using x by (auto simp: filter_empty_conv in_crash_window_def crash_window_def intro!: bexI[of _ x])
  have so: "newest_first xs \<noteq> []" if "xs \<noteq> []" for xs
    using that set_sort[of "\<lambda>s. - updated_at s" xs] unfolding newest_first_def by (metis set_empty)
  have det: "\<exists>info. detect_crashed_sessions ma dir = (Some info, dir) \<and> ci_session_ids info \<noteq> []"
    using w o by (simp add: detect_crashed_sessions_def sc C_def[symmetric] R_def[symmetric] unrec_def[symmetric] Let_def dir so del: filter_filter)
  have b: "b \<in> set C" using assms(3,4) by (simp add: C_def)
  then have cn: "C \<noteq> []" by auto
  have "last_seen b \<le> most_recent_of C" using b by (simp add: most_recent_max[OF cn])
  then have "\<not> in_crash_window (most_recent_of C) s" if "s \<in> set C" "id_of s \<notin> R" for s
    using assms(9) that by (auto simp: in_crash_window_def C_def R_def)
  then have "restorable ?ss = []"
    using cn by (auto simp: restorable_def C_def[symmetric] R_def[symmetric] Let_def filter_empty_conv newest_first_def)
  then have "recover_crashed_sessions la ma dir = (Some [], dir)"
    using recover_eq[OF assms(2) sc, of la] dir by simp
  then show ?thesis using det by blast
qed


text \<open>
  The fallback scan looks for the marker \<^verbatim>\<open>session_recovery_\<close> between quotes, but in a file the marker is
  followed by the rest of the identifier: a recovery does not register its parent, unless its text
  mentions a crash.
\<close>

definition crashed_file :: session_file where
  "crashed_file = \<lparr>sf_name = ''session_a.json'', sf_mtime = None, sf_len = 1,
     sf_content = Some (''{'' @ quoted ''id'' @ '':'' @ quoted ''session_a'' @ '','' @ quoted ''status'' @ '':'' @ quoted ''Crashed'')\<rparr>"

definition recovery_file :: session_file where
  "recovery_file = \<lparr>sf_name = ''session_recovery_b.json'', sf_mtime = None, sf_len = 1,
     sf_content = Some (''{'' @ quoted ''id'' @ '':'' @ quoted ''session_recovery_b'' @ '','' @
       quoted ''parent_id'' @ '':'' @ quoted ''session_a'' @ '','' @ quoted ''status'' @ '':'' @ quoted ''Closed'')\<rparr>"

definition demo_parse_header :: "string \<Rightarrow> session_header option" where
  "demo_parse_header t =
     (if str_contains ''Closed'' t
      then Some \<lparr>sh_id = ''session_recovery_b'', sh_parent_id = Some ''session_a'', sh_updated_at = 2, sh_short_name = None,
                 sh_status = Closed, sh_last_active_at = None\<rparr>
      else Some \<lparr>sh_id = ''session_a'', sh_parent_id = None, sh_updated_at = 1, sh_short_name = None,
                 sh_status = Crashed None, sh_last_active_at = None\<rparr>)"

lemma legacy_scan_offers_recovered:
  "find_crashed_legacy_scan demo_parse_header 3 [crashed_file, recovery_file] = [(''session_a'', ''session_a'')]"
  by code_simp

section \<open>Finding a session\<close>

lemma sort_key_hd:
  fixes f :: "'a \<Rightarrow> 'b :: linorder"
  assumes "sort_key f xs = y # ys"
  shows "y \<in> set xs \<and> (\<forall>x\<in>set xs. f y \<le> f x)"
proof -
  have "set (y # ys) = set xs" using assms set_sort[of f xs] by simp
  moreover have "sorted (map f (y # ys))" using assms sorted_sort_key[of f xs] by simp
  ultimately show ?thesis by fastforce
qed

text \<open>
  A name resolves to a session that loads: the one with that identifier, or else, among the sessions
  of that short name, one that was updated last.
\<close>

theorem find_session_newest:
  assumes "find_session_by_name_or_id load exists stems name = Inr i"
  shows "\<exists>s. load i = Some s \<and>
     (i = name \<or> load name = None \<and> extract_session_name i = Some name \<and>
        (\<exists>all. stems = Some all \<and> i \<in> set all \<and>
           (\<forall>j\<in>set all. \<forall>t. extract_session_name j = Some name \<and> load j = Some t \<longrightarrow> updated_at t \<le> updated_at s)))"
proof (cases "load name")
  case None
  then obtain all where all: "stems = Some all" using assms by (auto simp: find_session_by_name_or_id_def split: if_splits option.splits)
  define found where "found = List.map_filter (\<lambda>stem. if extract_session_name stem = Some name
                 then map_option (\<lambda>s. (stem, updated_at s)) (load stem) else None) all"
  obtain t ys where so: "sort_key (\<lambda>(stem, t). - t) found = (i, t) # ys"
    using assms None all by (auto simp: find_session_by_name_or_id_def found_def split: if_splits list.splits prod.splits)
  have h: "(i, t) \<in> set found" "\<forall>x\<in>set found. - t \<le> (case x of (stem, t) \<Rightarrow> - t)"
    using sort_key_hd[OF so] by auto
  obtain s where s: "i \<in> set all" "extract_session_name i = Some name" "load i = Some s" "t = updated_at s"
    using h(1) by (auto simp: found_def List.map_filter_def split: if_splits)
  have "updated_at u \<le> updated_at s" if "j \<in> set all" "extract_session_name j = Some name" "load j = Some u" for j u
  proof -
    have "(j, updated_at u) \<in> set found" using that by (force simp: found_def List.map_filter_def)
    then show ?thesis using h(2) s(4) by fastforce
  qed
  then show ?thesis using None all s by blast
next
  case (Some s)
  then show ?thesis using assms by (simp add: find_session_by_name_or_id_def)
qed

section \<open>Witnesses\<close>

definition demo_crash :: "string \<Rightarrow> string option \<Rightarrow> session_status \<Rightarrow> datetime \<Rightarrow> session" where
  "demo_crash i par st t =
     (create_with_id t False None 7 i par None)\<lparr>status := st, messages := [demo_stored]\<rparr>"

definition demo_machine :: machine where
  "demo_machine = \<lparr>ma_running = (\<lambda>_. True), ma_save_ok = (\<lambda>_. True), ma_now = (\<lambda>_. 0)\<rparr>"

definition demo_launch :: launch where
  "demo_launch = \<lparr>la_env = demo_session_env, la_test = False, la_cwd = None, la_pid = 8, la_rec = (\<lambda>i. i), la_fresh = (\<lambda>i n. i)\<rparr>"

definition demo_old :: session where "demo_old = demo_crash ''session_a_1'' None (Crashed None) 0"
definition demo_last :: session where "demo_last = demo_crash ''session_b_2'' None (Crashed None) (100 * 1000000000)"
definition demo_recovery :: session where
  "demo_recovery = demo_crash ''session_recovery_r'' (Some ''session_b_2'') Closed (101 * 1000000000)"

definition demo_dir :: session_dir where
  "demo_dir = \<lparr>sd_sessions = [demo_old, demo_last, demo_recovery], sd_pids = (\<lambda>_. None)\<rparr>"

lemmas demo_crash_defs = demo_old_def demo_last_def demo_recovery_def demo_crash_def create_with_id_def reset_persist_state_def

lemma demo_facts:
  "id_of demo_old = ''session_a_1''" "id_of demo_last = ''session_b_2''" "id_of demo_recovery = ''session_recovery_r''"
  "status demo_old = Crashed None" "status demo_last = Crashed None" "status demo_recovery = Closed"
  "last_active_at demo_old = Some 0" "last_active_at demo_last = Some (100 * 1000000000)"
  "parent_id demo_recovery = Some ''session_b_2''" "messages demo_old = [demo_stored]" "title demo_old = None"
  by (simp_all add: demo_crash_defs)

lemma demo_recovered: "recovered_parents [demo_old, demo_last, demo_recovery] = [''session_b_2'']"
  by (simp add: recovered_parents_def is_recovery_def demo_facts starts_with_def List.map_filter_def)

lemma demo_quiet: "quiet demo_machine demo_dir"
  by (simp add: quiet_def demo_dir_def detect_crash_def demo_facts)

lemma offered_but_not_recovered_witness:
  "(\<exists>info. detect_crashed_sessions demo_machine demo_dir = (Some info, demo_dir) \<and> ci_session_ids info \<noteq> []) \<and>
   recover_crashed_sessions demo_launch demo_machine demo_dir = (Some [], demo_dir)"
  by (rule offered_but_not_recovered[OF demo_quiet, where a = demo_old and b = demo_last])
    (simp_all add: demo_machine_def demo_dir_def demo_recovered demo_facts is_crashed_def last_seen_def crash_window_def)

definition demo_dir1 :: session_dir where
  "demo_dir1 = \<lparr>sd_sessions = [demo_old], sd_pids = (\<lambda>_. None)\<rparr>"

lemma demo_restorable: "restorable [demo_old] = [demo_old]"
  by (simp add: restorable_def is_crashed_def demo_facts Let_def newest_first_def in_crash_window_def most_recent_of_def
      crash_window_def recovered_parents_def is_recovery_def starts_with_def List.map_filter_def)

lemma demo_quiet1: "quiet demo_machine demo_dir1"
  by (simp add: quiet_def demo_dir1_def detect_crash_def demo_facts)

lemma recovered_sessions_hold_texts_witness:
  "\<exists>n ids dir'. recover_crashed_sessions demo_launch demo_machine demo_dir1 = (ids, dir') \<and>
     sd_sessions dir' = [demo_old, n] \<and> parent_id n = Some ''session_a_1'' \<and> length (messages n) = 2"
proof -
  obtain ids dir' where r: "recover_crashed_sessions demo_launch demo_machine demo_dir1 = (ids, dir')" by fastforce
  have t: "texts_of [demo_stored] = [(User, [Text ''hello'' None])]"
    by (simp add: texts_of_def demo_stored_def is_text_def)
  obtain n where n: "sd_sessions dir' = [demo_old, n]" "parent_id n = Some ''session_a_1''"
      "map (\<lambda>m. (st_role m, st_content m)) (messages n) = [(User, [Text (recovery_header demo_old) None]), (User, [Text ''hello'' None])]"
    using recovered_sessions_hold_texts[OF _ demo_quiet1 r]
    by (auto simp: demo_machine_def demo_dir1_def demo_restorable demo_facts t comp_def)
  have "length (messages n) = 2" using arg_cong[OF n(3), of length] by simp
  then show ?thesis using r n(1,2) by blast
qed

lemma recovery_idempotent_witness:
  "\<exists>ids dir'. recover_crashed_sessions demo_launch demo_machine demo_dir1 = (ids, dir') \<and> ids \<noteq> Some [] \<and>
     recover_crashed_sessions demo_launch demo_machine dir' = (Some [], dir')"
proof -
  obtain ids dir' where r: "recover_crashed_sessions demo_launch demo_machine demo_dir1 = (ids, dir')" by fastforce
  have sc: "scan_sessions demo_machine (sd_sessions demo_dir1) (sd_pids demo_dir1) = ([demo_old], [demo_old], \<lambda>_. None)"
    using scan_quiet[of "[demo_old]" demo_machine "\<lambda>_. None"] demo_quiet1 by (simp add: quiet_def demo_dir1_def)
  have e: "ids = Some [recovery_id demo_launch demo_old]" "\<exists>n. sd_sessions dir' = [demo_old, n] \<and> status n = Closed"
    using recover_eq[OF _ sc, of demo_launch] r
    by (auto simp: demo_machine_def demo_restorable Let_def recovery_session_fields)
  then have "quiet demo_machine dir'" by (auto simp: quiet_def detect_crash_def demo_facts)
  then have "recover_crashed_sessions demo_launch demo_machine dir' = (Some [], dir')"
    by (intro recovery_idempotent[OF _ _ r]) (simp_all add: demo_machine_def)
  then show ?thesis using r e(1) by blast
qed

lemma summarize_tool_calls_last_witness:
  "summarize_tool_calls (\<lambda>_. []) demo_old 3 = []"
  using summarize_tool_calls_last[of demo_old "\<lambda>_. []" 3] by (simp add: demo_facts calls_in_def demo_stored_def)

lemma find_session_newest_witness:
  "\<exists>s. (if ''session_a_1'' = ''session_a_1'' then Some demo_old else None) = Some s \<and> id_of s = ''session_a_1''"
proof -
  have "find_session_by_name_or_id (\<lambda>i. if i = ''session_a_1'' then Some demo_old else None) (\<lambda>_. False)
      (Some [''session_a_1'']) ''a'' = Inr ''session_a_1''"
    by (simp add: find_session_by_name_or_id_def List.map_filter_def extract_session_name_def strip_prefix_def)
  from find_session_newest[OF this] show ?thesis by (auto simp: demo_facts)
qed

end
