(* ===== verification/Patch_Tools.thy ===== *)
theory Patch_Tools
  imports File_Tools
begin

text \<open>
  The \<^verbatim>\<open>apply_patch\<close> tool for patches in the \<^verbatim>\<open>*** Begin Patch\<close> format
  (\<^verbatim>\<open>src/src/tool/apply_patch.rs\<close>). The parser, which steps an index through the lines, is a function
  of the lines that are left. The lemmas on splicing are shared with the tool for unified diffs.
\<close>

section \<open>Definitions\<close>

subsection \<open>Diffs\<close>

text \<open>\<^verbatim>\<open>generate_diff\<close> of \<^verbatim>\<open>patch.rs\<close> and \<^verbatim>\<open>generate_diff_summary\<close> of \<^verbatim>\<open>apply_patch.rs\<close>.\<close>

fun patch_diff_loop :: "nat \<Rightarrow> nat \<Rightarrow> nat \<Rightarrow> (change_tag \<times> string) list \<Rightarrow> string" where
  "patch_diff_loop shown old_line new_line [] = []"
| "patch_diff_loop shown old_line new_line ((tag, value) # cs) =
     (if shown \<ge> 30 then ''... (diff truncated)'' @ nl
      else
        let content = trim_end_newlines value in
        case tag of
          Delete \<Rightarrow>
            if trim content = [] then patch_diff_loop shown (old_line + 1) new_line cs
            else diff_line old_line ''-'' content @ patch_diff_loop (shown + 1) (old_line + 1) new_line cs
        | Insert \<Rightarrow>
            if trim content = [] then patch_diff_loop shown old_line (new_line + 1) cs
            else diff_line new_line ''+'' content @ patch_diff_loop (shown + 1) old_line (new_line + 1) cs
        | Equal \<Rightarrow> patch_diff_loop shown (old_line + 1) (new_line + 1) cs)"

definition patch_generate_diff :: "differ \<Rightarrow> string \<Rightarrow> string \<Rightarrow> nat \<Rightarrow> string" where
  "patch_generate_diff text_diff old new start_line =
     trim_end (patch_diff_loop 0 start_line start_line (text_diff old new))"

definition apply_patch_diff_summary :: "differ \<Rightarrow> string \<Rightarrow> string \<Rightarrow> string" where
  "apply_patch_diff_summary text_diff old new = trim_end (patch_diff_loop 0 1 1 (text_diff old new))"

subsection \<open>Codex-style patches\<close>

record update_chunk =
  change_context :: "string option"
  old_lines :: "string list"
  new_lines :: "string list"
  is_end_of_file :: bool

datatype patch_hunk =
    AddFile string string
  | DeleteFile string
  | UpdateFile string "string option" "update_chunk list"

definition lines_match :: "(string \<Rightarrow> string) \<Rightarrow> string list \<Rightarrow> string list \<Rightarrow> nat \<Rightarrow> bool" where
  "lines_match f ls pattern i \<longleftrightarrow> map f (take (length pattern) (drop i ls)) = map f pattern"

definition seek_sequence :: "string list \<Rightarrow> string list \<Rightarrow> nat \<Rightarrow> bool \<Rightarrow> nat option" where
  "seek_sequence ls pattern start eof =
     (if pattern = [] then Some start
      else if length pattern > length ls then None
      else
        let search_start = (if eof \<and> length ls \<ge> length pattern then length ls - length pattern else start);
            range = [search_start..<Suc (length ls - length pattern)]
        in case find (lines_match id ls pattern) range of
             Some i \<Rightarrow> Some i
           | None \<Rightarrow>
             (case find (lines_match trim_end ls pattern) range of
                Some i \<Rightarrow> Some i
              | None \<Rightarrow> find (lines_match trim ls pattern) range))"

definition last_is_empty :: "string list \<Rightarrow> bool" where
  "last_is_empty ls \<longleftrightarrow> ls \<noteq> [] \<and> last ls = []"

type_synonym replacement = "nat \<times> nat \<times> string list"

text \<open>The search for the old lines of a chunk, retried without a final blank line.\<close>

definition seek_old_lines :: "string list \<Rightarrow> update_chunk \<Rightarrow> nat \<Rightarrow> replacement option" where
  "seek_old_lines ls chunk line_index =
     (case seek_sequence ls (old_lines chunk) line_index (is_end_of_file chunk) of
        Some start_idx \<Rightarrow> Some (start_idx, length (old_lines chunk), new_lines chunk)
      | None \<Rightarrow>
          if last_is_empty (old_lines chunk) then
            let pattern = butlast (old_lines chunk);
                new_slice = (if last_is_empty (new_lines chunk) then butlast (new_lines chunk) else new_lines chunk)
            in map_option (\<lambda>start_idx. (start_idx, length pattern, new_slice))
                 (seek_sequence ls pattern line_index (is_end_of_file chunk))
          else None)"

fun replacement_loop :: "string list \<Rightarrow> string \<Rightarrow> nat \<Rightarrow> update_chunk list \<Rightarrow> string + replacement list" where
  "replacement_loop ls path line_index [] = Inr []"
| "replacement_loop ls path line_index (chunk # chunks) =
     (case (case change_context chunk of
              None \<Rightarrow> Some line_index
            | Some ctx_line \<Rightarrow> map_option Suc (seek_sequence ls [ctx_line] line_index False)) of
        None \<Rightarrow>
          Inl (''Failed to find context '' @ apos @ (case change_context chunk of Some c \<Rightarrow> c | None \<Rightarrow> []) @ apos @
               '' in '' @ path)
      | Some line_index \<Rightarrow>
          if old_lines chunk = [] then
            let insertion_idx = (if last_is_empty ls then length ls - 1 else length ls)
            in map_sum id (\<lambda>rs. (insertion_idx, 0, new_lines chunk) # rs) (replacement_loop ls path line_index chunks)
          else
            case seek_old_lines ls chunk line_index of
              Some (start_idx, n, new) \<Rightarrow>
                map_sum id (\<lambda>rs. (start_idx, n, new) # rs) (replacement_loop ls path (start_idx + n) chunks)
            | None \<Rightarrow>
                Inl (''Failed to find expected lines in '' @ path @ '':'' @ nl @ join nl (old_lines chunk)))"

definition compute_replacements :: "string list \<Rightarrow> string \<Rightarrow> update_chunk list \<Rightarrow> string + replacement list" where
  "compute_replacements ls path chunks = map_sum id (sort_key fst) (replacement_loop ls path 0 chunks)"

fun remove_lines :: "nat \<Rightarrow> nat \<Rightarrow> string list \<Rightarrow> string list" where
  "remove_lines 0 i ls = ls"
| "remove_lines (Suc n) i ls =
     remove_lines n i (if i < length ls then take i ls @ drop (Suc i) ls else ls)"

text \<open>\<^verbatim>\<open>Vec::insert\<close> panics beyond the length.\<close>

fun insert_lines :: "nat \<Rightarrow> string list \<Rightarrow> string list \<Rightarrow> string list option" where
  "insert_lines i [] ls = Some ls"
| "insert_lines i (l # seg) ls =
     (if i \<le> length ls then insert_lines (i + 1) seg (take i ls @ l # drop i ls) else None)"

definition apply_replacement :: "replacement \<Rightarrow> string list \<Rightarrow> string list option" where
  "apply_replacement r ls = (case r of (i, n, seg) \<Rightarrow> insert_lines i seg (remove_lines n i ls))"

definition apply_replacements :: "string list \<Rightarrow> replacement list \<Rightarrow> string list option" where
  "apply_replacements ls rs = fold (\<lambda>r m. Option.bind m (apply_replacement r)) (rev rs) (Some ls)"

definition file_lines :: "string \<Rightarrow> string list" where
  "file_lines content = (let ls = split_char newline content in if last_is_empty ls then butlast ls else ls)"

definition lines_file :: "string list \<Rightarrow> string" where
  "lines_file ls = join nl (if last_is_empty ls then ls else ls @ [[]])"

definition apply_update_chunks :: "world \<Rightarrow> string \<Rightarrow> update_chunk list \<Rightarrow> (string \<times> string) outcome" where
  "apply_update_chunks w path chunks =
     (case read_to_string w path of
        Inl e \<Rightarrow> Err e
      | Inr original_contents \<Rightarrow>
          let original_lines = file_lines original_contents in
          case compute_replacements original_lines path chunks of
            Inl e \<Rightarrow> Err e
          | Inr rs \<Rightarrow>
              (case apply_replacements original_lines rs of
                 None \<Rightarrow> Panic
               | Some ls \<Rightarrow> Ok (original_contents, lines_file ls)))"

definition publish_file_touch :: "tool_context \<Rightarrow> string \<Rightarrow> string \<Rightarrow> string \<Rightarrow> world \<Rightarrow> world" where
  "publish_file_touch ctx resolved verb diff w =
     publish \<lparr>ft_session_id = ctx_session_id ctx, ft_path = resolved, ft_op = Edit,
       ft_summary = Some (verb @ '' via apply_patch''), ft_detail = build_file_touch_preview diff\<rparr> w"

definition result_line :: "string \<Rightarrow> string \<Rightarrow> string \<Rightarrow> string" where
  "result_line path msg diff = check_mark @ '' '' @ path @ '': '' @ msg @ (if diff = [] then [] else nl @ diff)"

record patch_state =
  ps_world :: world
  ps_results :: "string list"
  ps_touched :: "string list"

definition note_result :: "string \<Rightarrow> string list \<Rightarrow> world \<Rightarrow> patch_state \<Rightarrow> patch_state" where
  "note_result res paths w st = \<lparr>ps_world = w, ps_results = ps_results st @ [res], ps_touched = ps_touched st @ paths\<rparr>"

definition create_parent :: "string \<Rightarrow> world \<Rightarrow> string option" where
  "create_parent p w = (case parent_path p of Some d \<Rightarrow> create_dir_all d w | None \<Rightarrow> None)"

text \<open>One hunk: the new state, an error that ends the call, or a panic.\<close>

fun execute_hunk :: "differ \<Rightarrow> tool_context \<Rightarrow> patch_hunk \<Rightarrow> patch_state \<Rightarrow> patch_state outcome \<times> world" where
  "execute_hunk text_diff ctx (AddFile path contents) st =
     (let w = ps_world st; resolved = resolve_path ctx path in
      case create_parent resolved w of
        Some e \<Rightarrow> (Err e, w)
      | None \<Rightarrow>
        (case fs_write resolved contents w of
           Inl e \<Rightarrow> (Err e, w)
         | Inr w1 \<Rightarrow>
             let diff = apply_patch_diff_summary text_diff [] contents;
                 w2 = publish_file_touch ctx resolved ''created'' diff w1
             in (Ok (note_result (result_line path ''created'' diff) [path] w2 st), w2)))"
| "execute_hunk text_diff ctx (DeleteFile path) st =
     (let w = ps_world st; resolved = resolve_path ctx path;
          old_contents = (case read_to_string w resolved of Inr s \<Rightarrow> s | Inl _ \<Rightarrow> [])
      in case remove_file resolved w of
        Inr w1 \<Rightarrow>
          let diff = apply_patch_diff_summary text_diff old_contents [];
              w2 = publish_file_touch ctx resolved ''deleted'' diff w1
          in (Ok (note_result (result_line path ''deleted'' diff) [path] w2 st), w2)
      | Inl _ \<Rightarrow> (Ok (note_result (cross_mark @ '' '' @ path @ '': failed to delete'') [] w st), w))"
| "execute_hunk text_diff ctx (UpdateFile path move_to chunks) st =
     (let w = ps_world st; resolved = resolve_path ctx path in
      case apply_update_chunks w resolved chunks of
        Panic \<Rightarrow> (Panic, w)
      | Err e \<Rightarrow> (Ok (note_result (cross_mark @ '' '' @ path @ '': '' @ e) [] w st), w)
      | Ok (old_contents, new_contents) \<Rightarrow>
        let diff = apply_patch_diff_summary text_diff old_contents new_contents;
            msg = ''modified ('' @ show_nat (length chunks) @ '' hunks)''
        in case move_to of
          Some dest \<Rightarrow>
            let dest_resolved = resolve_path ctx dest in
            (case create_parent dest_resolved w of
               Some e \<Rightarrow> (Err e, w)
             | None \<Rightarrow>
               (case fs_write dest_resolved new_contents w of
                  Inl e \<Rightarrow> (Err e, w)
                | Inr w1 \<Rightarrow>
                    let w2 = (case remove_file resolved w1 of Inr w2 \<Rightarrow> w2 | Inl _ \<Rightarrow> w1);
                        w3 = publish_file_touch ctx dest_resolved ''modified'' diff
                               (publish_file_touch ctx resolved ''modified'' diff w2)
                    in (Ok (note_result (result_line path (msg @ '', moved to '' @ dest) diff) [path, dest] w3 st), w3)))
        | None \<Rightarrow>
            (case fs_write resolved new_contents w of
               Inl e \<Rightarrow> (Err e, w)
             | Inr w1 \<Rightarrow>
                 let w2 = publish_file_touch ctx resolved ''modified'' diff w1
                 in (Ok (note_result (result_line path msg diff) [path] w2 st), w2)))"

fun execute_hunks :: "differ \<Rightarrow> tool_context \<Rightarrow> patch_hunk list \<Rightarrow> patch_state \<Rightarrow> patch_state outcome \<times> world" where
  "execute_hunks text_diff ctx [] st = (Ok st, ps_world st)"
| "execute_hunks text_diff ctx (h # hs) st =
     (case execute_hunk text_diff ctx h st of
        (Ok st', _) \<Rightarrow> execute_hunks text_diff ctx hs st'
      | (Err e, w) \<Rightarrow> (Err e, w)
      | (Panic, w) \<Rightarrow> (Panic, w))"

subsection \<open>Parsing Codex-style patches\<close>

text \<open>The body of an added file: the lines up to the next directive, with their plus signs removed.\<close>

fun add_body :: "string list \<Rightarrow> string \<times> string list" where
  "add_body [] = ([], [])"
| "add_body (current # ls) =
     (if starts_with ''*** '' current then ([], current # ls)
      else
        let (contents, rest) = add_body ls in
        (case strip_prefix ''+'' current of Some added \<Rightarrow> added @ nl @ contents | None \<Rightarrow> contents, rest))"

record chunk_body =
  cb_old :: "string list"
  cb_new :: "string list"
  cb_eof :: bool
  cb_had :: bool

text \<open>The lines of one chunk, collected into \<^verbatim>\<open>b\<close>.\<close>

fun parse_chunk_body :: "string list \<Rightarrow> chunk_body \<Rightarrow> chunk_body \<times> string list" where
  "parse_chunk_body [] b = (b, [])"
| "parse_chunk_body (cl # ls) b =
     (if cl = ''*** End of File'' then (b\<lparr>cb_eof := True\<rparr>, ls)
      else if starts_with ''*** '' cl \<or> starts_with ''@@'' cl then (b, cl # ls)
      else case strip_prefix '' '' cl of
        Some content \<Rightarrow>
          parse_chunk_body ls (b\<lparr>cb_old := cb_old b @ [content], cb_new := cb_new b @ [content], cb_had := True\<rparr>)
      | None \<Rightarrow>
        (case strip_prefix ''+'' cl of
           Some content \<Rightarrow> parse_chunk_body ls (b\<lparr>cb_new := cb_new b @ [content], cb_had := True\<rparr>)
         | None \<Rightarrow>
           (case strip_prefix ''-'' cl of
              Some content \<Rightarrow> parse_chunk_body ls (b\<lparr>cb_old := cb_old b @ [content], cb_had := True\<rparr>)
            | None \<Rightarrow>
              if cl = [] then
                parse_chunk_body ls (b\<lparr>cb_old := cb_old b @ [[]], cb_new := cb_new b @ [[]], cb_had := True\<rparr>)
              else if cb_had b then (b, cl # ls)
              else parse_chunk_body ls b)))"

definition empty_body :: chunk_body where
  "empty_body = \<lparr>cb_old = [], cb_new = [], cb_eof = False, cb_had = False\<rparr>"

definition chunk_of :: "string option \<Rightarrow> chunk_body \<Rightarrow> update_chunk list" where
  "chunk_of ctx b =
     (if cb_had b \<or> ctx \<noteq> None
      then [\<lparr>change_context = ctx, old_lines = cb_old b, new_lines = cb_new b, is_end_of_file = cb_eof b\<rparr>] else [])"

lemma parse_chunk_body_rest: "length (snd (parse_chunk_body ls b)) \<le> length ls"
  by (induction ls b rule: parse_chunk_body.induct) (auto simp: le_SucI split: option.splits)

text \<open>The header of a chunk: its context and the lines after it, or \<^term>\<open>None\<close> when there is none.\<close>

definition chunk_header :: "bool \<Rightarrow> string list \<Rightarrow> (string option \<times> string list) option" where
  "chunk_header is_first_chunk ls =
     (let current = trim_end (hd ls) in
      if current = ''@@'' then Some (None, tl ls)
      else case strip_prefix ''@@ '' current of
        Some ctx \<Rightarrow> Some (Some ctx, tl ls)
      | None \<Rightarrow> if is_first_chunk then Some (None, ls) else None)"

lemma chunk_header_rest:
  "chunk_header is_first ls = Some (ctx, rest) \<Longrightarrow> length rest \<le> length ls"
  "chunk_header False ls = Some (ctx, rest) \<Longrightarrow> rest = tl ls"
  by (auto simp: chunk_header_def Let_def split: if_splits option.splits)

function parse_chunks :: "bool \<Rightarrow> string list \<Rightarrow> update_chunk list \<times> string list" where
  "parse_chunks is_first_chunk [] = ([], [])"
| "parse_chunks is_first_chunk (l # ls) =
     (let current = trim_end l in
      if starts_with ''*** '' current \<and> current \<noteq> ''*** End of File'' then ([], l # ls)
      else if trim current = [] \<and> \<not> starts_with '' '' current \<and> \<not> starts_with ''+'' current \<and> \<not> starts_with ''-'' current
      then parse_chunks is_first_chunk ls
      else case chunk_header is_first_chunk (l # ls) of
        None \<Rightarrow> ([], l # ls)
      | Some (ctx, rest) \<Rightarrow>
          let p = parse_chunk_body rest empty_body; q = parse_chunks False (snd p)
          in (chunk_of ctx (fst p) @ fst q, snd q))"
  by pat_completeness auto
termination
proof (relation "measure (\<lambda>(is_first, ls). 2 * length ls + (if is_first then 1 else 0))", goal_cases)
  case (3 is_first l ls current a ctx rest p)
  have "length (snd p) \<le> length rest" using parse_chunk_body_rest 3(6) by simp
  then show ?case using chunk_header_rest(1)[of is_first "l # ls" ctx rest] chunk_header_rest(2)[of "l # ls" ctx rest] 3(4,5)
    by (cases is_first) auto
qed auto

lemma parse_chunks_rest: "length (snd (parse_chunks is_first ls)) \<le> length ls"
proof (induction is_first ls rule: parse_chunks.induct)
  case (2 is_first l ls)
  have "length (snd (parse_chunks False (snd (parse_chunk_body rest empty_body)))) \<le> Suc (length ls)"
    if "chunk_header is_first (l # ls) = Some (ctx, rest)"
      "\<not> (starts_with ''*** '' (trim_end l) \<and> trim_end l \<noteq> ''*** End of File'')"
      "\<not> (trim (trim_end l) = [] \<and> \<not> starts_with '' '' (trim_end l) \<and> \<not> starts_with ''+'' (trim_end l) \<and> \<not> starts_with ''-'' (trim_end l))"
    for ctx rest
    using 2(2)[OF refl that(2,3) that(1) refl refl] parse_chunk_body_rest[of rest empty_body] chunk_header_rest(1)[OF that(1)] by simp
  then show ?case using 2(1)[OF refl] by (auto simp: Let_def le_SucI split: option.splits)
qed simp

definition parse_move :: "string list \<Rightarrow> string option \<times> string list" where
  "parse_move ls =
     (case ls of
        [] \<Rightarrow> (None, [])
      | l # rest \<Rightarrow>
          (case strip_prefix ''*** Move to: '' (trim_end l) of
             Some target \<Rightarrow> (Some (trim target), rest)
           | None \<Rightarrow> (None, ls)))"

lemma add_body_rest: "length (snd (add_body ls)) \<le> length ls"
  by (induction ls) (auto simp: split_def Let_def)

lemma parse_move_rest: "length (snd (parse_move ls)) \<le> length ls"
  by (auto simp: parse_move_def split: list.splits option.splits)

function parse_hunks :: "string list \<Rightarrow> string + patch_hunk list" where
  "parse_hunks [] = Inr []"
| "parse_hunks (l # ls) =
     (let line = trim_end l in
      if trim line = ''*** End Patch'' then Inr []
      else case strip_prefix ''*** Add File: '' line of
        Some path \<Rightarrow>
          let p = add_body ls in map_sum id (\<lambda>hs. AddFile (trim path) (fst p) # hs) (parse_hunks (snd p))
      | None \<Rightarrow>
        (case strip_prefix ''*** Delete File: '' line of
           Some path \<Rightarrow> map_sum id (\<lambda>hs. DeleteFile (trim path) # hs) (parse_hunks ls)
         | None \<Rightarrow>
           (case strip_prefix ''*** Update File: '' line of
              Some path \<Rightarrow>
                let mv = parse_move ls; p = parse_chunks True (snd mv) in
                if fst p = [] then Inl (''Update file hunk for '' @ apos @ trim path @ apos @ '' has no changes'')
                else map_sum id (\<lambda>hs. UpdateFile (trim path) (fst mv) (fst p) # hs) (parse_hunks (snd p))
            | None \<Rightarrow> parse_hunks ls)))"
  by pat_completeness auto
termination
proof (relation "measure length")
  fix ls l line path p
  assume "p = add_body ls"
  then show "(snd p, l # ls) \<in> measure length" using add_body_rest[of ls] by simp
next
  fix ls l line path mv p
  assume "mv = parse_move ls" "p = parse_chunks True (snd mv)"
  then show "(snd p, l # ls) \<in> measure length"
    using parse_move_rest[of ls] parse_chunks_rest[of True "snd (parse_move ls)"] by simp
qed auto

definition parse_apply_patch :: "string \<Rightarrow> string + patch_hunk list" where
  "parse_apply_patch input =
     (case dropWhile (\<lambda>l. trim l \<noteq> ''*** Begin Patch'') (lines input) of
        [] \<Rightarrow> Inl ''Patch must contain *** Begin Patch''
      | _ # ls \<Rightarrow>
          (case parse_hunks ls of
             Inl e \<Rightarrow> Inl e
           | Inr [] \<Rightarrow> Inl ''No valid patch directives found''
           | Inr hs \<Rightarrow> Inr hs))"

definition apply_patch_execute :: "differ \<Rightarrow> tool_context \<Rightarrow> string \<Rightarrow> world \<Rightarrow> tool_output outcome \<times> world" where
  "apply_patch_execute text_diff ctx patch_text w =
     (case parse_apply_patch patch_text of
        Inl e \<Rightarrow> (Err e, w)
      | Inr hunks \<Rightarrow>
        (case execute_hunks text_diff ctx hunks \<lparr>ps_world = w, ps_results = [], ps_touched = []\<rparr> of
           (Err e, w') \<Rightarrow> (Err e, w')
         | (Panic, w') \<Rightarrow> (Panic, w')
         | (Ok st, w') \<Rightarrow>
             (Ok (if ps_results st = [] then ToolOutput_new ''No changes applied''
                  else with_title (case ps_touched st of [p] \<Rightarrow> p | ps \<Rightarrow> show_nat (length ps) @ '' files'')
                    (ToolOutput_new (join nl (ps_results st)))), w')))"

section \<open>Splicing\<close>

text \<open>
  Both tools replace segments from the end of the file to its start. The reference goes from the
  start to the end, over segments that come in order and do not overlap.
\<close>

fun splice :: "nat \<Rightarrow> (nat \<times> nat \<times> 'a list) list \<Rightarrow> 'a list \<Rightarrow> 'a list" where
  "splice pos [] ls = ls"
| "splice pos ((i, n, seg) # rs) ls = take (i - pos) ls @ seg @ splice (i + n) rs (drop (i + n - pos) ls)"

fun ordered :: "nat \<Rightarrow> nat \<Rightarrow> (nat \<times> nat \<times> 'a list) list \<Rightarrow> bool" where
  "ordered pos len [] \<longleftrightarrow> pos \<le> len"
| "ordered pos len ((i, n, seg) # rs) \<longleftrightarrow> pos \<le> i \<and> ordered (i + n) len rs"

lemma ordered_bound: "ordered pos len rs \<Longrightarrow> pos \<le> len"
  by (induction pos len rs rule: ordered.induct) auto

lemma ordered_sorted: "ordered pos len rs \<Longrightarrow> sorted (map fst rs) \<and> (\<forall>r\<in>set rs. pos \<le> fst r)"
  by (induction pos len rs rule: ordered.induct) force+

lemma fold_bind_None: "fold (\<lambda>r m. Option.bind m (f r)) rs None = None"
  by (induction rs) auto

text \<open>Any step that replaces one segment, applied from the last segment to the first.\<close>

lemma reverse_splice:
  assumes step: "\<And>i n seg xs. i + n \<le> length xs \<Longrightarrow> f (i, n, seg) xs = Some (take i xs @ seg @ drop (i + n) xs)"
    and "ordered pos (length ls) rs"
  shows "fold (\<lambda>r m. Option.bind m (f r)) (rev rs) (Some ls) = Some (take pos ls @ splice pos rs (drop pos ls))"
  using assms(2)
proof (induction rs arbitrary: pos)
  case (Cons r rs)
  obtain i n seg where r: "r = (i, n, seg)" by (cases r)
  have o: "pos \<le> i" "ordered (i + n) (length ls) rs" using Cons.prems by (simp_all add: r)
  have len: "i + n \<le> length ls" by (rule ordered_bound[OF o(2)])
  let ?xs = "take (i + n) ls @ splice (i + n) rs (drop (i + n) ls)"
  have "fold (\<lambda>r m. Option.bind m (f r)) (rev (r # rs)) (Some ls) = f (i, n, seg) ?xs"
    using Cons.IH[OF o(2)] by (simp add: r)
  also have "\<dots> = Some (take i ?xs @ seg @ drop (i + n) ?xs)" using len by (intro step) simp
  also have "take i ?xs = take pos ls @ take (i - pos) (drop pos ls)"
    using len o(1) by (simp add: min_def take_add[symmetric])
  also have "drop (i + n) ?xs = splice (i + n) rs (drop (i + n - pos) (drop pos ls))"
    using len o(1) by simp
  finally show ?case by (simp add: r)
qed simp

lemma remove_lines_eq: "remove_lines n i ls = take i ls @ drop (i + n) ls"
  by (induction n i ls rule: remove_lines.induct) (auto simp: min_def add.commute)

lemma insert_lines_eq: "i \<le> length ls \<Longrightarrow> insert_lines i seg ls = Some (take i ls @ seg @ drop i ls)"
  by (induction i seg ls rule: insert_lines.induct) auto

lemma apply_replacement_eq:
  assumes "i \<le> length ls"
  shows "apply_replacement (i, n, seg) ls = Some (take i ls @ seg @ drop (i + n) ls)"
proof -
  have "insert_lines i seg (take i ls @ drop (i + n) ls) = Some (take i ls @ seg @ drop (i + n) ls)"
    using assms by (subst insert_lines_eq) auto
  then show ?thesis by (simp add: apply_replacement_def remove_lines_eq)
qed

lemma apply_replacements_eq:
  "ordered 0 (length ls) rs \<Longrightarrow> apply_replacements ls rs = Some (splice 0 rs ls)"
  using reverse_splice[of apply_replacement 0 ls rs] apply_replacement_eq by (simp add: apply_replacements_def)

text \<open>Even overlapping segments never make an insertion panic.\<close>

lemma apply_replacements_total:
  assumes "sorted (map fst rs)" "\<forall>r\<in>set rs. fst r \<le> length ls"
  shows "\<exists>ls'. apply_replacements ls rs = Some ls' \<and> (\<forall>k \<le> length ls. (\<forall>r\<in>set rs. k \<le> fst r) \<longrightarrow> k \<le> length ls')"
  using assms
proof (induction rs)
  case Nil
  then show ?case by (simp add: apply_replacements_def)
next
  case (Cons r rs)
  obtain i n seg where r: "r = (i, n, seg)" by (cases r)
  obtain xs where xs: "apply_replacements ls rs = Some xs" "\<forall>k \<le> length ls. (\<forall>r\<in>set rs. k \<le> fst r) \<longrightarrow> k \<le> length xs"
    using Cons by auto
  have i: "i \<le> length xs" using xs(2) Cons.prems by (auto simp: r)
  have "apply_replacements ls (r # rs) = apply_replacement r xs" using xs(1) by (simp add: apply_replacements_def)
  also have "\<dots> = Some (take i xs @ seg @ drop (i + n) xs)" unfolding r by (rule apply_replacement_eq[OF i])
  finally show ?case using i by (auto simp: r)
qed

section \<open>Codex-style patches\<close>

lemma strip_commute: "rev (dropWhile P (rev (dropWhile P xs))) = dropWhile P (rev (dropWhile P (rev xs)))"
proof (induction xs)
  case (Cons a xs)
  show ?case
  proof (cases "\<forall>x\<in>set xs. P x")
    case True
    then have "dropWhile P (rev xs) = []" "dropWhile P xs = []" by simp_all
    then show ?thesis using True by (cases "P a") (auto simp: dropWhile_append dest: set_dropWhileD)
  next
    case False
    then obtain x where x: "x \<in> set xs" "\<not> P x" by blast
    then have "dropWhile P (rev xs @ [a]) = dropWhile P (rev xs) @ [a]" by (intro dropWhile_append1) auto
    then show ?thesis using Cons by simp
  qed
qed simp

lemma trim_trim_end: "trim (trim_end s) = trim s"
  unfolding utf8_chars_inject[symmetric] by (simp add: utf8_chars_trim utf8_chars_trim_end strip_commute)

lemma lines_match_trim:
  "lines_match id ls pat i \<Longrightarrow> lines_match trim ls pat i"
  "lines_match trim_end ls pat i \<Longrightarrow> lines_match trim ls pat i"
proof -
  show "lines_match id ls pat i \<Longrightarrow> lines_match trim ls pat i" by (simp add: lines_match_def)
  show "lines_match trim_end ls pat i \<Longrightarrow> lines_match trim ls pat i"
    unfolding lines_match_def by (drule arg_cong[of _ _ "map trim"]) (simp add: trim_trim_end comp_def)
qed

lemma find_upt_Some: "find P [a..<b] = Some i \<longleftrightarrow> a \<le> i \<and> i < b \<and> P i \<and> (\<forall>j. a \<le> j \<and> j < i \<longrightarrow> \<not> P j)"
proof
  assume "find P [a..<b] = Some i"
  then obtain k where k: "k < b - a" "P (a + k)" "i = a + k" "\<forall>j < k. \<not> P (a + j)" by (auto simp: find_Some_iff)
  have "\<not> P j" if "a \<le> j" "j < i" for j using that k(3,4) by (metis add_diff_inverse_nat less_diff_conv2 add.commute not_le)
  then show "a \<le> i \<and> i < b \<and> P i \<and> (\<forall>j. a \<le> j \<and> j < i \<longrightarrow> \<not> P j)" using k by auto
next
  assume "a \<le> i \<and> i < b \<and> P i \<and> (\<forall>j. a \<le> j \<and> j < i \<longrightarrow> \<not> P j)"
  then show "find P [a..<b] = Some i" by (auto simp: find_Some_iff intro!: exI[of _ "i - a"])
qed

lemma find_upt_None: "find P [a..<b] = None \<longleftrightarrow> (\<forall>j. a \<le> j \<and> j < b \<longrightarrow> \<not> P j)"
  by (auto simp: find_None_iff)

lemma seek_sequence_bounds:
  assumes "seek_sequence ls pat start False = Some i" "start \<le> length ls"
  shows "start \<le> i" "i + length pat \<le> length ls" "lines_match trim ls pat i"
proof -
  have "start \<le> i \<and> i + length pat \<le> length ls \<and> lines_match trim ls pat i"
  proof (cases "pat = []")
    case True
    then show ?thesis using assms by (simp add: seek_sequence_def lines_match_def)
  next
    case False
    then show ?thesis using assms(1) lines_match_trim[of ls pat i]
      by (auto simp: seek_sequence_def Let_def find_upt_Some simp del: upt_Suc split: if_splits option.splits)
  qed
  then show "start \<le> i" "i + length pat \<le> length ls" "lines_match trim ls pat i" by auto
qed

text \<open>The pairs of old and new lines with which a chunk may be applied.\<close>

definition variants :: "update_chunk \<Rightarrow> (string list \<times> string list) set" where
  "variants c = {(old_lines c, new_lines c)} \<union>
     (if last_is_empty (old_lines c)
      then {(butlast (old_lines c), if last_is_empty (new_lines c) then butlast (new_lines c) else new_lines c)} else {})"

text \<open>
  What a list of chunks means: each replaces, after the previous one and after its context line, a
  segment that agrees with its old lines up to surrounding space.
\<close>

inductive patched :: "update_chunk list \<Rightarrow> string list \<Rightarrow> string list \<Rightarrow> bool" where
  none: "patched [] ls ls"
| one: "(pat, new) \<in> variants c \<Longrightarrow> map trim seg = map trim pat \<Longrightarrow>
    (\<forall>x. change_context c = Some x \<longrightarrow> (\<exists>l\<in>set pre. trim l = trim x)) \<Longrightarrow>
    patched cs rest rest' \<Longrightarrow> patched (c # cs) (pre @ seg @ rest) (pre @ new @ rest')"

lemma seek_old_lines_facts:
  assumes "seek_old_lines ls c start = Some (i, n, new)" "start \<le> length ls" "\<not> is_end_of_file c"
  obtains pat where "(pat, new) \<in> variants c" "n = length pat" "start \<le> i" "i + n \<le> length ls" "lines_match trim ls pat i"
proof (cases "seek_sequence ls (old_lines c) start False")
  case (Some j)
  then show thesis using that[of "old_lines c"] assms seek_sequence_bounds[OF Some]
    by (auto simp: seek_old_lines_def variants_def)
next
  case None
  then obtain j where j: "seek_sequence ls (butlast (old_lines c)) start False = Some j" "last_is_empty (old_lines c)"
    "i = j" "n = length (butlast (old_lines c))" "new = (if last_is_empty (new_lines c) then butlast (new_lines c) else new_lines c)"
    using assms by (auto simp: seek_old_lines_def Let_def split: if_splits)
  then show thesis using that[of "butlast (old_lines c)"] seek_sequence_bounds[OF j(1) assms(2)] by (simp add: variants_def)
qed

lemma replacement_loop_Cons:
  assumes "replacement_loop ls path start (c # cs) = Inr rs" "old_lines c \<noteq> []" "start \<le> length ls" "\<not> is_end_of_file c"
  obtains j i n new rs' pat where "rs = (i, n, new) # rs'" "start \<le> j" "j \<le> i" "i + n \<le> length ls" "n = length pat"
    "\<forall>x. change_context c = Some x \<longrightarrow> (\<exists>l\<in>set (take (j - start) (drop start ls)). trim l = trim x)"
    "(pat, new) \<in> variants c" "lines_match trim ls pat i" "replacement_loop ls path (i + n) cs = Inr rs'"
proof -
  let ?ctx = "case change_context c of None \<Rightarrow> Some start | Some x \<Rightarrow> map_option Suc (seek_sequence ls [x] start False)"
  obtain j where j: "?ctx = Some j" using assms(1) by (auto split: option.splits)
  have jb: "start \<le> j \<and> j \<le> length ls \<and>
    (\<forall>x. change_context c = Some x \<longrightarrow> (\<exists>l\<in>set (take (j - start) (drop start ls)). trim l = trim x))"
  proof (cases "change_context c")
    case None
    then show ?thesis using j assms(3) by simp
  next
    case (Some x)
    then obtain k where k: "seek_sequence ls [x] start False = Some k" "j = Suc k" using j by auto
    note b = seek_sequence_bounds[OF k(1) assms(3)]
    have "trim (ls ! k) = trim x" using b(2,3) by (simp add: lines_match_def take_Suc_conv_app_nth take_Suc hd_drop_conv_nth)
    moreover have "ls ! k \<in> set (take (j - start) (drop start ls))"
      unfolding in_set_conv_nth using b(1,2) k(2) by (intro exI[of _ "k - start"]) simp
    ultimately show ?thesis using b k(2) Some by auto
  qed
  have "\<exists>i n new rs'. seek_old_lines ls c j = Some (i, n, new) \<and> replacement_loop ls path (i + n) cs = Inr rs' \<and> rs = (i, n, new) # rs'"
  proof (cases "seek_old_lines ls c j")
    case None
    then show ?thesis using assms(1,2) j by simp
  next
    case (Some r)
    obtain i n new where r: "r = (i, n, new)" by (cases r)
    show ?thesis
    proof (cases "replacement_loop ls path (i + n) cs")
      case (Inl e)
      then show ?thesis using assms(1,2) j Some r by simp
    next
      case (Inr rs')
      then show ?thesis using assms(1,2) j Some r by simp
    qed
  qed
  then obtain i n new rs' where s: "seek_old_lines ls c j = Some (i, n, new)"
    "replacement_loop ls path (i + n) cs = Inr rs'" "rs = (i, n, new) # rs'" by blast
  obtain pat where "(pat, new) \<in> variants c" "n = length pat" "j \<le> i" "i + n \<le> length ls" "lines_match trim ls pat i"
    using seek_old_lines_facts[OF s(1) _ assms(4)] jb by blast
  then show thesis using that s jb by blast
qed

lemma replacement_loop_patched:
  assumes "replacement_loop ls path start chunks = Inr rs" "start \<le> length ls"
    "\<forall>c\<in>set chunks. old_lines c \<noteq> [] \<and> \<not> is_end_of_file c"
  shows "ordered start (length ls) rs \<and> patched chunks (drop start ls) (splice start rs (drop start ls))"
  using assms
proof (induction chunks arbitrary: start rs)
  case Nil
  then show ?case by (simp add: patched.none)
next
  case (Cons c cs)
  obtain j i n new rs' pat where r: "rs = (i, n, new) # rs'" "start \<le> j" "j \<le> i" "i + n \<le> length ls" "n = length pat"
    and ctx: "\<forall>x. change_context c = Some x \<longrightarrow> (\<exists>l\<in>set (take (j - start) (drop start ls)). trim l = trim x)"
    and pat: "(pat, new) \<in> variants c" "lines_match trim ls pat i" "replacement_loop ls path (i + n) cs = Inr rs'"
    using Cons.prems by (elim replacement_loop_Cons) auto
  have IH: "ordered (i + n) (length ls) rs'" "patched cs (drop (i + n) ls) (splice (i + n) rs' (drop (i + n) ls))"
    using Cons.IH[OF pat(3) r(4)] Cons.prems(3) by auto
  let ?pre = "take (i - start) (drop start ls)" and ?seg = "take n (drop i ls)"
  have "set (take (j - start) (drop start ls)) \<subseteq> set ?pre" using r(3) by (intro set_take_subset_set_take) simp
  then have ctx': "\<forall>x. change_context c = Some x \<longrightarrow> (\<exists>l\<in>set ?pre. trim l = trim x)" using ctx by blast
  have split: "drop start ls = ?pre @ ?seg @ drop (i + n) ls"
  proof -
    have "drop start ls = ?pre @ drop i ls" using append_take_drop_id[of "i - start" "drop start ls"] r(2,3) by simp
    moreover have "drop i ls = ?seg @ drop (i + n) ls" using append_take_drop_id[of n "drop i ls"] by (simp add: add.commute)
    ultimately show ?thesis by simp
  qed
  have "map trim ?seg = map trim pat" using pat(2) r(5) by (simp add: lines_match_def)
  then have "patched (c # cs) (?pre @ ?seg @ drop (i + n) ls) (?pre @ new @ splice (i + n) rs' (drop (i + n) ls))"
    by (rule patched.one[OF pat(1) _ ctx' IH(2)])
  moreover have "splice start rs (drop start ls) = ?pre @ new @ splice (i + n) rs' (drop (i + n) ls)"
    using r(2,3) by (simp add: r(1))
  ultimately show ?case using split IH(1) r by simp
qed

lemma seek_sequence_le:
  assumes "seek_sequence ls pat start eof = Some i" "start \<le> length ls"
  shows "i + length pat \<le> length ls"
  using assms by (auto simp: seek_sequence_def Let_def find_upt_Some simp del: upt_Suc split: if_splits option.splits)

lemma seek_old_lines_le:
  assumes "seek_old_lines ls c start = Some (i, n, new)" "start \<le> length ls"
  shows "i + n \<le> length ls"
  using assms seek_sequence_le by (auto simp: seek_old_lines_def Let_def split: option.splits if_splits dest: seek_sequence_le)

lemma replacement_loop_le:
  assumes "replacement_loop ls path start chunks = Inr rs" "start \<le> length ls"
  shows "\<forall>r\<in>set rs. fst r \<le> length ls"
  using assms
proof (induction chunks arbitrary: start rs)
  case (Cons c cs)
  let ?ctx = "case change_context c of None \<Rightarrow> Some start | Some x \<Rightarrow> map_option Suc (seek_sequence ls [x] start False)"
  obtain j where j: "?ctx = Some j" using Cons.prems(1) by (auto split: option.splits)
  have jb: "j \<le> length ls"
    using j Cons.prems(2) seek_sequence_le[of ls "[the (change_context c)]" start False "j - 1"]
    by (auto split: option.splits)
  show ?case
  proof (cases "old_lines c = []")
    case True
    then obtain rs' where "replacement_loop ls path j cs = Inr rs'"
      "rs = (if last_is_empty ls then length ls - 1 else length ls, 0, new_lines c) # rs'"
      using Cons.prems(1) j by (cases "replacement_loop ls path j cs") (auto simp: Let_def)
    then show ?thesis using Cons.IH jb by auto
  next
    case False
    show ?thesis
    proof (cases "seek_old_lines ls c j")
      case None
      then show ?thesis using Cons.prems(1) j False by simp
    next
      case (Some r)
      obtain i n new where r: "r = (i, n, new)" by (cases r)
      have le: "i + n \<le> length ls" using seek_old_lines_le Some jb by (simp add: r)
      obtain rs' where "replacement_loop ls path (i + n) cs = Inr rs'" "rs = (i, n, new) # rs'"
        using Cons.prems(1) j False Some r by (cases "replacement_loop ls path (i + n) cs") auto
      then show ?thesis using Cons.IH le by auto
    qed
  qed
qed simp


text \<open>
  A chunk without context whose old lines occur in the file replaces exactly their first
  occurrence by its new lines.
\<close>

theorem apply_update_exact_chunk:
  assumes "files w path = Some (Text s)" "file_lines s = pre @ old_lines c @ post"
    and "old_lines c \<noteq> []" "\<not> is_end_of_file c" "change_context c = None"
    and "\<forall>j < length pre. \<not> lines_match id (file_lines s) (old_lines c) j"
  shows "apply_update_chunks w path [c] = Ok (s, lines_file (pre @ new_lines c @ post))"
proof -
  let ?ls = "file_lines s"
  have "find (lines_match id ?ls (old_lines c)) [0..<Suc (length ?ls - length (old_lines c))] = Some (length pre)"
    unfolding find_upt_Some using assms(2,6) by (auto simp: lines_match_def)
  then have seek: "seek_sequence ?ls (old_lines c) 0 False = Some (length pre)"
    using assms(2,3) by (simp add: seek_sequence_def del: upt_Suc)
  have "compute_replacements ?ls path [c] = Inr [(length pre, length (old_lines c), new_lines c)]"
    using assms(3-5) seek by (simp add: compute_replacements_def seek_old_lines_def)
  moreover have "apply_replacements ?ls [(length pre, length (old_lines c), new_lines c)] = Some (pre @ new_lines c @ post)"
    using assms(2) by (subst apply_replacements_eq) auto
  ultimately show ?thesis using assms(1) by (simp add: apply_update_chunks_def read_to_string_def)
qed

lemma text_of_publish_file_touch [simp]: "text_of (publish_file_touch ctx p verb diff w) = text_of w"
  by (simp add: publish_file_touch_def)

text \<open>
  An update that moves its file writes the new text to the destination and removes the source.
  When the destination resolves to the source itself the file is therefore lost: afterwards no text
  is at that path, although the hunk is reported as done.
\<close>

theorem move_hunk_effect:
  assumes "apply_update_chunks (ps_world st) (resolve_path ctx path) chunks = Ok (old, new)"
    and "create_parent (resolve_path ctx dest) (ps_world st) = None"
    and "\<not> denied (ps_world st) (resolve_path ctx dest)" "\<not> denied (ps_world st) (resolve_path ctx path)"
  shows "\<exists>st' w'. execute_hunk d ctx (UpdateFile path (Some dest) chunks) st = (Ok st', w') \<and>
    ps_touched st' = ps_touched st @ [path, dest] \<and>
    (\<forall>q. text_of w' q =
      (if q = resolve_path ctx path then None
       else if q = resolve_path ctx dest then Some new else text_of (ps_world st) q))"
proof -
  let ?w = "ps_world st" and ?s = "resolve_path ctx path" and ?d = "resolve_path ctx dest"
  obtain w1 where w1: "fs_write ?d new ?w = Inr w1" using assms(3) by (simp add: fs_write_def)
  have "files ?w ?s \<noteq> None"
    using assms(1) by (auto simp: apply_update_chunks_def read_to_string_def split: option.splits)
  then have "\<not> denied w1 ?s" "path_exists w1 ?s"
    using w1 assms(3,4) by (auto simp: fs_write_def path_exists_def)
  then obtain w2 where w2: "remove_file ?s w1 = Inr w2" by (simp add: remove_file_def)
  show ?thesis using fsys.get_move[OF w1 w2] by (simp add: assms(1,2) w1 w2 Let_def note_result_def)
qed

definition demo_chunk :: update_chunk where
  "demo_chunk = \<lparr>change_context = None, old_lines = [''aaa''], new_lines = [''b''], is_end_of_file = False\<rparr>"

definition demo_state :: patch_state where
  "demo_state = \<lparr>ps_world = demo_world, ps_results = [], ps_touched = []\<rparr>"

lemma demo_g: "resolve_path demo_ctx ''g'' = ''/g''" "resolve_path demo_ctx ''/g'' = ''/g''"
  by (simp_all add: resolve_path_def demo_ctx_def is_absolute_def starts_with_def path_join_def)

theorem apply_update_exact_chunk_witness:
  "apply_update_chunks demo_world ''/g'' [demo_chunk] = Ok (''aaa'', ''b'' @ nl)"
  using apply_update_exact_chunk[of demo_world "''/g''" "''aaa''" "[]" demo_chunk "[]"]
  by (simp add: demo_world_def demo_chunk_def file_lines_def last_is_empty_def lines_file_def)


theorem move_hunk_effect_witness:
  "\<exists>st' w'. execute_hunk (\<lambda>_ _. []) demo_ctx (UpdateFile ''g'' (Some ''/g'') [demo_chunk]) demo_state = (Ok st', w') \<and>
     text_of demo_world ''/g'' = Some ''aaa'' \<and> text_of w' ''/g'' = None"
proof -
  have "apply_update_chunks (ps_world demo_state) (resolve_path demo_ctx ''g'') [demo_chunk] = Ok (''aaa'', ''b'' @ nl)"
    by (simp add: apply_update_chunks_def read_to_string_def demo_world_def demo_state_def demo_chunk_def demo_g file_lines_def last_is_empty_def
      compute_replacements_def seek_old_lines_def seek_sequence_def lines_match_def apply_replacements_def
      apply_replacement_def lines_file_def)
  moreover have "create_parent (resolve_path demo_ctx ''/g'') (ps_world demo_state) = None"
    by (simp add: create_parent_def demo_g parent_path_def create_dir_all_def demo_state_def demo_world_def)
  moreover have "\<not> denied (ps_world demo_state) p" for p by (simp add: demo_state_def demo_world_def)
  ultimately show ?thesis
    using move_hunk_effect[of demo_state demo_ctx "''g''" "[demo_chunk]" "''aaa''" "''b'' @ nl" "''/g''" "\<lambda>_ _. []"]
    by (auto simp: demo_g text_of_def demo_world_def)
qed

section \<open>Parsing what was printed\<close>

text \<open>A patch text for a list of hunks: every chunk as its old lines followed by its new ones.\<close>

definition render_chunk :: "update_chunk \<Rightarrow> string list" where
  "render_chunk c =
     (case change_context c of None \<Rightarrow> ''@@'' | Some x \<Rightarrow> ''@@ '' @ x) #
     map (\<lambda>l. ''-'' @ l) (old_lines c) @ map (\<lambda>l. ''+'' @ l) (new_lines c) @
     (if is_end_of_file c then [''*** End of File''] else [])"

fun render_hunk :: "patch_hunk \<Rightarrow> string list" where
  "render_hunk (AddFile p contents) = (''*** Add File: '' @ p) # map (\<lambda>l. ''+'' @ l) (butlast (split_char newline contents))"
| "render_hunk (DeleteFile p) = [''*** Delete File: '' @ p]"
| "render_hunk (UpdateFile p mv chunks) =
     (''*** Update File: '' @ p) # (case mv of None \<Rightarrow> [] | Some d \<Rightarrow> [''*** Move to: '' @ d]) @ concat (map render_chunk chunks)"

definition render_patch :: "patch_hunk list \<Rightarrow> string" where
  "render_patch hs = join nl (''*** Begin Patch'' # concat (map render_hunk hs) @ [''*** End Patch''])"

text \<open>Text of a single line that survives: no line break, no final carriage return.\<close>

definition ok_line :: "string \<Rightarrow> bool" where
  "ok_line l \<longleftrightarrow> newline \<notin> set l \<and> (l \<noteq> [] \<longrightarrow> last l \<noteq> CHR 0x0D)"

text \<open>The rest of a directive: valid UTF-8 that is not empty and has no space to strip.\<close>

definition ok_tail :: "string \<Rightarrow> bool" where
  "ok_tail p \<longleftrightarrow> p \<noteq> [] \<and> newline \<notin> set p \<and> \<not> utf8_cont (hd p) \<and> trim_end p = p"

definition ok_name :: "string \<Rightarrow> bool" where
  "ok_name p \<longleftrightarrow> ok_tail p \<and> trim_start p = p"

definition ok_chunk :: "update_chunk \<Rightarrow> bool" where
  "ok_chunk c \<longleftrightarrow> (\<forall>l\<in>set (old_lines c) \<union> set (new_lines c). ok_line l) \<and>
     (case change_context c of None \<Rightarrow> old_lines c \<noteq> [] \<or> new_lines c \<noteq> [] | Some x \<Rightarrow> ok_tail x)"

fun ok_hunk :: "patch_hunk \<Rightarrow> bool" where
  "ok_hunk (AddFile p contents) \<longleftrightarrow> ok_name p \<and> last (split_char newline contents) = [] \<and>
     (\<forall>l\<in>set (split_char newline contents). ok_line l)"
| "ok_hunk (DeleteFile p) \<longleftrightarrow> ok_name p"
| "ok_hunk (UpdateFile p mv chunks) \<longleftrightarrow> ok_name p \<and> (\<forall>d. mv = Some d \<longrightarrow> ok_name d) \<and>
     chunks \<noteq> [] \<and> (\<forall>c\<in>set chunks. ok_chunk c)"

lemma trim_end_tail:
  assumes "ok_tail p"
  shows "trim_end (a @ p) = a @ p"
proof -
  have p: "p \<noteq> []" "\<not> utf8_cont (hd p)" "trim_end p = p" using assms by (simp_all add: ok_tail_def)
  have "utf8_chars p = rev (dropWhile is_whitespace (rev (utf8_chars p)))"
    using utf8_chars_trim_end[of p] p(3) by simp
  then have "\<not> is_whitespace (last (utf8_chars p))"
    using p(1) by (metis hd_dropWhile hd_rev rev_is_Nil_conv rev_rev_ident utf8_chars_eq_Nil)
  then have "dropWhile is_whitespace (rev (utf8_chars a @ utf8_chars p)) = rev (utf8_chars a @ utf8_chars p)"
    using p(1) by (cases "utf8_chars p" rule: rev_cases) auto
  then show ?thesis unfolding utf8_chars_inject[symmetric] utf8_chars_trim_end
    using utf8_chars_append[of p a] p(1,2) by simp
qed

lemma trim_tail:
  assumes "ok_tail p" "a = CHR ''*'' # b"
  shows "trim (a @ p) = a @ p"
proof -
  have "utf8_chars (a @ p) = utf8_chars a @ utf8_chars p"
    using utf8_chars_append[of p a] assms(1) by (simp add: ok_tail_def)
  moreover have "\<not> is_whitespace (CHR ''*'' # takeWhile utf8_cont b)"
    by (simp add: is_whitespace_def whitespace_chars_def)
  ultimately have "trim_start (a @ p) = a @ p"
    unfolding utf8_chars_inject[symmetric] utf8_chars_trim_start by (simp add: assms(2))
  then show ?thesis using trim_end_tail[OF assms(1)] by (simp add: trim_def)
qed

lemma ok_name_facts: "ok_name p \<Longrightarrow> ok_tail p" "ok_name p \<Longrightarrow> trim p = p"
  by (auto simp: ok_name_def trim_def ok_tail_def)

lemma strip_prefix_append [simp]: "strip_prefix a (a @ p) = Some p"
  by (simp add: strip_prefix_def)

text \<open>Where a directive starts, both inner loops of the parser stop.\<close>

definition directive :: "string list \<Rightarrow> bool" where
  "directive ls \<longleftrightarrow> (\<exists>l rest. ls = l # rest \<and> trim_end l = l \<and> starts_with ''*** '' l \<and> l \<noteq> ''*** End of File'')"

lemma add_body_render:
  assumes "directive rest"
  shows "add_body (map (\<lambda>l. ''+'' @ l) ls @ rest) = (concat (map (\<lambda>l. l @ nl) ls), rest)"
proof (induction ls)
  case Nil
  then show ?case using assms by (auto simp: directive_def)
qed (simp add: starts_with_def strip_prefix_def)

lemma body_old:
  "parse_chunk_body (map (\<lambda>l. ''-'' @ l) ls @ rest) b =
     parse_chunk_body rest (b\<lparr>cb_old := cb_old b @ ls, cb_had := cb_had b \<or> ls \<noteq> []\<rparr>)"
  by (induction ls arbitrary: b) (simp_all add: starts_with_def strip_prefix_def)

lemma body_new:
  "parse_chunk_body (map (\<lambda>l. ''+'' @ l) ls @ rest) b =
     parse_chunk_body rest (b\<lparr>cb_new := cb_new b @ ls, cb_had := cb_had b \<or> ls \<noteq> []\<rparr>)"
  by (induction ls arbitrary: b) (simp_all add: starts_with_def strip_prefix_def)

text \<open>After a chunk comes another one or a directive.\<close>

definition chunk_end :: "string list \<Rightarrow> bool" where
  "chunk_end ls \<longleftrightarrow> directive ls \<or> (\<exists>l rest. ls = l # rest \<and> starts_with ''@@'' l)"

lemma body_stop: "chunk_end rest \<Longrightarrow> parse_chunk_body rest b = (b, rest)"
  by (auto simp: chunk_end_def directive_def starts_with_def)

lemma chunk_body_render:
  assumes "chunk_end rest"
  shows "parse_chunk_body (map (\<lambda>l. ''-'' @ l) old @ map (\<lambda>l. ''+'' @ l) new @
      (if eof then [''*** End of File''] else []) @ rest) empty_body =
    (\<lparr>cb_old = old, cb_new = new, cb_eof = eof, cb_had = (old \<noteq> [] \<or> new \<noteq> [])\<rparr>, rest)"
  unfolding body_old body_new using body_stop[OF assms] by (cases eof) (simp_all add: empty_body_def)

lemma ascii_trim_end: "trim_end ''@@'' = ''@@''" "trim_end ''*** End Patch'' = ''*** End Patch''" "trim ''*** End Patch'' = ''*** End Patch''"
  "trim ''*** Begin Patch'' = ''*** Begin Patch''"
  by (simp_all add: trim_end_def trim_def trim_start_def is_whitespace_def whitespace_chars_def utf8_cont_def)

lemma chunk_end_render:
  "directive rest \<Longrightarrow> chunk_end (concat (map render_chunk cs) @ rest)"
  by (cases cs) (auto simp: chunk_end_def render_chunk_def starts_with_def split: option.splits)

lemma chunk_header_render:
  assumes "ok_chunk c"
  shows "chunk_header first (render_chunk c @ rest) = Some (change_context c, tl (render_chunk c) @ rest)"
    "trim_end (hd (render_chunk c)) = hd (render_chunk c)"
proof -
  show te: "trim_end (hd (render_chunk c)) = hd (render_chunk c)"
    using assms trim_end_tail[of _ "''@@ ''"] by (auto simp: render_chunk_def ok_chunk_def ascii_trim_end split: option.splits)
  show "chunk_header first (render_chunk c @ rest) = Some (change_context c, tl (render_chunk c) @ rest)"
    using te by (cases "change_context c") (auto simp: chunk_header_def render_chunk_def strip_prefix_def Let_def)
qed

lemma parse_chunks_render:
  assumes "\<forall>c\<in>set cs. ok_chunk c" "directive rest"
  shows "parse_chunks first (concat (map render_chunk cs) @ rest) = (cs, rest)"
  using assms(1)
proof (induction cs arbitrary: first)
  case Nil
  then show ?case using assms(2) by (auto simp: directive_def Let_def)
next
  case (Cons c cs)
  let ?rest = "concat (map render_chunk cs) @ rest"
  have ok: "ok_chunk c" using Cons.prems by simp
  note hdr = chunk_header_render[OF ok]
  obtain l ls where l: "render_chunk c = l # ls" by (simp add: render_chunk_def)
  have hd: "starts_with ''@@'' l" using l by (auto simp: render_chunk_def starts_with_def split: option.splits)
  have start: "\<not> starts_with ''*** '' l" "trim l \<noteq> []"
    using hd by (cases l; auto simp: starts_with_def trim_empty_iff is_whitespace_def whitespace_chars_def)+
  have ls: "ls = map (\<lambda>l. ''-'' @ l) (old_lines c) @ map (\<lambda>l. ''+'' @ l) (new_lines c) @
      (if is_end_of_file c then [''*** End of File''] else [])" using l by (simp add: render_chunk_def)
  have body: "parse_chunk_body (ls @ ?rest) empty_body = (\<lparr>cb_old = old_lines c, cb_new = new_lines c,
      cb_eof = is_end_of_file c, cb_had = (old_lines c \<noteq> [] \<or> new_lines c \<noteq> [])\<rparr>, ?rest)"
    using chunk_body_render[OF chunk_end_render[OF assms(2)]] by (simp add: ls)
  have "chunk_of (change_context c) (fst (parse_chunk_body (ls @ ?rest) empty_body)) = [c]"
    using ok by (auto simp: body chunk_of_def ok_chunk_def split: option.splits)
  then show ?case using hdr(1)[of first ?rest] hdr(2) start Cons.IH[of False] Cons.prems
    by (simp add: l body Let_def)
qed

lemma directive_name: "ok_name p \<Longrightarrow> directive ((''*** '' @ a @ p) # ls)" if "a \<noteq> [] \<and> hd a \<noteq> CHR ''E''"
  using that trim_end_tail[of p "''*** '' @ a"] ok_name_facts(1)
  by (cases a) (auto simp: directive_def starts_with_def)

lemma directive_render:
  assumes "\<forall>h\<in>set hs. ok_hunk h"
  shows "directive (concat (map render_hunk hs) @ [''*** End Patch''])"
proof (cases hs)
  case Nil
  then show ?thesis by (simp add: directive_def ascii_trim_end starts_with_def)
next
  case (Cons h hs')
  then have "ok_hunk h" using assms by simp
  then show ?thesis
    using directive_name[of "''Add File: ''"] directive_name[of "''Delete File: ''"] directive_name[of "''Update File: ''"]
    by (cases h) (auto simp: Cons)
qed

lemma prefix_trim_end: "prefix (trim_end s) s"
proof -
  have "utf8_chars s = rev (dropWhile is_whitespace (rev (utf8_chars s))) @ rev (takeWhile is_whitespace (rev (utf8_chars s)))"
    by (metis rev_append rev_rev_ident takeWhile_dropWhile_id)
  then have "s = trim_end s @ concat (rev (takeWhile is_whitespace (rev (utf8_chars s))))"
    unfolding trim_end_def by (metis concat_append concat_utf8_chars)
  then show ?thesis by (metis prefixI)
qed

lemma parse_move_render:
  assumes "\<forall>d. mv = Some d \<longrightarrow> ok_name d" "starts_with ''@@'' (hd ls)" "ls \<noteq> []"
  shows "parse_move ((case mv of None \<Rightarrow> [] | Some d \<Rightarrow> [''*** Move to: '' @ d]) @ ls) = (mv, ls)"
proof (cases mv)
  case None
  obtain l rest where l: "ls = l # rest" "starts_with ''@@'' l" using assms(2,3) by (cases ls) auto
  have "strip_prefix ''*** Move to: '' (trim_end l) = None"
    using l(2) prefix_order.trans[OF _ prefix_trim_end, of "''*** Move to: ''" l]
    by (cases l) (auto simp: strip_prefix_def starts_with_def)
  then show ?thesis by (simp add: None parse_move_def l(1))
next
  case (Some d)
  then show ?thesis using assms(1) trim_end_tail[of d "''*** Move to: ''"] ok_name_facts[of d]
      strip_prefix_append[of "''*** Move to: ''" d] by (simp add: parse_move_def)
qed

lemma join_snoc_empty: "join sep (xs @ [[]]) = concat (map (\<lambda>x. x @ sep) xs)"
  by (induction xs) (auto simp: join_Cons)

lemma concat_lines: "last (split_char newline s) = [] \<Longrightarrow> concat (map (\<lambda>l. l @ nl) (butlast (split_char newline s))) = s"
  using join_snoc_empty[of nl "butlast (split_char newline s)"] join_split_char[of newline s]
    append_butlast_last_id[OF split_char_nonempty[of newline s]] by (simp add: nl_def)

lemma parse_hunks_render:
  assumes "\<forall>h\<in>set hs. ok_hunk h"
  shows "parse_hunks (concat (map render_hunk hs) @ [''*** End Patch'']) = Inr hs"
  using assms
proof (induction hs)
  case Nil
  then show ?case by (simp add: ascii_trim_end)
next
  case (Cons h hs)
  let ?rest = "concat (map render_hunk hs) @ [''*** End Patch'']"
  have dir: "directive ?rest" by (rule directive_render) (use Cons.prems in simp)
  have IH: "parse_hunks ?rest = Inr hs" using Cons by simp
  show ?case
  proof (cases h)
    case (AddFile p contents)
    then have ok: "ok_name p" "last (split_char newline contents) = []" using Cons.prems by simp_all
    note te = trim_end_tail[OF ok_name_facts(1)[OF ok(1)], of "''*** Add File: ''"]
      trim_tail[OF ok_name_facts(1)[OF ok(1)], of "''*** Add File: ''" "''** Add File: ''"]
    have body: "add_body (map (\<lambda>l. ''+'' @ l) (butlast (split_char newline contents)) @ ?rest) = (contents, ?rest)"
      using add_body_render[OF dir, of "butlast (split_char newline contents)"] concat_lines[OF ok(2)] by simp
    have plus: "(@) ''+'' = (#) CHR ''+''" by (rule ext) simp
    show ?thesis using te body IH ok_name_facts(2)[OF ok(1)] by (simp add: AddFile strip_prefix_def Let_def plus)
  next
    case (DeleteFile p)
    then have ok: "ok_name p" using Cons.prems by simp
    note te = trim_end_tail[OF ok_name_facts(1)[OF ok], of "''*** Delete File: ''"]
      trim_tail[OF ok_name_facts(1)[OF ok], of "''*** Delete File: ''" "''** Delete File: ''"]
    show ?thesis using te IH ok_name_facts(2)[OF ok] by (simp add: DeleteFile strip_prefix_def Let_def)
  next
    case (UpdateFile p mv chunks)
    then have ok: "ok_name p" "\<forall>d. mv = Some d \<longrightarrow> ok_name d" "chunks \<noteq> []" "\<forall>c\<in>set chunks. ok_chunk c"
      using Cons.prems by simp_all
    note te = trim_end_tail[OF ok_name_facts(1)[OF ok(1)], of "''*** Update File: ''"]
      trim_tail[OF ok_name_facts(1)[OF ok(1)], of "''*** Update File: ''" "''** Update File: ''"]
    let ?chunks = "concat (map render_chunk chunks) @ ?rest"
    have "starts_with ''@@'' (hd ?chunks)" "?chunks \<noteq> []"
      using ok(3) by (cases chunks; auto simp: render_chunk_def starts_with_def split: option.splits)+
    note mv = parse_move_render[OF ok(2) this]
    show ?thesis using te mv parse_chunks_render[OF ok(4) dir, of True] IH ok_name_facts(2)[OF ok(1)] ok(3)
      by (simp add: UpdateFile strip_prefix_def Let_def)
  qed
qed

lemma lines_join:
  assumes "\<forall>l\<in>set ls. ok_line l" "ls \<noteq> []" "last ls \<noteq> []"
  shows "lines (join nl ls) = ls"
proof -
  have split: "split_char newline (join nl ls) = ls"
    unfolding nl_def using assms(1,2) by (intro split_char_join) (auto simp: ok_line_def)
  have "map strip_cr (butlast ls) = butlast ls"
    using assms(1) by (intro map_idI) (auto simp: ok_line_def strip_cr_def dest: in_set_butlastD)
  then show ?thesis using assms(2,3) by (simp add: lines_def split)
qed

lemma cr_is_whitespace:
  assumes "ok_tail p"
  shows "last p \<noteq> CHR 0x0D"
proof
  assume "last p = CHR 0x0D"
  then obtain q where p: "p = q @ [CHR 0x0D]"
    using assms by (metis append_butlast_last_id ok_tail_def)
  have "utf8_chars p = utf8_chars q @ [[CHR 0x0D]]"
    unfolding p using utf8_chars_append[of "[CHR 0x0D]" q] by (simp add: utf8_cont_def)
  moreover have "is_whitespace [CHR 0x0D]" by (simp add: is_whitespace_def whitespace_chars_def)
  ultimately have "utf8_chars (trim_end p) = rev (dropWhile is_whitespace (rev (utf8_chars q)))"
    by (simp add: utf8_chars_trim_end)
  then have "length (utf8_chars (trim_end p)) \<le> length (utf8_chars q)" by (simp add: length_dropWhile_le[of is_whitespace "rev (utf8_chars q)", simplified])
  then show False using assms \<open>utf8_chars p = utf8_chars q @ [[CHR 0x0D]]\<close> by (simp add: ok_tail_def)
qed

lemma ok_line_prefix: "ok_line l \<Longrightarrow> newline \<notin> set a \<Longrightarrow> (a \<noteq> [] \<longrightarrow> last a \<noteq> CHR 0x0D) \<Longrightarrow> ok_line (a @ l)"
  by (auto simp: ok_line_def last_append)

lemma ok_line_tail: "ok_tail p \<Longrightarrow> ok_line p"
  using cr_is_whitespace by (auto simp: ok_line_def ok_tail_def)

lemma ok_line_render_chunk: "ok_chunk c \<Longrightarrow> l \<in> set (render_chunk c) \<Longrightarrow> ok_line l"
  using ok_line_tail ok_line_prefix[of _ "''@@ ''"] ok_line_prefix[of _ "''-''"] ok_line_prefix[of _ "''+''"]
  by (auto simp: render_chunk_def ok_chunk_def ok_line_def split: option.splits if_splits)

lemma ok_line_directive: "ok_name p \<Longrightarrow> newline \<notin> set a \<Longrightarrow> ok_line (a @ p)"
  using cr_is_whitespace[of p] by (auto simp: ok_line_def ok_name_def ok_tail_def)

lemma ok_line_render_hunk:
  assumes "ok_hunk h" "l \<in> set (render_hunk h)"
  shows "ok_line l"
proof (cases h)
  case (AddFile p contents)
  then show ?thesis
    using assms ok_line_directive[of p "''*** Add File: ''"] ok_line_prefix[of _ "''+''"] by (auto dest!: in_set_butlastD)
next
  case (DeleteFile p)
  then show ?thesis using assms ok_line_directive[of p "''*** Delete File: ''"] by simp
next
  case (UpdateFile p mv chunks)
  then show ?thesis
    using assms ok_line_directive[of p "''*** Update File: ''"] ok_line_directive[of "the mv" "''*** Move to: ''"] ok_line_render_chunk
    by (auto split: option.splits)
qed

text \<open>
  C21: Printing a list of well-formed hunks in the patch format and parsing the text yields the same
  hunks: added files with their contents, deletions, and updates with their destination, context
  lines, old and new lines and end-of-file marks.
\<close>

theorem parse_apply_patch_round_trip:
  assumes "hs \<noteq> []" "\<forall>h\<in>set hs. ok_hunk h"
  shows "parse_apply_patch (render_patch hs) = Inr hs"
proof -
  let ?ls = "''*** Begin Patch'' # concat (map render_hunk hs) @ [''*** End Patch'']"
  have "\<forall>l\<in>set ?ls. ok_line l" using assms(2) ok_line_render_hunk by (auto simp: ok_line_def)
  then have "lines (render_patch hs) = ?ls" unfolding render_patch_def by (intro lines_join) auto
  then show ?thesis using parse_hunks_render[OF assms(2)] assms(1)
    by (cases hs) (simp_all add: parse_apply_patch_def ascii_trim_end)
qed

theorem parse_apply_patch_round_trip_witness:
  "parse_apply_patch (render_patch [DeleteFile ''a'', UpdateFile ''f'' (Some ''g'') [demo_chunk]]) =
     Inr [DeleteFile ''a'', UpdateFile ''f'' (Some ''g'') [demo_chunk]]"
proof -
  have name: "ok_name ''a''" "ok_name ''f''" "ok_name ''g''"
    by (simp_all add: ok_name_def ok_tail_def trim_end_def trim_start_def utf8_cont_def is_whitespace_def whitespace_chars_def)
  have "ok_chunk demo_chunk" by (simp add: ok_chunk_def demo_chunk_def ok_line_def)
  then have "\<forall>h\<in>set [DeleteFile ''a'', UpdateFile ''f'' (Some ''g'') [demo_chunk]]. ok_hunk h" using name by simp
  then show ?thesis by (rule parse_apply_patch_round_trip[rotated]) simp
qed

end
