(* ===== verification/Unified_Patch.thy ===== *)
theory Unified_Patch
  imports Patch_Tools
begin

text \<open>
  The \<^verbatim>\<open>patch\<close> tool for unified diffs (\<^verbatim>\<open>src/src/tool/patch.rs\<close>). Hunks are applied by line number,
  from the last to the first, without comparing the lines they remove with those of the file. As in
  \<^verbatim>\<open>Patch_Tools\<close> the parser is a function of the lines that are left; a \<^verbatim>\<open>usize\<close> has 64 bits.
\<close>

section \<open>Definitions\<close>

subsection \<open>The parser\<close>

record hunk =
  hk_old_start :: nat
  hk_old_lines :: "string list"
  hk_new_lines :: "string list"

record file_patch =
  fp_path :: string
  fp_hunks :: "hunk list"
  fp_is_new :: bool
  fp_is_delete :: bool

fun hunk_body :: "string list \<Rightarrow> hunk \<Rightarrow> hunk \<times> string list" where
  "hunk_body [] h = (h, [])"
| "hunk_body (line # ls) h =
     (if starts_with ''@@'' line \<or> starts_with ''---'' line then (h, line # ls)
      else hunk_body ls
        (case strip_prefix ''-'' line of
           Some content \<Rightarrow> h\<lparr>hk_old_lines := hk_old_lines h @ [content]\<rparr>
         | None \<Rightarrow>
           (case strip_prefix ''+'' line of
              Some content \<Rightarrow> h\<lparr>hk_new_lines := hk_new_lines h @ [content]\<rparr>
            | None \<Rightarrow>
              (case strip_prefix '' '' line of
                 Some content \<Rightarrow> h\<lparr>hk_old_lines := hk_old_lines h @ [content], hk_new_lines := hk_new_lines h @ [content]\<rparr>
               | None \<Rightarrow> h))))"

definition hunk_start :: "string list \<Rightarrow> nat" where
  "hunk_start parts =
     (let old_range = (case strip_prefix ''-'' (parts ! 1) of Some r \<Rightarrow> r | None \<Rightarrow> parts ! 1)
      in case parse_unsigned (2 ^ 64) (hd (split_char (CHR '','') old_range)) of Some n \<Rightarrow> n | None \<Rightarrow> 1)"

definition parse_hunk :: "string \<Rightarrow> string list \<Rightarrow> hunk option \<times> string list" where
  "parse_hunk header ls =
     (let parts = split_whitespace header in
      if length parts < 3 then (None, ls)
      else map_prod Some id (hunk_body ls \<lparr>hk_old_start = hunk_start parts, hk_old_lines = [], hk_new_lines = []\<rparr>))"

lemma hunk_body_length: "length (snd (hunk_body ls h)) \<le> length ls"
  by (induction ls h rule: hunk_body.induct) (auto simp: Let_def intro: le_SucI)

lemma parse_hunk_length: "length (snd (parse_hunk header ls)) \<le> length ls"
  by (simp add: parse_hunk_def Let_def hunk_body_length)

function parse_file_hunks :: "string list \<Rightarrow> hunk list \<times> string list" where
  "parse_file_hunks [] = ([], [])"
| "parse_file_hunks (line # ls) =
     (if starts_with ''---'' line then ([], line # ls)
      else if starts_with ''@@'' line then
        let (h, rest) = parse_hunk line ls; (hs, rest') = parse_file_hunks rest
        in (case h of Some hunk \<Rightarrow> hunk # hs | None \<Rightarrow> hs, rest')
      else parse_file_hunks ls)"
  by pat_completeness auto
termination
  by (relation "measure length") (auto simp: less_Suc_eq_le, metis parse_hunk_length snd_conv)

lemma parse_file_hunks_length: "length (snd (parse_file_hunks ls)) \<le> length ls"
proof (induction ls rule: parse_file_hunks.induct)
  case (2 line ls)
  show ?case
  proof (cases "\<not> starts_with ''---'' line \<and> starts_with ''@@'' line")
    case True
    obtain h rest where p: "parse_hunk line ls = (h, rest)" by (cases "parse_hunk line ls")
    have "length rest \<le> length ls" using parse_hunk_length[of line ls] p by simp
    moreover have "length (snd (parse_file_hunks rest)) \<le> length rest"
      using 2(1) True p[symmetric] by blast
    moreover obtain hs rest' where "parse_file_hunks rest = (hs, rest')" by (cases "parse_file_hunks rest")
    ultimately show ?thesis using True p by simp
  next
    case False
    then show ?thesis using 2(2) by auto
  qed
qed simp

definition file_header :: "string \<Rightarrow> string \<Rightarrow> string" where
  "file_header p line = hd (split_char (CHR 0x09) (case strip_prefix p line of Some s \<Rightarrow> s | None \<Rightarrow> []))"

definition patch_of :: "string \<Rightarrow> string \<Rightarrow> hunk list \<Rightarrow> file_patch list" where
  "patch_of old_file new_file hunks =
     (let path = (if new_file = ''/dev/null''
                  then (case strip_prefix ''a/'' old_file of Some p \<Rightarrow> p | None \<Rightarrow> old_file)
                  else (case strip_prefix ''b/'' new_file of Some p \<Rightarrow> p | None \<Rightarrow> new_file));
          is_new = (old_file = ''/dev/null'');
          is_delete = (new_file = ''/dev/null'')
      in if hunks \<noteq> [] \<or> is_new \<or> is_delete
         then [\<lparr>fp_path = path, fp_hunks = hunks, fp_is_new = is_new, fp_is_delete = is_delete\<rparr>] else [])"

function parse_patch_lines :: "string list \<Rightarrow> file_patch list" where
  "parse_patch_lines [] = []"
| "parse_patch_lines (line # ls) =
     (if starts_with ''---'' line then
        case ls of
          [] \<Rightarrow> []
        | next_line # ls' \<Rightarrow>
            if \<not> starts_with ''+++'' next_line then parse_patch_lines ls
            else
              let (hunks, rest) = parse_file_hunks ls'
              in patch_of (file_header ''--- '' line) (file_header ''+++ '' next_line) hunks @ parse_patch_lines rest
      else parse_patch_lines ls)"
  by pat_completeness auto
termination
  by (relation "measure length") (auto simp: less_Suc_eq_le, metis le_SucI parse_file_hunks_length snd_conv)

definition parse_patch :: "string \<Rightarrow> file_patch list" where
  "parse_patch text = parse_patch_lines (lines text)"

subsection \<open>Execution\<close>

text \<open>\<^verbatim>\<open>Vec::splice\<close> panics when the range starts after its end.\<close>

definition apply_hunk :: "hunk \<Rightarrow> string list \<Rightarrow> string list option" where
  "apply_hunk h ls =
     (let start = hk_old_start h - 1;
          stop = min (start + length (hk_old_lines h)) (length ls)
      in if start \<le> stop then Some (take start ls @ hk_new_lines h @ drop stop ls) else None)"

definition apply_hunks :: "hunk list \<Rightarrow> string list \<Rightarrow> string list option" where
  "apply_hunks hunks ls = fold (\<lambda>h m. Option.bind m (apply_hunk h)) (rev hunks) (Some ls)"

definition first_hunk_line :: "hunk list \<Rightarrow> nat" where
  "first_hunk_line hunks = (if hunks = [] then 1 else Min (hk_old_start ` set hunks))"

definition apply_patch_with_diff :: "differ \<Rightarrow> file_patch \<Rightarrow> string \<Rightarrow> world \<Rightarrow> (string \<times> string) outcome \<times> world" where
  "apply_patch_with_diff text_diff p path w =
     (if fp_is_delete p then
        if path_exists w path then
          let old_content = (case read_to_string w path of Inr s \<Rightarrow> s | Inl _ \<Rightarrow> []) in
          case remove_file path w of
            Inl e \<Rightarrow> (Err e, w)
          | Inr w' \<Rightarrow> (Ok (''deleted'', patch_generate_diff text_diff old_content [] 1), w')
        else (Err ''file does not exist'', w)
      else if fp_is_new p then
        if path_exists w path then (Err ''file already exists'', w)
        else case create_parent path w of
          Some e \<Rightarrow> (Err e, w)
        | None \<Rightarrow>
          let content = concat (map (\<lambda>l. l @ nl) (concat (map hk_new_lines (fp_hunks p)))) in
          (case fs_write path content w of
             Inl e \<Rightarrow> (Err e, w)
           | Inr w' \<Rightarrow> (Ok (''created'', patch_generate_diff text_diff [] content 1), w'))
      else if \<not> path_exists w path then (Err ''file does not exist'', w)
      else case read_to_string w path of
        Inl e \<Rightarrow> (Err e, w)
      | Inr old_content \<Rightarrow>
        (case apply_hunks (fp_hunks p) (lines old_content) of
           None \<Rightarrow> (Panic, w)
         | Some ls \<Rightarrow>
             let new_content = join nl ls @ nl in
             (case fs_write path new_content w of
                Inl e \<Rightarrow> (Err e, w)
              | Inr w' \<Rightarrow>
                  (Ok (''modified ('' @ show_nat (length (fp_hunks p)) @ '' hunks)'',
                       patch_generate_diff text_diff old_content new_content (first_hunk_line (fp_hunks p))), w'))))"

definition patch_result :: "string \<Rightarrow> (string \<times> string) outcome \<Rightarrow> string" where
  "patch_result path res =
     (case res of
        Ok (msg, diff) \<Rightarrow> result_line path msg diff
      | Err e \<Rightarrow> cross_mark @ '' '' @ path @ '': '' @ e
      | Panic \<Rightarrow> [])"

text \<open>The files of the patch one after the other; a panic ends the call.\<close>

fun execute_patches :: "differ \<Rightarrow> tool_context \<Rightarrow> file_patch list \<Rightarrow> world \<Rightarrow> string list outcome \<times> world" where
  "execute_patches text_diff ctx [] w = (Ok [], w)"
| "execute_patches text_diff ctx (p # ps) w =
     (case apply_patch_with_diff text_diff p (resolve_path ctx (fp_path p)) w of
        (Panic, w') \<Rightarrow> (Panic, w')
      | (res, w') \<Rightarrow>
          (case execute_patches text_diff ctx ps w' of
             (Ok results, w'') \<Rightarrow> (Ok (patch_result (fp_path p) res # results), w'')
           | (Err e, w'') \<Rightarrow> (Err e, w'')
           | (Panic, w'') \<Rightarrow> (Panic, w'')))"

definition patch_execute :: "differ \<Rightarrow> tool_context \<Rightarrow> string \<Rightarrow> world \<Rightarrow> tool_output outcome \<times> world" where
  "patch_execute text_diff ctx patch_text w =
     (let patches = parse_patch patch_text in
      if patches = [] then (Err ''No valid patches found in input'', w)
      else case execute_patches text_diff ctx patches w of
        (Ok results, w') \<Rightarrow> (Ok (ToolOutput_new (join (nl @ nl) results)), w')
      | (Err e, w') \<Rightarrow> (Err e, w')
      | (Panic, w') \<Rightarrow> (Panic, w'))"


subsection \<open>Diffs\<close>

text \<open>
  What a unified diff stands for: for a changed file, blocks of lines kept, removed and added, each
  after a gap of lines that the diff leaves out, and the lines after the last block.
\<close>

datatype diff_line = Keep string | Remove string | Add string

fun old_side :: "diff_line list \<Rightarrow> string list" where
  "old_side [] = []"
| "old_side (Keep l # ds) = l # old_side ds"
| "old_side (Remove l # ds) = l # old_side ds"
| "old_side (Add l # ds) = old_side ds"

fun new_side :: "diff_line list \<Rightarrow> string list" where
  "new_side [] = []"
| "new_side (Keep l # ds) = l # new_side ds"
| "new_side (Remove l # ds) = new_side ds"
| "new_side (Add l # ds) = l # new_side ds"

type_synonym block = "string list \<times> diff_line list"

fun before :: "block list \<Rightarrow> string list \<Rightarrow> string list" where
  "before [] tail = tail"
| "before ((gap, body) # bs) tail = gap @ old_side body @ before bs tail"

fun after :: "block list \<Rightarrow> string list \<Rightarrow> string list" where
  "after [] tail = tail"
| "after ((gap, body) # bs) tail = gap @ new_side body @ after bs tail"

datatype file_diff =
    NewFile string "string list"
  | OldFile string "string list"
  | Changed string "block list" "string list"

fun fd_path :: "file_diff \<Rightarrow> string" where
  "fd_path (NewFile p _) = p"
| "fd_path (OldFile p _) = p"
| "fd_path (Changed p _ _) = p"

text \<open>Their text, in the format of \<^verbatim>\<open>diff -u\<close>.\<close>

fun render_line :: "diff_line \<Rightarrow> string" where
  "render_line (Keep l) = '' '' @ l"
| "render_line (Remove l) = ''-'' @ l"
| "render_line (Add l) = ''+'' @ l"

definition hunk_header :: "nat \<Rightarrow> nat \<Rightarrow> nat \<Rightarrow> nat \<Rightarrow> string" where
  "hunk_header a n b m =
     join '' '' [''@@'', ''-'' @ show_nat a @ '','' @ show_nat n, ''+'' @ show_nat b @ '','' @ show_nat m, ''@@'']"

definition render_hunk_at :: "nat \<Rightarrow> nat \<Rightarrow> diff_line list \<Rightarrow> string list" where
  "render_hunk_at a b body =
     hunk_header a (length (old_side body)) b (length (new_side body)) # map render_line body"

fun render_blocks :: "nat \<Rightarrow> nat \<Rightarrow> block list \<Rightarrow> string list" where
  "render_blocks i j [] = []"
| "render_blocks i j ((gap, body) # bs) =
     (let a = i + length gap; b = j + length gap
      in render_hunk_at (a + 1) (b + 1) body
           @ render_blocks (a + length (old_side body)) (b + length (new_side body)) bs)"

fun render_file_diff :: "file_diff \<Rightarrow> string list" where
  "render_file_diff (NewFile p ls) = [''--- /dev/null'', ''+++ b/'' @ p] @ render_hunk_at 0 1 (map Add ls)"
| "render_file_diff (OldFile p ls) = [''--- a/'' @ p, ''+++ /dev/null''] @ render_hunk_at 1 0 (map Remove ls)"
| "render_file_diff (Changed p bs tail) = [''--- a/'' @ p, ''+++ b/'' @ p] @ render_blocks 0 0 bs"

definition render_diff :: "file_diff list \<Rightarrow> string" where
  "render_diff ds = join nl (concat (map render_file_diff ds))"

text \<open>The patch that the parser should return.\<close>

definition hunk_of :: "nat \<Rightarrow> diff_line list \<Rightarrow> hunk" where
  "hunk_of a body = \<lparr>hk_old_start = a, hk_old_lines = old_side body, hk_new_lines = new_side body\<rparr>"

fun hunks_of :: "nat \<Rightarrow> block list \<Rightarrow> hunk list" where
  "hunks_of i [] = []"
| "hunks_of i ((gap, body) # bs) =
     hunk_of (i + length gap + 1) body # hunks_of (i + length gap + length (old_side body)) bs"

fun file_patch_of :: "file_diff \<Rightarrow> file_patch" where
  "file_patch_of (NewFile p ls) =
     \<lparr>fp_path = p, fp_hunks = [hunk_of 0 (map Add ls)], fp_is_new = True, fp_is_delete = False\<rparr>"
| "file_patch_of (OldFile p ls) =
     \<lparr>fp_path = p, fp_hunks = [hunk_of 1 (map Remove ls)], fp_is_new = False, fp_is_delete = True\<rparr>"
| "file_patch_of (Changed p bs tail) =
     \<lparr>fp_path = p, fp_hunks = hunks_of 0 bs, fp_is_new = False, fp_is_delete = False\<rparr>"

text \<open>What the format can express, and what it changes in the file system.\<close>

fun ok_diff_line :: "diff_line \<Rightarrow> bool" where
  "ok_diff_line (Keep l) = ok_line l"
| "ok_diff_line (Remove l) = (ok_line l \<and> \<not> starts_with ''--'' l)"
| "ok_diff_line (Add l) = ok_line l"

definition ok_path :: "string \<Rightarrow> bool" where
  "ok_path p \<longleftrightarrow> ok_line p \<and> CHR 0x09 \<notin> set p"

fun ok_file_diff :: "file_diff \<Rightarrow> bool" where
  "ok_file_diff (NewFile p ls) = (ok_path p \<and> list_all ok_line ls)"
| "ok_file_diff (OldFile p ls) = (ok_path p \<and> list_all (ok_diff_line \<circ> Remove) ls)"
| "ok_file_diff (Changed p bs tail) =
     (ok_path p \<and> bs \<noteq> [] \<and> length (before bs tail) < 2 ^ 64 \<and>
      list_all (\<lambda>(gap, body). old_side body \<noteq> [] \<and> list_all ok_diff_line body) bs)"

fun applicable :: "tool_context \<Rightarrow> world \<Rightarrow> file_diff \<Rightarrow> bool" where
  "applicable ctx w (NewFile p ls) =
     (let path = resolve_path ctx p
      in \<not> path_exists w path \<and> \<not> denied w path \<and> create_parent path w = None)"
| "applicable ctx w (OldFile p ls) =
     (let path = resolve_path ctx p in path_exists w path \<and> \<not> denied w path)"
| "applicable ctx w (Changed p bs tail) =
     (let path = resolve_path ctx p
      in \<not> denied w path \<and> (\<exists>s. files w path = Some (Text s) \<and> lines s = before bs tail))"

fun apply_file_diff :: "tool_context \<Rightarrow> file_diff \<Rightarrow> (string \<Rightarrow> node option) \<Rightarrow> string \<Rightarrow> node option" where
  "apply_file_diff ctx (NewFile p ls) fs =
     fs(resolve_path ctx p \<mapsto> Text (concat (map (\<lambda>l. l @ nl) ls)))"
| "apply_file_diff ctx (OldFile p ls) fs = fs(resolve_path ctx p := None)"
| "apply_file_diff ctx (Changed p bs tail) fs =
     fs(resolve_path ctx p \<mapsto> Text (join nl (after bs tail) @ nl))"

section \<open>Applying hunks\<close>

definition hunk_edit :: "hunk \<Rightarrow> nat \<times> nat \<times> string list" where
  "hunk_edit h = (hk_old_start h - 1, length (hk_old_lines h), hk_new_lines h)"

lemma apply_hunk_eq:
  "apply_hunk h xs =
     (let (i, n, seg) = hunk_edit h
      in if i \<le> length xs then Some (take i xs @ seg @ drop (i + n) xs) else None)"
  by (auto simp: apply_hunk_def hunk_edit_def Let_def min_def)

lemma apply_hunks_splice:
  assumes "ordered 0 (length ls) (map hunk_edit hs)"
  shows "apply_hunks hs ls = Some (splice 0 (map hunk_edit hs) ls)"
proof -
  define f where "f = (\<lambda>(i, n, seg) xs. if i \<le> length xs then Some (take i xs @ seg @ drop (i + n) xs) else None
    :: string list option)"
  have "apply_hunk h = f (hunk_edit h)" for h
    by (rule ext) (simp add: apply_hunk_eq f_def case_prod_unfold Let_def)
  then have "apply_hunks hs ls = fold (\<lambda>r m. Option.bind m (f r)) (rev (map hunk_edit hs)) (Some ls)"
    by (simp add: apply_hunks_def rev_map fold_map comp_def)
  also have "\<dots> = Some (take 0 ls @ splice 0 (map hunk_edit hs) (drop 0 ls))"
    using assms by (intro reverse_splice) (auto simp: f_def)
  finally show ?thesis by simp
qed

lemma hunks_of_ordered:
  "ordered i (i + length (before bs tail)) (map hunk_edit (hunks_of i bs))"
proof (induction bs arbitrary: i)
  case (Cons b bs)
  obtain gap body where b: "b = (gap, body)" by (cases b)
  show ?case using Cons.IH[of "i + length gap + length (old_side body)"]
    by (simp add: b hunk_edit_def hunk_of_def add.assoc)
qed simp

lemma hunks_of_splice:
  "splice i (map hunk_edit (hunks_of i bs)) (before bs tail) = after bs tail"
proof (induction bs arbitrary: i)
  case (Cons b bs)
  obtain gap body where b: "b = (gap, body)" by (cases b)
  show ?case using Cons.IH by (simp add: b hunk_edit_def hunk_of_def)
qed simp

lemma apply_hunks_of: "apply_hunks (hunks_of 0 bs) (before bs tail) = Some (after bs tail)"
  using apply_hunks_splice[of "before bs tail" "hunks_of 0 bs"] hunks_of_ordered[of 0 bs tail]
  by (simp add: hunks_of_splice)


section \<open>Parsing what was printed\<close>

subsection \<open>Headers\<close>

text \<open>Words without white space, joined by single spaces, are the words that are split off.\<close>

definition plain_word :: "string \<Rightarrow> bool" where
  "plain_word w \<longleftrightarrow> w \<noteq> [] \<and> list_all (\<lambda>c. \<not> utf8_cont c \<and> \<not> is_whitespace [c]) w"

lemma split_runs_word:
  "w \<noteq> [] \<Longrightarrow> list_all (\<lambda>x. \<not> p x) w \<Longrightarrow> rest = [] \<or> p (hd rest) \<Longrightarrow>
     split_runs p (w @ rest) = w # split_runs p rest"
proof (cases w)
  case (Cons c cs)
  assume a: "w \<noteq> []" "list_all (\<lambda>x. \<not> p x) w" "rest = [] \<or> p (hd rest)"
  have "takeWhile (\<lambda>x. \<not> p x) (cs @ rest) = cs" "dropWhile (\<lambda>x. \<not> p x) (cs @ rest) = rest"
    using a Cons by (cases rest; auto simp: list_all_iff takeWhile_append2 dropWhile_append2)+
  then show ?thesis using a Cons by simp
qed simp

lemma split_runs_words:
  assumes "list_all plain_word ws"
  shows "split_runs is_whitespace (map (\<lambda>c. [c]) (join '' '' ws)) = map (map (\<lambda>c. [c])) ws"
  using assms
proof (induction "'' ''" ws rule: join.induct)
  case (2 x)
  then show ?case using split_runs_word[of "map (\<lambda>c. [c]) x" is_whitespace "[]"]
    by (auto simp: plain_word_def list_all_iff)
next
  case (3 x y ys)
  have space: "is_whitespace '' ''" by (simp add: is_whitespace_def whitespace_chars_def)
  let ?rest = "map (\<lambda>c. [c]) ('' '' @ join '' '' (y # ys))"
  have "split_runs is_whitespace (map (\<lambda>c. [c]) x @ ?rest) = map (\<lambda>c. [c]) x # split_runs is_whitespace ?rest"
    using 3(2) space by (intro split_runs_word) (auto simp: plain_word_def list_all_iff)
  also have "split_runs is_whitespace ?rest = map (map (\<lambda>c. [c])) (y # ys)"
    using 3 space by simp
  finally show ?case by simp
qed simp

lemma split_whitespace_words:
  assumes "list_all plain_word ws"
  shows "split_whitespace (join '' '' ws) = ws"
proof -
  have "list_all (\<lambda>c. \<not> utf8_cont c) (join '' '' ws)"
    using assms by (induction "'' ''" ws rule: join.induct) (auto simp: plain_word_def list_all_iff utf8_cont_def)
  then have "utf8_chars (join '' '' ws) = map (\<lambda>c. [c]) (join '' '' ws)" by (rule utf8_chars_ascii)
  then show ?thesis using split_runs_words[OF assms]
    by (simp add: split_whitespace_def comp_def concat_map_singleton)
qed

lemma split_hunk_header:
  "split_whitespace (hunk_header a n b m) =
     [''@@'', ''-'' @ show_nat a @ '','' @ show_nat n, ''+'' @ show_nat b @ '','' @ show_nat m, ''@@'']"
  unfolding hunk_header_def
  by (intro split_whitespace_words)
    (simp add: plain_word_def plain_show_nat plain_char)

lemma hunk_start_header:
  assumes "a < 2 ^ 64"
  shows "hunk_start (split_whitespace (hunk_header a n b m)) = a"
proof -
  have "split_char (CHR '','') (show_nat a @ CHR '','' # show_nat n) = show_nat a # split_char (CHR '','') (show_nat n)"
    by (intro split_char_append show_nat_free) simp
  then show ?thesis using parse_unsigned_show[OF assms]
    by (simp add: hunk_start_def split_hunk_header strip_prefix_def)
qed

subsection \<open>Hunks\<close>

definition hunk_end :: "string list \<Rightarrow> bool" where
  "hunk_end ls \<longleftrightarrow> ls = [] \<or> starts_with ''@@'' (hd ls) \<or> starts_with ''---'' (hd ls)"

lemma hunk_body_render:
  assumes "list_all ok_diff_line body" "hunk_end rest"
  shows "hunk_body (map render_line body @ rest) h =
    (h\<lparr>hk_old_lines := hk_old_lines h @ old_side body, hk_new_lines := hk_new_lines h @ new_side body\<rparr>, rest)"
  using assms(1)
proof (induction body arbitrary: h)
  case Nil
  then show ?case using assms(2) by (cases rest) (auto simp: hunk_end_def)
next
  case (Cons d body)
  show ?case using Cons by (cases d) (auto simp: starts_with_def strip_prefix_def)
qed

lemma parse_hunk_render:
  assumes "list_all ok_diff_line body" "hunk_end rest" "a < 2 ^ 64"
  shows "parse_hunk (hunk_header a n b m) (map render_line body @ rest) = (Some (hunk_of a body), rest)"
  using hunk_start_header[OF assms(3), of n b m]
  by (simp add: parse_hunk_def split_hunk_header hunk_body_render[OF assms(1,2)] hunk_of_def)

lemma hunk_header_start: "starts_with ''@@'' (hunk_header a n b m)" "\<not> starts_with ''---'' (hunk_header a n b m)"
  by (simp_all add: hunk_header_def starts_with_def)

lemma parse_file_hunks_render_hunk:
  assumes "list_all ok_diff_line body" "hunk_end rest" "a < 2 ^ 64"
  shows "parse_file_hunks (render_hunk_at a b body @ rest) = map_prod ((#) (hunk_of a body)) id (parse_file_hunks rest)"
  using parse_hunk_render[OF assms] hunk_header_start
  by (cases "parse_file_hunks rest") (simp add: render_hunk_at_def)

definition file_end :: "string list \<Rightarrow> bool" where
  "file_end ls \<longleftrightarrow> ls = [] \<or> starts_with ''---'' (hd ls)"

lemma file_end_facts: "file_end rest \<Longrightarrow> hunk_end rest" "file_end rest \<Longrightarrow> parse_file_hunks rest = ([], rest)"
  by (cases rest; simp add: file_end_def hunk_end_def)+

lemma parse_file_hunks_render:
  assumes "list_all (\<lambda>(gap, body). list_all ok_diff_line body \<and> old_side body \<noteq> []) bs" "file_end rest"
    "i + length (before bs tail) < 2 ^ 64"
  shows "parse_file_hunks (render_blocks i j bs @ rest) = (hunks_of i bs, rest)"
  using assms(1,3)
proof (induction bs arbitrary: i j)
  case Nil
  then show ?case using file_end_facts(2)[OF assms(2)] by simp
next
  case (Cons b bs)
  obtain gap body where b: "b = (gap, body)" by (cases b)
  let ?a = "i + length gap"
  let ?rest = "render_blocks (?a + length (old_side body)) (j + length gap + length (new_side body)) bs @ rest"
  have "hunk_end ?rest" using file_end_facts(1)[OF assms(2)]
    by (cases bs) (auto simp: hunk_end_def render_hunk_at_def hunk_header_start Let_def)
  moreover have "?a + 1 < 2 ^ 64" using Cons.prems by (cases "old_side body") (auto simp: b)
  moreover have "parse_file_hunks ?rest = (hunks_of (?a + length (old_side body)) bs, rest)"
    using Cons.prems by (intro Cons.IH) (simp_all add: b)
  ultimately show ?case
    using parse_file_hunks_render_hunk[of body ?rest "?a + 1" "j + length gap + 1"] Cons.prems
    by (simp add: b Let_def)
qed


subsection \<open>Files\<close>

lemma file_header_render:
  assumes "CHR 0x09 \<notin> set p"
  shows "file_header pre (pre @ p) = p"
  using assms by (simp add: file_header_def split_char_free)

lemma patch_of_render:
  "patch_of ''/dev/null'' (''b/'' @ p) hs = [\<lparr>fp_path = p, fp_hunks = hs, fp_is_new = True, fp_is_delete = False\<rparr>]"
  "patch_of (''a/'' @ p) ''/dev/null'' hs = [\<lparr>fp_path = p, fp_hunks = hs, fp_is_new = False, fp_is_delete = True\<rparr>]"
  "hs \<noteq> [] \<Longrightarrow> patch_of (''a/'' @ p) (''b/'' @ p) hs =
     [\<lparr>fp_path = p, fp_hunks = hs, fp_is_new = False, fp_is_delete = False\<rparr>]"
  by (simp_all add: patch_of_def strip_prefix_def)

lemma parse_patch_lines_file:
  assumes "parse_file_hunks ls = (hs, rest)" "CHR 0x09 \<notin> set p" "CHR 0x09 \<notin> set q"
  shows "parse_patch_lines ((''--- '' @ p) # (''+++ '' @ q) # ls) = patch_of p q hs @ parse_patch_lines rest"
  using assms file_header_render[of p "''--- ''"] file_header_render[of q "''+++ ''"]
  by (simp add: starts_with_def)

lemma file_end_render: "file_end (concat (map render_file_diff ds))"
proof (cases ds)
  case (Cons d ds')
  then show ?thesis by (cases d) (simp_all add: file_end_def starts_with_def)
qed (simp add: file_end_def)

lemma sides_Add [simp]: "old_side (map Add ls) = []" "new_side (map Add ls) = ls"
  by (induction ls) simp_all

lemma sides_Remove [simp]: "old_side (map Remove ls) = ls" "new_side (map Remove ls) = []"
  by (induction ls) simp_all

lemma hunks_of_nonempty: "bs \<noteq> [] \<Longrightarrow> hunks_of i bs \<noteq> []"
  by (cases bs) auto

lemma parse_file_diff:
  assumes "ok_file_diff d" "file_end rest"
  shows "parse_patch_lines (render_file_diff d @ rest) = file_patch_of d # parse_patch_lines rest"
proof (cases d)
  case (NewFile p ls)
  have "parse_file_hunks (render_hunk_at 0 1 (map Add ls) @ rest) = ([hunk_of 0 (map Add ls)], rest)"
    using assms file_end_facts[OF assms(2)] NewFile
    by (subst parse_file_hunks_render_hunk) (auto simp: list_all_iff)
  then show ?thesis using parse_patch_lines_file[of _ _ rest "''/dev/null''" "''b/'' @ p"] assms(1)
    by (simp add: NewFile ok_path_def patch_of_render[simplified])
next
  case (OldFile p ls)
  have "parse_file_hunks (render_hunk_at 1 0 (map Remove ls) @ rest) = ([hunk_of 1 (map Remove ls)], rest)"
    using assms file_end_facts[OF assms(2)] OldFile
    by (subst parse_file_hunks_render_hunk) (auto simp: list_all_iff)
  then show ?thesis using parse_patch_lines_file[of _ _ rest "''a/'' @ p" "''/dev/null''"] assms(1)
    by (simp add: OldFile ok_path_def patch_of_render[simplified])
next
  case (Changed p bs tail)
  have "parse_file_hunks (render_blocks 0 0 bs @ rest) = (hunks_of 0 bs, rest)"
    using assms Changed by (intro parse_file_hunks_render[where tail = tail]) (auto simp: list_all_iff)
  then show ?thesis using parse_patch_lines_file[of _ _ rest "''a/'' @ p" "''b/'' @ p"] assms(1) hunks_of_nonempty
    by (simp add: Changed ok_path_def patch_of_render[simplified])
qed

lemma parse_file_diffs:
  "\<forall>d\<in>set ds. ok_file_diff d \<Longrightarrow> parse_patch_lines (concat (map render_file_diff ds)) = map file_patch_of ds"
proof (induction ds)
  case (Cons d ds)
  then show ?case using parse_file_diff[of d, OF _ file_end_render[of ds]] by simp
qed simp

lemma ok_line_header: "ok_line (hunk_header a n b m)"
proof -
  have "newline \<notin> set (hunk_header a n b m)"
    by (simp add: hunk_header_def show_nat_free)
  then show ?thesis by (simp add: ok_line_def hunk_header_def)
qed

lemma ok_line_render_line: "ok_diff_line d \<Longrightarrow> ok_line (render_line d)"
  using ok_line_prefix[of _ "'' ''"] ok_line_prefix[of _ "''+''"] ok_line_prefix[of _ "''-''"] by (cases d) auto

lemma ok_line_render_hunk_at:
  "list_all ok_diff_line body \<Longrightarrow> l \<in> set (render_hunk_at a b body) \<Longrightarrow> ok_line l \<and> l \<noteq> []"
  using ok_line_header ok_line_render_line
  by (auto simp: render_hunk_at_def list_all_iff hunk_header_def elim: render_line.elims)

lemma ok_line_render_blocks:
  "list_all (\<lambda>(gap, body). list_all ok_diff_line body) bs \<Longrightarrow> l \<in> set (render_blocks i j bs) \<Longrightarrow> ok_line l \<and> l \<noteq> []"
proof (induction bs arbitrary: i j)
  case (Cons b bs)
  then show ?case using ok_line_render_hunk_at by (cases b) (fastforce simp: Let_def)
qed simp

lemma ok_line_render_file_diff:
  assumes "ok_file_diff d" "l \<in> set (render_file_diff d)"
  shows "ok_line l \<and> l \<noteq> []"
proof (cases d)
  case (NewFile p ls)
  then show ?thesis using assms ok_line_render_hunk_at[of "map Add ls"] ok_line_prefix[of p "''+++ b/''"]
    by (auto simp: ok_path_def list_all_iff ok_line_def)
next
  case (OldFile p ls)
  then show ?thesis using assms ok_line_render_hunk_at[of "map Remove ls"] ok_line_prefix[of p "''--- a/''"]
    by (auto simp: ok_path_def list_all_iff ok_line_def)
next
  case (Changed p bs tail)
  have "list_all (\<lambda>(gap, body). list_all ok_diff_line body) bs"
    using assms(1) Changed by (auto simp: list_all_iff)
  then show ?thesis using assms Changed ok_line_render_blocks[of bs]
      ok_line_prefix[of p "''--- a/''"] ok_line_prefix[of p "''+++ b/''"]
    by (auto simp: ok_path_def)
qed

theorem parse_patch_round_trip:
  assumes "ds \<noteq> []" "\<forall>d\<in>set ds. ok_file_diff d"
  shows "parse_patch (render_diff ds) = map file_patch_of ds"
proof -
  let ?ls = "concat (map render_file_diff ds)"
  have ok: "\<forall>l\<in>set ?ls. ok_line l \<and> l \<noteq> []" using assms(2) ok_line_render_file_diff by auto
  have "?ls \<noteq> []"
  proof (cases ds)
    case (Cons d ds')
    then show ?thesis by (cases d) simp_all
  qed (use assms in simp)
  then have "lines (render_diff ds) = ?ls" unfolding render_diff_def
    using ok last_in_set[of ?ls] by (intro lines_join) blast+
  then show ?thesis using parse_file_diffs[OF assms(2)] by (simp add: parse_patch_def)
qed

section \<open>Executing a diff\<close>

lemma applicable_other:
  assumes "resolve_path ctx (fd_path d) \<noteq> path"
  shows "applicable ctx (w\<lparr>files := (files w)(path := n)\<rparr>) d = applicable ctx w d"
  using assms by (cases d)
    (auto simp: Let_def path_exists_def create_parent_def create_dir_all_def split: option.splits)

lemma apply_file_diff_world:
  "apply_file_diff ctx d (files w) = (files w)(resolve_path ctx (fd_path d) :=
     (apply_file_diff ctx d (files w)) (resolve_path ctx (fd_path d)))"
  by (cases d) simp_all

lemma apply_patch_file_diff:
  assumes "ok_file_diff d" "applicable ctx w d"
  shows "\<exists>r. apply_patch_with_diff text_diff (file_patch_of d) (resolve_path ctx (fp_path (file_patch_of d))) w =
    (Ok r, w\<lparr>files := apply_file_diff ctx d (files w)\<rparr>)"
proof (cases d)
  case (NewFile p ls)
  then show ?thesis using assms by (simp add: apply_patch_with_diff_def Let_def fs_write_def hunk_of_def)
next
  case (OldFile p ls)
  then show ?thesis using assms by (simp add: apply_patch_with_diff_def Let_def remove_file_def)
next
  case (Changed p bs tail)
  then obtain s where s: "files w (resolve_path ctx p) = Some (Text s)" "lines s = before bs tail"
    "\<not> denied w (resolve_path ctx p)"
    using assms(2) by (auto simp: Let_def)
  show ?thesis using s(2) apply_hunks_of[of bs tail]
    by (simp add: Changed apply_patch_with_diff_def s path_exists_def read_to_string_def fs_write_def Let_def)
qed

lemma execute_file_diffs:
  assumes "\<forall>d\<in>set ds. ok_file_diff d \<and> applicable ctx w d" "distinct (map (resolve_path ctx \<circ> fd_path) ds)"
  shows "\<exists>rs. execute_patches text_diff ctx (map file_patch_of ds) w =
    (Ok rs, w\<lparr>files := fold (apply_file_diff ctx) ds (files w)\<rparr>)"
  using assms
proof (induction ds arbitrary: w)
  case (Cons d ds)
  let ?w = "w\<lparr>files := apply_file_diff ctx d (files w)\<rparr>"
  obtain r where r: "apply_patch_with_diff text_diff (file_patch_of d) (resolve_path ctx (fp_path (file_patch_of d))) w = (Ok r, ?w)"
    using apply_patch_file_diff[of d ctx w text_diff] Cons.prems(1) by auto
  have "applicable ctx ?w e" if "e \<in> set ds" for e
  proof -
    have "resolve_path ctx (fd_path e) \<noteq> resolve_path ctx (fd_path d)"
      using Cons.prems(2) that by (force simp: image_iff)
    then show ?thesis using Cons.prems(1) that by (subst apply_file_diff_world) (simp add: applicable_other)
  qed
  then obtain rs where "execute_patches text_diff ctx (map file_patch_of ds) ?w =
      (Ok rs, ?w\<lparr>files := fold (apply_file_diff ctx) ds (files ?w)\<rparr>)"
    using Cons.IH[of ?w] Cons.prems by auto
  then show ?case using r by simp
qed simp



definition demo_tree :: world where
  "demo_tree =
     \<lparr>files = [''f'' \<mapsto> Text (join nl [''a'', ''b'', ''c'', []])], denied = (\<lambda>_. False), os_error = id, bus = []\<rparr>"

definition demo_diff :: "file_diff list" where
  "demo_diff =
     [Changed ''f'' [([''a''], [Remove ''b'', Add ''B'', Add ''BB''])] [''c''], NewFile ''g'' [''x'']]"


section \<open>Hunks that do not fit\<close>

text \<open>
  A hunk is applied by its line number alone. Changing a file by a single hunk panics exactly when
  the hunk starts behind the end of the file; otherwise, when the file may be written, the lines at
  the number are replaced whatever they are.
\<close>

theorem single_hunk_effect:
  assumes "\<not> fp_is_new p" "\<not> fp_is_delete p" "fp_hunks p = [h]" "files w path = Some (Text s)" "\<not> denied w path"
  shows "if hk_old_start h - 1 \<le> length (lines s)
    then snd (apply_patch_with_diff text_diff p path w) =
      w\<lparr>files := (files w)(path \<mapsto> Text (join nl (take (hk_old_start h - 1) (lines s) @ hk_new_lines h @
        drop (hk_old_start h - 1 + length (hk_old_lines h)) (lines s)) @ nl))\<rparr>
    else apply_patch_with_diff text_diff p path w = (Panic, w)"
  using assms by (simp add: apply_patch_with_diff_def path_exists_def read_to_string_def fs_write_def
      apply_hunks_def apply_hunk_eq hunk_edit_def Let_def)

theorem single_hunk_effect_witness:
  "apply_patch_with_diff (\<lambda>_ _. [])
     \<lparr>fp_path = ''f'', fp_hunks = [hunk_of 9 [Add ''x'']], fp_is_new = False, fp_is_delete = False\<rparr> ''f'' demo_tree =
   (Panic, demo_tree)"
proof -
  have "length (lines (join nl [''a'', ''b'', ''c'', []])) = 3" by (simp add: lines_def nl_def)
  then show ?thesis
    using single_hunk_effect[of "\<lparr>fp_path = ''f'', fp_hunks = [hunk_of 9 [Add ''x'']], fp_is_new = False, fp_is_delete = False\<rparr>"
        "hunk_of 9 [Add ''x'']" demo_tree "''f''" "join nl [''a'', ''b'', ''c'', []]" "\<lambda>_ _. []"]
    by (simp add: demo_tree_def hunk_of_def)
qed

text \<open>
  In the format of \<^verbatim>\<open>diff -u\<close> a hunk that only adds lines names the line after which they come. The
  tool inserts them before that line.
\<close>

lemma insertion_one_line_early:
  assumes "0 < n" "n \<le> length ls"
  shows "apply_hunks [hunk_of n (map Add new)] ls = Some (take (n - 1) ls @ new @ drop (n - 1) ls)"
  using assms by (simp add: apply_hunks_def apply_hunk_eq hunk_edit_def hunk_of_def Let_def)

text \<open>A removed line that starts with two dashes ends the hunk.\<close>

lemma removed_dashes_end_hunk:
  assumes "starts_with ''--'' l"
  shows "hunk_body (render_line (Remove l) # rest) h = (h, render_line (Remove l) # rest)"
  using assms by (auto simp: starts_with_def)

end
