(* ===== verification/Ambient.thy ===== *)
theory Ambient
  imports Text_Ops
begin

text \<open>
  Ambient mode (\<^verbatim>\<open>src/src/ambient.rs\<close>, \<^verbatim>\<open>ambient/persistence.rs\<close>, \<^verbatim>\<open>ambient/manager.rs\<close>,
  \<^verbatim>\<open>ambient/directives.rs\<close>): the queue of scheduled items with its copy on disk, the state between
  cycles, the decision to run, the lock that keeps a second instance out, and the directives that the
  user sends by mail.

  A time is a number of nanoseconds since the epoch. What the clock, the random generator and the
  disk answer is an argument of the operation that asks.
\<close>

section \<open>Definitions\<close>

subsection \<open>Types\<close>

datatype ambient_status =
    Idle
  | Running string
  | Scheduled int
  | Paused string
  | Disabled

datatype priority = Low | Normal | High

text \<open>The derived order of the enumeration.\<close>

instantiation priority :: linorder
begin

fun priority_index :: "priority \<Rightarrow> nat" where
  "priority_index Low = 0"
| "priority_index Normal = 1"
| "priority_index High = 2"

definition less_eq_priority :: "priority \<Rightarrow> priority \<Rightarrow> bool" where
  "less_eq_priority a b \<longleftrightarrow> priority_index a \<le> priority_index b"

definition less_priority :: "priority \<Rightarrow> priority \<Rightarrow> bool" where
  "less_priority a b \<longleftrightarrow> priority_index a < priority_index b"

instance
proof
  fix x y :: priority
  show "x \<le> y \<Longrightarrow> y \<le> x \<Longrightarrow> x = y" by (cases x; cases y) (simp_all add: less_eq_priority_def)
qed (auto simp: less_eq_priority_def less_priority_def)

end

datatype schedule_target = AmbientTarget | SessionTarget string | SpawnTarget string

fun is_direct_delivery :: "schedule_target \<Rightarrow> bool" where
  "is_direct_delivery AmbientTarget = False"
| "is_direct_delivery (SessionTarget _) = True"
| "is_direct_delivery (SpawnTarget _) = True"

record scheduled_item =
  si_id :: string
  si_scheduled_for :: int
  si_context :: string
  si_priority :: priority
  si_target :: schedule_target
  si_created_by_session :: string
  si_created_at :: int
  si_working_dir :: "string option"
  si_task_description :: "string option"
  si_relevant_files :: "string list"
  si_git_branch :: "string option"
  si_additional_context :: "string option"

record schedule_request =
  sr_wake_in_minutes :: "u32 option"
  sr_wake_at :: "int option"
  sr_context :: string
  sr_priority :: priority
  sr_target :: schedule_target
  sr_created_by_session :: string
  sr_working_dir :: "string option"
  sr_task_description :: "string option"
  sr_relevant_files :: "string list"
  sr_git_branch :: "string option"
  sr_additional_context :: "string option"

record ambient_state =
  as_status :: ambient_status
  as_last_run :: "int option"
  as_last_summary :: "string option"
  as_last_compactions :: "u32 option"
  as_last_memories_modified :: "u32 option"
  as_total_cycles :: u64

datatype cycle_status = Complete | Interrupted | Incomplete

record ambient_cycle_result =
  cr_summary :: string
  cr_memories_modified :: u32
  cr_compactions :: u32
  cr_proactive_work :: "string option"
  cr_next_schedule :: "schedule_request option"
  cr_started_at :: int
  cr_ended_at :: int
  cr_status :: cycle_status
  cr_conversation :: "string option"

subsection \<open>The scheduled queue\<close>

text \<open>
  The items in memory and those in the file. The argument \<^verbatim>\<open>io\<close> tells whether a write succeeds; the
  callers ignore its error.
\<close>

record scheduled_queue =
  sq_items :: "scheduled_item list"
  sq_saved :: "scheduled_item list option"

definition ScheduledQueue_load :: "scheduled_item list option \<Rightarrow> scheduled_queue" where
  "ScheduledQueue_load disk = \<lparr>sq_items = (case disk of Some is \<Rightarrow> is | None \<Rightarrow> []), sq_saved = disk\<rparr>"

definition ScheduledQueue_save :: "bool \<Rightarrow> scheduled_queue \<Rightarrow> scheduled_queue" where
  "ScheduledQueue_save io self = (if io then self\<lparr>sq_saved := Some (sq_items self)\<rparr> else self)"

definition ScheduledQueue_push :: "bool \<Rightarrow> scheduled_item \<Rightarrow> scheduled_queue \<Rightarrow> scheduled_queue" where
  "ScheduledQueue_push io it self = ScheduledQueue_save io (self\<lparr>sq_items := sq_items self @ [it]\<rparr>)"

text \<open>Highest priority first, then earliest time; the sort is stable.\<close>

definition delivery_key :: "scheduled_item \<Rightarrow> nat \<times> int" where
  "delivery_key i = (2 - priority_index (si_priority i), si_scheduled_for i)"

definition pop_ready :: "bool \<Rightarrow> int \<Rightarrow> scheduled_queue \<Rightarrow> scheduled_item list \<times> scheduled_queue" where
  "pop_ready io now self =
     (let (ready, remaining) = partition (\<lambda>i. si_scheduled_for i \<le> now) (sq_items self);
          self = self\<lparr>sq_items := remaining\<rparr>;
          ready = sort_key delivery_key ready
      in (ready, if ready \<noteq> [] then ScheduledQueue_save io self else self))"

fun split_direct :: "int \<Rightarrow> scheduled_item list \<Rightarrow> scheduled_item list \<times> scheduled_item list" where
  "split_direct now [] = ([], [])"
| "split_direct now (i # is) =
     (let (ready_direct, remaining) = split_direct now is;
          is_ready = si_scheduled_for i \<le> now;
          is_direct_target = is_direct_delivery (si_target i)
      in if is_ready \<and> is_direct_target then (i # ready_direct, remaining) else (ready_direct, i # remaining))"

definition take_ready_direct_items :: "bool \<Rightarrow> int \<Rightarrow> scheduled_queue \<Rightarrow> scheduled_item list \<times> scheduled_queue" where
  "take_ready_direct_items io now self =
     (let (ready_direct, remaining) = split_direct now (sq_items self);
          self = self\<lparr>sq_items := remaining\<rparr>
      in (sort_key delivery_key ready_direct,
          if ready_direct \<noteq> [] then ScheduledQueue_save io self else self))"

text \<open>\<^verbatim>\<open>min_by_key\<close> returns the first of several minima.\<close>

fun min_by_time :: "scheduled_item list \<Rightarrow> scheduled_item option" where
  "min_by_time [] = None"
| "min_by_time (i # is) =
     (case min_by_time is of
        None \<Rightarrow> Some i
      | Some j \<Rightarrow> if si_scheduled_for i \<le> si_scheduled_for j then Some i else Some j)"

definition peek_next :: "scheduled_queue \<Rightarrow> scheduled_item option" where
  "peek_next self = min_by_time (sq_items self)"

subsection \<open>The state between cycles\<close>

definition minutes :: "u32 \<Rightarrow> int" where
  "minutes m = uint m * 60000000000"

definition wake_time :: "int \<Rightarrow> schedule_request \<Rightarrow> int" where
  "wake_time now req =
     (case sr_wake_at req of
        Some t \<Rightarrow> t
      | None \<Rightarrow> now + minutes (case sr_wake_in_minutes req of Some m \<Rightarrow> m | None \<Rightarrow> 30))"

definition record_cycle :: "int \<Rightarrow> ambient_cycle_result \<Rightarrow> ambient_state \<Rightarrow> ambient_state" where
  "record_cycle now r self =
     self\<lparr>as_last_run := Some (cr_ended_at r),
          as_last_summary := Some (cr_summary r),
          as_last_compactions := Some (cr_compactions r),
          as_last_memories_modified := Some (cr_memories_modified r),
          as_total_cycles := as_total_cycles self + 1,
          as_status := (case cr_status r of
             Complete \<Rightarrow> (case cr_next_schedule r of
                Some req \<Rightarrow> Scheduled (wake_time now req)
              | None \<Rightarrow> Idle)
           | Interrupted \<Rightarrow> Idle
           | Incomplete \<Rightarrow> Idle)\<rparr>"

record ambient_manager =
  am_state :: ambient_state
  am_queue :: scheduled_queue
  am_saved :: "ambient_state option"

definition should_run :: "bool \<Rightarrow> int \<Rightarrow> ambient_manager \<Rightarrow> bool" where
  "should_run enabled now self =
     (if \<not> enabled then False
      else case as_status (am_state self) of
        Disabled \<Rightarrow> False
      | Paused _ \<Rightarrow> False
      | Running _ \<Rightarrow> False
      | Idle \<Rightarrow> True
      | Scheduled next_wake \<Rightarrow> now \<ge> next_wake)"

definition new_item :: "string \<Rightarrow> int \<Rightarrow> int \<Rightarrow> schedule_request \<Rightarrow> scheduled_item" where
  "new_item i now created_at request =
     \<lparr>si_id = i, si_scheduled_for = wake_time now request, si_context = sr_context request,
      si_priority = sr_priority request, si_target = sr_target request,
      si_created_by_session = sr_created_by_session request, si_created_at = created_at,
      si_working_dir = sr_working_dir request, si_task_description = sr_task_description request,
      si_relevant_files = sr_relevant_files request, si_git_branch = sr_git_branch request,
      si_additional_context = sr_additional_context request\<rparr>"

text \<open>The identifier is \<^verbatim>\<open>sched_\<close> and eight random hexadecimal digits, an argument here.\<close>

definition schedule :: "bool \<Rightarrow> string \<Rightarrow> int \<Rightarrow> int \<Rightarrow> schedule_request \<Rightarrow> ambient_manager \<Rightarrow> string \<times> ambient_manager" where
  "schedule io i now created_at request self =
     (i, self\<lparr>am_queue := ScheduledQueue_push io (new_item i now created_at request) (am_queue self)\<rparr>)"

text \<open>
  The outcome tells whether the call failed: when the state cannot be written, the request of the
  cycle is not scheduled.
\<close>

definition record_cycle_result ::
    "bool \<Rightarrow> bool \<Rightarrow> string \<Rightarrow> int \<Rightarrow> int \<Rightarrow> int \<Rightarrow> ambient_cycle_result \<Rightarrow> ambient_manager \<Rightarrow> bool \<times> ambient_manager" where
  "record_cycle_result state_io queue_io i now now' created_at r self =
     (let self = self\<lparr>am_state := record_cycle now r (am_state self)\<rparr> in
      if \<not> state_io then (False, self)
      else
        let self = self\<lparr>am_saved := Some (am_state self)\<rparr>
        in case cr_next_schedule r of
             Some req \<Rightarrow> (True, snd (schedule queue_io i now' created_at req self))
           | None \<Rightarrow> (True, self))"

definition take_ready_items :: "bool \<Rightarrow> int \<Rightarrow> ambient_manager \<Rightarrow> scheduled_item list \<times> ambient_manager" where
  "take_ready_items io now self =
     (let (ready, q) = pop_ready io now (am_queue self) in (ready, self\<lparr>am_queue := q\<rparr>))"

definition manager_take_ready_direct_items ::
    "bool \<Rightarrow> int \<Rightarrow> ambient_manager \<Rightarrow> scheduled_item list \<times> ambient_manager" where
  "manager_take_ready_direct_items io now self =
     (let (ready, q) = take_ready_direct_items io now (am_queue self) in (ready, self\<lparr>am_queue := q\<rparr>))"

subsection \<open>Directives\<close>

record user_directive =
  ud_id :: string
  ud_text :: string
  ud_received_at :: int
  ud_in_reply_to_cycle :: string
  ud_consumed :: bool

text \<open>The file of directives; a file that is missing or unreadable counts as empty.\<close>

definition load_directives :: "user_directive list option \<Rightarrow> user_directive list" where
  "load_directives disk = (case disk of Some ds \<Rightarrow> ds | None \<Rightarrow> [])"

definition add_directive ::
    "bool \<Rightarrow> string \<Rightarrow> int \<Rightarrow> string \<Rightarrow> string \<Rightarrow> user_directive list option \<Rightarrow> user_directive list option" where
  "add_directive io i now text in_reply_to disk =
     (let directives = load_directives disk @ [\<lparr>ud_id = i, ud_text = text, ud_received_at = now,
            ud_in_reply_to_cycle = in_reply_to, ud_consumed = False\<rparr>]
      in if io then Some directives else disk)"

definition take_pending_directives ::
    "bool \<Rightarrow> user_directive list option \<Rightarrow> user_directive list \<times> user_directive list option" where
  "take_pending_directives io disk =
     (let all = load_directives disk; pending = filter (\<lambda>d. \<not> ud_consumed d) all in
      if pending = [] then (pending, disk)
      else
        let all = map (\<lambda>d. if \<not> ud_consumed d then d\<lparr>ud_consumed := True\<rparr> else d) all
        in (pending, if io then Some all else disk))"

definition has_pending_directives :: "user_directive list option \<Rightarrow> bool" where
  "has_pending_directives disk = list_ex (\<lambda>d. \<not> ud_consumed d) (load_directives disk)"

subsection \<open>The lock file\<close>

text \<open>
  The lock file and the processes that run. \<^verbatim>\<open>try_acquire\<close> calls the operating system several times:
  it reads the file, removes it unless it names a running process, and creates it anew, which may fail
  (the result is then \<^term>\<open>None\<close>, for an error).
\<close>

definition lock_held :: "(nat \<Rightarrow> bool) \<Rightarrow> string option \<Rightarrow> bool" where
  "lock_held alive lock =
     (case lock of
        None \<Rightarrow> False
      | Some contents \<Rightarrow>
          (case parse_unsigned (2 ^ 32) (trim contents) of Some pid \<Rightarrow> alive pid | None \<Rightarrow> False))"

definition try_acquire :: "bool \<Rightarrow> (nat \<Rightarrow> bool) \<Rightarrow> nat \<Rightarrow> string option \<Rightarrow> bool option \<times> string option" where
  "try_acquire io alive pid lock =
     (if lock_held alive lock then (Some False, lock)
      else if io then (Some True, Some (show_nat pid)) else (None, None))"

definition lock_release :: "string option \<Rightarrow> string option" where
  "lock_release lock = None"


section \<open>Delivery from the queue\<close>

text \<open>
  What a client of a queue with due times may rely on, for several ways of taking items out: nothing
  is lost or delivered twice, whatever the order of the calls, and what is due goes.
\<close>

datatype ('k, 'a) queue_op = Put bool 'a | TakeDue bool 'k int

fun put_items :: "('k, 'a) queue_op list \<Rightarrow> 'a list" where
  "put_items [] = []"
| "put_items (Put _ x # ops) = x # put_items ops"
| "put_items (TakeDue _ _ _ # ops) = put_items ops"

locale due_queue =
  fixes contents :: "'q \<Rightarrow> 'a multiset"
    and put :: "bool \<Rightarrow> 'a \<Rightarrow> 'q \<Rightarrow> 'q"
    and take_due :: "bool \<Rightarrow> 'k \<Rightarrow> int \<Rightarrow> 'q \<Rightarrow> 'a list \<times> 'q"
    and due :: "'k \<Rightarrow> int \<Rightarrow> 'a \<Rightarrow> bool"
  assumes contents_put: "contents (put io x q) = add_mset x (contents q)"
    and delivered: "mset (fst (take_due io k now q)) = filter_mset (due k now) (contents q)"
    and kept: "contents (snd (take_due io k now q)) = filter_mset (\<lambda>x. \<not> due k now x) (contents q)"
begin

fun apply_op :: "('k, 'a) queue_op \<Rightarrow> 'a list \<times> 'q \<Rightarrow> 'a list \<times> 'q" where
  "apply_op (Put io x) (out, q) = (out, put io x q)"
| "apply_op (TakeDue io k now) (out, q) = (out @ fst (take_due io k now q), snd (take_due io k now q))"

lemma conserved:
  "mset (fst (fold apply_op ops (out, q))) + contents (snd (fold apply_op ops (out, q))) =
     mset out + contents q + mset (put_items ops)"
proof (induction ops arbitrary: out q)
  case (Cons p ops)
  show ?case
  proof (cases p)
    case (Put io x)
    then show ?thesis by (simp add: Cons contents_put)
  next
    case (TakeDue io k now)
    have "mset (fst (take_due io k now q)) + contents (snd (take_due io k now q)) = contents q"
      unfolding delivered kept by (rule multiset_partition[symmetric])
    then show ?thesis using Cons[of "out @ fst (take_due io k now q)" "snd (take_due io k now q)"]
      by (simp add: TakeDue ac_simps)
  qed
qed simp

lemma due_taken: "x \<in># contents (snd (take_due io k now q)) \<Longrightarrow> \<not> due k now x"
  by (simp add: kept)

end

text \<open>The two ways to take items: all that are due, or those to deliver directly.\<close>

fun queue_take :: "bool \<Rightarrow> bool \<Rightarrow> int \<Rightarrow> scheduled_queue \<Rightarrow> scheduled_item list \<times> scheduled_queue" where
  "queue_take io direct now q = (if direct then take_ready_direct_items io now q else pop_ready io now q)"

definition item_due :: "bool \<Rightarrow> int \<Rightarrow> scheduled_item \<Rightarrow> bool" where
  "item_due direct now i \<longleftrightarrow> si_scheduled_for i \<le> now \<and> (direct \<longrightarrow> is_direct_delivery (si_target i))"

lemma split_direct_eq:
  "split_direct now is = partition (\<lambda>i. si_scheduled_for i \<le> now \<and> is_direct_delivery (si_target i)) is"
  by (induction "is") auto

lemma sq_items_save [simp]: "sq_items (ScheduledQueue_save io q) = sq_items q"
  by (simp add: ScheduledQueue_save_def)

lemma queue_take_eq:
  "fst (queue_take io direct now q) = sort_key delivery_key (filter (item_due direct now) (sq_items q))"
  "sq_items (snd (queue_take io direct now q)) = filter (\<lambda>i. \<not> item_due direct now i) (sq_items q)"
  by (simp_all add: take_ready_direct_items_def pop_ready_def split_direct_eq item_due_def[abs_def] Let_def comp_def)

interpretation sq: due_queue "\<lambda>q. mset (sq_items q)" ScheduledQueue_push queue_take item_due
  by unfold_locales (simp_all add: ScheduledQueue_push_def queue_take_eq del: queue_take.simps)

definition queue_run ::
    "(bool, scheduled_item) queue_op list \<Rightarrow> scheduled_queue \<Rightarrow> scheduled_item list \<times> scheduled_queue" where
  "queue_run ops q =
     fold (\<lambda>p (out, q). case p of
         Put io x \<Rightarrow> (out, ScheduledQueue_push io x q)
       | TakeDue io direct now \<Rightarrow> map_prod ((@) out) id (queue_take io direct now q)) ops ([], q)"

lemma queue_run_eq: "queue_run ops q = fold sq.apply_op ops ([], q)"
proof -
  have "(\<lambda>p (out, q). case p of
         Put io x \<Rightarrow> (out, ScheduledQueue_push io x q)
       | TakeDue io direct now \<Rightarrow> map_prod ((@) out) id (queue_take io direct now q)) = sq.apply_op"
    by (rule ext)+ (auto split: queue_op.split simp: map_prod_def case_prod_unfold simp del: queue_take.simps)
  then show ?thesis by (simp add: queue_run_def)
qed


lemma min_by_time_in: "min_by_time is = Some i \<Longrightarrow> i \<in> set is \<and> (\<forall>j\<in>set is. si_scheduled_for i \<le> si_scheduled_for j)"
proof (induction "is" arbitrary: i)
  case (Cons a "is")
  show ?case
  proof (cases "min_by_time is")
    case None
    then have "is = []" by (cases "is") (auto split: option.splits if_splits)
    then show ?thesis using Cons.prems by simp
  next
    case (Some j)
    then show ?thesis using Cons.IH[OF Some] Cons.prems by (auto split: if_splits)
  qed
qed simp

lemma min_by_time_None [simp]: "min_by_time is = None \<longleftrightarrow> is = []"
  by (cases "is") (auto split: option.splits if_splits)

lemma delivery_key_le:
  "delivery_key a \<le> delivery_key b \<longleftrightarrow> si_priority b < si_priority a \<or>
     si_priority a = si_priority b \<and> si_scheduled_for a \<le> si_scheduled_for b"
  by (cases "si_priority a"; cases "si_priority b") (auto simp: delivery_key_def less_eq_prod_def less_priority_def)

text \<open>
  \<^verbatim>\<open>pop_ready\<close> returns exactly the items that are due, by falling priority and for equal priority
  by rising time, keeps the others in their order, and the next item it leaves lies in the future.
\<close>

theorem pop_ready_exact:
  assumes "pop_ready io now q = (ready, q')"
  shows "mset ready = {#i \<in># mset (sq_items q). si_scheduled_for i \<le> now#}
    \<and> sorted_wrt (\<lambda>a b. si_priority b < si_priority a \<or>
          si_priority a = si_priority b \<and> si_scheduled_for a \<le> si_scheduled_for b) ready
    \<and> sq_items q' = filter (\<lambda>i. now < si_scheduled_for i) (sq_items q)
    \<and> (case peek_next q' of None \<Rightarrow> sq_items q' = [] | Some i \<Rightarrow> now < si_scheduled_for i)"
proof -
  have ready: "ready = sort_key delivery_key (filter (\<lambda>i. si_scheduled_for i \<le> now) (sq_items q))"
    and rest: "sq_items q' = filter (\<lambda>i. now < si_scheduled_for i) (sq_items q)"
    using queue_take_eq[of io False now q] assms by (simp_all add: item_due_def[abs_def] not_le)
  have "sorted (map delivery_key ready)" by (simp add: ready)
  then have "sorted_wrt (\<lambda>a b. si_priority b < si_priority a \<or>
      si_priority a = si_priority b \<and> si_scheduled_for a \<le> si_scheduled_for b) ready"
    by (simp add: sorted_map delivery_key_le)
  moreover have "case peek_next q' of None \<Rightarrow> sq_items q' = [] | Some i \<Rightarrow> now < si_scheduled_for i"
    by (auto simp: peek_next_def rest dest: min_by_time_in split: option.split)
  ultimately show ?thesis by (simp add: ready rest)
qed

lemma sort_key_Nil: "sort_key f xs = [] \<longleftrightarrow> xs = []"
  by (metis length_0_conv length_sort)

text \<open>With writes that succeed the file always holds the queue.\<close>

lemma queue_saved:
  assumes "sq_saved q = Some (sq_items q)"
  shows "sq_saved (ScheduledQueue_push True i q) = Some (sq_items (ScheduledQueue_push True i q))"
    "sq_saved (snd (queue_take True direct now q)) = Some (sq_items (snd (queue_take True direct now q)))"
  using assms
  by (auto simp: ScheduledQueue_push_def ScheduledQueue_save_def pop_ready_def take_ready_direct_items_def
      split_direct_eq Let_def filter_empty_conv comp_def sort_key_Nil intro!: filter_True[symmetric])


text \<open>
  A cycle that asks to be run again is: after \<^verbatim>\<open>record_cycle_result\<close> for a complete cycle with a
  request, ambient mode runs exactly from the wake time on (unless it is turned off), and
  \<^verbatim>\<open>pop_ready\<close> from the time of the queued item on delivers an item with the context,
  priority and target of the request. When the state cannot be saved, the request is dropped.
\<close>

theorem requested_cycle_runs:
  assumes "cr_status r = Complete" "cr_next_schedule r = Some req"
    and "record_cycle_result True queue_io i now now' created r m = (True, m')"
  shows "(\<forall>t. should_run True t m' = (wake_time now req \<le> t))
    \<and> (\<forall>t io. wake_time now' req \<le> t \<longrightarrow> new_item i now' created req \<in> set (fst (take_ready_items io t m')))
    \<and> am_queue (snd (record_cycle_result False queue_io i now now' created r m)) = am_queue m"
proof (intro conjI allI impI)
  let ?q = "ScheduledQueue_push queue_io (new_item i now' created req) (am_queue m)"
  have q: "am_queue m' = ?q" "as_status (am_state m') = Scheduled (wake_time now req)"
    using assms by (auto simp: record_cycle_result_def record_cycle_def schedule_def)
  show "should_run True t m' = (wake_time now req \<le> t)" for t
    using q(2) by (simp add: should_run_def)
  show "new_item i now' created req \<in> set (fst (take_ready_items io t m'))" if "wake_time now' req \<le> t" for t io
  proof -
    have "mset (fst (take_ready_items io t m')) = filter_mset (item_due False t) (mset (sq_items ?q))"
      using sq.delivered[of io False t ?q] q(1) by (simp add: take_ready_items_def case_prod_unfold Let_def)
    moreover have "new_item i now' created req \<in># filter_mset (item_due False t) (mset (sq_items ?q))"
      using that by (simp add: ScheduledQueue_push_def item_due_def new_item_def)
    ultimately show ?thesis by (metis set_mset_mset)
  qed
  show "am_queue (snd (record_cycle_result False queue_io i now now' created r m)) = am_queue m"
    by (simp add: record_cycle_result_def)
qed

section \<open>Directives\<close>

text \<open>Each directive is handed out once, as long as the file can be written.\<close>

lemma has_pending_iff: "has_pending_directives disk \<longleftrightarrow> fst (take_pending_directives io disk) \<noteq> []"
  by (auto simp: has_pending_directives_def take_pending_directives_def Let_def list_ex_iff filter_empty_conv)

lemma list_ex_not: "list_ex (\<lambda>x. \<not> P x) xs \<longleftrightarrow> \<not> list_all P xs"
  by (induction xs) auto

lemma list_all_marked: "list_all ud_consumed (map (\<lambda>d. if \<not> ud_consumed d then d\<lparr>ud_consumed := True\<rparr> else d) ds)"
  by (induction ds) auto

lemma directives_taken_once:
  assumes "take_pending_directives True disk = (pending, disk')"
  shows "(\<forall>d\<in>set pending. \<not> ud_consumed d) \<and> \<not> has_pending_directives disk'"
proof (cases "pending = []")
  case True
  then have "disk' = disk" using assms by (simp add: take_pending_directives_def Let_def split: if_splits)
  then show ?thesis using True assms has_pending_iff[of disk True] by simp
next
  case False
  then have "disk' = Some (map (\<lambda>d. if \<not> ud_consumed d then d\<lparr>ud_consumed := True\<rparr> else d) (load_directives disk))"
    "pending = filter (\<lambda>d. \<not> ud_consumed d) (load_directives disk)"
    using assms by (simp_all add: take_pending_directives_def Let_def split: if_splits)
  then show ?thesis using list_all_marked[of "load_directives disk"]
    by (simp only: has_pending_directives_def load_directives_def option.case list_ex_not) simp
qed

lemma directive_added:
  "fst (take_pending_directives io (add_directive True i now t r disk)) =
     fst (take_pending_directives io disk) @ [\<lparr>ud_id = i, ud_text = t, ud_received_at = now, ud_in_reply_to_cycle = r, ud_consumed = False\<rparr>]"
  by (simp add: take_pending_directives_def add_directive_def load_directives_def Let_def)

section \<open>The lock\<close>

lemma trim_show_nat: "trim (show_nat n) = show_nat n"
proof -
  have plain: "\<not> utf8_cont c \<and> \<not> is_whitespace [c]" if "c \<in> set (show_nat n)" for c
    using plain_show_nat[of n] that by (simp add: list_all_iff)
  then have chars: "utf8_chars (show_nat n) = map (\<lambda>c. [c]) (show_nat n)"
    by (intro utf8_chars_ascii) (simp add: list_all_iff)
  have "dropWhile is_whitespace (map (\<lambda>c. [c]) (show_nat n)) = map (\<lambda>c. [c]) (show_nat n)"
    using plain by (cases "show_nat n") auto
  moreover have "dropWhile is_whitespace (rev (map (\<lambda>c. [c]) (show_nat n))) = rev (map (\<lambda>c. [c]) (show_nat n))"
    using plain by (cases "show_nat n" rule: rev_cases) auto
  ultimately have "utf8_chars (trim (show_nat n)) = utf8_chars (show_nat n)"
    unfolding utf8_chars_trim chars by simp
  then show ?thesis by (simp add: utf8_chars_inject)
qed

lemma lock_held_show: "p < 2 ^ 32 \<Longrightarrow> lock_held alive (Some (show_nat p)) = alive p"
  by (simp add: lock_held_def trim_show_nat parse_unsigned_show)

text \<open>
  Processes that take the lock, let it go, end without letting go, or start. In \<^verbatim>\<open>lock_step\<close> the
  system calls of \<^verbatim>\<open>try_acquire\<close> are one step.
\<close>

record lock_state =
  lk_file :: "string option"
  lk_alive :: "nat \<Rightarrow> bool"
  lk_holders :: "nat set"

inductive lock_step :: "lock_state \<Rightarrow> lock_state \<Rightarrow> bool" where
  acquire: "lk_alive s p \<Longrightarrow> p < 2 ^ 32 \<Longrightarrow> try_acquire io (lk_alive s) p (lk_file s) = (Some True, f) \<Longrightarrow>
     lock_step s (s\<lparr>lk_file := f, lk_holders := insert p (lk_holders s)\<rparr>)"
| refuse: "lk_alive s p \<Longrightarrow> try_acquire io (lk_alive s) p (lk_file s) = (r, f) \<Longrightarrow> r \<noteq> Some True \<Longrightarrow>
     lock_step s (s\<lparr>lk_file := f\<rparr>)"
| release: "p \<in> lk_holders s \<Longrightarrow>
     lock_step s (s\<lparr>lk_file := lock_release (lk_file s), lk_holders := lk_holders s - {p}\<rparr>)"
| die: "lk_alive s p \<Longrightarrow>
     lock_step s (s\<lparr>lk_alive := (lk_alive s)(p := False), lk_holders := lk_holders s - {p}\<rparr>)"
| start: "\<not> lk_alive s p \<Longrightarrow> lock_step s (s\<lparr>lk_alive := (lk_alive s)(p := True)\<rparr>)"

definition lock_inv :: "lock_state \<Rightarrow> bool" where
  "lock_inv s \<longleftrightarrow> (\<forall>p\<in>lk_holders s. lk_alive s p \<and> p < 2 ^ 32 \<and> lk_file s = Some (show_nat p))"

lemma lock_inv_unique: "lock_inv s \<Longrightarrow> p \<in> lk_holders s \<Longrightarrow> q \<in> lk_holders s \<Longrightarrow> p = q"
  by (metis lock_inv_def option.inject show_nat_inject)

lemma lock_step_inv: "lock_step s s' \<Longrightarrow> lock_inv s \<Longrightarrow> lock_inv s'"
proof (induction rule: lock_step.induct)
  case (acquire s p io f)
  then have free: "\<not> lock_held (lk_alive s) (lk_file s)" "f = Some (show_nat p)"
    by (auto simp: try_acquire_def split: if_splits)
  have "lk_holders s = {}" using acquire.prems free(1) lock_held_show by (fastforce simp: lock_inv_def)
  then show ?case using acquire free by (simp add: lock_inv_def)
next
  case (refuse s p io r f)
  then have "f = lk_file s \<or> \<not> lock_held (lk_alive s) (lk_file s)"
    by (auto simp: try_acquire_def split: if_splits)
  then show ?case using refuse.prems lock_held_show by (fastforce simp: lock_inv_def)
next
  case (release p s)
  then have "q = p" if "q \<in> lk_holders s" for q using that lock_inv_unique by blast
  then show ?case by (auto simp: lock_inv_def)
qed (auto simp: lock_inv_def)

text \<open>
  When no two calls of \<^verbatim>\<open>try_acquire\<close> overlap, at most one running process holds the lock, whatever
  the file held at first and however the processes end and start.
\<close>

theorem lock_exclusive:
  assumes "lock_step\<^sup>*\<^sup>* \<lparr>lk_file = f, lk_alive = alive, lk_holders = {}\<rparr> s" "p \<in> lk_holders s" "q \<in> lk_holders s"
  shows "p = q"
proof -
  have "lock_inv s" using assms(1)
    by (induction rule: rtranclp_induct) (simp add: lock_inv_def, blast intro: lock_step_inv)
  then show ?thesis using assms(2,3) by (rule lock_inv_unique)
qed

text \<open>The same with the system calls of one process between those of another.\<close>

datatype lock_pc = Start | SawFree | Removed | Holding

record race_state =
  rs_file :: "string option"
  rs_pc :: "nat \<Rightarrow> lock_pc"

inductive race_step :: "(nat \<Rightarrow> bool) \<Rightarrow> race_state \<Rightarrow> race_state \<Rightarrow> bool" for alive where
  look: "alive p \<Longrightarrow> rs_pc s p = Start \<Longrightarrow> \<not> lock_held alive (rs_file s) \<Longrightarrow>
     race_step alive s (s\<lparr>rs_pc := (rs_pc s)(p := SawFree)\<rparr>)"
| remove: "rs_pc s p = SawFree \<Longrightarrow>
     race_step alive s (s\<lparr>rs_file := None, rs_pc := (rs_pc s)(p := Removed)\<rparr>)"
| create: "rs_pc s p = Removed \<Longrightarrow>
     race_step alive s (s\<lparr>rs_file := Some (show_nat p), rs_pc := (rs_pc s)(p := Holding)\<rparr>)"

inductive_simps race_step_simps: "race_step alive s s'"

text \<open>
  The calls are not atomic: any two running processes can both end up holding the lock, one having
  looked before the other wrote.
\<close>

theorem lock_race:
  assumes "alive p" "alive q" "p \<noteq> q"
  shows "\<exists>s. (race_step alive)\<^sup>*\<^sup>* \<lparr>rs_file = None, rs_pc = (\<lambda>_. Start)\<rparr> s \<and> rs_pc s p = Holding \<and> rs_pc s q = Holding"
proof -
  define s0 where "s0 = \<lparr>rs_file = None, rs_pc = (\<lambda>_. Start)\<rparr>"
  define st where "st f a b = \<lparr>rs_file = f, rs_pc = (\<lambda>_. Start)(p := a, q := b)\<rparr>" for f a b
  have step: "(race_step alive)\<^sup>*\<^sup>* s0 s' \<Longrightarrow> race_step alive s' s'' \<Longrightarrow> (race_step alive)\<^sup>*\<^sup>* s0 s''" for s' s''
    by (rule rtranclp.rtrancl_into_rtrancl)
  have "(race_step alive)\<^sup>*\<^sup>* s0 (st None SawFree Start)"
    using race_step.look[of alive p s0] assms by (auto simp: s0_def st_def lock_held_def fun_upd_idem)
  then have "(race_step alive)\<^sup>*\<^sup>* s0 (st None SawFree SawFree)"
    by (rule step) (use race_step.look[of alive q "st None SawFree Start"] assms in \<open>simp add: st_def lock_held_def\<close>)
  then have "(race_step alive)\<^sup>*\<^sup>* s0 (st None Removed SawFree)"
    by (rule step) (use race_step.remove[of "st None SawFree SawFree" p] assms in \<open>simp add: st_def fun_upd_twist\<close>)
  then have "(race_step alive)\<^sup>*\<^sup>* s0 (st (Some (show_nat p)) Holding SawFree)"
    by (rule step) (use race_step.create[of "st None Removed SawFree" p] assms in \<open>simp add: st_def fun_upd_twist\<close>)
  then have "(race_step alive)\<^sup>*\<^sup>* s0 (st None Holding Removed)"
    by (rule step) (use race_step.remove[of "st (Some (show_nat p)) Holding SawFree" q] assms in \<open>simp add: st_def\<close>)
  then have "(race_step alive)\<^sup>*\<^sup>* s0 (st (Some (show_nat q)) Holding Holding)"
    by (rule step) (use race_step.create[of "st None Holding Removed" q] assms in \<open>simp add: st_def\<close>)
  moreover have "rs_pc (st (Some (show_nat q)) Holding Holding) p = Holding"
    "rs_pc (st (Some (show_nat q)) Holding Holding) q = Holding" using assms(3) by (simp_all add: st_def)
  ultimately show ?thesis unfolding s0_def by blast
qed

section \<open>Examples\<close>

definition demo_item :: "string \<Rightarrow> int \<Rightarrow> priority \<Rightarrow> scheduled_item" where
  "demo_item i t pr = \<lparr>si_id = i, si_scheduled_for = t, si_context = [], si_priority = pr, si_target = AmbientTarget,
     si_created_by_session = [], si_created_at = 0, si_working_dir = None, si_task_description = None,
     si_relevant_files = [], si_git_branch = None, si_additional_context = None\<rparr>"

definition demo_queue :: scheduled_queue where
  "demo_queue = ScheduledQueue_load
     (Some [demo_item ''a'' 5 Low, demo_item ''b'' 9 High, demo_item ''c'' 3 High, demo_item ''d'' 2 Low])"

theorem pop_ready_exact_witness:
  "map si_id (fst (pop_ready True 5 demo_queue)) = [''c'', ''d'', ''a''] \<and>
     sorted_wrt (\<lambda>a b. si_priority b < si_priority a \<or>
       si_priority a = si_priority b \<and> si_scheduled_for a \<le> si_scheduled_for b) (fst (pop_ready True 5 demo_queue))"
proof -
  have "map si_id (fst (pop_ready True 5 demo_queue)) = [''c'', ''d'', ''a'']"
    by (simp add: demo_queue_def ScheduledQueue_load_def pop_ready_def demo_item_def delivery_key_def Let_def less_eq_prod_def)
  then show ?thesis using pop_ready_exact[of True 5 demo_queue "fst (pop_ready True 5 demo_queue)" "snd (pop_ready True 5 demo_queue)"]
    by simp
qed

definition demo_request :: schedule_request where
  "demo_request = \<lparr>sr_wake_in_minutes = Some 2, sr_wake_at = None, sr_context = ''check'', sr_priority = High,
     sr_target = AmbientTarget, sr_created_by_session = [], sr_working_dir = None, sr_task_description = None,
     sr_relevant_files = [], sr_git_branch = None, sr_additional_context = None\<rparr>"

definition demo_cycle :: ambient_cycle_result where
  "demo_cycle = \<lparr>cr_summary = [], cr_memories_modified = 0, cr_compactions = 0, cr_proactive_work = None,
     cr_next_schedule = Some demo_request, cr_started_at = 0, cr_ended_at = 9, cr_status = Complete, cr_conversation = None\<rparr>"

definition demo_manager :: ambient_manager where
  "demo_manager = \<lparr>am_state = \<lparr>as_status = Idle, as_last_run = None, as_last_summary = None, as_last_compactions = None,
     as_last_memories_modified = None, as_total_cycles = 0\<rparr>, am_queue = ScheduledQueue_load None, am_saved = None\<rparr>"

theorem requested_cycle_runs_witness:
  "let m' = snd (record_cycle_result True True ''s'' 10 11 12 demo_cycle demo_manager)
   in should_run True 120000000010 m' \<and> \<not> should_run True 120000000009 m' \<and>
      new_item ''s'' 11 12 demo_request \<in> set (fst (take_ready_items True 120000000011 m'))"
proof -
  have c: "cr_status demo_cycle = Complete" "cr_next_schedule demo_cycle = Some demo_request"
    by (simp_all add: demo_cycle_def)
  have w: "wake_time t demo_request = t + 120000000000" for t
    by (simp add: wake_time_def minutes_def demo_request_def)
  define m' where "m' = snd (record_cycle_result True True ''s'' 10 11 12 demo_cycle demo_manager)"
  have r: "record_cycle_result True True ''s'' 10 11 12 demo_cycle demo_manager = (True, m')"
    by (simp add: m'_def record_cycle_result_def c Let_def prod_eq_iff)
  show ?thesis unfolding m'_def[symmetric] Let_def
    using requested_cycle_runs[OF c r] by (simp add: w)
qed

theorem lock_exclusive_witness:
  "(7::nat) = 7 \<and> lock_step\<^sup>*\<^sup>* \<lparr>lk_file = None, lk_alive = (\<lambda>p. p = 7), lk_holders = {}\<rparr>
     \<lparr>lk_file = Some (show_nat 7), lk_alive = (\<lambda>p. p = 7), lk_holders = {7}\<rparr>"
proof -
  have "lock_step \<lparr>lk_file = None, lk_alive = (\<lambda>p. p = 7), lk_holders = {}\<rparr>
     \<lparr>lk_file = Some (show_nat 7), lk_alive = (\<lambda>p. p = 7), lk_holders = {7}\<rparr>"
    using lock_step.acquire[of "\<lparr>lk_file = None, lk_alive = (\<lambda>p. p = 7), lk_holders = {}\<rparr>" 7 True "Some (show_nat 7)"]
    by (simp add: try_acquire_def lock_held_def)
  then have "lock_step\<^sup>*\<^sup>* \<lparr>lk_file = None, lk_alive = (\<lambda>p. p = 7), lk_holders = {}\<rparr>
     \<lparr>lk_file = Some (show_nat 7), lk_alive = (\<lambda>p. p = 7), lk_holders = {7}\<rparr>" by blast
  from lock_exclusive[OF this, of 7 7] this show ?thesis by simp
qed

theorem lock_race_witness:
  "\<exists>s. (race_step (\<lambda>_. True))\<^sup>*\<^sup>* \<lparr>rs_file = None, rs_pc = (\<lambda>_. Start)\<rparr> s \<and> rs_pc s 1 = Holding \<and> rs_pc s 2 = Holding"
  using lock_race[of "\<lambda>_. True" 1 2] by simp

end
