(* ===== verification/Safety.thy ===== *)
theory Safety
  imports Session_Types
begin

text \<open>
  The permission queue of ambient mode (\<^verbatim>\<open>src/src/safety.rs\<close>): which actions need a permission, the
  requests that wait for the user, the decisions, and the files both are kept in. A live
  \<^verbatim>\<open>SafetySystem\<close> holds queue and history in memory and writes them after every change; the terminal
  dialog and the mail poller, which run elsewhere, change the files themselves.

  Parameters: \<^verbatim>\<open>lower\<close> is Unicode lower-casing; \<^verbatim>\<open>session_status\<close> tells the status of a session after a check
  for a crash, \<^term>\<open>None\<close> when it cannot be loaded; \<^verbatim>\<open>clock\<close> gives the successive answers of the clock.
\<close>

section \<open>Definitions\<close>

subsection \<open>Types\<close>

datatype action_tier = AutoAllowed | RequiresPermission

datatype urgency = Low | Normal | High

record permission_request =
  pr_id :: string
  pr_action :: string
  pr_description :: string
  pr_rationale :: string
  pr_urgency :: urgency
  pr_wait :: bool
  pr_created_at :: int
  pr_context :: "json option"

datatype permission_result =
    Approved "string option"
  | Denied "string option"
  | Queued string
  | Timeout

record decision =
  de_request_id :: string
  de_approved :: bool
  de_decided_at :: int
  de_decided_via :: string
  de_message :: "string option"

record action_log =
  al_action_type :: string
  al_description :: string
  al_tier :: action_tier
  al_details :: "json option"
  al_timestamp :: int

text \<open>What is in memory, the notifications sent, and what is in the two files.\<close>

record safety_system =
  ss_queue :: "permission_request list"
  ss_history :: "decision list"
  ss_actions :: "action_log list"
  ss_notified :: "(string \<times> string \<times> string) list"

record safety_files =
  sf_queue :: "permission_request list option"
  sf_history :: "decision list option"

subsection \<open>Classification\<close>

definition AUTO_ALLOWED :: "string list" where
  "AUTO_ALLOWED =
     [''read'', ''glob'', ''grep'', ''ls'', ''memory'', ''todo'', ''todowrite'', ''todoread'',
      ''conversation_search'', ''session_search'', ''codesearch'']"

definition classify :: "(string \<Rightarrow> string) \<Rightarrow> string \<Rightarrow> action_tier" where
  "classify lower action =
     (if list_ex (\<lambda>a. a = lower action) AUTO_ALLOWED then AutoAllowed else RequiresPermission)"

subsection \<open>Stale requests\<close>

definition request_session_id :: "permission_request \<Rightarrow> string option" where
  "request_session_id request =
     (case pr_context request of
        None \<Rightarrow> None
      | Some ctx \<Rightarrow>
        (case Option.bind (json_get ctx ''session_id'') as_str of
           Some s \<Rightarrow> Some s
         | None \<Rightarrow>
             Option.bind (Option.bind (json_get ctx ''requester'') (\<lambda>r. json_get r ''session_id'')) as_str))"

definition stale_request_reason :: "(string \<Rightarrow> session_status option) \<Rightarrow> permission_request \<Rightarrow> string option" where
  "stale_request_reason session_status request =
     (case request_session_id request of
        None \<Rightarrow> None
      | Some sid \<Rightarrow>
        (case session_status sid of
           None \<Rightarrow> Some (''owner session '' @ apos @ sid @ apos @ '' was not found'')
         | Some st \<Rightarrow>
             if st = Active then None
             else Some (''owner session '' @ apos @ sid @ apos @ '' is '' @ SessionStatus_display st)))"

text \<open>The loop of both expiry functions: the requests kept, and the expired ones with their reasons.\<close>

fun split_stale ::
    "(string \<Rightarrow> session_status option) \<Rightarrow> permission_request list \<Rightarrow>
     permission_request list \<times> (string \<times> string) list" where
  "split_stale session_status [] = ([], [])"
| "split_stale session_status (req # q) =
     (let (retained, expired) = split_stale session_status q in
      case stale_request_reason session_status req of
        Some reason \<Rightarrow> (retained, (pr_id req, reason) # expired)
      | None \<Rightarrow> (req # retained, expired))"

definition expired_decision :: "string \<Rightarrow> (string \<times> string) \<times> int \<Rightarrow> decision" where
  "expired_decision via e =
     (let ((request_id, reason), now) = e in
      \<lparr>de_request_id = request_id, de_approved = False, de_decided_at = now, de_decided_via = via,
       de_message = Some (''Expired automatically: '' @ reason @ ''. Original agent is no longer active.'')\<rparr>)"

definition expired_decisions :: "string \<Rightarrow> (nat \<Rightarrow> int) \<Rightarrow> (string \<times> string) list \<Rightarrow> decision list" where
  "expired_decisions via clock expired =
     map (expired_decision via) (zip expired (map clock [0..<length expired]))"

subsection \<open>The live system\<close>

definition SafetySystem_new :: "safety_files \<Rightarrow> safety_system" where
  "SafetySystem_new fs =
     \<lparr>ss_queue = (case sf_queue fs of Some q \<Rightarrow> q | None \<Rightarrow> []),
      ss_history = (case sf_history fs of Some h \<Rightarrow> h | None \<Rightarrow> []), ss_actions = [], ss_notified = []\<rparr>"

definition persist_queue :: "bool \<Rightarrow> permission_request list \<Rightarrow> safety_files \<Rightarrow> safety_files" where
  "persist_queue io q fs = (if io then fs\<lparr>sf_queue := Some q\<rparr> else fs)"

definition persist_history :: "bool \<Rightarrow> decision list \<Rightarrow> safety_files \<Rightarrow> safety_files" where
  "persist_history io h fs = (if io then fs\<lparr>sf_history := Some h\<rparr> else fs)"

definition request_permission ::
    "bool \<Rightarrow> permission_request \<Rightarrow> safety_system \<times> safety_files \<Rightarrow> permission_result \<times> safety_system \<times> safety_files" where
  "request_permission io request st =
     (let (self, fs) = st;
          self = self\<lparr>ss_queue := ss_queue self @ [request]\<rparr>;
          fs = persist_queue io (ss_queue self) fs;
          self = self\<lparr>ss_notified := ss_notified self @ [(pr_action request, pr_description request, pr_id request)]\<rparr>
      in (Queued (pr_id request), self, fs))"

definition expire_dead_session_requests ::
    "bool \<Rightarrow> (string \<Rightarrow> session_status option) \<Rightarrow> (nat \<Rightarrow> int) \<Rightarrow> string \<Rightarrow>
     safety_system \<times> safety_files \<Rightarrow> string list \<times> safety_system \<times> safety_files" where
  "expire_dead_session_requests io session_status clock via st =
     (let (self, fs) = st;
          (retained, expired) = split_stale session_status (ss_queue self);
          self = self\<lparr>ss_queue := retained\<rparr>;
          fs = persist_queue io (ss_queue self) fs
      in if expired = [] then ([], self, fs)
         else
           let self = self\<lparr>ss_history := ss_history self @ expired_decisions via clock expired\<rparr>;
               fs = persist_history io (ss_history self) fs
           in (map fst expired, self, fs))"

definition new_decision :: "string \<Rightarrow> bool \<Rightarrow> int \<Rightarrow> string \<Rightarrow> string option \<Rightarrow> decision" where
  "new_decision request_id approved now via message =
     \<lparr>de_request_id = request_id, de_approved = approved, de_decided_at = now, de_decided_via = via,
      de_message = message\<rparr>"

definition record_decision ::
    "bool \<Rightarrow> int \<Rightarrow> string \<Rightarrow> bool \<Rightarrow> string \<Rightarrow> string option \<Rightarrow>
     safety_system \<times> safety_files \<Rightarrow> safety_system \<times> safety_files" where
  "record_decision io now request_id approved via message st =
     (let (self, fs) = st;
          self = self\<lparr>ss_queue := filter (\<lambda>r. pr_id r \<noteq> request_id) (ss_queue self)\<rparr>;
          fs = persist_queue io (ss_queue self) fs;
          self = self\<lparr>ss_history := ss_history self @ [new_decision request_id approved now via message]\<rparr>;
          fs = persist_history io (ss_history self) fs
      in (self, fs))"

definition log_action :: "action_log \<Rightarrow> safety_system \<Rightarrow> safety_system" where
  "log_action log self = self\<lparr>ss_actions := ss_actions self @ [log]\<rparr>"

definition em_dash :: string where
  "em_dash = [CHR 0xE2, CHR 0x80, CHR 0x94]"

fun show_urgency :: "urgency \<Rightarrow> string" where
  "show_urgency Low = ''Low''"
| "show_urgency Normal = ''Normal''"
| "show_urgency High = ''High''"

definition action_line :: "action_log \<Rightarrow> string" where
  "action_line a = ''- '' @ al_action_type a @ '' '' @ em_dash @ '' '' @ al_description a"

definition review_line :: "permission_request \<Rightarrow> string" where
  "review_line r =
     ''- ['' @ show_urgency (pr_urgency r) @ ''] '' @ pr_action r @ '' '' @ em_dash @ '' '' @ pr_description r"

definition generate_summary :: "safety_system \<Rightarrow> string" where
  "generate_summary self =
     (let actions = ss_actions self; pending = ss_queue self in
      if actions = [] \<and> pending = [] then ''No actions recorded.''
      else
        let auto = filter (\<lambda>a. al_tier a = AutoAllowed) actions;
            perm = filter (\<lambda>a. al_tier a = RequiresPermission) actions
        in join nl
             ((if auto \<noteq> [] then ''Done (auto-allowed):'' # map action_line auto else []) @
              (if perm \<noteq> [] then [] # ''Done (with permission):'' # map action_line perm else []) @
              (if pending \<noteq> [] then [] # ''Needs your review:'' # map review_line pending else [])))"

subsection \<open>Changing the files\<close>

text \<open>A write that fails ends the call with an error, the first component.\<close>

definition record_permission_via_file ::
    "bool \<Rightarrow> bool \<Rightarrow> int \<Rightarrow> string \<Rightarrow> bool \<Rightarrow> string \<Rightarrow> string option \<Rightarrow> safety_files \<Rightarrow> bool \<times> safety_files" where
  "record_permission_via_file io_q io_h now request_id approved via message fs =
     (let queue = filter (\<lambda>r. pr_id r \<noteq> request_id) (case sf_queue fs of Some q \<Rightarrow> q | None \<Rightarrow> []) in
      if \<not> io_q then (False, fs)
      else
        let fs = persist_queue True queue fs;
            history = (case sf_history fs of Some h \<Rightarrow> h | None \<Rightarrow> []) @ [new_decision request_id approved now via message]
        in if \<not> io_h then (False, fs) else (True, persist_history True history fs))"

definition expire_stale_permissions_via_file ::
    "bool \<Rightarrow> bool \<Rightarrow> (string \<Rightarrow> session_status option) \<Rightarrow> (nat \<Rightarrow> int) \<Rightarrow> string \<Rightarrow> safety_files \<Rightarrow>
     string list option \<times> safety_files" where
  "expire_stale_permissions_via_file io_q io_h session_status clock via fs =
     (let (retained, expired) = split_stale session_status (case sf_queue fs of Some q \<Rightarrow> q | None \<Rightarrow> []) in
      if \<not> io_q then (None, fs)
      else
        let fs = persist_queue True retained fs in
        if expired = [] then (Some [], fs)
        else
          let history = (case sf_history fs of Some h \<Rightarrow> h | None \<Rightarrow> []) @ expired_decisions via clock expired
          in if \<not> io_h then (None, fs) else (Some (map fst expired), persist_history True history fs))"


section \<open>Expiry\<close>

abbreviation stale :: "(string \<Rightarrow> session_status option) \<Rightarrow> permission_request \<Rightarrow> bool" where
  "stale session_status r \<equiv> stale_request_reason session_status r \<noteq> None"

lemma split_stale_eq:
  "fst (split_stale st q) = filter (\<lambda>r. \<not> stale st r) q"
  "map fst (snd (split_stale st q)) = map pr_id (filter (stale st) q)"
  by (induction q) (auto simp: case_prod_unfold Let_def split: option.split)

text \<open>A request is stale exactly when it names a session that is not active.\<close>

lemma stale_iff:
  "stale st r \<longleftrightarrow> (\<exists>sid. request_session_id r = Some sid \<and> st sid \<noteq> Some Active)"
  by (auto simp: stale_request_reason_def split: option.split)

lemma expired_decisions_Nil [simp]: "expired_decisions via clock [] = []"
  by (simp add: expired_decisions_def)

lemma expired_decisions_ids [simp]: "map de_request_id (expired_decisions via clock es) = map fst es"
proof -
  let ?zs = "zip es (map clock [0..<length es])"
  have "map de_request_id (expired_decisions via clock es) = map (fst \<circ> fst) ?zs"
    by (simp add: expired_decisions_def expired_decision_def comp_def case_prod_unfold)
  also have "\<dots> = map fst (map fst ?zs)" by (simp only: map_map)
  also have "map fst ?zs = es" by (rule map_fst_zip) simp
  finally show ?thesis .
qed

lemma expired_decisions_denied: "d \<in> set (expired_decisions via clock es) \<Longrightarrow> \<not> de_approved d \<and> de_decided_via d = via"
  by (auto simp: expired_decisions_def expired_decision_def)

lemma expired_Nil: "snd (split_stale st q) = [] \<longleftrightarrow> filter (stale st) q = []"
  using split_stale_eq(2)[of st q] by (metis map_is_Nil_conv)

text \<open>
  \<^verbatim>\<open>expire_dead_session_requests\<close> removes exactly the pending requests whose session is known and not
  active, returns their identifiers in order, and adds a denial for each to the history; the others
  stay pending in their order.
\<close>

theorem expire_dead_session_requests_exact:
  "\<exists>denials. expire_dead_session_requests io st clock via (self, fs) =
      (map pr_id (filter (stale st) (ss_queue self)),
       self\<lparr>ss_queue := filter (\<lambda>r. \<not> stale st r) (ss_queue self), ss_history := ss_history self @ denials\<rparr>,
       snd (snd (expire_dead_session_requests io st clock via (self, fs)))) \<and>
     map de_request_id denials = map pr_id (filter (stale st) (ss_queue self)) \<and>
     list_all (\<lambda>d. \<not> de_approved d \<and> de_decided_via d = via) denials"
proof -
  obtain retained expired where e: "split_stale st (ss_queue self) = (retained, expired)" by force
  have r: "retained = filter (\<lambda>r. \<not> stale st r) (ss_queue self)" "map fst expired = map pr_id (filter (stale st) (ss_queue self))"
    using split_stale_eq[of st "ss_queue self"] e by simp_all
  have "list_all (\<lambda>d. \<not> de_approved d \<and> de_decided_via d = via) (expired_decisions via clock expired)"
    using expired_decisions_denied by (auto simp: list_all_iff)
  then show ?thesis unfolding r(2)[symmetric] r(1)[symmetric]
    by (intro exI[of _ "expired_decisions via clock expired"])
      (auto simp: expire_dead_session_requests_def e Let_def)
qed

section \<open>Memory and files\<close>

definition in_sync :: "safety_system \<times> safety_files \<Rightarrow> bool" where
  "in_sync st \<longleftrightarrow> (case st of (self, fs) \<Rightarrow>
     sf_queue fs = Some (ss_queue self) \<and>
     (case sf_history fs of Some h \<Rightarrow> h | None \<Rightarrow> []) = ss_history self)"

lemma in_sync_request: "in_sync (self, fs) \<Longrightarrow> in_sync (snd (request_permission True r (self, fs)))"
  by (simp add: in_sync_def request_permission_def Let_def persist_queue_def)

text \<open>
  The two ways to decide and to expire do the same: while the files hold what is in memory, the
  live operation leaves exactly the files that the operation on the files leaves, with the same
  answer, and the files hold again what is in memory.
\<close>

theorem live_and_file_operations_agree:
  assumes "in_sync (self, fs)"
  shows "record_permission_via_file True True now i approved via msg fs =
      (True, snd (record_decision True now i approved via msg (self, fs)))
    \<and> expire_stale_permissions_via_file True True st clock via fs =
      map_prod Some snd (expire_dead_session_requests True st clock via (self, fs))
    \<and> in_sync (record_decision True now i approved via msg (self, fs))
    \<and> in_sync (snd (expire_dead_session_requests True st clock via (self, fs)))"
proof -
  have q: "sf_queue fs = Some (ss_queue self)"
    and h: "(case sf_history fs of Some h \<Rightarrow> h | None \<Rightarrow> []) = ss_history self"
    using assms by (simp_all add: in_sync_def)
  obtain retained expired where e: "split_stale st (ss_queue self) = (retained, expired)" by force
  have expire: "expire_stale_permissions_via_file True True st clock via fs =
      map_prod Some snd (expire_dead_session_requests True st clock via (self, fs))"
    using h by (simp add: expire_stale_permissions_via_file_def expire_dead_session_requests_def q e Let_def
        persist_queue_def persist_history_def)
  have sync: "in_sync (snd (expire_dead_session_requests True st clock via (self, fs)))"
    using h by (simp add: in_sync_def expire_dead_session_requests_def q e Let_def persist_queue_def persist_history_def)
  show ?thesis using h expire sync
    by (simp add: in_sync_def record_permission_via_file_def record_decision_def q Let_def persist_queue_def persist_history_def)
qed

text \<open>
  A decision made through the files is lost when a live system writes again: the request it
  settled is pending in the file once more, and after the next live decision the history no longer
  has it.
\<close>

theorem file_decision_lost:
  assumes "r \<in> set (ss_queue self)" "record_permission_via_file True True now (pr_id r) approved via msg fs = (True, fs')"
  shows "(\<forall>q. q \<notin> set (the (sf_queue fs')) \<or> pr_id q \<noteq> pr_id r)
    \<and> r \<in> set (the (sf_queue (snd (snd (request_permission True req (self, fs'))))))
    \<and> sf_history (snd (record_decision True now' i approved' via' msg' (self, fs'))) =
        Some (ss_history self @ [new_decision i approved' now' via' msg'])"
  using assms by (auto simp: record_permission_via_file_def request_permission_def record_decision_def
      persist_queue_def persist_history_def Let_def)

section \<open>Every request is pending or decided\<close>

text \<open>Runs of the live system from the start, in which every request has a new identifier.\<close>

inductive safety_reach :: "string set \<Rightarrow> safety_system \<times> safety_files \<Rightarrow> bool" where
  start: "safety_reach {} (SafetySystem_new \<lparr>sf_queue = None, sf_history = None\<rparr>, \<lparr>sf_queue = Some [], sf_history = None\<rparr>)"
| request: "safety_reach ids st \<Longrightarrow> pr_id r \<notin> ids \<Longrightarrow> pr_id r \<notin> de_request_id ` set (ss_history (fst st)) \<Longrightarrow>
    safety_reach (insert (pr_id r) ids) (snd (request_permission True r st))"
| decide: "safety_reach ids st \<Longrightarrow> safety_reach ids (record_decision True now i approved via msg st)"
| expire: "safety_reach ids st \<Longrightarrow> safety_reach ids (snd (expire_dead_session_requests True status clock via st))"

definition safety_inv :: "string set \<Rightarrow> safety_system \<times> safety_files \<Rightarrow> bool" where
  "safety_inv ids st \<longleftrightarrow>
     (let pending = pr_id ` set (ss_queue (fst st)); decided = de_request_id ` set (ss_history (fst st))
      in distinct (map pr_id (ss_queue (fst st))) \<and> pending \<inter> decided = {} \<and> pending \<subseteq> ids \<and>
         ids \<subseteq> pending \<union> decided \<and> in_sync st)"

lemma split_accounting:
  "A \<inter> D = {} \<Longrightarrow> A \<subseteq> I \<Longrightarrow> I \<subseteq> A \<union> D \<Longrightarrow> A = K \<union> G \<Longrightarrow> K \<inter> G = {} \<Longrightarrow>
     K \<inter> (D \<union> G) = {} \<and> K \<subseteq> I \<and> I \<subseteq> K \<union> (D \<union> G)"
  by blast

lemma safety_reach_inv: "safety_reach ids st \<Longrightarrow> safety_inv ids st"
proof (induction rule: safety_reach.induct)
  case start
  then show ?case by (simp add: safety_inv_def SafetySystem_new_def in_sync_def)
next
  case (request ids st r)
  obtain self fs where st: "st = (self, fs)" by (cases st)
  have "in_sync (snd (request_permission True r (self, fs)))"
    using request.IH in_sync_request by (simp add: safety_inv_def st Let_def)
  then show ?case using request.IH request.hyps(2,3)
    by (auto simp: safety_inv_def st request_permission_def Let_def)
next
  case (decide ids st now i approved via msg)
  obtain self fs where st: "st = (self, fs)" by (cases st)
  have "in_sync (record_decision True now i approved via msg (self, fs))"
    using decide.IH live_and_file_operations_agree by (simp add: safety_inv_def st Let_def)
  then show ?case using decide.IH
    by (auto simp: safety_inv_def st record_decision_def Let_def new_decision_def distinct_map inj_on_def)
next
  case (expire ids st status clock via)
  obtain self fs where st: "st = (self, fs)" by (cases st)
  obtain denials where e: "expire_dead_session_requests True status clock via (self, fs) =
      (map pr_id (filter (stale status) (ss_queue self)),
       self\<lparr>ss_queue := filter (\<lambda>r. \<not> stale status r) (ss_queue self), ss_history := ss_history self @ denials\<rparr>,
       snd (snd (expire_dead_session_requests True status clock via (self, fs))))"
    and dids: "map de_request_id denials = map pr_id (filter (stale status) (ss_queue self))"
    using expire_dead_session_requests_exact[of True status clock via self fs] by blast
  note d = arg_cong[OF e, of "\<lambda>x. fst (snd x)", unfolded fst_conv snd_conv]
  have ids: "de_request_id ` set denials = pr_id ` set (filter (stale status) (ss_queue self))"
    using dids by (metis set_map)
  let ?q = "ss_queue self"
  let ?kept = "{r \<in> set ?q. \<not> stale status r}" and ?gone = "{r \<in> set ?q. stale status r}"
  have IH: "distinct (map pr_id ?q)" "pr_id ` set ?q \<inter> de_request_id ` set (ss_history self) = {}"
    "pr_id ` set ?q \<subseteq> ids" "ids \<subseteq> pr_id ` set ?q \<union> de_request_id ` set (ss_history self)" "in_sync (self, fs)"
    using expire.IH by (simp_all add: safety_inv_def st Let_def)
  have "pr_id ` ?kept \<inter> pr_id ` ?gone = pr_id ` (?kept \<inter> ?gone)"
    using IH(1) by (intro inj_on_image_Int[symmetric, of _ "set ?q"]) (auto simp: distinct_map)
  then have apart: "pr_id ` ?kept \<inter> pr_id ` ?gone = {}" by auto
  have "set ?q = ?kept \<union> ?gone" by blast
  then have both: "pr_id ` set ?q = pr_id ` ?kept \<union> pr_id ` ?gone" by (metis image_Un)
  have sync: "in_sync (snd (expire_dead_session_requests True status clock via (self, fs)))"
    using live_and_file_operations_agree[OF IH(5)] by simp
  have "distinct (map pr_id (filter (\<lambda>r. \<not> stale status r) ?q))" using IH(1) by (rule distinct_map_filter)
  moreover note split_accounting[OF IH(2-4) both apart]
  moreover have "de_request_id ` set (ss_history self @ denials) = de_request_id ` set (ss_history self) \<union> pr_id ` ?gone"
    unfolding set_append image_Un ids set_filter ..
  moreover have "pr_id ` set (filter (\<lambda>r. \<not> stale status r) ?q) = pr_id ` ?kept" unfolding set_filter ..
  moreover have "fst (snd (expire_dead_session_requests True status clock via st)) =
      self\<lparr>ss_queue := filter (\<lambda>r. \<not> stale status r) ?q, ss_history := ss_history self @ denials\<rparr>"
    unfolding st by (rule d)
  ultimately show ?case using sync unfolding safety_inv_def Let_def st by simp
qed


text \<open>
  C0: An action runs without permission exactly when its lower-case name is one of eleven, all of which
  only read or keep the agent's own notes; in particular none that edits files or runs commands.
\<close>

theorem classify_exact:
  "(classify lower action = AutoAllowed) = (lower action \<in> set AUTO_ALLOWED)
    \<and> list_all (\<lambda>a. classify id a = RequiresPermission)
        [''bash'', ''write'', ''edit'', ''multiedit'', ''patch'', ''apply_patch'', ''communicate'', ''webfetch'', []]"
  by (auto simp: classify_def AUTO_ALLOWED_def)

section \<open>Examples\<close>

definition demo_permission :: "string \<Rightarrow> permission_request" where
  "demo_permission i = \<lparr>pr_id = i, pr_action = ''push'', pr_description = ''Push to origin'', pr_rationale = [],
     pr_urgency = Low, pr_wait = False, pr_created_at = 0, pr_context = Some (JObject [(''session_id'', JString ''s'')])\<rparr>"

theorem live_and_file_operations_agree_witness:
  "record_permission_via_file True True 5 ''r'' True ''mail'' None \<lparr>sf_queue = Some [demo_permission ''r''], sf_history = None\<rparr> =
    (True, snd (record_decision True 5 ''r'' True ''mail'' None
       (SafetySystem_new \<lparr>sf_queue = Some [demo_permission ''r''], sf_history = None\<rparr>,
        \<lparr>sf_queue = Some [demo_permission ''r''], sf_history = None\<rparr>)))"
proof -
  have "in_sync (SafetySystem_new \<lparr>sf_queue = Some [demo_permission ''r''], sf_history = None\<rparr>,
        \<lparr>sf_queue = Some [demo_permission ''r''], sf_history = None\<rparr>)"
    by (simp add: in_sync_def SafetySystem_new_def)
  from live_and_file_operations_agree[OF this] show ?thesis by blast
qed

theorem file_decision_lost_witness:
  "let self = SafetySystem_new \<lparr>sf_queue = Some [demo_permission ''r''], sf_history = None\<rparr>;
       fs' = snd (record_permission_via_file True True 5 ''r'' True ''mail'' None
               \<lparr>sf_queue = Some [demo_permission ''r''], sf_history = None\<rparr>)
   in sf_queue fs' = Some [] \<and>
      demo_permission ''r'' \<in> set (the (sf_queue (snd (snd (request_permission True (demo_permission ''q'') (self, fs'))))))"
proof -
  define self where "self = SafetySystem_new \<lparr>sf_queue = Some [demo_permission ''r''], sf_history = None\<rparr>"
  define fs' where "fs' = snd (record_permission_via_file True True 5 ''r'' True ''mail'' None
               \<lparr>sf_queue = Some [demo_permission ''r''], sf_history = None\<rparr>)"
  have "demo_permission ''r'' \<in> set (ss_queue self)" by (simp add: self_def SafetySystem_new_def)
  moreover have "record_permission_via_file True True 5 (pr_id (demo_permission ''r'')) True ''mail'' None
      \<lparr>sf_queue = Some [demo_permission ''r''], sf_history = None\<rparr> = (True, fs')"
    by (simp add: fs'_def record_permission_via_file_def demo_permission_def Let_def)
  moreover have "sf_queue fs' = Some []"
    by (simp add: fs'_def record_permission_via_file_def demo_permission_def Let_def persist_queue_def persist_history_def)
  ultimately show ?thesis using file_decision_lost[of "demo_permission ''r''" self 5 True "''mail''" None _ fs']
    unfolding self_def[symmetric] fs'_def[symmetric] Let_def by blast
qed



end
