(* ===== verification/Memory_Pending.thy ===== *)
theory Memory_Pending
  imports Text_Ops
begin

text \<open>
  Memories on their way into a conversation (\<^verbatim>\<open>src/src/memory/pending.rs\<close>): a background check leaves a
  prompt for a session, the next turn takes it unless it is too old or too similar to what was
  injected before. The five global maps are one record; a map that was never made is empty. Locks are
  never poisoned, since nothing panics while one is held.

  A time is a number of nanoseconds of the monotonic clock, and the readings within one call are one.
  \<^verbatim>\<open>lower\<close> is Unicode lower-casing. The overlap ratio is a quotient of two counts in single precision,
  compared with 0.8; for sets of fewer than a million identifiers that is the comparison of
  integers \<^verbatim>\<open>5 * common >= 4 * larger\<close>.
\<close>

section \<open>Definitions\<close>

record pending_memory =
  pm_prompt :: string
  pm_display_prompt :: "string option"
  pm_computed_at :: nat
  pm_count :: nat
  pm_memory_ids :: "string list"

record memory_globals =
  PENDING_MEMORY :: "(string, pending_memory) hmap"
  LAST_INJECTED_PROMPT_SIGNATURE :: "(string, string \<times> nat) hmap"
  LAST_INJECTED_MEMORY_SET :: "(string, string set \<times> nat) hmap"
  INJECTED_MEMORY_IDS :: "(string, string set) hmap"
  MEMORY_CHECK_IN_PROGRESS :: "string set"

definition no_memories :: memory_globals where
  "no_memories = \<lparr>PENDING_MEMORY = [], LAST_INJECTED_PROMPT_SIGNATURE = [], LAST_INJECTED_MEMORY_SET = [],
     INJECTED_MEMORY_IDS = [], MEMORY_CHECK_IN_PROGRESS = {}\<rparr>"

definition MEMORY_REPEAT_SUPPRESSION_SECS :: nat where
  "MEMORY_REPEAT_SUPPRESSION_SECS = 90"

definition MEMORY_SET_REPEAT_SUPPRESSION_SECS :: nat where
  "MEMORY_SET_REPEAT_SUPPRESSION_SECS = 180"

definition elapsed_secs :: "nat \<Rightarrow> nat \<Rightarrow> nat" where
  "elapsed_secs now t = (now - t) div 1000000000"

definition is_fresh :: "nat \<Rightarrow> pending_memory \<Rightarrow> bool" where
  "is_fresh now p \<longleftrightarrow> elapsed_secs now (pm_computed_at p) < 120"

definition prompt_signature :: "(string \<Rightarrow> string) \<Rightarrow> string \<Rightarrow> string" where
  "prompt_signature lower prompt =
     lower (join nl (filter (\<lambda>line. line \<noteq> []) (map trim (lines prompt))))"

definition overlaps :: "string set \<Rightarrow> string set \<Rightarrow> bool" where
  "overlaps left right \<longleftrightarrow>
     (if left = {} \<or> right = {} then False
      else 5 * card (left \<inter> right) \<ge> 4 * max (card left) (card right))"

definition mark_memories_injected :: "string \<Rightarrow> string list \<Rightarrow> memory_globals \<Rightarrow> memory_globals" where
  "mark_memories_injected session_id ids g =
     g\<lparr>INJECTED_MEMORY_IDS := hentry {} session_id (\<lambda>s. s \<union> set ids) (INJECTED_MEMORY_IDS g)\<rparr>"

definition repeats_signature :: "nat \<Rightarrow> string \<Rightarrow> string \<Rightarrow> memory_globals \<Rightarrow> bool" where
  "repeats_signature now session_id sig g \<longleftrightarrow>
     (case hget (LAST_INJECTED_PROMPT_SIGNATURE g) session_id of
        Some (last_sig, last_at) \<Rightarrow> last_sig = sig \<and> elapsed_secs now last_at < MEMORY_REPEAT_SUPPRESSION_SECS
      | None \<Rightarrow> False)"

definition repeats_set :: "nat \<Rightarrow> string \<Rightarrow> string set \<Rightarrow> memory_globals \<Rightarrow> bool" where
  "repeats_set now session_id pending_set g \<longleftrightarrow>
     (case hget (LAST_INJECTED_MEMORY_SET g) session_id of
        Some (last_set, last_at) \<Rightarrow>
          overlaps last_set pending_set \<and> elapsed_secs now last_at < MEMORY_SET_REPEAT_SUPPRESSION_SECS
      | None \<Rightarrow> False)"

definition take_pending_memory ::
    "(string \<Rightarrow> string) \<Rightarrow> nat \<Rightarrow> string \<Rightarrow> memory_globals \<Rightarrow> pending_memory option \<times> memory_globals" where
  "take_pending_memory lower now session_id g =
     (case hget (PENDING_MEMORY g) session_id of
        None \<Rightarrow> (None, g)
      | Some pending \<Rightarrow>
        let g = g\<lparr>PENDING_MEMORY := hdel session_id (PENDING_MEMORY g)\<rparr> in
        if \<not> is_fresh now pending then (None, g)
        else
        let sig = prompt_signature lower (pm_prompt pending) in
        if repeats_signature now session_id sig g then (None, g)
        else
        let g = g\<lparr>LAST_INJECTED_PROMPT_SIGNATURE := hput session_id (sig, now) (LAST_INJECTED_PROMPT_SIGNATURE g)\<rparr> in
        if pm_memory_ids pending = [] then (Some pending, g)
        else
        let pending_set = set (pm_memory_ids pending) in
        if repeats_set now session_id pending_set g then (None, g)
        else
        let g = g\<lparr>LAST_INJECTED_MEMORY_SET := hput session_id (pending_set, now) (LAST_INJECTED_MEMORY_SET g)\<rparr>
        in (Some pending, mark_memories_injected session_id (pm_memory_ids pending) g))"

definition similar_pending ::
    "(string \<Rightarrow> string) \<Rightarrow> nat \<Rightarrow> string \<Rightarrow> string \<Rightarrow> string list \<Rightarrow> memory_globals \<Rightarrow> bool" where
  "similar_pending lower now session_id prompt memory_ids g \<longleftrightarrow>
     (case hget (PENDING_MEMORY g) session_id of
        Some existing \<Rightarrow>
          is_fresh now existing \<and>
          (prompt_signature lower (pm_prompt existing) = prompt_signature lower prompt \<or>
           overlaps (set (pm_memory_ids existing)) (set memory_ids))
      | None \<Rightarrow> False)"

definition set_pending_memory_with_ids_and_display ::
    "(string \<Rightarrow> string) \<Rightarrow> nat \<Rightarrow> string \<Rightarrow> string \<Rightarrow> nat \<Rightarrow> string list \<Rightarrow> string option \<Rightarrow> memory_globals \<Rightarrow> memory_globals" where
  "set_pending_memory_with_ids_and_display lower now session_id prompt cnt memory_ids display_prompt g =
     (if similar_pending lower now session_id prompt memory_ids g then g
      else g\<lparr>PENDING_MEMORY := hput session_id
             \<lparr>pm_prompt = prompt, pm_display_prompt = display_prompt, pm_computed_at = now, pm_count = cnt,
              pm_memory_ids = memory_ids\<rparr> (PENDING_MEMORY g)\<rparr>)"

definition set_pending_memory_with_ids ::
    "(string \<Rightarrow> string) \<Rightarrow> nat \<Rightarrow> string \<Rightarrow> string \<Rightarrow> nat \<Rightarrow> string list \<Rightarrow> memory_globals \<Rightarrow> memory_globals" where
  "set_pending_memory_with_ids lower now session_id prompt cnt memory_ids =
     set_pending_memory_with_ids_and_display lower now session_id prompt cnt memory_ids None"

definition set_pending_memory ::
    "(string \<Rightarrow> string) \<Rightarrow> nat \<Rightarrow> string \<Rightarrow> string \<Rightarrow> nat \<Rightarrow> memory_globals \<Rightarrow> memory_globals" where
  "set_pending_memory lower now session_id prompt cnt = set_pending_memory_with_ids lower now session_id prompt cnt []"

definition sync_injected_memories :: "string \<Rightarrow> string list \<Rightarrow> memory_globals \<Rightarrow> memory_globals" where
  "sync_injected_memories session_id ids g =
     (if ids = [] then g\<lparr>INJECTED_MEMORY_IDS := hdel session_id (INJECTED_MEMORY_IDS g)\<rparr>
      else g\<lparr>INJECTED_MEMORY_IDS := hput session_id (set ids) (INJECTED_MEMORY_IDS g)\<rparr>)"

definition is_memory_injected :: "string \<Rightarrow> string \<Rightarrow> memory_globals \<Rightarrow> bool" where
  "is_memory_injected session_id i g =
     (case hget (INJECTED_MEMORY_IDS g) session_id of Some s \<Rightarrow> i \<in> s | None \<Rightarrow> False)"

definition is_memory_injected_any :: "string \<Rightarrow> memory_globals \<Rightarrow> bool" where
  "is_memory_injected_any i g = list_ex (\<lambda>(_, s). i \<in> s) (INJECTED_MEMORY_IDS g)"

definition clear_injected_memories :: "string \<Rightarrow> memory_globals \<Rightarrow> memory_globals" where
  "clear_injected_memories session_id g =
     g\<lparr>LAST_INJECTED_PROMPT_SIGNATURE := hdel session_id (LAST_INJECTED_PROMPT_SIGNATURE g),
       LAST_INJECTED_MEMORY_SET := hdel session_id (LAST_INJECTED_MEMORY_SET g),
       INJECTED_MEMORY_IDS := hdel session_id (INJECTED_MEMORY_IDS g)\<rparr>"

definition clear_all_injected_memories :: "memory_globals \<Rightarrow> memory_globals" where
  "clear_all_injected_memories g =
     g\<lparr>LAST_INJECTED_PROMPT_SIGNATURE := [], LAST_INJECTED_MEMORY_SET := [], INJECTED_MEMORY_IDS := []\<rparr>"

definition clear_pending_memory :: "string \<Rightarrow> memory_globals \<Rightarrow> memory_globals" where
  "clear_pending_memory session_id g =
     (let g = g\<lparr>PENDING_MEMORY := hdel session_id (PENDING_MEMORY g)\<rparr>;
          g = g\<lparr>LAST_INJECTED_PROMPT_SIGNATURE := hdel session_id (LAST_INJECTED_PROMPT_SIGNATURE g)\<rparr>;
          g = g\<lparr>LAST_INJECTED_MEMORY_SET := hdel session_id (LAST_INJECTED_MEMORY_SET g)\<rparr>
      in clear_injected_memories session_id g)"

definition clear_all_pending_memory :: "memory_globals \<Rightarrow> memory_globals" where
  "clear_all_pending_memory g =
     clear_all_injected_memories
       (g\<lparr>PENDING_MEMORY := [], LAST_INJECTED_PROMPT_SIGNATURE := [], LAST_INJECTED_MEMORY_SET := []\<rparr>)"

definition has_pending_memory :: "string \<Rightarrow> memory_globals \<Rightarrow> bool" where
  "has_pending_memory session_id g \<longleftrightarrow> hget (PENDING_MEMORY g) session_id \<noteq> None"

definition has_any_pending_memory :: "memory_globals \<Rightarrow> bool" where
  "has_any_pending_memory g \<longleftrightarrow> PENDING_MEMORY g \<noteq> []"

definition begin_memory_check :: "string \<Rightarrow> memory_globals \<Rightarrow> bool \<times> memory_globals" where
  "begin_memory_check session_id g =
     (session_id \<notin> MEMORY_CHECK_IN_PROGRESS g,
      g\<lparr>MEMORY_CHECK_IN_PROGRESS := insert session_id (MEMORY_CHECK_IN_PROGRESS g)\<rparr>)"

definition finish_memory_check :: "string \<Rightarrow> memory_globals \<Rightarrow> memory_globals" where
  "finish_memory_check session_id g =
     g\<lparr>MEMORY_CHECK_IN_PROGRESS := MEMORY_CHECK_IN_PROGRESS g - {session_id}\<rparr>"

subsection \<open>Histories\<close>

datatype memory_op =
    SetPending string string nat "string list" "string option"
  | Take string
  | Mark string "string list"
  | Sync string "string list"
  | ClearInjected string
  | ClearAllInjected
  | ClearPending string
  | ClearAllPending

fun memory_step :: "(string \<Rightarrow> string) \<Rightarrow> nat \<Rightarrow> memory_op \<Rightarrow> memory_globals \<Rightarrow> pending_memory option \<times> memory_globals" where
  "memory_step lower now (SetPending s p c ids d) g =
     (None, set_pending_memory_with_ids_and_display lower now s p c ids d g)"
| "memory_step lower now (Take s) g = take_pending_memory lower now s g"
| "memory_step lower now (Mark s ids) g = (None, mark_memories_injected s ids g)"
| "memory_step lower now (Sync s ids) g = (None, sync_injected_memories s ids g)"
| "memory_step lower now (ClearInjected s) g = (None, clear_injected_memories s g)"
| "memory_step lower now ClearAllInjected g = (None, clear_all_injected_memories g)"
| "memory_step lower now (ClearPending s) g = (None, clear_pending_memory s g)"
| "memory_step lower now ClearAllPending g = (None, clear_all_pending_memory g)"

text \<open>
  The specification sees what was injected, not the maps: for each session the identifiers that count as
  injected, and the last injection that carried identifiers.
\<close>

record injection_view =
  vw_ids :: "string \<Rightarrow> string set"
  vw_last :: "string \<Rightarrow> (string set \<times> nat) option"

definition no_injections :: injection_view where
  "no_injections = \<lparr>vw_ids = (\<lambda>_. {}), vw_last = (\<lambda>_. None)\<rparr>"

fun view_step :: "nat \<Rightarrow> memory_op \<Rightarrow> pending_memory option \<Rightarrow> injection_view \<Rightarrow> injection_view" where
  "view_step now (Take s) (Some p) v =
     (if pm_memory_ids p = [] then v
      else \<lparr>vw_ids = (vw_ids v)(s := vw_ids v s \<union> set (pm_memory_ids p)),
            vw_last = (vw_last v)(s := Some (set (pm_memory_ids p), now))\<rparr>)"
| "view_step now (Mark s ids) r v = v\<lparr>vw_ids := (vw_ids v)(s := vw_ids v s \<union> set ids)\<rparr>"
| "view_step now (Sync s ids) r v = v\<lparr>vw_ids := (vw_ids v)(s := set ids)\<rparr>"
| "view_step now (ClearInjected s) r v = \<lparr>vw_ids = (vw_ids v)(s := {}), vw_last = (vw_last v)(s := None)\<rparr>"
| "view_step now ClearAllInjected r v = no_injections"
| "view_step now (ClearPending s) r v = \<lparr>vw_ids = (vw_ids v)(s := {}), vw_last = (vw_last v)(s := None)\<rparr>"
| "view_step now ClearAllPending r v = no_injections"
| "view_step now op r v = v"

fun memory_run ::
    "(string \<Rightarrow> string) \<Rightarrow> (nat \<times> memory_op) list \<Rightarrow> memory_globals \<times> injection_view \<Rightarrow> memory_globals \<times> injection_view" where
  "memory_run lower [] gv = gv"
| "memory_run lower ((now, op) # ops) (g, v) =
     (let (r, g') = memory_step lower now op g in memory_run lower ops (g', view_step now op r v))"

section \<open>Theorems\<close>

definition view_of :: "memory_globals \<Rightarrow> injection_view" where
  "view_of g = \<lparr>vw_ids = hget_or {} (INJECTED_MEMORY_IDS g), vw_last = hget (LAST_INJECTED_MEMORY_SET g)\<rparr>"

lemma hget_or_Nil [simp]: "hget_or d [] k = d"
  by (simp add: hget_or_def)

lemmas memory_defs =
  set_pending_memory_with_ids_and_display_def mark_memories_injected_def sync_injected_memories_def
  clear_injected_memories_def clear_all_injected_memories_def clear_pending_memory_def clear_all_pending_memory_def

lemma repeats_set_update [simp]:
  "repeats_set now s S (g\<lparr>PENDING_MEMORY := x\<rparr>) = repeats_set now s S g"
  "repeats_set now s S (g\<lparr>LAST_INJECTED_PROMPT_SIGNATURE := y\<rparr>) = repeats_set now s S g"
  by (simp_all add: repeats_set_def)

lemma take_facts:
  "take_pending_memory lower now s g = (r, g') \<Longrightarrow>
     (case r of
        None \<Rightarrow> INJECTED_MEMORY_IDS g' = INJECTED_MEMORY_IDS g \<and> LAST_INJECTED_MEMORY_SET g' = LAST_INJECTED_MEMORY_SET g
      | Some p \<Rightarrow>
          if pm_memory_ids p = []
          then INJECTED_MEMORY_IDS g' = INJECTED_MEMORY_IDS g \<and> LAST_INJECTED_MEMORY_SET g' = LAST_INJECTED_MEMORY_SET g
          else INJECTED_MEMORY_IDS g' = hentry {} s (\<lambda>x. x \<union> set (pm_memory_ids p)) (INJECTED_MEMORY_IDS g) \<and>
               LAST_INJECTED_MEMORY_SET g' = hput s (set (pm_memory_ids p), now) (LAST_INJECTED_MEMORY_SET g) \<and>
               \<not> repeats_set now s (set (pm_memory_ids p)) g)"
  by (cases "hget (PENDING_MEMORY g) s"; cases r)
    (auto simp: take_pending_memory_def mark_memories_injected_def Let_def split: if_splits)

lemma view_step_refines:
  "memory_step lower now op g = (r, g') \<Longrightarrow> view_of g' = view_step now op r (view_of g)"
proof (cases op)
  case (Take s)
  assume "memory_step lower now op g = (r, g')"
  then have t: "take_pending_memory lower now s g = (r, g')" by (simp add: Take)
  show ?thesis using take_facts[OF t]
    by (cases r) (auto simp: Take view_of_def hmap_simps fun_eq_iff split: if_splits)
qed (auto simp: view_of_def memory_defs no_injections_def hmap_simps fun_eq_iff Let_def split: if_splits)

lemma memory_run_refines: "v = view_of g \<Longrightarrow> memory_run lower ops (g, v) = (g', v') \<Longrightarrow> v' = view_of g'"
proof (induction ops arbitrary: g v)
  case (Cons p ops)
  obtain now op where p: "p = (now, op)" by (cases p)
  obtain r g1 where s: "memory_step lower now op g = (r, g1)" by force
  show ?case
    using Cons.prems Cons.IH[of "view_step now op r v" g1] view_step_refines[OF s] by (simp add: p s)
qed simp

lemma view_of_no_memories: "view_of no_memories = no_injections"
  by (simp add: view_of_def no_memories_def no_injections_def fun_eq_iff)

text \<open>
  The tracking of injected memories implements its specification: after any history of the
  operations, from an empty start, a memory counts as injected into a session exactly when it was
  handed out by \<^verbatim>\<open>take_pending_memory\<close>, marked, or restored for the session since the last reset of it.
\<close>

theorem injected_tracking_refines:
  assumes "memory_run lower ops (no_memories, no_injections) = (g, v)"
  shows "is_memory_injected s i g = (i \<in> vw_ids v s)"
proof -
  have "v = view_of g" using memory_run_refines[OF _ assms] by (simp add: view_of_no_memories)
  then show ?thesis by (simp add: is_memory_injected_def view_of_def hget_or_def split: option.split)
qed

text \<open>
  A session never sees nearly the same memories twice in a row: when \<^verbatim>\<open>take_pending_memory\<close>, after
  any history, hands out a prompt with identifiers, then the last such prompt it handed out to the
  session since its last reset shares less than four fifths of the larger set with it, or was
  handed out at least 180 seconds before.
\<close>

theorem injections_not_repeated:
  assumes "memory_run lower ops (no_memories, no_injections) = (g, v)"
    and "take_pending_memory lower now s g = (Some p, g')" "pm_memory_ids p \<noteq> []"
    and "vw_last v s = Some (last_ids, t)"
  shows "5 * card (last_ids \<inter> set (pm_memory_ids p)) < 4 * max (card last_ids) (card (set (pm_memory_ids p)))
    \<or> last_ids = {} \<or> 180 \<le> (now - t) div 1000000000"
proof -
  have "v = view_of g" using memory_run_refines[OF _ assms(1)] by (simp add: view_of_no_memories)
  then have "hget (LAST_INJECTED_MEMORY_SET g) s = Some (last_ids, t)" using assms(4) by (simp add: view_of_def)
  moreover have "\<not> repeats_set now s (set (pm_memory_ids p)) g"
    using take_facts[OF assms(2)] assms(3) by simp
  ultimately show ?thesis using assms(3)
    by (auto simp: repeats_set_def overlaps_def elapsed_secs_def MEMORY_SET_REPEAT_SUPPRESSION_SECS_def split: if_splits)
qed


text \<open>
  What a check prepares is what the next turn gets: the stored prompt comes back within 120 seconds
  unless its text was the last to be looked at less than 90 seconds ago or its identifiers nearly
  repeat those injected less than 180 seconds ago, and it comes back once.
\<close>

theorem set_then_take:
  assumes "\<not> similar_pending lower now s prompt ids g" "elapsed_secs later now < 120"
  shows "let g1 = set_pending_memory_with_ids_and_display lower now s prompt n ids display g;
       (r, g2) = take_pending_memory lower later s g1
     in (if repeats_signature later s (prompt_signature lower prompt) g \<or> (ids \<noteq> [] \<and> repeats_set later s (set ids) g)
         then r = None
         else r = Some \<lparr>pm_prompt = prompt, pm_display_prompt = display, pm_computed_at = now, pm_count = n,
                        pm_memory_ids = ids\<rparr>)
       \<and> \<not> has_pending_memory s g2 \<and> fst (take_pending_memory lower later s g2) = None"
proof -
  have sig: "repeats_signature later s sig (g\<lparr>PENDING_MEMORY := x\<rparr>) = repeats_signature later s sig g" for sig x
    by (simp add: repeats_signature_def)
  show ?thesis using assms
    by (auto simp: set_pending_memory_with_ids_and_display_def take_pending_memory_def is_fresh_def
        mark_memories_injected_def has_pending_memory_def sig hmap_simps Let_def)
qed

text \<open>Operations on one session leave the others alone.\<close>

fun op_session :: "memory_op \<Rightarrow> string option" where
  "op_session (SetPending s _ _ _ _) = Some s"
| "op_session (Take s) = Some s"
| "op_session (Mark s _) = Some s"
| "op_session (Sync s _) = Some s"
| "op_session (ClearInjected s) = Some s"
| "op_session (ClearPending s) = Some s"
| "op_session _ = None"

definition session_part where
  "session_part g t = (hget (PENDING_MEMORY g) t, hget (LAST_INJECTED_PROMPT_SIGNATURE g) t,
     hget (LAST_INJECTED_MEMORY_SET g) t, hget (INJECTED_MEMORY_IDS g) t)"

lemma sessions_independent:
  assumes "op_session op = Some s" "s \<noteq> t"
  shows "session_part (snd (memory_step lower now op g)) t = session_part g t"
  using assms
  by (cases op) (auto simp: session_part_def memory_defs take_pending_memory_def hmap_simps Let_def split: option.split)

text \<open>One check at a time for each session.\<close>

lemma one_memory_check:
  "fst (begin_memory_check s (snd (begin_memory_check s g))) = False"
  "fst (begin_memory_check s (finish_memory_check s g)) = True"
  "s \<noteq> t \<Longrightarrow> fst (begin_memory_check s (finish_memory_check t g)) = fst (begin_memory_check s g)"
  by (auto simp: begin_memory_check_def finish_memory_check_def)

lemma signature_examples: "prompt_signature id ''A'' = ''A''" "prompt_signature id ''B'' = ''B''" "prompt_signature id ''C'' = ''C''"
  "prompt_signature id ''D'' = ''D''"
  by code_simp+

lemmas run_simps =
  set_pending_memory_with_ids_and_display_def take_pending_memory_def similar_pending_def signature_examples
  repeats_signature_def repeats_set_def overlaps_def is_fresh_def elapsed_secs_def no_memories_def no_injections_def
  mark_memories_injected_def hentry_def hget_or_def MEMORY_REPEAT_SUPPRESSION_SECS_def
  MEMORY_SET_REPEAT_SUPPRESSION_SECS_def is_memory_injected_def Let_def

definition repeat_history :: "(nat \<times> memory_op) list" where
  "repeat_history = map (map_prod ((*) 1000000000) id)
     [(0, SetPending ''s'' ''C'' 1 [''x''] None), (1, Take ''s''), (1, SetPending ''s'' ''A'' 1 [] None), (2, Take ''s''),
      (3, SetPending ''s'' ''B'' 1 [''x''] None), (4, Take ''s''), (5, SetPending ''s'' ''A'' 1 [] None)]"

text \<open>
  The signature of a prompt is stored before the prompt is compared with the last identifiers, so
  a prompt that is suppressed there still replaces the signature, and the prompt injected before
  it is injected again within the 90 seconds: here \<^verbatim>\<open>A\<close> at seconds 2 and 6.
\<close>

theorem suppressed_prompt_forgets_last:
  "let after = (\<lambda>n. fst (memory_run id (take n repeat_history) (no_memories, no_injections)))
   in map_option pm_prompt (fst (take_pending_memory id 2000000000 ''s'' (after 3))) = Some ''A'' \<and>
      fst (take_pending_memory id 4000000000 ''s'' (after 5)) = None \<and>
      map_option pm_prompt (fst (take_pending_memory id 6000000000 ''s'' (after 7))) = Some ''A''"
  by (simp add: repeat_history_def run_simps)

section \<open>Examples\<close>

theorem injected_tracking_refines_witness:
  "is_memory_injected ''s'' ''x'' (fst (memory_run id repeat_history (no_memories, no_injections))) \<and>
   ''x'' \<in> vw_ids (snd (memory_run id repeat_history (no_memories, no_injections))) ''s''"
proof -
  let ?r = "memory_run id repeat_history (no_memories, no_injections)"
  have "is_memory_injected ''s'' ''x'' (fst ?r)" by (simp add: repeat_history_def run_simps)
  moreover have "is_memory_injected ''s'' ''x'' (fst ?r) = (''x'' \<in> vw_ids (snd ?r) ''s'')"
    by (rule injected_tracking_refines[of id repeat_history]) simp
  ultimately show ?thesis by simp
qed

definition two_injections :: "(nat \<times> memory_op) list" where
  "two_injections = map (map_prod ((*) 1000000000) id)
     [(0, SetPending ''s'' ''C'' 1 [''x''] None), (1, Take ''s''), (2, SetPending ''s'' ''D'' 1 [''y''] None)]"

theorem injections_not_repeated_witness:
  "5 * card ({''x''} \<inter> {''y''}) < 4 * max (card {''x''}) (card {''y''}) \<and>
   (\<exists>p. fst (take_pending_memory id 3000000000 ''s'' (fst (memory_run id two_injections (no_memories, no_injections)))) = Some p
      \<and> pm_memory_ids p = [''y''])"
proof -
  let ?r = "memory_run id two_injections (no_memories, no_injections)"
  obtain q g' where t: "take_pending_memory id 3000000000 ''s'' (fst ?r) = (q, g')" by force
  have "map_option pm_memory_ids (fst (take_pending_memory id 3000000000 ''s'' (fst ?r))) = Some [''y'']" by (simp add: two_injections_def run_simps)
  then obtain p where p: "q = Some p" "pm_memory_ids p = [''y'']" using t by (cases q) auto
  have "vw_last (snd ?r) ''s'' = Some ({''x''}, 1000000000)" by (simp add: two_injections_def run_simps)
  from injections_not_repeated[of id two_injections "fst ?r" "snd ?r" 3000000000 "''s''" p g', OF _ _ _ this] t p
  show ?thesis by simp
qed

theorem set_then_take_witness:
  "let g1 = set_pending_memory_with_ids_and_display id 0 ''s'' ''C'' 1 [''x''] None no_memories
   in \<not> has_pending_memory ''s'' (snd (take_pending_memory id 5 ''s'' g1))"
proof -
  have "\<not> similar_pending id 0 ''s'' ''C'' [''x''] no_memories" by (simp add: similar_pending_def no_memories_def)
  from set_then_take[OF this, of 5 1 None] show ?thesis
    by (simp add: elapsed_secs_def Let_def case_prod_unfold split: if_splits)
qed

end
