(* ===== verification/Swarm_Requests.thy ===== *)
theory Swarm_Requests
  imports Swarm_Core Session_Types
begin

text \<open>
  Requests that the server must carry out once although clients retry them
  (\<^verbatim>\<open>src/src/server/durable_state.rs\<close>, \<^verbatim>\<open>swarm_mutation_state.rs\<close>, the state of \<^verbatim>\<open>await_members_state.rs\<close>):
  a request has a key, its state is kept in a file under that key, retries wait for the running one or
  are answered from the stored response.

  A handler is asynchronous: it gives way at every lock. \<^verbatim>\<open>advance\<close> is one handler's step from one such
  point to the next, \<open>requests_reach\<close> the states that handlers reach in any interleaving;
  \<^verbatim>\<open>begin_or_replay\<close> and \<^verbatim>\<open>finish_request\<close> are the steps of one handler without others in between. The
  clock is in milliseconds; a channel is the name of a connection, the outbox what was sent.
\<close>

section \<open>Definitions\<close>

subsection \<open>Events\<close>

text \<open>\<^verbatim>\<open>PlanGraphStatus\<close> of the protocol.\<close>

record plan_graph_status =
  pg_swarm_id :: "string option"
  pg_version :: u64
  pg_item_count :: nat
  pg_ready_ids :: "string list"
  pg_blocked_ids :: "string list"
  pg_active_ids :: "string list"
  pg_completed_ids :: "string list"
  pg_cycle_ids :: "string list"
  pg_unresolved_dependency_ids :: "string list"
  pg_next_ready_ids :: "string list"
  pg_newly_ready_ids :: "string list"

definition empty_for_swarm :: "string \<Rightarrow> plan_graph_status" where
  "empty_for_swarm swarm_id =
     \<lparr>pg_swarm_id = Some swarm_id, pg_version = 0, pg_item_count = 0, pg_ready_ids = [], pg_blocked_ids = [],
      pg_active_ids = [], pg_completed_ids = [], pg_cycle_ids = [], pg_unresolved_dependency_ids = [],
      pg_next_ready_ids = [], pg_newly_ready_ids = []\<rparr>"

definition from_versioned_plan :: "(string list \<Rightarrow> string list) \<Rightarrow> string \<Rightarrow> versioned_plan \<Rightarrow> nat option \<Rightarrow> string list \<Rightarrow> plan_graph_status" where
  "from_versioned_plan iter swarm_id plan next_ready_limit newly_ready =
     (let graph = summarize_plan_graph iter (vp_items plan)
      in \<lparr>pg_swarm_id = Some swarm_id, pg_version = vp_version plan, pg_item_count = length (vp_items plan),
          pg_ready_ids = ready_ids graph, pg_blocked_ids = blocked_ids graph, pg_active_ids = active_ids graph,
          pg_completed_ids = completed_ids graph, pg_cycle_ids = cycle_ids graph,
          pg_unresolved_dependency_ids = unresolved_dependency_ids graph,
          pg_next_ready_ids = next_runnable_item_ids iter (vp_items plan) next_ready_limit,
          pg_newly_ready_ids = newly_ready\<rparr>)"

record awaited_member =
  am_session_id :: string
  am_friendly_name :: "string option"
  am_status :: string
  am_done :: bool
  am_completion_report :: "string option"

text \<open>The events of \<^verbatim>\<open>ServerEvent\<close> that the modelled handlers send.\<close>

datatype notification_kind =
    FileConflictNotification string string "string option" "string option"
  | SharedContextNotification string string
  | MessageNotification "string option" "string option"

record agent_info =
  ai_session_id :: string
  ai_friendly_name :: "string option"
  ai_files_touched :: "string list"
  ai_status :: "string option"
  ai_detail :: "string option"
  ai_role :: "string option"
  ai_is_headless :: "bool option"
  ai_report_back :: "string option"
  ai_latest_report :: "string option"
  ai_live_attachments :: "nat option"
  ai_status_age_secs :: "u64 option"

record context_entry =
  ce_key :: string
  ce_value :: string
  ce_from_session :: string
  ce_from_name :: "string option"

datatype server_event =
    EventDone u64
  | EventError u64 string "u64 option"
  | CommAssignTaskResponse u64 string string
  | CommTaskControlResponse u64 string string "string option" string plan_graph_status
  | CommSpawnResponse u64 string string
  | CommAwaitMembersResponse u64 bool "awaited_member list" string
  | Notification string "string option" notification_kind string
  | SessionIdEvent string
  | SessionCloseRequested string
  | CommContext u64 "context_entry list"
  | CommMembers u64 "agent_info list"
  | CommChannels u64 "(string \<times> nat) list"
  | SwarmStatus "swarm_member_status list"
  | SwarmPlan string u64 "plan_item list" "string list" "string option" "plan_graph_status option"
  | SwarmPlanProposal string string "string option" "plan_item list" string string
  | StatusDetailEvent string
  | ToolStartEvent string string
  | ToolDoneEvent string string string "string option"

type_synonym chan = string

subsection \<open>Durable state\<close>

definition sanitize_session_id :: "string \<Rightarrow> string" where
  "sanitize_session_id s =
     map (\<lambda>ch. case ch of
        [c] \<Rightarrow> if is_ascii_alphanumeric c \<or> c = CHR ''-'' \<or> c = CHR ''_'' then c else CHR ''_''
      | _ \<Rightarrow> CHR ''_'') (utf8_chars s)"

text \<open>\<^verbatim>\<open>hash\<close> is the standard hasher fed with the strings.\<close>

definition hashed_request_key :: "(string list \<Rightarrow> u64) \<Rightarrow> string \<Rightarrow> string \<Rightarrow> string list \<Rightarrow> string" where
  "hashed_request_key hash session_id action components =
     sanitize_session_id session_id @ ''-'' @ hex16 (hash (session_id # action # components))"

type_synonym 's store = "string \<Rightarrow> 's option"

definition load_json_state :: "('s \<Rightarrow> bool) \<Rightarrow> string \<Rightarrow> 's store \<Rightarrow> 's option \<times> 's store" where
  "load_json_state is_stale key d =
     (case d key of
        None \<Rightarrow> (None, d)
      | Some st \<Rightarrow> if is_stale st then (None, d(key := None)) else (Some st, d))"

text \<open>A write that fails is logged and otherwise ignored.\<close>

definition save_json_state :: "bool \<Rightarrow> string \<Rightarrow> 's \<Rightarrow> 's store \<Rightarrow> 's store" where
  "save_json_state ok key st d = (if ok then d(key \<mapsto> st) else d)"

definition elapsed_exceeds :: "nat \<Rightarrow> nat \<Rightarrow> nat \<Rightarrow> bool" where
  "elapsed_exceeds now created_at ttl \<longleftrightarrow> now - created_at > ttl"

subsection \<open>Mutations of a swarm\<close>

definition FINAL_STATE_TTL :: nat where "FINAL_STATE_TTL = 30 * 1000"
definition PENDING_STATE_TTL :: nat where "PENDING_STATE_TTL = 30 * 60 * 1000"

datatype mutation_response =
    MutationDone
  | MutationAssignTask string string
  | MutationTaskControl string string "string option" string plan_graph_status
  | MutationError string "u64 option"
  | MutationSpawn string

fun into_server_event :: "mutation_response \<Rightarrow> u64 \<Rightarrow> string \<Rightarrow> server_event" where
  "into_server_event MutationDone i session_id = EventDone i"
| "into_server_event (MutationAssignTask task_id target) i session_id = CommAssignTaskResponse i task_id target"
| "into_server_event (MutationTaskControl action task_id target st summary) i session_id =
     CommTaskControlResponse i action task_id target st summary"
| "into_server_event (MutationError msg retry) i session_id = EventError i msg retry"
| "into_server_event (MutationSpawn new) i session_id = CommSpawnResponse i session_id new"

record mutation_state =
  mu_key :: string
  mu_action :: string
  mu_session_id :: string
  mu_created_at :: nat
  mu_final_response :: "mutation_response option"

definition is_stale :: "nat \<Rightarrow> mutation_state \<Rightarrow> bool" where
  "is_stale now st =
     (if mu_final_response st \<noteq> None then elapsed_exceeds now (mu_created_at st) FINAL_STATE_TTL
      else elapsed_exceeds now (mu_created_at st) PENDING_STATE_TTL)"

record request_runtime =
  rt_active_keys :: "string set"
  rt_waiters :: "(string, (u64 \<times> chan) list) hmap"

definition runtime_default :: request_runtime where
  "runtime_default = \<lparr>rt_active_keys = {}, rt_waiters = []\<rparr>"

definition add_waiter :: "string \<Rightarrow> u64 \<Rightarrow> chan \<Rightarrow> request_runtime \<Rightarrow> request_runtime" where
  "add_waiter key i tx r = r\<lparr>rt_waiters := hentry [] key (\<lambda>ws. ws @ [(i, tx)]) (rt_waiters r)\<rparr>"

definition mark_active_if_new :: "string \<Rightarrow> request_runtime \<Rightarrow> bool \<times> request_runtime" where
  "mark_active_if_new key r = (key \<notin> rt_active_keys r, r\<lparr>rt_active_keys := insert key (rt_active_keys r)\<rparr>)"

definition clear_active :: "string \<Rightarrow> request_runtime \<Rightarrow> request_runtime" where
  "clear_active key r = r\<lparr>rt_active_keys := rt_active_keys r - {key}\<rparr>"

definition take_waiters :: "string \<Rightarrow> request_runtime \<Rightarrow> (u64 \<times> chan) list \<times> request_runtime" where
  "take_waiters key r = (hget_or [] (rt_waiters r) key, r\<lparr>rt_waiters := hdel key (rt_waiters r)\<rparr>)"

text \<open>
  The world of the handlers. \<^verbatim>\<open>executed\<close> is not in the code: it lists the keys whose handler went on to
  carry out its request.
\<close>

record request_world =
  rw_now :: nat
  rw_writes_ok :: bool
  rw_store :: "mutation_state store"
  rw_runtime :: request_runtime
  rw_outbox :: "(chan \<times> server_event) list"
  rw_executed :: "string list"

definition send :: "chan \<Rightarrow> server_event \<Rightarrow> request_world \<Rightarrow> request_world" where
  "send tx e w = w\<lparr>rw_outbox := rw_outbox w @ [(tx, e)]\<rparr>"

definition load_state :: "string \<Rightarrow> request_world \<Rightarrow> mutation_state option \<times> request_world" where
  "load_state key w =
     (let (st, d) = load_json_state (is_stale (rw_now w)) key (rw_store w) in (st, w\<lparr>rw_store := d\<rparr>))"

definition save_state :: "mutation_state \<Rightarrow> request_world \<Rightarrow> request_world" where
  "save_state st w = w\<lparr>rw_store := save_json_state (rw_writes_ok w) (mu_key st) st (rw_store w)\<rparr>"

definition ensure_pending_state :: "string \<Rightarrow> string \<Rightarrow> string \<Rightarrow> request_world \<Rightarrow> mutation_state \<times> request_world" where
  "ensure_pending_state key action session_id w =
     (case load_state key w of
        (Some existing, w) \<Rightarrow> (existing, w)
      | (None, w) \<Rightarrow>
          (let st = \<lparr>mu_key = key, mu_action = action, mu_session_id = session_id, mu_created_at = rw_now w,
                     mu_final_response = None\<rparr>
           in (st, save_state st w)))"

definition persist_final_response :: "mutation_state \<Rightarrow> mutation_response \<Rightarrow> request_world \<Rightarrow> mutation_state \<times> request_world" where
  "persist_final_response st response w =
     (let st1 = st\<lparr>mu_final_response := Some response\<rparr> in (st1, save_state st1 w))"

record request =
  rq_key :: string
  rq_action :: string
  rq_session_id :: string
  rq_id :: u64
  rq_chan :: chan

definition with_runtime :: "(request_runtime \<Rightarrow> request_runtime) \<Rightarrow> request_world \<Rightarrow> request_world" where
  "with_runtime f w = w\<lparr>rw_runtime := f (rw_runtime w)\<rparr>"

definition begin_or_replay :: "request \<Rightarrow> request_world \<Rightarrow> mutation_state option \<times> request_world" where
  "begin_or_replay q w =
     (let (st, w) = load_state (rq_key q) w
      in case Option.bind st mu_final_response of
           Some response \<Rightarrow> (None, send (rq_chan q) (into_server_event response (rq_id q) (rq_session_id q)) w)
         | None \<Rightarrow>
             (let w = with_runtime (add_waiter (rq_key q) (rq_id q) (rq_chan q)) w;
                  (new, r) = mark_active_if_new (rq_key q) (rw_runtime w);
                  w = w\<lparr>rw_runtime := r\<rparr>
              in if \<not> new then (None, w)
                 else (let (st, w) = ensure_pending_state (rq_key q) (rq_action q) (rq_session_id q) w in (Some st, w))))"

definition answer_waiters :: "mutation_response \<Rightarrow> string \<Rightarrow> (u64 \<times> chan) list \<Rightarrow> request_world \<Rightarrow> request_world" where
  "answer_waiters response session_id ws = fold (\<lambda>(i, tx). send tx (into_server_event response i session_id)) ws"

definition answer_key :: "mutation_state \<Rightarrow> mutation_response \<Rightarrow> request_world \<Rightarrow> request_world" where
  "answer_key st response w =
     (let (ws, r) = take_waiters (mu_key st) (rw_runtime w)
      in answer_waiters response (mu_session_id st) ws (w\<lparr>rw_runtime := r\<rparr>))"

definition finish_request :: "mutation_state \<Rightarrow> mutation_response \<Rightarrow> request_world \<Rightarrow> request_world" where
  "finish_request st response w =
     (let (st, w) = persist_final_response st response w
      in with_runtime (clear_active (mu_key st)) (answer_key st response w))"

text \<open>A handler that is not interrupted: it carries out its request and answers \<^verbatim>\<open>response\<close>.\<close>

definition executes :: "string \<Rightarrow> request_world \<Rightarrow> request_world" where
  "executes key w = w\<lparr>rw_executed := rw_executed w @ [key]\<rparr>"

definition handle_request :: "mutation_response \<Rightarrow> request \<Rightarrow> request_world \<Rightarrow> request_world" where
  "handle_request response q w =
     (case begin_or_replay q w of
        (None, w) \<Rightarrow> w
      | (Some st, w) \<Rightarrow> finish_request st response (executes (rq_key q) w))"

subsection \<open>Interleaving\<close>

datatype phase =
    Arrived | Looked_Up | Waiting | Claimed | Executing mutation_state | Stored mutation_state | Answered mutation_state | Over

fun advance :: "mutation_response \<Rightarrow> request \<Rightarrow> phase \<Rightarrow> request_world \<Rightarrow> phase \<times> request_world" where
  "advance response q Arrived w =
     (let (st, w) = load_state (rq_key q) w
      in case Option.bind st mu_final_response of
           Some stored \<Rightarrow> (Over, send (rq_chan q) (into_server_event stored (rq_id q) (rq_session_id q)) w)
         | None \<Rightarrow> (Looked_Up, w))"
| "advance response q Looked_Up w = (Waiting, with_runtime (add_waiter (rq_key q) (rq_id q) (rq_chan q)) w)"
| "advance response q Waiting w =
     (let (new, r) = mark_active_if_new (rq_key q) (rw_runtime w)
      in (if new then Claimed else Over, w\<lparr>rw_runtime := r\<rparr>))"
| "advance response q Claimed w =
     (let (st, w) = ensure_pending_state (rq_key q) (rq_action q) (rq_session_id q) w
      in (Executing st, executes (rq_key q) w))"
| "advance response q (Executing st) w =
     (let (st, w) = persist_final_response st response w in (Stored st, w))"
| "advance response q (Stored st) w = (Answered st, answer_key st response w)"
| "advance response q (Answered st) w = (Over, with_runtime (clear_active (mu_key st)) w)"
| "advance response q Over w = (Over, w)"

inductive requests_reach :: "(request \<times> mutation_response) list \<Rightarrow> request_world \<Rightarrow> phase list \<times> request_world \<Rightarrow> bool"
  for qs w0 where
  start: "requests_reach qs w0 (replicate (length qs) Arrived, w0)"
| step: "requests_reach qs w0 (ps, w) \<Longrightarrow> i < length qs \<Longrightarrow> qs ! i = (q, response) \<Longrightarrow>
    advance response q (ps ! i) w = (p', w') \<Longrightarrow> requests_reach qs w0 (ps[i := p'], w')"
| tick: "requests_reach qs w0 (ps, w) \<Longrightarrow> requests_reach qs w0 (ps, w\<lparr>rw_now := rw_now w + k\<rparr>)"


section \<open>Lemmas\<close>

lemma world_fields [simp]:
  "rw_executed (with_runtime f w) = rw_executed w" "rw_store (with_runtime f w) = rw_store w"
  "rw_now (with_runtime f w) = rw_now w" "rw_outbox (with_runtime f w) = rw_outbox w"
  "rw_writes_ok (with_runtime f w) = rw_writes_ok w" "rw_runtime (with_runtime f w) = f (rw_runtime w)"
  "rw_executed (send tx e w) = rw_executed w" "rw_store (send tx e w) = rw_store w"
  "rw_now (send tx e w) = rw_now w" "rw_runtime (send tx e w) = rw_runtime w" "rw_writes_ok (send tx e w) = rw_writes_ok w"
  "rw_outbox (send tx e w) = rw_outbox w @ [(tx, e)]"
  "rw_executed (executes k w) = rw_executed w @ [k]" "rw_store (executes k w) = rw_store w"
  "rw_now (executes k w) = rw_now w" "rw_runtime (executes k w) = rw_runtime w" "rw_writes_ok (executes k w) = rw_writes_ok w"
  "rw_outbox (executes k w) = rw_outbox w"
  "rw_executed (save_state st w) = rw_executed w" "rw_now (save_state st w) = rw_now w"
  "rw_runtime (save_state st w) = rw_runtime w" "rw_outbox (save_state st w) = rw_outbox w"
  "rw_writes_ok (save_state st w) = rw_writes_ok w"
  by (simp_all add: with_runtime_def send_def executes_def save_state_def)

lemma runtime_fields [simp]:
  "rt_active_keys (add_waiter k i tx r) = rt_active_keys r"
  "rt_active_keys (clear_active k r) = rt_active_keys r - {k}"
  "rt_waiters (clear_active k r) = rt_waiters r"
  "rt_waiters (add_waiter k i tx r) = hentry [] k (\<lambda>ws. ws @ [(i, tx)]) (rt_waiters r)"
  by (simp_all add: add_waiter_def clear_active_def)

lemma load_state_fields:
  "rw_executed (snd (load_state k w)) = rw_executed w" "rw_now (snd (load_state k w)) = rw_now w"
  "rw_runtime (snd (load_state k w)) = rw_runtime w" "rw_outbox (snd (load_state k w)) = rw_outbox w"
  "rw_writes_ok (snd (load_state k w)) = rw_writes_ok w"
  by (simp_all add: load_state_def split: prod.split)

lemma answer_waiters_fields [simp]:
  "rw_executed (answer_waiters r sid ws w) = rw_executed w" "rw_store (answer_waiters r sid ws w) = rw_store w"
  "rw_now (answer_waiters r sid ws w) = rw_now w" "rw_runtime (answer_waiters r sid ws w) = rw_runtime w"
  "rw_writes_ok (answer_waiters r sid ws w) = rw_writes_ok w"
  "rw_outbox (answer_waiters r sid ws w) = rw_outbox w @ map (\<lambda>(i, tx). (tx, into_server_event r i sid)) ws"
  by (induction ws arbitrary: w) (auto simp: answer_waiters_def split: prod.splits)

lemma answer_key_fields [simp]:
  "rw_executed (answer_key st r w) = rw_executed w" "rw_store (answer_key st r w) = rw_store w"
  "rw_now (answer_key st r w) = rw_now w" "rw_writes_ok (answer_key st r w) = rw_writes_ok w"
  "rt_active_keys (rw_runtime (answer_key st r w)) = rt_active_keys (rw_runtime w)"
  "rt_waiters (rw_runtime (answer_key st r w)) = hdel (mu_key st) (rt_waiters (rw_runtime w))"
  "rw_outbox (answer_key st r w) = rw_outbox w @
     map (\<lambda>(i, tx). (tx, into_server_event r i (mu_session_id st))) (hget_or [] (rt_waiters (rw_runtime w)) (mu_key st))"
  by (simp_all add: answer_key_def take_waiters_def)

text \<open>One handler on its own takes the steps of \<^verbatim>\<open>begin_or_replay\<close> and \<^verbatim>\<open>finish_request\<close>.\<close>

definition handler_step :: "mutation_response \<Rightarrow> request \<Rightarrow> phase \<times> request_world \<Rightarrow> phase \<times> request_world" where
  "handler_step response q = (\<lambda>(p, w). advance response q p w)"

lemma over_stays: "(handler_step response q ^^ n) (Over, w) = (Over, w)"
  by (induction n) (simp_all add: handler_step_def)

lemma handler_steps:
  "(handler_step response q ^^ 7) (Arrived, w) = (Over, handle_request response q w)"
proof -
  obtain st w1 where l: "load_state (rq_key q) w = (st, w1)" by fastforce
  show ?thesis
  proof (cases "Option.bind st mu_final_response")
    case (Some stored)
    have "(handler_step response q ^^ 7) (Arrived, w) = (handler_step response q ^^ 6) (handler_step response q (Arrived, w))"
      by (simp add: eval_nat_numeral funpow_swap1)
    also have "\<dots> = (Over, send (rq_chan q) (into_server_event stored (rq_id q) (rq_session_id q)) w1)"
      using Some by (simp add: handler_step_def l over_stays[unfolded handler_step_def])
    finally show ?thesis using Some by (simp add: handle_request_def begin_or_replay_def l)
  next
    case None
    define w2 where "w2 = with_runtime (add_waiter (rq_key q) (rq_id q) (rq_chan q)) w1"
    have three: "(handler_step response q ^^ 7) (Arrived, w) =
        (handler_step response q ^^ 4) (handler_step response q (Waiting, w2))"
      using None by (simp add: eval_nat_numeral funpow_swap1 handler_step_def l w2_def)
    show ?thesis
    proof (cases "rq_key q \<in> rt_active_keys (rw_runtime w2)")
      case True
      then have "rq_key q \<in> rt_active_keys (rw_runtime w1)" by (simp add: w2_def)
      then show ?thesis
        unfolding three using None True
        by (simp add: handler_step_def mark_active_if_new_def over_stays[unfolded handler_step_def] handle_request_def
            begin_or_replay_def l w2_def[symmetric] Let_def)
    next
      case False
      obtain st3 w3 where e: "ensure_pending_state (rq_key q) (rq_action q) (rq_session_id q)
          (w2\<lparr>rw_runtime := snd (mark_active_if_new (rq_key q) (rw_runtime w2))\<rparr>) = (st3, w3)" by fastforce
      obtain st4 w4 where p: "persist_final_response st3 response (executes (rq_key q) w3) = (st4, w4)" by fastforce
      have "rq_key q \<notin> rt_active_keys (rw_runtime w1)" using False by (simp add: w2_def)
      then show ?thesis
        unfolding three using False None e p
        by (simp add: eval_nat_numeral handler_step_def mark_active_if_new_def handle_request_def begin_or_replay_def l
            w2_def[symmetric] finish_request_def Let_def)
    qed
  qed
qed

subsection \<open>Requests one after another\<close>

lemma load_absent: "rw_store w key = None \<Longrightarrow> load_state key w = (None, w)"
  by (simp add: load_state_def load_json_state_def)

lemma load_present:
  "rw_store w key = Some st \<Longrightarrow> \<not> is_stale (rw_now w) st \<Longrightarrow> load_state key w = (Some st, w)"
  by (simp add: load_state_def load_json_state_def)

lemma load_stale:
  "rw_store w key = Some st \<Longrightarrow> is_stale (rw_now w) st \<Longrightarrow> load_state key w = (None, w\<lparr>rw_store := (rw_store w)(key := None)\<rparr>)"
  by (simp add: load_state_def load_json_state_def)

text \<open>A handler that takes \<^verbatim>\<open>d\<close> milliseconds between its start and its end.\<close>

definition handle_request_taking :: "nat \<Rightarrow> mutation_response \<Rightarrow> request \<Rightarrow> request_world \<Rightarrow> request_world" where
  "handle_request_taking d response q w =
     (case begin_or_replay q w of
        (None, w) \<Rightarrow> w
      | (Some st, w) \<Rightarrow> finish_request st response (executes (rq_key q) (w\<lparr>rw_now := rw_now w + d\<rparr>)))"

definition pending_of :: "request \<Rightarrow> nat \<Rightarrow> mutation_state" where
  "pending_of q t = \<lparr>mu_key = rq_key q, mu_action = rq_action q, mu_session_id = rq_session_id q, mu_created_at = t, mu_final_response = None\<rparr>"

lemma begin_unknown:
  assumes "fst (load_state (rq_key q) w) = None" "rq_key q \<notin> rt_active_keys (rw_runtime w)"
  shows "\<exists>w'. begin_or_replay q w = (Some (pending_of q (rw_now w)), w') \<and> rw_executed w' = rw_executed w \<and> rw_now w' = rw_now w \<and>
     rw_writes_ok w' = rw_writes_ok w \<and> rw_outbox w' = rw_outbox w \<and>
     rt_active_keys (rw_runtime w') = insert (rq_key q) (rt_active_keys (rw_runtime w)) \<and>
     rt_waiters (rw_runtime w') = hentry [] (rq_key q) (\<lambda>ws. ws @ [(rq_id q, rq_chan q)]) (rt_waiters (rw_runtime w))"
proof -
  obtain w1 where l: "load_state (rq_key q) w = (None, w1)" using assms(1) by (metis prod.collapse)
  have f: "rw_executed w1 = rw_executed w" "rw_now w1 = rw_now w" "rw_runtime w1 = rw_runtime w" "rw_outbox w1 = rw_outbox w"
    "rw_writes_ok w1 = rw_writes_ok w"
    using load_state_fields[of "rq_key q" w] l by simp_all
  have n: "rw_store w1 (rq_key q) = None"
    using l by (auto simp: load_state_def load_json_state_def split: option.splits if_splits)
  let ?w2 = "(with_runtime (add_waiter (rq_key q) (rq_id q) (rq_chan q)) w1)
      \<lparr>rw_runtime := (add_waiter (rq_key q) (rq_id q) (rq_chan q) (rw_runtime w1))\<lparr>rt_active_keys := insert (rq_key q) (rt_active_keys (rw_runtime w1))\<rparr>\<rparr>"
  have l2: "load_state (rq_key q) ?w2 = (None, ?w2)" using n by (intro load_absent) simp
  have "begin_or_replay q w = (Some (pending_of q (rw_now w)), save_state (pending_of q (rw_now w)) ?w2)"
    using assms(2) l2 f by (simp add: begin_or_replay_def l mark_active_if_new_def ensure_pending_state_def pending_of_def Let_def)
  then show ?thesis
    by (intro exI[of _ "save_state (pending_of q (rw_now w)) ?w2"]) (use f in simp)
qed

lemma handle_unknown:
  assumes "fst (load_state (rq_key q) w) = None" "rq_key q \<notin> rt_active_keys (rw_runtime w)" "rw_writes_ok w"
    and "w' = handle_request_taking d response q w"
  shows "rw_executed w' = rw_executed w @ [rq_key q]" "rw_now w' = rw_now w + d" "rw_writes_ok w'"
    "rw_store w' (rq_key q) = Some ((pending_of q (rw_now w))\<lparr>mu_final_response := Some response\<rparr>)"
    "rt_active_keys (rw_runtime w') = rt_active_keys (rw_runtime w) - {rq_key q}"
    "rw_outbox w' = rw_outbox w @ map (\<lambda>(i, tx). (tx, into_server_event response i (rq_session_id q)))
       (hget_or [] (rt_waiters (rw_runtime w)) (rq_key q) @ [(rq_id q, rq_chan q)])"
proof -
  obtain w1 where b: "begin_or_replay q w = (Some (pending_of q (rw_now w)), w1)" "rw_executed w1 = rw_executed w" "rw_now w1 = rw_now w"
      "rw_writes_ok w1" "rw_outbox w1 = rw_outbox w" "rt_active_keys (rw_runtime w1) = insert (rq_key q) (rt_active_keys (rw_runtime w))"
      "rt_waiters (rw_runtime w1) = hentry [] (rq_key q) (\<lambda>ws. ws @ [(rq_id q, rq_chan q)]) (rt_waiters (rw_runtime w))"
    using begin_unknown[OF assms(1,2)] assms(3) by auto
  have w': "w' = finish_request (pending_of q (rw_now w)) response (executes (rq_key q) (w1\<lparr>rw_now := rw_now w1 + d\<rparr>))"
    by (simp add: assms(4) handle_request_taking_def b(1))
  show "rw_executed w' = rw_executed w @ [rq_key q]" "rw_now w' = rw_now w + d" "rw_writes_ok w'"
    "rw_store w' (rq_key q) = Some ((pending_of q (rw_now w))\<lparr>mu_final_response := Some response\<rparr>)"
    "rt_active_keys (rw_runtime w') = rt_active_keys (rw_runtime w) - {rq_key q}"
    "rw_outbox w' = rw_outbox w @ map (\<lambda>(i, tx). (tx, into_server_event response i (rq_session_id q)))
       (hget_or [] (rt_waiters (rw_runtime w)) (rq_key q) @ [(rq_id q, rq_chan q)])"
    using b by (auto simp: w' finish_request_def persist_final_response_def save_state_def save_json_state_def pending_of_def
        executes_def hmap_simps Let_def)
qed

text \<open>
  C16: A request is carried out once: when its handler has ended, a retry under the same key within thirty
  seconds of the start of the handler is not carried out but answered, on its own channel, with the
  stored response; the first request and all that were waiting got that response.
\<close>

theorem retry_is_replayed:
  assumes "fst (load_state (rq_key q) w) = None" "rq_key q \<notin> rt_active_keys (rw_runtime w)" "rw_writes_ok w"
    and "rq_key q' = rq_key q" "d + t \<le> FINAL_STATE_TTL"
    and "w1 = handle_request_taking d response q w"
    and "w2 = handle_request_taking d' response' q' (w1\<lparr>rw_now := rw_now w1 + t\<rparr>)"
  shows "rw_executed w2 = rw_executed w @ [rq_key q] \<and>
         rw_outbox w1 = rw_outbox w @ map (\<lambda>(i, tx). (tx, into_server_event response i (rq_session_id q)))
           (hget_or [] (rt_waiters (rw_runtime w)) (rq_key q) @ [(rq_id q, rq_chan q)]) \<and>
         rw_outbox w2 = rw_outbox w1 @ [(rq_chan q', into_server_event response (rq_id q') (rq_session_id q'))]"
proof -
  note h = handle_unknown[OF assms(1-3,6)]
  let ?st = "(pending_of q (rw_now w))\<lparr>mu_final_response := Some response\<rparr>"
  let ?w = "w1\<lparr>rw_now := rw_now w1 + t\<rparr>"
  have "\<not> is_stale (rw_now ?w) ?st"
    using assms(5) by (simp add: is_stale_def elapsed_exceeds_def pending_of_def h(2))
  then have "load_state (rq_key q') ?w = (Some ?st, ?w)"
    using h(4) assms(4) by (intro load_present) simp_all
  then have "w2 = send (rq_chan q') (into_server_event response (rq_id q') (rq_session_id q')) ?w"
    by (simp add: assms(7) handle_request_taking_def begin_or_replay_def)
  then show ?thesis using h(1,6) by simp
qed

text \<open>
  C38: The thirty seconds are counted from the start of the request, not from its answer: a request that
  took longer is carried out again by a retry, even one that arrives at once.
\<close>

theorem slow_request_is_repeated:
  assumes "fst (load_state (rq_key q) w) = None" "rq_key q \<notin> rt_active_keys (rw_runtime w)" "rw_writes_ok w"
    and "rq_key q' = rq_key q" "d > FINAL_STATE_TTL"
    and "w1 = handle_request_taking d response q w" "w2 = handle_request_taking d' response' q' w1"
  shows "rw_executed w2 = rw_executed w @ [rq_key q, rq_key q]"
proof -
  note h = handle_unknown[OF assms(1-3,6)]
  have "is_stale (rw_now w1) ((pending_of q (rw_now w))\<lparr>mu_final_response := Some response\<rparr>)"
    using assms(5) by (simp add: is_stale_def elapsed_exceeds_def pending_of_def h(2))
  then have "fst (load_state (rq_key q') w1) = None" using load_stale[of w1 "rq_key q'"] h(4) assms(4) by simp
  moreover have "rq_key q' \<notin> rt_active_keys (rw_runtime w1)" by (simp add: h(5) assms(4))
  ultimately show ?thesis using handle_unknown(1)[OF _ _ h(3) assms(7)] h(1) assms(4) by simp
qed

subsection \<open>Requests at the same time\<close>

fun owns :: "phase \<Rightarrow> bool" where
  "owns Claimed = True"
| "owns (Executing st) = True"
| "owns (Stored st) = True"
| "owns (Answered st) = True"
| "owns p = False"

fun phase_state :: "phase \<Rightarrow> mutation_state option" where
  "phase_state (Executing st) = Some st"
| "phase_state (Stored st) = Some st"
| "phase_state (Answered st) = Some st"
| "phase_state p = None"

definition keyed_store :: "request_world \<Rightarrow> bool" where
  "keyed_store w \<longleftrightarrow> (\<forall>k st. rw_store w k = Some st \<longrightarrow> mu_key st = k)"

definition claims_ok :: "(request \<times> mutation_response) list \<Rightarrow> phase list \<Rightarrow> request_world \<Rightarrow> bool" where
  "claims_ok qs ps w \<longleftrightarrow>
     length ps = length qs \<and> keyed_store w \<and>
     (\<forall>i<length qs. owns (ps ! i) \<longrightarrow> rq_key (fst (qs ! i)) \<in> rt_active_keys (rw_runtime w)) \<and>
     (\<forall>i<length qs. \<forall>st. phase_state (ps ! i) = Some st \<longrightarrow> mu_key st = rq_key (fst (qs ! i))) \<and>
     (\<forall>i<length qs. \<forall>j<length qs. i \<noteq> j \<and> owns (ps ! i) \<and> owns (ps ! j) \<longrightarrow> rq_key (fst (qs ! i)) \<noteq> rq_key (fst (qs ! j)))"

lemma keyed_load: "keyed_store w \<Longrightarrow> load_state k w = (st, w') \<Longrightarrow> keyed_store w' \<and> (\<forall>x. st = Some x \<longrightarrow> mu_key x = k)"
  by (auto simp: load_state_def load_json_state_def keyed_store_def split: option.splits if_splits)

lemma keyed_save: "keyed_store w \<Longrightarrow> keyed_store (save_state st w)"
  by (auto simp: save_state_def save_json_state_def keyed_store_def)

lemma keyed_ensure:
  assumes "keyed_store w" "ensure_pending_state k a sid w = (st, w')"
  shows "keyed_store w' \<and> mu_key st = k \<and> rw_runtime w' = rw_runtime w"
proof -
  obtain st1 w1 where l: "load_state k w = (st1, w1)" by fastforce
  have "rw_runtime w1 = rw_runtime w" using load_state_fields(3)[of k w] l by simp
  then show ?thesis
    using assms keyed_load[OF assms(1) l] l
    by (auto simp: ensure_pending_state_def Let_def keyed_save split: option.splits)
qed

text \<open>What one step does to the claims: the handler's own phase and the set of active keys.\<close>

lemma advance_claims:
  assumes "advance response q p w = (p', w')" "keyed_store w" "phase_state p = None \<or> (\<exists>st. phase_state p = Some st \<and> mu_key st = rq_key q)"
    and "owns p \<longrightarrow> rq_key q \<in> rt_active_keys (rw_runtime w)"
  shows "keyed_store w' \<and> (\<forall>st. phase_state p' = Some st \<longrightarrow> mu_key st = rq_key q) \<and>
    (rt_active_keys (rw_runtime w') = rt_active_keys (rw_runtime w) \<and> owns p' = owns p \<or>
     p' = Claimed \<and> rq_key q \<notin> rt_active_keys (rw_runtime w) \<and>
       rt_active_keys (rw_runtime w') = insert (rq_key q) (rt_active_keys (rw_runtime w)) \<or>
     \<not> owns p' \<and> owns p \<and> rt_active_keys (rw_runtime w') = rt_active_keys (rw_runtime w) - {rq_key q})"
proof (cases p)
  case Arrived
  obtain st w1 where l: "load_state (rq_key q) w = (st, w1)" by fastforce
  have "keyed_store w1" "rw_runtime w1 = rw_runtime w"
    using keyed_load[OF assms(2) l] load_state_fields(3)[of "rq_key q" w] l by simp_all
  then show ?thesis
    using assms(1) l Arrived by (auto simp: keyed_store_def split: option.splits)
next
  case Looked_Up
  then show ?thesis using assms(1,2) by (auto simp: keyed_store_def)
next
  case Waiting
  then show ?thesis
    using assms(1,2) by (auto simp: mark_active_if_new_def keyed_store_def insert_absorb split: if_splits)
next
  case Claimed
  obtain st w1 where e: "ensure_pending_state (rq_key q) (rq_action q) (rq_session_id q) w = (st, w1)" by fastforce
  then show ?thesis
    using assms(1) keyed_ensure[OF assms(2) e] Claimed by (auto simp: keyed_store_def)
next
  case (Executing st)
  then show ?thesis
    using assms(1,2,3) keyed_save[OF assms(2)] by (auto simp: persist_final_response_def Let_def)
next
  case (Stored st)
  then show ?thesis using assms(1-3) by (auto simp: keyed_store_def)
next
  case (Answered st)
  then show ?thesis using assms(1-3) by (auto simp: keyed_store_def)
next
  case Over
  then show ?thesis using assms by auto
qed

lemma claims_ok_cong:
  "rw_store w = rw_store w' \<Longrightarrow> rw_runtime w = rw_runtime w' \<Longrightarrow> claims_ok qs ps w = claims_ok qs ps w'"
  by (simp only: claims_ok_def keyed_store_def)

lemma claims_step:
  assumes ok: "claims_ok qs ps w" and i: "i < length qs" "qs ! i = (q, response)" and ad: "advance response q (ps ! i) w = (p', w')"
  shows "claims_ok qs (ps[i := p']) w'"
proof -
  have len: "length ps = length qs" using ok by (simp add: claims_ok_def)
  have q: "fst (qs ! i) = q" using i by simp
  have c: "keyed_store w' \<and> (\<forall>st. phase_state p' = Some st \<longrightarrow> mu_key st = rq_key q) \<and>
    (rt_active_keys (rw_runtime w') = rt_active_keys (rw_runtime w) \<and> owns p' = owns (ps ! i) \<or>
     p' = Claimed \<and> rq_key q \<notin> rt_active_keys (rw_runtime w) \<and>
       rt_active_keys (rw_runtime w') = insert (rq_key q) (rt_active_keys (rw_runtime w)) \<or>
     \<not> owns p' \<and> owns (ps ! i) \<and> rt_active_keys (rw_runtime w') = rt_active_keys (rw_runtime w) - {rq_key q})"
    using ok i by (intro advance_claims[OF ad]) (cases "phase_state (ps ! i)"; force simp: claims_ok_def)+
  have act: "owns (ps ! j) \<longrightarrow> rq_key (fst (qs ! j)) \<in> rt_active_keys (rw_runtime w)" if "j < length qs" for j
    using ok that by (simp add: claims_ok_def)
  have dif: "rq_key (fst (qs ! j)) \<noteq> rq_key (fst (qs ! k))" if "j < length qs" "k < length qs" "j \<noteq> k" "owns (ps ! j)" "owns (ps ! k)" for j k
    using ok that by (simp add: claims_ok_def)
  have act': "owns (ps[i := p'] ! j) \<longrightarrow> rq_key (fst (qs ! j)) \<in> rt_active_keys (rw_runtime w')" if j: "j < length qs" for j
  proof (cases "j = i")
    case True
    then show ?thesis using c act[OF j] len i q by auto
  next
    case False
    then show ?thesis using c act[OF j] dif[OF j i(1) False] q by auto
  qed
  have dif': "rq_key (fst (qs ! j)) \<noteq> rq_key (fst (qs ! k))"
    if t: "j < length qs" "k < length qs" "j \<noteq> k" "owns (ps[i := p'] ! j)" "owns (ps[i := p'] ! k)" for j k
  proof -
    have other: "rq_key (fst (qs ! l)) \<noteq> rq_key q" if "l < length qs" "l \<noteq> i" "owns (ps ! l)" "owns p'" for l
      using that c act[OF that(1)] dif[OF that(1) i(1) that(2,3)] q by auto
    show ?thesis
    proof (cases "j = i \<or> k = i")
      case True
      then show ?thesis using t other[of j] other[of k] len q by auto
    next
      case False
      then show ?thesis using t dif by simp
    qed
  qed
  have "mu_key st = rq_key (fst (qs ! j))" if "j < length qs" "phase_state (ps[i := p'] ! j) = Some st" for j st
    using that c ok len q by (cases "j = i") (auto simp: claims_ok_def)
  then show ?thesis
    using c act' dif' len unfolding claims_ok_def by (metis length_list_update)
qed

lemma reach_claims:
  assumes "requests_reach qs w0 s" "keyed_store w0"
  shows "claims_ok qs (fst s) (snd s)"
  using assms
proof (induction rule: requests_reach.induct)
  case start
  then show ?case by (auto simp: claims_ok_def)
next
  case (step ps w i q response p' w')
  then have "claims_ok qs ps w" by simp
  from claims_step[OF this step.hyps(2-4)] show ?case by simp
next
  case (tick ps w k)
  have "claims_ok qs ps w = claims_ok qs ps (w\<lparr>rw_now := rw_now w + k\<rparr>)" by (rule claims_ok_cong) simp_all
  then show ?case using tick by simp
qed

text \<open>
  C15: However handlers interleave, two requests of the same key are never carried out at the same time:
  between its claim and its end a handler is the only one of its key.
\<close>

theorem requests_exclude_each_other:
  assumes "requests_reach qs w0 (ps, w)" "keyed_store w0"
    and "i < length qs" "j < length qs" "i \<noteq> j" "rq_key (fst (qs ! i)) = rq_key (fst (qs ! j))"
  shows "\<not> (owns (ps ! i) \<and> owns (ps ! j))"
  using reach_claims[OF assms(1,2)] assms(3-6) by (auto simp: claims_ok_def)

text \<open>Schedules: which handler takes the next step.\<close>

fun run_schedule :: "(request \<times> mutation_response) list \<Rightarrow> nat list \<Rightarrow> phase list \<times> request_world \<Rightarrow> phase list \<times> request_world" where
  "run_schedule qs [] s = s"
| "run_schedule qs (i # is) (ps, w) =
     (case advance (snd (qs ! i)) (fst (qs ! i)) (ps ! i) w of (p', w') \<Rightarrow> run_schedule qs is (ps[i := p'], w'))"

lemma run_schedule_reach:
  "requests_reach qs w0 s \<Longrightarrow> \<forall>i\<in>set is. i < length qs \<Longrightarrow> requests_reach qs w0 (run_schedule qs is s)"
proof (induction "is" arbitrary: s)
  case (Cons i "is")
  obtain ps w where s: "s = (ps, w)" by fastforce
  obtain p' w' where a: "advance (snd (qs ! i)) (fst (qs ! i)) (ps ! i) w = (p', w')" by fastforce
  have "requests_reach qs w0 (ps[i := p'], w')"
    using requests_reach.step[OF Cons.prems(1)[unfolded s], of i "fst (qs ! i)" "snd (qs ! i)" p' w'] Cons.prems(2) a by simp
  then show ?case using Cons.IH Cons.prems(2) by (simp add: s a)
qed simp

definition untouched :: "string \<Rightarrow> request_world \<Rightarrow> bool" where
  "untouched key w \<longleftrightarrow> rw_store w key = None \<and> rw_writes_ok w \<and> rw_runtime w = runtime_default"

text \<open>
  A retry that looked up the stored state before the first handler stored its response, and goes on
  after that handler has ended, is carried out a second time.
\<close>

theorem interleaved_retry_executes_twice:
  assumes "untouched (rq_key q) w" "rq_key q' = rq_key q"
  shows "\<exists>w'. requests_reach [(q, response), (q', response')] w ([Over, Over], w') \<and>
              rw_executed w' = rw_executed w @ [rq_key q, rq_key q]"
proof -
  let ?qs = "[(q, response), (q', response')]"
  let ?s = "run_schedule ?qs [0, 0, 0, 0, 1, 0, 0, 0, 1, 1, 1, 1, 1, 1] ([Arrived, Arrived], w)"
  have "requests_reach ?qs w ([Arrived, Arrived], w)"
    using requests_reach.start[of ?qs w] by (simp add: eval_nat_numeral)
  then have r: "requests_reach ?qs w ?s" by (rule run_schedule_reach) auto
  have "fst ?s = [Over, Over] \<and> rw_executed (snd ?s) = rw_executed w @ [rq_key q, rq_key q]"
    using assms
    by (simp add: untouched_def load_state_def load_json_state_def mark_active_if_new_def runtime_default_def
        ensure_pending_state_def persist_final_response_def save_state_def save_json_state_def is_stale_def
        elapsed_exceeds_def executes_def with_runtime_def add_waiter_def answer_key_def take_waiters_def
        clear_active_def Let_def)
  then show ?thesis using r by (metis prod.collapse)
qed

text \<open>
  A retry that registers as a waiter after the first handler has taken the waiters, but before it gave
  up its key, is never answered: all handlers have ended and the retry is still on the list.
\<close>

theorem interleaved_retry_unanswered:
  assumes "untouched (rq_key q) w" "rq_key q' = rq_key q" "rq_chan q' \<noteq> rq_chan q"
  shows "\<exists>w' sent. requests_reach [(q, response), (q', response')] w ([Over, Over], w') \<and>
              rw_outbox w' = rw_outbox w @ sent \<and> rq_chan q' \<notin> fst ` set sent \<and>
              hget (rt_waiters (rw_runtime w')) (rq_key q) = Some [(rq_id q', rq_chan q')]"
proof -
  let ?qs = "[(q, response), (q', response')]"
  let ?s = "run_schedule ?qs [0, 0, 0, 0, 1, 0, 0, 1, 1, 0] ([Arrived, Arrived], w)"
  have "requests_reach ?qs w ([Arrived, Arrived], w)"
    using requests_reach.start[of ?qs w] by (simp add: eval_nat_numeral)
  then have r: "requests_reach ?qs w ?s" by (rule run_schedule_reach) auto
  have "fst ?s = [Over, Over] \<and> rw_outbox (snd ?s) = rw_outbox w @ [(rq_chan q, into_server_event response (rq_id q) (rq_session_id q))] \<and>
      hget (rt_waiters (rw_runtime (snd ?s))) (rq_key q) = Some [(rq_id q', rq_chan q')]"
    using assms(1,2)
    by (simp add: untouched_def load_state_def load_json_state_def mark_active_if_new_def runtime_default_def
        ensure_pending_state_def persist_final_response_def save_state_def save_json_state_def is_stale_def
        elapsed_exceeds_def executes_def with_runtime_def add_waiter_def answer_key_def take_waiters_def
        clear_active_def answer_waiters_def send_def hentry_def hget_or_def Let_def)
  moreover obtain ps' w' where "?s = (ps', w')" by fastforce
  ultimately show ?thesis
    using r assms(3) by (intro exI[of _ w'] exI[of _ "[(rq_chan q, into_server_event response (rq_id q) (rq_session_id q))]"]) simp
qed


section \<open>Witnesses\<close>

definition demo_request :: "u64 \<Rightarrow> chan \<Rightarrow> request" where
  "demo_request i tx = \<lparr>rq_key = ''k'', rq_action = ''spawn'', rq_session_id = ''c'', rq_id = i, rq_chan = tx\<rparr>"

definition demo_world :: request_world where
  "demo_world = \<lparr>rw_now = 5, rw_writes_ok = True, rw_store = (\<lambda>_. None), rw_runtime = runtime_default, rw_outbox = [],
     rw_executed = []\<rparr>"

lemma demo_untouched: "untouched ''k'' demo_world"
  by (simp add: untouched_def demo_world_def)

lemma demo_world_facts:
  "fst (load_state (rq_key (demo_request i tx)) demo_world) = None"
  "rq_key (demo_request i tx) \<notin> rt_active_keys (rw_runtime demo_world)" "rw_writes_ok demo_world"
  by (simp_all add: demo_world_def load_state_def load_json_state_def runtime_default_def)

lemma retry_is_replayed_witness:
  "rw_executed (handle_request_taking 0 (MutationSpawn ''other'') (demo_request 2 ''b'')
     ((handle_request_taking 10 (MutationSpawn ''new'') (demo_request 1 ''a'') demo_world)
        \<lparr>rw_now := rw_now (handle_request_taking 10 (MutationSpawn ''new'') (demo_request 1 ''a'') demo_world) + 1000\<rparr>)) = [''k'']"
proof -
  define w1 where "w1 = handle_request_taking 10 (MutationSpawn ''new'') (demo_request 1 ''a'') demo_world"
  define w2 where "w2 = handle_request_taking 0 (MutationSpawn ''other'') (demo_request 2 ''b'') (w1\<lparr>rw_now := rw_now w1 + 1000\<rparr>)"
  have "rw_executed w2 = rw_executed demo_world @ [rq_key (demo_request 1 ''a'')]"
    using retry_is_replayed[OF demo_world_facts _ _ w1_def w2_def] by (simp add: demo_request_def FINAL_STATE_TTL_def)
  then have "rw_executed w2 = [''k'']" by (simp add: demo_request_def demo_world_def)
  then show ?thesis unfolding w2_def w1_def .
qed

lemma slow_request_is_repeated_witness:
  "rw_executed (handle_request_taking 0 (MutationSpawn ''other'') (demo_request 2 ''b'')
     (handle_request_taking 40000 (MutationSpawn ''new'') (demo_request 1 ''a'') demo_world)) = [''k'', ''k'']"
proof -
  define w1 where "w1 = handle_request_taking 40000 (MutationSpawn ''new'') (demo_request 1 ''a'') demo_world"
  define w2 where "w2 = handle_request_taking 0 (MutationSpawn ''other'') (demo_request 2 ''b'') w1"
  have "rw_executed w2 = rw_executed demo_world @ [rq_key (demo_request 1 ''a''), rq_key (demo_request 1 ''a'')]"
    using slow_request_is_repeated[OF demo_world_facts _ _ w1_def w2_def] by (simp add: demo_request_def FINAL_STATE_TTL_def)
  then have "rw_executed w2 = [''k'', ''k'']" by (simp add: demo_request_def demo_world_def)
  then show ?thesis unfolding w2_def w1_def .
qed

lemma interleaved_retry_executes_twice_witness:
  "\<exists>w. requests_reach [(demo_request 1 ''a'', MutationDone), (demo_request 2 ''b'', MutationDone)] demo_world ([Over, Over], w) \<and>
     rw_executed w = [''k'', ''k'']"
proof -
  have "untouched (rq_key (demo_request 1 ''a'')) demo_world" using demo_untouched by (simp add: demo_request_def)
  from interleaved_retry_executes_twice[OF this, of "demo_request 2 ''b''" MutationDone MutationDone] show ?thesis
    by (simp add: demo_request_def demo_world_def)
qed

lemma interleaved_retry_unanswered_witness:
  "\<exists>w. requests_reach [(demo_request 1 ''a'', MutationDone), (demo_request 2 ''b'', MutationDone)] demo_world ([Over, Over], w) \<and>
     hget (rt_waiters (rw_runtime w)) ''k'' = Some [(2, ''b'')]"
proof -
  have "untouched (rq_key (demo_request 1 ''a'')) demo_world" using demo_untouched by (simp add: demo_request_def)
  from interleaved_retry_unanswered[OF this, of "demo_request 2 ''b''" MutationDone MutationDone] show ?thesis
    by (auto simp: demo_request_def demo_world_def)
qed

lemma requests_exclude_each_other_witness:
  "\<exists>ps w. requests_reach [(demo_request 1 ''a'', MutationDone), (demo_request 2 ''b'', MutationDone)] demo_world (ps, w) \<and>
     owns (ps ! 0) \<and> \<not> owns (ps ! 1)"
proof -
  let ?qs = "[(demo_request 1 ''a'', MutationDone), (demo_request 2 ''b'', MutationDone)]"
  let ?s = "run_schedule ?qs [0, 0, 0] ([Arrived, Arrived], demo_world)"
  have "requests_reach ?qs demo_world ([Arrived, Arrived], demo_world)"
    using requests_reach.start[of ?qs demo_world] by (simp add: eval_nat_numeral)
  then have r: "requests_reach ?qs demo_world ?s" by (rule run_schedule_reach) auto
  obtain ps w where s: "?s = (ps, w)" by fastforce
  have "owns (fst ?s ! 0)"
    by (simp add: demo_request_def demo_world_def load_state_def load_json_state_def mark_active_if_new_def runtime_default_def
        with_runtime_def add_waiter_def)
  from this[unfolded s] have "owns (ps ! 0)" by simp
  moreover have "\<not> (owns (ps ! 0) \<and> owns (ps ! 1))"
    by (rule requests_exclude_each_other[OF r[unfolded s]]) (simp_all add: keyed_store_def demo_world_def demo_request_def)
  ultimately show ?thesis using r s by auto
qed

end
