(* ===== verification/Swarm_State.thy ===== *)
theory Swarm_State
  imports Swarm_Schedule Swarm_Requests
begin

text \<open>
  The swarm state of the server (\<^verbatim>\<open>src/src/server/state.rs\<close>, \<^verbatim>\<open>swarm.rs\<close>, \<^verbatim>\<open>swarm_persistence.rs\<close>,
  \<^verbatim>\<open>soft_interrupt_store.rs\<close>): members and their connections, swarms, plans and coordinators, the sending of
  events, soft interrupts, task progress, status broadcasts and what a restart recovers.

  A handler runs from its start to its end without others in between, except where a theorem names the
  interleaving. A \<^verbatim>\<open>HashMap\<close> and a \<^verbatim>\<open>HashSet\<close> that the code iterates are lists whose order stands for the
  iteration order. Session identifiers are ASCII, so that their first eight bytes are characters. Instants
  and the Unix clock are the one clock of \<^typ>\<open>request_world\<close>, in milliseconds.
\<close>

section \<open>Definitions\<close>

subsection \<open>Members\<close>

record swarm_member =
  mb_session_id :: string
  mb_event_tx :: chan
  mb_event_txs :: "(string, chan) hmap"
  mb_working_dir :: "string option"
  mb_swarm_id :: "string option"
  mb_swarm_enabled :: bool
  mb_status :: string
  mb_detail :: "string option"
  mb_friendly_name :: "string option"
  mb_report_back :: "string option"
  mb_latest_report :: "string option"
  mb_role :: string
  mb_joined_at :: nat
  mb_last_status_change :: nat
  mb_is_headless :: bool

definition durable_record :: "swarm_member \<Rightarrow> swarm_member_record" where
  "durable_record m =
     \<lparr>sm_session_id = mb_session_id m, sm_working_dir = mb_working_dir m, sm_swarm_id = mb_swarm_id m,
      sm_swarm_enabled = mb_swarm_enabled m, sm_status = SwarmLifecycleStatus_from (mb_status m),
      sm_detail = mb_detail m, sm_friendly_name = mb_friendly_name m,
      sm_report_back_to_session_id = mb_report_back m, sm_latest_completion_report = mb_latest_report m,
      sm_role = SwarmRole_from (mb_role m), sm_is_headless = mb_is_headless m\<rparr>"

definition from_record :: "nat \<Rightarrow> swarm_member_record \<Rightarrow> chan \<Rightarrow> swarm_member" where
  "from_record now r tx =
     \<lparr>mb_session_id = sm_session_id r, mb_event_tx = tx, mb_event_txs = [], mb_working_dir = sm_working_dir r,
      mb_swarm_id = sm_swarm_id r, mb_swarm_enabled = sm_swarm_enabled r,
      mb_status = SwarmLifecycleStatus_as_str (sm_status r), mb_detail = sm_detail r,
      mb_friendly_name = sm_friendly_name r, mb_report_back = sm_report_back_to_session_id r,
      mb_latest_report = sm_latest_completion_report r, mb_role = SwarmRole_as_str (sm_role r),
      mb_joined_at = now, mb_last_status_change = now, mb_is_headless = sm_is_headless r\<rparr>"

subsection \<open>The state of the server\<close>

record shared_context =
  sc_key :: string
  sc_value :: string
  sc_from_session :: string
  sc_from_name :: "string option"
  sc_created_at :: nat
  sc_updated_at :: nat

datatype access_op = FileRead | FileWrite | FileEdit

record file_access =
  fa_session_id :: string
  fa_op :: access_op
  fa_timestamp :: nat
  fa_absolute_time :: nat
  fa_summary :: "string option"
  fa_detail :: "string option"

datatype swarm_event_type =
    FileTouched string string "string option" "string option"
  | NotificationEvent string string
  | PlanUpdate string nat
  | PlanProposal string string nat
  | ContextUpdate string string
  | StatusChange string string
  | MemberChange string

record swarm_event =
  ev_id :: u64
  ev_session_id :: string
  ev_session_name :: "string option"
  ev_swarm_id :: "string option"
  ev_event :: swarm_event_type
  ev_timestamp :: nat
  ev_absolute_time :: nat

datatype soft_interrupt_source = FromUser | FromSystem | FromBackgroundTask

record soft_interrupt =
  si_content :: string
  si_urgent :: bool
  si_source :: soft_interrupt_source

text \<open>A state file of a swarm.\<close>

record persisted_plan =
  pp_items :: "plan_item list"
  pp_version :: u64
  pp_participants :: "string list"
  pp_task_progress :: "(string, swarm_task_progress) hmap"

record persisted_swarm_state =
  ps_swarm_id :: string
  ps_plan :: "persisted_plan option"
  ps_coordinator_session_id :: "string option"
  ps_members :: "swarm_member_record list"
  ps_updated_at_unix_ms :: u64

record pending_broadcast =
  pb_scheduled :: bool
  pb_dirty :: bool

text \<open>
  \<^verbatim>\<open>sv_agents\<close> gives for each live session whether its agent is locked by a turn, and its interrupt queue.
  Queues are shared, so they are references into \<^verbatim>\<open>sv_queue_store\<close>. \<^verbatim>\<open>sv_sent_events\<close> is what subscribers of the
  event channel receive, \<^verbatim>\<open>sv_closed\<close> the channels whose receiver is gone, \<^verbatim>\<open>sv_connections\<close> the session of
  each connected client, \<^verbatim>\<open>sv_touches\<close> and \<^verbatim>\<open>sv_touched\<close> the accesses of each file and the files of each session. The outbox of \<^verbatim>\<open>sv_world\<close> holds
  what was handed to a channel; a closed one drops it.
\<close>

record server =
  sv_world :: request_world
  sv_members :: "(string, swarm_member) hmap"
  sv_swarms :: "(string, string list) hmap"
  sv_plans :: "(string, versioned_plan) hmap"
  sv_coordinators :: "(string, string) hmap"
  sv_context :: "(string, (string, shared_context) hmap) hmap"
  sv_channels :: channel_index
  sv_closed :: "chan set"
  sv_history :: "swarm_event list"
  sv_event_counter :: u64
  sv_sent_events :: "swarm_event list"
  sv_queues :: "(string, nat) hmap"
  sv_queue_store :: "nat \<Rightarrow> soft_interrupt list"
  sv_agents :: "(string, bool \<times> nat) hmap"
  sv_deferred :: "(string, soft_interrupt list) hmap"
  sv_pending :: "(string, pending_broadcast) hmap"
  sv_disk :: "(string, persisted_swarm_state) hmap"
  sv_touches :: "(string, file_access list) hmap"
  sv_touched :: "(string, string list) hmap"
  sv_connections :: "(string, string) hmap"

text \<open>
  The surroundings: the order in which sets are iterated, the environment variables, the common git
  directory of a directory, the sessions whose files exist and for which the deferred interrupts can be read
  and written.
\<close>

record server_env =
  en_iter :: "string list \<Rightarrow> string list"
  en_var :: "string \<Rightarrow> string option"
  en_git_common_dir :: "string \<Rightarrow> string option"
  en_session_exists :: "string \<Rightarrow> bool"
  en_interrupts_ok :: "string \<Rightarrow> bool"

definition on_world :: "(request_world \<Rightarrow> request_world) \<Rightarrow> server \<Rightarrow> server" where
  "on_world f s = s\<lparr>sv_world := f (sv_world s)\<rparr>"

abbreviation now_of :: "server \<Rightarrow> nat" where
  "now_of s \<equiv> rw_now (sv_world s)"

text \<open>A channel whose receiver was dropped at once, for members without a client.\<close>

definition dead_chan :: chan where "dead_chan = ''(closed)''"

definition is_closed :: "server \<Rightarrow> chan \<Rightarrow> bool" where
  "is_closed s tx \<longleftrightarrow> tx = dead_chan \<or> tx \<in> sv_closed s"

definition now_unix_ms :: "server \<Rightarrow> u64" where
  "now_unix_ms s = of_nat (now_of s)"

definition server_send :: "chan \<Rightarrow> server_event \<Rightarrow> server \<Rightarrow> server" where
  "server_send tx e = on_world (send tx e)"

definition swarm_id_for_session :: "string \<Rightarrow> server \<Rightarrow> string option" where
  "swarm_id_for_session sid s = Option.bind (hget (sv_members s) sid) mb_swarm_id"

definition friendly_name_for_session :: "string \<Rightarrow> server \<Rightarrow> string option" where
  "friendly_name_for_session sid s = Option.bind (hget (sv_members s) sid) mb_friendly_name"

definition modify_member :: "string \<Rightarrow> (swarm_member \<Rightarrow> swarm_member) \<Rightarrow> server \<Rightarrow> server" where
  "modify_member sid f s = s\<lparr>sv_members := hmodify sid f (sv_members s)\<rparr>"

definition swarm_sessions :: "string \<Rightarrow> server \<Rightarrow> string list" where
  "swarm_sessions swarm_id s = hget_or [] (sv_swarms s) swarm_id"

subsection \<open>Connections\<close>

definition register_session_event_sender :: "string \<Rightarrow> string \<Rightarrow> chan \<Rightarrow> server \<Rightarrow> server" where
  "register_session_event_sender sid connection tx =
     modify_member sid (\<lambda>m. m\<lparr>mb_event_tx := tx, mb_event_txs := hput connection tx (mb_event_txs m)\<rparr>)"

text \<open>The primary channel is the first live one.\<close>

definition first_live :: "swarm_member \<Rightarrow> swarm_member" where
  "first_live m = (case mb_event_txs m of [] \<Rightarrow> m | (_, tx) # _ \<Rightarrow> m\<lparr>mb_event_tx := tx\<rparr>)"

definition unregister_session_event_sender :: "string \<Rightarrow> string \<Rightarrow> server \<Rightarrow> server" where
  "unregister_session_event_sender sid connection =
     modify_member sid (\<lambda>m. first_live (m\<lparr>mb_event_txs := hdel connection (mb_event_txs m)\<rparr>))"

definition retain_open :: "server \<Rightarrow> swarm_member \<Rightarrow> swarm_member" where
  "retain_open s m = m\<lparr>mb_event_txs := filter (\<lambda>(_, tx). \<not> is_closed s tx) (mb_event_txs m)\<rparr>"

definition send_all :: "chan list \<Rightarrow> server_event \<Rightarrow> server \<Rightarrow> nat \<times> server" where
  "send_all txs e s = (length (filter (\<lambda>tx. \<not> is_closed s tx) txs), fold (\<lambda>tx. server_send tx e) txs s)"

definition fanout_session_event :: "string \<Rightarrow> server_event \<Rightarrow> server \<Rightarrow> nat \<times> server" where
  "fanout_session_event sid e s =
     (case hget (sv_members s) sid of
        None \<Rightarrow> (0, s)
      | Some m \<Rightarrow>
          let m1 = first_live (retain_open s m);
              targets = (if mb_event_txs m1 = [] then [mb_event_tx m1] else map snd (mb_event_txs m1))
          in send_all targets e (modify_member sid (\<lambda>_. m1) s))"

definition fanout_live_client_event :: "string \<Rightarrow> server_event \<Rightarrow> server \<Rightarrow> nat \<times> server" where
  "fanout_live_client_event sid e s =
     (case hget (sv_members s) sid of
        None \<Rightarrow> (0, s)
      | Some m \<Rightarrow>
          let m1 = retain_open s m
          in send_all (map snd (mb_event_txs m1)) e (modify_member sid (\<lambda>_. m1) s))"

text \<open>An event sent to the primary channel of a session, if it is a member.\<close>

definition send_primary :: "string \<Rightarrow> server_event \<Rightarrow> server \<Rightarrow> server" where
  "send_primary sid e s = (case hget (sv_members s) sid of None \<Rightarrow> s | Some m \<Rightarrow> server_send (mb_event_tx m) e s)"

subsection \<open>Soft interrupts\<close>

text \<open>The file of interrupts for sessions that are not live.\<close>

definition overwrite_interrupts :: "string \<Rightarrow> soft_interrupt list \<Rightarrow> server \<Rightarrow> server" where
  "overwrite_interrupts sid ms s =
     s\<lparr>sv_deferred := (if ms = [] then hdel sid (sv_deferred s) else hput sid ms (sv_deferred s))\<rparr>"

definition load_interrupts :: "string \<Rightarrow> server \<Rightarrow> soft_interrupt list" where
  "load_interrupts sid s = hget_or [] (sv_deferred s) sid"

definition take_interrupts :: "string \<Rightarrow> server \<Rightarrow> soft_interrupt list \<times> server" where
  "take_interrupts sid s = (load_interrupts sid s, s\<lparr>sv_deferred := hdel sid (sv_deferred s)\<rparr>)"

definition append_interrupt :: "string \<Rightarrow> soft_interrupt \<Rightarrow> server \<Rightarrow> server" where
  "append_interrupt sid m s = overwrite_interrupts sid (load_interrupts sid s @ [m]) s"

definition enqueue_soft_interrupt :: "nat \<Rightarrow> soft_interrupt \<Rightarrow> server \<Rightarrow> server" where
  "enqueue_soft_interrupt q m s = s\<lparr>sv_queue_store := (sv_queue_store s)(q := sv_queue_store s q @ [m])\<rparr>"

definition register_session_interrupt_queue :: "string \<Rightarrow> nat \<Rightarrow> server \<Rightarrow> server" where
  "register_session_interrupt_queue sid q s = s\<lparr>sv_queues := hput sid q (sv_queues s)\<rparr>"

definition rename_session_interrupt_queue :: "string \<Rightarrow> string \<Rightarrow> server \<Rightarrow> server" where
  "rename_session_interrupt_queue old new s =
     (case hget (sv_queues s) old of
        None \<Rightarrow> s
      | Some q \<Rightarrow> s\<lparr>sv_queues := hput new q (hdel old (sv_queues s))\<rparr>)"

definition remove_session_interrupt_queue :: "string \<Rightarrow> server \<Rightarrow> server" where
  "remove_session_interrupt_queue sid s = s\<lparr>sv_queues := hdel sid (sv_queues s)\<rparr>"

definition queue_soft_interrupt_for_session ::
  "server_env \<Rightarrow> string \<Rightarrow> string \<Rightarrow> bool \<Rightarrow> soft_interrupt_source \<Rightarrow> server \<Rightarrow> bool \<times> server" where
  "queue_soft_interrupt_for_session env sid content urgent source s =
     (let m = \<lparr>si_content = content, si_urgent = urgent, si_source = source\<rparr>
      in case hget (sv_queues s) sid of
           Some q \<Rightarrow> (True, enqueue_soft_interrupt q m s)
         | None \<Rightarrow>
             (case hget (sv_agents s) sid of
                Some (False, q) \<Rightarrow> (True, enqueue_soft_interrupt q m (register_session_interrupt_queue sid q s))
              | agent \<Rightarrow>
                  if agent = None \<and> \<not> en_session_exists env sid then (False, s)
                  else if en_interrupts_ok env sid then (True, append_interrupt sid m s)
                  else (False, s)))"

definition interrupt_system :: "server_env \<Rightarrow> string \<Rightarrow> string \<Rightarrow> server \<Rightarrow> server" where
  "interrupt_system env sid content s = snd (queue_soft_interrupt_for_session env sid content False FromSystem s)"

subsection \<open>Events\<close>

definition MAX_EVENT_HISTORY :: nat where "MAX_EVENT_HISTORY = 5000"

definition record_swarm_event ::
  "string \<Rightarrow> string option \<Rightarrow> string option \<Rightarrow> swarm_event_type \<Rightarrow> server \<Rightarrow> server" where
  "record_swarm_event session_id session_name swarm_id event s =
     (let e = \<lparr>ev_id = sv_event_counter s, ev_session_id = session_id, ev_session_name = session_name,
               ev_swarm_id = swarm_id, ev_event = event, ev_timestamp = now_of s, ev_absolute_time = now_of s\<rparr>;
          history = sv_history s @ [e]
      in s\<lparr>sv_event_counter := sv_event_counter s + 1,
           sv_sent_events := sv_sent_events s @ [e],
           sv_history := (if length history > MAX_EVENT_HISTORY then tl history else history)\<rparr>)"

definition record_swarm_event_for_session :: "string \<Rightarrow> swarm_event_type \<Rightarrow> server \<Rightarrow> server" where
  "record_swarm_event_for_session sid event s =
     record_swarm_event sid (friendly_name_for_session sid s) (swarm_id_for_session sid s) event s"

subsection \<open>Settings\<close>

definition parse_u64 :: "string \<Rightarrow> nat option" where
  "parse_u64 v =
     (let ds = (case v of CHR ''+'' # r \<Rightarrow> r | _ \<Rightarrow> v)
      in if ds = [] \<or> \<not> list_all (\<lambda>c. (48 :: nat) \<le> of_char c \<and> (of_char c :: nat) \<le> 57) ds \<or> read_nat ds \<ge> 2 ^ 64
         then None else Some (read_nat ds))"

definition configured_positive_u64 :: "server_env \<Rightarrow> string \<Rightarrow> nat \<Rightarrow> nat" where
  "configured_positive_u64 env name d =
     (case Option.bind (en_var env name) (\<lambda>v. parse_u64 (trim v)) of
        Some n \<Rightarrow> if n > 0 then n else d
      | None \<Rightarrow> d)"

definition swarm_status_debounce_member_threshold :: "server_env \<Rightarrow> nat" where
  "swarm_status_debounce_member_threshold env =
     configured_positive_u64 env ''GCODE_SWARM_STATUS_DEBOUNCE_MEMBER_THRESHOLD'' 2"

definition swarm_task_stale_after :: "server_env \<Rightarrow> nat" where
  "swarm_task_stale_after env = configured_positive_u64 env ''GCODE_SWARM_TASK_STALE_AFTER_SECS'' 45"

subsection \<open>Persistence\<close>

definition state_path :: "string \<Rightarrow> string" where
  "state_path swarm_id = sanitize_session_id swarm_id @ ''.json''"

definition to_persisted_plan :: "versioned_plan \<Rightarrow> persisted_plan" where
  "to_persisted_plan p =
     \<lparr>pp_items = vp_items p, pp_version = vp_version p, pp_participants = sorted_list_of_set (vp_participants p),
      pp_task_progress = vp_task_progress p\<rparr>"

definition progress_default :: swarm_task_progress where
  "progress_default =
     \<lparr>tp_assigned_session_id = None, tp_assignment_summary = None, tp_assigned_at_unix_ms = None,
      tp_started_at_unix_ms = None, tp_last_heartbeat_unix_ms = None, tp_last_detail = None,
      tp_last_checkpoint_unix_ms = None, tp_checkpoint_summary = None, tp_completed_at_unix_ms = None,
      tp_stale_since_unix_ms = None, tp_heartbeat_count = None, tp_checkpoint_count = None\<rparr>"

definition mark_stale_since :: "u64 \<Rightarrow> swarm_task_progress \<Rightarrow> swarm_task_progress" where
  "mark_stale_since t p =
     (case tp_stale_since_unix_ms p of None \<Rightarrow> p\<lparr>tp_stale_since_unix_ms := Some t\<rparr> | Some _ \<Rightarrow> p)"

definition from_persisted_plan :: "persisted_plan \<Rightarrow> u64 \<Rightarrow> versioned_plan" where
  "from_persisted_plan p updated_at =
     \<lparr>vp_items = map (\<lambda>it. if pi_status it = ''running'' then it\<lparr>pi_status := ''running_stale''\<rparr> else it) (pp_items p),
      vp_version = pp_version p, vp_participants = set (pp_participants p),
      vp_task_progress =
        fold (\<lambda>it. if pi_status it = ''running'' then hentry progress_default (pi_id it) (mark_stale_since updated_at)
                   else id) (pp_items p) (pp_task_progress p)\<rparr>"

definition append_recovery_detail :: "string option \<Rightarrow> string \<Rightarrow> string option" where
  "append_recovery_detail detail note =
     (case detail of
        Some existing \<Rightarrow> if trim existing \<noteq> [] then Some (existing @ '' ('' @ note @ '')'') else Some note
      | None \<Rightarrow> Some note)"

definition recover_member_status ::
  "swarm_lifecycle_status \<Rightarrow> string option \<Rightarrow> bool \<Rightarrow> swarm_lifecycle_status \<times> string option" where
  "recover_member_status status detail is_headless =
     (if status = swarm_lifecycle_status.Running then (swarm_lifecycle_status.Crashed, append_recovery_detail detail ''recovered after reload while running'')
      else if is_headless \<and> status \<notin> {swarm_lifecycle_status.Completed, swarm_lifecycle_status.Failed, swarm_lifecycle_status.Stopped}
      then (swarm_lifecycle_status.Crashed, append_recovery_detail detail ''headless session did not survive reload'')
      else (status, detail))"

definition from_persisted_member :: "nat \<Rightarrow> swarm_member_record \<Rightarrow> swarm_member" where
  "from_persisted_member now r =
     (let (status, detail) = recover_member_status (sm_status r) (sm_detail r) (sm_is_headless r)
      in from_record now (r\<lparr>sm_status := status, sm_detail := detail\<rparr>) dead_chan)"

record loaded_state =
  ld_plans :: "(string, versioned_plan) hmap"
  ld_coordinators :: "(string, string) hmap"
  ld_members :: "(string, swarm_member) hmap"
  ld_swarms :: "(string, string list) hmap"

definition load_member :: "nat \<Rightarrow> swarm_member_record \<Rightarrow> loaded_state \<Rightarrow> loaded_state" where
  "load_member now r l =
     (case sm_swarm_id r of
        None \<Rightarrow> l
      | Some sw \<Rightarrow>
          l\<lparr>ld_swarms := hentry [] sw (List.insert (sm_session_id r)) (ld_swarms l),
            ld_members := hput (sm_session_id r) (from_persisted_member now r) (ld_members l)\<rparr>)"

definition load_file :: "nat \<Rightarrow> persisted_swarm_state \<Rightarrow> loaded_state \<Rightarrow> loaded_state" where
  "load_file now st l =
     fold (load_member now) (ps_members st)
       (l\<lparr>ld_plans := (case ps_plan st of None \<Rightarrow> ld_plans l
                       | Some p \<Rightarrow> hput (ps_swarm_id st) (from_persisted_plan p (ps_updated_at_unix_ms st)) (ld_plans l)),
          ld_coordinators := (case ps_coordinator_session_id st of None \<Rightarrow> ld_coordinators l
                              | Some c \<Rightarrow> hput (ps_swarm_id st) c (ld_coordinators l))\<rparr>)"

text \<open>Files that are not readable states are not on \<^verbatim>\<open>sv_disk\<close>; the list is in reading order.\<close>

definition load_runtime_state :: "nat \<Rightarrow> (string, persisted_swarm_state) hmap \<Rightarrow> loaded_state" where
  "load_runtime_state now disk =
     fold (\<lambda>(_, st). load_file now st) disk \<lparr>ld_plans = [], ld_coordinators = [], ld_members = [], ld_swarms = []\<rparr>"

record swarm_runtime =
  sr_swarm_id :: string
  sr_coordinator :: "string option"
  sr_member_session_ids :: "string list"
  sr_members :: "swarm_member list"
  sr_plan :: "versioned_plan option"

definition load_runtime :: "string \<Rightarrow> server \<Rightarrow> swarm_runtime" where
  "load_runtime swarm_id s =
     \<lparr>sr_swarm_id = swarm_id, sr_coordinator = hget (sv_coordinators s) swarm_id,
      sr_member_session_ids = swarm_sessions swarm_id s,
      sr_members = sort_key mb_session_id (filter (\<lambda>m. mb_swarm_id m = Some swarm_id) (map snd (sv_members s))),
      sr_plan = hget (sv_plans s) swarm_id\<rparr>"

definition has_any_state :: "swarm_runtime \<Rightarrow> bool" where
  "has_any_state r \<longleftrightarrow> sr_plan r \<noteq> None \<or> sr_coordinator r \<noteq> None \<or> sr_members r \<noteq> []"

definition remove_swarm_state :: "string \<Rightarrow> server \<Rightarrow> server" where
  "remove_swarm_state swarm_id s = s\<lparr>sv_disk := hdel (state_path swarm_id) (sv_disk s)\<rparr>"

definition persist_swarm_state ::
  "string \<Rightarrow> versioned_plan option \<Rightarrow> string option \<Rightarrow> swarm_member list \<Rightarrow> server \<Rightarrow> server" where
  "persist_swarm_state swarm_id plan coordinator ms s =
     (if plan = None \<and> coordinator = None \<and> ms = [] then remove_swarm_state swarm_id s
      else let st = \<lparr>ps_swarm_id = swarm_id, ps_plan = map_option to_persisted_plan plan,
                     ps_coordinator_session_id = coordinator,
                     ps_members = sort_key sm_session_id (map durable_record ms), ps_updated_at_unix_ms = now_unix_ms s\<rparr>
           in if rw_writes_ok (sv_world s) then s\<lparr>sv_disk := hput (state_path swarm_id) st (sv_disk s)\<rparr> else s)"

definition persist_swarm_state_for :: "string \<Rightarrow> server \<Rightarrow> server" where
  "persist_swarm_state_for swarm_id s =
     (let r = load_runtime swarm_id s in persist_swarm_state swarm_id (sr_plan r) (sr_coordinator r) (sr_members r) s)"

definition remove_persisted_swarm_state_for :: "string \<Rightarrow> server \<Rightarrow> server" where
  "remove_persisted_swarm_state_for swarm_id s =
     (if has_any_state (load_runtime swarm_id s) then s else remove_swarm_state swarm_id s)"

text \<open>A restart: what the server starts with from its files.\<close>

definition recovered_server :: "server \<Rightarrow> loaded_state \<Rightarrow> server" where
  "recovered_server s l =
     s\<lparr>sv_members := ld_members l, sv_swarms := ld_swarms l, sv_plans := ld_plans l, sv_coordinators := ld_coordinators l\<rparr>"

end
