(* ===== verification/Swarm_Runtime.thy ===== *)
theory Swarm_Runtime
  imports Swarm_State
begin

text \<open>
  The coordination of a swarm (\<^verbatim>\<open>src/src/server/swarm.rs\<close>): heartbeats and staleness of its tasks, broadcasts of
  status and plan, the election of a coordinator when a session leaves, and the reports of its members.
  \<^verbatim>\<open>run_swarm_task\<close> and \<^verbatim>\<open>run_swarm_message\<close> run agents and are not modelled.
\<close>

section \<open>Definitions\<close>

subsection \<open>Task progress\<close>

definition sat_sub :: "u64 \<Rightarrow> u64 \<Rightarrow> u64" where
  "sat_sub a b = (if b \<le> a then a - b else 0)"

text \<open>The first item with an identifier is the one that is changed.\<close>

fun modify_first :: "string \<Rightarrow> (plan_item \<Rightarrow> plan_item) \<Rightarrow> plan_item list \<Rightarrow> plan_item list" where
  "modify_first i f [] = []"
| "modify_first i f (it # its) = (if pi_id it = i then f it # its else it # modify_first i f its)"

definition touch_progress ::
  "u64 \<Rightarrow> string option \<Rightarrow> string option \<Rightarrow> string option \<Rightarrow> swarm_task_progress \<Rightarrow> swarm_task_progress" where
  "touch_progress now session detail summary p =
     (let p = (case session of None \<Rightarrow> p | Some sid \<Rightarrow> p\<lparr>tp_assigned_session_id := Some sid\<rparr>);
          p = p\<lparr>tp_last_heartbeat_unix_ms := Some now,
                tp_heartbeat_count := Some ((case tp_heartbeat_count p of None \<Rightarrow> 0 | Some n \<Rightarrow> n) + 1)\<rparr>;
          p = (case detail of None \<Rightarrow> p | Some d \<Rightarrow> p\<lparr>tp_last_detail := Some (truncate_detail d 120)\<rparr>)
      in case summary of None \<Rightarrow> p
         | Some t \<Rightarrow> p\<lparr>tp_last_checkpoint_unix_ms := Some now, tp_checkpoint_summary := Some (truncate_detail t 120),
                       tp_checkpoint_count := Some ((case tp_checkpoint_count p of None \<Rightarrow> 0 | Some n \<Rightarrow> n) + 1)\<rparr>)"

definition touch_plan ::
  "u64 \<Rightarrow> string \<Rightarrow> string option \<Rightarrow> string option \<Rightarrow> string option \<Rightarrow> versioned_plan \<Rightarrow> (bool \<times> versioned_plan) option" where
  "touch_plan now task session detail summary plan =
     (case find (\<lambda>it. pi_id it = task) (vp_items plan) of
        None \<Rightarrow> None
      | Some it \<Rightarrow>
          let progress = touch_progress now session detail summary (hget_or progress_default (vp_task_progress plan) task)
          in if pi_status it = ''running_stale''
             then Some (True, plan\<lparr>vp_items := modify_first task (\<lambda>it. it\<lparr>pi_status := ''running''\<rparr>) (vp_items plan),
                    vp_task_progress := hput task (progress\<lparr>tp_stale_since_unix_ms := None\<rparr>) (vp_task_progress plan),
                    vp_version := vp_version plan + 1\<rparr>)
             else Some (False, plan\<lparr>vp_task_progress := hput task progress (vp_task_progress plan)\<rparr>))"

definition touch_swarm_task_progress ::
  "string \<Rightarrow> string \<Rightarrow> string option \<Rightarrow> string option \<Rightarrow> string option \<Rightarrow> server \<Rightarrow> bool \<times> server" where
  "touch_swarm_task_progress swarm_id task session detail summary s =
     (case Option.bind (hget (sv_plans s) swarm_id) (touch_plan (now_unix_ms s) task session detail summary) of
        None \<Rightarrow> (False, s)
      | Some (revived, plan) \<Rightarrow>
          (revived, persist_swarm_state_for swarm_id (s\<lparr>sv_plans := hput swarm_id plan (sv_plans s)\<rparr>)))"

definition last_sign :: "swarm_task_progress \<Rightarrow> u64 option" where
  "last_sign p =
     (case tp_last_heartbeat_unix_ms p of Some t \<Rightarrow> Some t
      | None \<Rightarrow> (case tp_started_at_unix_ms p of Some t \<Rightarrow> Some t | None \<Rightarrow> tp_assigned_at_unix_ms p))"

definition is_stale_task :: "u64 \<Rightarrow> u64 \<Rightarrow> swarm_task_progress \<Rightarrow> bool" where
  "is_stale_task now stale_after p =
     (case last_sign p of None \<Rightarrow> True | Some t \<Rightarrow> stale_after \<le> sat_sub now t)"

text \<open>The loop over the items of a plan: items, progress and version with the changes so far.\<close>

definition refresh_item ::
  "u64 \<Rightarrow> u64 \<Rightarrow> plan_item \<Rightarrow> plan_item list \<times> (string, swarm_task_progress) hmap \<times> u64 \<times> bool
     \<Rightarrow> plan_item list \<times> (string, swarm_task_progress) hmap \<times> u64 \<times> bool" where
  "refresh_item now stale_after it = (\<lambda>(its, progress, version, changed).
     if pi_status it \<notin> {''running'', ''running_stale''} then (its @ [it], progress, version, changed)
     else let p = hget_or progress_default progress (pi_id it); stale = is_stale_task now stale_after p
          in if pi_status it = ''running'' \<and> stale
             then (its @ [it\<lparr>pi_status := ''running_stale''\<rparr>], hput (pi_id it) (mark_stale_since now p) progress, version + 1, True)
             else if pi_status it = ''running_stale'' \<and> \<not> stale
             then (its @ [it\<lparr>pi_status := ''running''\<rparr>], hput (pi_id it) (p\<lparr>tp_stale_since_unix_ms := None\<rparr>) progress, version + 1, True)
             else (its @ [it], hput (pi_id it) p progress, version, changed))"

definition refresh_plan :: "u64 \<Rightarrow> u64 \<Rightarrow> versioned_plan \<Rightarrow> bool \<times> versioned_plan" where
  "refresh_plan now stale_after plan =
     (let (its, progress, version, changed) =
        fold (refresh_item now stale_after) (vp_items plan) ([], vp_task_progress plan, vp_version plan, False)
      in (changed, plan\<lparr>vp_items := its, vp_task_progress := progress, vp_version := version\<rparr>))"

subsection \<open>Broadcasts\<close>

definition member_status :: "nat \<Rightarrow> swarm_member \<Rightarrow> swarm_member_status" where
  "member_status now m =
     \<lparr>ms_session_id = mb_session_id m, ms_friendly_name = mb_friendly_name m, ms_status = mb_status m,
      ms_detail = mb_detail m, ms_role = Some (mb_role m), ms_is_headless = Some (mb_is_headless m),
      ms_live_attachments = Some (length (mb_event_txs m)),
      ms_status_age_secs = Some (of_nat ((now - mb_last_status_change m) div 1000))\<rparr>"

definition statuses_of :: "string list \<Rightarrow> server \<Rightarrow> swarm_member_status list" where
  "statuses_of ids s = map (member_status (now_of s)) (List.map_filter (hget (sv_members s)) ids)"

definition broadcast_swarm_status_now :: "string list \<Rightarrow> server \<Rightarrow> server" where
  "broadcast_swarm_status_now ids s =
     (if ids = [] then s
      else fold (\<lambda>sid s'. snd (fanout_session_event sid (SwarmStatus (statuses_of ids s)) s')) ids s)"

definition broadcast_swarm_status :: "server_env \<Rightarrow> string \<Rightarrow> server \<Rightarrow> server" where
  "broadcast_swarm_status env swarm_id s =
     (let ids = swarm_sessions swarm_id s
      in if ids = [] then s
         else if length ids < swarm_status_debounce_member_threshold env then broadcast_swarm_status_now ids s
         else case hget (sv_pending s) swarm_id of
                Some e \<Rightarrow>
                  if pb_scheduled e then s\<lparr>sv_pending := hput swarm_id (e\<lparr>pb_dirty := True\<rparr>) (sv_pending s)\<rparr>
                  else s\<lparr>sv_pending := hput swarm_id \<lparr>pb_scheduled = True, pb_dirty = False\<rparr> (sv_pending s)\<rparr>
              | None \<Rightarrow> s\<lparr>sv_pending := hput swarm_id \<lparr>pb_scheduled = True, pb_dirty = False\<rparr> (sv_pending s)\<rparr>)"

text \<open>
  The task that a scheduled broadcast runs after each delay: it sends, and then ends unless there was
  another request in the meantime.
\<close>

definition status_task_send :: "string \<Rightarrow> server \<Rightarrow> server" where
  "status_task_send swarm_id s = broadcast_swarm_status_now (swarm_sessions swarm_id s) s"

definition status_task_check :: "string \<Rightarrow> server \<Rightarrow> bool \<times> server" where
  "status_task_check swarm_id s =
     (case hget (sv_pending s) swarm_id of
        None \<Rightarrow> (False, s)
      | Some e \<Rightarrow>
          if pb_dirty e then (True, s\<lparr>sv_pending := hput swarm_id (e\<lparr>pb_dirty := False\<rparr>) (sv_pending s)\<rparr>)
          else (False, s\<lparr>sv_pending := hdel swarm_id (sv_pending s)\<rparr>))"

definition broadcast_swarm_plan_with_previous ::
  "server_env \<Rightarrow> string \<Rightarrow> string option \<Rightarrow> plan_item list option \<Rightarrow> server \<Rightarrow> server" where
  "broadcast_swarm_plan_with_previous env swarm_id reason previous s =
     (case hget (sv_plans s) swarm_id of
        None \<Rightarrow> s
      | Some vp \<Rightarrow>
          let newly = (case previous of None \<Rightarrow> [] | Some before \<Rightarrow> newly_ready_item_ids (en_iter env) before (vp_items vp));
              summary = from_versioned_plan (en_iter env) swarm_id vp (Some 3) newly;
              participants = sorted_list_of_set (vp_participants vp);
              participants = (if participants = [] then sort (swarm_sessions swarm_id s) else participants);
              event = SwarmPlan swarm_id (vp_version vp) (vp_items vp) participants reason (Some summary)
          in fold (\<lambda>sid. send_primary sid event) participants s)"

definition broadcast_swarm_plan :: "server_env \<Rightarrow> string \<Rightarrow> string option \<Rightarrow> server \<Rightarrow> server" where
  "broadcast_swarm_plan env swarm_id reason = broadcast_swarm_plan_with_previous env swarm_id reason None"

definition refresh_swarm_task_staleness :: "server_env \<Rightarrow> server \<Rightarrow> server" where
  "refresh_swarm_task_staleness env s =
     (let now = now_unix_ms s; stale_after = of_nat (swarm_task_stale_after env * 1000);
          refreshed = map (\<lambda>(sw, plan). (sw, refresh_plan now stale_after plan)) (sv_plans s);
          changed = map fst (filter (\<lambda>(_, c, _). c) refreshed)
      in fold (\<lambda>sw s'. broadcast_swarm_plan env sw (Some ''task_staleness_changed'') (persist_swarm_state_for sw s'))
           changed (s\<lparr>sv_plans := map (\<lambda>(sw, _, plan). (sw, plan)) refreshed\<rparr>))"

subsection \<open>Participants and departure\<close>

definition modify_plan :: "string \<Rightarrow> (versioned_plan \<Rightarrow> versioned_plan) \<Rightarrow> server \<Rightarrow> server" where
  "modify_plan swarm_id f s = s\<lparr>sv_plans := hmodify swarm_id f (sv_plans s)\<rparr>"

definition rename_participant :: "string \<Rightarrow> string \<Rightarrow> versioned_plan \<Rightarrow> versioned_plan" where
  "rename_participant old new vp =
     vp\<lparr>vp_participants := (if old \<in> vp_participants vp then insert new (vp_participants vp - {old}) else vp_participants vp),
        vp_items := map (\<lambda>it. if pi_assigned_to it = Some old then it\<lparr>pi_assigned_to := Some new\<rparr> else it) (vp_items vp)\<rparr>"

definition rename_plan_participant :: "string \<Rightarrow> string \<Rightarrow> string \<Rightarrow> server \<Rightarrow> server" where
  "rename_plan_participant swarm_id old new = modify_plan swarm_id (rename_participant old new)"

definition remove_plan_participant :: "string \<Rightarrow> string \<Rightarrow> server \<Rightarrow> server" where
  "remove_plan_participant swarm_id sid =
     modify_plan swarm_id (\<lambda>vp. vp\<lparr>vp_participants := vp_participants vp - {sid}\<rparr>)"

text \<open>A session leaves the set of its swarm, and an empty swarm is dropped.\<close>

definition leave_swarm_set :: "string \<Rightarrow> string \<Rightarrow> server \<Rightarrow> server" where
  "leave_swarm_set swarm_id sid s = s\<lparr>sv_swarms := drop_member sid swarm_id (sv_swarms s)\<rparr>"

text \<open>The smallest identifier among the members of the swarm that are not headless.\<close>

definition elect_coordinator :: "string \<Rightarrow> server \<Rightarrow> string option" where
  "elect_coordinator swarm_id s =
     (case filter (\<lambda>sid. case hget (sv_members s) sid of None \<Rightarrow> False | Some m \<Rightarrow> \<not> mb_is_headless m) (swarm_sessions swarm_id s) of
        [] \<Rightarrow> None
      | c # cs \<Rightarrow> Some (fold min cs c))"

definition put_coordinator :: "string \<Rightarrow> string option \<Rightarrow> server \<Rightarrow> server" where
  "put_coordinator swarm_id new s =
     s\<lparr>sv_coordinators := (case new of None \<Rightarrow> hdel swarm_id (sv_coordinators s)
                           | Some c \<Rightarrow> hput swarm_id c (hdel swarm_id (sv_coordinators s)))\<rparr>"

definition announce_coordinator :: "string \<Rightarrow> server \<Rightarrow> server" where
  "announce_coordinator sid s =
     send_primary sid (Notification sid (friendly_name_for_session sid s) (MessageNotification (Some ''swarm'') None)
       ''You are now the coordinator for this swarm.'') s"

definition replace_coordinator :: "string \<Rightarrow> server \<Rightarrow> server" where
  "replace_coordinator swarm_id s =
     (let new = elect_coordinator swarm_id s; s = put_coordinator swarm_id new s
      in case new of
           None \<Rightarrow> s
         | Some c \<Rightarrow> announce_coordinator c
             (modify_plan swarm_id (\<lambda>vp. vp\<lparr>vp_participants := insert c (vp_participants vp)\<rparr>)
               (modify_member c (\<lambda>m. m\<lparr>mb_role := ''coordinator''\<rparr>) s)))"

definition remove_session_from_swarm :: "server_env \<Rightarrow> string \<Rightarrow> string \<Rightarrow> server \<Rightarrow> server" where
  "remove_session_from_swarm env sid swarm_id s =
     (let s = remove_plan_participant swarm_id sid s;
          s = leave_swarm_set swarm_id sid s;
          s = (if hget (sv_coordinators s) swarm_id = Some sid then replace_coordinator swarm_id s else s);
          s = modify_member sid (\<lambda>m. m\<lparr>mb_role := ''agent''\<rparr>) s;
          s = (if hget (sv_plans s) swarm_id \<noteq> None then persist_swarm_state_for swarm_id s
               else remove_persisted_swarm_state_for swarm_id s)
      in broadcast_swarm_status env swarm_id s)"

text \<open>
  The files of a session are found by the reverse index; without an entry there all files are searched.
\<close>

definition drop_accesses :: "string \<Rightarrow> string \<Rightarrow> (string, file_access list) hmap \<Rightarrow> (string, file_access list) hmap" where
  "drop_accesses sid path touches =
     (case hget touches path of
        None \<Rightarrow> touches
      | Some accesses \<Rightarrow>
          let accesses = filter (\<lambda>a. fa_session_id a \<noteq> sid) accesses
          in if accesses = [] then hdel path touches else hput path accesses touches)"

definition remove_session_file_touches :: "string \<Rightarrow> server \<Rightarrow> server" where
  "remove_session_file_touches sid s =
     (case hget (sv_touched s) sid of
        Some paths \<Rightarrow>
          s\<lparr>sv_touched := hdel sid (sv_touched s), sv_touches := fold (drop_accesses sid) paths (sv_touches s)\<rparr>
      | None \<Rightarrow>
          s\<lparr>sv_touches := filter (\<lambda>(_, accesses). accesses \<noteq> [])
              (map (\<lambda>(path, accesses). (path, filter (\<lambda>a. fa_session_id a \<noteq> sid) accesses)) (sv_touches s))\<rparr>)"

subsection \<open>Status of a member\<close>

definition report_recipient :: "string \<Rightarrow> string \<Rightarrow> swarm_member \<Rightarrow> server \<Rightarrow> string option" where
  "report_recipient sid swarm_id m s =
     (case mb_report_back m of
        Some owner \<Rightarrow>
          if owner \<noteq> sid then Some owner else None
      | None \<Rightarrow>
          map_option mb_session_id
            (find (\<lambda>c. mb_swarm_id c = Some swarm_id \<and> mb_role c = ''coordinator'' \<and> mb_session_id c \<noteq> sid)
              (map snd (sv_members s))))"

definition should_notify :: "bool \<Rightarrow> swarm_member \<Rightarrow> string \<Rightarrow> bool" where
  "should_notify status_changed before status \<longleftrightarrow>
     status_changed \<and>
     (status = ''completed'' \<or>
      mb_report_back before \<noteq> None \<and> mb_status before = ''running'' \<and> status \<in> {''ready'', ''failed'', ''stopped''})"

definition update_member_status_with_report ::
  "server_env \<Rightarrow> string \<Rightarrow> string \<Rightarrow> string option \<Rightarrow> string option \<Rightarrow> server \<Rightarrow> server" where
  "update_member_status_with_report env sid status detail completion_report s =
     (case hget (sv_members s) sid of
        None \<Rightarrow> s
      | Some m \<Rightarrow>
          let report = normalize_completion_report completion_report;
              status_changed = (mb_status m \<noteq> status);
              report_changed = (report \<noteq> None \<and> mb_latest_report m \<noteq> report);
              member_changed = (status_changed \<or> mb_detail m \<noteq> detail \<or> report_changed);
              s = modify_member sid (\<lambda>m. m\<lparr>
                    mb_last_status_change := (if status_changed then now_of s else mb_last_status_change m),
                    mb_status := status, mb_detail := detail,
                    mb_latest_report := (if report \<noteq> None then report else mb_latest_report m)\<rparr>) s
          in case mb_swarm_id m of
               None \<Rightarrow> s
             | Some swarm_id \<Rightarrow>
                 if \<not> member_changed then s
                 else let s = (if status_changed
                               then record_swarm_event sid (mb_friendly_name m) (Some swarm_id) (StatusChange (mb_status m) status) s
                               else s);
                          s = broadcast_swarm_status env swarm_id s
                      in if \<not> should_notify status_changed m status then s
                         else case report_recipient sid swarm_id m s of
                                None \<Rightarrow> s
                              | Some recipient \<Rightarrow>
                                  snd (fanout_session_event recipient
                                    (Notification sid (mb_friendly_name m) (MessageNotification (Some ''swarm'') None)
                                      (completion_notification_message
                                        (case mb_friendly_name m of Some n \<Rightarrow> n | None \<Rightarrow> take 8 sid) status report)) s))"

definition update_member_status :: "server_env \<Rightarrow> string \<Rightarrow> string \<Rightarrow> string option \<Rightarrow> server \<Rightarrow> server" where
  "update_member_status env sid status detail = update_member_status_with_report env sid status detail None"

section \<open>Lemmas\<close>

subsection \<open>What sending leaves alone\<close>

text \<open>
  A view of the server that the hand-over of an event and the refreshing of a member's channels do not change
  is not changed by anything that only sends.
\<close>

locale kept_by_sending =
  fixes view :: "server \<Rightarrow> 'v"
  assumes send: "view (server_send tx e s) = view s"
    and refresh: "hget (sv_members s) sid = Some m \<Longrightarrow> view (modify_member sid (\<lambda>_. first_live (retain_open s m)) s) = view s"
begin

lemma folds: "(\<And>x s. x \<in> set xs \<Longrightarrow> view (f x s) = view s) \<Longrightarrow> view (fold f xs s) = view s"
  by (induction xs arbitrary: s) auto

lemma sends: "view (server_send tx e s) = view s" "view (send_primary sid e s) = view s" "view (snd (send_all txs e s)) = view s"
  by (simp_all add: send send_primary_def send_all_def folds split: option.split)

lemma fanout: "view (snd (fanout_session_event sid e s)) = view s"
  by (simp add: fanout_session_event_def Let_def sends refresh split: option.split)

lemma status_now: "view (broadcast_swarm_status_now ids s) = view s"
  by (simp add: broadcast_swarm_status_now_def folds fanout)

lemma plan_broadcast: "view (broadcast_swarm_plan_with_previous env sw r p s) = view s"
  by (simp add: broadcast_swarm_plan_with_previous_def Let_def folds sends split: option.split)

lemma announcement: "view (announce_coordinator sid s) = view s"
  by (simp add: announce_coordinator_def sends)

end


subsection \<open>Staleness\<close>

text \<open>Marking a task stale or not does not change when it last gave a sign.\<close>

lemma is_stale_marks [simp]:
  "is_stale_task now a (mark_stale_since t p) = is_stale_task now a p"
  "is_stale_task now a (p\<lparr>tp_stale_since_unix_ms := x\<rparr>) = is_stale_task now a p"
  by (simp_all add: is_stale_task_def last_sign_def mark_stale_since_def split: option.split)

definition refreshed_item :: "u64 \<Rightarrow> u64 \<Rightarrow> (string, swarm_task_progress) hmap \<Rightarrow> plan_item \<Rightarrow> plan_item" where
  "refreshed_item now a progress it =
     (if pi_status it \<in> {''running'', ''running_stale''}
      then it\<lparr>pi_status := (if is_stale_task now a (hget_or progress_default progress (pi_id it)) then ''running_stale'' else ''running'')\<rparr>
      else it)"

lemma item_status_iff: "it\<lparr>pi_status := st\<rparr> = it \<longleftrightarrow> pi_status it = st" for it :: plan_item
  by (cases it) auto

lemma refresh_item_step:
  assumes "refresh_item now a it (its, progress, version, changed) = (its', progress', version', changed')"
  shows "its' = its @ [refreshed_item now a progress it] \<and>
     (\<forall>i. is_stale_task now a (hget_or progress_default progress' i) = is_stale_task now a (hget_or progress_default progress i)) \<and>
     (changed' \<longleftrightarrow> changed \<or> refreshed_item now a progress it \<noteq> it)"
proof -
  consider "pi_status it = ''running''" | "pi_status it = ''running_stale''" | "pi_status it \<notin> {''running'', ''running_stale''}" by blast
  then show ?thesis
    using assms
    by cases (auto simp: refresh_item_def refreshed_item_def Let_def item_status_iff hmap_simps split: if_splits)
qed

lemma refresh_fold:
  assumes "fold (refresh_item now a) its (acc, progress, version, changed) = (its', progress', version', changed')"
  shows "its' = acc @ map (refreshed_item now a progress) its \<and>
     (\<forall>i. is_stale_task now a (hget_or progress_default progress' i) = is_stale_task now a (hget_or progress_default progress i)) \<and>
     (changed' \<longleftrightarrow> changed \<or> map (refreshed_item now a progress) its \<noteq> its)"
  using assms
proof (induction its arbitrary: acc progress version changed)
  case (Cons it its)
  obtain acc1 progress1 version1 changed1 where r: "refresh_item now a it (acc, progress, version, changed) = (acc1, progress1, version1, changed1)"
    by (metis prod_cases4)
  have same: "refreshed_item now a progress1 = refreshed_item now a progress"
    using refresh_item_step[OF r] by (auto simp: fun_eq_iff refreshed_item_def)
  show ?case
    using Cons.IH[of acc1 progress1 version1 changed1] Cons.prems refresh_item_step[OF r] unfolding same by (auto simp: r)
qed simp


subsection \<open>Status broadcasts\<close>

text \<open>Sending leaves the scheduled broadcasts alone.\<close>

interpretation pending: kept_by_sending sv_pending
  by unfold_locales (simp_all add: server_send_def on_world_def modify_member_def)

lemmas pending_sends [simp] = pending.sends pending.fanout pending.status_now

text \<open>
  The task of a scheduled broadcast between its delays, and the interleaving of requests, task and anything
  else that the server does. The flag says that a status was asked for and not sent since.
\<close>

datatype status_task = No_Task | Sleeping | Sent

inductive status_run :: "server_env \<Rightarrow> string \<Rightarrow> server \<Rightarrow> server \<Rightarrow> status_task \<Rightarrow> bool \<Rightarrow> bool" for env sw s0 where
  start: "status_run env sw s0 s0 No_Task False"
| other: "status_run env sw s0 s task owed \<Longrightarrow> hget (sv_pending s') sw = hget (sv_pending s) sw \<Longrightarrow> status_run env sw s0 s' task owed"
| request_now: "status_run env sw s0 s task owed \<Longrightarrow>
    0 < length (swarm_sessions sw s) \<Longrightarrow> length (swarm_sessions sw s) < swarm_status_debounce_member_threshold env \<Longrightarrow>
    status_run env sw s0 (broadcast_swarm_status env sw s) task False"
| request_later: "status_run env sw s0 s task owed \<Longrightarrow>
    0 < length (swarm_sessions sw s) \<Longrightarrow> swarm_status_debounce_member_threshold env \<le> length (swarm_sessions sw s) \<Longrightarrow>
    status_run env sw s0 (broadcast_swarm_status env sw s)
      (if map_option pb_scheduled (hget (sv_pending s) sw) = Some True then task else Sleeping) True"
| task_sends: "status_run env sw s0 s Sleeping owed \<Longrightarrow> status_run env sw s0 (status_task_send sw s) Sent False"
| task_checks: "status_run env sw s0 s Sent owed \<Longrightarrow> status_task_check sw s = (again, s') \<Longrightarrow>
    status_run env sw s0 s' (if again then Sleeping else No_Task) owed"

lemma status_run_inv:
  assumes "status_run env sw s0 s task owed" "hget (sv_pending s0) sw = None"
  shows "(task = No_Task \<longleftrightarrow> hget (sv_pending s) sw = None) \<and>
     (\<forall>e. hget (sv_pending s) sw = Some e \<longrightarrow> pb_scheduled e) \<and>
     (owed \<longrightarrow> task = Sleeping \<or> task = Sent \<and> (\<exists>e. hget (sv_pending s) sw = Some e \<and> pb_dirty e))"
  using assms
proof (induction rule: status_run.induct)
  case (request_later s task owed)
  then have ne: "swarm_sessions sw s \<noteq> []" by auto
  show ?case
  proof (cases "hget (sv_pending s) sw")
    case None
    then show ?thesis using request_later ne by (auto simp: broadcast_swarm_status_def Let_def hmap_simps)
  next
    case (Some e)
    then have "pb_scheduled e" using request_later by simp
    then show ?thesis
      using request_later ne Some by (cases task) (auto simp: broadcast_swarm_status_def Let_def hmap_simps)
  qed
next
  case (task_checks s owed again s')
  then obtain e where "hget (sv_pending s) sw = Some e" by auto
  then show ?case using task_checks by (auto simp: status_task_check_def hmap_simps split: if_splits)
qed (auto simp: broadcast_swarm_status_def status_task_send_def Let_def)

text \<open>
  C19: A status broadcast that was asked for is never lost to the debouncing: as long as one is owed there is a
  task that sends it next, or that finds the request when it checks and then sends.
\<close>

theorem status_never_lost:
  assumes "status_run env sw s0 s task owed" "hget (sv_pending s0) sw = None" "owed"
  shows "task = Sleeping \<or> task = Sent \<and> fst (status_task_check sw s)"
  using status_run_inv[OF assms(1,2)] assms(3) by (auto simp: status_task_check_def)

end
