(* ===== verification/Swarm_Membership.thy ===== *)
theory Swarm_Membership
  imports Swarm_Runtime
begin

text \<open>
  How sessions join, move, are renamed and leave: the parts of \<^verbatim>\<open>src/src/server/client_session.rs\<close>,
  \<^verbatim>\<open>client_actions.rs\<close>, \<^verbatim>\<open>client_disconnect_cleanup.rs\<close>, \<^verbatim>\<open>comm_session.rs\<close>, \<^verbatim>\<open>comm_control.rs\<close> and \<^verbatim>\<open>headless.rs\<close>
  that change the swarm state, with \<^verbatim>\<open>util.rs\<close> and \<^verbatim>\<open>swarm_channels.rs\<close>. What the handlers do to the agent itself
  (its provider, tools and session file) is outside the state.
\<close>

section \<open>Definitions\<close>

text \<open>\<^verbatim>\<open>GCODE_SWARM_ID\<close> comes first, then the git repository, then the directory.\<close>

definition swarm_id_for_dir :: "server_env \<Rightarrow> string option \<Rightarrow> string option" where
  "swarm_id_for_dir env dir =
     (case map_option trim (en_var env ''GCODE_SWARM_ID'') of
        Some (c # cs) \<Rightarrow> Some (c # cs)
      | _ \<Rightarrow> (case dir of
                None \<Rightarrow> None
              | Some d \<Rightarrow> (case en_git_common_dir env d of Some g \<Rightarrow> Some g | None \<Rightarrow> Some d)))"

definition join_swarm_set :: "string \<Rightarrow> string \<Rightarrow> server \<Rightarrow> server" where
  "join_swarm_set swarm_id sid s = s\<lparr>sv_swarms := hentry [] swarm_id (List.insert sid) (sv_swarms s)\<rparr>"

definition remove_session_channel_subscriptions :: "string \<Rightarrow> server \<Rightarrow> server" where
  "remove_session_channel_subscriptions sid s = s\<lparr>sv_channels := remove_session (sv_channels s) sid\<rparr>"

subsection \<open>Subscribing\<close>

definition new_member :: "string \<Rightarrow> chan \<Rightarrow> (string, chan) hmap \<Rightarrow> nat \<Rightarrow> swarm_member" where
  "new_member sid tx txs now =
     \<lparr>mb_session_id = sid, mb_event_tx = tx, mb_event_txs = txs, mb_working_dir = None, mb_swarm_id = None,
      mb_swarm_enabled = True, mb_status = ''ready'', mb_detail = None, mb_friendly_name = None,
      mb_report_back = None, mb_latest_report = None, mb_role = ''agent'', mb_joined_at = now,
      mb_last_status_change = now, mb_is_headless = False\<rparr>"

text \<open>\<^verbatim>\<open>agent_name\<close> and \<^verbatim>\<open>agent_dir\<close> are the name and directory of the agent's session.\<close>

definition ensure_client_swarm_member ::
  "server_env \<Rightarrow> string \<Rightarrow> string \<Rightarrow> string option \<Rightarrow> chan \<Rightarrow> string option \<Rightarrow> string option \<Rightarrow> bool \<Rightarrow> server \<Rightarrow> bool \<times> server" where
  "ensure_client_swarm_member env sid connection name tx agent_name agent_dir enabled s =
     (let derived = (if enabled then swarm_id_for_dir env agent_dir else None);
          member_name = (case agent_name of Some n \<Rightarrow> Some n | None \<Rightarrow> name)
      in case hget (sv_members s) sid of
           Some _ \<Rightarrow>
             (False, modify_member sid (\<lambda>m. m\<lparr>mb_event_tx := tx, mb_event_txs := hput connection tx (mb_event_txs m),
                mb_swarm_enabled := enabled, mb_is_headless := False,
                mb_friendly_name := (if member_name \<noteq> None then member_name else mb_friendly_name m)\<rparr>) s)
         | None \<Rightarrow>
             (let m = (new_member sid tx [(connection, tx)] (now_of s))\<lparr>mb_working_dir := agent_dir, mb_swarm_id := derived,
                        mb_swarm_enabled := enabled, mb_friendly_name := member_name\<rparr>;
                  s = s\<lparr>sv_members := hput sid m (sv_members s)\<rparr>
              in case derived of
                   None \<Rightarrow> (True, s)
                 | Some sw \<Rightarrow> (True, record_swarm_event sid member_name (Some sw) (MemberChange ''joined'') (join_swarm_set sw sid s))))"

text \<open>The smallest identifier of a swarm.\<close>

definition smallest_session :: "string \<Rightarrow> server \<Rightarrow> string option" where
  "smallest_session swarm_id s = (case swarm_sessions swarm_id s of [] \<Rightarrow> None | c # cs \<Rightarrow> Some (fold min cs c))"

definition handover_on_move :: "string \<Rightarrow> string \<Rightarrow> server \<Rightarrow> server" where
  "handover_on_move sid swarm_id s =
     (if hget (sv_coordinators s) swarm_id = Some sid
      then let new = smallest_session swarm_id s; s = put_coordinator swarm_id new s
           in (case new of None \<Rightarrow> s | Some c \<Rightarrow> announce_coordinator c s)
      else s)"

definition move_to_dir :: "server_env \<Rightarrow> string \<Rightarrow> string \<Rightarrow> server \<Rightarrow> server" where
  "move_to_dir env sid dir s =
     (let old = swarm_id_for_session sid s;
          s = modify_member sid (\<lambda>m. m\<lparr>mb_working_dir := Some dir,
                mb_swarm_id := (if mb_swarm_enabled m then swarm_id_for_dir env (Some dir) else None)\<rparr>) s;
          updated = swarm_id_for_session sid s;
          s = (case old of None \<Rightarrow> s | Some sw \<Rightarrow>
                 leave_swarm_set sw sid (if updated \<noteq> Some sw then remove_session_channel_subscriptions sid s else s));
          s = (case updated of None \<Rightarrow> s | Some sw \<Rightarrow> join_swarm_set sw sid s);
          s = (if updated \<noteq> old then modify_member sid (\<lambda>m. m\<lparr>mb_role := ''agent''\<rparr>) s else s);
          s = (case old of None \<Rightarrow> s | Some sw \<Rightarrow> handover_on_move sid sw s);
          s = (case old of None \<Rightarrow> s | Some sw \<Rightarrow>
                 broadcast_swarm_status env sw
                   (if updated \<noteq> Some sw then persist_swarm_state_for sw (remove_plan_participant sw sid s) else s))
      in case updated of None \<Rightarrow> s | Some sw \<Rightarrow> if old \<noteq> Some sw then broadcast_swarm_status env sw s else s)"

definition subscribe_should_mark_ready :: "string \<Rightarrow> server \<Rightarrow> bool" where
  "subscribe_should_mark_ready sid s = (map_option mb_status (hget (sv_members s) sid) \<noteq> Some ''running'')"

record subscription =
  sb_id :: u64
  sb_session_id :: string
  sb_connection :: string
  sb_chan :: chan
  sb_name :: "string option"
  sb_agent_name :: "string option"
  sb_agent_dir :: "string option"
  sb_subscribe_dir :: "string option"
  sb_enabled :: bool

definition handle_subscribe :: "server_env \<Rightarrow> subscription \<Rightarrow> server \<Rightarrow> server" where
  "handle_subscribe env q s =
     (let s = snd (ensure_client_swarm_member env (sb_session_id q) (sb_connection q) (sb_name q) (sb_chan q)
                     (sb_agent_name q) (sb_agent_dir q) (sb_enabled q) s);
          s = (case sb_subscribe_dir q of None \<Rightarrow> s | Some dir \<Rightarrow> move_to_dir env (sb_session_id q) dir s);
          s = (if subscribe_should_mark_ready (sb_session_id q) s
               then update_member_status env (sb_session_id q) ''ready'' None s else s)
      in server_send (sb_chan q) (EventDone (sb_id q)) s)"

subsection \<open>Renaming\<close>

definition rename_agent :: "string \<Rightarrow> string \<Rightarrow> bool \<times> nat \<Rightarrow> server \<Rightarrow> server" where
  "rename_agent old new agent s = s\<lparr>sv_agents := hput new agent (hdel old (sv_agents s))\<rparr>"

definition set_connection_session :: "string \<Rightarrow> string \<Rightarrow> server \<Rightarrow> server" where
  "set_connection_session connection sid s = s\<lparr>sv_connections := hmodify connection (\<lambda>_. sid) (sv_connections s)\<rparr>"

text \<open>A member continues under another identifier; its swarm's set follows.\<close>

definition rename_in_set :: "string \<Rightarrow> string \<Rightarrow> string list \<Rightarrow> string list" where
  "rename_in_set old new ids = List.insert new (removeAll old ids)"

definition rename_member :: "string \<Rightarrow> string \<Rightarrow> server \<Rightarrow> server" where
  "rename_member old new s =
     (case hget (sv_members s) old of
        None \<Rightarrow> s
      | Some m \<Rightarrow>
          let s = (case mb_swarm_id m of None \<Rightarrow> s
                   | Some sw \<Rightarrow> s\<lparr>sv_swarms := hmodify sw (rename_in_set old new) (sv_swarms s)\<rparr>)
          in s\<lparr>sv_members := hput new (m\<lparr>mb_session_id := new, mb_status := ''ready'', mb_detail := None\<rparr>)
                               (hdel old (sv_members s))\<rparr>)"

text \<open>Clearing a session: a new agent with a new identifier and the interrupt queue \<^verbatim>\<open>queue\<close> takes its place.\<close>

definition handle_clear_session ::
  "server_env \<Rightarrow> u64 \<Rightarrow> string \<Rightarrow> string \<Rightarrow> nat \<Rightarrow> string \<Rightarrow> chan \<Rightarrow> server \<Rightarrow> server" where
  "handle_clear_session env i sid new_id queue connection tx s =
     (let swarm = swarm_id_for_session sid s;
          s = rename_agent sid new_id (False, queue) s;
          s = register_session_interrupt_queue new_id queue s;
          s = remove_session_interrupt_queue sid s;
          s = rename_member sid new_id s;
          s = remove_session_file_touches sid s;
          s = remove_session_channel_subscriptions sid s;
          s = update_member_status env new_id ''ready'' None s;
          s = (case swarm of None \<Rightarrow> s | Some sw \<Rightarrow> rename_plan_participant sw sid new_id s);
          s = set_connection_session connection new_id s
      in server_send tx (EventDone i) (server_send tx (SessionIdEvent new_id) s))"

text \<open>\<^verbatim>\<open>handle_resume_session\<close> once the agent of the connection has restored \<^verbatim>\<open>sid\<close> in place of its own session.\<close>

definition resume_session :: "server_env \<Rightarrow> u64 \<Rightarrow> string \<Rightarrow> string \<Rightarrow> string \<Rightarrow> chan \<Rightarrow> server \<Rightarrow> server" where
  "resume_session env i old sid connection tx s =
     (let s = (case hget (sv_agents s) old of
                 None \<Rightarrow> s | Some agent \<Rightarrow> rename_agent old sid agent s);
          s = rename_session_interrupt_queue old sid s;
          s = set_connection_session connection sid s;
          s = rename_member old sid s;
          s = remove_session_channel_subscriptions old s;
          s = remove_session_file_touches old s;
          s = s\<lparr>sv_coordinators := map (\<lambda>(sw, c). (sw, if c = old then sid else c)) (sv_coordinators s)\<rparr>;
          s = update_member_status env sid ''ready'' None s;
          s = (case swarm_id_for_session sid s of None \<Rightarrow> s
               | Some sw \<Rightarrow> persist_swarm_state_for sw (rename_plan_participant sw old sid s));
          s = register_session_event_sender sid connection tx s
      in server_send tx (EventDone i) s)"

subsection \<open>Switching swarms on and off\<close>

text \<open>\<^verbatim>\<open>current\<close> is the setting of the connection before the request.\<close>

definition toggle_swarm :: "server_env \<Rightarrow> u64 \<Rightarrow> string \<Rightarrow> bool \<Rightarrow> bool \<Rightarrow> chan \<Rightarrow> server \<Rightarrow> server" where
  "toggle_swarm env i sid current enabled tx s =
     (if current = enabled then server_send tx (EventDone i) s
      else
        let old = swarm_id_for_session sid s;
            dir = Option.bind (hget (sv_members s) sid) mb_working_dir;
            s = modify_member sid (\<lambda>m. if enabled then m\<lparr>mb_swarm_enabled := True\<rparr>
                  else m\<lparr>mb_swarm_enabled := False, mb_swarm_id := None, mb_role := ''agent''\<rparr>) s;
            s = (case old of None \<Rightarrow> s
                 | Some sw \<Rightarrow> remove_session_channel_subscriptions sid (remove_session_from_swarm env sid sw s));
            s = (if \<not> enabled then server_send tx (SwarmStatus []) s
                 else case swarm_id_for_dir env dir of
                        None \<Rightarrow> server_send tx (SwarmStatus []) s
                      | Some sw \<Rightarrow> persist_swarm_state_for sw (broadcast_swarm_status env sw
                          (modify_member sid (\<lambda>m. m\<lparr>mb_swarm_id := Some sw, mb_role := ''agent''\<rparr>) (join_swarm_set sw sid s))))
        in server_send tx (EventDone i) s)"

subsection \<open>Leaving\<close>

text \<open>A member is dropped, and then its swarm is told.\<close>

definition drop_member_of_swarm :: "server_env \<Rightarrow> string \<Rightarrow> server \<Rightarrow> server" where
  "drop_member_of_swarm env sid s =
     (let swarm = swarm_id_for_session sid s; name = friendly_name_for_session sid s;
          s = s\<lparr>sv_members := hdel sid (sv_members s)\<rparr>
      in case swarm of
           None \<Rightarrow> s
         | Some sw \<Rightarrow> remove_session_from_swarm env sid sw
             (record_swarm_event sid name (Some sw) (MemberChange ''left'') s))"

datatype disconnect_disposition = DisconnectClosed | DisconnectCrashed | DisconnectReloading

definition disposition_of :: "bool \<Rightarrow> bool \<Rightarrow> disconnect_disposition" where
  "disposition_of reload_marker_active processing =
     (if \<not> processing then DisconnectClosed
      else if reload_marker_active then DisconnectReloading else DisconnectCrashed)"

fun disconnect_status :: "disconnect_disposition \<Rightarrow> string \<times> string option" where
  "disconnect_status DisconnectClosed = (''stopped'', Some ''disconnected'')"
| "disconnect_status DisconnectCrashed = (''crashed'', Some ''disconnect while running'')"
| "disconnect_status DisconnectReloading = (''stopped'', Some ''server reload in progress'')"

definition cleanup_client_connection :: "server_env \<Rightarrow> bool \<Rightarrow> bool \<Rightarrow> string \<Rightarrow> string \<Rightarrow> server \<Rightarrow> server" where
  "cleanup_client_connection env reload_marker_active processing sid connection s =
     (let (status, detail) = disconnect_status (disposition_of reload_marker_active processing);
          s = s\<lparr>sv_connections := hdel connection (sv_connections s)\<rparr>;
          s = unregister_session_event_sender sid connection s
      in if sid \<in> snd ` set (sv_connections s) then s
         else let s = s\<lparr>sv_agents := hdel sid (sv_agents s)\<rparr>;
                  s = update_member_status env sid status detail s;
                  s = drop_member_of_swarm env sid s;
                  s = remove_session_channel_subscriptions sid s;
                  s = remove_session_file_touches sid s
              in remove_session_interrupt_queue sid s)"

subsection \<open>Spawning\<close>

definition create_headless_member ::
  "server_env \<Rightarrow> string \<Rightarrow> nat \<Rightarrow> chan \<Rightarrow> string option \<Rightarrow> bool \<Rightarrow> string option \<Rightarrow> server \<Rightarrow> server" where
  "create_headless_member env sid queue tx dir enabled report_back s =
     (let swarm = (if enabled then swarm_id_for_dir env dir else None);
          m = (new_member sid tx [] (now_of s))\<lparr>mb_working_dir := dir, mb_swarm_id := swarm, mb_swarm_enabled := enabled,
                mb_friendly_name := Some (case extract_session_name sid of Some n \<Rightarrow> n | None \<Rightarrow> take 8 sid),
                mb_report_back := report_back, mb_is_headless := True\<rparr>;
          s = s\<lparr>sv_agents := hput sid (False, queue) (sv_agents s)\<rparr>;
          s = register_session_interrupt_queue sid queue s;
          s = s\<lparr>sv_members := hput sid m (sv_members s)\<rparr>
      in case swarm of None \<Rightarrow> s | Some sw \<Rightarrow> broadcast_swarm_status env sw (join_swarm_set sw sid s))"

definition register_visible_spawned_member ::
  "server_env \<Rightarrow> string \<Rightarrow> string \<Rightarrow> string option \<Rightarrow> bool \<Rightarrow> string option \<Rightarrow> server \<Rightarrow> server" where
  "register_visible_spawned_member env sid swarm_id dir has_startup report_back s =
     (let m = (new_member sid dead_chan [] (now_of s))\<lparr>mb_working_dir := dir, mb_swarm_id := Some swarm_id,
                mb_status := (if has_startup then ''running'' else ''spawned''),
                mb_detail := Some (if has_startup then ''startup queued'' else ''launching client''),
                mb_friendly_name := Some (case extract_session_name sid of Some n \<Rightarrow> n | None \<Rightarrow> sid),
                mb_report_back := report_back\<rparr>;
          s = join_swarm_set swarm_id sid (s\<lparr>sv_members := hput sid m (sv_members s)\<rparr>)
      in broadcast_swarm_status env swarm_id (record_swarm_event_for_session sid (MemberChange ''joined'') s))"

subsection \<open>Coordination\<close>

definition swarm_member_status_is_stale_for_coordination :: "string \<Rightarrow> bool" where
  "swarm_member_status_is_stale_for_coordination status \<longleftrightarrow>
     status \<in> {''crashed'', ''failed'', ''stopped'', ''closed'', ''disconnected''}"

definition coordinator_is_stale :: "string option \<Rightarrow> string option \<Rightarrow> server \<Rightarrow> bool" where
  "coordinator_is_stale swarm coordinator s =
     (case coordinator of
        None \<Rightarrow> False
      | Some c \<Rightarrow>
          \<not> (case hget (sv_members s) c of
               None \<Rightarrow> False
             | Some m \<Rightarrow> mb_swarm_id m = swarm \<and> \<not> swarm_member_status_is_stale_for_coordination (mb_status m)))"

definition refuse :: "u64 \<Rightarrow> chan \<Rightarrow> string \<Rightarrow> server \<Rightarrow> server" where
  "refuse i tx msg = server_send tx (EventError i msg None)"

definition claim_coordination :: "string \<Rightarrow> string \<Rightarrow> server \<Rightarrow> server" where
  "claim_coordination sid swarm_id s =
     modify_member sid (\<lambda>m. m\<lparr>mb_role := ''coordinator''\<rparr>) (s\<lparr>sv_coordinators := hput swarm_id sid (sv_coordinators s)\<rparr>)"

definition ensure_spawn_coordinator_swarm ::
  "server_env \<Rightarrow> u64 \<Rightarrow> string \<Rightarrow> string \<Rightarrow> chan \<Rightarrow> server \<Rightarrow> string option \<times> server" where
  "ensure_spawn_coordinator_swarm env i sid permission_error tx s =
     (case swarm_id_for_session sid s of
        None \<Rightarrow> (None, refuse i tx ''Not in a swarm.'' s)
      | Some sw \<Rightarrow>
          let coordinator = hget (sv_coordinators s) sw
          in if coordinator = Some sid then (Some sw, s)
             else if coordinator \<noteq> None \<and> \<not> coordinator_is_stale (Some sw) coordinator s
             then (None, refuse i tx permission_error s)
             else (Some sw, server_send tx
                    (Notification sid (friendly_name_for_session sid s) (MessageNotification (Some ''swarm'') None)
                      ''You are the coordinator for this swarm.'')
                    (broadcast_swarm_status env sw (persist_swarm_state_for sw (claim_coordination sid sw s)))))"

text \<open>The check before a stop: it also takes over from a coordinator that is gone.\<close>

definition require_coordinator_or_claim :: "u64 \<Rightarrow> string \<Rightarrow> string \<Rightarrow> chan \<Rightarrow> server \<Rightarrow> string option \<times> server" where
  "require_coordinator_or_claim i sid permission_error tx s =
     (let swarm = swarm_id_for_session sid s;
          coordinator = Option.bind swarm (hget (sv_coordinators s))
      in if coordinator = Some sid then (swarm, s)
         else if coordinator_is_stale swarm coordinator s
         then (swarm, claim_coordination sid (the swarm) s)
         else (None, refuse i tx permission_error s))"

definition swarm_stop_allowed_by_owner :: "string \<Rightarrow> swarm_member \<Rightarrow> bool \<Rightarrow> bool" where
  "swarm_stop_allowed_by_owner req m force \<longleftrightarrow> force \<or> mb_report_back m = Some req"

definition resolve_stop_target_session :: "string \<Rightarrow> string \<Rightarrow> server \<Rightarrow> string + string" where
  "resolve_stop_target_session swarm_id target0 s =
     (let target = trim target0
      in if target = [] then Inl ''target_session is required.''
         else if swarm_id_for_session target s = Some swarm_id then Inr target
         else let matches = sort_key fst (List.map_filter (\<lambda>(sid, m).
                    if mb_swarm_id m = Some swarm_id \<and>
                       (mb_friendly_name m = Some target \<or> prefix target sid \<or> suffix target sid)
                    then Some (sid, case mb_friendly_name m of Some n \<Rightarrow> n | None \<Rightarrow> sid) else None) (sv_members s))
              in case matches of
                   [] \<Rightarrow> Inl (''Unknown swarm session '' @ apos @ target @ apos @
                              ''. Use an exact session ID, unique friendly name, or unique session ID prefix/suffix.'')
                 | [(sid, _)] \<Rightarrow> Inr sid
                 | _ \<Rightarrow> Inl (''Ambiguous swarm session '' @ apos @ target @ apos @ '' matched: '' @
                             join '', '' (map (\<lambda>(sid, n). n @ '' ['' @ sid @ '']'') matches) @ ''. Use an exact session ID.''))"

definition with_requests :: "(request_world \<Rightarrow> 'a \<times> request_world) \<Rightarrow> server \<Rightarrow> 'a \<times> server" where
  "with_requests f s = (case f (sv_world s) of (x, w) \<Rightarrow> (x, s\<lparr>sv_world := w\<rparr>))"

definition request_of :: "(string list \<Rightarrow> u64) \<Rightarrow> string \<Rightarrow> string list \<Rightarrow> string \<Rightarrow> u64 \<Rightarrow> chan \<Rightarrow> request" where
  "request_of hash action components sid i tx =
     \<lparr>rq_key = hashed_request_key hash sid action components, rq_action = action, rq_session_id = sid, rq_id = i, rq_chan = tx\<rparr>"

definition finish_mutation :: "mutation_state \<Rightarrow> mutation_response \<Rightarrow> server \<Rightarrow> server" where
  "finish_mutation st response = on_world (finish_request st response)"

definition handle_comm_stop ::
  "server_env \<Rightarrow> (string list \<Rightarrow> u64) \<Rightarrow> u64 \<Rightarrow> string \<Rightarrow> string \<Rightarrow> bool \<Rightarrow> chan \<Rightarrow> server \<Rightarrow> server" where
  "handle_comm_stop env hash i req target force tx s =
     (case require_coordinator_or_claim i req ''Only the coordinator can stop agents.'' tx s of
        (None, s) \<Rightarrow> s
      | (Some swarm_id, s) \<Rightarrow>
          (case resolve_stop_target_session swarm_id target s of
             Inl msg \<Rightarrow> refuse i tx msg s
           | Inr sid \<Rightarrow>
               if \<not> (case hget (sv_members s) sid of None \<Rightarrow> False | Some m \<Rightarrow> swarm_stop_allowed_by_owner req m force)
               then refuse i tx (''Refusing to stop session '' @ apos @ sid @ apos @
                      '' because it was not spawned by this coordinator. Pass force=true to stop a non-owned/user-created swarm session explicitly.'') s
               else
                 let s = snd (fanout_session_event sid (SessionCloseRequested (''Stopped by coordinator '' @ req)) s)
                 in case with_requests (begin_or_replay (request_of hash ''stop'' [swarm_id, sid] req i tx)) s of
                      (None, s) \<Rightarrow> s
                    | (Some st, s) \<Rightarrow>
                        let live = hget (sv_agents s) sid \<noteq> None;
                            s = s\<lparr>sv_agents := hdel sid (sv_agents s)\<rparr>;
                            s = (if live then remove_session_interrupt_queue sid s else s);
                            left = swarm_id_for_session sid s;
                            s = drop_member_of_swarm env sid s;
                            s = remove_session_channel_subscriptions sid s
                        in finish_mutation st
                             (if live \<or> left \<noteq> None then MutationDone
                              else MutationError (''Unknown session '' @ apos @ sid @ apos) None) s))"

definition may_assign_role :: "string \<Rightarrow> string \<Rightarrow> string \<Rightarrow> string \<Rightarrow> server \<Rightarrow> bool" where
  "may_assign_role req target role swarm_id s =
     (case hget (sv_coordinators s) swarm_id of
        Some c \<Rightarrow>
          c = req \<or>
          role = ''coordinator'' \<and> target = req \<and>
            ((case hget (sv_members s) c of
                None \<Rightarrow> True
              | Some m \<Rightarrow> is_closed s (mb_event_tx m) \<or> mb_is_headless m) \<or> hget (sv_agents s) c = None)
      | None \<Rightarrow> role = ''coordinator'' \<and> target = req)"

definition handle_comm_assign_role ::
  "server_env \<Rightarrow> (string list \<Rightarrow> u64) \<Rightarrow> u64 \<Rightarrow> string \<Rightarrow> string \<Rightarrow> string \<Rightarrow> chan \<Rightarrow> server \<Rightarrow> server" where
  "handle_comm_assign_role env hash i req target role tx s =
     (case swarm_id_for_session req s of
        None \<Rightarrow> refuse i tx ''Only the coordinator can assign roles. (Tip: if the coordinator has disconnected, use assign_role with target_session set to your own session ID to self-promote.)'' s
      | Some sw \<Rightarrow>
          if \<not> may_assign_role req target role sw s
          then refuse i tx ''Only the coordinator can assign roles. (Tip: if the coordinator has disconnected, use assign_role with target_session set to your own session ID to self-promote.)'' s
          else case with_requests (begin_or_replay (request_of hash ''assign_role'' [sw, target, role] req i tx)) s of
                 (None, s) \<Rightarrow> s
               | (Some st, s) \<Rightarrow>
                   if hget (sv_members s) target = None
                   then finish_mutation st (MutationError (''Unknown session '' @ apos @ target @ apos) None) s
                   else
                     let s = modify_member target (\<lambda>m. m\<lparr>mb_role := role\<rparr>) s;
                         s = (if role = ''coordinator''
                              then modify_member req (\<lambda>m. if mb_session_id m \<noteq> target then m\<lparr>mb_role := ''agent''\<rparr> else m)
                                     (s\<lparr>sv_coordinators := hput sw target (sv_coordinators s)\<rparr>)
                              else s);
                         s = persist_swarm_state_for sw s;
                         s = broadcast_swarm_status env sw s;
                         s = record_swarm_event req None (Some sw) (NotificationEvent ''role_assignment'' (target @ '' -> '' @ role)) s
                     in finish_mutation st MutationDone s)"


section \<open>Lemmas\<close>

subsection \<open>What an operation leaves alone\<close>

text \<open>
  The membership of a server: the swarm, the kind and the role of each member, the sets of the swarms and
  their coordinators. Sending, recording and persisting do not touch it.
\<close>

definition core :: "swarm_member \<Rightarrow> string option \<times> bool \<times> string" where
  "core m = (mb_swarm_id m, mb_is_headless m, mb_role m)"

definition cores :: "server \<Rightarrow> string \<Rightarrow> (string option \<times> bool \<times> string) option" where
  "cores s sid = map_option core (hget (sv_members s) sid)"

definition membership :: "server \<Rightarrow> (string \<Rightarrow> (string option \<times> bool \<times> string) option) \<times> (string, string list) hmap \<times> (string, string) hmap" where
  "membership s = (cores s, sv_swarms s, sv_coordinators s)"

named_theorems membership_simps \<open>operations that keep the membership\<close>

lemma membership_eqD:
  "membership s' = membership s \<Longrightarrow> cores s' = cores s"
  "membership s' = membership s \<Longrightarrow> sv_swarms s' = sv_swarms s"
  "membership s' = membership s \<Longrightarrow> sv_coordinators s' = sv_coordinators s"
  by (simp_all add: membership_def)

lemma membership_cong:
  "sv_members s' = sv_members s \<Longrightarrow> sv_swarms s' = sv_swarms s \<Longrightarrow> sv_coordinators s' = sv_coordinators s \<Longrightarrow>
   membership s' = membership s"
  by (auto simp: membership_def cores_def fun_eq_iff)

lemma cores_modify_member:
  "cores (modify_member sid f s) = (cores s)(sid := map_option (core \<circ> f) (hget (sv_members s) sid))"
  by (auto simp: cores_def modify_member_def hmap_simps fun_eq_iff option.map_comp)

lemma membership_modify_member:
  "(\<And>m. core (f m) = core m) \<Longrightarrow> membership (modify_member sid f s) = membership s"
  by (auto simp: membership_def modify_member_def cores_def hmap_simps fun_eq_iff option.map_comp comp_def)

lemma membership_replace_member:
  "hget (sv_members s) sid = Some m \<Longrightarrow> core m' = core m \<Longrightarrow> membership (modify_member sid (\<lambda>_. m') s) = membership s"
  by (auto simp: membership_def modify_member_def cores_def hmap_simps fun_eq_iff)

lemma core_first_live [simp]: "core (first_live m) = core m"
  by (auto simp: first_live_def core_def split: list.split prod.split)

lemma core_retain_open [simp]: "core (retain_open s m) = core m"
  by (simp add: retain_open_def core_def)

lemma core_channels [simp]:
  "core (m\<lparr>mb_event_txs := txs\<rparr>) = core m" "core (m\<lparr>mb_event_tx := tx\<rparr>) = core m"
  by (simp_all add: core_def)

interpretation members: kept_by_sending membership
  by unfold_locales (auto simp: server_send_def on_world_def intro!: membership_cong membership_replace_member)

lemmas membership_sends [membership_simps] =
  members.sends members.fanout members.status_now members.plan_broadcast members.announcement

lemmas membership_fold = members.folds

lemma membership_broadcast_status [membership_simps]: "membership (broadcast_swarm_status env sw s) = membership s"
  by (auto simp: broadcast_swarm_status_def Let_def members.status_now intro!: membership_cong split: option.split)

lemma membership_record_event [membership_simps]: "membership (record_swarm_event sid n sw e s) = membership s"
  by (rule membership_cong) (simp_all add: record_swarm_event_def Let_def)

lemma membership_record_event_for [membership_simps]: "membership (record_swarm_event_for_session sid e s) = membership s"
  by (simp add: record_swarm_event_for_session_def membership_simps)

lemma membership_persist [membership_simps]:
  "membership (persist_swarm_state_for sw s) = membership s" "membership (remove_persisted_swarm_state_for sw s) = membership s"
  by (auto simp: persist_swarm_state_for_def persist_swarm_state_def remove_swarm_state_def remove_persisted_swarm_state_for_def
      Let_def intro!: membership_cong)

lemma membership_modify_plan [membership_simps]: "membership (modify_plan sw f s) = membership s"
  by (rule membership_cong) (simp_all add: modify_plan_def)

lemma membership_participants [membership_simps]:
  "membership (remove_plan_participant sw sid s) = membership s"
  "membership (rename_plan_participant sw sid sid' s) = membership s"
  by (simp_all add: remove_plan_participant_def rename_plan_participant_def membership_simps)

lemma membership_touches [membership_simps]: "membership (remove_session_file_touches sid s) = membership s"
  by (rule membership_cong) (simp_all add: remove_session_file_touches_def split: option.split)

lemma membership_channels [membership_simps]: "membership (remove_session_channel_subscriptions sid s) = membership s"
  by (rule membership_cong) (simp_all add: remove_session_channel_subscriptions_def)

lemma membership_queues [membership_simps]:
  "membership (remove_session_interrupt_queue sid s) = membership s"
  "membership (register_session_interrupt_queue sid q s) = membership s"
  "membership (rename_session_interrupt_queue sid sid' s) = membership s"
  by (auto simp: remove_session_interrupt_queue_def register_session_interrupt_queue_def rename_session_interrupt_queue_def
      intro!: membership_cong split: option.split)

lemma membership_fields [membership_simps]:
  "membership (s\<lparr>sv_agents := ags\<rparr>) = membership s" "membership (s\<lparr>sv_connections := cs\<rparr>) = membership s"
  by (rule membership_cong; simp)+

lemma membership_agents [membership_simps]:
  "membership (rename_agent sid sid' a s) = membership s" "membership (set_connection_session c sid s) = membership s"
  by (auto simp: rename_agent_def set_connection_session_def intro!: membership_cong)

lemma membership_senders [membership_simps]:
  "membership (register_session_event_sender sid c tx s) = membership s"
  "membership (unregister_session_event_sender sid c s) = membership s"
  by (simp_all add: register_session_event_sender_def unregister_session_event_sender_def membership_modify_member)

lemma membership_refuse [membership_simps]: "membership (refuse i tx m s) = membership s"
  by (simp add: refuse_def membership_simps)

lemma membership_requests [membership_simps]:
  "membership (snd (with_requests f s)) = membership s" "membership (finish_mutation st r s) = membership s"
  by (auto simp: with_requests_def finish_mutation_def on_world_def intro!: membership_cong split: prod.split)

lemma membership_update_status [membership_simps]:
  "membership (update_member_status_with_report env sid st d r s) = membership s"
  by (auto simp: update_member_status_with_report_def Let_def membership_simps core_def intro!: membership_modify_member
      split: option.split)


subsection \<open>The index of the swarms\<close>

definition assigned :: "server \<Rightarrow> string \<Rightarrow> string option" where
  "assigned s sid = swarm_id_for_session sid s"

definition listed :: "server \<Rightarrow> string \<Rightarrow> string set" where
  "listed s sw = set (swarm_sessions sw s)"

text \<open>The set of a swarm holds exactly the members that name it.\<close>

definition indexed :: "server \<Rightarrow> bool" where
  "indexed s \<longleftrightarrow> (\<forall>sw sid. sid \<in> listed s sw \<longleftrightarrow> assigned s sid = Some sw)"

lemma assigned_cores: "assigned s sid = Option.bind (cores s sid) fst"
  by (cases "hget (sv_members s) sid") (simp_all add: assigned_def swarm_id_for_session_def cores_def core_def)

lemma assigned_cong: "membership s' = membership s \<Longrightarrow> assigned s' = assigned s"
  by (simp add: fun_eq_iff assigned_cores membership_def)

lemma listed_cong: "membership s' = membership s \<Longrightarrow> listed s' = listed s"
  by (simp add: fun_eq_iff listed_def swarm_sessions_def membership_def)

lemmas kept_assigned = membership_simps[THEN assigned_cong]
lemmas kept_listed = membership_simps[THEN listed_cong]
lemmas kept_coordinators = membership_simps[THEN membership_eqD(3)]
lemmas kept_cores = membership_simps[THEN membership_eqD(1)]

lemmas kept = kept_assigned kept_listed kept_coordinators kept_cores

lemma assigned_modify_member:
  "assigned (modify_member sid f s) =
     (assigned s)(sid := Option.bind (hget (sv_members s) sid) (mb_swarm_id \<circ> f))"
  by (cases "hget (sv_members s) sid")
    (auto simp: fun_eq_iff assigned_def swarm_id_for_session_def modify_member_def hmap_simps)

lemma assigned_modify:
  assumes "\<And>m. mb_swarm_id (f m) = mb_swarm_id m"
  shows "assigned (modify_member sid f s) = assigned s"
proof -
  have "Option.bind (hget (sv_members s) sid) (mb_swarm_id \<circ> f) = assigned s sid"
    by (cases "hget (sv_members s) sid") (simp_all add: assigned_def swarm_id_for_session_def assms)
  then show ?thesis by (simp add: assigned_modify_member)
qed

lemma listed_modify [simp]: "listed (modify_member sid f s) = listed s"
  by (simp add: fun_eq_iff listed_def swarm_sessions_def modify_member_def)

lemma coordinators_modify [simp]: "sv_coordinators (modify_member sid f s) = sv_coordinators s"
  by (simp add: modify_member_def)

lemma assigned_sets [simp]:
  "assigned (leave_swarm_set sw sid s) = assigned s" "assigned (join_swarm_set sw sid s) = assigned s"
  "assigned (put_coordinator sw c s) = assigned s"
  by (simp_all add: fun_eq_iff assigned_def swarm_id_for_session_def leave_swarm_set_def join_swarm_set_def put_coordinator_def)

lemma swarm_sessions_leave:
  "swarm_sessions sw' (leave_swarm_set sw sid s) = (if sw' = sw then removeAll sid (swarm_sessions sw s) else swarm_sessions sw' s)"
  by (auto simp: swarm_sessions_def leave_swarm_set_def drop_member_def Let_def hmap_simps hget_or_def split: option.split)

lemma swarm_sessions_join:
  "swarm_sessions sw' (join_swarm_set sw sid s) = (if sw' = sw then List.insert sid (swarm_sessions sw s) else swarm_sessions sw' s)"
  by (simp add: swarm_sessions_def join_swarm_set_def hmap_simps)

lemma listed_sets [simp]:
  "listed (leave_swarm_set sw sid s) = (listed s)(sw := listed s sw - {sid})"
  "listed (join_swarm_set sw sid s) = (listed s)(sw := insert sid (listed s sw))"
  "listed (put_coordinator sw c s) = listed s"
  by (auto simp: fun_eq_iff listed_def swarm_sessions_leave swarm_sessions_join)
    (simp_all add: swarm_sessions_def put_coordinator_def)

lemma coordinators_sets [simp]:
  "sv_coordinators (leave_swarm_set sw sid s) = sv_coordinators s" "sv_coordinators (join_swarm_set sw sid s) = sv_coordinators s"
  by (simp_all add: leave_swarm_set_def join_swarm_set_def)

lemma cores_sets [simp]:
  "cores (leave_swarm_set sw sid s) = cores s" "cores (join_swarm_set sw sid s) = cores s" "cores (put_coordinator sw c s) = cores s"
  by (simp_all add: fun_eq_iff cores_def leave_swarm_set_def join_swarm_set_def put_coordinator_def)

lemma present_modify [simp]: "cores (modify_member sid f s) x = None \<longleftrightarrow> cores s x = None"
  by (simp add: cores_modify_member cores_def)

lemma replace_coordinator_index:
  "assigned (replace_coordinator sw s) = assigned s" "listed (replace_coordinator sw s) = listed s"
  by (simp_all add: replace_coordinator_def Let_def kept assigned_modify split: option.split)

lemma replace_coordinator_present [simp]: "cores (replace_coordinator sw s) x = None \<longleftrightarrow> cores s x = None"
  by (simp add: replace_coordinator_def Let_def kept split: option.split)

lemma remove_from_swarm_present [simp]: "cores (remove_session_from_swarm env sid sw s) x = None \<longleftrightarrow> cores s x = None"
  by (simp add: remove_session_from_swarm_def Let_def kept)

lemma remove_from_swarm_index:
  "assigned (remove_session_from_swarm env sid sw s) = assigned s"
  "listed (remove_session_from_swarm env sid sw s) = (listed s)(sw := listed s sw - {sid})"
  by (auto simp: remove_session_from_swarm_def Let_def kept assigned_modify replace_coordinator_index)

lemma assigned_put [simp]:
  "assigned (s\<lparr>sv_members := hput sid m (sv_members s)\<rparr>) = (assigned s)(sid := mb_swarm_id m)"
  by (auto simp: fun_eq_iff assigned_def swarm_id_for_session_def hmap_simps)

lemma assigned_del [simp]:
  "assigned (s\<lparr>sv_members := hdel sid (sv_members s)\<rparr>) = (assigned s)(sid := None)"
  by (auto simp: fun_eq_iff assigned_def swarm_id_for_session_def hmap_simps)

lemma listed_members [simp]: "listed (s\<lparr>sv_members := ms\<rparr>) = listed s"
  by (simp add: fun_eq_iff listed_def swarm_sessions_def)

lemma indexed_listed: "indexed s \<Longrightarrow> listed s sw = {sid. assigned s sid = Some sw}"
  by (auto simp: indexed_def)

lemma indexedI: "(\<And>sw. listed s sw = {sid. assigned s sid = Some sw}) \<Longrightarrow> indexed s"
  by (auto simp: indexed_def)

lemma indexed_ensure:
  assumes "indexed s"
  shows "indexed (snd (ensure_client_swarm_member env sid c n tx a d e s))"
proof (cases "hget (sv_members s) sid")
  case None
  then have "assigned s sid = None" by (simp add: assigned_def swarm_id_for_session_def)
  with None show ?thesis
    by (intro indexedI)
      (auto simp: ensure_client_swarm_member_def Let_def kept indexed_listed[OF assms] split: option.split)
next
  case (Some m)
  then show ?thesis
    by (intro indexedI) (auto simp: ensure_client_swarm_member_def Let_def assigned_modify indexed_listed[OF assms])
qed

definition moved_swarm :: "server_env \<Rightarrow> string \<Rightarrow> string \<Rightarrow> server \<Rightarrow> string option" where
  "moved_swarm env sid dir s =
     Option.bind (hget (sv_members s) sid) (\<lambda>m. if mb_swarm_enabled m then swarm_id_for_dir env (Some dir) else None)"

lemma handover_index [simp]:
  "assigned (handover_on_move sid sw s) = assigned s" "listed (handover_on_move sid sw s) = listed s"
  by (simp_all add: handover_on_move_def Let_def kept split: option.split)

lemma move_index:
  "assigned (move_to_dir env sid dir s) = (assigned s)(sid := moved_swarm env sid dir s)"
  "listed (move_to_dir env sid dir s) sw =
     (listed s sw - (if assigned s sid = Some sw then {sid} else {})) \<union> (if moved_swarm env sid dir s = Some sw then {sid} else {})"
proof -
  let ?f = "\<lambda>m. m\<lparr>mb_working_dir := Some dir, mb_swarm_id := (if mb_swarm_enabled m then swarm_id_for_dir env (Some dir) else None)\<rparr>"
  have b: "swarm_id_for_session sid (modify_member sid ?f s) = moved_swarm env sid dir s"
    using assigned_modify_member[of sid ?f s] by (cases "hget (sv_members s) sid") (auto simp: moved_swarm_def assigned_def fun_eq_iff)
  have a: "assigned (modify_member sid ?f s) = (assigned s)(sid := moved_swarm env sid dir s)"
    using b by (auto simp: assigned_modify_member assigned_def[of _ sid, symmetric] fun_eq_iff)
  show "assigned (move_to_dir env sid dir s) = (assigned s)(sid := moved_swarm env sid dir s)"
    "listed (move_to_dir env sid dir s) sw =
     (listed s sw - (if assigned s sid = Some sw then {sid} else {})) \<union> (if moved_swarm env sid dir s = Some sw then {sid} else {})"
    using a b
    by (auto simp: move_to_dir_def Let_def kept assigned_modify assigned_def[of s sid, symmetric] split: option.split if_splits)
qed

lemma indexed_cong:
  assumes "membership s' = membership s"
  shows "indexed s' = indexed s"
  unfolding indexed_def assigned_cong[OF assms] listed_cong[OF assms] ..

lemmas kept_indexed = membership_simps[THEN indexed_cong]

lemma indexed_move: "indexed s \<Longrightarrow> indexed (move_to_dir env sid dir s)"
  by (auto simp: indexed_def move_index split: if_splits)

lemma indexed_subscribe:
  assumes "indexed s"
  shows "indexed (handle_subscribe env q s)"
proof -
  have "indexed (snd (ensure_client_swarm_member env a b c d e f g s))" for a b c d e f g using assms by (rule indexed_ensure)
  then show ?thesis
    by (auto simp: handle_subscribe_def Let_def kept_indexed update_member_status_def indexed_move split: option.split)
qed

lemma member_assigned: "hget (sv_members s) sid = None \<Longrightarrow> assigned s sid = None"
  by (simp add: assigned_def swarm_id_for_session_def)

lemma rename_index:
  assumes "indexed s"
  shows "assigned (rename_member old new s) =
      (if hget (sv_members s) old = None then assigned s else (assigned s)(old := None, new := assigned s old))"
    "listed (rename_member old new s) sw =
      (if assigned s old = Some sw then insert new (listed s sw - {old}) else listed s sw)"
proof -
  show "assigned (rename_member old new s) =
      (if hget (sv_members s) old = None then assigned s else (assigned s)(old := None, new := assigned s old))"
    by (auto simp: rename_member_def Let_def fun_eq_iff assigned_def swarm_id_for_session_def hmap_simps split: option.split)
  show "listed (rename_member old new s) sw =
      (if assigned s old = Some sw then insert new (listed s sw - {old}) else listed s sw)"
  proof (cases "hget (sv_members s) old")
    case None
    then show ?thesis by (simp add: rename_member_def member_assigned)
  next
    case (Some m)
    show ?thesis
    proof (cases "mb_swarm_id m")
      case None
      then show ?thesis using Some by (simp add: rename_member_def Let_def assigned_def swarm_id_for_session_def)
    next
      case sw': (Some sw')
      have a: "assigned s old = Some sw'" using Some sw' by (simp add: assigned_def swarm_id_for_session_def)
      then have "old \<in> listed s sw'" using assms by (simp add: indexed_def)
      then obtain ids where ids: "hget (sv_swarms s) sw' = Some ids"
        by (cases "hget (sv_swarms s) sw'") (auto simp: listed_def swarm_sessions_def hget_or_def)
      then show ?thesis
        using Some sw' a
        by (auto simp: rename_member_def Let_def listed_def swarm_sessions_def hget_or_def hmap_simps rename_in_set_def)
    qed
  qed
qed

definition may_become :: "string \<Rightarrow> string \<Rightarrow> server \<Rightarrow> bool" where
  "may_become old new s \<longleftrightarrow> assigned s new = None \<or> assigned s new = assigned s old"

lemma indexed_rename:
  assumes "indexed s" "may_become old new s"
  shows "indexed (rename_member old new s)"
proof -
  have "listed (rename_member old new s) sw = {sid. assigned (rename_member old new s) sid = Some sw}" for sw
    using assms(2) indexed_listed[OF assms(1)]
    by (auto simp: rename_index[OF assms(1)] may_become_def member_assigned)
  then show ?thesis by (rule indexedI)
qed

lemma indexed_clear:
  assumes "indexed s" "may_become sid new s"
  shows "indexed (handle_clear_session env i sid new q c tx s)"
proof -
  have "may_become sid new (remove_session_interrupt_queue sid (register_session_interrupt_queue new q (rename_agent sid new a s)))" for a
    using assms(2) by (simp add: may_become_def kept)
  then have "indexed (rename_member sid new (remove_session_interrupt_queue sid (register_session_interrupt_queue new q (rename_agent sid new (False, q) s))))"
    using assms(1) by (intro indexed_rename) (simp_all add: kept_indexed)
  then show ?thesis
    by (simp add: handle_clear_session_def Let_def kept_indexed update_member_status_def split: option.split)
qed

lemma indexed_coordinators [simp]: "indexed (s\<lparr>sv_coordinators := c\<rparr>) = indexed s"
  by (simp add: indexed_def assigned_def listed_def swarm_id_for_session_def swarm_sessions_def)

lemma indexed_resume:
  assumes "indexed s" "may_become old sid s"
  shows "indexed (resume_session env i old sid c tx s)"
proof -
  define s1 where "s1 = (case hget (sv_agents s) old of None \<Rightarrow> s | Some agent \<Rightarrow> rename_agent old sid agent s)"
  define s2 where "s2 = rename_member old sid (set_connection_session c sid (rename_session_interrupt_queue old sid s1))"
  have m: "membership s1 = membership s" by (simp add: s1_def membership_simps split: option.split)
  have "indexed s2"
    unfolding s2_def using assms m
    by (intro indexed_rename) (simp_all add: kept_indexed may_become_def kept indexed_cong[OF m] assigned_cong[OF m])
  then show ?thesis
    by (simp add: resume_session_def Let_def s1_def[symmetric] s2_def[symmetric] kept_indexed update_member_status_def split: option.split)
qed

lemma indexed_remove:
  assumes "\<And>sw' x. x \<in> listed s sw' \<longleftrightarrow> assigned s x = Some sw' \<or> x = sid \<and> sw' = sw" "assigned s sid = None"
  shows "indexed (remove_session_from_swarm env sid sw s)"
  using assms by (auto simp: indexed_def remove_from_swarm_index)

lemma indexed_drop:
  assumes "indexed s"
  shows "indexed (drop_member_of_swarm env sid s)"
proof -
  have i: "x \<in> listed s sw \<longleftrightarrow> assigned s x = Some sw" for x sw using assms by (simp add: indexed_def)
  show ?thesis
  proof (cases "assigned s sid")
    case None
    then show ?thesis
      by (auto simp: drop_member_of_swarm_def Let_def assigned_def[symmetric] indexed_def i)
  next
    case (Some sw)
    have "indexed (remove_session_from_swarm env sid sw (record_swarm_event sid n (Some sw) e (s\<lparr>sv_members := hdel sid (sv_members s)\<rparr>)))" for n e
      using Some by (intro indexed_remove) (auto simp: kept i)
    then show ?thesis using Some by (simp add: drop_member_of_swarm_def Let_def assigned_def[symmetric])
  qed
qed

lemma indexed_cleanup:
  assumes "indexed s"
  shows "indexed (cleanup_client_connection env r p sid c s)"
proof -
  obtain st d where "disconnect_status (disposition_of r p) = (st, d)" by fastforce
  then show ?thesis
    using assms by (simp add: cleanup_client_connection_def Let_def kept_indexed update_member_status_def indexed_drop)
qed

lemma indexed_toggle:
  assumes "indexed s" "hget (sv_members s) sid = Some m"
    and "enabled \<longrightarrow> mb_swarm_id m = None \<or> swarm_id_for_dir env (mb_working_dir m) \<noteq> None"
  shows "indexed (toggle_swarm env i sid current enabled tx s)"
proof -
  have i: "x \<in> listed s sw \<longleftrightarrow> assigned s x = Some sw" for x sw using assms(1) by (simp add: indexed_def)
  have a: "assigned s sid = mb_swarm_id m" using assms(2) by (simp add: assigned_def swarm_id_for_session_def)
  define f where "f = (\<lambda>m :: swarm_member. if enabled then m\<lparr>mb_swarm_enabled := True\<rparr>
                  else m\<lparr>mb_swarm_enabled := False, mb_swarm_id := None, mb_role := ''agent''\<rparr>)"
  define s1 where "s1 = modify_member sid f s"
  define s2 where "s2 = (case mb_swarm_id m of None \<Rightarrow> s1
     | Some sw \<Rightarrow> remove_session_channel_subscriptions sid (remove_session_from_swarm env sid sw s1))"
  have s1: "assigned s1 = (assigned s)(sid := if enabled then mb_swarm_id m else None)" "listed s1 = listed s"
    using assms(2) by (auto simp: s1_def f_def assigned_modify_member)
  have s2: "assigned s2 = assigned s1" "listed s2 sw = listed s sw - (if mb_swarm_id m = Some sw then {sid} else {})" for sw
    by (auto simp: s2_def kept remove_from_swarm_index s1 split: option.split)
  show ?thesis
  proof (cases "current = enabled")
    case True
    then show ?thesis using assms(1) by (simp add: toggle_swarm_def kept_indexed)
  next
    case False
    have j: "indexed (modify_member sid (\<lambda>m. m\<lparr>mb_swarm_id := Some sw, mb_role := ''agent''\<rparr>) (join_swarm_set sw sid s2))" for sw
    proof (rule indexedI)
      have "hget (sv_members s1) sid \<noteq> None" using assms(2) by (simp add: s1_def modify_member_def hmap_simps)
      moreover have "cores s2 sid = None \<longleftrightarrow> cores s1 sid = None"
        by (simp add: s2_def kept split: option.split)
      ultimately obtain m2 where m2: "hget (sv_members s2) sid = Some m2" by (cases "hget (sv_members s2) sid") (auto simp: cores_def)
      have m3: "hget (sv_members (join_swarm_set sw sid s2)) sid = Some m2" using m2 by (simp add: join_swarm_set_def)
      fix sw'
      show "listed (modify_member sid (\<lambda>m. m\<lparr>mb_swarm_id := Some sw, mb_role := ''agent''\<rparr>) (join_swarm_set sw sid s2)) sw' =
        {x. assigned (modify_member sid (\<lambda>m. m\<lparr>mb_swarm_id := Some sw, mb_role := ''agent''\<rparr>) (join_swarm_set sw sid s2)) x = Some sw'}"
        using m3 i a by (auto simp: assigned_modify_member s2 s1)
    qed
    have k: "indexed s2" if "\<not> enabled \<or> mb_swarm_id m = None"
      using that i a by (auto simp: indexed_def s2 s1)
    show ?thesis
      using False assms(2,3) j k
      by (auto simp: toggle_swarm_def Let_def kept_indexed swarm_id_for_session_def f_def[symmetric] s1_def[symmetric]
          s2_def[symmetric] split: option.split)
  qed
qed

lemma indexed_headless:
  assumes "indexed s" "assigned s sid = None"
  shows "indexed (create_headless_member env sid q tx d e r s)"
proof -
  have i: "x \<in> listed s sw \<longleftrightarrow> assigned s x = Some sw" for x sw using assms(1) by (simp add: indexed_def)
  show ?thesis
    using assms(2)
    by (auto simp: create_headless_member_def Let_def kept_indexed indexed_def i kept split: option.split)
qed

lemma indexed_visible:
  assumes "indexed s" "assigned s sid = None"
  shows "indexed (register_visible_spawned_member env sid sw d st r s)"
proof -
  have i: "x \<in> listed s sw \<longleftrightarrow> assigned s x = Some sw" for x sw using assms(1) by (simp add: indexed_def)
  show ?thesis
    using assms(2) by (auto simp: register_visible_spawned_member_def Let_def kept_indexed indexed_def i kept)
qed

lemma indexed_claim: "indexed (claim_coordination sid sw s) = indexed s"
  by (simp add: claim_coordination_def indexed_def assigned_modify)
    (simp add: listed_def assigned_def swarm_sessions_def swarm_id_for_session_def)

lemma indexed_role: "(\<And>m. mb_swarm_id (f m) = mb_swarm_id m) \<Longrightarrow> indexed (modify_member sid f s) = indexed s"
  by (simp add: indexed_def assigned_modify)

lemma with_requests_indexed: "with_requests f s = (x, s') \<Longrightarrow> indexed s' = indexed s"
  using indexed_cong[OF membership_requests(1)[of f s]] by simp

lemma indexed_require: "require_coordinator_or_claim i sid e tx s = (x, s') \<Longrightarrow> indexed s' = indexed s"
  by (auto simp: require_coordinator_or_claim_def Let_def indexed_claim kept_indexed split: if_splits)

lemma indexed_stop:
  assumes "indexed s"
  shows "indexed (handle_comm_stop env hash i req target force tx s)"
proof -
  obtain sw s1 where r: "require_coordinator_or_claim i req ''Only the coordinator can stop agents.'' tx s = (sw, s1)" by fastforce
  then have s1: "indexed s1" using assms indexed_require by blast
  show ?thesis
  proof (cases sw)
    case None
    then show ?thesis using r s1 by (simp add: handle_comm_stop_def)
  next
    case (Some swarm)
    show ?thesis
    proof (cases "resolve_stop_target_session swarm target s1")
      case (Inl msg)
      then show ?thesis using r s1 Some by (simp add: handle_comm_stop_def kept_indexed)
    next
      case (Inr sid)
      define s2 where "s2 = snd (fanout_session_event sid (SessionCloseRequested (''Stopped by coordinator '' @ req)) s1)"
      obtain st s3 where b: "with_requests (begin_or_replay (request_of hash ''stop'' [swarm, sid] req i tx)) s2 = (st, s3)" by fastforce
      have s3: "indexed s3" using with_requests_indexed[OF b] s1 by (simp add: s2_def kept_indexed)
      then show ?thesis
        using r Some Inr s1 s2_def b
        by (auto simp: handle_comm_stop_def kept_indexed Let_def indexed_drop split: option.split)
    qed
  qed
qed

lemma indexed_assign_role:
  assumes "indexed s"
  shows "indexed (handle_comm_assign_role env hash i req target role tx s)"
proof (cases "swarm_id_for_session req s")
  case None
  then show ?thesis using assms by (simp add: handle_comm_assign_role_def kept_indexed)
next
  case (Some sw)
  obtain st s1 where b: "with_requests (begin_or_replay (request_of hash ''assign_role'' [sw, target, role] req i tx)) s = (st, s1)"
    by fastforce
  have s1: "indexed s1" using with_requests_indexed[OF b] assms by simp
  then show ?thesis
    using assms Some b by (auto simp: handle_comm_assign_role_def kept_indexed Let_def indexed_role split: option.split)
qed

lemma indexed_spawn_check: "indexed s \<Longrightarrow> indexed (snd (ensure_spawn_coordinator_swarm env i sid e tx s))"
  by (auto simp: ensure_spawn_coordinator_swarm_def Let_def kept_indexed indexed_claim split: option.split)

text \<open>
  The requests and events that change membership, and when they are in order: new identifiers are unused,
  a resumed session is not a member of another swarm, and a session that switches swarms on has a directory.
\<close>

datatype membership_step =
    Subscribes subscription
  | Clears u64 string string nat string chan
  | Resumes u64 string string string chan
  | Toggles u64 string bool bool chan
  | Disconnects bool bool string string
  | Spawns_Headless string nat chan "string option" bool "string option"
  | Spawns_Visible string string "string option" bool "string option"
  | Stops u64 string string bool chan
  | Assigns_Role u64 string string string chan
  | Checks_Spawn u64 string string chan
  | Reports string string "string option" "string option"

fun perform :: "server_env \<Rightarrow> (string list \<Rightarrow> u64) \<Rightarrow> membership_step \<Rightarrow> server \<Rightarrow> server" where
  "perform env hash (Subscribes q) s = handle_subscribe env q s"
| "perform env hash (Clears i sid new q c tx) s = handle_clear_session env i sid new q c tx s"
| "perform env hash (Resumes i old sid c tx) s = resume_session env i old sid c tx s"
| "perform env hash (Toggles i sid current enabled tx) s = toggle_swarm env i sid current enabled tx s"
| "perform env hash (Disconnects r p sid c) s = cleanup_client_connection env r p sid c s"
| "perform env hash (Spawns_Headless sid q tx d e r) s = create_headless_member env sid q tx d e r s"
| "perform env hash (Spawns_Visible sid sw d st r) s = register_visible_spawned_member env sid sw d st r s"
| "perform env hash (Stops i req target force tx) s = handle_comm_stop env hash i req target force tx s"
| "perform env hash (Assigns_Role i req target role tx) s = handle_comm_assign_role env hash i req target role tx s"
| "perform env hash (Checks_Spawn i sid e tx) s = snd (ensure_spawn_coordinator_swarm env i sid e tx s)"
| "perform env hash (Reports sid st d r) s = update_member_status_with_report env sid st d r s"

fun in_order :: "server_env \<Rightarrow> membership_step \<Rightarrow> server \<Rightarrow> bool" where
  "in_order env (Clears i sid new q c tx) s = may_become sid new s"
| "in_order env (Resumes i old sid c tx) s = may_become old sid s"
| "in_order env (Toggles i sid current enabled tx) s =
     (case hget (sv_members s) sid of
        None \<Rightarrow> False
      | Some m \<Rightarrow> enabled \<longrightarrow> mb_swarm_id m = None \<or> swarm_id_for_dir env (mb_working_dir m) \<noteq> None)"
| "in_order env (Spawns_Headless sid q tx d e r) s = (assigned s sid = None)"
| "in_order env (Spawns_Visible sid sw d st r) s = (assigned s sid = None)"
| "in_order env _ s = True"

inductive server_run :: "server_env \<Rightarrow> (string list \<Rightarrow> u64) \<Rightarrow> server \<Rightarrow> server \<Rightarrow> bool" for env hash s0 where
  start: "server_run env hash s0 s0"
| step: "server_run env hash s0 s \<Longrightarrow> in_order env a s \<Longrightarrow> server_run env hash s0 (perform env hash a s)"
| tick: "server_run env hash s0 s \<Longrightarrow> server_run env hash s0 (on_world (\<lambda>w. w\<lparr>rw_now := rw_now w + k\<rparr>) s)"

lemma indexed_perform:
  assumes "indexed s" "in_order env a s"
  shows "indexed (perform env hash a s)"
proof (cases a)
  case (Toggles i sid current enabled tx)
  then obtain m where "hget (sv_members s) sid = Some m"
    using assms(2) by (cases "hget (sv_members s) sid") simp_all
  then show ?thesis using assms Toggles indexed_toggle[of s sid m enabled env i current tx] by simp
next
  case (Subscribes q)
  then show ?thesis using assms by (simp add: indexed_subscribe)
next
  case (Clears i sid new q c tx)
  then show ?thesis using assms by (simp add: indexed_clear)
next
  case (Resumes i old sid c tx)
  then show ?thesis using assms by (simp add: indexed_resume)
next
  case (Disconnects r p sid c)
  then show ?thesis using assms by (simp add: indexed_cleanup)
next
  case (Spawns_Headless sid q tx d e r)
  then show ?thesis using assms by (simp add: indexed_headless)
next
  case (Spawns_Visible sid sw d st r)
  then show ?thesis using assms by (simp add: indexed_visible)
next
  case (Stops i req target force tx)
  then show ?thesis using assms by (simp add: indexed_stop)
next
  case (Assigns_Role i req target role tx)
  then show ?thesis using assms by (simp add: indexed_assign_role)
next
  case (Checks_Spawn i sid e tx)
  then show ?thesis using assms by (simp add: indexed_spawn_check)
next
  case (Reports sid st d r)
  then show ?thesis using assms by (simp add: kept_indexed)
qed


subsection \<open>Coordinators\<close>

lemma fold_min: "fold min cs c = Min (set (c # cs))"
  by (simp only: Min.set_eq_fold)

text \<open>The members of a swarm that may coordinate it.\<close>

definition candidates :: "string \<Rightarrow> server \<Rightarrow> string set" where
  "candidates sw s = {x \<in> set (swarm_sessions sw s). \<exists>m. hget (sv_members s) x = Some m \<and> \<not> mb_is_headless m}"

lemma elect_candidates:
  "elect_coordinator sw s = (if candidates sw s = {} then None else Some (Min (candidates sw s)))"
proof -
  let ?P = "\<lambda>sid. case hget (sv_members s) sid of None \<Rightarrow> False | Some m \<Rightarrow> \<not> mb_is_headless m"
  have "set (filter ?P (swarm_sessions sw s)) = candidates sw s"
    by (auto simp: candidates_def split: option.splits)
  then show ?thesis
    by (cases "filter ?P (swarm_sessions sw s)") (auto simp: elect_coordinator_def fold_min simp del: set_filter filter.simps)
qed

lemma candidates_cores:
  "candidates sw s = {x \<in> set (swarm_sessions sw s). \<exists>c. cores s x = Some c \<and> \<not> fst (snd c)}"
  by (auto simp: candidates_def cores_def core_def)

lemma candidates_cong: "membership s' = membership s \<Longrightarrow> candidates sw s' = candidates sw s"
  by (auto simp: candidates_cores membership_def swarm_sessions_def)

lemma coordinators_put:
  "hget (sv_coordinators (put_coordinator sw c s)) sw' = (if sw' = sw then c else hget (sv_coordinators s) sw')"
  by (simp add: put_coordinator_def hmap_simps split: option.split)

lemma succession:
  fixes s env sid sw
  defines "s' \<equiv> remove_session_from_swarm env sid sw s"
  defines "rest \<equiv> {x \<in> set (swarm_sessions sw s) - {sid}. \<exists>m. hget (sv_members s) x = Some m \<and> \<not> mb_is_headless m}"
  shows "hget (sv_coordinators s') sw =
      (if hget (sv_coordinators s) sw \<noteq> Some sid then hget (sv_coordinators s) sw
       else if rest = {} then None else Some (Min rest))"
    and "sw' \<noteq> sw \<longrightarrow> hget (sv_coordinators s') sw' = hget (sv_coordinators s) sw'"
    and "hget (sv_coordinators s) sw = Some sid \<and> rest \<noteq> {} \<longrightarrow>
      (\<exists>m. hget (sv_members s') (Min rest) = Some m \<and> mb_role m = ''coordinator'')"
proof -
  define s1 where "s1 = leave_swarm_set sw sid (remove_plan_participant sw sid s)"
  have s1: "sv_coordinators s1 = sv_coordinators s" "cores s1 = cores s"
    by (simp_all add: s1_def kept)
  have "set (swarm_sessions sw s1) = set (swarm_sessions sw s) - {sid}"
    using listed_sets(1)[of sw sid "remove_plan_participant sw sid s"] by (auto simp: s1_def listed_def[symmetric] kept)
  then have "candidates sw s1 = rest"
    unfolding candidates_cores s1(2) by (auto simp: rest_def cores_def core_def)
  then have el: "elect_coordinator sw s1 = (if rest = {} then None else Some (Min rest))"
    by (simp add: elect_candidates)
  define s2 where "s2 = (if hget (sv_coordinators s) sw = Some sid then replace_coordinator sw s1 else s1)"
  have s': "sv_coordinators s' = sv_coordinators s2" "cores s' = cores (modify_member sid (\<lambda>m. m\<lparr>mb_role := ''agent''\<rparr>) s2)"
    by (simp_all add: s'_def remove_session_from_swarm_def Let_def kept s1_def[symmetric] s1(1) s2_def)
  have s2: "hget (sv_coordinators s2) x = (if hget (sv_coordinators s) sw = Some sid \<and> x = sw
      then (if rest = {} then None else Some (Min rest)) else hget (sv_coordinators s) x)" for x
    by (auto simp: s2_def s1 replace_coordinator_def Let_def kept el coordinators_put split: option.split)
  show "hget (sv_coordinators s') sw =
      (if hget (sv_coordinators s) sw \<noteq> Some sid then hget (sv_coordinators s) sw
       else if rest = {} then None else Some (Min rest))"
    by (simp add: s' s2)
  show "sw' \<noteq> sw \<longrightarrow> hget (sv_coordinators s') sw' = hget (sv_coordinators s) sw'"
    by (simp add: s' s2)
  show "hget (sv_coordinators s) sw = Some sid \<and> rest \<noteq> {} \<longrightarrow>
      (\<exists>m. hget (sv_members s') (Min rest) = Some m \<and> mb_role m = ''coordinator'')"
  proof (intro impI, elim conjE)
    assume c: "hget (sv_coordinators s) sw = Some sid" and ne: "rest \<noteq> {}"
    have "finite rest" by (simp add: rest_def)
    with ne have min: "Min rest \<in> rest" by simp
    then obtain m where m: "hget (sv_members s) (Min rest) = Some m" "Min rest \<noteq> sid" by (auto simp: rest_def)
    then have "cores s (Min rest) \<noteq> None" by (simp add: cores_def)
    then have "cores s1 (Min rest) \<noteq> None" by (simp add: s1)
    then obtain m1 where m1: "hget (sv_members s1) (Min rest) = Some m1" by (auto simp: cores_def)
    have "cores s2 (Min rest) = Some (core (m1\<lparr>mb_role := ''coordinator''\<rparr>))"
      using c ne m1 by (simp add: s2_def s1 replace_coordinator_def Let_def kept el cores_modify_member put_coordinator_def comp_def)
    then have "cores s' (Min rest) = Some (core (m1\<lparr>mb_role := ''coordinator''\<rparr>))"
      using m(2) by (simp add: s' cores_modify_member)
    then show "\<exists>m. hget (sv_members s') (Min rest) = Some m \<and> mb_role m = ''coordinator''"
      by (auto simp: cores_def core_def)
  qed
qed

text \<open>
  C11: When the coordinator leaves its swarm, the smallest identifier among the remaining members that are not
  headless takes over, with the role of coordinator; without one the swarm has no coordinator. When another
  member leaves, the coordinator stays. No other swarm is affected.
\<close>

theorem coordinator_succession:
  "let s' = remove_session_from_swarm env sid sw s;
       rest = {x \<in> set (swarm_sessions sw s) - {sid}. \<exists>m. hget (sv_members s) x = Some m \<and> \<not> mb_is_headless m}
   in hget (sv_coordinators s') sw =
        (if hget (sv_coordinators s) sw \<noteq> Some sid then hget (sv_coordinators s) sw
         else if rest = {} then None else Some (Min rest)) \<and>
      (sw' \<noteq> sw \<longrightarrow> hget (sv_coordinators s') sw' = hget (sv_coordinators s) sw') \<and>
      (hget (sv_coordinators s) sw = Some sid \<and> rest \<noteq> {} \<longrightarrow>
        (\<exists>m. hget (sv_members s') (Min rest) = Some m \<and> mb_role m = ''coordinator''))"
  unfolding Let_def by (intro conjI succession)

subsection \<open>Subscribing again\<close>

lemma update_member_status_kept: "membership (update_member_status env sid st d s) = membership s"
  by (simp add: update_member_status_def kept membership_simps)

text \<open>
  C34: A coordinator that subscribes again with a directory of the same swarm - as every reconnecting client
  does - is replaced by the smallest identifier of the swarm, headless or not, and the roles stay as they were.
\<close>

theorem resubscribing_coordinator_replaced:
  assumes "indexed s" and "hget (sv_members s) (sb_session_id q) = Some m" "mb_swarm_id m = Some sw" "sb_enabled q"
    and "sb_subscribe_dir q = Some dir" "swarm_id_for_dir env (Some dir) = Some sw"
    and "hget (sv_coordinators s) sw = Some (sb_session_id q)"
  shows "hget (sv_coordinators (handle_subscribe env q s)) sw = Some (Min (set (swarm_sessions sw s))) \<and>
     (\<forall>x. map_option mb_role (hget (sv_members (handle_subscribe env q s)) x) = map_option mb_role (hget (sv_members s) x))"
proof -
  let ?sid = "sb_session_id q"
  define s1 where "s1 = snd (ensure_client_swarm_member env ?sid (sb_connection q) (sb_name q) (sb_chan q) (sb_agent_name q)
      (sb_agent_dir q) (sb_enabled q) s)"
  define f where "f = (\<lambda>m :: swarm_member. m\<lparr>mb_working_dir := Some dir,
      mb_swarm_id := (if mb_swarm_enabled m then swarm_id_for_dir env (Some dir) else None)\<rparr>)"
  obtain m1 where m1: "hget (sv_members s1) ?sid = Some m1" "mb_swarm_id m1 = Some sw" "mb_swarm_enabled m1"
    using assms(2-4) by (auto simp: s1_def ensure_client_swarm_member_def Let_def modify_member_def hmap_simps)
  have role1: "map_option mb_role (hget (sv_members s1) x) = map_option mb_role (hget (sv_members s) x)" for x
    using assms(2) by (auto simp: s1_def ensure_client_swarm_member_def Let_def modify_member_def hmap_simps option.map_comp comp_def)
  have s1: "sv_coordinators s1 = sv_coordinators s" "swarm_sessions sw s1 = swarm_sessions sw s"
    using assms(2) by (simp_all add: s1_def ensure_client_swarm_member_def Let_def modify_member_def swarm_sessions_def)
  define s2 where "s2 = join_swarm_set sw ?sid (leave_swarm_set sw ?sid (modify_member ?sid f s1))"
  have "?sid \<in> listed s sw" using assms(1-3) by (simp add: indexed_def assigned_def swarm_id_for_session_def)
  then have set2: "set (swarm_sessions sw s2) = set (swarm_sessions sw s)"
    by (auto simp: s2_def swarm_sessions_join swarm_sessions_leave s1 listed_def modify_member_def[of ?sid f s1] swarm_sessions_def[of sw "s1\<lparr>sv_members := x\<rparr>" for x] swarm_sessions_def[symmetric])
  have c2: "sv_coordinators s2 = sv_coordinators s" by (simp add: s2_def s1)
  have role2: "map_option mb_role (hget (sv_members s2) x) = map_option mb_role (hget (sv_members s) x)" for x
    using role1[of x] by (auto simp: s2_def join_swarm_set_def leave_swarm_set_def modify_member_def hmap_simps f_def option.map_comp comp_def)
  have ne: "swarm_sessions sw s2 \<noteq> []" using \<open>?sid \<in> listed s sw\<close> set2 by (auto simp: listed_def)
  then have small: "smallest_session sw s2 = Some (Min (set (swarm_sessions sw s)))"
    by (cases "swarm_sessions sw s2") (auto simp: smallest_session_def fold_min set2[symmetric])
  have up: "swarm_id_for_session ?sid s1 = Some sw" "swarm_id_for_session ?sid (modify_member ?sid f s1) = Some sw"
    using m1 assms(6) by (simp_all add: swarm_id_for_session_def modify_member_def hmap_simps f_def)
  have move: "move_to_dir env ?sid dir s1 = broadcast_swarm_status env sw (handover_on_move ?sid sw s2)"
    by (simp add: move_to_dir_def Let_def up f_def[symmetric] s2_def[symmetric])
  define s3 where "s3 = handover_on_move ?sid sw s2"
  have c3: "hget (sv_coordinators s3) sw = Some (Min (set (swarm_sessions sw s)))"
    using assms(7) by (simp add: s3_def handover_on_move_def Let_def c2 small kept coordinators_put)
  have core3: "cores s3 = cores s2" by (simp add: s3_def handover_on_move_def Let_def kept split: option.split)
  have core_role: "map_option mb_role (hget (sv_members t) x) = map_option (snd \<circ> snd) (cores t x)" for t x
    by (simp add: cores_def core_def option.map_comp comp_def)
  have m4: "membership (handle_subscribe env q s) = membership s3"
    using assms(5) by (simp add: handle_subscribe_def Let_def s1_def[symmetric] move s3_def[symmetric] membership_simps update_member_status_kept)
  then show ?thesis
    using c3 role2 core3 unfolding core_role by (simp add: membership_def)
qed

text \<open>
  The coordinator of a swarm can make a session of another swarm its coordinator: the target of a role
  assignment is looked up among all members.
\<close>

theorem role_assigned_outside_swarm:
  assumes "swarm_id_for_session req s = Some sw" "hget (sv_coordinators s) sw = Some req"
    and "hget (sv_members s) target = Some m" "mb_swarm_id m \<noteq> Some sw"
    and "fst (with_requests (begin_or_replay (request_of hash ''assign_role'' [sw, target, ''coordinator''] req i tx)) s) \<noteq> None"
    and "s' = handle_comm_assign_role env hash i req target ''coordinator'' tx s"
  shows "hget (sv_coordinators s') sw = Some target \<and> swarm_id_for_session target s' = mb_swarm_id m"
proof -
  obtain st s1 where b: "with_requests (begin_or_replay (request_of hash ''assign_role'' [sw, target, ''coordinator''] req i tx)) s = (Some st, s1)"
    using assms(5) by (metis not_Some_eq prod.collapse)
  then have k: "membership s1 = membership s" "sv_members s1 = sv_members s"
    using membership_requests(1)[of "begin_or_replay (request_of hash ''assign_role'' [sw, target, ''coordinator''] req i tx)" s]
    by (auto simp: with_requests_def split: prod.splits)
  have "may_assign_role req target ''coordinator'' sw s" using assms(2) by (simp add: may_assign_role_def)
  then have s': "membership s' = membership (modify_member req (\<lambda>m. if mb_session_id m \<noteq> target then m\<lparr>mb_role := ''agent''\<rparr> else m)
      ((modify_member target (\<lambda>m. m\<lparr>mb_role := ''coordinator''\<rparr>) s1)\<lparr>sv_coordinators :=
         hput sw target (sv_coordinators (modify_member target (\<lambda>m. m\<lparr>mb_role := ''coordinator''\<rparr>) s1))\<rparr>))"
    using assms(1,3,6) b k by (simp add: handle_comm_assign_role_def Let_def membership_simps)
  have "assigned s1 = assigned s" using k(1) by (rule assigned_cong)
  have "assigned (t\<lparr>sv_coordinators := c\<rparr>) = assigned t" for t c by (simp add: fun_eq_iff assigned_def swarm_id_for_session_def)
  then have "assigned s' = assigned s1" using assigned_cong[OF s'] by (simp add: assigned_modify)
  moreover have "assigned s target = mb_swarm_id m" using assms(3) by (simp add: assigned_def swarm_id_for_session_def)
  ultimately have "assigned s' target = mb_swarm_id m" using \<open>assigned s1 = assigned s\<close> by simp
  then show ?thesis
    using membership_eqD(3)[OF s'] by (simp add: assigned_def[symmetric] hmap_simps)
qed

lemma resume_index:
  assumes "indexed s"
  shows "assigned (resume_session env i old sid c tx s) = assigned (rename_member old sid s)"
    "listed (resume_session env i old sid c tx s) = listed (rename_member old sid s)"
proof -
  define s1 where "s1 = set_connection_session c sid (rename_session_interrupt_queue old sid
      (case hget (sv_agents s) old of None \<Rightarrow> s | Some agent \<Rightarrow> rename_agent old sid agent s))"
  have m: "sv_members s1 = sv_members s" "sv_swarms s1 = sv_swarms s"
    by (simp_all add: s1_def rename_session_interrupt_queue_def rename_agent_def set_connection_session_def split: option.split)
  have r: "sv_members (rename_member old sid s1) = sv_members (rename_member old sid s)"
    "sv_swarms (rename_member old sid s1) = sv_swarms (rename_member old sid s)"
    by (simp_all add: rename_member_def m Let_def split: option.split)
  have a: "assigned t' = assigned t" "listed t' = listed t" if "sv_members t' = sv_members t" "sv_swarms t' = sv_swarms t" for t t'
    using that by (simp_all add: fun_eq_iff assigned_def listed_def swarm_id_for_session_def swarm_sessions_def)
  have c: "assigned (t\<lparr>sv_coordinators := x\<rparr>) = assigned t" "listed (t\<lparr>sv_coordinators := x\<rparr>) = listed t" for t x
    by (rule a; simp)+
  show "assigned (resume_session env i old sid c tx s) = assigned (rename_member old sid s)"
    "listed (resume_session env i old sid c tx s) = listed (rename_member old sid s)"
    using a[OF r]
    by (simp_all add: resume_session_def Let_def s1_def[symmetric] kept update_member_status_def c split: option.split)
qed

text \<open>
  Resuming a session that is still a member of another swarm (one recovered after a restart, or spawned and
  not yet attached) replaces its record but leaves it in the other swarm's set.
\<close>

theorem resumed_session_in_two_swarms:
  assumes "indexed s" "swarm_id_for_session sid s = Some sw" "hget (sv_members s) old = Some m" "mb_swarm_id m \<noteq> Some sw"
    and "s' = resume_session env i old sid c tx s"
  shows "sid \<in> set (swarm_sessions sw s') \<and> swarm_id_for_session sid s' = mb_swarm_id m"
proof -
  have a: "assigned s sid = Some sw" "assigned s old = mb_swarm_id m"
    using assms(2,3) by (simp_all add: assigned_def swarm_id_for_session_def)
  then have "sid \<in> listed s sw" using assms(1) by (simp add: indexed_def)
  then have "sid \<in> listed s' sw" "assigned s' sid = mb_swarm_id m"
    using a assms(3,4) by (simp_all add: assms(5) resume_index[OF assms(1)] rename_index[OF assms(1)])
  then show ?thesis by (simp add: listed_def assigned_def)
qed

text \<open>
  Clearing its session takes the swarm from a coordinator: the swarm's coordinator is still the old
  identifier, which is no longer a member.
\<close>

theorem cleared_coordinator_is_gone:
  assumes "hget (sv_coordinators s) sw = Some sid" "new \<noteq> sid"
    and "s' = handle_clear_session env i sid new q c tx s"
  shows "hget (sv_coordinators s') sw = Some sid \<and> hget (sv_members s') sid = None"
proof -
  define s1 where "s1 = remove_session_interrupt_queue sid (register_session_interrupt_queue new q (rename_agent sid new (False, q) s))"
  have m1: "membership s1 = membership s" by (simp add: s1_def membership_simps)
  have m2: "membership s' = membership (rename_member sid new s1)"
    by (simp add: assms(3) handle_clear_session_def Let_def s1_def[symmetric] membership_simps update_member_status_def split: option.split)
  have "sv_coordinators (rename_member sid new s1) = sv_coordinators s1"
    by (simp add: rename_member_def Let_def split: option.split)
  moreover have "cores (rename_member sid new s1) sid = None"
    using assms(2) by (auto simp: cores_def rename_member_def Let_def hmap_simps split: option.split)
  ultimately have "cores s' sid = None" "sv_coordinators s' = sv_coordinators s"
    using membership_eqD[OF m2] membership_eqD(3)[OF m1] by simp_all
  then show ?thesis using assms(1) by (simp add: cores_def)
qed


section \<open>Witnesses\<close>

definition demo_env :: server_env where
  "demo_env = \<lparr>en_iter = (\<lambda>xs. xs), en_var = (\<lambda>_. None), en_git_common_dir = (\<lambda>_. None), en_session_exists = (\<lambda>_. False),
     en_interrupts_ok = (\<lambda>_. True)\<rparr>"

definition demo_member :: "string \<Rightarrow> string \<Rightarrow> swarm_member" where
  "demo_member sid swarm = (new_member sid (''to '' @ sid) [] 0)\<lparr>mb_swarm_id := Some swarm, mb_working_dir := Some swarm\<rparr>"

text \<open>Sessions \<open>b\<close> (the coordinator) and \<open>a\<close> (headless) in one swarm, \<open>c\<close> in another.\<close>

definition demo_server :: server where
  "demo_server =
     \<lparr>sv_world = demo_world,
      sv_members = [(''a'', (demo_member ''a'' ''/r'')\<lparr>mb_is_headless := True\<rparr>),
        (''b'', (demo_member ''b'' ''/r'')\<lparr>mb_role := ''coordinator''\<rparr>), (''c'', demo_member ''c'' ''/t'')],
      sv_swarms = [(''/r'', [''b'', ''a'']), (''/t'', [''c''])], sv_plans = [], sv_coordinators = [(''/r'', ''b'')],
      sv_context = [], sv_channels = ChannelIndex_default, sv_closed = {}, sv_history = [], sv_event_counter = 0,
      sv_sent_events = [], sv_queues = [], sv_queue_store = (\<lambda>_. []), sv_agents = [(''b'', False, 0), (''c'', False, 1)],
      sv_deferred = [], sv_pending = [], sv_disk = [], sv_touches = [], sv_touched = [], sv_connections = [(''k'', ''b'')]\<rparr>"

lemma demo_server_fields:
  "sv_world demo_server = demo_world"
  "hget (sv_members demo_server) x = (if x = ''a'' then Some ((demo_member ''a'' ''/r'')\<lparr>mb_is_headless := True\<rparr>)
     else if x = ''b'' then Some ((demo_member ''b'' ''/r'')\<lparr>mb_role := ''coordinator''\<rparr>)
     else if x = ''c'' then Some (demo_member ''c'' ''/t'') else None)"
  "swarm_sessions sw demo_server = (if sw = ''/r'' then [''b'', ''a''] else if sw = ''/t'' then [''c''] else [])"
  "hget (sv_coordinators demo_server) sw = (if sw = ''/r'' then Some ''b'' else None)"
  "hget (sv_plans demo_server) sw = None" "sv_disk demo_server = []"
  by (simp_all add: demo_server_def swarm_sessions_def hget_or_def)

lemma demo_indexed: "indexed demo_server"
  by (auto simp: indexed_def listed_def assigned_def swarm_id_for_session_def demo_server_fields demo_member_def)


lemma coordinator_succession_witness:
  "hget (sv_coordinators (remove_session_from_swarm demo_env ''b'' ''/r'' demo_server)) ''/r'' = None"
proof -
  have r: "{x \<in> set (swarm_sessions ''/r'' demo_server) - {''b''}.
      \<exists>m. hget (sv_members demo_server) x = Some m \<and> \<not> mb_is_headless m} = {}"
    by (auto simp: demo_server_fields)
  show ?thesis
    using coordinator_succession[of demo_env "''b''" "''/r''" demo_server "''/t''"]
    unfolding r Let_def by (simp add: demo_server_fields)
qed

definition demo_subscription :: subscription where
  "demo_subscription = \<lparr>sb_id = 1, sb_session_id = ''b'', sb_connection = ''k2'', sb_chan = ''to b'', sb_name = None,
     sb_agent_name = None, sb_agent_dir = Some ''/r'', sb_subscribe_dir = Some ''/r'', sb_enabled = True\<rparr>"

lemma resubscribing_coordinator_replaced_witness:
  "hget (sv_coordinators (handle_subscribe demo_env demo_subscription demo_server)) ''/r'' = Some ''a''"
proof -
  have "hget (sv_coordinators (handle_subscribe demo_env demo_subscription demo_server)) ''/r'' =
      Some (Min (set (swarm_sessions ''/r'' demo_server)))"
    by (rule resubscribing_coordinator_replaced[OF demo_indexed, where
        m = "(demo_member ''b'' ''/r'')\<lparr>mb_role := ''coordinator''\<rparr>" and dir = "''/r''", THEN conjunct1])
      (simp_all add: demo_subscription_def demo_server_fields demo_member_def demo_env_def swarm_id_for_dir_def)
  then show ?thesis by (simp add: demo_server_fields min_def)
qed

lemma role_assigned_outside_swarm_witness:
  "hget (sv_coordinators (handle_comm_assign_role demo_env (\<lambda>_. 0) 1 ''b'' ''c'' ''coordinator'' ''to b'' demo_server)) ''/r'' = Some ''c''"
  by (rule role_assigned_outside_swarm[where m = "demo_member ''c'' ''/t''", THEN conjunct1, OF _ _ _ _ _ refl])
    (simp_all add: swarm_id_for_session_def demo_server_fields demo_member_def with_requests_def begin_or_replay_def
      load_state_def load_json_state_def demo_world_def runtime_default_def mark_active_if_new_def with_runtime_def
      ensure_pending_state_def Let_def new_member_def)

lemma resumed_session_in_two_swarms_witness:
  "''a'' \<in> set (swarm_sessions ''/r'' (resume_session demo_env 1 ''c'' ''a'' ''k'' ''to c'' demo_server))"
  by (rule resumed_session_in_two_swarms[where m = "demo_member ''c'' ''/t''", THEN conjunct1, OF demo_indexed _ _ _ refl])
    (simp_all add: swarm_id_for_session_def demo_server_fields demo_member_def)

lemma cleared_coordinator_is_gone_witness:
  "hget (sv_coordinators (handle_clear_session demo_env 1 ''b'' ''d'' 2 ''k'' ''to b'' demo_server)) ''/r'' = Some ''b''"
  by (rule cleared_coordinator_is_gone[THEN conjunct1, OF _ _ refl]) (simp_all add: demo_server_fields)

lemma status_never_lost_witness:
  "\<exists>s. status_run demo_env ''/r'' demo_server s Sleeping True"
proof -
  have "swarm_status_debounce_member_threshold demo_env = 2"
    by (simp add: swarm_status_debounce_member_threshold_def configured_positive_u64_def demo_env_def)
  then have r: "status_run demo_env ''/r'' demo_server (broadcast_swarm_status demo_env ''/r'' demo_server)
      (if map_option pb_scheduled (hget (sv_pending demo_server) ''/r'') = Some True then No_Task else Sleeping) True"
    by (intro status_run.request_later[OF status_run.start]) (simp_all add: demo_server_fields)
  have p: "hget (sv_pending demo_server) ''/r'' = None" by (simp add: demo_server_def)
  from status_never_lost[OF r p] show ?thesis using r p by auto
qed

end
