(* ===== verification/Swarm_Recovery.thy ===== *)
theory Swarm_Recovery
  imports Swarm_Membership
begin

text \<open>
  What a restarted server knows of its swarms (\<^verbatim>\<open>src/src/server/swarm_persistence.rs\<close>): the round trip of
  plans, coordinators and members through the state files, and where it fails.
\<close>

section \<open>Specification\<close>

text \<open>A member after a restart: nobody is connected, and what was running or headless has crashed.\<close>

definition recovered_member :: "nat \<Rightarrow> swarm_member \<Rightarrow> swarm_member" where
  "recovered_member now m =
     (let crashed = (if mb_status m = ''running'' then Some ''recovered after reload while running''
                     else if mb_is_headless m \<and> mb_status m \<notin> {''completed'', ''failed'', ''stopped''}
                     then Some ''headless session did not survive reload'' else None)
      in m\<lparr>mb_event_tx := dead_chan, mb_event_txs := [],
           mb_status := (if crashed = None then mb_status m else ''crashed''),
           mb_detail := (case crashed of None \<Rightarrow> mb_detail m | Some note \<Rightarrow> append_recovery_detail (mb_detail m) note),
           mb_joined_at := now, mb_last_status_change := now\<rparr>)"

text \<open>A plan after a restart at a time: running tasks are stale since then.\<close>

definition recovers_plan :: "u64 \<Rightarrow> versioned_plan \<Rightarrow> versioned_plan \<Rightarrow> bool" where
  "recovers_plan t p p' \<longleftrightarrow>
     vp_items p' = map (\<lambda>it. if pi_status it = ''running'' then it\<lparr>pi_status := ''running_stale''\<rparr> else it) (vp_items p) \<and>
     vp_version p' = vp_version p \<and> vp_participants p' = vp_participants p \<and>
     (\<forall>i. hget (vp_task_progress p') i =
        (if \<exists>it \<in> set (vp_items p). pi_id it = i \<and> pi_status it = ''running''
         then Some (mark_stale_since t (hget_or progress_default (vp_task_progress p) i))
         else hget (vp_task_progress p) i))"

section \<open>Lemmas\<close>

lemma SwarmRole_names: "SwarmRole_as_str (SwarmRole_from v) = v"
  by (simp add: SwarmRole_from_def)

lemma SwarmLifecycleStatus_names: "SwarmLifecycleStatus_as_str (SwarmLifecycleStatus_from v) = v"
  by (simp add: SwarmLifecycleStatus_from_def)

lemma status_from_iff:
  "SwarmLifecycleStatus_from v = swarm_lifecycle_status.Running \<longleftrightarrow> v = ''running''"
  "SwarmLifecycleStatus_from v = swarm_lifecycle_status.Completed \<longleftrightarrow> v = ''completed''"
  "SwarmLifecycleStatus_from v = swarm_lifecycle_status.Failed \<longleftrightarrow> v = ''failed''"
  "SwarmLifecycleStatus_from v = swarm_lifecycle_status.Stopped \<longleftrightarrow> v = ''stopped''"
  by (simp_all add: SwarmLifecycleStatus_from_def)

lemma from_persisted_durable: "from_persisted_member now (durable_record m) = recovered_member now m"
  by (cases m)
    (simp add: from_persisted_member_def durable_record_def from_record_def recover_member_status_def recovered_member_def
      status_from_iff SwarmRole_names SwarmLifecycleStatus_names)

lemma mark_stale_idem [simp]: "mark_stale_since t (mark_stale_since t p) = mark_stale_since t p"
  by (simp add: mark_stale_since_def split: option.split)

lemma stale_fold:
  "hget (fold (\<lambda>it. if pi_status it = ''running'' then hentry progress_default (pi_id it) (mark_stale_since t) else id) its pr) i =
     (if \<exists>it \<in> set its. pi_id it = i \<and> pi_status it = ''running''
      then Some (mark_stale_since t (hget_or progress_default pr i)) else hget pr i)"
  by (induction its arbitrary: pr) (auto simp: hmap_simps)

lemma recovers_persisted:
  "finite (vp_participants p) \<Longrightarrow> recovers_plan t p (from_persisted_plan (to_persisted_plan p) t)"
  by (simp add: recovers_plan_def from_persisted_plan_def to_persisted_plan_def stale_fold)

subsection \<open>Loading\<close>

lemma load_members_fields [simp]:
  "ld_plans (fold (load_member now) rs l) = ld_plans l" "ld_coordinators (fold (load_member now) rs l) = ld_coordinators l"
proof -
  have one: "ld_plans (load_member now r l) = ld_plans l" "ld_coordinators (load_member now r l) = ld_coordinators l" for r l
    by (simp_all add: load_member_def split: option.split)
  show "ld_plans (fold (load_member now) rs l) = ld_plans l" "ld_coordinators (fold (load_member now) rs l) = ld_coordinators l"
    by (induction rs arbitrary: l) (simp_all add: one)
qed

lemma load_members_other:
  "\<forall>r \<in> set rs. sm_session_id r \<noteq> sid \<Longrightarrow> hget (ld_members (fold (load_member now) rs l)) sid = hget (ld_members l) sid"
  by (induction rs arbitrary: l) (auto simp: load_member_def hmap_simps split: option.split)

lemma load_members_set:
  "set (hget_or [] (ld_swarms (fold (load_member now) rs l)) sw) =
     set (hget_or [] (ld_swarms l) sw) \<union> sm_session_id ` {r \<in> set rs. sm_swarm_id r = Some sw}"
  by (induction rs arbitrary: l) (auto simp: load_member_def hmap_simps split: option.split)

lemma load_members_one:
  assumes "r \<in> set rs" "sm_swarm_id r \<noteq> None" "distinct (map sm_session_id rs)"
  shows "hget (ld_members (fold (load_member now) rs l)) (sm_session_id r) = Some (from_persisted_member now r)"
proof -
  obtain as bs where rs: "rs = as @ r # bs" using assms(1) by (metis split_list)
  have "\<forall>x \<in> set bs. sm_session_id x \<noteq> sm_session_id r" using assms(3) by (simp add: rs image_iff) metis
  then show ?thesis
    using assms(2) by (auto simp: rs load_members_other load_member_def hmap_simps)
qed

abbreviation load_files :: "nat \<Rightarrow> (string \<times> persisted_swarm_state) list \<Rightarrow> loaded_state \<Rightarrow> loaded_state" where
  "load_files now \<equiv> fold (\<lambda>(_, st). load_file now st)"

lemma load_file_other:
  "ps_swarm_id st \<noteq> sw \<Longrightarrow> hget (ld_plans (load_file now st l)) sw = hget (ld_plans l) sw"
  "ps_swarm_id st \<noteq> sw \<Longrightarrow> hget (ld_coordinators (load_file now st l)) sw = hget (ld_coordinators l) sw"
  by (auto simp: load_file_def hmap_simps split: option.split)

lemma load_files_other:
  assumes "\<forall>(k, st) \<in> set d. ps_swarm_id st \<noteq> sw"
  shows "hget (ld_plans (load_files now d l)) sw = hget (ld_plans l) sw \<and>
     hget (ld_coordinators (load_files now d l)) sw = hget (ld_coordinators l) sw"
  using assms by (induction d arbitrary: l) (auto simp: load_file_other)

lemma load_files_members_other:
  assumes "\<forall>(k, st) \<in> set d. \<forall>r \<in> set (ps_members st). sm_session_id r \<noteq> sid"
  shows "hget (ld_members (load_files now d l)) sid = hget (ld_members l) sid"
  using assms by (induction d arbitrary: l) (auto simp: load_file_def load_members_other)

lemma load_files_swarms:
  "set (hget_or [] (ld_swarms (load_files now d l)) sw) =
     set (hget_or [] (ld_swarms l) sw) \<union>
     {sm_session_id r | k st r. (k, st) \<in> set d \<and> r \<in> set (ps_members st) \<and> sm_swarm_id r = Some sw}"
proof (induction d arbitrary: l)
  case (Cons x d)
  obtain k st where x: "x = (k, st)" by fastforce
  have "set (hget_or [] (ld_swarms (load_file now st l)) sw) =
      set (hget_or [] (ld_swarms l) sw) \<union> sm_session_id ` {r \<in> set (ps_members st). sm_swarm_id r = Some sw}"
    by (simp add: load_file_def load_members_set)
  then show ?case by (auto simp: Cons.IH x)
qed simp

subsection \<open>Storing\<close>

definition file_of :: "string \<Rightarrow> server \<Rightarrow> persisted_swarm_state option" where
  "file_of sw s =
     (let r = load_runtime sw s
      in if has_any_state r
         then Some \<lparr>ps_swarm_id = sw, ps_plan = map_option to_persisted_plan (sr_plan r),
                    ps_coordinator_session_id = sr_coordinator r,
                    ps_members = sort_key sm_session_id (map durable_record (sr_members r)), ps_updated_at_unix_ms = now_unix_ms s\<rparr>
         else None)"

lemma persist_eq:
  assumes "rw_writes_ok (sv_world s)"
  shows "persist_swarm_state_for sw s =
     s\<lparr>sv_disk := (case file_of sw s of None \<Rightarrow> hdel (state_path sw) (sv_disk s) | Some st \<Rightarrow> hput (state_path sw) st (sv_disk s))\<rparr>"
  using assms
  by (simp add: persist_swarm_state_for_def persist_swarm_state_def file_of_def Let_def has_any_state_def remove_swarm_state_def)

definition persist_all :: "string list \<Rightarrow> server \<Rightarrow> server" where
  "persist_all sws s = fold persist_swarm_state_for sws s"

lemma file_of_disk [simp]: "file_of sw (s\<lparr>sv_disk := d\<rparr>) = file_of sw s"
  by (simp add: file_of_def load_runtime_def now_unix_ms_def swarm_sessions_def Let_def)

lemma persist_all_disk:
  assumes "rw_writes_ok (sv_world s)" "inj_on state_path (set sws)" "distinct sws"
  shows "hget (sv_disk (persist_all sws s)) p =
     (if p \<in> state_path ` set sws then file_of (the_inv_into (set sws) state_path p) s else hget (sv_disk s) p)"
  using assms
proof (induction sws arbitrary: s)
  case Nil
  then show ?case by (simp add: persist_all_def)
next
  case (Cons sw sws)
  let ?d = "case file_of sw s of None \<Rightarrow> hdel (state_path sw) (sv_disk s) | Some st \<Rightarrow> hput (state_path sw) st (sv_disk s)"
  have inj: "inj_on state_path (set sws)" using Cons.prems(2) by simp
  have notin: "state_path sw \<notin> state_path ` set sws" using Cons.prems(2,3) by auto
  have step: "hget (sv_disk (persist_all (sw # sws) s)) p =
      (if p \<in> state_path ` set sws then file_of (the_inv_into (set sws) state_path p) s else hget ?d p)"
    using Cons.IH[of "s\<lparr>sv_disk := ?d\<rparr>"] Cons.prems inj by (simp add: persist_all_def persist_eq)
  have d: "hget ?d p = (if p = state_path sw then file_of sw s else hget (sv_disk s) p)"
    by (simp add: hmap_simps split: option.split)
  show ?case
  proof (cases "p \<in> state_path ` set sws")
    case True
    then obtain x where x: "x \<in> set sws" "p = state_path x" by auto
    have "the_inv_into (set sws) state_path p = x" "the_inv_into (set (sw # sws)) state_path p = x"
      using x Cons.prems(2) inj by (auto intro!: the_inv_into_f_eq)
    then show ?thesis using True step by simp
  next
    case False
    then show ?thesis
      using step d Cons.prems(2) by (auto simp: the_inv_into_f_eq)
  qed
qed

lemma persist_distinct:
  assumes "rw_writes_ok (sv_world s)" "distinct (map fst (sv_disk s))"
  shows "distinct (map fst (sv_disk (persist_all sws s)))"
  using assms
proof (induction sws arbitrary: s)
  case (Cons sw sws)
  let ?d = "case file_of sw s of None \<Rightarrow> hdel (state_path sw) (sv_disk s) | Some st \<Rightarrow> hput (state_path sw) st (sv_disk s)"
  have "distinct (map fst ?d)" using Cons.prems(2) by (simp add: distinct_update distinct_delete split: option.split)
  then show ?case
    using Cons.IH[of "s\<lparr>sv_disk := ?d\<rparr>"] Cons.prems(1) by (simp add: persist_all_def persist_eq)
qed (simp add: persist_all_def)

text \<open>Each member is stored under its session identifier.\<close>

definition keyed_members :: "server \<Rightarrow> bool" where
  "keyed_members s \<longleftrightarrow> distinct (map fst (sv_members s)) \<and> (\<forall>(k, m) \<in> set (sv_members s). mb_session_id m = k)"

definition member_records :: "string \<Rightarrow> server \<Rightarrow> swarm_member_record set" where
  "member_records sw s = {durable_record m | sid m. hget (sv_members s) sid = Some m \<and> mb_swarm_id m = Some sw}"

lemma durable_fields [simp]:
  "sm_session_id (durable_record m) = mb_session_id m" "sm_swarm_id (durable_record m) = mb_swarm_id m"
  by (simp_all add: durable_record_def)

lemma distinct_map_sort: "distinct (map f (sort_key g xs)) = distinct (map f xs)"
  by (rule mset_eq_imp_distinct_iff) simp

lemma file_members:
  assumes "keyed_members s" "file_of sw s = Some st"
  shows "set (ps_members st) = member_records sw s" "distinct (map sm_session_id (ps_members st))" "ps_swarm_id st = sw"
proof -
  let ?ms = "filter (\<lambda>m. mb_swarm_id m = Some sw) (map snd (sv_members s))"
  have st: "ps_members st = sort_key sm_session_id (map durable_record (sort_key mb_session_id ?ms))" "ps_swarm_id st = sw"
    using assms(2) by (auto simp: file_of_def load_runtime_def Let_def split: if_splits)
  show "ps_swarm_id st = sw" by (rule st(2))
  have d: "distinct (map fst (sv_members s))" and k: "\<And>k m. (k, m) \<in> set (sv_members s) \<Longrightarrow> mb_session_id m = k"
    using assms(1) by (auto simp: keyed_members_def)
  have "m \<in> set ?ms \<longleftrightarrow> (\<exists>sid. hget (sv_members s) sid = Some m \<and> mb_swarm_id m = Some sw)" for m
    using d by (auto simp: map_of_eq_Some_iff intro: rev_image_eqI)
  then have ms: "set ?ms = {m. \<exists>sid. hget (sv_members s) sid = Some m \<and> mb_swarm_id m = Some sw}" by blast
  have "set (ps_members st) = durable_record ` set ?ms" unfolding st(1) by simp
  then show "set (ps_members st) = member_records sw s" unfolding ms member_records_def by blast
  have "map mb_session_id (map snd (sv_members s)) = map fst (sv_members s)" using k by auto
  with d have "distinct (map mb_session_id (map snd (sv_members s)))" by metis
  then have "distinct (map mb_session_id ?ms)" by (rule distinct_map_filter)
  then have "distinct (map sm_session_id (map durable_record (sort_key mb_session_id ?ms)))"
    by (simp add: comp_def distinct_map_sort)
  then show "distinct (map sm_session_id (ps_members st))" unfolding st(1) distinct_map_sort .
qed

lemma member_files_disjoint:
  assumes "keyed_members s" "r \<in> member_records sw s" "r' \<in> member_records sw' s" "sm_session_id r = sm_session_id r'"
  shows "sw' = sw"
proof -
  have k: "mb_session_id m = k" if "hget (sv_members s) k = Some m" for k m
    using assms(1) map_of_SomeD[OF that] by (auto simp: keyed_members_def)
  obtain x m y m' where "hget (sv_members s) x = Some m" "mb_swarm_id m = Some sw" "r = durable_record m"
    "hget (sv_members s) y = Some m'" "mb_swarm_id m' = Some sw'" "r' = durable_record m'"
    using assms(2,3) unfolding member_records_def by blast
  then show ?thesis using assms(4) k[of x m] k[of y m'] by simp
qed

lemma member_has_file:
  assumes "hget (sv_members s) sid = Some m" "mb_swarm_id m = Some sw"
  shows "file_of sw s \<noteq> None"
proof -
  have "m \<in> set (filter (\<lambda>m. mb_swarm_id m = Some sw) (map snd (sv_members s)))"
    using assms map_of_SomeD[OF assms(1)] by force
  then have "sort_key mb_session_id (filter (\<lambda>m. mb_swarm_id m = Some sw) (map snd (sv_members s))) \<noteq> []"
    by (metis empty_iff empty_set set_sort)
  then show ?thesis by (simp add: file_of_def Let_def has_any_state_def load_runtime_def)
qed


subsection \<open>What is not stored\<close>

definition stored_view :: "server \<Rightarrow> (string, persisted_swarm_state) hmap \<times> (string, versioned_plan) hmap" where
  "stored_view s = (sv_disk s, sv_plans s)"

named_theorems stored_simps \<open>operations that keep the files and the plans\<close>

lemma stored_cong: "sv_disk s' = sv_disk s \<Longrightarrow> sv_plans s' = sv_plans s \<Longrightarrow> stored_view s' = stored_view s"
  by (simp add: stored_view_def)

lemma stored_fields [stored_simps]:
  "stored_view (server_send tx e s) = stored_view s" "stored_view (modify_member sid f s) = stored_view s"
  "stored_view (record_swarm_event sid n ow ev s) = stored_view s" "stored_view (leave_swarm_set sw sid s) = stored_view s"
  "stored_view (put_coordinator sw c s) = stored_view s" "stored_view (s\<lparr>sv_members := ms\<rparr>) = stored_view s"
  by (rule stored_cong; simp add: server_send_def on_world_def modify_member_def record_swarm_event_def Let_def leave_swarm_set_def
      put_coordinator_def)+

interpretation stored: kept_by_sending stored_view
  by unfold_locales (simp_all add: stored_fields)

lemmas stored_sends [stored_simps] = stored.sends stored.fanout stored.status_now stored.announcement

lemma stored_status [stored_simps]: "stored_view (broadcast_swarm_status env sw s) = stored_view s"
  by (auto simp: broadcast_swarm_status_def Let_def stored.status_now intro!: stored_cong split: option.split)

lemma no_plan_modify: "hget (sv_plans s) sw = None \<Longrightarrow> modify_plan sw f s = s"
  by (simp add: modify_plan_def hmodify_def)

text \<open>Without a plan, a departure changes the file of the swarm only if nothing of the swarm is left.\<close>

lemma departure_keeps_file:
  assumes "hget (sv_plans s) sw = None" "assigned s x = Some sw" "x \<noteq> sid"
  shows "sv_disk (remove_session_from_swarm env sid sw s) = sv_disk s"
proof -
  define s1 where "s1 = leave_swarm_set sw sid s"
  have s1: "stored_view s1 = stored_view s" "assigned s1 = assigned s" by (simp_all add: s1_def stored_simps)
  define s2 where "s2 = (if hget (sv_coordinators s1) sw = Some sid then replace_coordinator sw s1 else s1)"
  have np: "hget (sv_plans t) sw = None" if "stored_view t = stored_view s" for t
    using that assms(1) by (simp add: stored_view_def)
  have s2: "stored_view s2 = stored_view s"
  proof -
    have "stored_view (replace_coordinator sw s1) = stored_view s"
      using s1(1)
      by (auto simp: replace_coordinator_def Let_def stored_simps no_plan_modify[OF np] split: option.split)
    then show ?thesis using s1 by (simp add: s2_def)
  qed
  define s3 where "s3 = modify_member sid (\<lambda>m. m\<lparr>mb_role := ''agent''\<rparr>) s2"
  have s3: "stored_view s3 = stored_view s" "assigned s3 = assigned s"
    using s2 s1 by (simp_all add: s3_def stored_simps assigned_modify s2_def replace_coordinator_index)
  have "hget (sv_members s3) x \<noteq> None" using assms(2) s3(2) member_assigned[of s3 x] by auto
  then obtain m where m: "hget (sv_members s3) x = Some m" by blast
  have "assigned s3 x = Some sw" using assms(2) s3(2) by simp
  then have "mb_swarm_id m = Some sw" using m by (simp add: assigned_def swarm_id_for_session_def)
  then have "file_of sw s3 \<noteq> None" by (rule member_has_file[OF m])
  then have "remove_persisted_swarm_state_for sw s3 = s3"
    by (auto simp: file_of_def Let_def remove_persisted_swarm_state_for_def split: if_splits)
  then have "remove_session_from_swarm env sid sw s = broadcast_swarm_status env sw s3"
    unfolding remove_session_from_swarm_def Let_def remove_plan_participant_def no_plan_modify[OF assms(1)]
      s1_def[symmetric] s2_def[symmetric] s3_def[symmetric]
    using np[OF s3(1)] by simp
  then have "stored_view (remove_session_from_swarm env sid sw s) = stored_view s" using s3(1) by (simp add: stored_simps)
  then show ?thesis by (simp add: stored_view_def)
qed

lemma load_keeps_members:
  "hget (ld_members l) sid \<noteq> None \<Longrightarrow> hget (ld_members (load_files now d l)) sid \<noteq> None"
proof (induction d arbitrary: l)
  case (Cons x d)
  obtain k st where x: "x = (k, st)" by fastforce
  have r: "hget (ld_members (fold (load_member now) rs l')) sid \<noteq> None" if "hget (ld_members l') sid \<noteq> None" for rs l'
    using that by (induction rs arbitrary: l') (auto simp: load_member_def hmap_simps split: option.split)
  have "hget (ld_members (load_file now st l)) sid \<noteq> None" using Cons.prems by (simp add: load_file_def r)
  then show ?case by (simp add: x Cons.IH)
qed simp

text \<open>
  C36: A session that leaves a swarm without a plan while other members stay is still in the swarm's file, and a
  restarted server lists it as a member again.
\<close>

theorem departed_member_returns:
  assumes "rw_writes_ok (sv_world s)" "keyed_members s" "distinct (map fst (sv_disk s))"
    and "hget (sv_members s) sid = Some m" "mb_swarm_id m = Some sw" "hget (sv_plans s) sw = None"
    and "swarm_id_for_session other s = Some sw" "other \<noteq> sid"
    and "l = load_runtime_state now (sv_disk (drop_member_of_swarm env sid (persist_swarm_state_for sw s)))"
  shows "sid \<in> set (hget_or [] (ld_swarms l) sw) \<and> hget (ld_members l) sid \<noteq> None"
proof -
  define s1 where "s1 = persist_swarm_state_for sw s"
  obtain st where st: "file_of sw s = Some st" using member_has_file[OF assms(4,5)] by blast
  have s1: "s1 = s\<lparr>sv_disk := hput (state_path sw) st (sv_disk s)\<rparr>" by (simp add: s1_def persist_eq[OF assms(1)] st)
  define s2 where "s2 = record_swarm_event sid (friendly_name_for_session sid s1) (Some sw) (MemberChange ''left'')
      (s1\<lparr>sv_members := hdel sid (sv_members s1)\<rparr>)"
  have v2: "stored_view s2 = stored_view s1" by (simp add: s2_def stored_simps)
  have "assigned s2 other = Some sw"
    using assms(7,8) by (simp add: s2_def kept s1 assigned_def swarm_id_for_session_def hmap_simps)
  moreover have "hget (sv_plans s2) sw = None" using v2 assms(6) by (simp add: stored_view_def s1)
  ultimately have "sv_disk (remove_session_from_swarm env sid sw s2) = sv_disk s2"
    using assms(8) by (intro departure_keeps_file) auto
  moreover have "drop_member_of_swarm env sid s1 = remove_session_from_swarm env sid sw s2"
    using assms(4,5) by (simp add: drop_member_of_swarm_def Let_def s2_def s1 swarm_id_for_session_def)
  ultimately have disk: "sv_disk (drop_member_of_swarm env sid s1) = hput (state_path sw) st (sv_disk s)"
    using v2 by (simp add: stored_view_def s1)
  have r: "durable_record m \<in> set (ps_members st)"
    using file_members(1)[OF assms(2) st] assms(4,5) by (auto simp: member_records_def)
  have sid: "mb_session_id m = sid"
    using assms(2) map_of_SomeD[OF assms(4)] by (auto simp: keyed_members_def)
  define d where "d = hput (state_path sw) st (sv_disk s)"
  have mem: "(state_path sw, st) \<in> set d"
    using assms(3) by (auto simp: d_def distinct_update map_of_eq_Some_iff[symmetric] hmap_simps)
  have l: "l = load_runtime_state now d" using assms(9) disk by (simp add: s1_def[symmetric] d_def)
  have "sid \<in> set (hget_or [] (ld_swarms l) sw)"
    unfolding l load_runtime_state_def load_files_swarms
    by (intro UnI2 CollectI exI[of _ "state_path sw"] exI[of _ st] exI[of _ "durable_record m"])
      (simp add: mem r sid assms(5))
  moreover obtain as bs where d: "d = as @ (state_path sw, st) # bs" using mem by (metis split_list)
  have "hget (ld_members (load_file now st l')) sid \<noteq> None" for l'
    using load_members_one[OF r _ file_members(2)[OF assms(2) st]] sid assms(5) by (simp add: load_file_def)
  then have "hget (ld_members l) sid \<noteq> None"
    unfolding l load_runtime_state_def d by (simp add: load_keeps_members)
  ultimately show ?thesis by blast
qed

text \<open>
  The name of a state file keeps only letters, digits, hyphens and underscores of the swarm's directory:
  of two swarms with the same name only the one stored last survives a restart.
\<close>

theorem colliding_swarm_is_lost:
  assumes "rw_writes_ok (sv_world s)" "sv_disk s = []" "state_path sw = state_path sw'" "sw \<noteq> sw'" "keyed_members s"
    and "swarm_id_for_session x s = Some sw'"
    and "l = load_runtime_state now (sv_disk (persist_all [sw, sw'] s))"
  shows "hget (ld_coordinators l) sw = None \<and> hget (ld_plans l) sw = None \<and> hget_or [] (ld_swarms l) sw = []"
proof -
  obtain m where m: "hget (sv_members s) x = Some m" "mb_swarm_id m = Some sw'"
    using assms(6) by (auto simp: swarm_id_for_session_def bind_eq_Some_conv)
  obtain st where st: "file_of sw' s = Some st" using member_has_file[OF m] by blast
  have "sv_disk (persist_all [sw, sw'] s) = [(state_path sw', st)]"
    using assms(1-3) st by (simp add: persist_all_def persist_eq split: option.split)
  then have l: "l = load_files now [(state_path sw', st)] \<lparr>ld_plans = [], ld_coordinators = [], ld_members = [], ld_swarms = []\<rparr>"
    using assms(7) by (simp add: load_runtime_state_def)
  have "set (hget_or [] (ld_swarms l) sw) = {}"
    unfolding l load_files_swarms using file_members(1)[OF assms(5) st] assms(4) by (auto simp: hget_or_def member_records_def)
  moreover have "ps_swarm_id st \<noteq> sw" using file_members(3)[OF assms(5) st] assms(4) by simp
  ultimately show ?thesis by (simp add: l load_file_other)
qed

section \<open>Witnesses\<close>

lemma demo_keyed: "keyed_members demo_server"
  by (simp add: keyed_members_def demo_server_def demo_member_def new_member_def)

lemma demo_world_ok: "rw_writes_ok (sv_world demo_server)"
  by (simp add: demo_server_fields demo_world_def)


lemma departed_member_returns_witness:
  "''a'' \<in> set (hget_or [] (ld_swarms (load_runtime_state 9
     (sv_disk (drop_member_of_swarm demo_env ''a'' (persist_swarm_state_for ''/r'' demo_server))))) ''/r'')"
  by (rule departed_member_returns[where s = demo_server and m = "(demo_member ''a'' ''/r'')\<lparr>mb_is_headless := True\<rparr>" and other = "''b''",
        THEN conjunct1, OF demo_world_ok demo_keyed _ _ _ _ _ _ refl])
    (simp_all add: demo_server_fields demo_member_def swarm_id_for_session_def)

lemma colliding_swarm_is_lost_witness:
  "hget (ld_coordinators (load_runtime_state 9 (sv_disk (persist_all [''.t'', ''/t''] demo_server)))) ''.t'' = None"
  by (rule colliding_swarm_is_lost[where s = demo_server and sw' = "''/t''" and x = "''c''",
        THEN conjunct1, OF demo_world_ok demo_server_fields(6) _ _ demo_keyed _ refl])
    (simp_all add: demo_server_fields demo_member_def swarm_id_for_session_def state_path_def sanitize_session_id_def
      utf8_cont_def is_ascii_alphanumeric_def)

end
