(* ===== verification/Swarm_Proposals.thy ===== *)
theory Swarm_Proposals
  imports Swarm_Recovery
begin

text \<open>
  Plan proposals, shared context, channels and messages between the sessions of a swarm
  (\<^verbatim>\<open>src/src/server/comm_plan.rs\<close>, \<^verbatim>\<open>client_comm_context.rs\<close>, \<^verbatim>\<open>client_comm_channels.rs\<close>,
  \<^verbatim>\<open>client_comm_message.rs\<close>).

  The JSON text of a list of plan items is made and read by the functions of a \<^verbatim>\<open>plan_json\<close>. Waking an idle
  session with a message starts a turn of its agent, which is only recorded.
\<close>

section \<open>Definitions\<close>

record plan_json =
  pj_print :: "plan_item list \<Rightarrow> string"
  pj_parse :: "string \<Rightarrow> plan_item list option"

definition proposal_key :: "string \<Rightarrow> string" where
  "proposal_key sid = ''plan_proposal:'' @ sid"

definition context_entry_of :: "string \<Rightarrow> string \<Rightarrow> server \<Rightarrow> shared_context option" where
  "context_entry_of swarm_id key s = Option.bind (hget (sv_context s) swarm_id) (\<lambda>c. hget c key)"

definition put_context :: "string \<Rightarrow> shared_context \<Rightarrow> server \<Rightarrow> server" where
  "put_context swarm_id c s = s\<lparr>sv_context := hentry [] swarm_id (hput (sc_key c) c) (sv_context s)\<rparr>"

definition remove_context :: "string \<Rightarrow> string \<Rightarrow> server \<Rightarrow> server" where
  "remove_context swarm_id key s = s\<lparr>sv_context := hmodify swarm_id (hdel key) (sv_context s)\<rparr>"

definition owners_of :: "plan_item list \<Rightarrow> string set" where
  "owners_of items = set (List.map_filter pi_assigned_to items)"

definition notice :: "string \<Rightarrow> string option \<Rightarrow> string \<Rightarrow> string \<Rightarrow> server_event" where
  "notice from_session from_name scope msg = Notification from_session from_name (MessageNotification (Some scope) None) msg"

definition entry_plan :: "string \<Rightarrow> (versioned_plan \<Rightarrow> versioned_plan) \<Rightarrow> server \<Rightarrow> server" where
  "entry_plan swarm_id f s = s\<lparr>sv_plans := hentry VersionedPlan_new swarm_id f (sv_plans s)\<rparr>"

definition plan_participants :: "server_env \<Rightarrow> string \<Rightarrow> server \<Rightarrow> string list" where
  "plan_participants env swarm_id s =
     (case hget (sv_plans s) swarm_id of None \<Rightarrow> [] | Some p \<Rightarrow> en_iter env (sorted_list_of_set (vp_participants p)))"

subsection \<open>Proposing\<close>

definition update_plan_directly ::
  "server_env \<Rightarrow> u64 \<Rightarrow> string \<Rightarrow> string \<Rightarrow> string option \<Rightarrow> string \<Rightarrow> plan_item list \<Rightarrow> chan \<Rightarrow> server \<Rightarrow> server" where
  "update_plan_directly env i req swarm_id from_name from_label items tx s =
     (let s = entry_plan swarm_id (\<lambda>p. p\<lparr>vp_participants := insert req (vp_participants p) \<union> owners_of items,
                vp_items := items, vp_version := vp_version p + 1\<rparr>) s;
          version = (case hget (sv_plans s) swarm_id of None \<Rightarrow> 0 | Some p \<Rightarrow> vp_version p);
          msg = ''Plan updated by '' @ from_label @ '' ('' @ show_nat (length items) @ '' items, v'' @ show_nat (unat version) @ '')'';
          s = fold (\<lambda>sid s. interrupt_system env sid msg (send_primary sid (notice req from_name ''plan'' msg) s))
                (filter (\<lambda>sid. sid \<noteq> req) (plan_participants env swarm_id s)) s;
          s = persist_swarm_state_for swarm_id s;
          s = broadcast_swarm_plan env swarm_id (Some ''coordinator_direct_update'') s;
          s = record_swarm_event req from_name (Some swarm_id) (PlanUpdate swarm_id (length items)) s
      in server_send tx (EventDone i) s)"

definition handle_comm_propose_plan ::
  "server_env \<Rightarrow> plan_json \<Rightarrow> u64 \<Rightarrow> string \<Rightarrow> plan_item list \<Rightarrow> chan \<Rightarrow> server \<Rightarrow> server" where
  "handle_comm_propose_plan env js i req items tx s =
     (case swarm_id_for_session req s of
        None \<Rightarrow> refuse i tx ''Not in a swarm.'' s
      | Some swarm_id \<Rightarrow>
          let from_name = friendly_name_for_session req s;
              from_label = (case from_name of Some n \<Rightarrow> n | None \<Rightarrow> take_chars 8 req)
          in case hget (sv_coordinators s) swarm_id of
               None \<Rightarrow> refuse i tx ''No coordinator for this swarm.'' s
             | Some coordinator \<Rightarrow>
                 if coordinator = req then update_plan_directly env i req swarm_id from_name from_label items tx s
                 else
                   let key = proposal_key req;
                       s = put_context swarm_id \<lparr>sc_key = key, sc_value = pj_print js items, sc_from_session = req,
                             sc_from_name = from_name, sc_created_at = now_of s, sc_updated_at = now_of s\<rparr> s;
                       s = record_swarm_event req from_name (Some swarm_id) (PlanProposal swarm_id req (length items)) s;
                       summary = summarize_plan_items items 3;
                       msg = ''Plan proposal from '' @ from_label @ '' ('' @ show_nat (length items) @ '' items). Summary: '' @
                             summary @ ''. Review with communicate read key '' @ apos @ key @ apos @ ''.'';
                       s = send_primary coordinator (notice req from_name ''plan_proposal'' msg) s;
                       s = send_primary coordinator (SwarmPlanProposal swarm_id req from_name items summary key) s;
                       s = interrupt_system env coordinator msg s;
                       confirmation = ''Plan proposal sent to coordinator (not yet applied).'';
                       s = send_primary req (notice req from_name ''plan_proposal'' confirmation) s;
                       s = interrupt_system env req confirmation s
                   in server_send tx (EventDone i) s)"

subsection \<open>Deciding\<close>

definition require_coordinator_swarm :: "u64 \<Rightarrow> string \<Rightarrow> string \<Rightarrow> chan \<Rightarrow> server \<Rightarrow> string option \<times> server" where
  "require_coordinator_swarm i req permission_error tx s =
     (case swarm_id_for_session req s of
        Some sw \<Rightarrow> if hget (sv_coordinators s) sw = Some req then (Some sw, s) else (None, refuse i tx permission_error s)
      | None \<Rightarrow> (None, refuse i tx permission_error s))"

definition apply_proposal :: "server_env \<Rightarrow> string \<Rightarrow> string \<Rightarrow> string \<Rightarrow> plan_item list \<Rightarrow> server \<Rightarrow> server" where
  "apply_proposal env req proposer swarm_id items s =
     (let s = entry_plan swarm_id (\<lambda>p. p\<lparr>vp_items := vp_items p @ items, vp_version := vp_version p + 1,
                vp_participants := insert proposer (insert req (vp_participants p)) \<union> owners_of items\<rparr>) s;
          participants = plan_participants env swarm_id s;
          s = remove_context swarm_id (proposal_key proposer) s;
          s = broadcast_swarm_plan env swarm_id (Some ''proposal_approved'') s;
          s = record_swarm_event req None (Some swarm_id) (PlanUpdate swarm_id (length items)) s;
          coordinator_name = friendly_name_for_session req s;
          msg = ''Plan approved by coordinator: '' @ show_nat (length items) @ '' items added from '' @ proposer;
          s = fold (\<lambda>sid s. if hget (sv_members s) sid = None then s
                           else interrupt_system env sid msg (send_primary sid (notice req coordinator_name ''plan'' msg) s))
                participants s
      in persist_swarm_state_for swarm_id s)"

definition no_proposal :: "string \<Rightarrow> mutation_response" where
  "no_proposal proposer = MutationError (''No pending plan proposal from session '' @ apos @ proposer @ apos) None"

definition handle_comm_approve_plan ::
  "server_env \<Rightarrow> plan_json \<Rightarrow> (string list \<Rightarrow> u64) \<Rightarrow> u64 \<Rightarrow> string \<Rightarrow> string \<Rightarrow> chan \<Rightarrow> server \<Rightarrow> server" where
  "handle_comm_approve_plan env js hash i req proposer tx s =
     (case require_coordinator_swarm i req ''Only the coordinator can approve plan proposals.'' tx s of
        (None, s) \<Rightarrow> s
      | (Some swarm_id, s) \<Rightarrow>
          (case with_requests (begin_or_replay (request_of hash ''approve_plan'' [swarm_id, proposer] req i tx)) s of
             (None, s) \<Rightarrow> s
           | (Some st, s) \<Rightarrow>
               (case context_entry_of swarm_id (proposal_key proposer) s of
                  None \<Rightarrow> finish_mutation st (no_proposal proposer) s
                | Some c \<Rightarrow>
                    finish_mutation st MutationDone
                      (case pj_parse js (sc_value c) of
                         None \<Rightarrow> s
                       | Some items \<Rightarrow> apply_proposal env req proposer swarm_id items s))))"

definition handle_comm_reject_plan ::
  "server_env \<Rightarrow> (string list \<Rightarrow> u64) \<Rightarrow> u64 \<Rightarrow> string \<Rightarrow> string \<Rightarrow> string option \<Rightarrow> chan \<Rightarrow> server \<Rightarrow> server" where
  "handle_comm_reject_plan env hash i req proposer reason tx s =
     (case require_coordinator_swarm i req ''Only the coordinator can reject plan proposals.'' tx s of
        (None, s) \<Rightarrow> s
      | (Some swarm_id, s) \<Rightarrow>
          (case with_requests (begin_or_replay (request_of hash ''reject_plan''
                  [swarm_id, proposer, case reason of None \<Rightarrow> [] | Some r \<Rightarrow> r] req i tx)) s of
             (None, s) \<Rightarrow> s
           | (Some st, s) \<Rightarrow>
               if context_entry_of swarm_id (proposal_key proposer) s = None
               then finish_mutation st (no_proposal proposer) s
               else
                 let s = remove_context swarm_id (proposal_key proposer) s;
                     coordinator_name = friendly_name_for_session req s;
                     msg = ''Your plan proposal was rejected by the coordinator'' @ (case reason of None \<Rightarrow> [] | Some r \<Rightarrow> '': '' @ r);
                     s = (if hget (sv_members s) proposer = None then s
                          else interrupt_system env proposer msg (send_primary proposer (notice req coordinator_name ''dm'' msg) s));
                     s = record_swarm_event req coordinator_name (Some swarm_id) (NotificationEvent ''plan_rejected'' proposer) s
                 in finish_mutation st MutationDone s))"

subsection \<open>Shared context\<close>

definition not_in_swarm :: string where
  "not_in_swarm = ''Not in a swarm. Use a git repository to enable swarm features.''"

definition shared_value :: "bool \<Rightarrow> string \<Rightarrow> shared_context option \<Rightarrow> string" where
  "shared_value app new existing =
     (if app then (case existing of None \<Rightarrow> new | Some c \<Rightarrow> if sc_value c = [] then new else sc_value c @ nl @ new) else new)"

definition handle_comm_share :: "server_env \<Rightarrow> u64 \<Rightarrow> string \<Rightarrow> string \<Rightarrow> string \<Rightarrow> bool \<Rightarrow> chan \<Rightarrow> server \<Rightarrow> server" where
  "handle_comm_share env i req key v app tx s =
     (case swarm_id_for_session req s of
        None \<Rightarrow> refuse i tx not_in_swarm s
      | Some swarm_id \<Rightarrow>
          let name = friendly_name_for_session req s;
              existing = context_entry_of swarm_id key s;
              s = put_context swarm_id \<lparr>sc_key = key, sc_value = shared_value app v existing, sc_from_session = req, sc_from_name = name,
                    sc_created_at = (case existing of None \<Rightarrow> now_of s | Some c \<Rightarrow> sc_created_at c), sc_updated_at = now_of s\<rparr> s;
              event = Notification req name (SharedContextNotification key (if app then ''(appended) '' @ v else v))
                        (if app then ''Appended shared context: '' @ key @ '' += '' @ v else ''Shared context: '' @ key @ '' = '' @ v);
              s = fold (\<lambda>sid s. snd (fanout_session_event sid event s))
                    (filter (\<lambda>sid. sid \<noteq> req) (swarm_sessions swarm_id s)) s;
              s = record_swarm_event req name (Some swarm_id) (ContextUpdate swarm_id key) s
          in server_send tx (EventDone i) s)"

definition entry_of_context :: "shared_context \<Rightarrow> context_entry" where
  "entry_of_context c = \<lparr>ce_key = sc_key c, ce_value = sc_value c, ce_from_session = sc_from_session c, ce_from_name = sc_from_name c\<rparr>"

definition handle_comm_read :: "u64 \<Rightarrow> string \<Rightarrow> string option \<Rightarrow> chan \<Rightarrow> server \<Rightarrow> server" where
  "handle_comm_read i req key tx s =
     (let entries = (case Option.bind (swarm_id_for_session req s) (hget (sv_context s)) of
                       None \<Rightarrow> []
                     | Some c \<Rightarrow>
                         (case key of
                            Some k \<Rightarrow> (case hget c k of None \<Rightarrow> [] | Some e \<Rightarrow> [entry_of_context e])
                          | None \<Rightarrow> map (entry_of_context \<circ> snd) c))
      in server_send tx (CommContext i entries) s)"

definition agent_info_of :: "nat \<Rightarrow> string \<Rightarrow> string list \<Rightarrow> swarm_member \<Rightarrow> agent_info" where
  "agent_info_of now sid files m =
     \<lparr>ai_session_id = sid, ai_friendly_name = mb_friendly_name m, ai_files_touched = files, ai_status = Some (mb_status m),
      ai_detail = mb_detail m, ai_role = Some (mb_role m), ai_is_headless = Some (mb_is_headless m),
      ai_report_back = mb_report_back m, ai_latest_report = mb_latest_report m,
      ai_live_attachments = Some (length (mb_event_txs m)),
      ai_status_age_secs = Some (of_nat ((now - mb_last_status_change m) div 1000))\<rparr>"

definition handle_comm_list :: "u64 \<Rightarrow> string \<Rightarrow> chan \<Rightarrow> server \<Rightarrow> server" where
  "handle_comm_list i req tx s =
     (case swarm_id_for_session req s of
        None \<Rightarrow> refuse i tx not_in_swarm s
      | Some swarm_id \<Rightarrow>
          server_send tx (CommMembers i (List.map_filter (\<lambda>sid. map_option
            (agent_info_of (now_of s) sid (sort (hget_or [] (sv_touched s) sid))) (hget (sv_members s) sid)) (swarm_sessions swarm_id s))) s)"

subsection \<open>Channels\<close>

definition handle_comm_list_channels :: "u64 \<Rightarrow> string \<Rightarrow> chan \<Rightarrow> server \<Rightarrow> server" where
  "handle_comm_list_channels i req tx s =
     (case swarm_id_for_session req s of
        None \<Rightarrow> refuse i tx not_in_swarm s
      | Some swarm_id \<Rightarrow>
          server_send tx (CommChannels i (sort_key fst (map (\<lambda>(c, ms). (c, length ms))
            (hget_or [] (by_swarm_channel (sv_channels s)) swarm_id)))) s)"

definition handle_comm_channel_members :: "u64 \<Rightarrow> string \<Rightarrow> string \<Rightarrow> chan \<Rightarrow> server \<Rightarrow> server" where
  "handle_comm_channel_members i req channel tx s =
     (case swarm_id_for_session req s of
        None \<Rightarrow> refuse i tx not_in_swarm s
      | Some swarm_id \<Rightarrow>
          server_send tx (CommMembers i (List.map_filter (\<lambda>sid. map_option (agent_info_of (now_of s) sid []) (hget (sv_members s) sid))
            (members (sv_channels s) swarm_id channel))) s)"

definition handle_comm_subscribe_channel :: "u64 \<Rightarrow> string \<Rightarrow> string \<Rightarrow> chan \<Rightarrow> server \<Rightarrow> server" where
  "handle_comm_subscribe_channel i req channel tx s =
     (case swarm_id_for_session req s of
        None \<Rightarrow> refuse i tx ''Not in a swarm.'' s
      | Some swarm_id \<Rightarrow>
          server_send tx (EventDone i)
            (record_swarm_event req None (Some swarm_id) (NotificationEvent ''channel_subscribe'' channel)
              (s\<lparr>sv_channels := subscribe (sv_channels s) req swarm_id channel\<rparr>)))"

definition handle_comm_unsubscribe_channel :: "u64 \<Rightarrow> string \<Rightarrow> string \<Rightarrow> chan \<Rightarrow> server \<Rightarrow> server" where
  "handle_comm_unsubscribe_channel i req channel tx s =
     (case swarm_id_for_session req s of
        None \<Rightarrow> refuse i tx ''Not in a swarm.'' s
      | Some swarm_id \<Rightarrow>
          server_send tx (EventDone i)
            (record_swarm_event req None (Some swarm_id) (NotificationEvent ''channel_unsubscribe'' channel)
              (s\<lparr>sv_channels := unsubscribe (sv_channels s) req swarm_id channel\<rparr>)))"

subsection \<open>Messages\<close>

datatype comm_delivery_mode = Notify | Interrupt | WakeUp

definition resolve_comm_delivery_mode :: "string \<Rightarrow> comm_delivery_mode option \<Rightarrow> bool option \<Rightarrow> comm_delivery_mode" where
  "resolve_comm_delivery_mode scope delivery wake =
     (case delivery of
        Some d \<Rightarrow> d
      | None \<Rightarrow> if wake = Some True then WakeUp else if scope = ''dm'' then WakeUp else Notify)"

definition resolve_dm_target_session :: "string \<Rightarrow> string list \<Rightarrow> server \<Rightarrow> string + string" where
  "resolve_dm_target_session target swarm_session_ids s =
     (if target \<in> set swarm_session_ids then Inr target
      else let matches = remdups_adj (sort (filter (\<lambda>sid. friendly_name_for_session sid s = Some target) swarm_session_ids))
           in case matches of
                [sid] \<Rightarrow> Inr sid
              | [] \<Rightarrow> Inl (''Unknown target '' @ apos @ target @ apos @
                     '' - use an exact session_id or a unique friendly name within the swarm.'')
              | _ \<Rightarrow> Inl (''Friendly name '' @ apos @ target @ apos @
                     '' is ambiguous in swarm. Use an exact session id instead. Matches: '' @
                     join '', '' (map (\<lambda>sid. target @ '' ['' @ sid @ '']'') matches)))"

text \<open>A live session whose agent is not locked starts a turn with the message.\<close>

definition can_wake :: "string \<Rightarrow> server \<Rightarrow> bool" where
  "can_wake sid s \<longleftrightarrow>
     (case hget (sv_agents s) sid of
        None \<Rightarrow> False
      | Some (locked, _) \<Rightarrow>
          (case hget (sv_members s) sid of
             None \<Rightarrow> False
           | Some m \<Rightarrow> mb_event_txs m \<noteq> [] \<or> \<not> is_closed s (mb_event_tx m)) \<and> \<not> locked)"

record comm_message =
  cm_id :: u64
  cm_from :: string
  cm_message :: string
  cm_to :: "string option"
  cm_channel :: "string option"
  cm_delivery :: "comm_delivery_mode option"
  cm_wake :: "bool option"
  cm_chan :: chan

definition message_scope :: "comm_message \<Rightarrow> string" where
  "message_scope q = (if cm_to q \<noteq> None then ''dm'' else if cm_channel q \<noteq> None then ''channel'' else ''broadcast'')"

definition message_targets :: "comm_message \<Rightarrow> string option \<Rightarrow> string \<Rightarrow> server \<Rightarrow> string list" where
  "message_targets q resolved swarm_id s =
     (let everyone = filter (\<lambda>sid. sid \<noteq> cm_from q) (swarm_sessions swarm_id s)
      in case resolved of
           Some target \<Rightarrow> [target]
         | None \<Rightarrow>
             (case cm_channel q of
                None \<Rightarrow> everyone
              | Some channel \<Rightarrow>
                  let subscribers = members (sv_channels s) swarm_id channel
                  in if subscribers = [] then everyone else filter (\<lambda>sid. sid \<noteq> cm_from q) subscribers))"

definition scope_label :: "comm_message \<Rightarrow> string" where
  "scope_label q =
     (if message_scope q = ''dm'' then ''DM''
      else case cm_channel q of Some channel \<Rightarrow> ''#'' @ channel | None \<Rightarrow> ''broadcast'')"

definition notification_text :: "comm_message \<Rightarrow> string option \<Rightarrow> string" where
  "notification_text q name =
     scope_label q @ '' from '' @ (case name of Some n \<Rightarrow> n | None \<Rightarrow> take 8 (cm_from q)) @ '': '' @ cm_message q"

text \<open>One target: a notification, and the message itself as a turn or an interrupt. The sessions woken are collected.\<close>

definition deliver_message ::
  "server_env \<Rightarrow> comm_message \<Rightarrow> string option \<Rightarrow> string \<Rightarrow> string list \<times> server \<Rightarrow> string list \<times> server" where
  "deliver_message env q name sid = (\<lambda>(woken, s).
     (let msg = notification_text q name;
          s = snd (fanout_session_event sid (Notification (cm_from q) name
                (MessageNotification (Some (message_scope q)) (cm_channel q)) msg) s)
      in case resolve_comm_delivery_mode (message_scope q) (cm_delivery q) (cm_wake q) of
           Notify \<Rightarrow> (woken, s)
         | Interrupt \<Rightarrow> (woken, interrupt_system env sid msg s)
         | WakeUp \<Rightarrow> if can_wake sid s then (woken @ [sid], s) else (woken, interrupt_system env sid msg s)))"

definition handle_comm_message :: "server_env \<Rightarrow> comm_message \<Rightarrow> server \<Rightarrow> string list \<times> server" where
  "handle_comm_message env q s =
     (case swarm_id_for_session (cm_from q) s of
        None \<Rightarrow> ([], refuse (cm_id q) (cm_chan q) not_in_swarm s)
      | Some swarm_id \<Rightarrow>
          let name = friendly_name_for_session (cm_from q) s;
              ids = swarm_sessions swarm_id s
          in case (case cm_to q of None \<Rightarrow> Inr None | Some target \<Rightarrow> map_sum id Some (resolve_dm_target_session target ids s)) of
               Inl msg \<Rightarrow> ([], refuse (cm_id q) (cm_chan q) msg s)
             | Inr resolved \<Rightarrow>
                 let targets = filter (\<lambda>sid. sid \<in> set ids \<and> hget (sv_members s) sid \<noteq> None) (message_targets q resolved swarm_id s);
                     (woken, s) = fold (deliver_message env q name) targets ([], s);
                     s = record_swarm_event (cm_from q) name (Some swarm_id)
                           (NotificationEvent (if message_scope q = ''channel'' then ''#'' @ (case cm_channel q of Some c \<Rightarrow> c | None \<Rightarrow> [])
                                               else message_scope q) (truncate_detail (cm_message q) 220)) s
                 in (woken, server_send (cm_chan q) (EventDone (cm_id q)) s))"


section \<open>Lemmas\<close>

text \<open>What a decision on a proposal reads and changes, besides what is sent, recorded and stored.\<close>

definition desk_view :: "server \<Rightarrow> (string, versioned_plan) hmap \<times> (string, (string, shared_context) hmap) hmap \<times>
    nat \<times> bool \<times> mutation_state store \<times> request_runtime" where
  "desk_view s = (sv_plans s, sv_context s, now_of s, rw_writes_ok (sv_world s), rw_store (sv_world s), rw_runtime (sv_world s))"

named_theorems desk_simps \<open>operations that keep plans, shared context and requests\<close>

lemma desk_cong:
  "sv_plans s' = sv_plans s \<Longrightarrow> sv_context s' = sv_context s \<Longrightarrow> sv_world s' = sv_world s \<Longrightarrow> desk_view s' = desk_view s"
  by (simp add: desk_view_def)

lemma desk_eqD:
  assumes "desk_view s' = desk_view s"
  shows "sv_plans s' = sv_plans s" "sv_context s' = sv_context s" "now_of s' = now_of s"
    "rw_writes_ok (sv_world s') = rw_writes_ok (sv_world s)" "rw_store (sv_world s') = rw_store (sv_world s)"
    "rw_runtime (sv_world s') = rw_runtime (sv_world s)"
  using assms by (simp_all add: desk_view_def)

lemma desk_fields [desk_simps]:
  "desk_view (server_send tx e s) = desk_view s" "desk_view (modify_member sid f s) = desk_view s"
  "desk_view (record_swarm_event sid n ow ev s) = desk_view s" "desk_view (refuse i tx msg s) = desk_view s"
  by (simp_all add: desk_view_def server_send_def on_world_def modify_member_def record_swarm_event_def refuse_def Let_def)

interpretation desk: kept_by_sending desk_view
  by unfold_locales (simp_all add: desk_fields)

lemmas desk_sends [desk_simps] = desk.sends desk.fanout

lemma desk_interrupt [desk_simps]: "desk_view (interrupt_system env sid msg s) = desk_view s"
  by (auto simp: interrupt_system_def queue_soft_interrupt_for_session_def enqueue_soft_interrupt_def
      register_session_interrupt_queue_def append_interrupt_def overwrite_interrupts_def Let_def
      intro!: desk_cong split: option.split prod.split bool.split)

lemma desk_broadcast_plan [desk_simps]: "desk_view (broadcast_swarm_plan env sw r s) = desk_view s"
  by (simp add: broadcast_swarm_plan_def desk.plan_broadcast)

lemma desk_persist [desk_simps]: "desk_view (persist_swarm_state_for sw s) = desk_view s"
  by (auto simp: persist_swarm_state_for_def persist_swarm_state_def remove_swarm_state_def Let_def intro!: desk_cong)

lemma membership_interrupt [membership_simps]: "membership (interrupt_system env sid msg s) = membership s"
  by (auto simp: interrupt_system_def queue_soft_interrupt_for_session_def enqueue_soft_interrupt_def
      register_session_interrupt_queue_def append_interrupt_def overwrite_interrupts_def Let_def
      intro!: membership_cong split: option.split prod.split bool.split)

lemma membership_desk [membership_simps]:
  "membership (put_context sw c s) = membership s" "membership (remove_context sw k s) = membership s"
  "membership (entry_plan sw f s) = membership s"
  by (rule membership_cong; simp add: put_context_def remove_context_def entry_plan_def)+

lemma context_put [simp]:
  "context_entry_of sw k (put_context sw' c s) = (if sw = sw' \<and> k = sc_key c then Some c else context_entry_of sw k s)"
  by (auto simp: context_entry_of_def put_context_def hmap_simps hget_or_def split: option.split)

lemma context_remove [simp]:
  "context_entry_of sw k (remove_context sw' k' s) = (if sw = sw' \<and> k = k' then None else context_entry_of sw k s)"
proof (cases "hget (sv_context s) sw")
  case None
  then show ?thesis by (auto simp: context_entry_of_def remove_context_def hmap_simps)
next
  case (Some c)
  then show ?thesis by (auto simp: context_entry_of_def remove_context_def hmap_simps)
qed

lemma context_cong: "desk_view s' = desk_view s \<Longrightarrow> context_entry_of sw k s' = context_entry_of sw k s"
  by (simp add: context_entry_of_def desk_view_def)

lemma proposal_key_inject [simp]: "proposal_key a = proposal_key b \<longleftrightarrow> a = b"
  by (simp add: proposal_key_def)

lemma context_entry_plan [simp]: "context_entry_of sw k (entry_plan sw' f s) = context_entry_of sw k s"
  by (simp add: context_entry_of_def entry_plan_def)

lemma last_send: "last (rw_outbox (sv_world (server_send tx e s))) = (tx, e)"
  by (simp add: server_send_def on_world_def)


lemma apply_desk:
  "desk_view (apply_proposal env req proposer sw items s) =
     desk_view (remove_context sw (proposal_key proposer) (entry_plan sw (\<lambda>p. p\<lparr>vp_items := vp_items p @ items, vp_version := vp_version p + 1,
       vp_participants := insert proposer (insert req (vp_participants p)) \<union> owners_of items\<rparr>) s))"
proof -
  have "desk_view (fold (\<lambda>sid s. if hget (sv_members s) sid = None then s
      else interrupt_system env sid msg (send_primary sid (e s) s)) xs t) = desk_view t" for msg e xs t
    by (rule desk.folds) (simp add: desk_simps)
  moreover have "desk_view (fold (\<lambda>sid s. if hget (sv_members s) sid = None then s
      else interrupt_system env sid msg (send_primary sid e s)) xs t) = desk_view t" for msg e xs t
    by (rule desk.folds) (simp add: desk_simps)
  ultimately show ?thesis by (simp add: apply_proposal_def Let_def desk_simps)
qed

text \<open>A request that is not known yet starts its handler; when that ends, the answer is stored and sent.\<close>

lemma fresh_request:
  assumes "rw_store w (rq_key q) = None" "rq_key q \<notin> rt_active_keys (rw_runtime w)"
  shows "begin_or_replay q w = (Some \<lparr>mu_key = rq_key q, mu_action = rq_action q, mu_session_id = rq_session_id q,
      mu_created_at = rw_now w, mu_final_response = None\<rparr>, snd (begin_or_replay q w))"
    "hget_or [] (rt_waiters (rw_runtime (snd (begin_or_replay q w)))) (rq_key q) =
      hget_or [] (rt_waiters (rw_runtime w)) (rq_key q) @ [(rq_id q, rq_chan q)]"
    "rw_now (snd (begin_or_replay q w)) = rw_now w" "rw_writes_ok (snd (begin_or_replay q w)) = rw_writes_ok w"
  using assms
  by (simp_all add: begin_or_replay_def load_absent mark_active_if_new_def ensure_pending_state_def Let_def hmap_simps)

lemma finish_mutation_desk:
  "sv_plans (finish_mutation st r s) = sv_plans s" "sv_context (finish_mutation st r s) = sv_context s"
  "now_of (finish_mutation st r s) = now_of s"
  "rw_writes_ok (sv_world (finish_mutation st r s)) = rw_writes_ok (sv_world s)"
  "rw_writes_ok (sv_world s) \<Longrightarrow>
     rw_store (sv_world (finish_mutation st r s)) = (rw_store (sv_world s))(mu_key st \<mapsto> st\<lparr>mu_final_response := Some r\<rparr>)"
  by (simp_all add: finish_mutation_def on_world_def finish_request_def persist_final_response_def save_state_def save_json_state_def Let_def)

lemma finish_mutation_answers:
  "hget_or [] (rt_waiters (rw_runtime (sv_world s))) (mu_key st) = ws @ [(i, tx)] \<Longrightarrow>
   last (rw_outbox (sv_world (finish_mutation st r s))) = (tx, into_server_event r i (mu_session_id st))"
  by (simp add: finish_mutation_def on_world_def finish_request_def persist_final_response_def Let_def)


definition approval_key :: "(string list \<Rightarrow> u64) \<Rightarrow> string \<Rightarrow> string \<Rightarrow> string \<Rightarrow> string" where
  "approval_key hash req swarm_id proposer = hashed_request_key hash req ''approve_plan'' [swarm_id, proposer]"

definition unknown_request :: "string \<Rightarrow> server \<Rightarrow> bool" where
  "unknown_request key s \<longleftrightarrow> rw_store (sv_world s) key = None \<and> key \<notin> rt_active_keys (rw_runtime (sv_world s))"

definition merged :: "string \<Rightarrow> string \<Rightarrow> plan_item list \<Rightarrow> versioned_plan \<Rightarrow> versioned_plan" where
  "merged req proposer items p = p\<lparr>vp_items := vp_items p @ items, vp_version := vp_version p + 1,
     vp_participants := insert proposer (insert req (vp_participants p)) \<union> owners_of items\<rparr>"

lemma approve_merges:
  fixes env :: server_env and i :: u64 and tx :: chan
  assumes "swarm_id_for_session req s = Some sw" "hget (sv_coordinators s) sw = Some req"
    and "unknown_request (approval_key hash req sw proposer) s"
    and "context_entry_of sw (proposal_key proposer) s = Some c" "pj_parse js (sc_value c) = Some items"
  defines "s' \<equiv> handle_comm_approve_plan env js hash i req proposer tx s"
  shows "sv_plans s' = hentry VersionedPlan_new sw (merged req proposer items) (sv_plans s)"
    and "context_entry_of sw' k s' = (if sw' = sw \<and> k = proposal_key proposer then None else context_entry_of sw' k s)"
    and "last (rw_outbox (sv_world s')) = (tx, EventDone i)"
    and "now_of s' = now_of s" "rw_writes_ok (sv_world s') = rw_writes_ok (sv_world s)"
    and "rw_writes_ok (sv_world s) \<Longrightarrow> rw_store (sv_world s') (approval_key hash req sw proposer) =
      Some \<lparr>mu_key = approval_key hash req sw proposer, mu_action = ''approve_plan'', mu_session_id = req,
        mu_created_at = now_of s, mu_final_response = Some MutationDone\<rparr>"
    and "membership s' = membership s"
proof -
  define q where "q = request_of hash ''approve_plan'' [sw, proposer] req i tx"
  have q: "rq_key q = approval_key hash req sw proposer" "rq_id q = i" "rq_chan q = tx" "rq_action q = ''approve_plan''" "rq_session_id q = req"
    by (simp_all add: q_def request_of_def approval_key_def)
  define st where "st = \<lparr>mu_key = rq_key q, mu_action = rq_action q, mu_session_id = rq_session_id q,
      mu_created_at = now_of s, mu_final_response = None\<rparr>"
  define s1 where "s1 = s\<lparr>sv_world := snd (begin_or_replay q (sv_world s))\<rparr>"
  note fresh = fresh_request[of "sv_world s" q, unfolded q(1), OF conjunct1[OF assms(3)[unfolded unknown_request_def]]
      conjunct2[OF assms(3)[unfolded unknown_request_def]]]
  have b: "with_requests (begin_or_replay q) s = (Some st, s1)"
    using fresh(1) by (auto simp: with_requests_def s1_def st_def q split: prod.split)
  have c1: "context_entry_of sw k s1 = context_entry_of sw k s" for sw k by (simp add: context_entry_of_def s1_def)
  define s2 where "s2 = apply_proposal env req proposer sw items s1"
  have s': "s' = finish_mutation st MutationDone s2"
    using assms(1,2,4,5) b by (simp add: s'_def handle_comm_approve_plan_def require_coordinator_swarm_def q_def[symmetric] c1 s2_def)
  define s3 where "s3 = remove_context sw (proposal_key proposer) (entry_plan sw (merged req proposer items) s1)"
  have d: "desk_view s2 = desk_view s3"
    by (simp add: s2_def apply_desk s3_def merged_def[abs_def])
  note e = desk_eqD[OF d]
  have w3: "sv_world s3 = snd (begin_or_replay q (sv_world s))" by (simp add: s3_def remove_context_def entry_plan_def s1_def)
  show "sv_plans s' = hentry VersionedPlan_new sw (merged req proposer items) (sv_plans s)"
    by (simp add: s' finish_mutation_desk e) (simp add: s3_def remove_context_def entry_plan_def s1_def)
  have "context_entry_of sw' k s' = context_entry_of sw' k s3"
    by (simp add: context_entry_of_def s' finish_mutation_desk e)
  then show "context_entry_of sw' k s' = (if sw' = sw \<and> k = proposal_key proposer then None else context_entry_of sw' k s)"
    by (simp add: s3_def c1)
  have "hget_or [] (rt_waiters (rw_runtime (sv_world s2))) (mu_key st) =
      hget_or [] (rt_waiters (rw_runtime (sv_world s))) (mu_key st) @ [(i, tx)]"
    using fresh(2) by (simp add: e w3 st_def q)
  from finish_mutation_answers[OF this, of MutationDone] show "last (rw_outbox (sv_world s')) = (tx, EventDone i)"
    by (simp add: s')
  show "now_of s' = now_of s" "rw_writes_ok (sv_world s') = rw_writes_ok (sv_world s)"
    by (simp_all add: s' finish_mutation_desk e w3 fresh(3,4))
  show "rw_store (sv_world s') (approval_key hash req sw proposer) =
      Some \<lparr>mu_key = approval_key hash req sw proposer, mu_action = ''approve_plan'', mu_session_id = req,
        mu_created_at = now_of s, mu_final_response = Some MutationDone\<rparr>" if "rw_writes_ok (sv_world s)"
    using that by (simp add: s' finish_mutation_desk e w3 fresh(3,4) st_def q)
  have "membership s1 = membership s" by (rule membership_cong) (simp_all add: s1_def)
  moreover have "membership (fold (\<lambda>sid s. if hget (sv_members s) sid = None then s
      else interrupt_system env sid msg (send_primary sid e s)) xs t) = membership t" for msg e xs t
    by (rule membership_fold) (simp add: membership_simps)
  ultimately show "membership s' = membership s"
    by (simp add: s' s2_def apply_proposal_def Let_def membership_simps broadcast_swarm_plan_def)
qed


text \<open>
  C12: When the coordinator of a swarm approves a pending proposal (a request that is not known yet), the
  proposed items come after those of the plan, the version goes up by one, the coordinator, the proposer and
  the owners of the items take part in the plan, the proposal is gone while every other shared context and
  the plans of other swarms are as before, and the coordinator is answered that it is done.
\<close>

theorem approved_plan_merges:
  assumes "swarm_id_for_session req s = Some sw" "hget (sv_coordinators s) sw = Some req"
    and "unknown_request (approval_key hash req sw proposer) s"
    and "context_entry_of sw (proposal_key proposer) s = Some c" "pj_parse js (sc_value c) = Some items"
  shows "let s' = handle_comm_approve_plan env js hash i req proposer tx s;
             old = hget_or VersionedPlan_new (sv_plans s) sw
         in (\<exists>plan. hget (sv_plans s') sw = Some plan \<and> vp_items plan = vp_items old @ items \<and>
               vp_version plan = vp_version old + 1 \<and> vp_task_progress plan = vp_task_progress old \<and>
               vp_participants plan = vp_participants old \<union> {req, proposer} \<union> {x. \<exists>it \<in> set items. pi_assigned_to it = Some x}) \<and>
            (\<forall>sw'. sw' \<noteq> sw \<longrightarrow> hget (sv_plans s') sw' = hget (sv_plans s) sw') \<and>
            (\<forall>sw' k. context_entry_of sw' k s' =
               (if sw' = sw \<and> k = proposal_key proposer then None else context_entry_of sw' k s)) \<and>
            last (rw_outbox (sv_world s')) = (tx, EventDone i)"
proof -
  have "owners_of items = {x. \<exists>it \<in> set items. pi_assigned_to it = Some x}"
    by (force simp: owners_of_def List.map_filter_def image_iff)
  then show ?thesis
    using approve_merges[OF assms] by (simp add: Let_def hmap_simps merged_def insert_commute)
qed

lemma propose_desk:
  assumes "swarm_id_for_session req s = Some sw" "hget (sv_coordinators s) sw = Some coord" "coord \<noteq> req"
  shows "\<exists>n t. desk_view (handle_comm_propose_plan env js i req items tx s) =
           desk_view (put_context sw \<lparr>sc_key = proposal_key req, sc_value = pj_print js items, sc_from_session = req,
             sc_from_name = n, sc_created_at = t, sc_updated_at = t\<rparr> s) \<and>
         membership (handle_comm_propose_plan env js i req items tx s) = membership s"
  using assms by (auto simp: handle_comm_propose_plan_def Let_def desk_simps membership_simps)

definition wait_ms :: "nat \<Rightarrow> server \<Rightarrow> server" where
  "wait_ms k = on_world (\<lambda>w. w\<lparr>rw_now := rw_now w + k\<rparr>)"

lemma wait_fields [simp]:
  "sv_plans (wait_ms k s) = sv_plans s" "context_entry_of sw key (wait_ms k s) = context_entry_of sw key s"
  "rw_store (sv_world (wait_ms k s)) = rw_store (sv_world s)" "now_of (wait_ms k s) = now_of s + k"
  "membership (wait_ms k s) = membership s"
  by (auto simp: wait_ms_def on_world_def context_entry_of_def intro!: membership_cong)

text \<open>
  C13: A coordinator who approves a second proposal of the same session within thirty seconds of the first
  approval is answered that it is done, although nothing of the second proposal reaches the plan: the
  request has the key of the first approval, so the stored answer is sent again. The proposal stays pending.
\<close>

theorem second_proposal_not_applied:
  assumes "swarm_id_for_session req s = Some sw" "hget (sv_coordinators s) sw = Some req"
    and "unknown_request (approval_key hash req sw proposer) s"
    and "context_entry_of sw (proposal_key proposer) s = Some c" "pj_parse js (sc_value c) = Some items"
    and "rw_writes_ok (sv_world s)" "swarm_id_for_session proposer s = Some sw" "proposer \<noteq> req" "k \<le> 30000"
  shows "let s1 = handle_comm_approve_plan env js hash i req proposer tx s;
             s2 = handle_comm_propose_plan env js j proposer new ty s1;
             s3 = handle_comm_approve_plan env js hash n req proposer tx (wait_ms k s2)
         in sv_plans s3 = sv_plans s1 \<and>
            map_option sc_value (context_entry_of sw (proposal_key proposer) s3) = Some (pj_print js new) \<and>
            last (rw_outbox (sv_world s3)) = (tx, EventDone n)"
proof -
  define s1 where "s1 = handle_comm_approve_plan env js hash i req proposer tx s"
  define s2 where "s2 = handle_comm_propose_plan env js j proposer new ty s1"
  define t where "t = wait_ms k s2"
  define s3 where "s3 = handle_comm_approve_plan env js hash n req proposer tx t"
  note a = approve_merges[OF assms(1-5), where env = env and i = i and tx = tx, folded s1_def]
  have m1: "swarm_id_for_session x s1 = swarm_id_for_session x s" "sv_coordinators s1 = sv_coordinators s" for x
    using assigned_cong[OF a(7)] membership_eqD(3)[OF a(7)] by (simp_all add: assigned_def fun_eq_iff)
  obtain nm tm where p: "desk_view s2 = desk_view (put_context sw \<lparr>sc_key = proposal_key proposer, sc_value = pj_print js new,
      sc_from_session = proposer, sc_from_name = nm, sc_created_at = tm, sc_updated_at = tm\<rparr> s1)"
    and m2: "membership s2 = membership s1"
    using propose_desk[of proposer s1 sw req env js j new ty, folded s2_def] assms(2,7,8) m1 by auto
  note e = desk_eqD[OF p]
  have t: "swarm_id_for_session x t = swarm_id_for_session x s" "sv_coordinators t = sv_coordinators s" for x
    using assigned_cong[of t s] membership_eqD(3)[of t s] m2 a(7) by (simp_all add: t_def assigned_def fun_eq_iff)
  define q where "q = request_of hash ''approve_plan'' [sw, proposer] req n tx"
  have q: "rq_key q = approval_key hash req sw proposer" "rq_id q = n" "rq_chan q = tx" "rq_session_id q = req"
    by (simp_all add: q_def request_of_def approval_key_def)
  define st where "st = \<lparr>mu_key = approval_key hash req sw proposer, mu_action = ''approve_plan'', mu_session_id = req,
        mu_created_at = now_of s, mu_final_response = Some MutationDone\<rparr>"
  have w1: "sv_world (put_context sw c s1) = sv_world s1" for c by (simp add: put_context_def)
  have "rw_store (sv_world t) (rq_key q) = Some st" using a(6)[OF assms(6)] by (simp add: t_def e w1 q st_def)
  moreover have "\<not> is_stale (now_of t) st"
    using assms(9) by (simp add: st_def is_stale_def elapsed_exceeds_def FINAL_STATE_TTL_def t_def e w1 a(4))
  ultimately have l: "load_state (rq_key q) (sv_world t) = (Some st, sv_world t)" by (rule load_present)
  have b: "with_requests (begin_or_replay q) t = (None, server_send tx (EventDone n) t)"
    unfolding with_requests_def begin_or_replay_def l by (simp add: q st_def server_send_def on_world_def)
  have s3: "s3 = server_send tx (EventDone n) t"
    using assms(1,2) b by (simp add: s3_def handle_comm_approve_plan_def require_coordinator_swarm_def t q_def)
  have "sv_plans s3 = sv_plans s1" by (simp add: s3 server_send_def on_world_def t_def e put_context_def)
  moreover have "context_entry_of sw (proposal_key proposer) s3 = context_entry_of sw (proposal_key proposer) s2"
    using context_cong[OF desk_fields(1)] by (simp add: s3 t_def)
  moreover have "map_option sc_value (context_entry_of sw (proposal_key proposer) s2) = Some (pj_print js new)"
    by (simp add: context_cong[OF p])
  ultimately show ?thesis
    using last_send[of tx "EventDone n" t, folded s3]
    by (simp add: Let_def s1_def[symmetric] s2_def[symmetric] t_def[symmetric] s3_def[symmetric])
qed

lemma share_desk:
  assumes "swarm_id_for_session req s = Some sw"
  shows "\<exists>n t u. desk_view (handle_comm_share env i req key v False tx s) =
           desk_view (put_context sw \<lparr>sc_key = key, sc_value = v, sc_from_session = req,
             sc_from_name = n, sc_created_at = t, sc_updated_at = u\<rparr> s)"
    and "membership (handle_comm_share env i req key v False tx s) = membership s"
proof -
  have "desk_view (fold (\<lambda>sid s. snd (fanout_session_event sid e s)) xs t) = desk_view t" for e xs t
    by (rule desk.folds) (simp add: desk_simps)
  then show "\<exists>n t u. desk_view (handle_comm_share env i req key v False tx s) =
           desk_view (put_context sw \<lparr>sc_key = key, sc_value = v, sc_from_session = req,
             sc_from_name = n, sc_created_at = t, sc_updated_at = u\<rparr> s)"
    using assms by (auto simp: handle_comm_share_def Let_def desk_simps shared_value_def)
  have "membership (fold (\<lambda>sid s. snd (fanout_session_event sid e s)) xs t) = membership t" for e xs t
    by (rule membership_fold) (simp add: membership_simps)
  then show "membership (handle_comm_share env i req key v False tx s) = membership s"
    using assms by (simp add: handle_comm_share_def Let_def membership_simps)
qed

text \<open>
  Shared context is not protected against proposals of others: a member that shares the value of a list
  of items under the key of another session's proposal has it approved as that session's proposal. The items
  join the plan, and the session that never proposed them takes part in it.
\<close>

theorem forged_proposal_applied:
  assumes "swarm_id_for_session req s = Some sw" "hget (sv_coordinators s) sw = Some req"
    and "unknown_request (approval_key hash req sw victim) s"
    and "swarm_id_for_session attacker s = Some sw" "pj_parse js v = Some items"
  shows "let s1 = handle_comm_share env i attacker (proposal_key victim) v False tx s;
             s2 = handle_comm_approve_plan env js hash j req victim ty s1
         in \<exists>plan. hget (sv_plans s2) sw = Some plan \<and> victim \<in> vp_participants plan \<and>
              vp_items plan = vp_items (hget_or VersionedPlan_new (sv_plans s) sw) @ items"
proof -
  define s1 where "s1 = handle_comm_share env i attacker (proposal_key victim) v False tx s"
  obtain n t u where d: "desk_view s1 = desk_view (put_context sw \<lparr>sc_key = proposal_key victim, sc_value = v,
      sc_from_session = attacker, sc_from_name = n, sc_created_at = t, sc_updated_at = u\<rparr> s)"
    using share_desk(1)[OF assms(4), of env i "proposal_key victim" v tx] unfolding s1_def by blast
  have m: "membership s1 = membership s" by (simp add: s1_def share_desk(2)[OF assms(4)])
  note e = desk_eqD[OF d]
  have "swarm_id_for_session req s1 = Some sw" "hget (sv_coordinators s1) sw = Some req"
    using assms(1,2) assigned_cong[OF m] membership_eqD(3)[OF m] by (simp_all add: assigned_def fun_eq_iff)
  moreover have "unknown_request (approval_key hash req sw victim) s1"
    using assms(3) by (simp add: unknown_request_def e put_context_def)
  moreover have "map_option sc_value (context_entry_of sw (proposal_key victim) s1) = Some v" by (simp add: context_cong[OF d])
  then obtain c where "context_entry_of sw (proposal_key victim) s1 = Some c" "pj_parse js (sc_value c) = Some items"
    using assms(5) by auto
  ultimately have "sv_plans (handle_comm_approve_plan env js hash j req victim ty s1) =
      hentry VersionedPlan_new sw (merged req victim items) (sv_plans s1)"
    by (rule approve_merges(1))
  moreover have "sv_plans s1 = sv_plans s" by (simp add: e put_context_def)
  ultimately show ?thesis by (simp add: Let_def s1_def[symmetric] hmap_simps merged_def)
qed


section \<open>Witnesses\<close>

definition demo_task :: plan_item where
  "demo_task = \<lparr>pi_content = ''write the tests'', pi_status = ''queued'', pi_priority = ''high'', pi_id = ''t1'', pi_subsystem = None,
     pi_file_scope = [], pi_blocked_by = [], pi_assigned_to = Some ''c''\<rparr>"

definition demo_json :: plan_json where
  "demo_json = \<lparr>pj_print = (\<lambda>items. replicate (length items) (CHR ''i'')),
     pj_parse = (\<lambda>v. if v = ''i'' then Some [demo_task] else None)\<rparr>"

text \<open>The server of the membership examples, where \<open>a\<close> has proposed an item to the coordinator \<open>b\<close>.\<close>

definition demo_desk :: server where
  "demo_desk = put_context ''/r'' \<lparr>sc_key = proposal_key ''a'', sc_value = ''i'', sc_from_session = ''a'', sc_from_name = None,
     sc_created_at = 0, sc_updated_at = 0\<rparr> demo_server"

lemma demo_desk_fields:
  "swarm_id_for_session ''b'' demo_desk = Some ''/r''" "swarm_id_for_session ''a'' demo_desk = Some ''/r''"
  "hget (sv_coordinators demo_desk) ''/r'' = Some ''b''" "unknown_request key demo_desk" "rw_writes_ok (sv_world demo_desk)"
  "map_option sc_value (context_entry_of ''/r'' (proposal_key ''a'') demo_desk) = Some ''i''"
  "hget (sv_plans demo_desk) sw = None"
  by (simp_all add: demo_desk_def put_context_def swarm_id_for_session_def demo_server_fields demo_member_def unknown_request_def
      demo_world_def runtime_default_def context_entry_of_def hmap_simps)

lemma demo_context: "\<exists>c. context_entry_of ''/r'' (proposal_key ''a'') demo_desk = Some c \<and> pj_parse demo_json (sc_value c) = Some [demo_task]"
  using demo_desk_fields(6) by (auto simp: demo_json_def)

lemma approved_plan_merges_witness:
  "\<exists>plan. hget (sv_plans (handle_comm_approve_plan demo_env demo_json (\<lambda>_. 0) 1 ''b'' ''a'' ''to b'' demo_desk)) ''/r'' = Some plan \<and>
     vp_items plan = [demo_task] \<and> ''c'' \<in> vp_participants plan"
proof -
  obtain c where "context_entry_of ''/r'' (proposal_key ''a'') demo_desk = Some c" "pj_parse demo_json (sc_value c) = Some [demo_task]"
    using demo_context by blast
  from approved_plan_merges[OF demo_desk_fields(1,3,4) this, where env = demo_env and i = 1 and tx = "''to b''" and hash = "\<lambda>_. 0"] show ?thesis
    by (auto simp: Let_def hget_or_def demo_desk_fields VersionedPlan_new_def demo_task_def)
qed

lemma second_proposal_not_applied_witness:
  "last (rw_outbox (sv_world (handle_comm_approve_plan demo_env demo_json (\<lambda>_. 0) 3 ''b'' ''a'' ''to b''
     (wait_ms 1000 (handle_comm_propose_plan demo_env demo_json 2 ''a'' [demo_task] ''to a''
       (handle_comm_approve_plan demo_env demo_json (\<lambda>_. 0) 1 ''b'' ''a'' ''to b'' demo_desk)))))) = (''to b'', EventDone 3)"
proof -
  obtain c where "context_entry_of ''/r'' (proposal_key ''a'') demo_desk = Some c" "pj_parse demo_json (sc_value c) = Some [demo_task]"
    using demo_context by blast
  from second_proposal_not_applied[OF demo_desk_fields(1,3,4) this demo_desk_fields(5,2),
      where k = 1000 and env = demo_env and i = 1 and tx = "''to b''" and j = 2 and ty = "''to a''" and n = 3 and new = "[demo_task]"]
  show ?thesis by (simp add: Let_def)
qed

lemma forged_proposal_applied_witness:
  "\<exists>plan. hget (sv_plans (handle_comm_approve_plan demo_env demo_json (\<lambda>_. 0) 2 ''b'' ''x'' ''to b''
      (handle_comm_share demo_env 1 ''a'' (proposal_key ''x'') ''i'' False ''to a'' demo_desk))) ''/r'' = Some plan \<and>
     ''x'' \<in> vp_participants plan"
proof -
  have "pj_parse demo_json ''i'' = Some [demo_task]" by (simp add: demo_json_def)
  from forged_proposal_applied[OF demo_desk_fields(1,3,4,2) this, where victim = "''x''" and env = demo_env and i = 1 and
      tx = "''to a''" and j = 2 and ty = "''to b''"]
  show ?thesis by (auto simp: Let_def)
qed

end
