(* ===== verification/Swarm_Await.thy ===== *)
theory Swarm_Await
  imports Swarm_Proposals
begin

text \<open>
  Waiting for the members of a swarm (\<^verbatim>\<open>src/src/server/comm_await.rs\<close>, \<^verbatim>\<open>await_members_state.rs\<close>): a session
  asks to be told when others have reached a status. The request is stored like a mutation; a task
  watches the members and answers everybody who waits for the same thing.

  \<^verbatim>\<open>AwaitMembersRuntime\<close> is the runtime of the mutations with one operation more. A friendly name that is
  missing is replaced by the first eight bytes of the identifier, which the asking session may have made up,
  so \<^verbatim>\<open>None\<close> is the panic of a cut inside a character.
\<close>

section \<open>Definitions\<close>

record await_result =
  ar_completed :: bool
  ar_members :: "awaited_member list"
  ar_summary :: string
  ar_resolved_at :: nat

record await_state =
  as_key :: string
  as_session_id :: string
  as_swarm_id :: string
  as_target_status :: "string list"
  as_requested_ids :: "string list"
  as_mode :: "string option"
  as_created_at :: nat
  as_deadline :: u64
  as_final_response :: "await_result option"

text \<open>The server with the stored requests and the waiters.\<close>

record await_world =
  aw_server :: server
  aw_store :: "await_state store"
  aw_runtime :: request_runtime

definition AWAIT_FINAL_TTL :: nat where "AWAIT_FINAL_TTL = 6 * 60 * 60 * 1000"
definition AWAIT_PENDING_TTL :: nat where "AWAIT_PENDING_TTL = 24 * 60 * 60 * 1000"

subsection \<open>The stored requests\<close>

definition await_is_stale :: "nat \<Rightarrow> await_state \<Rightarrow> bool" where
  "await_is_stale now st =
     (case as_final_response st of
        Some r \<Rightarrow> now - ar_resolved_at r > AWAIT_FINAL_TTL
      | None \<Rightarrow> now - unat (as_deadline st) > AWAIT_PENDING_TTL)"

definition await_request_key ::
  "(string list \<Rightarrow> u64) \<Rightarrow> string \<Rightarrow> string \<Rightarrow> string list \<Rightarrow> string list \<Rightarrow> string option \<Rightarrow> string" where
  "await_request_key hash sid swarm_id requested target mode =
     hashed_request_key hash sid ''await_members''
       [swarm_id, join [CHR 0x1F] (sort requested), join [CHR 0x1F] (sort target),
        case mode of None \<Rightarrow> ''all'' | Some m \<Rightarrow> m]"

definition await_now :: "await_world \<Rightarrow> nat" where
  "await_now w = now_of (aw_server w)"

definition await_load_state :: "string \<Rightarrow> await_world \<Rightarrow> await_state option \<times> await_world" where
  "await_load_state key w =
     (let (st, d) = load_json_state (await_is_stale (await_now w)) key (aw_store w) in (st, w\<lparr>aw_store := d\<rparr>))"

definition await_save_state :: "await_state \<Rightarrow> await_world \<Rightarrow> await_world" where
  "await_save_state st w =
     w\<lparr>aw_store := save_json_state (rw_writes_ok (sv_world (aw_server w))) (as_key st) st (aw_store w)\<rparr>"

definition await_ensure_pending_state ::
  "string \<Rightarrow> string \<Rightarrow> string \<Rightarrow> string list \<Rightarrow> string list \<Rightarrow> string option \<Rightarrow> u64 \<Rightarrow> await_world \<Rightarrow> await_state \<times> await_world" where
  "await_ensure_pending_state key sid swarm_id requested target mode deadline w =
     (case await_load_state key w of
        (Some existing, w) \<Rightarrow> (existing, w)
      | (None, w) \<Rightarrow>
          (let st = \<lparr>as_key = key, as_session_id = sid, as_swarm_id = swarm_id, as_target_status = target,
                     as_requested_ids = requested, as_mode = mode, as_created_at = await_now w, as_deadline = deadline,
                     as_final_response = None\<rparr>
           in (st, await_save_state st w)))"

definition await_persist_final ::
  "await_state \<Rightarrow> bool \<Rightarrow> awaited_member list \<Rightarrow> string \<Rightarrow> await_world \<Rightarrow> await_world" where
  "await_persist_final st completed ms summary w =
     await_save_state (st\<lparr>as_final_response := Some \<lparr>ar_completed = completed, ar_members = ms, ar_summary = summary,
       ar_resolved_at = await_now w\<rparr>\<rparr>) w"

text \<open>The requests of a session that can be resumed, over the stored keys in the order of the directory.\<close>

definition pending_await_members_for_session :: "string list \<Rightarrow> string \<Rightarrow> await_world \<Rightarrow> await_state list \<times> await_world" where
  "pending_await_members_for_session keys sid w =
     (let (found, w) = fold (\<lambda>key (found, w).
            case await_load_state key w of
              (None, w) \<Rightarrow> (found, w)
            | (Some st, w) \<Rightarrow>
                if as_session_id st = sid \<and> as_final_response st = None \<and> now_unix_ms (aw_server w) < as_deadline st
                then (found @ [st], w) else (found, w)) keys ([], w)
      in (sort_key as_deadline found, w))"

subsection \<open>Waiters\<close>

definition on_runtime :: "(request_runtime \<Rightarrow> request_runtime) \<Rightarrow> await_world \<Rightarrow> await_world" where
  "on_runtime f w = w\<lparr>aw_runtime := f (aw_runtime w)\<rparr>"

definition on_server :: "(server \<Rightarrow> server) \<Rightarrow> await_world \<Rightarrow> await_world" where
  "on_server f w = w\<lparr>aw_server := f (aw_server w)\<rparr>"

definition retain_open_waiters :: "server \<Rightarrow> string \<Rightarrow> request_runtime \<Rightarrow> nat \<times> request_runtime" where
  "retain_open_waiters s key r =
     (case hget (rt_waiters r) key of
        None \<Rightarrow> (0, r)
      | Some entries \<Rightarrow>
          let entries = filter (\<lambda>(_, tx). \<not> is_closed s tx) entries
          in (length entries,
              r\<lparr>rt_waiters := (if entries = [] then hdel key (rt_waiters r) else hput key entries (rt_waiters r))\<rparr>))"

definition respond_to_waiters :: "string \<Rightarrow> bool \<Rightarrow> awaited_member list \<Rightarrow> string \<Rightarrow> await_world \<Rightarrow> await_world" where
  "respond_to_waiters key completed ms summary w =
     (let (ws, r) = take_waiters key (aw_runtime w);
          w = on_server (fold (\<lambda>(i, tx). server_send tx (CommAwaitMembersResponse i completed ms summary)) ws) (w\<lparr>aw_runtime := r\<rparr>)
      in on_runtime (clear_active key) w)"

subsection \<open>What is awaited\<close>

definition awaited_ids :: "string \<Rightarrow> string \<Rightarrow> string list \<Rightarrow> server \<Rightarrow> string list" where
  "awaited_ids req swarm_id requested s =
     (if requested = [] then sort (filter (\<lambda>sid. sid \<noteq> req) (swarm_sessions swarm_id s)) else requested)"

definition status_is_done :: "string list \<Rightarrow> string \<Rightarrow> bool" where
  "status_is_done target status \<longleftrightarrow>
     status \<in> set target \<or> status = ''unknown'' \<and> (''stopped'' \<in> set target \<or> ''completed'' \<in> set target)"

definition awaited_status :: "string list \<Rightarrow> server \<Rightarrow> string \<Rightarrow> awaited_member" where
  "awaited_status target s sid =
     (case hget (sv_members s) sid of
        Some m \<Rightarrow> \<lparr>am_session_id = sid, am_friendly_name = mb_friendly_name m, am_status = mb_status m,
                   am_done = status_is_done target (mb_status m), am_completion_report = mb_latest_report m\<rparr>
      | None \<Rightarrow> \<lparr>am_session_id = sid, am_friendly_name = None, am_status = ''unknown'',
                 am_done = status_is_done target ''unknown'', am_completion_report = None\<rparr>)"

definition awaited_member_statuses :: "string \<Rightarrow> string \<Rightarrow> string list \<Rightarrow> string list \<Rightarrow> server \<Rightarrow> awaited_member list" where
  "awaited_member_statuses req swarm_id requested target s =
     map (awaited_status target s) (awaited_ids req swarm_id requested s)"

definition short_member_name :: "awaited_member \<Rightarrow> string option" where
  "short_member_name m =
     (case am_friendly_name m of
        Some n \<Rightarrow> Some n
      | None \<Rightarrow> (let cut = min 8 (length (am_session_id m))
                 in if is_char_boundary (am_session_id m) cut then Some (take cut (am_session_id m)) else None))"

text \<open>All texts, or a panic.\<close>

fun all_texts :: "string option list \<Rightarrow> string list option" where
  "all_texts [] = Some []"
| "all_texts (None # xs) = None"
| "all_texts (Some t # xs) = map_option (\<lambda>ts. t # ts) (all_texts xs)"

definition timeout_summary :: "awaited_member list \<Rightarrow> string option" where
  "timeout_summary ms =
     map_option (\<lambda>ts. ''Timed out. Still waiting on: '' @ join '', '' ts)
       (all_texts (map (\<lambda>m. map_option (\<lambda>n. n @ '' ('' @ am_status m @ '')'') (short_member_name m)) (filter (\<lambda>m. \<not> am_done m) ms)))"

definition completion_summary :: "awaited_member list \<Rightarrow> string option" where
  "completion_summary ms =
     map_option (\<lambda>ts. ''All '' @ show_nat (length ts) @ '' members are done: '' @ join '', '' ts) (all_texts (map short_member_name ms))"

definition any_mode :: "string option \<Rightarrow> bool" where
  "any_mode mode \<longleftrightarrow> mode = Some ''any''"

definition mode_satisfied :: "awaited_member list \<Rightarrow> string option \<Rightarrow> bool" where
  "mode_satisfied ms mode = (if any_mode mode then list_ex am_done ms else list_all am_done ms)"

definition mode_summary :: "awaited_member list \<Rightarrow> string option \<Rightarrow> string option" where
  "mode_summary ms mode =
     (if any_mode mode
      then map_option (\<lambda>ts. ''Matched '' @ show_nat (length ts) @ '' member'' @ (if length ts = 1 then [] else ''s'') @ '': '' @ join '', '' ts)
             (all_texts (map short_member_name (filter am_done ms)))
      else completion_summary ms)"

definition statuses_for :: "await_state \<Rightarrow> string \<Rightarrow> await_world \<Rightarrow> awaited_member list" where
  "statuses_for st req w =
     awaited_member_statuses req (as_swarm_id st) (as_requested_ids st) (as_target_status st) (aw_server w)"

definition nobody_to_wait_for :: string where
  "nobody_to_wait_for = ''No other members in swarm to wait for.''"

subsection \<open>The watching task\<close>

text \<open>
  The task either ends, or panics (its key stays active), or sleeps with the statuses that it saw until the
  deadline passes, an event arrives, or events were dropped.
\<close>

datatype watcher = Watch_Ended | Watch_Panicked | Watch_Sleeping "awaited_member list"

definition conclude :: "string \<Rightarrow> await_state \<Rightarrow> bool \<Rightarrow> awaited_member list \<Rightarrow> string option \<Rightarrow> await_world \<Rightarrow> watcher \<times> await_world" where
  "conclude key st completed ms summary w =
     (case summary of
        None \<Rightarrow> (Watch_Panicked, w)
      | Some t \<Rightarrow> (Watch_Ended, respond_to_waiters key completed ms t (await_persist_final st completed ms t w)))"

definition watch_poll :: "await_state \<Rightarrow> string \<Rightarrow> await_world \<Rightarrow> watcher \<times> await_world" where
  "watch_poll st req w =
     (let ms = statuses_for st req w
      in if ms = [] then conclude (as_key st) st True [] (Some nobody_to_wait_for) w
         else if mode_satisfied ms (as_mode st) then conclude (as_key st) st True ms (mode_summary ms (as_mode st)) w
         else let (n, r) = retain_open_waiters (aw_server w) (as_key st) (aw_runtime w); w = w\<lparr>aw_runtime := r\<rparr>
              in if n = 0 then (Watch_Ended, on_runtime (clear_active (as_key st)) w) else (Watch_Sleeping ms, w))"

definition watch_deadline :: "await_state \<Rightarrow> awaited_member list \<Rightarrow> await_world \<Rightarrow> watcher \<times> await_world" where
  "watch_deadline st ms w = conclude (as_key st) st False ms (timeout_summary ms) w"

definition watch_lagged :: "await_state \<Rightarrow> await_world \<Rightarrow> watcher \<times> await_world" where
  "watch_lagged st w = (Watch_Ended, on_runtime (clear_active (as_key st)) w)"

subsection \<open>The handler\<close>

record await_request =
  aq_id :: u64
  aq_session_id :: string
  aq_target_status :: "string list"
  aq_requested_ids :: "string list"
  aq_mode :: "string option"
  aq_timeout_secs :: "u64 option"
  aq_chan :: chan

definition answer_await :: "await_request \<Rightarrow> bool \<Rightarrow> awaited_member list \<Rightarrow> string \<Rightarrow> await_world \<Rightarrow> await_world" where
  "answer_await q completed ms summary =
     on_server (server_send (aq_chan q) (CommAwaitMembersResponse (aq_id q) completed ms summary))"

text \<open>What the request comes to: an answer or none, a panic, or a task that starts to watch.\<close>

datatype await_outcome = Handled | Handler_Panicked | Starts_Watching await_state

definition handle_comm_await_members ::
  "(string list \<Rightarrow> u64) \<Rightarrow> await_request \<Rightarrow> await_world \<Rightarrow> await_outcome \<times> await_world" where
  "handle_comm_await_members hash q w =
     (case swarm_id_for_session (aq_session_id q) (aw_server w) of
        None \<Rightarrow> (Handled, on_server (refuse (aq_id q) (aq_chan q) not_in_swarm) w)
      | Some swarm_id \<Rightarrow>
          let key = await_request_key hash (aq_session_id q) swarm_id (aq_requested_ids q) (aq_target_status q) (aq_mode q);
              (persisted, w) = await_load_state key w
          in case Option.bind persisted as_final_response of
               Some r \<Rightarrow> (Handled, answer_await q (ar_completed r) (ar_members r) (ar_summary r) w)
             | None \<Rightarrow>
                 let ms = awaited_member_statuses (aq_session_id q) swarm_id (aq_requested_ids q) (aq_target_status q) (aw_server w)
                 in if ms = [] then (Handled, answer_await q True [] nobody_to_wait_for w)
                    else
                      let timeout = (case aq_timeout_secs q of None \<Rightarrow> 3600 | Some t \<Rightarrow> t);
                          (st, w) = (case persisted of
                             Some st \<Rightarrow> (st, w)
                           | None \<Rightarrow> await_ensure_pending_state key (aq_session_id q) swarm_id (aq_requested_ids q)
                               (aq_target_status q) (aq_mode q) (now_unix_ms (aw_server w) + timeout * 1000) w);
                          w = on_runtime (add_waiter key (aq_id q) (aq_chan q)) w
                      in if as_deadline st \<le> now_unix_ms (aw_server w)
                         then (case conclude key st False ms (timeout_summary ms) w of
                                 (Watch_Panicked, w) \<Rightarrow> (Handler_Panicked, w)
                               | (_, w) \<Rightarrow> (Handled, w))
                         else let (new, r) = mark_active_if_new key (aw_runtime w); w = w\<lparr>aw_runtime := r\<rparr>
                              in (if new then Starts_Watching st else Handled, w))"


section \<open>Lemmas\<close>

lemma respond_fields:
  "aw_store (respond_to_waiters key c ms t w) = aw_store w"
  "aw_runtime (respond_to_waiters key c ms t w) = clear_active key (snd (take_waiters key (aw_runtime w)))"
  "rw_outbox (sv_world (aw_server (respond_to_waiters key c ms t w))) = rw_outbox (sv_world (aw_server w)) @
     map (\<lambda>(i, tx). (tx, CommAwaitMembersResponse i c ms t)) (hget_or [] (rt_waiters (aw_runtime w)) key)"
proof -
  have "rw_outbox (sv_world (fold (\<lambda>(i, tx). server_send tx (CommAwaitMembersResponse i c ms t)) ws s)) =
      rw_outbox (sv_world s) @ map (\<lambda>(i, tx). (tx, CommAwaitMembersResponse i c ms t)) ws" for ws s
    by (induction ws arbitrary: s) (auto simp: server_send_def on_world_def)
  then show "rw_outbox (sv_world (aw_server (respond_to_waiters key c ms t w))) = rw_outbox (sv_world (aw_server w)) @
     map (\<lambda>(i, tx). (tx, CommAwaitMembersResponse i c ms t)) (hget_or [] (rt_waiters (aw_runtime w)) key)"
    by (simp add: respond_to_waiters_def take_waiters_def on_server_def on_runtime_def)
qed (simp_all add: respond_to_waiters_def take_waiters_def on_server_def on_runtime_def)

lemma conclude_ended:
  "conclude key st c ms t w = (Watch_Ended, w') \<longleftrightarrow>
     (\<exists>summary. t = Some summary \<and> w' = respond_to_waiters key c ms summary (await_persist_final st c ms summary w))"
  by (auto simp: conclude_def split: option.split)

lemma persist_fields [simp]:
  "aw_server (await_persist_final st c ms t w) = aw_server w" "aw_runtime (await_persist_final st c ms t w) = aw_runtime w"
  by (simp_all add: await_persist_final_def await_save_state_def)

lemma persist_stored:
  "rw_writes_ok (sv_world (aw_server w)) \<Longrightarrow>
   aw_store (await_persist_final st c ms t w) = (aw_store w)(as_key st \<mapsto> st\<lparr>as_final_response := Some
     \<lparr>ar_completed = c, ar_members = ms, ar_summary = t, ar_resolved_at = await_now w\<rparr>\<rparr>)"
  by (simp add: await_persist_final_def await_save_state_def save_json_state_def await_now_def)

text \<open>The condition depends only on who is done.\<close>

lemma mode_satisfied_done: "map am_done ms = map am_done ms' \<Longrightarrow> mode_satisfied ms mode = mode_satisfied ms' mode"
proof -
  assume e: "map am_done ms = map am_done ms'"
  have "list_ex am_done xs = list_ex id (map am_done xs)" "list_all am_done xs = list_all id (map am_done xs)" for xs
    by (simp_all add: list_ex_iff list_all_iff)
  from this[of ms] this[of ms'] show ?thesis by (simp only: mode_satisfied_def e)
qed

lemma awaited_statuses_done: "am_done (awaited_status target s sid) =
    status_is_done target (case hget (sv_members s) sid of None \<Rightarrow> ''unknown'' | Some m \<Rightarrow> mb_status m)"
  by (simp add: awaited_status_def split: option.split)

text \<open>
  C18: A poll of the watching task that ends it answers every waiter of the request with the statuses of
  exactly the awaited sessions, and says that they are done only if they are: all of them, or one in the mode
  \<^verbatim>\<open>any\<close>, or there is nobody to wait for. Afterwards nobody waits, the request is no longer active, and the
  answer is stored. The one other end is that the channels of all waiters are closed. A task that goes on sleeps because the
  condition does not hold, and keeps the waiters that are still open.
\<close>

theorem await_poll_sound:
  assumes "watch_poll st req w = (out, w')" "out \<noteq> Watch_Panicked"
  shows "let ms = statuses_for st req w; key = as_key st; waiting = hget_or [] (rt_waiters (aw_runtime w)) key;
             met = (ms = [] \<or> mode_satisfied ms (as_mode st));
             live = filter (\<lambda>(i, tx). \<not> is_closed (aw_server w) tx) waiting
         in (out = Watch_Ended \<longleftrightarrow> met \<or> live = []) \<and>
            (met \<longrightarrow> (\<exists>t. rw_outbox (sv_world (aw_server w')) = rw_outbox (sv_world (aw_server w)) @
                 map (\<lambda>(i, tx). (tx, CommAwaitMembersResponse i True ms t)) waiting \<and>
               (rw_writes_ok (sv_world (aw_server w)) \<longrightarrow>
                 map_option (map_option ar_members \<circ> as_final_response) (aw_store w' key) = Some (Some ms)))) \<and>
            (out = Watch_Ended \<longrightarrow> hget (rt_waiters (aw_runtime w')) key = None \<and> key \<notin> rt_active_keys (aw_runtime w')) \<and>
            (out \<noteq> Watch_Ended \<longrightarrow> out = Watch_Sleeping ms \<and> \<not> met \<and> hget_or [] (rt_waiters (aw_runtime w')) key = live \<and>
               aw_server w' = aw_server w)"
proof -
  define ms where "ms = statuses_for st req w"
  define key where "key = as_key st"
  define waiting where "waiting = hget_or [] (rt_waiters (aw_runtime w)) key"
  define met where "met = (ms = [] \<or> mode_satisfied ms (as_mode st))"
  define live where "live = filter (\<lambda>(i, tx). \<not> is_closed (aw_server w) tx) waiting"
  show ?thesis
  proof (cases met)
    case True
    obtain t where "conclude key st True ms t w = (out, w')"
      using assms(1) True by (auto simp: watch_poll_def Let_def met_def ms_def[symmetric] key_def[symmetric] split: if_splits)
    moreover have "out = Watch_Ended" using calculation assms(2) by (auto simp: conclude_def split: option.splits)
    ultimately obtain t where w': "w' = respond_to_waiters key True ms t (await_persist_final st True ms t w)"
      by (auto simp: conclude_ended)
    then show ?thesis
      using True \<open>out = Watch_Ended\<close>
      by (simp add: Let_def ms_def[symmetric] key_def[symmetric] waiting_def[symmetric] met_def[symmetric] live_def[symmetric]
          respond_fields persist_stored take_waiters_def hmap_simps) (auto simp: key_def met_def)
  next
    case False
    obtain n r where r: "retain_open_waiters (aw_server w) key (aw_runtime w) = (n, r)" by fastforce
    have n: "n = length live" "hget_or [] (rt_waiters r) key = live" "rt_active_keys r = rt_active_keys (aw_runtime w)"
        "live = [] \<Longrightarrow> hget (rt_waiters r) key = None"
      using r by (auto simp: retain_open_waiters_def live_def waiting_def hget_or_def hmap_simps Let_def split: option.splits if_splits)
    have p: "(out, w') = (if n = 0 then (Watch_Ended, on_runtime (clear_active key) (w\<lparr>aw_runtime := r\<rparr>))
        else (Watch_Sleeping ms, w\<lparr>aw_runtime := r\<rparr>))"
      using assms(1) False r[unfolded key_def] by (auto simp: watch_poll_def Let_def met_def ms_def[symmetric] key_def)
    have "ms \<noteq> []" "\<not> mode_satisfied ms (as_mode st)" using False by (simp_all add: met_def)
    then show ?thesis
      using p n False
      by (simp add: Let_def ms_def[symmetric] key_def[symmetric] waiting_def[symmetric] met_def[symmetric] live_def[symmetric]
          on_runtime_def split: if_splits)
  qed
qed


subsection \<open>No report is missed\<close>

text \<open>What the watching task depends on: the statuses, the swarms and the events that were sent.\<close>

definition status_view :: "server \<Rightarrow> (string \<Rightarrow> string option) \<times> (string, string list) hmap \<times> swarm_event list" where
  "status_view s = (\<lambda>sid. map_option mb_status (hget (sv_members s) sid), sv_swarms s, sv_sent_events s)"

lemma status_refreshed [simp]: "mb_status (first_live m) = mb_status m" "mb_status (retain_open s m) = mb_status m"
  by (simp_all add: first_live_def retain_open_def split: list.split prod.split)

interpretation statuses: kept_by_sending status_view
  by unfold_locales (auto simp: status_view_def server_send_def on_world_def modify_member_def hmap_simps fun_eq_iff)

lemma statuses_broadcast: "status_view (broadcast_swarm_status env sw s) = status_view s"
  by (auto simp: broadcast_swarm_status_def Let_def statuses.status_now split: option.split)
     (simp_all add: status_view_def)

definition done_view :: "await_state \<Rightarrow> string \<Rightarrow> await_world \<Rightarrow> bool list" where
  "done_view st req w = map am_done (statuses_for st req w)"

lemma done_view_eq:
  "done_view st req w = map (\<lambda>sid. status_is_done (as_target_status st) (case fst (status_view (aw_server w)) sid of
       None \<Rightarrow> ''unknown'' | Some status \<Rightarrow> status))
     (awaited_ids req (as_swarm_id st) (as_requested_ids st) (aw_server w))"
  by (simp add: done_view_def statuses_for_def awaited_member_statuses_def comp_def awaited_statuses_done status_view_def
      option.case_eq_if option.map_sel cong: if_cong)

text \<open>Every awaited member belongs to a swarm; changes of the others are not sent as events.\<close>

definition awaits_members :: "await_state \<Rightarrow> string \<Rightarrow> await_world \<Rightarrow> bool" where
  "awaits_members st req w \<longleftrightarrow>
     (\<forall>sid \<in> set (awaited_ids req (as_swarm_id st) (as_requested_ids st) (aw_server w)).
        \<forall>m. hget (sv_members (aw_server w)) sid = Some m \<longrightarrow> mb_swarm_id m \<noteq> None)"

text \<open>
  The watching task in the server: the world, the task, and how many events it has received. Sessions report;
  anything else may change the server if it sends an event or leaves alone who is done.
\<close>

inductive await_run :: "server_env \<Rightarrow> await_state \<Rightarrow> string \<Rightarrow> await_world \<Rightarrow> watcher \<Rightarrow> nat \<Rightarrow> bool" for env st req where
  start: "awaits_members st req w \<Longrightarrow> watch_poll st req w = (task, w') \<Longrightarrow>
    await_run env st req w' task (length (sv_sent_events (aw_server w)))"
| report: "await_run env st req w task p \<Longrightarrow>
    await_run env st req (on_server (update_member_status_with_report env sid status detail report) w) task p"
| other: "await_run env st req w task p \<Longrightarrow> sv_sent_events (aw_server w') = sv_sent_events (aw_server w) @ es \<Longrightarrow>
    (es = [] \<Longrightarrow> done_view st req w' = done_view st req w) \<Longrightarrow> awaits_members st req w' \<Longrightarrow> await_run env st req w' task p"
| event: "await_run env st req w (Watch_Sleeping ms) p \<Longrightarrow> p < length (sv_sent_events (aw_server w)) \<Longrightarrow>
    watch_poll st req w = (task, w') \<Longrightarrow> await_run env st req w' task (Suc p)"
| dropped: "await_run env st req w (Watch_Sleeping ms) p \<Longrightarrow> watch_lagged st w = (task, w') \<Longrightarrow> await_run env st req w' task p"
| deadline: "await_run env st req w (Watch_Sleeping ms) p \<Longrightarrow> watch_deadline st ms w = (task, w') \<Longrightarrow> await_run env st req w' task p"

lemma awaits_members_cores:
  "awaits_members st req w \<longleftrightarrow>
     (\<forall>sid \<in> set (awaited_ids req (as_swarm_id st) (as_requested_ids st) (aw_server w)).
        \<forall>c. cores (aw_server w) sid = Some c \<longrightarrow> fst c \<noteq> None)"
  by (auto simp: awaits_members_def cores_def core_def)

lemma awaited_ids_cong: "sv_swarms s' = sv_swarms s \<Longrightarrow> awaited_ids req sw ids s' = awaited_ids req sw ids s"
  by (simp add: awaited_ids_def swarm_sessions_def)

lemma awaits_members_cong: "membership (aw_server w') = membership (aw_server w) \<Longrightarrow> awaits_members st req w' = awaits_members st req w"
  using awaited_ids_cong[of "aw_server w'" "aw_server w"] by (simp add: awaits_members_cores membership_def)

text \<open>An update of a status that is not announced leaves every status of a member in a swarm as it is.\<close>

lemma status_update_view:
  fixes env :: server_env and status :: string and detail report :: "string option"
  assumes "hget (sv_members s) sid = Some m" "mb_swarm_id m = Some sw"
  defines "s' \<equiv> update_member_status_with_report env sid status detail report s"
  shows "\<exists>es. sv_sent_events s' = sv_sent_events s @ es \<and> (es = [] \<longrightarrow> fst (status_view s') = fst (status_view s))"
proof -
  define r where "r = normalize_completion_report report"
  define s1 where "s1 = modify_member sid (\<lambda>x. x\<lparr>
      mb_last_status_change := (if mb_status m \<noteq> status then now_of s else mb_last_status_change x), mb_status := status, mb_detail := detail,
      mb_latest_report := (if r \<noteq> None then r else mb_latest_report x)\<rparr>) s"
  have s1: "sv_sent_events s1 = sv_sent_events s"
      "fst (status_view s1) = (fst (status_view s))(sid := Some status)" "fst (status_view s) sid = Some (mb_status m)"
    using assms(1) by (auto simp: s1_def modify_member_def status_view_def hmap_simps fun_eq_iff)
  define s2 where "s2 = (if mb_status m \<noteq> status
      then record_swarm_event sid (mb_friendly_name m) (Some sw) (StatusChange (mb_status m) status) s1 else s1)"
  have "status_view s' = status_view s2"
    unfolding s'_def update_member_status_with_report_def r_def[symmetric] Let_def
    using assms(1,2)
    by (cases "mb_status m = status")
       (simp_all add: s1_def s2_def statuses_broadcast statuses.fanout split: option.split)
  moreover have "\<exists>es. sv_sent_events s2 = sv_sent_events s @ es \<and> (es = [] \<longrightarrow> fst (status_view s2) = fst (status_view s))"
    using s1 by (cases "mb_status m = status") (auto simp: s2_def record_swarm_event_def Let_def fun_upd_idem)
  ultimately show ?thesis by (simp add: status_view_def)
qed

lemma update_sends_event:
  fixes env :: server_env and sid status :: string and detail report :: "string option"
  assumes "awaits_members st req w"
  defines "w' \<equiv> on_server (update_member_status_with_report env sid status detail report) w"
  shows "awaits_members st req w'"
    and "\<exists>es. sv_sent_events (aw_server w') = sv_sent_events (aw_server w) @ es \<and> (es = [] \<longrightarrow> done_view st req w' = done_view st req w)"
proof -
  define s where "s = aw_server w"
  have w': "aw_server w' = update_member_status_with_report env sid status detail report s" by (simp add: w'_def on_server_def s_def)
  have m: "membership (aw_server w') = membership s" unfolding w' by (rule membership_update_status)
  show "awaits_members st req w'" using assms(1) m awaits_members_cong[of w' w st req] by (simp add: s_def)
  note ids = awaited_ids_cong[OF membership_eqD(2)[OF m], of req "as_swarm_id st" "as_requested_ids st"]
  show "\<exists>es. sv_sent_events (aw_server w') = sv_sent_events (aw_server w) @ es \<and> (es = [] \<longrightarrow> done_view st req w' = done_view st req w)"
  proof (cases "hget (sv_members s) sid")
    case None
    then have "aw_server w' = s" unfolding w' update_member_status_with_report_def by simp
    then show ?thesis by (simp add: done_view_eq s_def)
  next
    case (Some m)
    show ?thesis
    proof (cases "mb_swarm_id m")
      case None
      then have "sid \<notin> set (awaited_ids req (as_swarm_id st) (as_requested_ids st) s)"
        using assms(1) Some by (auto simp: awaits_members_def s_def)
      moreover have "\<exists>f. aw_server w' = modify_member sid f s"
        unfolding w' update_member_status_with_report_def Let_def using Some None by auto
      ultimately show ?thesis
        using ids by (auto simp: done_view_eq s_def[symmetric] status_view_def modify_member_def hmap_simps intro!: map_cong)
    next
      case (Some sw)
      from status_update_view[OF \<open>hget (sv_members s) sid = Some m\<close> this, of env status detail report, folded w']
      show ?thesis using ids by (auto simp: done_view_eq s_def[symmetric])
    qed
  qed
qed


definition condition_met :: "await_state \<Rightarrow> string \<Rightarrow> await_world \<Rightarrow> bool" where
  "condition_met st req w \<longleftrightarrow> statuses_for st req w = [] \<or> mode_satisfied (statuses_for st req w) (as_mode st)"

lemma condition_met_cong: "done_view st req w' = done_view st req w \<Longrightarrow> condition_met st req w' = condition_met st req w"
  using mode_satisfied_done[of "statuses_for st req w'" "statuses_for st req w"]
  by (auto simp: condition_met_def done_view_def)

lemma conclude_not_sleeping: "conclude key st c ms t w \<noteq> (Watch_Sleeping ms', w')"
  by (auto simp: conclude_def split: option.split)

lemma poll_sleeps:
  assumes "watch_poll st req w = (Watch_Sleeping ms, w')"
  shows "\<not> condition_met st req w" "aw_server w' = aw_server w"
  using assms by (auto simp: watch_poll_def condition_met_def Let_def conclude_not_sleeping split: if_splits prod.splits)

lemma same_server: "aw_server w' = aw_server w \<Longrightarrow> condition_met st req w' = condition_met st req w"
    "aw_server w' = aw_server w \<Longrightarrow> awaits_members st req w' = awaits_members st req w"
  by (simp_all add: condition_met_def statuses_for_def awaits_members_def)

lemma await_run_inv:
  assumes "await_run env st req w task p" "task = Watch_Sleeping ms"
  shows "awaits_members st req w \<and> p \<le> length (sv_sent_events (aw_server w)) \<and>
     (p = length (sv_sent_events (aw_server w)) \<longrightarrow> \<not> condition_met st req w)"
  using assms
proof (induction arbitrary: ms rule: await_run.induct)
  case (start w task w')
  then have "aw_server w' = aw_server w" "\<not> condition_met st req w" using poll_sleeps by simp_all
  then show ?case using start same_server[of w' w] by simp
next
  case (report w task p sid status detail rep)
  define w' where "w' = on_server (update_member_status_with_report env sid status detail rep) w"
  note ih = report.IH[OF report.prems]
  then have aw: "awaits_members st req w" by blast
  obtain es where es: "sv_sent_events (aw_server w') = sv_sent_events (aw_server w) @ es"
      "es = [] \<longrightarrow> done_view st req w' = done_view st req w"
    using update_sends_event(2)[OF aw] unfolding w'_def by blast
  have "awaits_members st req w'" using update_sends_event(1)[OF aw] by (simp add: w'_def)
  then show ?case
    using ih es condition_met_cong[of st req w' w] by (auto simp: w'_def[symmetric])
next
  case (other w task p w' es)
  then show ?case using condition_met_cong[of st req w' w] by (cases es) auto
next
  case (event w ms0 p task w')
  then have "aw_server w' = aw_server w" "\<not> condition_met st req w" using poll_sleeps by simp_all
  then show ?case using event same_server[of w' w] by auto
next
  case (dropped w ms0 p task w')
  then show ?case by (simp add: watch_lagged_def)
next
  case (deadline w ms0 p task w')
  then show ?case by (simp add: watch_deadline_def conclude_not_sleeping)
qed

text \<open>
  C17: The task that watches the members of a swarm misses no report: whatever is reported and in whatever order
  events and reports interleave, when it sleeps with no event left to receive, the condition that is
  waited for does not hold.
\<close>

theorem await_misses_no_report:
  assumes "await_run env st req w (Watch_Sleeping ms) p" "p = length (sv_sent_events (aw_server w))"
  shows "statuses_for st req w \<noteq> [] \<and> \<not> mode_satisfied (statuses_for st req w) (as_mode st)"
  using await_run_inv[OF assms(1) refl] assms(2) by (simp add: condition_met_def)

subsection \<open>Answers that are not given, or given too long\<close>

text \<open>
  C37: An answer is repeated for six hours, whatever the members do: once a request timed out, the same request
  is told at once that it timed out, with the statuses of that time, although everybody may be done by now.
\<close>

theorem timed_out_await_stays_timed_out:
  assumes "watch_deadline st ms w = (Watch_Ended, w1)" "rw_writes_ok (sv_world (aw_server w))"
    and "swarm_id_for_session (aq_session_id q) s = Some sw" "now_of s \<le> await_now w + 6 * 60 * 60 * 1000"
    and "as_key st = await_request_key hash (aq_session_id q) sw (aq_requested_ids q) (aq_target_status q) (aq_mode q)"
  shows "\<exists>summary. handle_comm_await_members hash q (w1\<lparr>aw_server := s\<rparr>) =
           (Handled, (w1\<lparr>aw_server := server_send (aq_chan q) (CommAwaitMembersResponse (aq_id q) False ms summary) s\<rparr>))"
proof -
  obtain t where w1: "w1 = respond_to_waiters (as_key st) False ms t (await_persist_final st False ms t w)"
    using assms(1) by (auto simp: watch_deadline_def conclude_ended)
  define r where "r = \<lparr>ar_completed = False, ar_members = ms, ar_summary = t, ar_resolved_at = await_now w\<rparr>"
  have stored: "aw_store w1 (as_key st) = Some (st\<lparr>as_final_response := Some r\<rparr>)"
    by (simp add: w1 respond_fields persist_stored[OF assms(2)] r_def)
  have "\<not> await_is_stale (now_of s) (st\<lparr>as_final_response := Some r\<rparr>)"
    using assms(4) by (simp add: await_is_stale_def r_def AWAIT_FINAL_TTL_def)
  then have l: "await_load_state (as_key st) (w1\<lparr>aw_server := s\<rparr>) = (Some (st\<lparr>as_final_response := Some r\<rparr>), w1\<lparr>aw_server := s\<rparr>)"
    using stored by (simp add: await_load_state_def load_json_state_def await_now_def)
  show ?thesis
    using assms(3) l[unfolded assms(5)]
    by (auto simp: handle_comm_await_members_def answer_await_def on_server_def r_def)
qed

text \<open>
  A request that arrives while the task of an earlier one ends, after it found that nobody listens any more and
  before it gives up the key, is accepted and never watched: it waits, no task watches for it, and the key is
  free.
\<close>

theorem await_arriving_late_is_not_watched:
  assumes "retain_open_waiters s key r = (0, r1)" "key \<in> rt_active_keys r"
    and "mark_active_if_new key (add_waiter key i tx r1) = (new, r2)"
  shows "\<not> new \<and> hget (rt_waiters (clear_active key r2)) key = Some [(i, tx)] \<and> key \<notin> rt_active_keys (clear_active key r2)"
proof -
  have "hget (rt_waiters r1) key = None" "rt_active_keys r1 = rt_active_keys r"
    using assms(1) by (auto simp: retain_open_waiters_def hmap_simps Let_def split: option.splits if_splits)
  then show ?thesis using assms(2,3) by (auto simp: mark_active_if_new_def hmap_simps hget_or_def)
qed

text \<open>
  A request for a session identifier that nobody has and whose eighth byte is inside a character brings its
  handler down when its time is over: the name in the answer is cut there. The request stays stored, and
  the one who waits is not answered.
\<close>

theorem made_up_identifier_panics:
  assumes "swarm_id_for_session (aq_session_id q) (aw_server w) = Some sw" "aq_requested_ids q = [x]"
    and "hget (sv_members (aw_server w)) x = None" "8 < length x" "\<not> is_char_boundary x 8"
    and "\<not> status_is_done (aq_target_status q) ''unknown''" "aq_timeout_secs q = Some 0"
    and "aw_store w (await_request_key hash (aq_session_id q) sw [x] (aq_target_status q) (aq_mode q)) = None"
  shows "\<exists>w'. handle_comm_await_members hash q w = (Handler_Panicked, w') \<and>
           rw_outbox (sv_world (aw_server w')) = rw_outbox (sv_world (aw_server w))"
proof -
  define key where "key = await_request_key hash (aq_session_id q) sw [x] (aq_target_status q) (aq_mode q)"
  define ms where "ms = awaited_member_statuses (aq_session_id q) sw [x] (aq_target_status q) (aw_server w)"
  have ms: "ms = [\<lparr>am_session_id = x, am_friendly_name = None, am_status = ''unknown'', am_done = False, am_completion_report = None\<rparr>]"
    using assms(3,6) by (simp add: ms_def awaited_member_statuses_def awaited_ids_def awaited_status_def)
  have t: "timeout_summary ms = None"
    using assms(4,5) by (simp add: ms timeout_summary_def short_member_name_def min_def)
  have l: "await_load_state key w = (None, w)"
    using assms(8) by (simp add: await_load_state_def load_json_state_def key_def)
  show ?thesis
    using assms(1,2,7) l t
    by (simp add: handle_comm_await_members_def Let_def key_def[symmetric] ms_def[symmetric] ms(1)
        await_ensure_pending_state_def conclude_def await_save_state_def on_runtime_def)
qed


section \<open>Witnesses\<close>

text \<open>The coordinator of the example server waits until the others of its swarm have completed.\<close>

definition demo_await :: await_state where
  "demo_await = \<lparr>as_key = await_request_key (\<lambda>_. 0) ''b'' ''/r'' [] [''completed''] None, as_session_id = ''b'', as_swarm_id = ''/r'',
     as_target_status = [''completed''], as_requested_ids = [], as_mode = None, as_created_at = 0, as_deadline = 1000,
     as_final_response = None\<rparr>"

definition demo_waiting :: await_world where
  "demo_waiting = \<lparr>aw_server = demo_server, aw_store = (\<lambda>_. None),
     aw_runtime = \<lparr>rt_active_keys = {as_key demo_await}, rt_waiters = [(as_key demo_await, [(1, ''to b'')])]\<rparr>\<rparr>"

definition demo_await_request :: await_request where
  "demo_await_request = \<lparr>aq_id = 2, aq_session_id = ''b'', aq_target_status = [''completed''], aq_requested_ids = [], aq_mode = None,
     aq_timeout_secs = None, aq_chan = ''to b''\<rparr>"

lemma demo_awaited: "awaited_ids ''b'' ''/r'' [] demo_server = [''a'']"
  by (simp add: awaited_ids_def demo_server_fields)

lemma demo_statuses: "statuses_for demo_await ''b'' demo_waiting = [\<lparr>am_session_id = ''a'', am_friendly_name = None, am_status = ''ready'',
    am_done = False, am_completion_report = None\<rparr>]"
  by (simp add: statuses_for_def demo_await_def demo_waiting_def awaited_member_statuses_def demo_awaited awaited_status_def
      demo_server_fields demo_member_def new_member_def status_is_done_def)

lemma demo_open: "\<not> is_closed demo_server ''to b''"
  by (simp add: is_closed_def dead_chan_def demo_server_def)

lemma demo_poll: "\<exists>w'. watch_poll demo_await ''b'' demo_waiting = (Watch_Sleeping (statuses_for demo_await ''b'' demo_waiting), w')"
proof -
  have w: "rt_waiters (aw_runtime demo_waiting) = [(as_key demo_await, [(1, ''to b'')])]" "aw_server demo_waiting = demo_server"
    by (simp_all add: demo_waiting_def)
  have m: "as_mode demo_await = None" by (simp add: demo_await_def)
  show ?thesis
    by (simp add: watch_poll_def demo_statuses mode_satisfied_def any_mode_def m retain_open_waiters_def w demo_open Let_def)
qed

lemma await_poll_sound_witness:
  "\<exists>w'. watch_poll demo_await ''b'' demo_waiting = (Watch_Sleeping (statuses_for demo_await ''b'' demo_waiting), w') \<and>
     hget_or [] (rt_waiters (aw_runtime w')) (as_key demo_await) = [(1, ''to b'')]"
proof -
  obtain w' where p: "watch_poll demo_await ''b'' demo_waiting = (Watch_Sleeping (statuses_for demo_await ''b'' demo_waiting), w')"
    using demo_poll by blast
  from await_poll_sound[OF p] have "hget_or [] (rt_waiters (aw_runtime w')) (as_key demo_await) =
      filter (\<lambda>(i, tx). \<not> is_closed (aw_server demo_waiting) tx) (hget_or [] (rt_waiters (aw_runtime demo_waiting)) (as_key demo_await))"
    by (simp add: Let_def)
  with p show ?thesis by (simp add: demo_waiting_def demo_open hget_or_def)
qed

lemma await_misses_no_report_witness:
  "\<exists>w ms. await_run demo_env demo_await ''b'' w (Watch_Sleeping ms) 0 \<and>
     \<not> mode_satisfied (statuses_for demo_await ''b'' w) (as_mode demo_await)"
proof -
  obtain w' where p: "watch_poll demo_await ''b'' demo_waiting = (Watch_Sleeping (statuses_for demo_await ''b'' demo_waiting), w')"
    using demo_poll by blast
  have "awaits_members demo_await ''b'' demo_waiting"
    by (simp add: awaits_members_def demo_await_def demo_waiting_def demo_awaited demo_server_fields demo_member_def)
  from await_run.start[OF this p, of demo_env]
  have r: "await_run demo_env demo_await ''b'' w' (Watch_Sleeping (statuses_for demo_await ''b'' demo_waiting)) 0"
    by (simp add: demo_waiting_def demo_server_def)
  have "aw_server w' = demo_server" using poll_sleeps(2)[OF p] by (simp add: demo_waiting_def)
  then have "0 = length (sv_sent_events (aw_server w'))" by (simp add: demo_server_def)
  from await_misses_no_report[OF r this] r show ?thesis by blast
qed

lemma timed_out_await_stays_timed_out_witness:
  "\<exists>w1 w2 summary. watch_deadline demo_await (statuses_for demo_await ''b'' demo_waiting) demo_waiting = (Watch_Ended, w1) \<and>
     handle_comm_await_members (\<lambda>_. 0) demo_await_request (w1\<lparr>aw_server := demo_server\<rparr>) = (Handled, w2) \<and>
     last (rw_outbox (sv_world (aw_server w2))) =
       (''to b'', CommAwaitMembersResponse 2 False (statuses_for demo_await ''b'' demo_waiting) summary)"
proof -
  obtain w1 where d: "watch_deadline demo_await (statuses_for demo_await ''b'' demo_waiting) demo_waiting = (Watch_Ended, w1)"
    by (simp add: watch_deadline_def conclude_def demo_statuses timeout_summary_def short_member_name_def is_char_boundary_def)
  have "\<exists>summary. handle_comm_await_members (\<lambda>_. 0) demo_await_request (w1\<lparr>aw_server := demo_server\<rparr>) =
      (Handled, w1\<lparr>aw_server := server_send (aq_chan demo_await_request) (CommAwaitMembersResponse (aq_id demo_await_request) False
        (statuses_for demo_await ''b'' demo_waiting) summary) demo_server\<rparr>)"
    by (rule timed_out_await_stays_timed_out[OF d, where sw = "''/r''"])
       (simp_all add: demo_waiting_def demo_server_fields demo_world_def demo_await_request_def swarm_id_for_session_def demo_member_def
          demo_await_def await_now_def)
  with d show ?thesis by (auto simp: last_send demo_await_request_def)
qed

lemma await_arriving_late_is_not_watched_witness:
  "hget (rt_waiters (clear_active ''k'' (snd (mark_active_if_new ''k'' (add_waiter ''k'' 2 ''to b''
      (snd (retain_open_waiters demo_server ''k'' \<lparr>rt_active_keys = {''k''}, rt_waiters = [(''k'', [(1, dead_chan)])]\<rparr>))))))) ''k'' =
    Some [(2, ''to b'')]"
proof -
  define r :: request_runtime where "r = \<lparr>rt_active_keys = {''k''}, rt_waiters = [(''k'', [(1, dead_chan)])]\<rparr>"
  have "retain_open_waiters demo_server ''k'' r = (0, snd (retain_open_waiters demo_server ''k'' r))"
    by (simp add: r_def retain_open_waiters_def is_closed_def Let_def)
  moreover have "''k'' \<in> rt_active_keys r" by (simp add: r_def)
  ultimately show ?thesis
    using await_arriving_late_is_not_watched[where s = demo_server and key = "''k''" and r = r and i = 2 and tx = "''to b''"]
    unfolding r_def[symmetric] by (metis prod.collapse)
qed

definition demo_made_up :: string where
  "demo_made_up = ''session'' @ [CHR 0xC3, CHR 0xA9]"

lemma made_up_identifier_panics_witness:
  "fst (handle_comm_await_members (\<lambda>_. 0) (demo_await_request\<lparr>aq_target_status := [''ready''], aq_requested_ids := [demo_made_up], aq_timeout_secs := Some 0\<rparr>)
     demo_waiting) = Handler_Panicked"
proof -
  have "\<exists>w'. handle_comm_await_members (\<lambda>_. 0) (demo_await_request\<lparr>aq_target_status := [''ready''], aq_requested_ids := [demo_made_up], aq_timeout_secs := Some 0\<rparr>)
      demo_waiting = (Handler_Panicked, w') \<and>
      rw_outbox (sv_world (aw_server w')) = rw_outbox (sv_world (aw_server demo_waiting))"
    by (rule made_up_identifier_panics[where sw = "''/r''" and x = demo_made_up])
       (simp_all add: demo_waiting_def demo_server_fields demo_await_request_def swarm_id_for_session_def demo_member_def demo_made_up_def
          is_char_boundary_def utf8_cont_def status_is_done_def)
  then show ?thesis by auto
qed

end
