(* ===== verification/Spec2Isabelle.thy ===== *)
theory Spec2Isabelle
  imports Rust_Prelude Swarm_Schedule Swarm_Core Messages Compaction Compaction_Manager Mobile_Sim Mobile_UI
    Memory_Rank Memory_Entry Memory_Graph Workspace_Map Color_Support
    Session_Types Session_Store Session_View Text_Ops File_Tools Patch_Tools Unified_Patch Ambient Storage Safety
    Memory_Pending Swarm_Requests Swarm_State Swarm_Runtime Swarm_Membership Swarm_Recovery Swarm_Proposals Swarm_Await
begin

text \<open>
  Verification of the core of gcode-harness, a coding-agent harness written in Rust. The program
  is a server that runs language-model sessions, a terminal client, a set of tools the model calls,
  and a set of small crates that hold the decisions: which task a swarm of agents may work on, where a
  conversation may be compacted, which memories are recalled, what an edit does to a file. The
  development models those decisions, the state of the server that coordinates a swarm of sessions, and
  what is kept on disk; sockets, processes, rendering and HTTP are around them.

  \<^bold>\<open>The parts and the theories that model them\<close> (paths under \<^verbatim>\<open>src/\<close>)

  \<^item> \<open>Rust_Prelude\<close>: strings as UTF-8 byte lists, hash maps as association lists (the order of
    the list stands for the unspecified iteration order), \<^verbatim>\<open>BTreeSet\<close> iteration as sorted lists,
    trimming, joining, the integers that keep their width; the lemmas the components share.
  \<^item> \<open>Swarm_Plan\<close>, \<open>Swarm_Cycles\<close>, \<open>Swarm_Schedule\<close>: \<^verbatim>\<open>crates/gcode-plan/src/lib.rs\<close>. Plan items
    with dependencies; Kahn's algorithm of \<^verbatim>\<open>cycle_item_ids\<close>; the summary of the plan; the choice of
    the next task; restart and assignment texts. \<open>Swarm_Cycles\<close> proves the algorithm against the
    transitive closure of the dependency relation, \<open>Swarm_Schedule\<close> the functions built on it.
  \<^item> \<open>Swarm_Core\<close>: \<^verbatim>\<open>crates/gcode-swarm-core/src/lib.rs\<close>. Roles and statuses, the channel
    subscription index with its two redundant maps, completion reports. The index refines a set of
    subscriptions (locale \<open>subscription_registry\<close>, interpreted on the index).
  \<^item> \<open>Messages\<close>, \<open>Compaction\<close>: \<^verbatim>\<open>crates/gcode-message-types\<close>, \<^verbatim>\<open>crates/gcode-compaction-core\<close>. Content
    blocks, tool identifiers, dynamic system context; the cutoff that never separates a tool call from
    its result, emergency truncation, token estimates, the prompt of the summary.
  \<^item> \<open>Float_Ops\<close>, \<open>Compaction_Manager\<close>: \<^verbatim>\<open>src/compaction.rs\<close>. The manager that decides when the front of
    a conversation becomes a summary: the rolling size estimate, the thresholds, the background task,
    the emergency compaction, the messages sent. \<open>session_run\<close> is the relation of the states a session
    reaches. \<open>Float_Ops\<close> is IEEE rounding of exact rationals, which the thresholds use.
  \<^item> \<open>Session_Types\<close>, \<open>Session_Store\<close>, \<open>Session_View\<close>: \<^verbatim>\<open>crates/gcode-session-types\<close>,
    \<^verbatim>\<open>src/session.rs\<close>, \<^verbatim>\<open>src/session/\<close>. A session, its snapshot file and the journal of increments
    (\<open>session_history\<close> relates a session and the files after any changes, saves and failures), the
    cache of provider messages, the memory profile; the transcript as shown and the recovery of
    sessions whose process died.
  \<^item> \<open>Memory_Entry\<close>, \<open>Memory_Rank\<close>, \<open>Memory_Graph\<close>: \<^verbatim>\<open>crates/gcode-memory-types\<close>. Memory entries,
    confidence and search; the bounded heap that selects the best k (locale \<open>selection_order\<close>); the
    graph of memories, tags and typed edges with its reverse index.
  \<^item> \<open>Mobile_Sim\<close>, \<open>Mobile_UI\<close>: \<^verbatim>\<open>crates/gcode-mobile-core\<close>. The reducer of the simulated
    application, its effects and their handling (locale \<open>effect_machine\<close>), the store with its logs,
    replay traces; the user interface tree, hit testing, the SVG scene, screenshot comparison.
  \<^item> \<open>Workspace_Map\<close>, \<open>Color_Support\<close>: \<^verbatim>\<open>crates/gcode-tui-workspace\<close>. The map of session rows with
    its focus (locale \<open>ordered_map\<close> for the \<^verbatim>\<open>BTreeMap\<close>); terminal colours.
  \<^item> \<open>Text_Ops\<close>, \<open>File_Tools\<close>, \<open>Patch_Tools\<close>: \<^verbatim>\<open>src/tool/edit.rs\<close>, \<^verbatim>\<open>multiedit.rs\<close>, \<^verbatim>\<open>write.rs\<close>,
    \<^verbatim>\<open>read.rs\<close>, \<^verbatim>\<open>apply_patch.rs\<close>. The tools that read and change files, over a world of files
    (locale \<open>file_store\<close>), as functions from the world to a result and the world after it.
  \<^item> \<open>Unified_Patch\<close>: \<^verbatim>\<open>src/tool/patch.rs\<close>. The parser of unified diffs and the application of
    hunks, bottom up, over the same file world.
  \<^item> \<open>Ambient\<close>: \<^verbatim>\<open>src/ambient.rs\<close> and its \<^verbatim>\<open>persistence.rs\<close>, \<^verbatim>\<open>manager.rs\<close>, \<^verbatim>\<open>directives.rs\<close>. The
    queue of scheduled work (locale \<open>due_queue\<close>), the state of the ambient cycle, the lock file as
    the step relations \<open>lock_step\<close> and \<open>race_step\<close>.
  \<^item> \<open>Storage\<close>: \<^verbatim>\<open>crates/gcode-storage/src/lib.rs\<close>. Atomic writes with a backup file as the relation
    \<open>write_step\<close> over a directory that may be lost at any point, reading with recovery, the
    environment files.
  \<^item> \<open>Safety\<close>: \<^verbatim>\<open>src/safety.rs\<close>. The queue of permission requests, decisions and their files, the
    expiry of requests of dead sessions.
  \<^item> \<open>Memory_Pending\<close>: \<^verbatim>\<open>src/memory/pending.rs\<close>. The memories waiting to be injected, the two
    suppression rules, the identifiers already injected.
  \<^item> \<open>Swarm_Requests\<close>: \<^verbatim>\<open>src/server/durable_state.rs\<close>, \<^verbatim>\<open>swarm_mutation_state.rs\<close>. Requests that are carried
    out once although clients repeat them; \<open>requests_reach\<close> is the relation of the states that handlers
    reach in any interleaving of their steps.
  \<^item> \<open>Swarm_State\<close>, \<open>Swarm_Runtime\<close>, \<open>Swarm_Membership\<close>, \<open>Swarm_Recovery\<close>, \<open>Swarm_Proposals\<close>:
    \<^verbatim>\<open>src/server/state.rs\<close>, \<^verbatim>\<open>swarm.rs\<close>, \<^verbatim>\<open>swarm_persistence.rs\<close>, \<^verbatim>\<open>client_session.rs\<close>,
    \<^verbatim>\<open>client_disconnect_cleanup.rs\<close>, \<^verbatim>\<open>client_actions.rs\<close>, \<^verbatim>\<open>comm_session.rs\<close>, \<^verbatim>\<open>comm_control.rs\<close>,
    \<^verbatim>\<open>headless.rs\<close>, \<^verbatim>\<open>comm_plan.rs\<close>, \<^verbatim>\<open>client_comm_*.rs\<close>. The record \<open>server\<close> holds what the shared tables of
    the server hold; an operation is a function from server to server that performs the changes, the
    sends and the writes of its handler in order. \<open>Swarm_Runtime\<close>: broadcasts, staleness of tasks,
    departure, member status. \<open>Swarm_Membership\<close>: subscribing, clearing, resuming, toggling,
    spawning, stopping, roles (\<open>server_run\<close> is any sequence of them). \<open>Swarm_Recovery\<close>: what a
    restart recovers. \<open>Swarm_Proposals\<close>: plan proposals, shared context, channels, messages.
  \<^item> \<open>Swarm_Await\<close>: \<^verbatim>\<open>src/server/comm_await.rs\<close>, \<^verbatim>\<open>await_members_state.rs\<close>. Waiting for other members;
    \<open>await_run\<close> is the relation of the watching task, the events it has still to receive and the reports of
    the sessions.

  The parts interact as the crates do. The plan functions use the statuses of the swarm core; the
  compaction functions read the messages; the graph holds memory entries and ranks them; the tools
  share the file world and the text operations. A stored session is what the manager compacts and what
  the transcript shows; the server's plans are those of the plan functions, its subscriptions the channel
  index, and its mutations go through the requests.

  \<^bold>\<open>How the code is read\<close>

  A struct is a \<^verbatim>\<open>record\<close>, an enum a \<^verbatim>\<open>datatype\<close>, a method a function from the old value to the new
  one. A \<^verbatim>\<open>Result\<close> is a sum (\<^verbatim>\<open>Inl\<close> the error); where a panic can be reached the result type has a
  value for it (\<^verbatim>\<open>Panic\<close> of \<open>File_Tools\<close>, \<^verbatim>\<open>None\<close> for a failing index or slice). Lengths and indices are
  \<^typ>\<open>nat\<close> with truncating subtraction only where the code saturates or has checked the bound;
  values the code stores at a width, or wraps, are words or integers with the wrap-around written out.
  Floating-point scores of memories are kept abstract: \<open>Memory_Rank\<close> orders the \<^verbatim>\<open>f32\<close> by its bits as
  \<^verbatim>\<open>total_cmp\<close> does. Where thresholds are computed (\<open>Compaction_Manager\<close>) the
  arithmetic is exact rational arithmetic rounded after every operation, as \<open>Float_Ops\<close> defines it.

  An asynchronous handler gives way at every lock. \<open>Swarm_Requests\<close>, the status broadcasts of
  \<open>Swarm_Runtime\<close>, the watching task of \<open>Swarm_Await\<close> and the lock and file relations have the interleavings as steps; the other handlers of the
  server run from start to end. Soft interrupts, the event history and the outbox record what was
  handed over, in order; a closed channel drops what it is sent.

  Code that is not in the repository is a parameter: \<open>lower\<close> (Unicode lower-casing), \<open>iter\<close> (the
  iteration order of a hash map, any permutation), \<open>text_diff\<close> (the line diff of the crate
  \<^verbatim>\<open>similar\<close>), the environment variables of the terminal, \<open>enc\<close> and \<open>dec\<close> (serde's printing and parsing of
  JSON), \<open>session_status\<close> (the liveness of a session), the standard hasher of request keys, the summarizing model and\n  the embedding model of the compaction, the git directory of a path and the environment (\<open>server_env\<close>), which\n  writes succeed, the clock. What a theorem needs of them is a
  named hypothesis, and its witness instantiates it.

  \<^bold>\<open>What the theorems show\<close>

  The properties carry numbers (C1, C2, ...) at the theorems. Broadly: the plan functions agree with
  the graph of dependencies and never deadlock an acyclic plan; the indexes kept twice (channels,
  reverse edges, row maps) stay consistent under every operation; a cutoff never separates a call
  from its result and is the latest such; the edit tools change exactly what they report and nothing on
  error; a patch is applied as the relation of matching segments prescribes and is parsed as it is
  printed; the simulator's log determines its state; the optimised routines (heap selection,
  nearest colour, hit testing) agree with their definitions. A saved session is read back as it was,
  whatever failed before; the messages sent after any compactions are a summary and a suffix in which
  no result lacks its call. In the server, the set of a swarm holds exactly the members that name it,
  a leaving coordinator is succeeded by the smallest identifier that is not headless, a restart
  recovers the stored swarms, at most one handler of a request is at work, and no status change is
  left unsent, and a task that watches members misses no report. Where the code does not do what it means to, the theorem states what it does: compactions
  that overlap, retries that execute twice or are never answered, a coordinator that loses its swarm
  by reconnecting, a member that is back after a restart, a second proposal that is answered as
  applied and is not, a wait that stays timed out for hours.

  \<^bold>\<open>Bounds and termination\<close>

  Every function is total: the recursion is structural or has a measure (the heap and queue loops,
  the dispatch loop of the simulator, whose pending work shrinks because effects never cause effects).
  No fuel is used, so no theorem depends on a bound that might not be enough. Loops that wait (a
  background task, a debounced broadcast, a handler between locks) are steps of a relation.

  \<^bold>\<open>Not modelled\<close>

  The agent turn loop and what runs inside a turn (assigned tasks, woken sessions), providers and their
  streaming parsers, authentication, attaching to live sessions and reloading the server, the terminal
  and desktop clients, markdown and diagram rendering, telemetry and the command line: their substance
  is input and output, or presentation over external libraries. Vector similarity and the cascade
  retrieval of the memory graph are floating-point arithmetic over an external model; the interval estimate
  of the ambient scheduler is a heuristic. JSON schemas and derived
  serialisation are declarations.
\<close>

end
